(* ===== verification/Prelude.thy ===== *)
theory Prelude
  imports Complex_Main "HOL-Library.AList" "HOL-Library.Multiset" "HOL-Library.Sublist"
begin

text \<open>
  What the components share: the fragment of JavaScript's standard library the sources use
  (stable \<open>Array.sort\<close> with a comparator, negative \<open>slice\<close>, \<open>join\<close>, \<open>trim\<close>, number
  formatting, insertion-ordered \<open>Map\<close> and \<open>Set\<close>), computations that read and write an object's
  fields and may throw, and the lemmas about them.

  Strings are \<open>char list\<close>: one \<open>char\<close> is one code point in the range 0 to 255, so a UTF-8
  length counts one byte below 128 and two bytes above. Numbers of the source that count or
  measure time are unbounded integers.
\<close>

named_theorems js_simps \<open>evaluation rules of the JavaScript library fragment\<close>
named_theorems op_defs \<open>unfolding of computations that read and write an object\<close>

subsection \<open>Computations on an object that may throw\<close>

text \<open>
  A method takes the object's state and returns the value or the thrown error together with
  the state at that point: fields written before a \<open>throw\<close> stay written.
\<close>

type_synonym ('s, 'e, 'a) comp = "'s \<Rightarrow> ('e + 'a) \<times> 's"

definition ret :: "'a \<Rightarrow> ('s, 'e, 'a) comp" where
  "ret x s = (Inr x, s)"

definition throw :: "'e \<Rightarrow> ('s, 'e, 'a) comp" where
  "throw e s = (Inl e, s)"

definition andThen :: "('s, 'e, 'a) comp \<Rightarrow> ('a \<Rightarrow> ('s, 'e, 'b) comp) \<Rightarrow> ('s, 'e, 'b) comp" where
  "andThen m f s = (case m s of (Inl e, t) \<Rightarrow> (Inl e, t) | (Inr x, t) \<Rightarrow> f x t)"

definition getS :: "('s, 'e, 's) comp" where
  "getS s = (Inr s, s)"

definition modifyS :: "('s \<Rightarrow> 's) \<Rightarrow> ('s, 'e, unit) comp" where
  "modifyS f s = (Inr (), f s)"

declare ret_def [op_defs] throw_def [op_defs] andThen_def [op_defs] getS_def [op_defs]
  modifyS_def [op_defs]

lemma andThen_InrE:
  assumes "andThen m f s = (Inr y, u)"
  obtains x t where "m s = (Inr x, t)" and "f x t = (Inr y, u)"
  using assms by (auto simp: andThen_def split: prod.splits sum.splits)

lemma andThen_ret [simp]: "andThen (ret x) f = f x"
  by (rule ext) (simp add: andThen_def ret_def)

lemma andThen_assoc: "andThen (andThen m f) g = andThen m (\<lambda>x. andThen (f x) g)"
  by (rule ext) (simp add: andThen_def split: prod.splits sum.splits)

text \<open>An invariant kept by every step of a sequence is kept by the sequence.\<close>

definition preserves :: "('s \<Rightarrow> bool) \<Rightarrow> ('s, 'e, 'a) comp \<Rightarrow> bool" where
  "preserves I m \<longleftrightarrow> (\<forall>s. I s \<longrightarrow> I (snd (m s)))"

lemma preservesI: "(\<And>s. I s \<Longrightarrow> I (snd (m s))) \<Longrightarrow> preserves I m"
  by (simp add: preserves_def)

lemma preservesD: "preserves I m \<Longrightarrow> I s \<Longrightarrow> I (snd (m s))"
  by (simp add: preserves_def)

lemma preserves_ret [intro]: "preserves I (ret x)"
  by (simp add: preserves_def ret_def)

lemma preserves_throw [intro]: "preserves I (throw e)"
  by (simp add: preserves_def throw_def)

lemma preserves_andThen [intro]:
  assumes "preserves I m" and "\<And>x. preserves I (f x)"
  shows "preserves I (andThen m f)"
proof (rule preservesI)
  fix s
  assume "I s"
  then have t: "I (snd (m s))" using assms(1) by (rule preservesD [rotated])
  obtain r t where mt: "m s = (r, t)" by fastforce
  show "I (snd (andThen m f s))"
  proof (cases r)
    case (Inl e)
    with t mt show ?thesis by (simp add: andThen_def)
  next
    case (Inr x)
    with t mt preservesD [OF assms(2) [of x]] show ?thesis by (simp add: andThen_def)
  qed
qed

subsection \<open>Functions that throw\<close>

text \<open>A function that reads nothing and may throw returns \<open>'e + 'a\<close>; a statement after another.\<close>

definition bindE :: "'e + 'a \<Rightarrow> ('a \<Rightarrow> 'e + 'b) \<Rightarrow> 'e + 'b" where
  "bindE m f = (case m of Inl e \<Rightarrow> Inl e | Inr x \<Rightarrow> f x)"

definition ensure :: "bool \<Rightarrow> 'e \<Rightarrow> 'e + unit" where
  "ensure b e = (if b then Inr () else Inl e)"

lemma bindE_simps [simp]: "bindE (Inl e) f = Inl e" "bindE (Inr x) f = f x"
  by (simp_all add: bindE_def)

lemma bindE_eq_Inr_iff: "bindE m f = Inr y \<longleftrightarrow> (\<exists>x. m = Inr x \<and> f x = Inr y)"
  by (auto simp: bindE_def split: sum.splits)

lemma ensure_eq_Inr_iff [simp]: "ensure b e = Inr u \<longleftrightarrow> b"
  by (simp add: ensure_def)

lemma bindE_cong [fundef_cong]: "m = m' \<Longrightarrow> (\<And>x. m' = Inr x \<Longrightarrow> f x = f' x) \<Longrightarrow> bindE m f = bindE m' f'"
  by (simp add: bindE_def split: sum.split)

text \<open>Such a function as a computation that leaves the object alone.\<close>

definition liftE :: "'e + 'a \<Rightarrow> ('s, 'e, 'a) comp" where
  "liftE x s = (x, s)"

text \<open>The results of a list of such functions, or the first error.\<close>

fun sequenceE :: "('e + 'a) list \<Rightarrow> 'e + 'a list" where
  "sequenceE [] = Inr []"
| "sequenceE (m # ms) = bindE m (\<lambda>x. bindE (sequenceE ms) (\<lambda>xs. Inr (x # xs)))"

text \<open>What the sources read of a thrown value: \<open>code\<close> if it is a string, \<open>name\<close> if it is an
  \<open>Error\<close>, its message, and whether it carries \<open>retryable: false\<close>.\<close>

record thrown =
  thrown_code :: "string option"
  thrown_name :: "string option"
  thrown_message :: string
  thrown_nonRetryable :: bool

definition plain_error :: "string \<Rightarrow> thrown" where
  "plain_error message = \<lparr>thrown_code = None, thrown_name = Some ''Error'',
     thrown_message = message, thrown_nonRetryable = False\<rparr>"

subsection \<open>Weakest preconditions\<close>

text \<open>
  \<open>wp m Q s\<close>: started in \<open>s\<close>, the computation ends with a value or an error and a state that
  satisfy \<open>Q\<close>. The rules are equations, so the simplifier computes the precondition of a
  sequence from those of its steps.
\<close>

named_theorems wp_simps \<open>weakest preconditions of the basic computations\<close>

definition wp :: "('s, 'e, 'a) comp \<Rightarrow> ('e + 'a \<Rightarrow> 's \<Rightarrow> bool) \<Rightarrow> 's \<Rightarrow> bool" where
  "wp m Q s \<longleftrightarrow> (case m s of (res, t) \<Rightarrow> Q res t)"

lemma wp_ret [wp_simps]: "wp (ret x) Q s = Q (Inr x) s"
  by (simp add: wp_def ret_def)

lemma wp_throw [wp_simps]: "wp (throw e) Q s = Q (Inl e) s"
  by (simp add: wp_def throw_def)

lemma wp_modifyS [wp_simps]: "wp (modifyS f) Q s = Q (Inr ()) (f s)"
  by (simp add: wp_def modifyS_def)

lemma wp_andThen [wp_simps]:
  "wp (andThen m f) Q s = wp m (\<lambda>res t. case res of Inl e \<Rightarrow> Q (Inl e) t | Inr x \<Rightarrow> wp (f x) Q t) s"
  by (auto simp: wp_def andThen_def split: prod.splits sum.splits)

lemma wp_consequence: "wp m P s \<Longrightarrow> (\<And>res t. P res t \<Longrightarrow> Q res t) \<Longrightarrow> wp m Q s"
  by (auto simp: wp_def split: prod.splits)

lemma wpD: "wp m Q s \<Longrightarrow> m s = (res, t) \<Longrightarrow> Q res t"
  by (simp add: wp_def)

lemma wp_snd: "wp m (\<lambda>_ t. P t) s \<Longrightarrow> P (snd (m s))"
  by (auto simp: wp_def split: prod.splits)

subsection \<open>Stable sorting with a comparator\<close>

text \<open>
  \<open>Array.prototype.sort(cmp)\<close> is stable. Inserting the elements from the right, each before
  the first element it does not exceed, keeps elements that compare equal in their order.
\<close>

fun js_insert :: "('a \<Rightarrow> 'a \<Rightarrow> int) \<Rightarrow> 'a \<Rightarrow> 'a list \<Rightarrow> 'a list" where
  "js_insert cmp x [] = [x]"
| "js_insert cmp x (y # ys) = (if cmp x y \<le> 0 then x # y # ys else y # js_insert cmp x ys)"

fun js_sort :: "('a \<Rightarrow> 'a \<Rightarrow> int) \<Rightarrow> 'a list \<Rightarrow> 'a list" where
  "js_sort cmp [] = []"
| "js_sort cmp (x # xs) = js_insert cmp x (js_sort cmp xs)"

lemma mset_js_insert [simp]: "mset (js_insert cmp x xs) = {#x#} + mset xs"
  by (induction xs) auto

lemma mset_js_sort [simp]: "mset (js_sort cmp xs) = mset xs"
  by (induction xs) auto

lemma set_js_sort [simp]: "set (js_sort cmp xs) = set xs"
  by (metis mset_js_sort set_mset_mset)

lemma length_js_sort [simp]: "length (js_sort cmp xs) = length xs"
  by (metis mset_js_sort size_mset)

lemma js_sort_eq_Nil_iff [simp]: "js_sort cmp xs = [] \<longleftrightarrow> xs = []"
  by (metis length_0_conv length_js_sort)

lemma set_js_insert: "set (js_insert cmp x xs) = insert x (set xs)"
  by (metis mset_js_insert set_mset_mset set_mset_add_mset_insert add_mset_add_single union_commute)

lemma distinct_js_sort [simp]: "distinct (js_sort cmp xs) = distinct xs"
  by (metis mset_js_sort mset_eq_imp_distinct_iff)

text \<open>What a comparator promises to \<open>sort\<close>: a total preorder.\<close>

locale js_comparator =
  fixes cmp :: "'a \<Rightarrow> 'a \<Rightarrow> int"
  assumes cmp_total: "cmp x y \<le> 0 \<or> cmp y x \<le> 0"
    and cmp_trans: "cmp x y \<le> 0 \<Longrightarrow> cmp y z \<le> 0 \<Longrightarrow> cmp x z \<le> 0"
begin

lemma sorted_insert_cmp:
  assumes "sorted_wrt (\<lambda>x y. cmp x y \<le> 0) xs"
  shows "sorted_wrt (\<lambda>x y. cmp x y \<le> 0) (js_insert cmp x xs)"
  using assms
proof (induction xs)
  case Nil
  then show ?case by simp
next
  case (Cons y ys)
  show ?case
  proof (cases "cmp x y \<le> 0")
    case True
    with Cons.prems show ?thesis by (auto intro: cmp_trans)
  next
    case False
    with cmp_total have "cmp y x \<le> 0" by blast
    with Cons False show ?thesis by (auto simp: set_js_insert)
  qed
qed

lemma sorted_sort_cmp: "sorted_wrt (\<lambda>x y. cmp x y \<le> 0) (js_sort cmp xs)"
  by (induction xs) (auto intro: sorted_insert_cmp)

lemma sort_cmp_refl: "cmp x x \<le> 0"
  using cmp_total by blast

lemma sort_cmp_hd:
  assumes "js_sort cmp xs = y # ys" and "z \<in> set xs"
  shows "cmp y z \<le> 0"
proof -
  from assms(2) have "z \<in> set (y # ys)" using assms(1) set_js_sort [of cmp xs] by simp
  moreover have "sorted_wrt (\<lambda>x y. cmp x y \<le> 0) (y # ys)"
    using sorted_sort_cmp [of xs] assms(1) by simp
  ultimately show ?thesis using sort_cmp_refl by auto
qed

end

text \<open>Comparing two numbers by subtraction, and falling back to a second key on a tie.\<close>

definition cmp_by :: "('a \<Rightarrow> int) \<Rightarrow> 'a \<Rightarrow> 'a \<Rightarrow> int" where
  "cmp_by f x y = f x - f y"

definition or_else_cmp :: "('a \<Rightarrow> 'a \<Rightarrow> int) \<Rightarrow> ('a \<Rightarrow> 'a \<Rightarrow> int) \<Rightarrow> 'a \<Rightarrow> 'a \<Rightarrow> int" where
  "or_else_cmp c d x y = (if c x y \<noteq> 0 then c x y else d x y)"

text \<open>A comparator whose sign flips with its arguments: ties are symmetric.\<close>

locale js_order = js_comparator +
  assumes cmp_flip: "cmp x y < 0 \<longleftrightarrow> 0 < cmp y x"
begin

lemma cmp_tie_sym: "cmp x y = 0 \<longleftrightarrow> cmp y x = 0"
  using cmp_flip [of x y] cmp_flip [of y x] by linarith

lemma cmp_self: "cmp x x = 0"
  using cmp_flip [of x x] by linarith

lemma cmp_ge: "0 \<le> cmp x y \<Longrightarrow> cmp y x \<le> 0"
  using cmp_flip [of x y] cmp_flip [of y x] by linarith

lemma cmp_less_trans: "cmp x y < 0 \<Longrightarrow> cmp y z \<le> 0 \<Longrightarrow> cmp x z < 0"
  using cmp_trans [of y z x] cmp_ge [of x z] cmp_flip [of x y] by linarith

lemma cmp_le_less_trans: "cmp x y \<le> 0 \<Longrightarrow> cmp y z < 0 \<Longrightarrow> cmp x z < 0"
  using cmp_trans [of z x y] cmp_ge [of x z] cmp_flip [of y z] by linarith

end

lemma js_order_cmp_by: "js_order (cmp_by f)"
  by unfold_locales (auto simp: cmp_by_def)

interpretation cmp_by: js_order "cmp_by f"
  by (rule js_order_cmp_by)

lemma js_order_or_else:
  assumes "js_order c" and "js_order d"
  shows "js_order (or_else_cmp c d)"
proof -
  have ct: "\<And>x y. c x y \<le> 0 \<or> c y x \<le> 0" and cf: "\<And>x y. c x y < 0 \<longleftrightarrow> 0 < c y x"
    using assms(1) by (auto simp: js_order_def js_comparator_def js_order_axioms_def)
  have dt: "\<And>x y. d x y \<le> 0 \<or> d y x \<le> 0" and df: "\<And>x y. d x y < 0 \<longleftrightarrow> 0 < d y x"
    using assms(2) by (auto simp: js_order_def js_comparator_def js_order_axioms_def)
  note c1 = js_order.cmp_less_trans [OF assms(1)] and c2 = js_order.cmp_le_less_trans [OF assms(1)]
  note c3 = js_comparator.cmp_trans [OF js_order.axioms(1) [OF assms(1)]]
  note d3 = js_comparator.cmp_trans [OF js_order.axioms(1) [OF assms(2)]]
  have c0: "c x z = 0" if "c x y = 0" "c y z = 0" for x y z
    using that c3 [of x y z] c3 [of z y x] cf [of x y] cf [of y x] cf [of y z] cf [of z y]
      cf [of x z] cf [of z x] by linarith
  show ?thesis
  proof unfold_locales
    fix x y
    show "or_else_cmp c d x y \<le> 0 \<or> or_else_cmp c d y x \<le> 0"
      using ct [of x y] dt [of x y] cf [of x y] cf [of y x] by (auto simp: or_else_cmp_def)
    show "or_else_cmp c d x y < 0 \<longleftrightarrow> 0 < or_else_cmp c d y x"
      using cf [of x y] cf [of y x] df [of x y] df [of y x] by (auto simp: or_else_cmp_def)
  next
    fix x y z
    assume xy: "or_else_cmp c d x y \<le> 0" and yz: "or_else_cmp c d y z \<le> 0"
    consider "c x y < 0" "c y z \<le> 0" | "c x y = 0" "d x y \<le> 0" "c y z < 0"
      | "c x y = 0" "c y z = 0" "d x y \<le> 0" "d y z \<le> 0"
      using xy yz by (fastforce simp: or_else_cmp_def split: if_splits)
    then show "or_else_cmp c d x z \<le> 0"
      by cases (use c1 [of x y z] c2 [of x y z] c0 [of x y z] d3 [of x y z]
        in \<open>auto simp: or_else_cmp_def\<close>)
  qed
qed

text \<open>Comparing code unit by code unit: \<open><\<close> on strings and the default order of \<open>sort\<close>.\<close>

fun code_unit_compare :: "string \<Rightarrow> string \<Rightarrow> int" where
  "code_unit_compare [] [] = 0"
| "code_unit_compare [] (y # ys) = -1"
| "code_unit_compare (x # xs) [] = 1"
| "code_unit_compare (x # xs) (y # ys) =
     (if of_char x < (of_char y :: nat) then -1
      else if of_char y < (of_char x :: nat) then 1 else code_unit_compare xs ys)"

lemma code_unit_compare_eq_0 [simp]: "code_unit_compare xs ys = 0 \<longleftrightarrow> xs = ys"
  by (induction xs ys rule: code_unit_compare.induct) (auto dest: antisym_conv3 [THEN iffD1])

lemma code_unit_compare_flip: "code_unit_compare xs ys = - code_unit_compare ys xs"
  by (induction xs ys rule: code_unit_compare.induct) auto

lemma code_unit_compare_trans:
  "code_unit_compare xs ys \<le> 0 \<Longrightarrow> code_unit_compare ys zs \<le> 0 \<Longrightarrow> code_unit_compare xs zs \<le> 0"
proof (induction xs zs arbitrary: ys rule: code_unit_compare.induct)
  case (4 x xs z zs)
  from "4.prems" obtain y ys' where ys: "ys = y # ys'" by (cases ys) auto
  with "4.prems" "4.IH" [of ys'] show ?case by (fastforce split: if_splits)
next
  case (3 x xs)
  then show ?case by (cases ys) auto
qed auto

lemma js_order_code_unit: "js_order code_unit_compare"
proof unfold_locales
  fix x y z
  show "code_unit_compare x y \<le> 0 \<or> code_unit_compare y x \<le> 0"
    using code_unit_compare_flip [of x y] by linarith
  show "code_unit_compare x y < 0 \<longleftrightarrow> 0 < code_unit_compare y x"
    using code_unit_compare_flip [of x y] by linarith
  show "code_unit_compare x y \<le> 0 \<Longrightarrow> code_unit_compare y z \<le> 0 \<Longrightarrow> code_unit_compare x z \<le> 0"
    by (rule code_unit_compare_trans)
qed

interpretation code_unit: js_order code_unit_compare
  by (rule js_order_code_unit)

subsection \<open>Arrays and insertion-ordered maps\<close>

text \<open>\<open>xs.slice(-n)\<close>: the last \<open>n\<close> elements, and the whole array for \<open>-0\<close>.\<close>

definition slice_last :: "nat \<Rightarrow> 'a list \<Rightarrow> 'a list" where
  "slice_last n xs = (if n = 0 then xs else drop (length xs - n) xs)"

lemma length_slice_last: "0 < n \<Longrightarrow> length (slice_last n xs) = min n (length xs)"
  by (simp add: slice_last_def)

lemma set_slice_last: "set (slice_last n xs) \<subseteq> set xs"
  by (auto simp: slice_last_def dest: in_set_dropD)

lemma last_in_slice_last: "x \<in> set (slice_last n (xs @ [x]))"
  by (simp add: slice_last_def drop_Cons' Suc_diff_le split: nat_diff_split)

text \<open>
  A \<open>Map\<close> iterates in insertion order; \<open>set\<close> on a present key keeps its place. \<open>AList.update\<close>,
  \<open>AList.delete\<close> and \<open>map_of\<close> do exactly that on association lists.
\<close>

type_synonym ('k, 'v) jmap = "('k \<times> 'v) list"

abbreviation jget :: "('k, 'v) jmap \<Rightarrow> 'k \<Rightarrow> 'v option" where
  "jget m k \<equiv> map_of m k"

abbreviation jset :: "'k \<Rightarrow> 'v \<Rightarrow> ('k, 'v) jmap \<Rightarrow> ('k, 'v) jmap" where
  "jset \<equiv> AList.update"

abbreviation jdelete :: "'k \<Rightarrow> ('k, 'v) jmap \<Rightarrow> ('k, 'v) jmap" where
  "jdelete \<equiv> AList.delete"

abbreviation jkeys :: "('k, 'v) jmap \<Rightarrow> 'k list" where
  "jkeys m \<equiv> map fst m"

abbreviation jvalues :: "('k, 'v) jmap \<Rightarrow> 'v list" where
  "jvalues m \<equiv> map snd m"

lemma jget_jset [simp]: "jget (jset k v m) k' = (if k' = k then Some v else jget m k')"
  by (simp add: update_conv')

lemma jget_jdelete [simp]: "jget (jdelete k m) k' = (if k' = k then None else jget m k')"
  by (simp add: delete_conv')

lemma jkeys_jset: "set (jkeys (jset k v m)) = insert k (set (jkeys m))"
  by (induction m) auto

lemma distinct_jset [simp]: "distinct (jkeys m) \<Longrightarrow> distinct (jkeys (jset k v m))"
  by (rule distinct_update)

lemma distinct_jdelete [simp]: "distinct (jkeys m) \<Longrightarrow> distinct (jkeys (jdelete k m))"
  by (rule distinct_delete)

lemma jvalues_in_iff:
  assumes "distinct (jkeys m)"
  shows "v \<in> set (jvalues m) \<longleftrightarrow> (\<exists>k. jget m k = Some v)"
  using assms by (force simp: map_of_eq_Some_iff)

lemma jget_not_key: "jget m k = None \<longleftrightarrow> k \<notin> set (jkeys m)"
  by (simp add: map_of_eq_None_iff)

lemma sum_jvalues_jset:
  fixes f :: "'v \<Rightarrow> int"
  assumes "distinct (jkeys m)"
  shows "sum_list (map f (jvalues (jset k v m))) =
    sum_list (map f (jvalues m)) + f v - (case jget m k of None \<Rightarrow> 0 | Some u \<Rightarrow> f u)"
  using assms
  by (induction m) (auto simp: jget_not_key dest: sym split: option.splits)

lemma sum_jvalues_jdelete:
  fixes f :: "'v \<Rightarrow> int"
  assumes "distinct (jkeys m)"
  shows "sum_list (map f (jvalues (jdelete k m))) =
    sum_list (map f (jvalues m)) - (case jget m k of None \<Rightarrow> 0 | Some u \<Rightarrow> f u)"
  using assms
proof (induction m)
  case Nil
  then show ?case by simp
next
  case (Cons p m)
  then have "jdelete (fst p) m = m" by (simp add: delete_id)
  with Cons show ?case by (auto simp: jget_not_key split: option.splits)
qed

text \<open>\<open>[...new Set(xs)]\<close> keeps the first occurrence of each element.\<close>

fun js_unique_from :: "'a list \<Rightarrow> 'a list \<Rightarrow> 'a list" where
  "js_unique_from seen [] = []"
| "js_unique_from seen (x # xs) =
     (if x \<in> set seen then js_unique_from seen xs else x # js_unique_from (x # seen) xs)"

definition js_unique :: "'a list \<Rightarrow> 'a list" where
  "js_unique xs = js_unique_from [] xs"

lemma set_js_unique_from: "set (js_unique_from seen xs) = set xs - set seen"
  by (induction xs arbitrary: seen) auto

lemma distinct_js_unique_from: "distinct (js_unique_from seen xs)"
  by (induction xs arbitrary: seen) (auto simp: set_js_unique_from)

lemma set_js_unique [simp]: "set (js_unique xs) = set xs"
  by (simp add: js_unique_def set_js_unique_from)

lemma distinct_js_unique [simp]: "distinct (js_unique xs)"
  by (simp add: js_unique_def distinct_js_unique_from)

lemma js_unique_eq_Nil [simp]: "js_unique xs = [] \<longleftrightarrow> xs = []"
  by (metis set_empty set_js_unique)

text \<open>\<open>add\<close> of an insertion-ordered \<open>Set\<close>.\<close>

definition set_add :: "'a \<Rightarrow> 'a list \<Rightarrow> 'a list" where
  "set_add x xs = (if x \<in> set xs then xs else xs @ [x])"

subsection \<open>Strings\<close>

fun js_join :: "string \<Rightarrow> string list \<Rightarrow> string" where
  "js_join sep [] = []"
| "js_join sep [x] = x"
| "js_join sep (x # y # ys) = x @ sep @ js_join sep (y # ys)"

definition js_space :: "char \<Rightarrow> bool" where
  "js_space c \<longleftrightarrow> (let n = (of_char c :: nat) in (9 \<le> n \<and> n \<le> 13) \<or> n = 32 \<or> n = 160)"

definition js_trim :: "string \<Rightarrow> string" where
  "js_trim s = rev (dropWhile js_space (rev (dropWhile js_space s)))"

text \<open>\<open>value.replace(/\s+/gu, " ")\<close>: a run of white space becomes one blank.\<close>

function collapse_spaces :: "string \<Rightarrow> string" where
  "collapse_spaces [] = []"
| "collapse_spaces (c # cs) =
     (if js_space c then CHR '' '' # collapse_spaces (dropWhile js_space cs) else c # collapse_spaces cs)"
  by pat_completeness auto
termination
  by (relation "measure length") (auto simp: less_Suc_eq_le length_dropWhile_le)

definition js_startsWith :: "string \<Rightarrow> string \<Rightarrow> bool" where
  "js_startsWith s p \<longleftrightarrow> take (length p) s = p"

text \<open>\<open>new TextEncoder().encode(s).byteLength\<close> for code points up to 255.\<close>

definition utf8_length :: "string \<Rightarrow> nat" where
  "utf8_length s = sum_list (map (\<lambda>c. if (of_char c :: nat) < 128 then 1 else 2) s)"

lemma utf8_length_append [simp]: "utf8_length (s @ t) = utf8_length s + utf8_length t"
  by (simp add: utf8_length_def)

subsection \<open>Numbers\<close>

text \<open>\<open>Number.MAX_SAFE_INTEGER\<close>.\<close>

definition MAX_SAFE_INTEGER :: int where
  "MAX_SAFE_INTEGER = 2 ^ 53 - 1"

subsection \<open>Number formatting: \<open>n.toString(b)\<close>\<close>

definition digit_char :: "nat \<Rightarrow> char" where
  "digit_char d = (if d < 10 then char_of (48 + d) else char_of (87 + d))"

definition char_digit :: "char \<Rightarrow> nat" where
  "char_digit c = (let n = of_char c in if n < 58 then n - 48 else n - 87)"

lemma char_digit_digit_char: "d < 36 \<Longrightarrow> char_digit (digit_char d) = d"
  by (simp add: char_digit_def digit_char_def Let_def)

fun nat_to_base :: "nat \<Rightarrow> nat \<Rightarrow> string" where
  "nat_to_base b n =
     (if b < 2 \<or> n < b then [digit_char n] else nat_to_base b (n div b) @ [digit_char (n mod b)])"

declare nat_to_base.simps [simp del]

fun base_value :: "nat \<Rightarrow> nat \<Rightarrow> string \<Rightarrow> nat" where
  "base_value b acc [] = acc"
| "base_value b acc (c # cs) = base_value b (acc * b + char_digit c) cs"

lemma base_value_append: "base_value b acc (s @ t) = base_value b (base_value b acc s) t"
  by (induction s arbitrary: acc) auto

lemma base_value_nat_to_base:
  assumes "2 \<le> b" and "b \<le> 36"
  shows "base_value b 0 (nat_to_base b n) = n"
  using assms
proof (induction b n rule: nat_to_base.induct)
  case (1 b n)
  show ?case
  proof (cases "n < b")
    case True
    with "1.prems" show ?thesis by (simp add: nat_to_base.simps [of b n] char_digit_digit_char)
  next
    case False
    then have "base_value b 0 (nat_to_base b (n div b)) = n div b" using "1" by simp
    moreover have "n mod b < 36" using "1.prems" by (meson le_trans mod_less_divisor not_less
        order_less_le_trans pos2 zero_less_numeral less_le_trans)
    ultimately show ?thesis using False "1.prems"
      by (simp add: nat_to_base.simps [of b n] base_value_append char_digit_digit_char)
  qed
qed

lemma nat_to_base_inject: "2 \<le> b \<Longrightarrow> b \<le> 36 \<Longrightarrow> nat_to_base b m = nat_to_base b n \<longleftrightarrow> m = n"
  by (metis base_value_nat_to_base)

definition show_nat :: "nat \<Rightarrow> string" where
  "show_nat n = nat_to_base 10 n"

definition int_to_base :: "nat \<Rightarrow> int \<Rightarrow> string" where
  "int_to_base b i = (if i < 0 then CHR ''-'' # nat_to_base b (nat (- i)) else nat_to_base b (nat i))"

definition show_int :: "int \<Rightarrow> string" where
  "show_int i = int_to_base 10 i"

definition pad_start :: "nat \<Rightarrow> char \<Rightarrow> string \<Rightarrow> string" where
  "pad_start n c s = replicate (n - length s) c @ s"

lemma set_nat_to_base: "2 \<le> b \<Longrightarrow> set (nat_to_base b n) \<subseteq> digit_char ` {..<b}"
proof (induction b n rule: nat_to_base.induct)
  case (1 b n)
  then show ?case by (cases "n < b") (auto simp: nat_to_base.simps [of b n])
qed

lemma nat_to_base_not_Nil: "nat_to_base b n \<noteq> []"
  by (simp add: nat_to_base.simps [of b n])

text \<open>A number below \<open>b ^ k\<close> has at most \<open>k\<close> digits.\<close>

lemma length_nat_to_base: "2 \<le> b \<Longrightarrow> 0 < k \<Longrightarrow> n < b ^ k \<Longrightarrow> length (nat_to_base b n) \<le> k"
proof (induction b n arbitrary: k rule: nat_to_base.induct)
  case (1 b n)
  show ?case
  proof (cases "n < b")
    case False
    with "1.prems" obtain k' where k: "k = Suc k'" "0 < k'"
      by (cases k; cases "k - 1") auto
    with "1.prems" have "n div b < b ^ k'"
      by (simp add: div_less_iff_less_mult mult.commute)
    with "1" False k show ?thesis by (simp add: nat_to_base.simps [of b n])
  qed (use "1.prems" in \<open>simp add: nat_to_base.simps [of b n]\<close>)
qed

text \<open>Zero padding does not change the number a decimal string denotes.\<close>

lemma base_value_replicate_zero: "base_value b 0 (replicate k (CHR ''0'') @ s) = base_value b 0 s"
  by (induction k) (auto simp: char_digit_def)

lemma pad_start_show_nat_inject:
  "pad_start k (CHR ''0'') (show_nat m) = pad_start k (CHR ''0'') (show_nat n) \<longleftrightarrow> m = n"
proof
  assume "pad_start k (CHR ''0'') (show_nat m) = pad_start k (CHR ''0'') (show_nat n)"
  then have "base_value 10 0 (pad_start k (CHR ''0'') (show_nat m)) =
      base_value 10 0 (pad_start k (CHR ''0'') (show_nat n))"
    by simp
  then show "m = n"
    by (simp add: pad_start_def base_value_replicate_zero show_nat_def base_value_nat_to_base)
qed simp

end
