(* ===== verification/ReflectionTypes.thy ===== *)
theory ReflectionTypes
  imports Prelude
begin

text \<open>
  The data model of the reflection pipeline, \<open>src/agent/reflection/types.ts\<close>: desktop events,
  event windows, reflections, the collector's snapshot and the durable jobs, with the three
  classifications of events the collector acts on. The discriminated union over \<open>kind\<close> is
  one datatype with a constructor per kind; \<open>kind_of\<close> gives the kind's name back. Fields whose
  type is a single literal (\<open>schemaVersion\<close>) are not carried, except in a reflection, which an
  inference provider produces and the job runner checks.
\<close>

subsection \<open>Events\<close>

datatype EventSensitivity = Metadata | Content

record ActiveGoalContext =
  goalId :: string
  planId :: "string option"
  goal_version :: int
  goal_text :: string
  activatedAtMs :: int

record ProcessObservation =
  processId :: int
  process_appId :: string
  process_appName :: string

datatype DesktopEventPayload =
    ProcessObservedBatch "ProcessObservation list" "ProcessObservation list"
  | ForegroundChanged string string "string option"
  | TabOpened string string "string option" "string option"
  | TabNavigated string string "string option" "string option"
  | TabClosed string string
  | FocusChanged string string "string option"
  | ValueChanged string string "string option"
  | AccessibilityDocumentChanged string "string option" int int "bool option" "string option"
  | EditorDocumentChanged string string "string option" "string option" int int "string option" int int
  | ActivityAggregated int int int int int int "int option"
  | AfkStarted int
  | AfkEnded int
  | PresenceLocked
  | PresenceUnlocked
  | PresenceSleep
  | PresenceWake
  | GoalContextChanged "ActiveGoalContext option" "ActiveGoalContext option"
  | AuthorizationRevoked "string list"
  | AuthorizationGranted "string list"
  | AuthorizationChanged
  | CursorCheckpoint
  | ReflectionCompleted string
  | ReflectionFailed string string
  | ToolStarted string "string option"
  | ToolProgress string "int option"
  | ToolCompleted string "string option"
  | ToolFailed string "string option"
  | ToolCancelled string
  | SystemHeartbeat

text \<open>The discriminant \<open>event.kind\<close>.\<close>

fun kind_of :: "DesktopEventPayload \<Rightarrow> string" where
  "kind_of (ProcessObservedBatch _ _) = ''application.processObservedBatch''"
| "kind_of (ForegroundChanged _ _ _) = ''application.foregroundChanged''"
| "kind_of (TabOpened _ _ _ _) = ''browser.tabOpened''"
| "kind_of (TabNavigated _ _ _ _) = ''browser.tabNavigated''"
| "kind_of (TabClosed _ _) = ''browser.tabClosed''"
| "kind_of (FocusChanged _ _ _) = ''accessibility.focusChanged''"
| "kind_of (ValueChanged _ _ _) = ''accessibility.valueChanged''"
| "kind_of (AccessibilityDocumentChanged _ _ _ _ _ _) = ''accessibility.documentChanged''"
| "kind_of (EditorDocumentChanged _ _ _ _ _ _ _ _ _) = ''editor.documentChanged''"
| "kind_of (ActivityAggregated _ _ _ _ _ _ _) = ''input.activityAggregated''"
| "kind_of (AfkStarted _) = ''presence.afkStarted''"
| "kind_of (AfkEnded _) = ''presence.afkEnded''"
| "kind_of PresenceLocked = ''presence.locked''"
| "kind_of PresenceUnlocked = ''presence.unlocked''"
| "kind_of PresenceSleep = ''presence.sleep''"
| "kind_of PresenceWake = ''presence.wake''"
| "kind_of (GoalContextChanged _ _) = ''goal.contextChanged''"
| "kind_of (AuthorizationRevoked _) = ''authorization.revoked''"
| "kind_of (AuthorizationGranted _) = ''authorization.granted''"
| "kind_of AuthorizationChanged = ''authorization.changed''"
| "kind_of CursorCheckpoint = ''system.cursorCheckpoint''"
| "kind_of (ReflectionCompleted _) = ''reflection.completed''"
| "kind_of (ReflectionFailed _ _) = ''reflection.failed''"
| "kind_of (ToolStarted _ _) = ''tool.started''"
| "kind_of (ToolProgress _ _) = ''tool.progress''"
| "kind_of (ToolCompleted _ _) = ''tool.completed''"
| "kind_of (ToolFailed _ _) = ''tool.failed''"
| "kind_of (ToolCancelled _) = ''tool.cancelled''"
| "kind_of SystemHeartbeat = ''system.heartbeat''"

record DesktopEvent =
  eventId :: string
  cursor :: string
  deviceId :: string
  sessionId :: string
  event_source :: string
  occurredAtMs :: int
  observedAtMs :: int
  event_goalVersion :: "int option"
  sensitivity :: EventSensitivity
  payload :: DesktopEventPayload

abbreviation kind :: "DesktopEvent \<Rightarrow> string" where
  "kind e \<equiv> kind_of (payload e)"

subsection \<open>Classifications\<close>

fun isCountedSemanticEvent :: "DesktopEvent \<Rightarrow> bool" where
  "isCountedSemanticEvent e =
     (case payload e of
        GoalContextChanged _ _ \<Rightarrow> False
      | ProcessObservedBatch _ _ \<Rightarrow> False
      | AuthorizationRevoked _ \<Rightarrow> False
      | AuthorizationGranted _ \<Rightarrow> False
      | AuthorizationChanged \<Rightarrow> False
      | AfkStarted _ \<Rightarrow> False
      | AfkEnded _ \<Rightarrow> False
      | PresenceLocked \<Rightarrow> False
      | PresenceUnlocked \<Rightarrow> False
      | PresenceSleep \<Rightarrow> False
      | PresenceWake \<Rightarrow> False
      | ReflectionCompleted _ \<Rightarrow> False
      | ReflectionFailed _ _ \<Rightarrow> False
      | ToolStarted _ _ \<Rightarrow> False
      | ToolProgress _ _ \<Rightarrow> False
      | ToolCompleted _ _ \<Rightarrow> False
      | ToolFailed _ _ \<Rightarrow> False
      | ToolCancelled _ \<Rightarrow> False
      | SystemHeartbeat \<Rightarrow> False
      | CursorCheckpoint \<Rightarrow> False
      | _ \<Rightarrow> True)"

definition isPresenceFlushBoundary :: "DesktopEvent \<Rightarrow> bool" where
  "isPresenceFlushBoundary e \<longleftrightarrow>
     kind e = ''presence.afkStarted'' \<or> kind e = ''presence.afkEnded'' \<or>
     kind e = ''presence.locked'' \<or> kind e = ''presence.unlocked'' \<or>
     kind e = ''presence.sleep'' \<or> kind e = ''presence.wake''"

definition isIgnoredReflectionInput :: "DesktopEvent \<Rightarrow> bool" where
  "isIgnoredReflectionInput e \<longleftrightarrow>
     js_startsWith (kind e) ''reflection.'' \<or> js_startsWith (kind e) ''tool.'' \<or>
     kind e = ''system.heartbeat''"

declare isCountedSemanticEvent.simps [simp del]

text \<open>The kinds of activity that count toward a window, \<open>CountedDesktopEventKind\<close>.\<close>

definition counted_kinds :: "string list" where
  "counted_kinds =
     [''application.foregroundChanged'', ''browser.tabOpened'', ''browser.tabNavigated'',
      ''browser.tabClosed'', ''accessibility.focusChanged'', ''accessibility.valueChanged'',
      ''accessibility.documentChanged'', ''editor.documentChanged'', ''input.activityAggregated'']"

lemma isCounted_iff_kind: "isCountedSemanticEvent e \<longleftrightarrow> kind e \<in> set counted_kinds"
  by (cases "payload e") (simp_all add: isCountedSemanticEvent.simps counted_kinds_def)

lemma counted_not_presence: "isCountedSemanticEvent e \<Longrightarrow> \<not> isPresenceFlushBoundary e"
  by (auto simp: isCounted_iff_kind counted_kinds_def isPresenceFlushBoundary_def)

lemma counted_not_ignored: "isCountedSemanticEvent e \<Longrightarrow> \<not> isIgnoredReflectionInput e"
  by (auto simp: isCounted_iff_kind counted_kinds_def isIgnoredReflectionInput_def js_startsWith_def)

lemma presence_not_ignored: "isPresenceFlushBoundary e \<Longrightarrow> \<not> isIgnoredReflectionInput e"
  by (auto simp: isPresenceFlushBoundary_def isIgnoredReflectionInput_def js_startsWith_def)

subsection \<open>Windows\<close>

datatype ReflectionTriggerReason = event_count | max_wait | goal_boundary | presence_boundary

fun reason_name :: "ReflectionTriggerReason \<Rightarrow> string" where
  "reason_name event_count = ''event_count''"
| "reason_name max_wait = ''max_wait''"
| "reason_name goal_boundary = ''goal_boundary''"
| "reason_name presence_boundary = ''presence_boundary''"

record EventWindow =
  windowId :: string
  win_collectorId :: string
  win_deviceId :: string
  win_sessionId :: string
  win_triggerReason :: ReflectionTriggerReason
  win_goal :: "ActiveGoalContext option"
  win_goalVersion :: "int option"
  win_startedAtMs :: int
  win_endedAtMs :: int
  win_deadlineAtMs :: int
  win_eventCount :: nat
  firstCursor :: string
  lastCursor :: string
  win_events :: "DesktopEvent list"
  contextOnly :: "DesktopEvent list"
  modelInput :: string
  inputHash :: string

subsection \<open>Reflections\<close>

datatype ActivityLabel =
    development | writing | research | communication | planning | data_work | media | gaming
  | system_file_ops | commerce | idle_transition | other_unknown

datatype GoalRelevanceLabel = direct | supporting | unrelated | uncertain

fun activity_name :: "ActivityLabel \<Rightarrow> string" where
  "activity_name development = ''development''"
| "activity_name writing = ''writing''"
| "activity_name research = ''research''"
| "activity_name communication = ''communication''"
| "activity_name planning = ''planning''"
| "activity_name data_work = ''data_work''"
| "activity_name media = ''media''"
| "activity_name gaming = ''gaming''"
| "activity_name system_file_ops = ''system_file_ops''"
| "activity_name commerce = ''commerce''"
| "activity_name idle_transition = ''idle_transition''"
| "activity_name other_unknown = ''other_unknown''"

fun relevance_name :: "GoalRelevanceLabel \<Rightarrow> string" where
  "relevance_name direct = ''direct''"
| "relevance_name supporting = ''supporting''"
| "relevance_name unrelated = ''unrelated''"
| "relevance_name uncertain = ''uncertain''"

datatype FeedbackCode = silent | encourage | refocus | clarifyGoal | takeBreak

record 'l distribution =
  label :: 'l
  probabilities :: "('l, real) jmap"

record Reflection =
  rf_schemaVersion :: string
  rf_windowId :: string
  rf_triggerReason :: ReflectionTriggerReason
  rf_eventCount :: nat
  durationMs :: int
  rf_goalVersion :: "int option"
  activity :: "ActivityLabel distribution"
  goalRelevance :: "GoalRelevanceLabel distribution option"
  embedding :: "real list"
  confidence :: real
  entropy :: real
  abstain :: bool
  evidenceEventIds :: "string list"
  feedbackCode :: FeedbackCode
  modelVersion :: string
  taxonomyVersion :: string

definition REFLECTION_SCHEMA_VERSION :: string where
  "REFLECTION_SCHEMA_VERSION = ''reflection.v1''"

subsection \<open>The collector's durable state\<close>

datatype CollectorRuntimeState = RECOVERING | ACTIVE_EMPTY | ACTIVE_COLLECTING | SEALED

record ReflectionCloudOwnerEpoch =
  epoch :: int
  accountId :: "string option"

record OpenEventWindow =
  ow_cloudOwnerEpoch :: ReflectionCloudOwnerEpoch
  ow_goal :: "ActiveGoalContext option"
  ow_goalVersion :: "int option"
  ow_startedAtMs :: int
  ow_deadlineAtMs :: int
  ow_events :: "DesktopEvent list"
  finalizedSemanticEventCount :: nat

record ReflectionCollectorSnapshot =
  collectorId :: string
  sn_deviceId :: string
  sn_sessionId :: string
  sn_state :: CollectorRuntimeState
  activeGoal :: "ActiveGoalContext option"
  goalRevision :: int
  cloudOwnerEpoch :: ReflectionCloudOwnerEpoch
  openWindow :: "OpenEventWindow option"
  contextCandidates :: "DesktopEvent list"
  recentEventIds :: "string list"
  revokedPermissions :: "string list"
  materializedCursor :: "string option"
  revision :: int
  sn_updatedAtMs :: int

subsection \<open>Jobs\<close>

datatype ReflectionJobState =
  READY | RUNNING | RESULT_PERSISTED | COMMITTING | RETRY_WAIT | COMMITTED | TERMINAL_FAILED

fun job_state_name :: "ReflectionJobState \<Rightarrow> string" where
  "job_state_name READY = ''READY''"
| "job_state_name RUNNING = ''RUNNING''"
| "job_state_name RESULT_PERSISTED = ''RESULT_PERSISTED''"
| "job_state_name COMMITTING = ''COMMITTING''"
| "job_state_name RETRY_WAIT = ''RETRY_WAIT''"
| "job_state_name COMMITTED = ''COMMITTED''"
| "job_state_name TERMINAL_FAILED = ''TERMINAL_FAILED''"

record ReflectionJobFailure =
  failure_code :: string
  failure_message :: string
  failedAtMs :: int

record ReflectionJob =
  job_windowId :: string
  job_state :: ReflectionJobState
  attempt :: nat
  replayCount :: nat
  createdAtMs :: int
  firstAttemptAtMs :: "int option"
  job_updatedAtMs :: int
  nextAttemptAtMs :: "int option"
  leaseExpiresAtMs :: "int option"
  lastFailure :: "ReflectionJobFailure option"
  job_reflection :: "Reflection option"
  terminalCursorReleasedAtMs :: "int option"

record ReflectionQueueStats =
  pendingJobs :: nat
  pendingEvents :: nat

datatype ReflectionQueueMode = accepting | draining

end
