(* ===== verification/ReflectionRepository.thy ===== *)
theory ReflectionRepository
  imports ReflectionTypes
begin

text \<open>
  The repository of collector snapshots, sealed windows, durable jobs and cloud ownership,
  \<open>src/agent/reflection/repository.ts\<close>. The in-memory reference implementation is an object
  with four insertion-ordered maps; every method is a computation on it. The locale-dependent
  string order \<open>localeCompare\<close> is the parameter \<open>lc\<close>.
\<close>

datatype repository_error =
    CollectorRevisionConflict
  | InvalidReflectionJobTransition ReflectionJobState string
  | IdempotentSealWithoutCollector
  | IdempotentSealChangedOwner
  | InvalidCloudOwnerAccountId
  | DifferentReflectionPersisted
  | ReflectionWindowMismatch
  | UnknownReflectionJob string

record InMemoryReflectionRepository =
  collectors :: "(string, ReflectionCollectorSnapshot) jmap"
  windows :: "(string, EventWindow) jmap"
  jobs :: "(string, ReflectionJob) jmap"
  cloudOwners :: "(string, string) jmap"

type_synonym 'a repo_op = "(InMemoryReflectionRepository, repository_error, 'a) comp"

definition empty_repository :: InMemoryReflectionRepository where
  "empty_repository = \<lparr>collectors = [], windows = [], jobs = [], cloudOwners = []\<rparr>"

subsection \<open>Account identifiers\<close>

definition normalizeRequiredCloudOwnerAccountId :: "string \<Rightarrow> repository_error + string" where
  "normalizeRequiredCloudOwnerAccountId value =
     (if length value < 1 \<or> 256 < length value \<or> js_trim value \<noteq> value
      then Inl InvalidCloudOwnerAccountId else Inr value)"

definition normalizeOptionalCloudOwnerAccountId ::
  "string option \<Rightarrow> repository_error + string option" where
  "normalizeOptionalCloudOwnerAccountId value =
     (case value of None \<Rightarrow> Inr None
      | Some v \<Rightarrow> (case normalizeRequiredCloudOwnerAccountId v of Inl e \<Rightarrow> Inl e | Inr a \<Rightarrow> Inr (Some a)))"

definition valid_owner :: "string option \<Rightarrow> bool" where
  "valid_owner owner \<longleftrightarrow> (case owner of None \<Rightarrow> True
     | Some v \<Rightarrow> 1 \<le> length v \<and> length v \<le> 256 \<and> js_trim v = v)"

lemma normalizeRequired_valid: "valid_owner (Some a) \<Longrightarrow> normalizeRequiredCloudOwnerAccountId a = Inr a"
  by (auto simp: valid_owner_def normalizeRequiredCloudOwnerAccountId_def)

lemma normalizeRequired_Inr: "normalizeRequiredCloudOwnerAccountId a = Inr b \<Longrightarrow> b = a \<and> valid_owner (Some a)"
  by (auto simp: valid_owner_def normalizeRequiredCloudOwnerAccountId_def not_less Suc_le_eq split: if_splits)

lemma normalizeOptional_valid: "valid_owner a \<Longrightarrow> normalizeOptionalCloudOwnerAccountId a = Inr a"
  by (auto simp: normalizeOptionalCloudOwnerAccountId_def normalizeRequired_valid split: option.splits)

subsection \<open>Collector snapshots\<close>

definition loadCollector :: "string \<Rightarrow> ReflectionCollectorSnapshot option repo_op" where
  "loadCollector cid r = (Inr (jget (collectors r) cid), r)"

definition saveCollector ::
  "ReflectionCollectorSnapshot \<Rightarrow> int option \<Rightarrow> ReflectionCollectorSnapshot repo_op" where
  "saveCollector snapshot expectedRevision r =
     (let current = jget (collectors r) (collectorId snapshot)
      in if (expectedRevision = None \<and> current \<noteq> None) \<or>
            (expectedRevision \<noteq> None \<and> map_option revision current \<noteq> expectedRevision)
         then (Inl CollectorRevisionConflict, r)
         else (Inr snapshot, r\<lparr>collectors := jset (collectorId snapshot) snapshot (collectors r)\<rparr>))"

subsection \<open>Sealing\<close>

record SealWindowResult =
  inserted :: bool
  sealed_window :: EventWindow
  sealed_snapshot :: ReflectionCollectorSnapshot
  sealed_job :: ReflectionJob

definition new_job :: "EventWindow \<Rightarrow> ReflectionJob" where
  "new_job window =
     \<lparr>job_windowId = windowId window, job_state = READY, attempt = 0, replayCount = 0,
      createdAtMs = win_endedAtMs window, firstAttemptAtMs = None,
      job_updatedAtMs = win_endedAtMs window, nextAttemptAtMs = Some (win_endedAtMs window),
      leaseExpiresAtMs = None, lastFailure = None, job_reflection = None,
      terminalCursorReleasedAtMs = None\<rparr>"

definition sealWindow ::
  "EventWindow \<Rightarrow> ReflectionCollectorSnapshot \<Rightarrow> int \<Rightarrow> string option \<Rightarrow> SealWindowResult repo_op" where
  "sealWindow window nextSnapshot expectedRevision cloudOwnerAccountId r =
     (case (jget (windows r) (windowId window), jget (jobs r) (windowId window)) of
        (Some existingWindow, Some existingJob) \<Rightarrow>
          (case jget (collectors r) (collectorId nextSnapshot) of
             None \<Rightarrow> (Inl IdempotentSealWithoutCollector, r)
           | Some currentSnapshot \<Rightarrow>
               (case normalizeOptionalCloudOwnerAccountId cloudOwnerAccountId of
                  Inl e \<Rightarrow> (Inl e, r)
                | Inr requestedOwner \<Rightarrow>
                    if jget (cloudOwners r) (windowId window) \<noteq> requestedOwner
                    then (Inl IdempotentSealChangedOwner, r)
                    else (Inr \<lparr>inserted = False, sealed_window = existingWindow,
                            sealed_snapshot = currentSnapshot, sealed_job = existingJob\<rparr>, r)))
      | _ \<Rightarrow>
          if map_option revision (jget (collectors r) (collectorId nextSnapshot)) \<noteq> Some expectedRevision
          then (Inl CollectorRevisionConflict, r)
          else
            let job = new_job window;
                r1 = r\<lparr>windows := jset (windowId window) window (windows r),
                       jobs := jset (windowId window) job (jobs r)\<rparr>
            in case (case cloudOwnerAccountId of None \<Rightarrow> Inr r1
                     | Some account \<Rightarrow>
                         (case normalizeRequiredCloudOwnerAccountId account of Inl e \<Rightarrow> Inl e
                          | Inr owner \<Rightarrow>
                              Inr (r1\<lparr>cloudOwners := jset (windowId window) owner (cloudOwners r1)\<rparr>))) of
                 Inl e \<Rightarrow> (Inl e, r1)
               | Inr r2 \<Rightarrow>
                   (Inr \<lparr>inserted = True, sealed_window = window, sealed_snapshot = nextSnapshot,
                      sealed_job = job\<rparr>,
                    r2\<lparr>collectors := jset (collectorId nextSnapshot) nextSnapshot (collectors r2)\<rparr>))"

subsection \<open>Cloud handoff\<close>

definition window_compare :: "(string \<Rightarrow> string \<Rightarrow> int) \<Rightarrow> EventWindow \<Rightarrow> EventWindow \<Rightarrow> int" where
  "window_compare lc = or_else_cmp (cmp_by win_endedAtMs) (\<lambda>a b. lc (windowId a) (windowId b))"

definition listWindowsForAccount ::
  "(string \<Rightarrow> string \<Rightarrow> int) \<Rightarrow> string \<Rightarrow> EventWindow list repo_op" where
  "listWindowsForAccount lc account r =
     (case normalizeRequiredCloudOwnerAccountId account of
        Inl e \<Rightarrow> (Inl e, r)
      | Inr owner \<Rightarrow>
          (Inr (js_sort (window_compare lc)
             (filter (\<lambda>w. jget (cloudOwners r) (windowId w) = Some owner) (jvalues (windows r)))), r))"

definition acknowledgeWindowForAccount :: "string \<Rightarrow> string \<Rightarrow> bool repo_op" where
  "acknowledgeWindowForAccount account wid r =
     (case normalizeRequiredCloudOwnerAccountId account of
        Inl e \<Rightarrow> (Inl e, r)
      | Inr owner \<Rightarrow>
          (case jget (cloudOwners r) wid of
             None \<Rightarrow> (Inr True, r)
           | Some current \<Rightarrow>
               if current \<noteq> owner then (Inr False, r)
               else (Inr True, r\<lparr>cloudOwners := jdelete wid (cloudOwners r)\<rparr>)))"

definition clearWindowsForAccount :: "string \<Rightarrow> nat repo_op" where
  "clearWindowsForAccount account r =
     (case normalizeRequiredCloudOwnerAccountId account of
        Inl e \<Rightarrow> (Inl e, r)
      | Inr owner \<Rightarrow>
          (Inr (length (filter (\<lambda>e. snd e = owner) (cloudOwners r))),
           r\<lparr>cloudOwners := filter (\<lambda>e. snd e \<noteq> owner) (cloudOwners r)\<rparr>))"

subsection \<open>Jobs\<close>

definition getWindow :: "string \<Rightarrow> EventWindow option repo_op" where
  "getWindow wid r = (Inr (jget (windows r) wid), r)"

definition getJob :: "string \<Rightarrow> ReflectionJob option repo_op" where
  "getJob wid r = (Inr (jget (jobs r) wid), r)"

definition getQueueStats :: "ReflectionQueueStats repo_op" where
  "getQueueStats r =
     (let pending = filter (\<lambda>j. \<not> (job_state j = COMMITTED \<or> job_state j = TERMINAL_FAILED))
        (jvalues (jobs r))
      in (Inr \<lparr>pendingJobs = length pending,
           pendingEvents = sum_list (map (\<lambda>j. case jget (windows r) (job_windowId j) of
             None \<Rightarrow> 0 | Some w \<Rightarrow> win_eventCount w) pending)\<rparr>, r))"

definition due_at :: "ReflectionJob \<Rightarrow> int" where
  "due_at job = (case nextAttemptAtMs job of None \<Rightarrow> createdAtMs job | Some t \<Rightarrow> t)"

definition isRunnable :: "ReflectionJob \<Rightarrow> int \<Rightarrow> bool" where
  "isRunnable job now =
     (case job_state job of
        READY \<Rightarrow> due_at job \<le> now
      | RETRY_WAIT \<Rightarrow> (case nextAttemptAtMs job of None \<Rightarrow> False | Some t \<Rightarrow> t \<le> now)
      | RUNNING \<Rightarrow> (case leaseExpiresAtMs job of None \<Rightarrow> False | Some t \<Rightarrow> t \<le> now)
      | COMMITTING \<Rightarrow> (case leaseExpiresAtMs job of None \<Rightarrow> False | Some t \<Rightarrow> t \<le> now)
      | RESULT_PERSISTED \<Rightarrow> True
      | COMMITTED \<Rightarrow> False
      | TERMINAL_FAILED \<Rightarrow> False)"

definition job_compare :: "(string \<Rightarrow> string \<Rightarrow> int) \<Rightarrow> ReflectionJob \<Rightarrow> ReflectionJob \<Rightarrow> int" where
  "job_compare lc = or_else_cmp (cmp_by due_at)
     (or_else_cmp (cmp_by createdAtMs) (\<lambda>a b. lc (job_windowId a) (job_windowId b)))"

definition claimed_job :: "int \<Rightarrow> int \<Rightarrow> ReflectionJob \<Rightarrow> ReflectionJob" where
  "claimed_job now leaseDurationMs candidate =
     candidate\<lparr>job_state := (if job_reflection candidate \<noteq> None then COMMITTING else RUNNING),
       attempt := attempt candidate + 1,
       firstAttemptAtMs := (case firstAttemptAtMs candidate of None \<Rightarrow> Some now | Some t \<Rightarrow> Some t),
       job_updatedAtMs := now,
       nextAttemptAtMs := None,
       leaseExpiresAtMs := Some (now + leaseDurationMs)\<rparr>"

definition put_job :: "string \<Rightarrow> ReflectionJob \<Rightarrow> InMemoryReflectionRepository \<Rightarrow> InMemoryReflectionRepository" where
  "put_job wid job r = r\<lparr>jobs := jset wid job (jobs r)\<rparr>"

definition claimNextRunnable ::
  "(string \<Rightarrow> string \<Rightarrow> int) \<Rightarrow> int \<Rightarrow> int \<Rightarrow> ReflectionJob option repo_op" where
  "claimNextRunnable lc now leaseDurationMs r =
     (case js_sort (job_compare lc) (filter (\<lambda>job. isRunnable job now) (jvalues (jobs r))) of
        [] \<Rightarrow> (Inr None, r)
      | candidate # _ \<Rightarrow>
          let claimed = claimed_job now leaseDurationMs candidate
          in (Inr (Some claimed), put_job (job_windowId candidate) claimed r))"

text \<open>\<open>requireJob\<close> followed by a transition of that job.\<close>

definition with_job ::
  "string \<Rightarrow> (ReflectionJob \<Rightarrow> repository_error + ReflectionJob) \<Rightarrow> ReflectionJob repo_op" where
  "with_job wid f r =
     (case jget (jobs r) wid of
        None \<Rightarrow> (Inl (UnknownReflectionJob wid), r)
      | Some current \<Rightarrow>
          (case f current of Inl e \<Rightarrow> (Inl e, r) | Inr job \<Rightarrow> (Inr job, put_job wid job r)))"

definition persist_job :: "string \<Rightarrow> Reflection \<Rightarrow> int \<Rightarrow> ReflectionJob \<Rightarrow> repository_error + ReflectionJob" where
  "persist_job wid reflection now current =
     (case job_reflection current of
        Some existing \<Rightarrow>
          if rf_windowId existing \<noteq> rf_windowId reflection then Inl DifferentReflectionPersisted
          else Inr current
      | None \<Rightarrow>
          if job_state current \<noteq> RUNNING
          then Inl (InvalidReflectionJobTransition (job_state current) ''persist result for'')
          else if rf_windowId reflection \<noteq> wid then Inl ReflectionWindowMismatch
          else Inr (current\<lparr>job_state := RESULT_PERSISTED, job_reflection := Some reflection,
                 job_updatedAtMs := now, leaseExpiresAtMs := None\<rparr>))"

definition persistResult :: "string \<Rightarrow> Reflection \<Rightarrow> int \<Rightarrow> ReflectionJob repo_op" where
  "persistResult wid reflection now = with_job wid (persist_job wid reflection now)"

definition begin_job :: "int \<Rightarrow> int \<Rightarrow> ReflectionJob \<Rightarrow> repository_error + ReflectionJob" where
  "begin_job now leaseDurationMs current =
     (if job_state current = COMMITTING \<and> leaseExpiresAtMs current \<noteq> None then Inr current
      else if job_state current \<noteq> RESULT_PERSISTED
      then Inl (InvalidReflectionJobTransition (job_state current) ''begin commit for'')
      else Inr (current\<lparr>job_state := COMMITTING, job_updatedAtMs := now,
             leaseExpiresAtMs := Some (now + leaseDurationMs)\<rparr>))"

definition beginCommit :: "string \<Rightarrow> int \<Rightarrow> int \<Rightarrow> ReflectionJob repo_op" where
  "beginCommit wid now leaseDurationMs = with_job wid (begin_job now leaseDurationMs)"

definition abandon_job :: "int \<Rightarrow> ReflectionJob \<Rightarrow> repository_error + ReflectionJob" where
  "abandon_job now current =
     (if job_state current \<noteq> RUNNING \<and> job_state current \<noteq> RESULT_PERSISTED \<and>
         job_state current \<noteq> COMMITTING
      then Inl (InvalidReflectionJobTransition (job_state current) ''abandon claim for'')
      else
        let priorAttempt = attempt current - 1
        in Inr (current\<lparr>
             job_state := (if job_reflection current \<noteq> None then RESULT_PERSISTED else READY),
             attempt := priorAttempt,
             firstAttemptAtMs := (if priorAttempt = 0 then None else firstAttemptAtMs current),
             job_updatedAtMs := now,
             nextAttemptAtMs := (if job_reflection current \<noteq> None then None else Some now),
             leaseExpiresAtMs := None\<rparr>))"

definition abandonClaim :: "string \<Rightarrow> int \<Rightarrow> ReflectionJob repo_op" where
  "abandonClaim wid now = with_job wid (abandon_job now)"

definition fail_job ::
  "ReflectionJobFailure \<Rightarrow> int option \<Rightarrow> bool \<Rightarrow> ReflectionJob \<Rightarrow> repository_error + ReflectionJob" where
  "fail_job failure next terminal current =
     (if job_state current \<noteq> RUNNING \<and> job_state current \<noteq> COMMITTING
      then Inl (InvalidReflectionJobTransition (job_state current) ''record failure for'')
      else Inr (current\<lparr>
             job_state := (if terminal then TERMINAL_FAILED else RETRY_WAIT),
             job_updatedAtMs := failedAtMs failure,
             nextAttemptAtMs := (if terminal then None else next),
             leaseExpiresAtMs := None,
             lastFailure := Some failure,
             terminalCursorReleasedAtMs := (if terminal then Some (failedAtMs failure) else None)\<rparr>))"

definition recordFailure ::
  "string \<Rightarrow> ReflectionJobFailure \<Rightarrow> int option \<Rightarrow> bool \<Rightarrow> ReflectionJob repo_op" where
  "recordFailure wid failure next terminal = with_job wid (fail_job failure next terminal)"

definition commit_job :: "int \<Rightarrow> ReflectionJob \<Rightarrow> repository_error + ReflectionJob" where
  "commit_job now current =
     (if job_state current = COMMITTED then Inr current
      else if job_state current \<noteq> COMMITTING
      then Inl (InvalidReflectionJobTransition (job_state current) ''commit'')
      else Inr (current\<lparr>job_state := COMMITTED, job_updatedAtMs := now,
             leaseExpiresAtMs := None, nextAttemptAtMs := None\<rparr>))"

definition markCommitted :: "string \<Rightarrow> int \<Rightarrow> ReflectionJob repo_op" where
  "markCommitted wid now = with_job wid (commit_job now)"

definition replay_job :: "int \<Rightarrow> ReflectionJob \<Rightarrow> repository_error + ReflectionJob" where
  "replay_job now current =
     (if job_state current \<noteq> TERMINAL_FAILED
      then Inl (InvalidReflectionJobTransition (job_state current) ''replay'')
      else Inr (current\<lparr>job_state := READY, attempt := 0, replayCount := replayCount current + 1,
             createdAtMs := now, firstAttemptAtMs := None, job_updatedAtMs := now,
             nextAttemptAtMs := Some now, leaseExpiresAtMs := None, lastFailure := None,
             terminalCursorReleasedAtMs := None\<rparr>))"

definition replayTerminal :: "string \<Rightarrow> int \<Rightarrow> ReflectionJob repo_op" where
  "replayTerminal wid now = with_job wid (replay_job now)"

subsection \<open>The job state machine\<close>

text \<open>
  The transitions the job states are meant to make: claims, the persisted result, the commit,
  failures with and without retry, an abandoned claim and a replay of a terminal failure.
\<close>

inductive job_step :: "ReflectionJobState \<Rightarrow> ReflectionJobState \<Rightarrow> bool" where
  claim_run: "s \<in> {READY, RETRY_WAIT, RUNNING} \<Longrightarrow> job_step s RUNNING"
| claim_commit: "s \<in> {READY, RETRY_WAIT, RESULT_PERSISTED, COMMITTING} \<Longrightarrow> job_step s COMMITTING"
| persist: "job_step RUNNING RESULT_PERSISTED"
| begin_commit: "job_step RESULT_PERSISTED COMMITTING"
| abandon_inference: "job_step RUNNING READY"
| abandon_commit: "s \<in> {RESULT_PERSISTED, COMMITTING} \<Longrightarrow> job_step s RESULT_PERSISTED"
| fail_retry: "s \<in> {RUNNING, COMMITTING} \<Longrightarrow> job_step s RETRY_WAIT"
| fail_terminal: "s \<in> {RUNNING, COMMITTING} \<Longrightarrow> job_step s TERMINAL_FAILED"
| commit: "job_step COMMITTING COMMITTED"
| replay: "job_step TERMINAL_FAILED READY"

inductive_cases job_step_from_COMMITTED: "job_step COMMITTED s"
inductive_cases job_step_from_TERMINAL: "job_step TERMINAL_FAILED s"
inductive_cases job_step_to_COMMITTED: "job_step s COMMITTED"

lemmas job_transition_defs = persist_job_def begin_job_def abandon_job_def fail_job_def
  commit_job_def replay_job_def Let_def

text \<open>What the fields of a job say in each state.\<close>

definition job_inv :: "ReflectionJob \<Rightarrow> bool" where
  "job_inv j \<longleftrightarrow>
     (job_state j \<in> {RESULT_PERSISTED, COMMITTING, COMMITTED} \<longrightarrow> job_reflection j \<noteq> None) \<and>
     (job_state j = RUNNING \<longrightarrow> job_reflection j = None) \<and>
     (job_state j \<in> {RUNNING, COMMITTING} \<longleftrightarrow> leaseExpiresAtMs j \<noteq> None) \<and>
     (job_state j = RUNNING \<longrightarrow> 0 < attempt j) \<and>
     (attempt j = 0 \<longleftrightarrow> firstAttemptAtMs j = None) \<and>
     (job_state j = TERMINAL_FAILED \<longleftrightarrow> terminalCursorReleasedAtMs j \<noteq> None) \<and>
     (case job_reflection j of None \<Rightarrow> True | Some x \<Rightarrow> rf_windowId x = job_windowId j)"

text \<open>A transition of one job: the step it makes and the result it keeps.\<close>

definition job_moves :: "ReflectionJob \<Rightarrow> ReflectionJob \<Rightarrow> bool" where
  "job_moves j j' \<longleftrightarrow> job_windowId j' = job_windowId j \<and>
     (job_state j' = job_state j \<or> job_step (job_state j) (job_state j')) \<and>
     (job_reflection j \<noteq> None \<longrightarrow> job_reflection j' = job_reflection j) \<and>
     (job_state j = COMMITTED \<longrightarrow> j' = j)"

lemma job_moves_refl [simp]: "job_moves j j"
  by (simp add: job_moves_def)

lemma claimed_moves: "job_inv j \<Longrightarrow> isRunnable j now \<Longrightarrow> job_moves j (claimed_job now lease j)"
  by (cases "job_state j")
    (auto simp: job_moves_def claimed_job_def isRunnable_def job_inv_def intro: job_step.intros)

lemma claimed_inv: "job_inv j \<Longrightarrow> isRunnable j now \<Longrightarrow> job_inv (claimed_job now lease j)"
  by (cases "job_state j")
    (auto simp: claimed_job_def isRunnable_def job_inv_def split: option.splits)

lemma persist_ok:
  assumes "job_inv j" and "job_windowId j = wid" and "persist_job wid x now j = Inr j'"
  shows "job_moves j j' \<and> job_inv j'"
  using assms by (auto simp: job_moves_def job_inv_def persist_job_def intro: job_step.intros
      split: option.splits if_splits)

lemma begin_ok:
  assumes "job_inv j" and "begin_job now lease j = Inr j'"
  shows "job_moves j j' \<and> job_inv j'"
  using assms by (auto simp: job_moves_def job_inv_def begin_job_def intro: job_step.intros
      split: option.splits if_splits)

lemma abandon_ok:
  assumes "job_inv j" and "abandon_job now j = Inr j'"
  shows "job_moves j j' \<and> job_inv j'"
  using assms by (cases "job_state j"; cases "job_reflection j")
    (auto simp: job_moves_def job_inv_def abandon_job_def Let_def intro: job_step.intros
      split: if_splits)

lemma fail_ok:
  assumes "job_inv j" and "fail_job failure next terminal j = Inr j'"
  shows "job_moves j j' \<and> job_inv j'"
  using assms by (cases "job_state j"; cases terminal)
    (auto simp: job_moves_def job_inv_def fail_job_def intro: job_step.intros)

lemma commit_ok:
  assumes "job_inv j" and "commit_job now j = Inr j'"
  shows "job_moves j j' \<and> job_inv j'"
  using assms by (auto simp: job_moves_def job_inv_def commit_job_def intro: job_step.intros
      split: if_splits)

lemma replay_ok:
  assumes "job_inv j" and "replay_job now j = Inr j'"
  shows "job_moves j j' \<and> job_inv j'"
  using assms by (auto simp: job_moves_def job_inv_def replay_job_def intro: job_step.intros
      split: if_splits option.splits)

subsection \<open>The repository's invariant\<close>

definition repo_inv :: "InMemoryReflectionRepository \<Rightarrow> bool" where
  "repo_inv r \<longleftrightarrow>
     distinct (jkeys (jobs r)) \<and> distinct (jkeys (windows r)) \<and>
     (\<forall>wid j. jget (jobs r) wid = Some j \<longrightarrow> job_windowId j = wid \<and> job_inv j) \<and>
     (\<forall>wid w. jget (windows r) wid = Some w \<longrightarrow> windowId w = wid) \<and>
     (\<forall>wid. jget (jobs r) wid = None \<longleftrightarrow> jget (windows r) wid = None)"

lemma repo_inv_empty: "repo_inv empty_repository"
  by (simp add: repo_inv_def empty_repository_def)

lemma repo_inv_job: "repo_inv r \<Longrightarrow> jget (jobs r) wid = Some j \<Longrightarrow> job_windowId j = wid \<and> job_inv j"
  by (simp add: repo_inv_def)

lemma repo_inv_window:
  assumes "repo_inv r" and "jget (jobs r) wid = Some j"
  obtains w where "jget (windows r) wid = Some w" and "windowId w = wid"
  using assms unfolding repo_inv_def by (metis option.distinct(1) option.exhaust)

lemma repo_inv_put_job:
  assumes "repo_inv r" and "jget (jobs r) wid = Some j" and "job_windowId j' = wid" and "job_inv j'"
  shows "repo_inv (put_job wid j' r)"
proof -
  have "jget (windows r) wid \<noteq> None" using assms(1,2) unfolding repo_inv_def by (metis option.distinct(1))
  then show ?thesis
    using assms(1,3,4) unfolding repo_inv_def put_job_def
    by (simp del: map_of_eq_Some_iff map_of_eq_None_iff not_None_eq)
qed

lemma repo_inv_cong: "jobs r' = jobs r \<Longrightarrow> windows r' = windows r \<Longrightarrow> repo_inv r' = repo_inv r"
  by (simp add: repo_inv_def)

lemma repo_inv_values:
  assumes "repo_inv r" and "j \<in> set (jvalues (jobs r))"
  shows "jget (jobs r) (job_windowId j) = Some j \<and> job_inv j"
proof -
  have "distinct (jkeys (jobs r))" using assms(1) by (simp add: repo_inv_def)
  then obtain k where k: "jget (jobs r) k = Some j"
    using assms(2) by (auto simp: jvalues_in_iff)
  with assms(1) have "job_windowId j = k \<and> job_inv j" by (rule repo_inv_job)
  with k show ?thesis by simp
qed

lemma with_job_inv:
  assumes "repo_inv r"
    and "\<And>j j'. job_inv j \<Longrightarrow> job_windowId j = wid \<Longrightarrow> f j = Inr j' \<Longrightarrow> job_moves j j' \<and> job_inv j'"
  shows "repo_inv (snd (with_job wid f r))"
proof (cases "jget (jobs r) wid")
  case None
  with assms(1) show ?thesis by (simp add: with_job_def)
next
  case (Some j)
  note j = repo_inv_job [OF assms(1) Some]
  show ?thesis
  proof (cases "f j")
    case (Inl e)
    with Some assms(1) show ?thesis by (simp add: with_job_def)
  next
    case (Inr j')
    with assms(2) j have "job_windowId j' = wid" and "job_inv j'"
      by (auto simp: job_moves_def)
    with assms(1) Some Inr show ?thesis by (simp add: with_job_def repo_inv_put_job)
  qed
qed

lemma claim_cases:
  assumes "repo_inv r" and "claimNextRunnable lc now lease r = (res, r')"
  obtains (idle) "res = Inr None" "r' = r" "\<forall>j \<in> set (jvalues (jobs r)). \<not> isRunnable j now"
  | (claimed) j where "j \<in> set (jvalues (jobs r))" "isRunnable j now"
      "res = Inr (Some (claimed_job now lease j))"
      "r' = put_job (job_windowId j) (claimed_job now lease j) r"
      "jget (jobs r) (job_windowId j) = Some j" "job_inv j"
proof (cases "js_sort (job_compare lc) (filter (\<lambda>job. isRunnable job now) (jvalues (jobs r)))")
  case Nil
  then have "filter (\<lambda>job. isRunnable job now) (jvalues (jobs r)) = []"
    using js_sort_eq_Nil_iff by blast
  then have "\<forall>j \<in> set (jvalues (jobs r)). \<not> isRunnable j now" by (simp add: filter_empty_conv)
  with Nil assms(2) show ?thesis by (intro idle) (auto simp: claimNextRunnable_def)
next
  case (Cons j js)
  then have "j \<in> set (filter (\<lambda>job. isRunnable job now) (jvalues (jobs r)))"
    by (metis list.set_intros(1) set_js_sort)
  then have "j \<in> set (jvalues (jobs r))" "isRunnable j now" by auto
  with Cons assms repo_inv_values [OF assms(1), of j] show ?thesis
    by (intro claimed [of j]) (auto simp: claimNextRunnable_def Let_def)
qed

text \<open>Every change to the repository, as a command.\<close>

datatype repo_command =
    CSave ReflectionCollectorSnapshot "int option"
  | CSeal EventWindow ReflectionCollectorSnapshot int "string option"
  | CAcknowledge string string
  | CClear string
  | CClaim int int
  | CPersist string Reflection int
  | CBegin string int int
  | CAbandon string int
  | CFail string ReflectionJobFailure "int option" bool
  | CCommit string int
  | CReplay string int

fun repo_exec ::
  "(string \<Rightarrow> string \<Rightarrow> int) \<Rightarrow> repo_command \<Rightarrow> InMemoryReflectionRepository \<Rightarrow> InMemoryReflectionRepository" where
  "repo_exec lc (CSave s e) r = snd (saveCollector s e r)"
| "repo_exec lc (CSeal w s e a) r = snd (sealWindow w s e a r)"
| "repo_exec lc (CAcknowledge a w) r = snd (acknowledgeWindowForAccount a w r)"
| "repo_exec lc (CClear a) r = snd (clearWindowsForAccount a r)"
| "repo_exec lc (CClaim now lease) r = snd (claimNextRunnable lc now lease r)"
| "repo_exec lc (CPersist w x now) r = snd (persistResult w x now r)"
| "repo_exec lc (CBegin w now lease) r = snd (beginCommit w now lease r)"
| "repo_exec lc (CAbandon w now) r = snd (abandonClaim w now r)"
| "repo_exec lc (CFail w f n t) r = snd (recordFailure w f n t r)"
| "repo_exec lc (CCommit w now) r = snd (markCommitted w now r)"
| "repo_exec lc (CReplay w now) r = snd (replayTerminal w now r)"

fun repo_run ::
  "(string \<Rightarrow> string \<Rightarrow> int) \<Rightarrow> repo_command list \<Rightarrow> InMemoryReflectionRepository \<Rightarrow> InMemoryReflectionRepository" where
  "repo_run lc [] r = r"
| "repo_run lc (c # cs) r = repo_run lc cs (repo_exec lc c r)"

lemma new_job_inv: "job_inv (new_job w)"
  by (simp add: new_job_def job_inv_def)

text \<open>What a seal leaves in the maps: nothing of the jobs and windows changes, or the window and
  its fresh job are added together.\<close>

lemma sealWindow_maps:
  "(jobs (snd (sealWindow w s e a r)) = jobs r \<and> windows (snd (sealWindow w s e a r)) = windows r) \<or>
   ((jget (windows r) (windowId w) = None \<or> jget (jobs r) (windowId w) = None) \<and>
    jobs (snd (sealWindow w s e a r)) = jset (windowId w) (new_job w) (jobs r) \<and>
    windows (snd (sealWindow w s e a r)) = jset (windowId w) w (windows r))"
  by (auto simp: sealWindow_def Let_def split: option.splits sum.splits)

lemma sealWindow_inv:
  assumes "repo_inv r"
  shows "repo_inv (snd (sealWindow w s e a r))"
  using assms sealWindow_maps [of w s e a r] new_job_inv [of w]
  by (elim disjE) (auto simp: repo_inv_def new_job_def)

lemma maps_unchanged:
  "jobs (snd (saveCollector s e r)) = jobs r" "windows (snd (saveCollector s e r)) = windows r"
  "jobs (snd (acknowledgeWindowForAccount b wid r)) = jobs r"
  "windows (snd (acknowledgeWindowForAccount b wid r)) = windows r"
  "jobs (snd (clearWindowsForAccount b r)) = jobs r"
  "windows (snd (clearWindowsForAccount b r)) = windows r"
  by (auto simp: saveCollector_def acknowledgeWindowForAccount_def clearWindowsForAccount_def Let_def
      split: sum.splits option.splits)

lemma claim_inv:
  assumes "repo_inv r"
  shows "repo_inv (snd (claimNextRunnable lc now lease r))"
proof -
  obtain res r' where c: "claimNextRunnable lc now lease r = (res, r')" by fastforce
  from assms c show ?thesis
  proof (cases rule: claim_cases)
    case (claimed j)
    then show ?thesis using assms c claimed_inv [of j now lease]
      by (simp add: repo_inv_put_job claimed_job_def)
  qed (use assms c in auto)
qed

lemma repo_exec_inv:
  assumes "repo_inv r"
  shows "repo_inv (repo_exec lc c r)"
proof (cases c)
  case (CPersist w x now)
  with assms show ?thesis
    by (auto simp: persistResult_def intro!: with_job_inv dest: persist_ok)
next
  case (CBegin w now lease)
  with assms show ?thesis by (auto simp: beginCommit_def intro!: with_job_inv dest: begin_ok)
next
  case (CAbandon w now)
  with assms show ?thesis by (auto simp: abandonClaim_def intro!: with_job_inv dest: abandon_ok)
next
  case (CFail w f n t)
  with assms show ?thesis by (auto simp: recordFailure_def intro!: with_job_inv dest: fail_ok)
next
  case (CCommit w now)
  with assms show ?thesis by (auto simp: markCommitted_def intro!: with_job_inv dest: commit_ok)
next
  case (CReplay w now)
  with assms show ?thesis by (auto simp: replayTerminal_def intro!: with_job_inv dest: replay_ok)
qed (use assms in \<open>simp_all add: sealWindow_inv claim_inv maps_unchanged
    repo_inv_cong [OF maps_unchanged(1,2)] repo_inv_cong [OF maps_unchanged(3,4)]
    repo_inv_cong [OF maps_unchanged(5,6)]\<close>)

subsection \<open>Runs of the repository\<close>

lemma with_job_moves:
  assumes "repo_inv r" and "jget (jobs r) wid = Some j"
    and "\<And>k k'. job_inv k \<Longrightarrow> job_windowId k = wid' \<Longrightarrow> f k = Inr k' \<Longrightarrow> job_moves k k' \<and> job_inv k'"
  shows "\<exists>j'. jget (jobs (snd (with_job wid' f r))) wid = Some j' \<and> job_moves j j'"
proof (cases "wid' = wid")
  case True
  with assms repo_inv_job [OF assms(1,2)] show ?thesis
    by (cases "f j") (auto simp: with_job_def put_job_def)
next
  case False
  with assms(2) show ?thesis
    by (auto simp: with_job_def put_job_def split: option.splits sum.splits)
qed

lemma claim_moves:
  assumes "repo_inv r" and "jget (jobs r) wid = Some j"
  shows "\<exists>j'. jget (jobs (snd (claimNextRunnable lc now lease r))) wid = Some j' \<and> job_moves j j'"
proof -
  obtain res r' where c: "claimNextRunnable lc now lease r = (res, r')" by fastforce
  from assms(1) c show ?thesis
  proof (cases rule: claim_cases)
    case (claimed k)
    then show ?thesis using assms c claimed_moves [of k now lease]
      by (auto simp: put_job_def)
  qed (use assms c in auto)
qed

lemma seal_moves:
  assumes "repo_inv r" and "jget (jobs r) wid = Some j"
  shows "\<exists>j'. jget (jobs (snd (sealWindow w s e a r))) wid = Some j' \<and> job_moves j j'"
proof -
  from assms obtain w' where "jget (windows r) wid = Some w'" by (rule repo_inv_window)
  with assms(2) sealWindow_maps [of w s e a r] show ?thesis by (elim disjE) auto
qed

lemma repo_exec_moves:
  assumes "repo_inv r" and "jget (jobs r) wid = Some j"
  shows "\<exists>j'. jget (jobs (repo_exec lc c r)) wid = Some j' \<and> job_moves j j'"
proof (cases c)
  case (CPersist w x now)
  with assms show ?thesis
    by (auto simp: persistResult_def intro!: with_job_moves dest: persist_ok)
next
  case (CBegin w now lease)
  with assms show ?thesis by (auto simp: beginCommit_def intro!: with_job_moves dest: begin_ok)
next
  case (CAbandon w now)
  with assms show ?thesis by (auto simp: abandonClaim_def intro!: with_job_moves dest: abandon_ok)
next
  case (CFail w f n t)
  with assms show ?thesis by (auto simp: recordFailure_def intro!: with_job_moves dest: fail_ok)
next
  case (CCommit w now)
  with assms show ?thesis by (auto simp: markCommitted_def intro!: with_job_moves dest: commit_ok)
next
  case (CReplay w now)
  with assms show ?thesis by (auto simp: replayTerminal_def intro!: with_job_moves dest: replay_ok)
qed (use assms in \<open>simp_all add: maps_unchanged claim_moves seal_moves\<close>)

definition job_history :: "ReflectionJob \<Rightarrow> ReflectionJob \<Rightarrow> bool" where
  "job_history j j' \<longleftrightarrow> job_step\<^sup>*\<^sup>* (job_state j) (job_state j') \<and> job_windowId j' = job_windowId j \<and>
     (job_reflection j \<noteq> None \<longrightarrow> job_reflection j' = job_reflection j) \<and>
     (job_state j = COMMITTED \<longrightarrow> j' = j)"

lemma job_history_step: "job_moves j k \<Longrightarrow> job_history k l \<Longrightarrow> job_history j l"
  by (auto simp: job_moves_def job_history_def intro: converse_rtranclp_into_rtranclp)

lemma repo_run_history:
  assumes "repo_inv r" and "jget (jobs r) wid = Some j"
  shows "\<exists>j'. jget (jobs (repo_run lc cs r)) wid = Some j' \<and> job_history j j'"
  using assms
proof (induction cs arbitrary: r j)
  case Nil
  then show ?case by (simp add: job_history_def)
next
  case (Cons c cs)
  obtain k where k: "jget (jobs (repo_exec lc c r)) wid = Some k" "job_moves j k"
    using repo_exec_moves [OF Cons.prems] by blast
  have "repo_inv (repo_exec lc c r)" using Cons.prems(1) by (rule repo_exec_inv)
  from Cons.IH [OF this k(1)] k(2) show ?case by (auto intro: job_history_step)
qed

lemma repo_run_inv: "repo_inv r \<Longrightarrow> repo_inv (repo_run lc cs r)"
  by (induction cs arbitrary: r) (auto intro: repo_exec_inv)

lemma repo_run_append: "repo_run lc (cs @ ds) r = repo_run lc ds (repo_run lc cs r)"
  by (induction cs arbitrary: r) auto

text \<open>C12: In every state a repository can reach, a job exists exactly for every sealed window and
  is filed under its window id, and the job's result, lease, attempt count and terminal mark agree
  with its state: a running job has a lease and no result, and a job that is persisted, committing
  or committed has the result of its own window.\<close>

theorem repo_reachable_inv: "repo_inv (repo_run lc cs empty_repository)"
  using repo_inv_empty by (rule repo_run_inv)

text \<open>Whatever operations follow, a job only moves along the transitions of the job state
  machine, it never disappears and it never changes the window it belongs to.\<close>

lemma job_follows_state_machine:
  assumes "jget (jobs (repo_run lc cs empty_repository)) wid = Some j"
  shows "\<exists>j'. jget (jobs (repo_run lc (cs @ ds) empty_repository)) wid = Some j' \<and>
    job_step\<^sup>*\<^sup>* (job_state j) (job_state j') \<and> job_windowId j' = wid"
  using repo_run_history [OF repo_run_inv [OF repo_inv_empty] assms, of lc ds]
    repo_inv_job [OF repo_run_inv [OF repo_inv_empty] assms]
  by (auto simp: repo_run_append job_history_def)

text \<open>A persisted reflection is never lost or replaced, and a committed job is final: no
  operation changes any field of it again.\<close>

lemma job_result_durable:
  assumes "jget (jobs (repo_run lc cs empty_repository)) wid = Some j"
    and "job_reflection j = Some x"
  shows "\<exists>j'. jget (jobs (repo_run lc (cs @ ds) empty_repository)) wid = Some j' \<and>
    job_reflection j' = Some x \<and> (job_state j = COMMITTED \<longrightarrow> j' = j)"
  using repo_run_history [OF repo_run_inv [OF repo_inv_empty] assms(1), of lc ds] assms(2)
  by (auto simp: repo_run_append job_history_def)

subsection \<open>Claims\<close>

lemma js_order_job_compare: "js_order lc \<Longrightarrow> js_order (job_compare lc)"
  unfolding job_compare_def
  by (intro js_order_or_else js_order_cmp_by) (auto simp: js_order_def js_comparator_def js_order_axioms_def)

lemma claim_hd:
  assumes "claimNextRunnable lc now lease r = (Inr (Some c), r')"
  obtains j js where "js_sort (job_compare lc) (filter (\<lambda>job. isRunnable job now) (jvalues (jobs r))) = j # js"
    and "c = claimed_job now lease j" and "r' = put_job (job_windowId j) c r"
  using assms by (auto simp: claimNextRunnable_def Let_def split: list.splits)

text \<open>A claim returns nothing exactly when no job is runnable; otherwise it takes a runnable
  job that is first by due time, then creation time, then window id, and no job is skipped.\<close>

lemma claim_takes_first_runnable:
  assumes "js_order lc"
  shows "(fst (claimNextRunnable lc now lease r) = Inr None \<longleftrightarrow>
      (\<forall>j \<in> set (jvalues (jobs r)). \<not> isRunnable j now)) \<and>
    (\<forall>c. fst (claimNextRunnable lc now lease r) = Inr (Some c) \<longrightarrow>
      (\<exists>j \<in> set (jvalues (jobs r)). isRunnable j now \<and> c = claimed_job now lease j \<and>
        (\<forall>k \<in> set (jvalues (jobs r)). isRunnable k now \<longrightarrow> job_compare lc j k \<le> 0)))"
proof -
  let ?run = "filter (\<lambda>job. isRunnable job now) (jvalues (jobs r))"
  note cmp = js_order.axioms(1) [OF js_order_job_compare [OF assms]]
  show ?thesis
  proof (cases "js_sort (job_compare lc) ?run")
    case Nil
    then have "?run = []" using js_sort_eq_Nil_iff by blast
    with Nil show ?thesis by (auto simp: claimNextRunnable_def filter_empty_conv)
  next
    case (Cons j js)
    then have "j \<in> set ?run" by (metis list.set_intros(1) set_js_sort)
    moreover have "\<forall>k \<in> set ?run. job_compare lc j k \<le> 0"
      using js_comparator.sort_cmp_hd [OF cmp Cons] by blast
    ultimately show ?thesis using Cons by (auto simp: claimNextRunnable_def Let_def)
  qed
qed

text \<open>A claimed job is held exclusively: until its lease expires, no further claim returns it.\<close>

lemma claim_exclusive_until_lease:
  assumes "claimNextRunnable lc now lease (repo_run lc cs empty_repository) = (Inr (Some c), r')"
    and "now' < now + lease"
    and "claimNextRunnable lc now' lease' r' = (Inr (Some c'), r'')"
  shows "job_windowId c' \<noteq> job_windowId c"
proof
  let ?r = "repo_run lc cs empty_repository"
  assume same: "job_windowId c' = job_windowId c"
  have inv: "repo_inv ?r" by (rule repo_run_inv) (rule repo_inv_empty)
  have inv': "repo_inv r'" using claim_inv [OF inv, of lc now lease] assms(1) by simp
  from inv assms(1) obtain j where j: "c = claimed_job now lease j"
    "r' = put_job (job_windowId j) c ?r" by (rule claim_cases) auto
  from inv' assms(3) obtain k where k: "c' = claimed_job now' lease' k" "isRunnable k now'"
    "jget (jobs r') (job_windowId k) = Some k" by (rule claim_cases) auto
  have "k = c" using k(1,3) j same by (simp add: claimed_job_def put_job_def)
  with k(2) assms(2) show False
    by (simp add: j(1) claimed_job_def isRunnable_def split: if_splits)
qed

text \<open>A claim abandoned at shutdown costs the job nothing: its attempt count, first attempt
  time, result and failure record are what they were before the claim, and it is runnable again.\<close>

lemma abandoned_claim_is_free:
  assumes "job_inv j" and "isRunnable j now"
    and "abandon_job later (claimed_job now lease j) = Inr j'"
  shows "attempt j' = attempt j \<and> firstAttemptAtMs j' = firstAttemptAtMs j \<and>
    job_reflection j' = job_reflection j \<and> lastFailure j' = lastFailure j \<and>
    leaseExpiresAtMs j' = None \<and> isRunnable j' later"
  using assms
  by (cases "job_reflection j"; cases "firstAttemptAtMs j")
    (auto simp: abandon_job_def claimed_job_def Let_def isRunnable_def due_at_def job_inv_def)

subsection \<open>Seals\<close>

lemma sealWindow_fresh:
  assumes "jget (windows r) (windowId w) = None" and "valid_owner owner"
    and "map_option revision (jget (collectors r) (collectorId s)) = Some rv"
  shows "sealWindow w s rv owner r =
    (Inr \<lparr>inserted = True, sealed_window = w, sealed_snapshot = s, sealed_job = new_job w\<rparr>,
     r\<lparr>windows := jset (windowId w) w (windows r), jobs := jset (windowId w) (new_job w) (jobs r),
       cloudOwners := (case owner of None \<Rightarrow> cloudOwners r
         | Some a \<Rightarrow> jset (windowId w) a (cloudOwners r)),
       collectors := jset (collectorId s) s (collectors r)\<rparr>)"
  using assms
  by (auto simp: sealWindow_def Let_def normalizeRequired_valid split: option.splits)

lemma sealWindow_InrD:
  assumes "sealWindow w s rv owner r = (Inr res, r')"
  shows "(inserted res \<and> sealed_window res = w \<and> sealed_snapshot res = s \<and>
      sealed_job res = new_job w \<and> valid_owner owner \<and>
      map_option revision (jget (collectors r) (collectorId s)) = Some rv) \<or>
    (\<not> inserted res \<and> r' = r \<and> jget (windows r) (windowId w) = Some (sealed_window res) \<and>
      jget (collectors r) (collectorId s) = Some (sealed_snapshot res))"
  using assms
  by (auto simp: sealWindow_def Let_def valid_owner_def dest!: normalizeRequired_Inr
      split: option.splits sum.splits if_splits)

text \<open>A first seal stores the window, enqueues a \<open>READY\<close> job for it, records its owner and
  replaces the collector snapshot in one step; sealing the same window again for the same owner
  changes nothing and reports the stored window and job.\<close>

lemma sealWindow_once:
  assumes "jget (windows r) (windowId w) = None" and "jget (cloudOwners r) (windowId w) = None"
    and "valid_owner owner"
    and "map_option revision (jget (collectors r) (collectorId s)) = Some rv"
    and "sealWindow w s rv owner r = (res, r')"
  shows "res = Inr \<lparr>inserted = True, sealed_window = w, sealed_snapshot = s, sealed_job = new_job w\<rparr> \<and>
    jget (windows r') (windowId w) = Some w \<and> jget (jobs r') (windowId w) = Some (new_job w) \<and>
    jget (cloudOwners r') (windowId w) = owner \<and> jget (collectors r') (collectorId s) = Some s \<and>
    sealWindow w s rv' owner r' =
      (Inr \<lparr>inserted = False, sealed_window = w, sealed_snapshot = s, sealed_job = new_job w\<rparr>, r')"
  using assms sealWindow_fresh [OF assms(1,3,4)]
  by (auto simp: sealWindow_def [of w s rv'] normalizeOptional_valid split: option.splits)

text \<open>A seal that fails leaves the repository as it was, provided the owner is a well-formed
  account id; in particular a stale revision never writes.\<close>

lemma sealWindow_atomic:
  assumes "valid_owner owner" and "sealWindow w s rv owner r = (Inl e, r')"
  shows "r' = r"
  using assms
  by (auto simp: sealWindow_def Let_def normalizeRequired_valid split: option.splits sum.splits if_splits)

subsection \<open>Cloud handoff\<close>

text \<open>The handoff list of an account holds exactly the windows sealed for that account, and
  acknowledging one removes it for good without touching any other account's windows.\<close>

lemma handoff_isolated:
  assumes "repo_inv r" and "listWindowsForAccount lc a r = (Inr ws, r1)"
    and "acknowledgeWindowForAccount a wid r = (Inr ok, r2)"
  shows "(\<forall>w. w \<in> set ws \<longleftrightarrow> jget (windows r) (windowId w) = Some w \<and>
        jget (cloudOwners r) (windowId w) = Some a) \<and>
    (ok \<longleftrightarrow> jget (cloudOwners r) wid \<in> {None, Some a}) \<and>
    (ok \<longrightarrow> jget (cloudOwners r2) wid = None) \<and>
    (\<forall>other b. b \<noteq> a \<longrightarrow> (jget (cloudOwners r2) other = Some b \<longleftrightarrow> jget (cloudOwners r) other = Some b))"
proof (intro conjI)
  have d: "distinct (jkeys (windows r))" and k: "\<And>wid w. jget (windows r) wid = Some w \<Longrightarrow> windowId w = wid"
    using assms(1) unfolding repo_inv_def by blast+
  have ws: "set ws = {w \<in> set (jvalues (windows r)). jget (cloudOwners r) (windowId w) = Some a}"
    using assms(2) by (auto simp: listWindowsForAccount_def simp del: set_map
        dest!: normalizeRequired_Inr split: sum.splits)
  have vals: "\<And>w. w \<in> set (jvalues (windows r)) \<longleftrightarrow> jget (windows r) (windowId w) = Some w"
    using jvalues_in_iff [OF d] k by metis
  show "\<forall>w. w \<in> set ws \<longleftrightarrow> jget (windows r) (windowId w) = Some w \<and>
      jget (cloudOwners r) (windowId w) = Some a"
    using ws vals by blast
qed (use assms(3) in \<open>auto simp: acknowledgeWindowForAccount_def dest!: normalizeRequired_Inr
    split: sum.splits option.splits if_splits\<close>)

end
