(* ===== verification/CanonicalJson.thy ===== *)
theory CanonicalJson
  imports ReflectionTypes
begin

text \<open>
  Canonical JSON, \<open>src/agent/reflection/hash.ts\<close>: an object is rebuilt with its keys in code unit
  order and without undefined entries, then given to \<open>JSON.stringify\<close>. A value is a \<open>json\<close> term, with
  \<open>JUndef\<close> for \<open>undefined\<close>; an object is its list of entries in the order in which the engine
  enumerates them. Numbers are whole and of a size that is printed without an exponent. The digest itself (\<open>crypto.subtle\<close>) is a
  parameter of the definitions that hash.
\<close>

datatype json =
    JUndef
  | JNull
  | JBool bool
  | JNum int
  | JStr string
  | JArr "json list"
  | JObj "(string \<times> json) list"

text \<open>Reading a property of an object.\<close>

definition json_field :: "(string \<times> json) list \<Rightarrow> string \<Rightarrow> json" where
  "json_field es key = (case map_of es key of None \<Rightarrow> JUndef | Some v \<Rightarrow> v)"

lemma json_entry_size [termination_simp]:
  "e \<in> set es \<Longrightarrow> size (snd e) < Suc (size_list (size_prod (\<lambda>_. 0) size) es)"
  by (induction es) auto

abbreviation key_compare :: "string \<times> 'a \<Rightarrow> string \<times> 'a \<Rightarrow> int" where
  "key_compare a b \<equiv> code_unit_compare (fst a) (fst b)"

text \<open>
  What assigning entries one by one to a fresh object \<open>{}\<close> leaves: keys that are array indices are
  enumerated first, by number, the other keys in the order of their assignment, and assigning to
  \<open>__proto__\<close> adds no entry.
\<close>

definition index_value :: "string \<Rightarrow> int" where
  "index_value key = foldl (\<lambda>n c. n * 10 + int (char_digit c)) 0 key"

definition is_array_index :: "string \<Rightarrow> bool" where
  "is_array_index key =
     (if \<not> list_all (\<lambda>c. c \<in> set ''0123456789'') key then False
      else if key = [] \<or> hd key = CHR ''0'' \<and> tl key \<noteq> [] then False
      else index_value key < 2 ^ 32 - 1)"

definition index_compare :: "string \<times> 'a \<Rightarrow> string \<times> 'a \<Rightarrow> int" where
  "index_compare = cmp_by (\<lambda>e. index_value (fst e))"

definition object_entries :: "(string \<times> 'a) list \<Rightarrow> (string \<times> 'a) list" where
  "object_entries es = js_sort index_compare (filter (\<lambda>e. is_array_index (fst e)) es) @
     filter (\<lambda>e. \<not> is_array_index (fst e) \<and> fst e \<noteq> ''__proto__'') es"

lemma set_object_entries [simp, termination_simp]: "set (object_entries es) = {e \<in> set es. fst e \<noteq> ''__proto__''}"
  by (auto simp: object_entries_def is_array_index_def)

fun toCanonicalValue :: "json \<Rightarrow> json" where
  "toCanonicalValue (JArr vs) = JArr (map toCanonicalValue vs)"
| "toCanonicalValue (JObj es) =
     JObj (map (\<lambda>e. (fst e, toCanonicalValue (snd e)))
       (object_entries (filter (\<lambda>e. snd e \<noteq> JUndef) (js_sort key_compare es))))"
| "toCanonicalValue v = v"

text \<open>\<open>JSON.stringify\<close> without indentation.\<close>

definition json_escape_char :: "char \<Rightarrow> string" where
  "json_escape_char c =
     (let n = (of_char c :: nat) in
      if n = 34 then [char_of (92::nat), char_of (34::nat)]
      else if n = 92 then [char_of (92::nat), char_of (92::nat)]
      else if n = 8 then [char_of (92::nat), CHR ''b'']
      else if n = 12 then [char_of (92::nat), CHR ''f'']
      else if n = 10 then [char_of (92::nat), CHR ''n'']
      else if n = 13 then [char_of (92::nat), CHR ''r'']
      else if n = 9 then [char_of (92::nat), CHR ''t'']
      else if n < 32 then [char_of (92::nat)] @ ''u00'' @ [digit_char (n div 16), digit_char (n mod 16)]
      else [c])"

definition json_quote :: "string \<Rightarrow> string" where
  "json_quote s = [char_of (34::nat)] @ concat (map json_escape_char s) @ [char_of (34::nat)]"

fun stringify :: "json \<Rightarrow> string" where
  "stringify JUndef = ''undefined''"
| "stringify JNull = ''null''"
| "stringify (JBool b) = (if b then ''true'' else ''false'')"
| "stringify (JNum n) = show_int n"
| "stringify (JStr s) = json_quote s"
| "stringify (JArr vs) =
     ''['' @ js_join '','' (map (\<lambda>v. if v = JUndef then ''null'' else stringify v) vs) @ '']''"
| "stringify (JObj es) =
     ''{'' @ js_join '','' (map (\<lambda>e. json_quote (fst e) @ '':'' @ stringify (snd e))
       (filter (\<lambda>e. snd e \<noteq> JUndef) es)) @ ''}''"

definition canonicalJson :: "json \<Rightarrow> string" where
  "canonicalJson v = stringify (toCanonicalValue v)"

subsection \<open>Canonical values do not depend on the order of the keys\<close>

interpretation key_order: js_comparator key_compare
  by unfold_locales (use code_unit.cmp_total code_unit.cmp_trans in blast)+

lemma key_sorted_unique:
  assumes "sorted_wrt (\<lambda>a b. key_compare a b \<le> 0) xs" and "sorted_wrt (\<lambda>a b. key_compare a b \<le> 0) ys"
    and "mset xs = mset ys" and "distinct (map fst xs)"
  shows "xs = ys"
  using assms
proof (induction xs arbitrary: ys)
  case Nil
  then show ?case by simp
next
  case (Cons x xs)
  then obtain y ys' where ys: "ys = y # ys'" by (cases ys) auto
  have xin: "x \<in> set ys" and yin: "y \<in> set (x # xs)"
    using Cons.prems(3) ys by (metis list.set_intros(1) set_mset_mset)+
  have "key_compare x y \<le> 0" and "key_compare y x \<le> 0"
    using Cons.prems(1,2) ys xin yin key_order.sort_cmp_refl by auto
  then have "fst x = fst y"
    using code_unit_compare_flip [of "fst x" "fst y"] code_unit_compare_eq_0 [of "fst x" "fst y"]
    by linarith
  with Cons.prems(4) yin have "x = y" by (auto simp: image_iff)
  with Cons ys show ?case by auto
qed

lemma js_sort_keys_perm:
  assumes "mset es = mset es'" and "distinct (map fst es)"
  shows "js_sort key_compare es = js_sort key_compare es'"
proof (rule key_sorted_unique)
  show "distinct (map fst (js_sort key_compare es))"
    using assms(2) by (metis mset_js_sort mset_map mset_eq_imp_distinct_iff)
qed (use assms key_order.sorted_sort_cmp in auto)

lemma js_sort_keys_sorted:
  assumes "sorted_wrt (\<lambda>a b. key_compare a b \<le> 0) es" and "distinct (map fst es)"
  shows "js_sort key_compare es = es"
  by (rule sym, rule key_sorted_unique) (use assms key_order.sorted_sort_cmp in auto)

fun distinct_keys :: "json \<Rightarrow> bool" where
  "distinct_keys (JArr vs) = (\<forall>v \<in> set vs. distinct_keys v)"
| "distinct_keys (JObj es) = (distinct (map fst es) \<and> (\<forall>e \<in> set es. distinct_keys (snd e)))"
| "distinct_keys v = True"

lemma toCanonicalValue_eq_JUndef [simp]: "toCanonicalValue v = JUndef \<longleftrightarrow> v = JUndef"
  by (cases v) auto

text \<open>An object none of whose keys is special is enumerated as it was built.\<close>

definition plain_key :: "string \<Rightarrow> bool" where
  "plain_key key \<longleftrightarrow> \<not> is_array_index key \<and> key \<noteq> ''__proto__''"

fun plain_keys :: "json \<Rightarrow> bool" where
  "plain_keys (JArr vs) = (\<forall>v \<in> set vs. plain_keys v)"
| "plain_keys (JObj es) = (\<forall>e \<in> set es. plain_key (fst e) \<and> plain_keys (snd e))"
| "plain_keys v = True"

lemma object_entries_plain: "\<forall>e \<in> set es. plain_key (fst e) \<Longrightarrow> object_entries es = es"
  by (simp add: object_entries_def plain_key_def filter_id_conv filter_empty_conv)

end
