(* ===== verification/WindowBuilder.thy ===== *)
theory WindowBuilder
  imports CanonicalJson
begin

text \<open>
  The deterministic window builder, \<open>src/agent/reflection/window-builder.ts\<close>: it selects the
  context of a window, renders the model input within a token and a byte budget, and derives
  the window's identity. The SHA-256 digest is the parameter \<open>sha256\<close>; the token estimator is
  the option \<open>estimateTokens\<close>, as in the source, with the source's default modelled as
  \<open>conservativeTokenEstimate\<close>.
\<close>

subsection \<open>Events as JSON values\<close>

fun opt_str :: "string option \<Rightarrow> json" where
  "opt_str None = JUndef"
| "opt_str (Some s) = JStr s"

fun null_int :: "int option \<Rightarrow> json" where
  "null_int None = JNull"
| "null_int (Some n) = JNum n"

fun opt_int :: "int option \<Rightarrow> json" where
  "opt_int None = JUndef"
| "opt_int (Some n) = JNum n"

fun opt_bool :: "bool option \<Rightarrow> json" where
  "opt_bool None = JUndef"
| "opt_bool (Some b) = JBool b"

fun null_str :: "string option \<Rightarrow> json" where
  "null_str None = JNull"
| "null_str (Some s) = JStr s"

fun goal_json :: "ActiveGoalContext option \<Rightarrow> json" where
  "goal_json None = JNull"
| "goal_json (Some g) = JObj
     [(''goalId'', JStr (goalId g)), (''planId'', null_str (planId g)),
      (''version'', JNum (goal_version g)), (''text'', JStr (goal_text g)),
      (''activatedAtMs'', JNum (activatedAtMs g))]"

definition process_json :: "ProcessObservation \<Rightarrow> json" where
  "process_json p = JObj
     [(''processId'', JNum (processId p)), (''appId'', JStr (process_appId p)),
      (''appName'', JStr (process_appName p))]"

fun payload_json :: "DesktopEventPayload \<Rightarrow> json" where
  "payload_json (ProcessObservedBatch st ex) =
     JObj [(''started'', JArr (map process_json st)), (''exited'', JArr (map process_json ex))]"
| "payload_json (ForegroundChanged a n t) =
     JObj [(''appId'', JStr a), (''appName'', JStr n), (''windowTitle'', opt_str t)]"
| "payload_json (TabOpened b t ti u) =
     JObj [(''browserId'', JStr b), (''tabId'', JStr t), (''title'', opt_str ti), (''url'', opt_str u)]"
| "payload_json (TabNavigated b t ti u) =
     JObj [(''browserId'', JStr b), (''tabId'', JStr t), (''title'', opt_str ti), (''url'', opt_str u)]"
| "payload_json (TabClosed b t) = JObj [(''browserId'', JStr b), (''tabId'', JStr t)]"
| "payload_json (FocusChanged a r l) =
     JObj [(''appId'', JStr a), (''role'', JStr r), (''label'', opt_str l)]"
| "payload_json (ValueChanged a r v) =
     JObj [(''appId'', JStr a), (''role'', JStr r), (''value'', opt_str v)]"
| "payload_json (AccessibilityDocumentChanged a d i del tc t) =
     JObj [(''appId'', JStr a), (''documentId'', opt_str d), (''insertedChars'', JNum i),
       (''deletedChars'', JNum del), (''textChangeObserved'', opt_bool tc), (''text'', opt_str t)]"
| "payload_json (EditorDocumentChanged e d p l i del t bs be) =
     JObj [(''editorId'', JStr e), (''documentId'', JStr d), (''relativePath'', opt_str p),
       (''language'', opt_str l), (''insertedChars'', JNum i), (''deletedChars'', JNum del),
       (''text'', opt_str t), (''burstStartedAtMs'', JNum bs), (''burstEndedAtMs'', JNum be)]"
| "payload_json (ActivityAggregated bs be k c s m n) =
     JObj [(''bucketStartedAtMs'', JNum bs), (''bucketEndedAtMs'', JNum be), (''keyCount'', JNum k),
       (''clickCount'', JNum c), (''scrollDelta'', JNum s), (''mouseDistance'', JNum m),
       (''coalescedBucketCount'', opt_int n)]"
| "payload_json (AfkStarted n) = JObj [(''idleForMs'', JNum n)]"
| "payload_json (AfkEnded n) = JObj [(''idleForMs'', JNum n)]"
| "payload_json (GoalContextChanged p n) =
     JObj [(''previous'', goal_json p), (''next'', goal_json n)]"
| "payload_json (AuthorizationRevoked ps) = JObj [(''permissions'', JArr (map JStr ps))]"
| "payload_json (AuthorizationGranted ps) = JObj [(''permissions'', JArr (map JStr ps))]"
| "payload_json (ReflectionCompleted w) = JObj [(''windowId'', JStr w)]"
| "payload_json (ReflectionFailed w c) = JObj [(''windowId'', JStr w), (''code'', JStr c)]"
| "payload_json (ToolStarted c n) = JObj [(''callId'', JStr c), (''name'', opt_str n)]"
| "payload_json (ToolProgress c p) = JObj [(''callId'', JStr c), (''progress'', opt_int p)]"
| "payload_json (ToolCompleted c n) = JObj [(''callId'', JStr c), (''name'', opt_str n)]"
| "payload_json (ToolFailed c n) = JObj [(''callId'', JStr c), (''code'', opt_str n)]"
| "payload_json (ToolCancelled c) = JObj [(''callId'', JStr c)]"
| "payload_json _ = JObj []"

definition renderEvent :: "DesktopEvent \<Rightarrow> string" where
  "renderEvent e = canonicalJson (JObj
     [(''eventId'', JStr (eventId e)), (''cursor'', JStr (cursor e)), (''kind'', JStr (kind e)),
      (''source'', JStr (event_source e)), (''occurredAtMs'', JNum (occurredAtMs e)),
      (''goalVersion'', null_int (event_goalVersion e)), (''payload'', payload_json (payload e))])"

definition renderEventSkeleton :: "DesktopEvent \<Rightarrow> string" where
  "renderEventSkeleton e = canonicalJson (JObj
     [(''kind'', JStr (kind e)), (''occurredAtMs'', JNum (occurredAtMs e))])"

lemma json_take_size [termination_simp]: "v \<in> set (take n vs) \<Longrightarrow> size v < Suc (size_list size vs)"
  by (auto dest: in_set_takeD simp: less_Suc_eq_le intro: size_list_estimation')

text \<open>The depth grows in every call, so the bound of four levels makes the recursion finite;
  it also follows the structure of the value.\<close>

fun compactModelValue :: "json \<Rightarrow> nat \<Rightarrow> json" where
  "compactModelValue (JStr s) depth = JStr (take 160 s)"
| "compactModelValue JNull depth = JNull"
| "compactModelValue (JBool b) depth = JBool b"
| "compactModelValue (JNum n) depth = JNum n"
| "compactModelValue (JArr vs) depth =
     (if 4 \<le> depth then JStr ''[bounded]''
      else JArr (map (\<lambda>v. compactModelValue v (depth + 1)) (take 8 vs) @
        (if length (take 8 vs) < length vs
         then [JObj [(''omittedItems'', JNum (int (length vs) - int (length (take 8 vs))))]]
         else [])))"
| "compactModelValue (JObj es) depth =
     (if 4 \<le> depth then JStr ''[bounded]''
      else JObj (map (\<lambda>e. (fst e, compactModelValue (snd e) (depth + 1)))
        (filter (\<lambda>e. snd e \<noteq> JUndef) (js_sort key_compare es))))"
| "compactModelValue JUndef depth =
     (if 4 \<le> depth then JStr ''[bounded]'' else JStr ''undefined'')"

definition renderCompactEvent :: "DesktopEvent \<Rightarrow> string" where
  "renderCompactEvent e = canonicalJson (JObj
     [(''kind'', JStr (kind e)), (''occurredAtMs'', JNum (occurredAtMs e)),
      (''payload'', compactModelValue (payload_json (payload e)) 0)])"

subsection \<open>Token estimate\<close>

fun token_loop :: "nat \<Rightarrow> nat \<Rightarrow> string \<Rightarrow> nat" where
  "token_loop asciiRun tokens [] = (if 0 < asciiRun then tokens + (asciiRun + 3) div 4 else tokens)"
| "token_loop asciiRun tokens (c # cs) =
     (if (of_char c :: nat) \<le> 127 then token_loop (asciiRun + 1) tokens cs
      else token_loop 0 ((if 0 < asciiRun then tokens + (asciiRun + 3) div 4 else tokens) + 1) cs)"

definition conservativeTokenEstimate :: "string \<Rightarrow> nat" where
  "conservativeTokenEstimate value = token_loop 0 0 value"

subsection \<open>The model input\<close>

definition newline :: string where
  "newline = [char_of (10::nat)]"

definition composeModelInput :: "string \<Rightarrow> string list \<Rightarrow> string list \<Rightarrow> string" where
  "composeModelInput goalSection contextLines eventLines =
     ''[GOAL]'' @ newline @ goalSection @ newline @ ''[CONTEXT_ONLY]'' @ newline @
     (if contextLines = [] then ''(none)'' else js_join newline contextLines) @ newline @
     ''[EVENTS]'' @ newline @ js_join newline eventLines"

record model_budget =
  tokenLimit :: int
  byteLimit :: int
  estimateTokens :: "string \<Rightarrow> nat"

definition modelInputFits :: "model_budget \<Rightarrow> string \<Rightarrow> bool" where
  "modelInputFits b value \<longleftrightarrow>
     int (utf8_length value) \<le> byteLimit b \<and> int (estimateTokens b value) \<le> tokenLimit b"

datatype window_error =
    ModelInputBudgetExceeded
  | EmptyReflectionWindow
  | LostCursorBounds
  | InvalidTokenLimit
  | InvalidByteLimit

datatype line_slot = ContextLine nat | EventLine nat

text \<open>One entry of the \<open>upgrades\<close> array: the line it replaces and the richer text.\<close>

definition model_upgrades :: "DesktopEvent list \<Rightarrow> DesktopEvent list \<Rightarrow> (line_slot \<times> string) list" where
  "model_upgrades events context =
     map (\<lambda>i. (EventLine i, renderCompactEvent (events ! i))) (rev [0..<length events]) @
     map (\<lambda>i. (ContextLine i, renderCompactEvent (context ! i))) (rev [0..<length context])"

fun set_line :: "line_slot \<Rightarrow> string \<Rightarrow> string list \<times> string list \<Rightarrow> string list \<times> string list" where
  "set_line (ContextLine i) v (ctx, evs) = (ctx[i := v], evs)"
| "set_line (EventLine i) v (ctx, evs) = (ctx, evs[i := v])"

fun apply_upgrades ::
  "model_budget \<Rightarrow> string \<Rightarrow> (line_slot \<times> string) list \<Rightarrow> string list \<times> string list \<Rightarrow> string \<Rightarrow> string" where
  "apply_upgrades b goalSection [] lines bounded = bounded"
| "apply_upgrades b goalSection ((slot, v) # us) lines bounded =
     (let lines' = set_line slot v lines;
          candidate = composeModelInput goalSection (fst lines') (snd lines')
      in if modelInputFits b candidate then apply_upgrades b goalSection us lines' candidate
         else apply_upgrades b goalSection us lines bounded)"

definition goal_section :: "ActiveGoalContext option \<Rightarrow> string" where
  "goal_section goal =
     (case goal of None \<Rightarrow> ''null''
      | Some g \<Rightarrow> canonicalJson (JObj
          [(''goalId'', JStr (goalId g)), (''planId'', null_str (planId g)),
           (''version'', JNum (goal_version g)), (''text'', JStr (goal_text g))]))"

definition renderModelInput ::
  "model_budget \<Rightarrow> ActiveGoalContext option \<Rightarrow> DesktopEvent list \<Rightarrow> DesktopEvent list
   \<Rightarrow> window_error + string" where
  "renderModelInput b goal events context =
     (let goalSection = goal_section goal;
          rich = composeModelInput goalSection (map renderEvent context) (map renderEvent events)
      in if modelInputFits b rich then Inr rich
         else
           let contextLines = map renderEventSkeleton context;
               eventLines = map renderEventSkeleton events;
               bounded = composeModelInput goalSection contextLines eventLines
           in if \<not> modelInputFits b bounded then Inl ModelInputBudgetExceeded
              else Inr (apply_upgrades b goalSection (model_upgrades events context)
                (contextLines, eventLines) bounded))"

subsection \<open>The builder\<close>

definition DEFAULT_CONTEXT_EVENT_LIMIT :: nat where
  "DEFAULT_CONTEXT_EVENT_LIMIT = 5"

record builder_options =
  contextEventLimit :: int
  contextLookbackMs :: int
  contextTokenLimit :: int
  modelBudget :: model_budget

definition default_builder_options :: builder_options where
  "default_builder_options =
     \<lparr>contextEventLimit = 5, contextLookbackMs = 30000, contextTokenLimit = 96,
      modelBudget = \<lparr>tokenLimit = 3000, byteLimit = 32 * 1024,
        estimateTokens = conservativeTokenEstimate\<rparr>\<rparr>"

text \<open>The constructor's checks.\<close>

definition DeterministicWindowBuilder :: "builder_options \<Rightarrow> window_error + builder_options" where
  "DeterministicWindowBuilder opts =
     (if tokenLimit (modelBudget opts) < 1 then Inl InvalidTokenLimit
      else if byteLimit (modelBudget opts) < 1 then Inl InvalidByteLimit
      else Inr opts)"

text \<open>The loop of \<open>selectContext\<close> runs over the candidates from the newest one.\<close>

fun select_context_loop ::
  "builder_options \<Rightarrow> int \<Rightarrow> DesktopEvent list \<Rightarrow> DesktopEvent list \<Rightarrow> int \<Rightarrow> DesktopEvent list" where
  "select_context_loop opts nextStartedAtMs [] selected usedTokens = selected"
| "select_context_loop opts nextStartedAtMs (candidate # rest) selected usedTokens =
     (if contextEventLimit opts \<le> int (length selected) then selected
      else if \<not> isCountedSemanticEvent candidate
      then select_context_loop opts nextStartedAtMs rest selected usedTokens
      else
        let ageMs = nextStartedAtMs - occurredAtMs candidate
        in if ageMs < 0 \<or> contextLookbackMs opts < ageMs
           then select_context_loop opts nextStartedAtMs rest selected usedTokens
           else
             let tokens = int (estimateTokens (modelBudget opts) (renderEvent candidate))
             in if contextTokenLimit opts - usedTokens < tokens
                then select_context_loop opts nextStartedAtMs rest selected usedTokens
                else select_context_loop opts nextStartedAtMs rest (selected @ [candidate])
                       (usedTokens + tokens))"

definition selectContext :: "builder_options \<Rightarrow> DesktopEvent list \<Rightarrow> int \<Rightarrow> DesktopEvent list" where
  "selectContext opts candidates nextStartedAtMs =
     rev (select_context_loop opts nextStartedAtMs (rev candidates) [] 0)"

record WindowBuildRequest =
  req_collectorId :: string
  req_deviceId :: string
  req_sessionId :: string
  req_openWindow :: OpenEventWindow
  req_triggerReason :: ReflectionTriggerReason
  req_endedAtMs :: int
  req_contextCandidates :: "DesktopEvent list"

definition window_identity ::
  "WindowBuildRequest \<Rightarrow> string \<Rightarrow> string \<Rightarrow> string" where
  "window_identity request first_cursor last_cursor = canonicalJson (JObj
     [(''deviceId'', JStr (req_deviceId request)), (''sessionId'', JStr (req_sessionId request)),
      (''goalVersion'', null_int (ow_goalVersion (req_openWindow request))),
      (''firstCursor'', JStr first_cursor), (''lastCursor'', JStr last_cursor),
      (''triggerReason'', JStr (reason_name (req_triggerReason request)))])"

definition build ::
  "(string \<Rightarrow> string) \<Rightarrow> builder_options \<Rightarrow> WindowBuildRequest \<Rightarrow> window_error + EventWindow" where
  "build sha256 opts request =
     (let ow = req_openWindow request; primaryEvents = ow_events ow
      in if primaryEvents = [] \<or> finalizedSemanticEventCount ow = 0 then Inl EmptyReflectionWindow
         else
           let firstEvent = hd primaryEvents; lastEvent = last primaryEvents;
               context = selectContext opts (req_contextCandidates request) (ow_startedAtMs ow)
           in case renderModelInput (modelBudget opts) (ow_goal ow) primaryEvents context of
                Inl e \<Rightarrow> Inl e
              | Inr input \<Rightarrow> Inr
                  \<lparr>windowId = ''window_'' @
                     sha256 (window_identity request (cursor firstEvent) (cursor lastEvent)),
                   win_collectorId = req_collectorId request,
                   win_deviceId = req_deviceId request,
                   win_sessionId = req_sessionId request,
                   win_triggerReason = req_triggerReason request,
                   win_goal = ow_goal ow,
                   win_goalVersion = ow_goalVersion ow,
                   win_startedAtMs = ow_startedAtMs ow,
                   win_endedAtMs = max (ow_startedAtMs ow) (req_endedAtMs request),
                   win_deadlineAtMs = ow_deadlineAtMs ow,
                   win_eventCount = finalizedSemanticEventCount ow,
                   firstCursor = cursor firstEvent,
                   lastCursor = cursor lastEvent,
                   win_events = primaryEvents,
                   contextOnly = context,
                   modelInput = input,
                   inputHash = sha256 input\<rparr>)"

definition contextCandidatesFromWindow :: "EventWindow \<Rightarrow> DesktopEvent list" where
  "contextCandidatesFromWindow window =
     slice_last DEFAULT_CONTEXT_EVENT_LIMIT (filter isCountedSemanticEvent (win_events window))"

subsection \<open>The model input stays within its budget and shows every event\<close>

lemma apply_upgrades_fits:
  "modelInputFits b bounded \<Longrightarrow> modelInputFits b (apply_upgrades b g us lines bounded)"
  by (induction b g us lines bounded rule: apply_upgrades.induct) (auto simp: Let_def)

text \<open>A line of the input renders its event in full, compactly or as a skeleton.\<close>

definition renders :: "string \<Rightarrow> DesktopEvent \<Rightarrow> bool" where
  "renders line e \<longleftrightarrow> line \<in> {renderEvent e, renderCompactEvent e, renderEventSkeleton e}"

definition rendered_lines :: "string list \<Rightarrow> DesktopEvent list \<Rightarrow> bool" where
  "rendered_lines lines events \<longleftrightarrow> list_all2 renders lines events"

lemma rendered_map:
  "rendered_lines (map renderEvent es) es" "rendered_lines (map renderEventSkeleton es) es"
  by (auto simp: rendered_lines_def renders_def list_all2_conv_all_nth)

lemma rendered_update:
  "rendered_lines lines es \<Longrightarrow> i < length es \<Longrightarrow>
   rendered_lines (lines[i := renderCompactEvent (es ! i)]) es"
  by (auto simp: rendered_lines_def renders_def list_all2_conv_all_nth nth_list_update)

definition upgrade_for :: "DesktopEvent list \<Rightarrow> DesktopEvent list \<Rightarrow> line_slot \<times> string \<Rightarrow> bool" where
  "upgrade_for events context u \<longleftrightarrow>
     (case u of (EventLine i, v) \<Rightarrow> i < length events \<and> v = renderCompactEvent (events ! i)
      | (ContextLine i, v) \<Rightarrow> i < length context \<and> v = renderCompactEvent (context ! i))"

lemma model_upgrades_for: "list_all (upgrade_for events context) (model_upgrades events context)"
  by (auto simp: model_upgrades_def list_all_iff upgrade_for_def)

lemma set_line_rendered:
  assumes "upgrade_for events context (slot, v)"
    and "rendered_lines (fst lines) context \<and> rendered_lines (snd lines) events"
  shows "rendered_lines (fst (set_line slot v lines)) context \<and>
    rendered_lines (snd (set_line slot v lines)) events"
  using assms
  by (cases slot; cases lines) (auto simp: upgrade_for_def intro: rendered_update)

lemma apply_upgrades_rendered:
  assumes "list_all (upgrade_for events ces) us"
    and "rendered_lines (fst lines) ces \<and> rendered_lines (snd lines) events"
    and "bounded = composeModelInput g (fst lines) (snd lines)"
  shows "\<exists>ctx evs. apply_upgrades b g us lines bounded = composeModelInput g ctx evs \<and>
    rendered_lines ctx ces \<and> rendered_lines evs events"
  using assms
proof (induction b g us lines bounded rule: apply_upgrades.induct)
  case (1 b g lines bounded)
  then show ?case by auto
next
  case (2 b g slot v us lines bounded)
  let ?lines = "set_line slot v lines"
  have keep: "rendered_lines (fst ?lines) ces \<and> rendered_lines (snd ?lines) events"
    using "2.prems" by (intro set_line_rendered) auto
  show ?case
  proof (cases "modelInputFits b (composeModelInput g (fst ?lines) (snd ?lines))")
    case True
    with "2.IH"(1) [OF refl refl True] keep "2.prems" show ?thesis by (simp add: Let_def)
  next
    case False
    with "2.IH"(2) [OF refl refl False] "2.prems" show ?thesis by (simp add: Let_def)
  qed
qed

text \<open>Whatever the events and the goal, a model input that \<open>renderModelInput\<close> returns respects
  both the byte limit and the token limit of its budget.\<close>

lemma renderModelInput_fits:
  assumes "renderModelInput b goal events context = Inr input"
  shows "int (utf8_length input) \<le> byteLimit b \<and> int (estimateTokens b input) \<le> tokenLimit b"
proof -
  have "modelInputFits b input"
    using assms by (auto simp: renderModelInput_def Let_def apply_upgrades_fits split: if_splits)
  then show ?thesis by (simp add: modelInputFits_def)
qed

text \<open>Every event of the window, and every context event, keeps exactly one line of its own in
  the model input, in order: in full, compacted, or as a skeleton. Nothing is dropped to fit.\<close>

lemma renderModelInput_shows_every_event:
  assumes "renderModelInput b goal events context = Inr input"
  shows "\<exists>ctx evs. input = composeModelInput (goal_section goal) ctx evs \<and>
    list_all2 renders ctx context \<and> list_all2 renders evs events"
proof (cases "modelInputFits b (composeModelInput (goal_section goal) (map renderEvent context)
    (map renderEvent events))")
  case True
  with assms rendered_map show ?thesis
    by (fastforce simp: renderModelInput_def Let_def rendered_lines_def)
next
  case False
  let ?lines = "(map renderEventSkeleton context, map renderEventSkeleton events)"
  have "input = apply_upgrades b (goal_section goal) (model_upgrades events context) ?lines
      (composeModelInput (goal_section goal) (fst ?lines) (snd ?lines))"
    using assms False by (auto simp: renderModelInput_def Let_def split: if_splits)
  moreover have "rendered_lines (fst ?lines) context \<and> rendered_lines (snd ?lines) events"
    by (simp add: rendered_map)
  ultimately show ?thesis
    using apply_upgrades_rendered [OF model_upgrades_for _ refl, of ?lines "context" events]
    by (auto simp: rendered_lines_def)
qed

text \<open>Rendering fails exactly when neither the full form nor the skeleton of the goal and
  the events fits the budget.\<close>

lemma renderModelInput_fails_iff:
  "renderModelInput b goal events context = Inl e \<longleftrightarrow>
     e = ModelInputBudgetExceeded \<and>
     \<not> modelInputFits b (composeModelInput (goal_section goal) (map renderEvent context)
         (map renderEvent events)) \<and>
     \<not> modelInputFits b (composeModelInput (goal_section goal) (map renderEventSkeleton context)
         (map renderEventSkeleton events))"
  by (auto simp: renderModelInput_def Let_def)

subsection \<open>The token estimate is conservative\<close>

lemma token_loop_bounds:
  "4 * t + r + utf8_length s \<le> 4 * token_loop r t s \<and> token_loop r t s \<le> t + r + length s"
proof (induction s arbitrary: r t)
  case Nil
  then show ?case by (auto simp: utf8_length_def)
next
  case (Cons c cs)
  show ?case
    using Cons.IH [where r = "r + 1" and t = t] Cons.IH [where r = 0 and t = "t + 1"]
      Cons.IH [where r = 0 and t = "t + (r + 3) div 4 + 1"]
    by (auto simp: utf8_length_def)
qed

text \<open>The default estimator never assumes more than four bytes per token and never counts more
  tokens than characters.\<close>

lemma conservativeTokenEstimate_bounds:
  "utf8_length s \<le> 4 * conservativeTokenEstimate s \<and> conservativeTokenEstimate s \<le> length s"
  using token_loop_bounds [of 0 0 s] by (simp add: conservativeTokenEstimate_def)

subsection \<open>Context selection\<close>

lemma subseq_rev_mono: "subseq xs ys \<Longrightarrow> subseq (rev xs) (rev ys)"
  by (induction rule: list_emb.induct) (auto intro: list_emb_append_mono)

definition in_lookback :: "builder_options \<Rightarrow> int \<Rightarrow> DesktopEvent \<Rightarrow> bool" where
  "in_lookback opts t e \<longleftrightarrow> isCountedSemanticEvent e \<and> 0 \<le> t - occurredAtMs e \<and>
     t - occurredAtMs e \<le> contextLookbackMs opts"

definition context_tokens :: "builder_options \<Rightarrow> DesktopEvent list \<Rightarrow> int" where
  "context_tokens opts es =
     sum_list (map (\<lambda>e. int (estimateTokens (modelBudget opts) (renderEvent e))) es)"

lemma select_context_loop_inv:
  assumes "list_all (in_lookback opts t) selected" and "used = context_tokens opts selected"
    and "context_tokens opts selected \<le> max 0 (contextTokenLimit opts)"
    and "int (length selected) \<le> max 0 (contextEventLimit opts)"
  shows "\<exists>more. select_context_loop opts t cs selected used = selected @ more \<and> subseq more cs \<and>
    list_all (in_lookback opts t) (selected @ more) \<and>
    context_tokens opts (selected @ more) \<le> max 0 (contextTokenLimit opts) \<and>
    int (length (selected @ more)) \<le> max 0 (contextEventLimit opts)"
  using assms
proof (induction cs arbitrary: selected used)
  case Nil
  then show ?case by (intro exI [of _ "[]"]) simp
next
  case (Cons c cs)
  let ?tok = "int (estimateTokens (modelBudget opts) (renderEvent c))"
  let ?take = "int (length selected) < contextEventLimit opts \<and> in_lookback opts t c \<and>
    ?tok \<le> contextTokenLimit opts - used"
  have "select_context_loop opts t (c # cs) selected used =
      select_context_loop opts t cs selected used"
    if "\<not> contextEventLimit opts \<le> int (length selected)" and "\<not> ?take"
    using that by (auto simp: in_lookback_def Let_def)
  then consider (stop) "contextEventLimit opts \<le> int (length selected)"
    | (skip) "select_context_loop opts t (c # cs) selected used =
        select_context_loop opts t cs selected used"
    | (pick) ?take by blast
  then show ?case
  proof cases
    case stop
    with Cons.prems show ?thesis by (intro exI [of _ "[]"]) simp
  next
    case skip
    with Cons.IH [OF Cons.prems] show ?thesis by (auto intro: subseq_Cons')
  next
    case pick
    then have step: "select_context_loop opts t (c # cs) selected used =
        select_context_loop opts t cs (selected @ [c]) (used + ?tok)"
      by (auto simp: in_lookback_def Let_def)
    have "\<exists>more. select_context_loop opts t cs (selected @ [c]) (used + ?tok) =
        (selected @ [c]) @ more \<and> subseq more cs \<and>
        list_all (in_lookback opts t) ((selected @ [c]) @ more) \<and>
        context_tokens opts ((selected @ [c]) @ more) \<le> max 0 (contextTokenLimit opts) \<and>
        int (length ((selected @ [c]) @ more)) \<le> max 0 (contextEventLimit opts)"
      by (rule Cons.IH) (use Cons.prems pick in \<open>auto simp: context_tokens_def\<close>)
    then obtain more where "select_context_loop opts t cs (selected @ [c]) (used + ?tok) =
        (selected @ [c]) @ more" "subseq more cs"
        "list_all (in_lookback opts t) ((selected @ [c]) @ more)"
        "context_tokens opts ((selected @ [c]) @ more) \<le> max 0 (contextTokenLimit opts)"
        "int (length ((selected @ [c]) @ more)) \<le> max 0 (contextEventLimit opts)" by blast
    then show ?thesis using step by (intro exI [of _ "c # more"]) auto
  qed
qed

text \<open>The selected context is an in-order selection of the candidates, made of counted
  activity no older than the look-back and not newer than the window; it has at most
  \<open>contextEventLimit\<close> events and at most \<open>contextTokenLimit\<close> tokens.\<close>

lemma selectContext_spec:
  "subseq (selectContext opts candidates t) candidates \<and>
   list_all (in_lookback opts t) (selectContext opts candidates t) \<and>
   int (length (selectContext opts candidates t)) \<le> max 0 (contextEventLimit opts) \<and>
   context_tokens opts (selectContext opts candidates t) \<le> max 0 (contextTokenLimit opts)"
proof -
  obtain sel where sel: "select_context_loop opts t (rev candidates) [] 0 = sel"
    "subseq sel (rev candidates)" "list_all (in_lookback opts t) sel"
    "context_tokens opts sel \<le> max 0 (contextTokenLimit opts)"
    "int (length sel) \<le> max 0 (contextEventLimit opts)"
    using select_context_loop_inv [of opts t "[]" 0 "rev candidates"]
    by (auto simp: context_tokens_def)
  from sel(2) have "subseq (rev sel) candidates" using subseq_rev_mono by fastforce
  moreover have "context_tokens opts (rev sel) = context_tokens opts sel"
    by (simp add: context_tokens_def rev_map [symmetric])
  ultimately show ?thesis using sel by (simp add: selectContext_def list_all_iff)
qed

subsection \<open>Built windows\<close>

lemma build_InrD:
  assumes "build sha256 opts request = Inr w"
  shows "win_events w = ow_events (req_openWindow request)"
    and "win_events w \<noteq> []"
    and "win_eventCount w = finalizedSemanticEventCount (req_openWindow request)"
    and "win_goal w = ow_goal (req_openWindow request)"
    and "win_goalVersion w = ow_goalVersion (req_openWindow request)"
    and "win_startedAtMs w = ow_startedAtMs (req_openWindow request)"
    and "win_startedAtMs w \<le> win_endedAtMs w"
    and "win_endedAtMs w = max (ow_startedAtMs (req_openWindow request)) (req_endedAtMs request)"
    and "win_triggerReason w = req_triggerReason request"
    and "win_collectorId w = req_collectorId request"
    and "firstCursor w = cursor (hd (win_events w))"
    and "lastCursor w = cursor (last (win_events w))"
    and "0 < win_eventCount w"
  using assms
  by (auto simp: build_def Let_def split: if_splits sum.splits)

lemma build_windowId:
  assumes "build sha256 opts request = Inr w"
  shows "windowId w = ''window_'' @ sha256 (window_identity request (firstCursor w) (lastCursor w))"
  using assms by (auto simp: build_def Let_def split: if_splits sum.splits)

lemma build_modelInput:
  assumes "build sha256 opts request = Inr w"
  shows "renderModelInput (modelBudget opts) (win_goal w) (win_events w) (contextOnly w) =
    Inr (modelInput w)" and "inputHash w = sha256 (modelInput w)"
    and "contextOnly w = selectContext opts (req_contextCandidates request) (win_startedAtMs w)"
  using assms by (auto simp: build_def Let_def split: if_splits sum.splits)

lemma contextCandidates_length: "length (contextCandidatesFromWindow w) \<le> 5"
  by (simp add: contextCandidatesFromWindow_def DEFAULT_CONTEXT_EVENT_LIMIT_def slice_last_def)

lemma contextCandidates_counted:
  "list_all isCountedSemanticEvent (contextCandidatesFromWindow w)"
  using set_slice_last [of 5 "filter isCountedSemanticEvent (win_events w)"]
  by (auto simp: contextCandidatesFromWindow_def DEFAULT_CONTEXT_EVENT_LIMIT_def list_all_iff)

end
