(* ===== verification/Collector.thy ===== *)
theory Collector
  imports ReflectionRepository WindowBuilder
begin

text \<open>
  The reflection collector, \<open>src/agent/reflection/collector.ts\<close>: it materialises desktop events
  into one open window, seals the window at the count threshold, at the deadline, at a goal or
  presence boundary, and keeps the owner epoch and the permission gate.

  Every public mutation and every timer callback is an operation placed on one promise chain, so
  an operation runs to its end before the next one starts: it is one computation on the
  collector object. The repository is a record of operations, polymorphic in its state. Each
  read of the clock takes the next value of \<open>coll_clock\<close>, so the clock may do anything between two
  reads. The calls of the three optional hooks are logged.
\<close>

subsection \<open>Configuration and state\<close>

record collector_config =
  cfg_collectorId :: string
  cfg_deviceId :: string
  cfg_sessionId :: string
  cfg_initialGoal :: "ActiveGoalContext option"
  cfg_threshold :: nat
  cfg_maxWaitMs :: int
  cfg_recentEventIdLimit :: nat
  cfg_onDeadlineReady :: bool
  cfg_onCountReady :: bool
  cfg_onWindowSealed :: bool
  cfg_builder :: builder_options
  cfg_sha256 :: "string \<Rightarrow> string"

definition DEFAULT_SEMANTIC_EVENT_THRESHOLD :: nat where
  "DEFAULT_SEMANTIC_EVENT_THRESHOLD = 64"

definition DEFAULT_MAX_WAIT_MS :: int where
  "DEFAULT_MAX_WAIT_MS = 5 * 60 * 1000"

definition DEFAULT_RECENT_EVENT_ID_LIMIT :: nat where
  "DEFAULT_RECENT_EVENT_ID_LIMIT = 2048"

datatype collector_error =
    ThresholdNotPositive
  | MaxWaitNotPositive
  | RecoverFirst
  | IdentityMismatch
  | InvalidOpenWindow
  | CannotSealWithoutWindow
  | NoCountedTimestamp
  | GoalVersionMismatch "int option" "int option"
  | NextGoalVersion int int
  | InvalidPermissions string
  | InvalidAccountId
  | EpochExhausted
  | BuildFailed window_error
  | StoreFailed repository_error
  | CallDepthExceeded

text \<open>What a repository returns for a stored snapshot. The fields older versions did not write are
  read again as raw values: \<open>None\<close> stands for a permission list or goal revision that is missing
  and for an owner epoch that is missing or is not an object with exactly its two fields.\<close>

record recovered_snapshot =
  raw_snapshot :: ReflectionCollectorSnapshot
  raw_revokedPermissions :: "string list option"
  raw_goalRevision :: "int option"
  raw_cloudOwnerEpoch :: "ReflectionCloudOwnerEpoch option"
  raw_openCloudOwnerEpoch :: "ReflectionCloudOwnerEpoch option"

definition as_recovered :: "ReflectionCollectorSnapshot \<Rightarrow> recovered_snapshot" where
  "as_recovered sn =
     \<lparr>raw_snapshot = sn, raw_revokedPermissions = Some (revokedPermissions sn),
      raw_goalRevision = Some (goalRevision sn), raw_cloudOwnerEpoch = Some (cloudOwnerEpoch sn),
      raw_openCloudOwnerEpoch = map_option ow_cloudOwnerEpoch (openWindow sn)\<rparr>"

record 'r ReflectionCollectorRepository =
  loadCollector_of :: "string \<Rightarrow> ('r, repository_error, recovered_snapshot option) comp"
  saveCollector_of ::
    "ReflectionCollectorSnapshot \<Rightarrow> int option \<Rightarrow> ('r, repository_error, ReflectionCollectorSnapshot) comp"
  sealWindow_of ::
    "EventWindow \<Rightarrow> ReflectionCollectorSnapshot \<Rightarrow> int \<Rightarrow> string option
     \<Rightarrow> ('r, repository_error, SealWindowResult) comp"

definition in_memory_collectors :: "InMemoryReflectionRepository ReflectionCollectorRepository" where
  "in_memory_collectors =
     \<lparr>loadCollector_of = (\<lambda>cid. andThen (loadCollector cid) (\<lambda>sn. ret (map_option as_recovered sn))),
      saveCollector_of = saveCollector, sealWindow_of = sealWindow\<rparr>"

record 'r collector =
  coll_repository :: 'r
  coll_snapshot :: "ReflectionCollectorSnapshot option"
  runtimeState :: CollectorRuntimeState
  coll_timer :: "(int \<times> int) option"
  deadlinesDeferred :: bool
  disposed :: bool
  coll_clock :: "nat \<Rightarrow> int"
  coll_ticks :: nat
  deadlineReadyCalls :: "int list"
  countReadyCalls :: "int list"
  windowSealedCalls :: "EventWindow list"

type_synonym ('r, 'a) coll_op = "('r collector, collector_error, 'a) comp"

text \<open>The constructor.\<close>

definition ReflectionCollector ::
  "collector_config \<Rightarrow> 'r \<Rightarrow> (nat \<Rightarrow> int) \<Rightarrow> collector_error + 'r collector" where
  "ReflectionCollector cfg repo clock =
     (if cfg_threshold cfg < 1 then Inl ThresholdNotPositive
      else if cfg_maxWaitMs cfg \<le> 0 then Inl MaxWaitNotPositive
      else Inr \<lparr>coll_repository = repo, coll_snapshot = None, runtimeState = RECOVERING,
             coll_timer = None, deadlinesDeferred = False, disposed = False, coll_clock = clock,
             coll_ticks = 0, deadlineReadyCalls = [], countReadyCalls = [], windowSealedCalls = []\<rparr>)"

subsection \<open>Pure helpers\<close>

definition startOpenWindow ::
  "DesktopEvent \<Rightarrow> ActiveGoalContext option \<Rightarrow> int \<Rightarrow> ReflectionCloudOwnerEpoch \<Rightarrow> OpenEventWindow" where
  "startOpenWindow event goal maxWait owner =
     \<lparr>ow_cloudOwnerEpoch = owner, ow_goal = goal, ow_goalVersion = map_option goal_version goal,
      ow_startedAtMs = occurredAtMs event, ow_deadlineAtMs = occurredAtMs event + maxWait,
      ow_events = [event], finalizedSemanticEventCount = 1\<rparr>"

definition appendCountedEvent :: "OpenEventWindow \<Rightarrow> DesktopEvent \<Rightarrow> OpenEventWindow" where
  "appendCountedEvent ow event =
     ow\<lparr>ow_events := ow_events ow @ [event],
        finalizedSemanticEventCount := finalizedSemanticEventCount ow + 1\<rparr>"

definition append_event :: "OpenEventWindow \<Rightarrow> DesktopEvent \<Rightarrow> OpenEventWindow" where
  "append_event ow event = ow\<lparr>ow_events := ow_events ow @ [event]\<rparr>"

text \<open>The backward scan of \<open>countThresholdReachedAt\<close>; \<open>None\<close> where it throws.\<close>

definition countThresholdReachedAt :: "OpenEventWindow \<Rightarrow> int option" where
  "countThresholdReachedAt ow = map_option occurredAtMs (find isCountedSemanticEvent (rev (ow_events ow)))"

text \<open>\<open>Math.max\<close> of no arguments is minus infinity, here \<open>None\<close>.\<close>

definition latestEventTime :: "OpenEventWindow \<Rightarrow> int option" where
  "latestEventTime ow = fold (\<lambda>e m. case m of None \<Rightarrow> Some (occurredAtMs e)
     | Some t \<Rightarrow> Some (max t (occurredAtMs e))) (ow_events ow) None"

definition normalizeCloudOwnerAccountId :: "string option \<Rightarrow> collector_error + string option" where
  "normalizeCloudOwnerAccountId value =
     (case value of
        None \<Rightarrow> Inr None
      | Some v \<Rightarrow>
          if length v < 1 \<or> 256 < length v \<or> js_trim v \<noteq> v \<or> char_of (0::nat) \<in> set v
          then Inl InvalidAccountId else Inr (Some v))"

definition sameCloudOwnerEpoch :: "ReflectionCloudOwnerEpoch \<Rightarrow> ReflectionCloudOwnerEpoch \<Rightarrow> bool" where
  "sameCloudOwnerEpoch left right \<longleftrightarrow> epoch left = epoch right \<and> accountId left = accountId right"

definition normalizeRecoveredCloudOwnerEpoch ::
  "ReflectionCloudOwnerEpoch option \<Rightarrow> ReflectionCloudOwnerEpoch option" where
  "normalizeRecoveredCloudOwnerEpoch value =
     (case value of
        None \<Rightarrow> None
      | Some candidate \<Rightarrow>
          if MAX_SAFE_INTEGER < \<bar>epoch candidate\<bar> \<or> epoch candidate < 0 then None
          else case normalizeCloudOwnerAccountId (accountId candidate) of
            Inl _ \<Rightarrow> None
          | Inr account \<Rightarrow> Some \<lparr>epoch = epoch candidate, accountId = account\<rparr>)"

fun event_goal_revision :: "int \<Rightarrow> DesktopEvent \<Rightarrow> int" where
  "event_goal_revision acc event =
     (let acc1 = max acc (case event_goalVersion event of None \<Rightarrow> 0 | Some v \<Rightarrow> v)
      in case payload event of
           GoalContextChanged p n \<Rightarrow>
             max acc1 (max (case p of None \<Rightarrow> 0 | Some g \<Rightarrow> goal_version g)
                           (case n of None \<Rightarrow> 0 | Some g \<Rightarrow> goal_version g))
         | _ \<Rightarrow> acc1)"

definition normalizeGoalRevision :: "recovered_snapshot \<Rightarrow> int" where
  "normalizeGoalRevision raw =
     (let sn = raw_snapshot raw;
          legacy =
            (let r0 = (case activeGoal sn of None \<Rightarrow> 0 | Some g \<Rightarrow> goal_version g);
                 r1 = max r0 (case openWindow sn of None \<Rightarrow> 0
                        | Some ow \<Rightarrow> (case ow_goalVersion ow of None \<Rightarrow> 0 | Some v \<Rightarrow> v));
                 events = (case openWindow sn of None \<Rightarrow> [] | Some ow \<Rightarrow> ow_events ow)
             in foldl event_goal_revision r1 (events @ contextCandidates sn))
      in case raw_goalRevision raw of
           Some v \<Rightarrow> if \<bar>v\<bar> \<le> MAX_SAFE_INTEGER \<and> 0 \<le> v then v else legacy
         | None \<Rightarrow> legacy)"

subsection \<open>Permissions\<close>

definition permission_char :: "char \<Rightarrow> bool" where
  "permission_char c \<longleftrightarrow> c \<in> set ''abcdefghijklmnopqrstuvwxyz0123456789.-''"

definition is_permission_name :: "string \<Rightarrow> bool" where
  "is_permission_name p \<longleftrightarrow>
     p = ''*'' \<or>
     (case p of [] \<Rightarrow> False
      | c # cs \<Rightarrow> c \<in> set ''abcdefghijklmnopqrstuvwxyz'' \<and> length cs \<le> 127 \<and> list_all permission_char cs)"

definition normalizePermissions :: "string list \<Rightarrow> string \<Rightarrow> bool \<Rightarrow> collector_error + string list" where
  "normalizePermissions value field allowEmpty =
     (if (\<not> allowEmpty \<and> value = []) \<or> 32 < length value \<or> \<not> list_all is_permission_name value
      then Inl (InvalidPermissions field)
      else Inr (js_sort code_unit_compare (js_unique value)))"

definition mergePermissions :: "string list \<Rightarrow> string list \<Rightarrow> collector_error + string list" where
  "mergePermissions current added =
     (case normalizePermissions current ''revokedPermissions'' True of
        Inl e \<Rightarrow> Inl e
      | Inr c \<Rightarrow>
          (case normalizePermissions added ''authorization.revoked.permissions'' False of
             Inl e \<Rightarrow> Inl e
           | Inr a \<Rightarrow> Inr (js_sort code_unit_compare (js_unique (c @ a)))))"

definition removePermissions :: "string list \<Rightarrow> string list \<Rightarrow> collector_error + string list" where
  "removePermissions current granted =
     (case normalizePermissions granted ''authorization.granted.permissions'' False of
        Inl e \<Rightarrow> Inl e
      | Inr g \<Rightarrow>
          if ''*'' \<in> set g then Inr []
          else case normalizePermissions current ''revokedPermissions'' True of
            Inl e \<Rightarrow> Inl e
          | Inr c \<Rightarrow> Inr (filter (\<lambda>p. p \<notin> set g) c))"

fun permissionsForEvent :: "DesktopEvent \<Rightarrow> string list" where
  "permissionsForEvent event =
     (case payload event of
        ActivityAggregated _ _ _ _ _ _ _ \<Rightarrow> [''input.monitoring'']
      | EditorDocumentChanged _ _ _ _ _ _ _ _ _ \<Rightarrow> [''editor.monitoring'']
      | TabOpened _ _ _ _ \<Rightarrow>
          if sensitivity event = Content
          then [''browser.event-monitoring'', ''browser.content-monitoring'']
          else [''browser.event-monitoring'']
      | TabNavigated _ _ _ _ \<Rightarrow>
          if sensitivity event = Content
          then [''browser.event-monitoring'', ''browser.content-monitoring'']
          else [''browser.event-monitoring'']
      | TabClosed _ _ \<Rightarrow> [''browser.event-monitoring'']
      | FocusChanged _ _ _ \<Rightarrow> [''accessibility.monitoring'']
      | ValueChanged _ _ _ \<Rightarrow> [''accessibility.monitoring'']
      | AccessibilityDocumentChanged _ _ _ _ _ _ \<Rightarrow> [''accessibility.monitoring'']
      | _ \<Rightarrow> [])"

declare permissionsForEvent.simps [simp del]

definition isBlockedByRevocation :: "DesktopEvent \<Rightarrow> string list \<Rightarrow> bool" where
  "isBlockedByRevocation event revoked \<longleftrightarrow>
     ''*'' \<in> set revoked \<or> list_ex (\<lambda>p. p \<in> set revoked) (permissionsForEvent event)"

subsection \<open>Recovered snapshots\<close>

definition normalizeRecoveredSnapshot ::
  "recovered_snapshot \<Rightarrow> collector_error + ReflectionCollectorSnapshot \<times> bool" where
  "normalizeRecoveredSnapshot raw =
     (let sn = raw_snapshot raw;
          owner = normalizeRecoveredCloudOwnerEpoch (raw_cloudOwnerEpoch raw);
          openOwner = (case openWindow sn of None \<Rightarrow> None
            | Some _ \<Rightarrow> normalizeRecoveredCloudOwnerEpoch (raw_openCloudOwnerEpoch raw));
          normalizedOpen = (case (openWindow sn, openOwner, owner) of
              (Some ow, Some p, Some q) \<Rightarrow>
                if sameCloudOwnerEpoch p q then Some (ow\<lparr>ow_cloudOwnerEpoch := p\<rparr>) else None
            | _ \<Rightarrow> None);
          invalidOpenOwner = (openWindow sn \<noteq> None \<and> normalizedOpen = None);
          migrated = (owner = None \<or> invalidOpenOwner)
      in case (case raw_revokedPermissions raw of None \<Rightarrow> Inr []
               | Some p \<Rightarrow> normalizePermissions p ''revokedPermissions'' True) of
           Inl e \<Rightarrow> Inl e
         | Inr revoked \<Rightarrow> Inr
             (sn\<lparr>revokedPermissions := revoked,
                 goalRevision := normalizeGoalRevision raw,
                 cloudOwnerEpoch := (case owner of None \<Rightarrow> \<lparr>epoch = 0, accountId = None\<rparr> | Some q \<Rightarrow> q),
                 sn_state := (if migrated then ACTIVE_EMPTY else sn_state sn),
                 openWindow := (if migrated then None else normalizedOpen),
                 contextCandidates := (if migrated then [] else contextCandidates sn)\<rparr>,
              migrated))"

subsection \<open>Operations of the collector object\<close>

definition requireSnapshot :: "('r, ReflectionCollectorSnapshot) coll_op" where
  "requireSnapshot s = (case coll_snapshot s of None \<Rightarrow> (Inl RecoverFirst, s) | Some sn \<Rightarrow> (Inr sn, s))"

definition readClock :: "('r, int) coll_op" where
  "readClock s = (Inr (coll_clock s (coll_ticks s)), s\<lparr>coll_ticks := Suc (coll_ticks s)\<rparr>)"

definition awaitStore :: "('r, repository_error, 'a) comp \<Rightarrow> ('r, 'a) coll_op" where
  "awaitStore op s = (case op (coll_repository s) of
     (Inl e, r) \<Rightarrow> (Inl (StoreFailed e), s\<lparr>coll_repository := r\<rparr>)
   | (Inr x, r) \<Rightarrow> (Inr x, s\<lparr>coll_repository := r\<rparr>))"

definition cancelTimer :: "('r, unit) coll_op" where
  "cancelTimer = modifyS (\<lambda>s. s\<lparr>coll_timer := None\<rparr>)"

definition setRuntimeState :: "CollectorRuntimeState \<Rightarrow> ('r, unit) coll_op" where
  "setRuntimeState st = modifyS (\<lambda>s. s\<lparr>runtimeState := st\<rparr>)"

definition lift_error :: "collector_error + 'a \<Rightarrow> ('r, 'a) coll_op" where
  "lift_error x s = (x, s)"

text \<open>The armed timer holds the deadline it was armed for and its delay.\<close>

definition armDeadline :: "int \<Rightarrow> ('r, unit) coll_op" where
  "armDeadline deadlineAtMs =
     andThen cancelTimer (\<lambda>_ s.
       if disposed s then (Inr (), s)
       else andThen readClock (\<lambda>now. modifyS (\<lambda>s. s\<lparr>coll_timer := Some (deadlineAtMs, max 0 (deadlineAtMs - now))\<rparr>)) s)"

definition withRecentEventId :: "collector_config \<Rightarrow> ReflectionCollectorSnapshot \<Rightarrow> string \<Rightarrow> string list" where
  "withRecentEventId cfg sn i = slice_last (cfg_recentEventIdLimit cfg) (recentEventIds sn @ [i])"

definition saveSnapshot ::
  "'r ReflectionCollectorRepository \<Rightarrow> ReflectionCollectorSnapshot \<Rightarrow> ('r, ReflectionCollectorSnapshot) coll_op" where
  "saveSnapshot repo candidate =
     andThen requireSnapshot (\<lambda>current.
     andThen readClock (\<lambda>now.
     andThen (awaitStore (saveCollector_of repo
       (candidate\<lparr>revision := revision current + 1, sn_updatedAtMs := now\<rparr>) (Some (revision current)))) (\<lambda>saved.
     andThen (modifyS (\<lambda>s. s\<lparr>coll_snapshot := Some saved,
       runtimeState := (if openWindow saved \<noteq> None then ACTIVE_COLLECTING else ACTIVE_EMPTY)\<rparr>)) (\<lambda>_.
     ret saved))))"

definition seal_request ::
  "collector_config \<Rightarrow> ReflectionCollectorSnapshot \<Rightarrow> OpenEventWindow \<Rightarrow> ReflectionTriggerReason \<Rightarrow> int
   \<Rightarrow> WindowBuildRequest" where
  "seal_request cfg candidate ow reason endedAt =
     \<lparr>req_collectorId = cfg_collectorId cfg, req_deviceId = cfg_deviceId cfg,
      req_sessionId = cfg_sessionId cfg, req_openWindow = ow, req_triggerReason = reason,
      req_endedAtMs = endedAt, req_contextCandidates = contextCandidates candidate\<rparr>"

definition sealed_snapshot_of ::
  "ReflectionCollectorSnapshot \<Rightarrow> ActiveGoalContext option \<Rightarrow> EventWindow \<Rightarrow> int \<Rightarrow> int
   \<Rightarrow> ReflectionCollectorSnapshot" where
  "sealed_snapshot_of candidate nextGoal window rv now =
     candidate\<lparr>sn_state := ACTIVE_EMPTY, activeGoal := nextGoal, openWindow := None,
       contextCandidates := contextCandidatesFromWindow window, revision := rv,
       sn_updatedAtMs := now\<rparr>"

text \<open>An error of the hook is reported to \<open>onBackgroundError\<close> and changes nothing.\<close>

definition sealCandidate ::
  "'r ReflectionCollectorRepository \<Rightarrow> collector_config \<Rightarrow> ReflectionCollectorSnapshot
   \<Rightarrow> ReflectionTriggerReason \<Rightarrow> int \<Rightarrow> ActiveGoalContext option \<Rightarrow> ('r, EventWindow) coll_op" where
  "sealCandidate repo cfg candidate reason endedAt nextGoal =
     (case openWindow candidate of
        None \<Rightarrow> throw CannotSealWithoutWindow
      | Some ow \<Rightarrow>
          andThen cancelTimer (\<lambda>_.
          andThen (setRuntimeState SEALED) (\<lambda>_.
          case build (cfg_sha256 cfg) (cfg_builder cfg) (seal_request cfg candidate ow reason endedAt) of
            Inl e \<Rightarrow> throw (BuildFailed e)
          | Inr window \<Rightarrow>
              andThen requireSnapshot (\<lambda>current.
              andThen readClock (\<lambda>now.
              andThen (awaitStore (sealWindow_of repo window
                (sealed_snapshot_of candidate nextGoal window (revision current + 1) now)
                (revision current) (accountId (ow_cloudOwnerEpoch ow)))) (\<lambda>result.
              andThen (modifyS (\<lambda>s. s\<lparr>coll_snapshot := Some (sealed_snapshot result),
                runtimeState := ACTIVE_EMPTY,
                windowSealedCalls := (if inserted result \<and> cfg_onWindowSealed cfg
                  then windowSealedCalls s @ [sealed_window result] else windowSealedCalls s)\<rparr>)) (\<lambda>_.
              ret (sealed_window result))))))))"

definition sealOpenWindow ::
  "'r ReflectionCollectorRepository \<Rightarrow> collector_config \<Rightarrow> ReflectionTriggerReason \<Rightarrow> int
   \<Rightarrow> ('r, EventWindow) coll_op" where
  "sealOpenWindow repo cfg reason endedAt =
     andThen requireSnapshot (\<lambda>sn. sealCandidate repo cfg sn reason endedAt (activeGoal sn))"

text \<open>Sealing a window that reached the threshold: the scan for its time may throw.\<close>

definition sealCountReady ::
  "'r ReflectionCollectorRepository \<Rightarrow> collector_config \<Rightarrow> OpenEventWindow \<Rightarrow> ('r, EventWindow) coll_op" where
  "sealCountReady repo cfg ow =
     (case countThresholdReachedAt ow of
        None \<Rightarrow> throw NoCountedTimestamp
      | Some reachedAt \<Rightarrow> sealOpenWindow repo cfg event_count reachedAt)"

subsection \<open>Ingesting an event\<close>

definition receipt :: "collector_config \<Rightarrow> ReflectionCollectorSnapshot \<Rightarrow> DesktopEvent \<Rightarrow> ReflectionCollectorSnapshot" where
  "receipt cfg sn event =
     sn\<lparr>recentEventIds := withRecentEventId cfg sn (eventId event),
        materializedCursor := Some (cursor event)\<rparr>"

definition handleGoalBoundary ::
  "'r ReflectionCollectorRepository \<Rightarrow> collector_config \<Rightarrow> DesktopEvent \<Rightarrow> ActiveGoalContext option
   \<Rightarrow> ActiveGoalContext option \<Rightarrow> ('r, EventWindow option) coll_op" where
  "handleGoalBoundary repo cfg event prior nextGoal =
     andThen requireSnapshot (\<lambda>sn.
       let activeVersion = map_option goal_version (activeGoal sn);
           previousVersion = map_option goal_version prior;
           nextRevision = goalRevision sn + 1
       in if activeVersion \<noteq> previousVersion \<or> event_goalVersion event \<noteq> activeVersion
          then throw (GoalVersionMismatch previousVersion activeVersion)
          else if nextGoal \<noteq> None \<and> map_option goal_version nextGoal \<noteq> Some nextRevision
          then throw (NextGoalVersion (goal_version (the nextGoal)) nextRevision)
          else case openWindow sn of
            None \<Rightarrow>
              andThen (saveSnapshot repo ((receipt cfg sn event)\<lparr>activeGoal := nextGoal,
                goalRevision := nextRevision\<rparr>)) (\<lambda>_. ret None)
          | Some ow \<Rightarrow>
              andThen (sealCandidate repo cfg ((receipt cfg sn event)\<lparr>goalRevision := nextRevision,
                openWindow := Some (append_event ow event)\<rparr>) goal_boundary (occurredAtMs event) nextGoal)
                (\<lambda>w. ret (Some w)))"

definition handlePresenceBoundary ::
  "'r ReflectionCollectorRepository \<Rightarrow> collector_config \<Rightarrow> DesktopEvent \<Rightarrow> ('r, EventWindow option) coll_op" where
  "handlePresenceBoundary repo cfg event =
     andThen requireSnapshot (\<lambda>sn.
       case openWindow sn of
         None \<Rightarrow> andThen (saveSnapshot repo (receipt cfg sn event)) (\<lambda>_. ret None)
       | Some ow \<Rightarrow>
           andThen (sealCandidate repo cfg ((receipt cfg sn event)\<lparr>openWindow := Some (append_event ow event)\<rparr>)
             presence_boundary (occurredAtMs event) (activeGoal sn)) (\<lambda>w. ret (Some w)))"

definition handleRetroactivePresenceBoundary ::
  "'r ReflectionCollectorRepository \<Rightarrow> collector_config \<Rightarrow> DesktopEvent \<Rightarrow> ('r, EventWindow option) coll_op" where
  "handleRetroactivePresenceBoundary repo cfg event =
     andThen requireSnapshot (\<lambda>sn.
       case openWindow sn of
         None \<Rightarrow> ret None
       | Some ow \<Rightarrow>
           if occurredAtMs event < ow_startedAtMs ow
           then andThen (saveSnapshot repo (receipt cfg sn event)) (\<lambda>_. ret None)
           else
             let endedAt = (case latestEventTime ow of None \<Rightarrow> observedAtMs event
                   | Some t \<Rightarrow> max (observedAtMs event) t)
             in andThen (sealCandidate repo cfg ((receipt cfg sn event)\<lparr>openWindow := Some (append_event ow event)\<rparr>)
                  presence_boundary endedAt (activeGoal sn)) (\<lambda>w. ret (Some w)))"

definition revokeAuthorization ::
  "'r ReflectionCollectorRepository \<Rightarrow> collector_config \<Rightarrow> DesktopEvent \<Rightarrow> string list
   \<Rightarrow> ('r, EventWindow option) coll_op" where
  "revokeAuthorization repo cfg event permissions =
     andThen requireSnapshot (\<lambda>sn.
     andThen cancelTimer (\<lambda>_.
     andThen (lift_error (mergePermissions (revokedPermissions sn) permissions)) (\<lambda>merged.
     andThen (saveSnapshot repo ((receipt cfg sn event)\<lparr>sn_state := ACTIVE_EMPTY, openWindow := None,
       contextCandidates := [], revokedPermissions := merged\<rparr>)) (\<lambda>_.
     andThen (setRuntimeState ACTIVE_EMPTY) (\<lambda>_. ret None)))))"

definition grantAuthorization ::
  "'r ReflectionCollectorRepository \<Rightarrow> collector_config \<Rightarrow> DesktopEvent \<Rightarrow> string list
   \<Rightarrow> ('r, EventWindow option) coll_op" where
  "grantAuthorization repo cfg event permissions =
     andThen requireSnapshot (\<lambda>sn.
     andThen (lift_error (removePermissions (revokedPermissions sn) permissions)) (\<lambda>remaining.
     andThen (saveSnapshot repo ((receipt cfg sn event)\<lparr>revokedPermissions := remaining\<rparr>)) (\<lambda>_. ret None)))"

text \<open>An event that counts toward the window: it starts or extends the open window, which may reach
  the threshold or its deadline by it.\<close>

definition ingestCounted ::
  "'r ReflectionCollectorRepository \<Rightarrow> collector_config \<Rightarrow> DesktopEvent \<Rightarrow> ('r, EventWindow option) coll_op" where
  "ingestCounted repo cfg event =
     andThen requireSnapshot (\<lambda>sn.
       let ow = (case openWindow sn of
             Some current \<Rightarrow> appendCountedEvent current event
           | None \<Rightarrow> startOpenWindow event (activeGoal sn) (cfg_maxWaitMs cfg) (cloudOwnerEpoch sn));
           candidate = (receipt cfg sn event)\<lparr>sn_state := ACTIVE_COLLECTING, openWindow := Some ow\<rparr>
       in andThen (setRuntimeState ACTIVE_COLLECTING) (\<lambda>_.
          if cfg_threshold cfg \<le> finalizedSemanticEventCount ow
          then if cfg_onCountReady cfg
               then andThen cancelTimer (\<lambda>_.
                    andThen (saveSnapshot repo candidate) (\<lambda>_.
                    andThen (modifyS (\<lambda>s. s\<lparr>countReadyCalls := countReadyCalls s @ [occurredAtMs event]\<rparr>)) (\<lambda>_.
                    ret None)))
               else andThen (sealCandidate repo cfg candidate event_count (occurredAtMs event) (activeGoal sn))
                      (\<lambda>w. ret (Some w))
          else if ow_deadlineAtMs ow \<le> occurredAtMs event
          then andThen (sealCandidate repo cfg candidate max_wait (ow_deadlineAtMs ow) (activeGoal sn))
                 (\<lambda>w. ret (Some w))
          else andThen (saveSnapshot repo candidate) (\<lambda>_ s.
                 if deadlinesDeferred s then (Inr None, s)
                 else andThen (armDeadline (ow_deadlineAtMs ow)) (\<lambda>_. ret None) s)))"

text \<open>The part after the splits by count and deadline: boundaries, uncounted and counted events.\<close>

definition ingestCurrent ::
  "'r ReflectionCollectorRepository \<Rightarrow> collector_config \<Rightarrow> DesktopEvent \<Rightarrow> ('r, EventWindow option) coll_op" where
  "ingestCurrent repo cfg event =
     andThen requireSnapshot (\<lambda>sn.
       let activeVersion = map_option goal_version (activeGoal sn)
       in case payload event of
            GoalContextChanged prior nextGoal \<Rightarrow> handleGoalBoundary repo cfg event prior nextGoal
          | _ \<Rightarrow>
            if event_goalVersion event \<noteq> activeVersion
            then throw (GoalVersionMismatch (event_goalVersion event) activeVersion)
            else if isPresenceFlushBoundary event
            then (case openWindow sn of
                    Some ow \<Rightarrow>
                      if occurredAtMs event < ow_startedAtMs ow
                      then andThen (saveSnapshot repo (receipt cfg sn event)) (\<lambda>_. ret None)
                      else handlePresenceBoundary repo cfg event
                  | None \<Rightarrow> handlePresenceBoundary repo cfg event)
            else if \<not> isCountedSemanticEvent event
            then andThen (saveSnapshot repo ((receipt cfg sn event)\<lparr>
                   openWindow := map_option (\<lambda>ow. append_event ow event) (openWindow sn)\<rparr>)) (\<lambda>_. ret None)
            else ingestCounted repo cfg event)"

definition count_split :: "collector_config \<Rightarrow> OpenEventWindow \<Rightarrow> DesktopEvent \<Rightarrow> bool" where
  "count_split cfg ow event \<longleftrightarrow>
     cfg_threshold cfg \<le> finalizedSemanticEventCount ow \<and>
     \<not> (countThresholdReachedAt ow = Some (occurredAtMs event) \<and>
        (kind event = ''goal.contextChanged'' \<or> isPresenceFlushBoundary event))"

text \<open>
  One activation of \<open>ingestSerialized\<close>; \<open>again\<close> is its recursive call. The branch for a window that
  is ready by its count also covers the scan that finds no counted event, which throws.
\<close>

definition ingest_body ::
  "'r ReflectionCollectorRepository \<Rightarrow> collector_config \<Rightarrow> ('r, EventWindow option) coll_op
   \<Rightarrow> DesktopEvent \<Rightarrow> ('r, EventWindow option) coll_op" where
  "ingest_body repo cfg again event =
     andThen requireSnapshot (\<lambda>sn.
       if eventId event \<in> set (recentEventIds sn) then ret None
       else if isIgnoredReflectionInput event then ret None
       else case payload event of
         AuthorizationRevoked permissions \<Rightarrow> revokeAuthorization repo cfg event permissions
       | AuthorizationGranted permissions \<Rightarrow> grantAuthorization repo cfg event permissions
       | _ \<Rightarrow>
         if isBlockedByRevocation event (revokedPermissions sn)
         then andThen (saveSnapshot repo (receipt cfg sn event)) (\<lambda>_. ret None)
         else case openWindow sn of
           None \<Rightarrow> ingestCurrent repo cfg event
         | Some ow \<Rightarrow>
             if isPresenceFlushBoundary event \<and>
                (case latestEventTime ow of None \<Rightarrow> False | Some t \<Rightarrow> occurredAtMs event < t)
             then handleRetroactivePresenceBoundary repo cfg event
             else if count_split cfg ow event
             then andThen (sealCountReady repo cfg ow) (\<lambda>sealed. andThen again (\<lambda>_. ret (Some sealed)))
             else if ow_deadlineAtMs ow < occurredAtMs event
             then andThen (sealOpenWindow repo cfg max_wait (ow_deadlineAtMs ow)) (\<lambda>overdue.
                    andThen again (\<lambda>_. ret (Some overdue)))
             else ingestCurrent repo cfg event)"

text \<open>
  The recursion of \<open>ingestSerialized\<close> on a depth of calls. A call recurses only after a seal; a seal
  that stores its window leaves no open window, so two activations are enough then.
\<close>

fun ingestSerialized ::
  "nat \<Rightarrow> 'r ReflectionCollectorRepository \<Rightarrow> collector_config \<Rightarrow> DesktopEvent
   \<Rightarrow> ('r, EventWindow option) coll_op" where
  "ingestSerialized 0 repo cfg event = throw CallDepthExceeded"
| "ingestSerialized (Suc n) repo cfg event =
     ingest_body repo cfg (ingestSerialized n repo cfg event) event"

definition ingest ::
  "'r ReflectionCollectorRepository \<Rightarrow> collector_config \<Rightarrow> DesktopEvent \<Rightarrow> ('r, EventWindow option) coll_op" where
  "ingest repo cfg event = ingestSerialized 2 repo cfg event"

subsection \<open>The other public operations\<close>

definition initial_snapshot :: "collector_config \<Rightarrow> int \<Rightarrow> ReflectionCollectorSnapshot" where
  "initial_snapshot cfg now =
     \<lparr>collectorId = cfg_collectorId cfg, sn_deviceId = cfg_deviceId cfg,
      sn_sessionId = cfg_sessionId cfg, sn_state = ACTIVE_EMPTY, activeGoal = cfg_initialGoal cfg,
      goalRevision = (case cfg_initialGoal cfg of None \<Rightarrow> 0 | Some g \<Rightarrow> goal_version g),
      cloudOwnerEpoch = \<lparr>epoch = 0, accountId = None\<rparr>, openWindow = None,
      contextCandidates = [], recentEventIds = [], revokedPermissions = [],
      materializedCursor = None, revision = 0, sn_updatedAtMs = now\<rparr>"

text \<open>The first half of \<open>recover\<close>: the snapshot is loaded and normalised, or created.\<close>

definition recoverSnapshot :: "'r ReflectionCollectorRepository \<Rightarrow> collector_config \<Rightarrow> ('r, unit) coll_op" where
  "recoverSnapshot repo cfg =
     andThen (awaitStore (loadCollector_of repo (cfg_collectorId cfg))) (\<lambda>recovered.
       case recovered of
         Some raw \<Rightarrow>
           let sn = raw_snapshot raw
           in if collectorId sn \<noteq> cfg_collectorId cfg \<or> sn_deviceId sn \<noteq> cfg_deviceId cfg \<or>
                 sn_sessionId sn \<noteq> cfg_sessionId cfg
              then throw IdentityMismatch
              else andThen (lift_error (normalizeRecoveredSnapshot raw)) (\<lambda>nm.
                   andThen (modifyS (\<lambda>s. s\<lparr>coll_snapshot := Some (fst nm)\<rparr>)) (\<lambda>_.
                   if snd nm
                   then andThen readClock (\<lambda>now.
                        andThen (awaitStore (saveCollector_of repo
                          ((fst nm)\<lparr>revision := revision sn + 1, sn_updatedAtMs := now\<rparr>)
                          (Some (revision sn)))) (\<lambda>saved.
                        modifyS (\<lambda>s. s\<lparr>coll_snapshot := Some saved\<rparr>)))
                   else ret ()))
       | None \<Rightarrow>
           andThen readClock (\<lambda>now.
           andThen (awaitStore (saveCollector_of repo (initial_snapshot cfg now) None)) (\<lambda>saved.
           modifyS (\<lambda>s. s\<lparr>coll_snapshot := Some saved\<rparr>))))"

definition assertValidOpenWindow ::
  "collector_config \<Rightarrow> OpenEventWindow \<Rightarrow> ReflectionCloudOwnerEpoch \<Rightarrow> collector_error + unit" where
  "assertValidOpenWindow cfg ow owner =
     (if \<not> sameCloudOwnerEpoch (ow_cloudOwnerEpoch ow) owner \<or> ow_events ow = [] \<or>
         finalizedSemanticEventCount ow < 1 \<or> cfg_threshold cfg < finalizedSemanticEventCount ow \<or>
         finalizedSemanticEventCount ow \<noteq> length (filter isCountedSemanticEvent (ow_events ow))
      then Inl InvalidOpenWindow else Inr ())"

text \<open>The second half: an open window is checked, and sealed or armed unless deadlines are deferred.\<close>

definition resumeRecovered :: "'r ReflectionCollectorRepository \<Rightarrow> collector_config \<Rightarrow> ('r, unit) coll_op" where
  "resumeRecovered repo cfg =
     andThen requireSnapshot (\<lambda>sn.
       case openWindow sn of
         None \<Rightarrow> setRuntimeState ACTIVE_EMPTY
       | Some ow \<Rightarrow>
           andThen (lift_error (assertValidOpenWindow cfg ow (cloudOwnerEpoch sn))) (\<lambda>_.
           andThen (setRuntimeState ACTIVE_COLLECTING) (\<lambda>_ s.
             if deadlinesDeferred s then (Inr (), s)
             else (if cfg_threshold cfg \<le> finalizedSemanticEventCount ow
               then andThen (sealCountReady repo cfg ow) (\<lambda>_. ret ())
               else andThen readClock (\<lambda>now.
                 if ow_deadlineAtMs ow \<le> now
                 then andThen (sealOpenWindow repo cfg max_wait (ow_deadlineAtMs ow)) (\<lambda>_. ret ())
                 else armDeadline (ow_deadlineAtMs ow))) s)))"

definition recover :: "'r ReflectionCollectorRepository \<Rightarrow> collector_config \<Rightarrow> bool \<Rightarrow> ('r, unit) coll_op" where
  "recover repo cfg deferDeadline =
     andThen cancelTimer (\<lambda>_.
     andThen (modifyS (\<lambda>s. s\<lparr>runtimeState := RECOVERING, deadlinesDeferred := deferDeadline\<rparr>)) (\<lambda>_.
     andThen (recoverSnapshot repo cfg) (\<lambda>_.
     resumeRecovered repo cfg)))"

definition flushDue ::
  "'r ReflectionCollectorRepository \<Rightarrow> collector_config \<Rightarrow> ('r, EventWindow option) coll_op" where
  "flushDue repo cfg =
     andThen requireSnapshot (\<lambda>sn.
       case openWindow sn of
         None \<Rightarrow> ret None
       | Some ow \<Rightarrow>
           if cfg_threshold cfg \<le> finalizedSemanticEventCount ow
           then andThen (sealCountReady repo cfg ow) (\<lambda>w. ret (Some w))
           else andThen readClock (\<lambda>now.
             if ow_deadlineAtMs ow \<le> now
             then andThen (sealOpenWindow repo cfg max_wait (ow_deadlineAtMs ow)) (\<lambda>w. ret (Some w))
             else ret None))"

definition resumeDeadlines ::
  "'r ReflectionCollectorRepository \<Rightarrow> collector_config \<Rightarrow> ('r, EventWindow option) coll_op" where
  "resumeDeadlines repo cfg =
     andThen (modifyS (\<lambda>s. s\<lparr>deadlinesDeferred := False\<rparr>)) (\<lambda>_.
     andThen requireSnapshot (\<lambda>sn.
       case openWindow sn of
         None \<Rightarrow> ret None
       | Some ow \<Rightarrow>
           if cfg_threshold cfg \<le> finalizedSemanticEventCount ow
           then andThen (sealCountReady repo cfg ow) (\<lambda>w. ret (Some w))
           else andThen readClock (\<lambda>now.
             if ow_deadlineAtMs ow \<le> now
             then andThen (sealOpenWindow repo cfg max_wait (ow_deadlineAtMs ow)) (\<lambda>w. ret (Some w))
             else andThen (armDeadline (ow_deadlineAtMs ow)) (\<lambda>_. ret None))))"

definition flushCountDue ::
  "'r ReflectionCollectorRepository \<Rightarrow> collector_config \<Rightarrow> ('r, EventWindow option) coll_op" where
  "flushCountDue repo cfg =
     andThen requireSnapshot (\<lambda>sn.
       case openWindow sn of
         None \<Rightarrow> ret None
       | Some ow \<Rightarrow>
           if cfg_threshold cfg \<le> finalizedSemanticEventCount ow
           then andThen (sealCountReady repo cfg ow) (\<lambda>w. ret (Some w)) else ret None)"

definition cutoverCloudOwner ::
  "'r ReflectionCollectorRepository \<Rightarrow> string option \<Rightarrow> ('r, unit) coll_op" where
  "cutoverCloudOwner repo account =
     andThen (lift_error (normalizeCloudOwnerAccountId account)) (\<lambda>normalized.
     andThen requireSnapshot (\<lambda>sn.
       if accountId (cloudOwnerEpoch sn) = normalized then ret ()
       else if MAX_SAFE_INTEGER \<le> epoch (cloudOwnerEpoch sn) then throw EpochExhausted
       else andThen cancelTimer (\<lambda>_.
            andThen (saveSnapshot repo (sn\<lparr>sn_state := ACTIVE_EMPTY,
              cloudOwnerEpoch := \<lparr>epoch = epoch (cloudOwnerEpoch sn) + 1, accountId = normalized\<rparr>,
              openWindow := None, contextCandidates := []\<rparr>)) (\<lambda>_.
            setRuntimeState ACTIVE_EMPTY))))"

text \<open>The timer's callback. Without the hook it queues the operation below it, which may run much
  later, whatever happened to the timer since.\<close>

definition fireTimer :: "collector_config \<Rightarrow> ('r, unit) coll_op" where
  "fireTimer cfg s =
     (case coll_timer s of
        None \<Rightarrow> (Inr (), s)
      | Some (deadlineAtMs, _) \<Rightarrow>
          (Inr (), s\<lparr>coll_timer := None,
             deadlineReadyCalls := (if cfg_onDeadlineReady cfg then deadlineReadyCalls s @ [deadlineAtMs]
               else deadlineReadyCalls s)\<rparr>))"

definition deadlineOperation ::
  "'r ReflectionCollectorRepository \<Rightarrow> collector_config \<Rightarrow> ('r, unit) coll_op" where
  "deadlineOperation repo cfg =
     andThen requireSnapshot (\<lambda>sn.
       case openWindow sn of
         None \<Rightarrow> ret ()
       | Some ow \<Rightarrow>
           andThen readClock (\<lambda>now.
             if now < ow_deadlineAtMs ow then armDeadline (ow_deadlineAtMs ow)
             else andThen (sealOpenWindow repo cfg max_wait (ow_deadlineAtMs ow)) (\<lambda>_. ret ())))"

definition dispose :: "('r, unit) coll_op" where
  "dispose = modifyS (\<lambda>s. s\<lparr>disposed := True, deadlinesDeferred := False, coll_timer := None\<rparr>)"

subsection \<open>Sequences of operations\<close>

datatype collector_command =
    Recover bool
  | ResumeDeadlines
  | Ingest DesktopEvent
  | FlushDue
  | FlushCountDue
  | CutoverCloudOwner "string option"
  | FireTimer
  | DeadlineOperation
  | Dispose

fun collector_exec ::
  "'r ReflectionCollectorRepository \<Rightarrow> collector_config \<Rightarrow> collector_command
   \<Rightarrow> ('r, EventWindow option) coll_op" where
  "collector_exec repo cfg (Recover d) = andThen (recover repo cfg d) (\<lambda>_. ret None)"
| "collector_exec repo cfg ResumeDeadlines = resumeDeadlines repo cfg"
| "collector_exec repo cfg (Ingest event) = ingest repo cfg event"
| "collector_exec repo cfg FlushDue = flushDue repo cfg"
| "collector_exec repo cfg FlushCountDue = flushCountDue repo cfg"
| "collector_exec repo cfg (CutoverCloudOwner a) = andThen (cutoverCloudOwner repo a) (\<lambda>_. ret None)"
| "collector_exec repo cfg FireTimer = andThen (fireTimer cfg) (\<lambda>_. ret None)"
| "collector_exec repo cfg DeadlineOperation = andThen (deadlineOperation repo cfg) (\<lambda>_. ret None)"
| "collector_exec repo cfg Dispose = andThen dispose (\<lambda>_. ret None)"

fun collector_run ::
  "'r ReflectionCollectorRepository \<Rightarrow> collector_config \<Rightarrow> collector_command list \<Rightarrow> 'r collector \<Rightarrow> 'r collector" where
  "collector_run repo cfg [] s = s"
| "collector_run repo cfg (c # cs) s = collector_run repo cfg cs (snd (collector_exec repo cfg c s))"

end
