(* ===== verification/CollectorCorrect.thy ===== *)
theory CollectorCorrect
  imports Collector
begin

text \<open>
  The correctness of the collector: the invariant of its snapshot and of the durable copy, what
  every window it adds to the store looks like, the permission gate, ownership cutover, replay of
  duplicate events and recovery. The lemmas rest on the contract of a collector store, the locale
  \<open>collector_store\<close>, which the in-memory repository is shown to meet.
\<close>

subsection \<open>Permission lists\<close>

definition permission_list :: "string list \<Rightarrow> bool" where
  "permission_list ps \<longleftrightarrow>
     sorted_wrt (\<lambda>x y. code_unit_compare x y \<le> 0) ps \<and> distinct ps \<and> list_all is_permission_name ps"

lemma permission_list_Nil [simp]: "permission_list []"
  by (simp add: permission_list_def)

lemma sorted_distinct_unique:
  assumes "sorted_wrt (\<lambda>x y. code_unit_compare x y \<le> 0) xs" and "distinct xs"
    and "sorted_wrt (\<lambda>x y. code_unit_compare x y \<le> 0) ys" and "distinct ys" and "set xs = set ys"
  shows "xs = ys"
  using assms
proof (induction xs arbitrary: ys)
  case (Cons x xs)
  then obtain y ys' where ys: "ys = y # ys'" by (cases ys) auto
  have "x = y"
  proof (rule ccontr)
    assume "x \<noteq> y"
    then have "code_unit_compare x y \<le> 0" "code_unit_compare y x \<le> 0" using Cons.prems ys by auto
    then show False using \<open>x \<noteq> y\<close> code_unit_compare_flip [of x y] by simp
  qed
  moreover have "set xs = set ys'"
    using Cons.prems ys \<open>x = y\<close> by (simp add: insert_ident)
  ultimately show ?case using Cons.IH [of ys'] Cons.prems ys by simp
qed simp

lemma permission_list_sort:
  assumes "list_all is_permission_name ps" and "distinct ps"
  shows "permission_list (js_sort code_unit_compare ps)"
proof -
  have "distinct (js_sort code_unit_compare ps)"
    using assms(2) mset_eq_imp_distinct_iff [of "js_sort code_unit_compare ps" ps] by simp
  then show ?thesis
    using assms(1) code_unit.sorted_sort_cmp by (simp add: permission_list_def list_all_iff)
qed

lemma normalizePermissions_InrD:
  assumes "normalizePermissions ps field b = Inr qs"
  shows "permission_list qs \<and> set qs = set ps"
  using assms
  by (auto simp: normalizePermissions_def list_all_iff intro!: permission_list_sort split: if_splits)

lemma normalizePermissions_id:
  assumes "permission_list ps" and "length ps \<le> 32"
  shows "normalizePermissions ps field True = Inr ps"
proof -
  obtain qs where qs: "normalizePermissions ps field True = Inr qs"
    using assms by (simp add: normalizePermissions_def permission_list_def)
  with normalizePermissions_InrD [OF qs] assms show ?thesis
    using sorted_distinct_unique [of qs ps] by (simp add: permission_list_def)
qed

lemma mergePermissions_InrD:
  assumes "mergePermissions ps qs = Inr rs"
  shows "permission_list rs \<and> set rs = set ps \<union> set qs"
proof -
  obtain c a where "normalizePermissions ps ''revokedPermissions'' True = Inr c"
    and "normalizePermissions qs ''authorization.revoked.permissions'' False = Inr a"
    and rs: "rs = js_sort code_unit_compare (js_unique (c @ a))"
    using assms by (auto simp: mergePermissions_def split: sum.splits)
  note c = normalizePermissions_InrD [OF this(1)] and a = normalizePermissions_InrD [OF this(2)]
  have "permission_list rs"
    unfolding rs using c a by (intro permission_list_sort) (auto simp: permission_list_def list_all_iff)
  then show ?thesis using rs c a by simp
qed

lemma permission_list_filter: "permission_list ps \<Longrightarrow> permission_list (filter P ps)"
  by (auto simp: permission_list_def list_all_iff sorted_wrt_filter)

lemma removePermissions_InrD:
  assumes "removePermissions ps qs = Inr rs"
  shows "permission_list rs \<and> set rs = (if ''*'' \<in> set qs then {} else set ps - set qs)"
proof (cases "''*'' \<in> set qs")
  case True
  then show ?thesis using assms normalizePermissions_InrD
    by (fastforce simp: removePermissions_def split: sum.splits if_splits)
next
  case False
  then obtain c g where "permission_list c \<and> set c = set ps" "set g = set qs" "rs = filter (\<lambda>p. p \<notin> set g) c"
    using assms normalizePermissions_InrD
    by (fastforce simp: removePermissions_def split: sum.splits if_splits)
  with False show ?thesis by (auto intro: permission_list_filter)
qed

lemma isBlocked_mono: "set ps \<subseteq> set qs \<Longrightarrow> isBlockedByRevocation e ps \<Longrightarrow> isBlockedByRevocation e qs"
  by (auto simp: isBlockedByRevocation_def list_ex_iff)

lemma isBlocked_cong: "set ps = set qs \<Longrightarrow> isBlockedByRevocation e ps = isBlockedByRevocation e qs"
  by (simp add: isBlockedByRevocation_def)

subsection \<open>The snapshot invariant\<close>

definition unblocked :: "string list \<Rightarrow> DesktopEvent list \<Rightarrow> bool" where
  "unblocked revoked es \<longleftrightarrow> list_all (\<lambda>e. \<not> isBlockedByRevocation e revoked) es"

lemma unblocked_simps [simp]:
  "unblocked ps []" "unblocked ps (xs @ ys) \<longleftrightarrow> unblocked ps xs \<and> unblocked ps ys"
  "unblocked ps (x # xs) \<longleftrightarrow> \<not> isBlockedByRevocation x ps \<and> unblocked ps xs"
  by (simp_all add: unblocked_def)

lemma unblocked_antimono: "set qs \<subseteq> set ps \<Longrightarrow> unblocked ps es \<Longrightarrow> unblocked qs es"
  using isBlocked_mono unfolding unblocked_def list_all_iff by blast

lemma unblocked_subset: "set ds \<subseteq> set es \<Longrightarrow> unblocked ps es \<Longrightarrow> unblocked ps ds"
  by (auto simp: unblocked_def list_all_iff)

definition valid_epoch :: "ReflectionCloudOwnerEpoch \<Rightarrow> bool" where
  "valid_epoch p \<longleftrightarrow> 0 \<le> epoch p \<and> epoch p \<le> MAX_SAFE_INTEGER \<and>
     normalizeCloudOwnerAccountId (accountId p) = Inr (accountId p)"

definition open_window_inv :: "collector_config \<Rightarrow> ReflectionCollectorSnapshot \<Rightarrow> OpenEventWindow \<Rightarrow> bool" where
  "open_window_inv cfg sn ow \<longleftrightarrow>
     ow_cloudOwnerEpoch ow = cloudOwnerEpoch sn \<and>
     ow_goal ow = activeGoal sn \<and> ow_goalVersion ow = map_option goal_version (activeGoal sn) \<and>
     ow_events ow \<noteq> [] \<and> isCountedSemanticEvent (hd (ow_events ow)) \<and>
     ow_startedAtMs ow = occurredAtMs (hd (ow_events ow)) \<and>
     ow_deadlineAtMs ow = ow_startedAtMs ow + cfg_maxWaitMs cfg \<and>
     finalizedSemanticEventCount ow = length (filter isCountedSemanticEvent (ow_events ow)) \<and>
     finalizedSemanticEventCount ow \<le> cfg_threshold cfg \<and>
     unblocked (revokedPermissions sn) (ow_events ow)"

definition snapshot_inv :: "collector_config \<Rightarrow> ReflectionCollectorSnapshot \<Rightarrow> bool" where
  "snapshot_inv cfg sn \<longleftrightarrow>
     collectorId sn = cfg_collectorId cfg \<and> sn_deviceId sn = cfg_deviceId cfg \<and>
     sn_sessionId sn = cfg_sessionId cfg \<and>
     sn_state sn = (if openWindow sn = None then ACTIVE_EMPTY else ACTIVE_COLLECTING) \<and>
     (\<forall>g. activeGoal sn = Some g \<longrightarrow> goal_version g \<le> goalRevision sn) \<and>
     valid_epoch (cloudOwnerEpoch sn) \<and>
     (\<forall>ow. openWindow sn = Some ow \<longrightarrow> open_window_inv cfg sn ow) \<and>
     unblocked (revokedPermissions sn) (contextCandidates sn) \<and>
     list_all isCountedSemanticEvent (contextCandidates sn) \<and> length (contextCandidates sn) \<le> 5 \<and>
     (0 < cfg_recentEventIdLimit cfg \<longrightarrow> length (recentEventIds sn) \<le> cfg_recentEventIdLimit cfg) \<and>
     permission_list (revokedPermissions sn)"

lemma open_window_inv_cong:
  "cloudOwnerEpoch sn' = cloudOwnerEpoch sn \<Longrightarrow> activeGoal sn' = activeGoal sn \<Longrightarrow>
   revokedPermissions sn' = revokedPermissions sn \<Longrightarrow>
   open_window_inv cfg sn' ow = open_window_inv cfg sn ow"
  by (simp add: open_window_inv_def)

lemma open_window_inv_count: "open_window_inv cfg sn ow \<Longrightarrow> 1 \<le> finalizedSemanticEventCount ow"
  by (cases "ow_events ow") (auto simp: open_window_inv_def)

lemma open_window_inv_append:
  assumes "open_window_inv cfg sn ow" and "\<not> isCountedSemanticEvent e"
    and "\<not> isBlockedByRevocation e (revokedPermissions sn)"
  shows "open_window_inv cfg sn (append_event ow e)"
  using assms by (auto simp: open_window_inv_def append_event_def)

lemma open_window_inv_appendCounted:
  assumes "open_window_inv cfg sn ow" and "isCountedSemanticEvent e"
    and "\<not> isBlockedByRevocation e (revokedPermissions sn)"
    and "finalizedSemanticEventCount ow < cfg_threshold cfg"
  shows "open_window_inv cfg sn (appendCountedEvent ow e)"
  using assms by (auto simp: open_window_inv_def appendCountedEvent_def)

lemma open_window_inv_start:
  assumes "isCountedSemanticEvent e" and "\<not> isBlockedByRevocation e (revokedPermissions sn)"
    and "0 < cfg_threshold cfg"
  shows "open_window_inv cfg sn
    (startOpenWindow e (activeGoal sn) (cfg_maxWaitMs cfg) (cloudOwnerEpoch sn))"
  using assms by (auto simp: open_window_inv_def startOpenWindow_def)

lemma snapshot_inv_receipt: "snapshot_inv cfg sn \<Longrightarrow> snapshot_inv cfg (receipt cfg sn e)"
  by (auto simp: snapshot_inv_def receipt_def withRecentEventId_def length_slice_last
      open_window_inv_cong [of "sn\<lparr>recentEventIds := _, materializedCursor := _\<rparr>" sn])

lemma snapshot_inv_stamp [simp]:
  "snapshot_inv cfg (sn\<lparr>revision := rv, sn_updatedAtMs := now\<rparr>) = snapshot_inv cfg sn"
  by (simp add: snapshot_inv_def open_window_inv_cong [of "sn\<lparr>revision := rv, sn_updatedAtMs := now\<rparr>" sn])

lemma snapshot_inv_open:
  assumes "snapshot_inv cfg sn" and "open_window_inv cfg sn ow"
  shows "snapshot_inv cfg (sn\<lparr>sn_state := ACTIVE_COLLECTING, openWindow := Some ow\<rparr>)"
  using assms
  by (simp add: snapshot_inv_def
      open_window_inv_cong [of "sn\<lparr>sn_state := ACTIVE_COLLECTING, openWindow := Some ow\<rparr>" sn])

lemma snapshot_inv_replace:
  assumes "snapshot_inv cfg sn" and "open_window_inv cfg sn ow" and "openWindow sn \<noteq> None"
  shows "snapshot_inv cfg (sn\<lparr>openWindow := Some ow\<rparr>)"
  using assms
  by (auto simp: snapshot_inv_def open_window_inv_cong [of "sn\<lparr>openWindow := Some ow\<rparr>" sn])

lemma snapshot_inv_threshold: "snapshot_inv cfg sn \<Longrightarrow> openWindow sn = Some ow \<Longrightarrow> 0 < cfg_threshold cfg"
  using open_window_inv_count [of cfg sn ow] by (auto simp: snapshot_inv_def open_window_inv_def)

subsection \<open>Weakest preconditions of the basic operations\<close>

lemma wp_requireSnapshot [wp_simps]:
  "wp requireSnapshot Q s = (case coll_snapshot s of None \<Rightarrow> Q (Inl RecoverFirst) s | Some sn \<Rightarrow> Q (Inr sn) s)"
  by (simp add: wp_def requireSnapshot_def split: option.splits)

lemma wp_readClock [wp_simps]:
  "wp readClock Q s = Q (Inr (coll_clock s (coll_ticks s))) (s\<lparr>coll_ticks := Suc (coll_ticks s)\<rparr>)"
  by (simp add: wp_def readClock_def)

lemma wp_cancelTimer [wp_simps]: "wp cancelTimer Q s = Q (Inr ()) (s\<lparr>coll_timer := None\<rparr>)"
  by (simp add: cancelTimer_def wp_simps)

lemma wp_setRuntimeState [wp_simps]: "wp (setRuntimeState st) Q s = Q (Inr ()) (s\<lparr>runtimeState := st\<rparr>)"
  by (simp add: setRuntimeState_def wp_simps)

lemma wp_lift_error [wp_simps]: "wp (lift_error x) Q s = Q x s"
  by (simp add: wp_def lift_error_def)

lemma wp_if [wp_simps]: "wp (if b then m else n) Q s = (if b then wp m Q s else wp n Q s)"
  by simp

lemma wp_state_if [wp_simps]:
  "wp (\<lambda>s. if b s then (res, s) else m s) Q s = (if b s then Q res s else wp m Q s)"
  by (simp add: wp_def)

text \<open>Operations that only touch the timer, the clock and the hooks.\<close>

definition same_evidence :: "'r collector \<Rightarrow> 'r collector \<Rightarrow> bool" where
  "same_evidence s t \<longleftrightarrow> coll_snapshot t = coll_snapshot s \<and> coll_repository t = coll_repository s"

lemma wp_armDeadline: "(\<And>t. same_evidence s t \<Longrightarrow> Q (Inr ()) t) \<Longrightarrow> wp (armDeadline d) Q s"
  by (simp add: armDeadline_def wp_simps same_evidence_def)

subsection \<open>The contract of a collector store\<close>

locale collector_store =
  fixes repo :: "'r ReflectionCollectorRepository"
    and stored :: "'r \<Rightarrow> string \<Rightarrow> ReflectionCollectorSnapshot option"
    and held :: "'r \<Rightarrow> string \<Rightarrow> EventWindow option"
  assumes load: "loadCollector_of repo cid r = (Inr (map_option as_recovered (stored r cid)), r)"
    and save_ok: "map_option revision (stored r (collectorId sn)) = rv \<Longrightarrow>
      \<exists>r'. saveCollector_of repo sn rv r = (Inr sn, r') \<and>
        stored r' = (stored r)(collectorId sn \<mapsto> sn) \<and> held r' = held r"
    and save_conflict: "map_option revision (stored r (collectorId sn)) \<noteq> rv \<Longrightarrow>
      saveCollector_of repo sn rv r = (Inl CollectorRevisionConflict, r)"
    and seal_failed: "sealWindow_of repo w sn rw own r = (Inl e, r') \<Longrightarrow>
      stored r' = stored r \<and> (valid_owner own \<longrightarrow> held r' = held r)"
    and seal_inserted: "sealWindow_of repo w sn rw own r = (Inr res, r') \<Longrightarrow> inserted res \<Longrightarrow>
      sealed_window res = w \<and> sealed_snapshot res = sn \<and>
      stored r' = (stored r)(collectorId sn \<mapsto> sn) \<and> held r' = (held r)(windowId w \<mapsto> w)"
    and seal_repeated: "sealWindow_of repo w sn rw own r = (Inr res, r') \<Longrightarrow> \<not> inserted res \<Longrightarrow>
      r' = r \<and> held r (windowId w) = Some (sealed_window res) \<and>
      stored r (collectorId sn) = Some (sealed_snapshot res)"
    and seal_fresh: "held r (windowId w) = None \<Longrightarrow> valid_owner own \<Longrightarrow>
      map_option revision (stored r (collectorId sn)) = Some rw \<Longrightarrow>
      \<exists>res r'. sealWindow_of repo w sn rw own r = (Inr res, r') \<and> inserted res"

text \<open>The in-memory repository is a collector store.\<close>

lemma in_memory_seal_failed:
  assumes "sealWindow w sn rw own r = (Inl e, r')"
  shows "collectors r' = collectors r \<and> (valid_owner own \<longrightarrow> windows r' = windows r)"
  using assms
  by (auto simp: sealWindow_def Let_def normalizeRequired_valid split: option.splits sum.splits if_splits)

lemma in_memory_seal_inserted:
  assumes "sealWindow w sn rw own r = (Inr res, r')" and "inserted res"
  shows "sealed_window res = w \<and> sealed_snapshot res = sn \<and>
    collectors r' = jset (collectorId sn) sn (collectors r) \<and> windows r' = jset (windowId w) w (windows r)"
  using assms
  by (auto simp: sealWindow_def Let_def split: option.splits sum.splits if_splits)

interpretation mem_store: collector_store in_memory_collectors
  "\<lambda>r. jget (collectors r)" "\<lambda>r. jget (windows r)"
proof (unfold_locales, goal_cases)
  case (1 cid r)
  show ?case by (simp add: in_memory_collectors_def loadCollector_def andThen_def ret_def)
next
  case (2 r sn rv)
  then show ?case
    by (intro exI [of _ "r\<lparr>collectors := jset (collectorId sn) sn (collectors r)\<rparr>"])
      (auto simp: in_memory_collectors_def saveCollector_def Let_def fun_eq_iff)
next
  case (3 r sn rv)
  then show ?case by (auto simp: in_memory_collectors_def saveCollector_def Let_def)
next
  case (4 w sn rw own r e r')
  then show ?case using in_memory_seal_failed [of w sn rw own r e r'] by (simp add: in_memory_collectors_def)
next
  case (5 w sn rw own r res r')
  then show ?case using in_memory_seal_inserted [of w sn rw own r res r']
    by (simp add: in_memory_collectors_def fun_eq_iff)
next
  case (6 w sn rw own r res r')
  then show ?case using sealWindow_InrD [of w sn rw own r res r'] by (auto simp: in_memory_collectors_def)
next
  case (7 r w own sn rw)
  then show ?case using sealWindow_fresh [of r w own sn rw] by (simp add: in_memory_collectors_def)
qed

subsection \<open>The invariant of the collector\<close>

definition good_window :: "collector_config \<Rightarrow> string list \<Rightarrow> EventWindow \<Rightarrow> bool" where
  "good_window cfg revoked w \<longleftrightarrow>
     win_collectorId w = cfg_collectorId cfg \<and>
     win_eventCount w = length (filter isCountedSemanticEvent (win_events w)) \<and>
     1 \<le> win_eventCount w \<and> win_eventCount w \<le> cfg_threshold cfg \<and>
     win_goalVersion w = map_option goal_version (win_goal w) \<and>
     win_startedAtMs w \<le> win_endedAtMs w \<and>
     unblocked revoked (win_events w) \<and> unblocked revoked (contextOnly w)"

definition revoked_of :: "'r collector \<Rightarrow> string list" where
  "revoked_of s = (case coll_snapshot s of None \<Rightarrow> [] | Some sn \<Rightarrow> revokedPermissions sn)"

lemma valid_epoch_owner: "valid_epoch p \<Longrightarrow> valid_owner (accountId p)"
  by (auto simp: valid_epoch_def valid_owner_def normalizeCloudOwnerAccountId_def not_less Suc_le_eq
      split: option.splits if_splits)

lemma set_selectContext: "set (selectContext opts candidates t) \<subseteq> set candidates"
proof -
  obtain sel where "select_context_loop opts t (rev candidates) [] 0 = sel" "subseq sel (rev candidates)"
    using select_context_loop_inv [of opts t "[]" 0 "rev candidates"]
    by (auto simp: context_tokens_def)
  then show ?thesis using subseq_order.order_trans set_rev
    by (metis notin_set_nthsI selectContext_def subseq_conv_nths subsetI)
qed

lemma good_window_build:
  assumes "snapshot_inv cfg candidate" and "openWindow candidate = Some ow"
    and "build (cfg_sha256 cfg) (cfg_builder cfg) (seal_request cfg candidate ow reason endedAt) = Inr w"
  shows "good_window cfg (revokedPermissions candidate) w"
proof -
  note b = build_InrD [OF assms(3)] build_modelInput [OF assms(3)]
  have ow: "open_window_inv cfg candidate ow" using assms(1,2) by (simp add: snapshot_inv_def)
  have "unblocked (revokedPermissions candidate) (contextOnly w)"
    unfolding b(16) using assms(1)
    by (intro unblocked_subset [OF set_selectContext]) (simp add: seal_request_def snapshot_inv_def)
  then show ?thesis
    using ow open_window_inv_count [OF ow] b
    by (simp add: good_window_def open_window_inv_def seal_request_def)
qed

lemma snapshot_inv_sealed:
  assumes "snapshot_inv cfg candidate" and "unblocked (revokedPermissions candidate) (win_events w)"
    and "\<And>g. nextGoal = Some g \<Longrightarrow> goal_version g \<le> goalRevision candidate"
  shows "snapshot_inv cfg (sealed_snapshot_of candidate nextGoal w rv now)"
proof -
  have "set (contextCandidatesFromWindow w) \<subseteq> set (win_events w)"
    using set_slice_last [of 5 "filter isCountedSemanticEvent (win_events w)"]
    by (auto simp: contextCandidatesFromWindow_def DEFAULT_CONTEXT_EVENT_LIMIT_def)
  then have "unblocked (revokedPermissions candidate) (contextCandidatesFromWindow w)"
    using assms(2) by (rule unblocked_subset)
  then show ?thesis
    using assms(1,3) contextCandidates_length [of w] contextCandidates_counted [of w]
    by (simp add: snapshot_inv_def sealed_snapshot_of_def)
qed

text \<open>The durable copy agrees with the snapshot in memory up to the goal revision, which recovery
  recomputes when the stored one is not a safe non-negative integer.\<close>

definition in_step :: "ReflectionCollectorSnapshot \<Rightarrow> ReflectionCollectorSnapshot \<Rightarrow> bool" where
  "in_step st sn \<longleftrightarrow> sn\<lparr>goalRevision := goalRevision st\<rparr> = st"

lemma in_step_refl [simp]: "in_step sn sn"
  by (simp add: in_step_def)

lemma in_step_fields:
  assumes "in_step st sn"
  shows "revision st = revision sn" "revokedPermissions st = revokedPermissions sn"
    "cloudOwnerEpoch st = cloudOwnerEpoch sn" "openWindow st = openWindow sn"
    "recentEventIds st = recentEventIds sn" "collectorId st = collectorId sn"
  by (subst assms [unfolded in_step_def, symmetric], simp)+

context collector_store
begin

definition coll_inv :: "collector_config \<Rightarrow> 'r collector \<Rightarrow> bool" where
  "coll_inv cfg s \<longleftrightarrow> 0 < cfg_threshold cfg \<and>
     (\<forall>st. stored (coll_repository s) (cfg_collectorId cfg) = Some st \<longrightarrow> snapshot_inv cfg st) \<and>
     (\<forall>sn. coll_snapshot s = Some sn \<longrightarrow> snapshot_inv cfg sn \<and>
        (\<exists>st. stored (coll_repository s) (cfg_collectorId cfg) = Some st \<and> in_step st sn))"

text \<open>What an operation may do to the evidence: the invariant stays, and every window it adds to
  the store is a good one under the permissions revoked at its end.\<close>

definition new_windows_good :: "collector_config \<Rightarrow> 'r collector \<Rightarrow> 'r collector \<Rightarrow> bool" where
  "new_windows_good cfg s t \<longleftrightarrow> (\<forall>wid w. held (coll_repository t) wid = Some w \<longrightarrow>
     held (coll_repository s) wid = Some w \<or> good_window cfg (revoked_of t) w)"

definition owner_epoch_of :: "'r collector \<Rightarrow> int" where
  "owner_epoch_of s = (case coll_snapshot s of None \<Rightarrow> 0 | Some sn \<Rightarrow> epoch (cloudOwnerEpoch sn))"

definition quiet_step :: "collector_config \<Rightarrow> 'r collector \<Rightarrow> 'r collector \<Rightarrow> bool" where
  "quiet_step cfg s t \<longleftrightarrow> coll_inv cfg t \<and> new_windows_good cfg s t \<and> coll_snapshot t \<noteq> None \<and>
     revoked_of t = revoked_of s \<and> owner_epoch_of t = owner_epoch_of s"

lemma coll_invD:
  assumes "coll_inv cfg s" and "coll_snapshot s = Some sn"
  obtains st where "snapshot_inv cfg sn" and "stored (coll_repository s) (cfg_collectorId cfg) = Some st"
    and "in_step st sn" and "snapshot_inv cfg st" and "collectorId sn = cfg_collectorId cfg"
    and "0 < cfg_threshold cfg"
  using assms by (auto simp: coll_inv_def snapshot_inv_def)

lemma coll_inv_same: "coll_inv cfg s \<Longrightarrow> same_evidence s t \<Longrightarrow> coll_inv cfg t"
  by (simp add: coll_inv_def same_evidence_def)

lemma quiet_step_same:
  "coll_inv cfg s \<Longrightarrow> coll_snapshot s \<noteq> None \<Longrightarrow> same_evidence s t \<Longrightarrow> quiet_step cfg s t"
  by (simp add: quiet_step_def coll_inv_same new_windows_good_def same_evidence_def revoked_of_def
      owner_epoch_of_def coll_inv_def)

lemma quiet_step_trans:
  assumes "quiet_step cfg s t" and "quiet_step cfg t u"
  shows "quiet_step cfg s u"
  using assms unfolding quiet_step_def new_windows_good_def by metis

lemma quiet_step_same_left: "same_evidence s s' \<Longrightarrow> quiet_step cfg s' t \<Longrightarrow> quiet_step cfg s t"
  unfolding quiet_step_def new_windows_good_def same_evidence_def revoked_of_def owner_epoch_of_def
  by metis

lemma wp_saveSnapshot:
  assumes "coll_inv cfg s" and "coll_snapshot s = Some cur" and "snapshot_inv cfg candidate"
    and "\<And>now t. coll_snapshot t = Some (candidate\<lparr>revision := revision cur + 1, sn_updatedAtMs := now\<rparr>) \<Longrightarrow>
      held (coll_repository t) = held (coll_repository s) \<Longrightarrow> coll_inv cfg t \<Longrightarrow>
      deadlinesDeferred t = deadlinesDeferred s \<Longrightarrow> disposed t = disposed s \<Longrightarrow> coll_timer t = coll_timer s \<Longrightarrow>
      runtimeState t = (if openWindow candidate \<noteq> None then ACTIVE_COLLECTING else ACTIVE_EMPTY) \<Longrightarrow>
      stored (coll_repository t) = (stored (coll_repository s))(cfg_collectorId cfg \<mapsto>
        candidate\<lparr>revision := revision cur + 1, sn_updatedAtMs := now\<rparr>) \<Longrightarrow>
      Q (Inr (candidate\<lparr>revision := revision cur + 1, sn_updatedAtMs := now\<rparr>)) t"
  shows "wp (saveSnapshot repo candidate) Q s"
proof -
  define now where "now = coll_clock s (coll_ticks s)"
  define new where "new = candidate\<lparr>revision := revision cur + 1, sn_updatedAtMs := now\<rparr>"
  obtain st where st: "stored (coll_repository s) (cfg_collectorId cfg) = Some st" "in_step st cur"
    "0 < cfg_threshold cfg"
    using assms(1,2) by (rule coll_invD)
  have new: "snapshot_inv cfg new" "collectorId new = cfg_collectorId cfg" "openWindow new = openWindow candidate"
    using assms(3) by (simp_all add: new_def snapshot_inv_def [of cfg candidate])
  have rv: "map_option revision (stored (coll_repository s) (collectorId new)) = Some (revision cur)"
    using st in_step_fields(1) [OF st(2)] new(2) by simp
  obtain r' where r': "saveCollector_of repo new (Some (revision cur)) (coll_repository s) = (Inr new, r')"
    "stored r' = (stored (coll_repository s))(collectorId new \<mapsto> new)" "held r' = held (coll_repository s)"
    using save_ok [OF rv] by blast
  let ?t = "s\<lparr>coll_ticks := Suc (coll_ticks s), coll_repository := r', coll_snapshot := Some new,
      runtimeState := (if openWindow candidate \<noteq> None then ACTIVE_COLLECTING else ACTIVE_EMPTY)\<rparr>"
  have inv: "coll_inv cfg ?t" using r' new st(3) by (simp add: coll_inv_def)
  have "Q (Inr new) ?t" unfolding new_def
    by (rule assms(4)) (use r' new inv in \<open>simp_all add: new_def\<close>)
  then show ?thesis
    using assms(2) r'(1) new(3)
    by (simp add: saveSnapshot_def wp_simps wp_def [of "awaitStore _"] awaitStore_def new_def now_def)
qed

text \<open>A quiet save keeps the permissions and the owner.\<close>

lemma wp_save_quiet:
  assumes "coll_inv cfg s" and "coll_snapshot s = Some cur" and "snapshot_inv cfg candidate"
    and "revokedPermissions candidate = revokedPermissions cur"
    and "cloudOwnerEpoch candidate = cloudOwnerEpoch cur"
    and "\<And>x t. quiet_step cfg s t \<Longrightarrow> Q (Inr x) t"
  shows "wp (saveSnapshot repo candidate) Q s"
  by (rule wp_saveSnapshot [OF assms(1-3)], rule assms(6))
    (use assms(2,4,5) in \<open>simp add: quiet_step_def new_windows_good_def revoked_of_def owner_epoch_of_def\<close>)

text \<open>The store's answer to a seal, merged back into the collector, is a quiet step.\<close>

lemma seal_outcome:
  assumes "coll_inv cfg s" and "coll_snapshot s = Some cur" and "snapshot_inv cfg new"
    and "revokedPermissions new = revokedPermissions cur" and "cloudOwnerEpoch new = cloudOwnerEpoch cur"
    and "good_window cfg (revokedPermissions cur) w" and "valid_owner own"
    and "sealWindow_of repo w new rw own (coll_repository s) = (res, r')"
    and "coll_repository t = r'"
    and "coll_snapshot t = (case res of Inl e \<Rightarrow> coll_snapshot s | Inr x \<Rightarrow> Some (sealed_snapshot x))"
  shows "quiet_step cfg s t"
proof -
  obtain st where st: "stored (coll_repository s) (cfg_collectorId cfg) = Some st" "in_step st cur"
    "snapshot_inv cfg st" "0 < cfg_threshold cfg"
    using assms(1,2) by (rule coll_invD)
  have cid: "collectorId new = cfg_collectorId cfg" using assms(3) by (simp add: snapshot_inv_def)
  show ?thesis
  proof (cases res)
    case (Inl e)
    have "stored r' = stored (coll_repository s)" "held r' = held (coll_repository s)"
      using seal_failed assms(7,8) Inl by blast+
    then show ?thesis using assms(1,2,9,10) Inl
      by (simp add: quiet_step_def coll_inv_def new_windows_good_def revoked_of_def owner_epoch_of_def)
  next
    case (Inr x)
    show ?thesis
    proof (cases "inserted x")
      case True
      have "sealed_snapshot x = new" "stored r' = (stored (coll_repository s))(collectorId new \<mapsto> new)"
        "held r' = (held (coll_repository s))(windowId w \<mapsto> w)"
        using seal_inserted True assms(8) Inr by blast+
      then show ?thesis using assms(2-6,9,10) Inr st(4) cid
        by (auto simp: quiet_step_def coll_inv_def new_windows_good_def revoked_of_def owner_epoch_of_def
            split: if_splits)
    next
      case False
      have rep: "r' = coll_repository s" "sealed_snapshot x = st"
        using seal_repeated False assms(8) Inr cid st(1) by (metis option.inject)+
      then show ?thesis using assms(2,9,10) Inr st in_step_fields [OF st(2)]
        by (auto simp: quiet_step_def coll_inv_def new_windows_good_def revoked_of_def owner_epoch_of_def)
    qed
  qed
qed

lemma wp_sealCandidate:
  assumes "coll_inv cfg s" and "coll_snapshot s = Some cur" and "snapshot_inv cfg candidate"
    and "revokedPermissions candidate = revokedPermissions cur"
    and "cloudOwnerEpoch candidate = cloudOwnerEpoch cur"
    and "\<And>g. nextGoal = Some g \<Longrightarrow> goal_version g \<le> goalRevision candidate"
    and "\<And>res t. quiet_step cfg s t \<Longrightarrow> Q res t"
  shows "wp (sealCandidate repo cfg candidate reason endedAt nextGoal) Q s"
proof -
  have same: "\<And>res t. same_evidence s t \<Longrightarrow> Q res t"
    using quiet_step_same assms(1,2,7) by blast
  show ?thesis
  proof (cases "openWindow candidate")
    case None
    then show ?thesis using same by (simp add: sealCandidate_def wp_simps same_evidence_def)
  next
    case (Some ow)
    show ?thesis
    proof (cases "build (cfg_sha256 cfg) (cfg_builder cfg) (seal_request cfg candidate ow reason endedAt)")
      case (Inl e)
      then show ?thesis using same Some by (simp add: sealCandidate_def wp_simps same_evidence_def)
    next
      case (Inr w)
      define new where "new = sealed_snapshot_of candidate nextGoal w (revision cur + 1) (coll_clock s (coll_ticks s))"
      have gw: "good_window cfg (revokedPermissions cur) w"
        using good_window_build [OF assms(3) Some Inr] assms(4) by simp
      have new: "snapshot_inv cfg new"
        "revokedPermissions new = revokedPermissions cur" "cloudOwnerEpoch new = cloudOwnerEpoch cur"
        unfolding new_def using gw assms(4,5) snapshot_inv_sealed [OF assms(3) _ assms(6), of w]
        by (simp_all add: good_window_def sealed_snapshot_of_def)
      have own: "valid_owner (accountId (ow_cloudOwnerEpoch ow))"
        using assms(3) Some valid_epoch_owner by (simp add: snapshot_inv_def open_window_inv_def)
      obtain res r' where r': "sealWindow_of repo w new (revision cur) (accountId (ow_cloudOwnerEpoch ow))
          (coll_repository s) = (res, r')" by fastforce
      note quiet = assms(7) [OF seal_outcome [OF assms(1,2) new gw own r']]
      show ?thesis
        using Some Inr assms(2) r' quiet
        by (cases res) (simp_all add: sealCandidate_def wp_simps wp_def [of "awaitStore _"] awaitStore_def
            new_def)
    qed
  qed
qed

end

subsection \<open>Every operation keeps the invariant\<close>

lemma receipt_fields [simp]:
  "openWindow (receipt cfg sn e) = openWindow sn" "activeGoal (receipt cfg sn e) = activeGoal sn"
  "goalRevision (receipt cfg sn e) = goalRevision sn"
  "revokedPermissions (receipt cfg sn e) = revokedPermissions sn"
  "cloudOwnerEpoch (receipt cfg sn e) = cloudOwnerEpoch sn"
  "recentEventIds (receipt cfg sn e) = withRecentEventId cfg sn (eventId e)"
  "materializedCursor (receipt cfg sn e) = Some (cursor e)"
  "contextCandidates (receipt cfg sn e) = contextCandidates sn"
  by (simp_all add: receipt_def)

lemma open_window_inv_receipt [simp]:
  "open_window_inv cfg (receipt cfg sn e) ow = open_window_inv cfg sn ow"
  by (rule open_window_inv_cong) simp_all

lemma open_window_inv_of: "snapshot_inv cfg sn \<Longrightarrow> openWindow sn = Some ow \<Longrightarrow> open_window_inv cfg sn ow"
  by (simp add: snapshot_inv_def)

lemma snapshot_inv_goal: "snapshot_inv cfg sn \<Longrightarrow> activeGoal sn = Some g \<Longrightarrow> goal_version g \<le> goalRevision sn"
  by (simp add: snapshot_inv_def)

lemma snapshot_inv_goalRevision:
  "snapshot_inv cfg sn \<Longrightarrow> goalRevision sn \<le> rv \<Longrightarrow> snapshot_inv cfg (sn\<lparr>goalRevision := rv\<rparr>)"
  by (force simp: snapshot_inv_def open_window_inv_cong [of "sn\<lparr>goalRevision := rv\<rparr>" sn])

lemma snapshot_inv_new_goal:
  assumes "snapshot_inv cfg sn" and "openWindow sn = None"
    and "\<And>g. nextGoal = Some g \<Longrightarrow> goal_version g \<le> rv"
  shows "snapshot_inv cfg (sn\<lparr>activeGoal := nextGoal, goalRevision := rv\<rparr>)"
  using assms by (simp add: snapshot_inv_def)

text \<open>The appended window of a boundary or uncounted event.\<close>

lemma snapshot_inv_append:
  assumes "snapshot_inv cfg sn" and "openWindow sn = Some ow" and "\<not> isCountedSemanticEvent e"
    and "\<not> isBlockedByRevocation e (revokedPermissions sn)"
  shows "snapshot_inv cfg ((receipt cfg sn e)\<lparr>openWindow := Some (append_event ow e)\<rparr>)"
  using assms by (intro snapshot_inv_replace snapshot_inv_receipt)
    (auto intro: open_window_inv_append open_window_inv_of)

lemma snapshot_inv_append_goal:
  assumes "snapshot_inv cfg sn" and "openWindow sn = Some ow" and "\<not> isCountedSemanticEvent e"
    and "\<not> isBlockedByRevocation e (revokedPermissions sn)" and "goalRevision sn \<le> rv"
  shows "snapshot_inv cfg ((receipt cfg sn e)\<lparr>goalRevision := rv, openWindow := Some (append_event ow e)\<rparr>)"
proof (rule snapshot_inv_replace)
  show "snapshot_inv cfg ((receipt cfg sn e)\<lparr>goalRevision := rv\<rparr>)"
    using assms(1,5) by (intro snapshot_inv_goalRevision snapshot_inv_receipt) simp_all
  show "open_window_inv cfg ((receipt cfg sn e)\<lparr>goalRevision := rv\<rparr>) (append_event ow e)"
    using open_window_inv_append [OF open_window_inv_of [OF assms(1,2)] assms(3,4)]
    by (simp add: open_window_inv_cong [of "(receipt cfg sn e)\<lparr>goalRevision := rv\<rparr>" sn])
qed (use assms(2) in simp)

lemma snapshot_inv_counted:
  assumes "snapshot_inv cfg sn" and "isCountedSemanticEvent e"
    and "\<not> isBlockedByRevocation e (revokedPermissions sn)" and "0 < cfg_threshold cfg"
    and "\<And>ow. openWindow sn = Some ow \<Longrightarrow> finalizedSemanticEventCount ow < cfg_threshold cfg"
  shows "snapshot_inv cfg ((receipt cfg sn e)\<lparr>sn_state := ACTIVE_COLLECTING, openWindow := Some
    (case openWindow sn of Some current \<Rightarrow> appendCountedEvent current e
     | None \<Rightarrow> startOpenWindow e (activeGoal sn) (cfg_maxWaitMs cfg) (cloudOwnerEpoch sn))\<rparr>)"
proof (rule snapshot_inv_open [OF snapshot_inv_receipt [OF assms(1)]])
  show "open_window_inv cfg (receipt cfg sn e) (case openWindow sn of Some current \<Rightarrow> appendCountedEvent current e
     | None \<Rightarrow> startOpenWindow e (activeGoal sn) (cfg_maxWaitMs cfg) (cloudOwnerEpoch sn))"
    using open_window_inv_start [OF assms(2-4)] open_window_inv_appendCounted [OF open_window_inv_of [OF assms(1)] assms(2,3,5)]
    by (simp split: option.splits)
qed

context collector_store
begin

lemma wp_sealOpenWindow:
  assumes "coll_inv cfg s" and "coll_snapshot s = Some sn" and "\<And>res t. quiet_step cfg s t \<Longrightarrow> Q res t"
  shows "wp (sealOpenWindow repo cfg reason endedAt) Q s"
proof -
  have "snapshot_inv cfg sn" using assms(1,2) by (rule coll_invD)
  then show ?thesis
    using assms(2) by (auto simp: sealOpenWindow_def wp_simps intro!: wp_sealCandidate [OF assms(1,2)]
        snapshot_inv_goal assms(3))
qed

lemma wp_sealCountReady:
  assumes "coll_inv cfg s" and "coll_snapshot s = Some sn" and "\<And>res t. quiet_step cfg s t \<Longrightarrow> Q res t"
  shows "wp (sealCountReady repo cfg ow) Q s"
  using assms wp_sealOpenWindow [OF assms]
  by (auto simp: sealCountReady_def wp_simps same_evidence_def intro!: assms(3) quiet_step_same
      split: option.splits)

lemma quiet_refl: "coll_inv cfg s \<Longrightarrow> coll_snapshot s = Some sn \<Longrightarrow> quiet_step cfg s s"
  by (rule quiet_step_same) (simp_all add: same_evidence_def)

lemma quiet_handleGoalBoundary:
  assumes "coll_inv cfg s" and "coll_snapshot s = Some sn" and "\<not> isCountedSemanticEvent e"
    and "\<not> isBlockedByRevocation e (revokedPermissions sn)"
  shows "wp (handleGoalBoundary repo cfg e prior nextGoal) (\<lambda>_. quiet_step cfg s) s"
proof -
  have sn: "snapshot_inv cfg sn" using assms(1,2) by (rule coll_invD)
  show ?thesis
    using assms quiet_refl [OF assms(1,2)] sn
    by (auto simp: handleGoalBoundary_def wp_simps Let_def split: option.splits sum.splits
        intro!: wp_save_quiet [OF assms(1,2)] wp_sealCandidate [OF assms(1,2)] snapshot_inv_new_goal
          snapshot_inv_receipt snapshot_inv_append_goal)
qed

lemma quiet_handlePresenceBoundary:
  assumes "coll_inv cfg s" and "coll_snapshot s = Some sn" and "\<not> isCountedSemanticEvent e"
    and "\<not> isBlockedByRevocation e (revokedPermissions sn)"
  shows "wp (handlePresenceBoundary repo cfg e) (\<lambda>_. quiet_step cfg s) s"
    and "wp (handleRetroactivePresenceBoundary repo cfg e) (\<lambda>_. quiet_step cfg s) s"
proof -
  have sn: "snapshot_inv cfg sn" using assms(1,2) by (rule coll_invD)
  show "wp (handlePresenceBoundary repo cfg e) (\<lambda>_. quiet_step cfg s) s"
    "wp (handleRetroactivePresenceBoundary repo cfg e) (\<lambda>_. quiet_step cfg s) s"
    using assms quiet_refl [OF assms(1,2)] sn
    by (auto simp: handlePresenceBoundary_def handleRetroactivePresenceBoundary_def wp_simps Let_def
        split: option.splits sum.splits intro!: wp_save_quiet [OF assms(1,2)] wp_sealCandidate [OF assms(1,2)]
          snapshot_inv_receipt snapshot_inv_append snapshot_inv_goal)
qed

end

context collector_store
begin

lemma wp_save_case:
  assumes "coll_inv cfg s" and "coll_snapshot s = Some cur" and "snapshot_inv cfg candidate"
    and "revokedPermissions candidate = revokedPermissions cur"
    and "cloudOwnerEpoch candidate = cloudOwnerEpoch cur" and "same_evidence s' s"
    and "\<And>x t. quiet_step cfg s' t \<Longrightarrow> wp (k x) Q t"
  shows "wp (saveSnapshot repo candidate) (\<lambda>res t. case res of Inl e \<Rightarrow> Q (Inl e) t | Inr x \<Rightarrow> wp (k x) Q t) s"
proof -
  have "quiet_step cfg s' t" if "quiet_step cfg s t" for t
    using assms(6) that by (rule quiet_step_same_left)
  then show ?thesis using assms(7) by (auto intro!: wp_save_quiet [OF assms(1-5)])
qed

lemma wp_seal_case:
  assumes "coll_inv cfg s" and "coll_snapshot s = Some cur" and "snapshot_inv cfg candidate"
    and "revokedPermissions candidate = revokedPermissions cur"
    and "cloudOwnerEpoch candidate = cloudOwnerEpoch cur" and "same_evidence s' s"
    and "\<And>g. nextGoal = Some g \<Longrightarrow> goal_version g \<le> goalRevision candidate"
    and "\<And>e t. quiet_step cfg s' t \<Longrightarrow> Q (Inl e) t" and "\<And>x t. quiet_step cfg s' t \<Longrightarrow> wp (k x) Q t"
  shows "wp (sealCandidate repo cfg candidate reason endedAt nextGoal)
    (\<lambda>res t. case res of Inl e \<Rightarrow> Q (Inl e) t | Inr x \<Rightarrow> wp (k x) Q t) s"
proof -
  have "quiet_step cfg s' t" if "quiet_step cfg s t" for t
    using assms(6) that by (rule quiet_step_same_left)
  then show ?thesis
    using assms(7-9) by (auto intro!: wp_sealCandidate [OF assms(1-5)] split: sum.splits)
qed

lemma quiet_step_same_right:
  assumes "quiet_step cfg s t" and "same_evidence t u" shows "quiet_step cfg s u"
proof -
  have "quiet_step cfg t u" using assms by (intro quiet_step_same) (auto simp: quiet_step_def)
  with assms(1) show ?thesis by (rule quiet_step_trans)
qed

lemma quiet_arm:
  "quiet_step cfg s t \<Longrightarrow> (\<And>u. quiet_step cfg s u \<Longrightarrow> Q (Inr ()) u) \<Longrightarrow> wp (armDeadline d) Q t"
  by (auto intro: wp_armDeadline quiet_step_same_right)

lemma quiet_ingestCounted:
  assumes "coll_inv cfg s" and "coll_snapshot s = Some sn" and "isCountedSemanticEvent e"
    and "\<not> isBlockedByRevocation e (revokedPermissions sn)"
    and "\<And>ow. openWindow sn = Some ow \<Longrightarrow> finalizedSemanticEventCount ow < cfg_threshold cfg"
  shows "wp (ingestCounted repo cfg e) (\<lambda>_. quiet_step cfg s) s"
proof -
  have sn: "snapshot_inv cfg sn" using assms(1,2) by (rule coll_invD)
  have pos: "0 < cfg_threshold cfg" using assms(1) by (simp add: coll_inv_def)
  define ow where "ow = (case openWindow sn of Some current \<Rightarrow> appendCountedEvent current e
     | None \<Rightarrow> startOpenWindow e (activeGoal sn) (cfg_maxWaitMs cfg) (cloudOwnerEpoch sn))"
  define candidate where
    "candidate = (receipt cfg sn e)\<lparr>sn_state := ACTIVE_COLLECTING, openWindow := Some ow\<rparr>"
  have c: "snapshot_inv cfg candidate" "revokedPermissions candidate = revokedPermissions sn"
    "cloudOwnerEpoch candidate = cloudOwnerEpoch sn" "goalRevision candidate = goalRevision sn"
    using snapshot_inv_counted [OF sn assms(3,4) pos assms(5)] by (simp_all add: candidate_def ow_def)
  have inv: "coll_inv cfg (s\<lparr>runtimeState := x\<rparr>)" "coll_inv cfg (s\<lparr>runtimeState := x, coll_timer := y\<rparr>)" for x y
    using assms(1) by (auto intro!: coll_inv_same [of cfg s] simp: same_evidence_def)
  have same: "same_evidence s (s\<lparr>runtimeState := x\<rparr>)" "same_evidence s (s\<lparr>runtimeState := x, coll_timer := y\<rparr>)" for x y
    by (simp_all add: same_evidence_def)
  have log: "quiet_step cfg s (t\<lparr>countReadyCalls := z\<rparr>)" if "quiet_step cfg s t" for t z
    using that by (rule quiet_step_same_right) (simp add: same_evidence_def)
  note rules = wp_save_case [OF inv(1) _ c(1) c(2) c(3) same(1)] wp_save_case [OF inv(2) _ c(1) c(2) c(3) same(2)]
    wp_seal_case [OF inv(1) _ c(1) c(2) c(3) same(1)]
  show ?thesis
    unfolding ingestCounted_def wp_andThen wp_requireSnapshot
    using assms(2) snapshot_inv_goal [OF sn]
    by (auto simp: ow_def [symmetric] candidate_def [symmetric] wp_simps Let_def c
        intro!: rules log quiet_arm [of cfg s])
qed

lemma quiet_ingestCurrent:
  assumes "coll_inv cfg s" and "coll_snapshot s = Some sn"
    and "\<not> isBlockedByRevocation e (revokedPermissions sn)"
    and "\<And>ow. openWindow sn = Some ow \<Longrightarrow> isCountedSemanticEvent e \<Longrightarrow>
      finalizedSemanticEventCount ow < cfg_threshold cfg"
  shows "wp (ingestCurrent repo cfg e) (\<lambda>_. quiet_step cfg s) s"
proof -
  have sn: "snapshot_inv cfg sn" using assms(1,2) by (rule coll_invD)
  have refl: "quiet_step cfg s s" by (rule quiet_refl [OF assms(1,2)])
  have goal: "\<not> isCountedSemanticEvent e" if "payload e = GoalContextChanged p n" for p n
    using that by (simp add: isCountedSemanticEvent.simps)
  have append: "snapshot_inv cfg ((receipt cfg sn e)\<lparr>openWindow := map_option (\<lambda>ow. append_event ow e) (openWindow sn)\<rparr>)"
    if "\<not> isCountedSemanticEvent e"
    using snapshot_inv_append [OF sn _ that assms(3)] snapshot_inv_receipt [OF sn, of e]
    by (cases "openWindow sn") (simp_all add: snapshot_inv_def)
  have rest: "wp (if event_goalVersion e \<noteq> v then throw (GoalVersionMismatch (event_goalVersion e) v)
      else if isPresenceFlushBoundary e
      then (case openWindow sn of
              Some ow \<Rightarrow> if occurredAtMs e < ow_startedAtMs ow
                then andThen (saveSnapshot repo (receipt cfg sn e)) (\<lambda>_. ret None)
                else handlePresenceBoundary repo cfg e
            | None \<Rightarrow> handlePresenceBoundary repo cfg e)
      else if \<not> isCountedSemanticEvent e
      then andThen (saveSnapshot repo ((receipt cfg sn e)\<lparr>
             openWindow := map_option (\<lambda>ow. append_event ow e) (openWindow sn)\<rparr>)) (\<lambda>_. ret None)
      else ingestCounted repo cfg e) (\<lambda>_. quiet_step cfg s) s" for v
    using refl assms(3) snapshot_inv_receipt [OF sn, of e] append counted_not_presence [of e]
    by (auto simp: wp_simps same_evidence_def split: option.splits intro!: wp_save_case [OF assms(1,2)]
        quiet_handlePresenceBoundary [OF assms(1,2)] quiet_ingestCounted [OF assms(1,2)] assms(4))
  note boundary = quiet_handleGoalBoundary [OF assms(1,2) goal assms(3)]
  show ?thesis
    unfolding ingestCurrent_def wp_andThen wp_requireSnapshot assms(2) option.case sum.case Let_def
    by (cases "payload e") (simp_all only: DesktopEventPayload.case rest boundary)
qed

text \<open>Events that do not change the authorizations.\<close>

definition is_authorization :: "DesktopEvent \<Rightarrow> bool" where
  "is_authorization e \<longleftrightarrow> (\<exists>ps. payload e = AuthorizationRevoked ps \<or> payload e = AuthorizationGranted ps)"

lemma not_split_count:
  assumes "\<not> count_split cfg ow e" and "isCountedSemanticEvent e"
  shows "finalizedSemanticEventCount ow < cfg_threshold cfg"
  using assms counted_not_presence [of e]
  by (auto simp: count_split_def isCounted_iff_kind counted_kinds_def)

lemma quiet_ingest_body:
  assumes "coll_inv cfg s" and "coll_snapshot s = Some sn" and "\<not> is_authorization e"
    and again: "\<And>t. coll_inv cfg t \<Longrightarrow> coll_snapshot t \<noteq> None \<Longrightarrow> wp again (\<lambda>_. quiet_step cfg t) t"
  shows "wp (ingest_body repo cfg again e) (\<lambda>_. quiet_step cfg s) s"
proof -
  have sn: "snapshot_inv cfg sn" using assms(1,2) by (rule coll_invD)
  have refl: "quiet_step cfg s s" by (rule quiet_refl [OF assms(1,2)])
  have next_call: "wp (andThen again (\<lambda>_. ret (Some w))) (\<lambda>_. quiet_step cfg s) t"
    if "quiet_step cfg s t" for t w
    unfolding wp_andThen
  proof (rule wp_consequence [OF again])
    show "coll_inv cfg t" "coll_snapshot t \<noteq> None" using that by (simp_all add: quiet_step_def)
  qed (use quiet_step_trans [OF that] in \<open>auto simp: wp_simps split: sum.splits\<close>)
  have seal: "wp (sealCountReady repo cfg ow) (\<lambda>res t. case res of Inl e \<Rightarrow> quiet_step cfg s t
      | Inr w \<Rightarrow> wp (andThen again (\<lambda>_. ret (Some w))) (\<lambda>_. quiet_step cfg s) t) s"
    "wp (sealOpenWindow repo cfg max_wait d) (\<lambda>res t. case res of Inl e \<Rightarrow> quiet_step cfg s t
      | Inr w \<Rightarrow> wp (andThen again (\<lambda>_. ret (Some w))) (\<lambda>_. quiet_step cfg s) t) s" for ow d
    by (auto intro!: wp_sealCountReady [OF assms(1,2)] wp_sealOpenWindow [OF assms(1,2)] next_call
        split: sum.splits)
  have rest: "wp (if isBlockedByRevocation e (revokedPermissions sn)
      then andThen (saveSnapshot repo (receipt cfg sn e)) (\<lambda>_. ret None)
      else case openWindow sn of
           None \<Rightarrow> ingestCurrent repo cfg e
         | Some ow \<Rightarrow>
             if isPresenceFlushBoundary e \<and>
                (case latestEventTime ow of None \<Rightarrow> False | Some t \<Rightarrow> occurredAtMs e < t)
             then handleRetroactivePresenceBoundary repo cfg e
             else if count_split cfg ow e
             then andThen (sealCountReady repo cfg ow) (\<lambda>sealed. andThen again (\<lambda>_. ret (Some sealed)))
             else if ow_deadlineAtMs ow < occurredAtMs e
             then andThen (sealOpenWindow repo cfg max_wait (ow_deadlineAtMs ow)) (\<lambda>overdue.
                    andThen again (\<lambda>_. ret (Some overdue)))
             else ingestCurrent repo cfg e) (\<lambda>_. quiet_step cfg s) s"
    using refl snapshot_inv_receipt [OF sn, of e] counted_not_presence [of e] seal
    by (auto simp: wp_andThen [of "saveSnapshot _ _"] wp_andThen [of "sealCountReady _ _ _"]
        wp_andThen [of "sealOpenWindow _ _ _ _"] wp_ret same_evidence_def split: option.splits
        intro!: wp_save_case [OF assms(1,2)] quiet_handlePresenceBoundary [OF assms(1,2)]
          quiet_ingestCurrent [OF assms(1,2)] not_split_count)
  have dup: "wp (ret None) (\<lambda>_. quiet_step cfg s) s" using refl by (simp add: wp_ret)
  show ?thesis
    unfolding ingest_body_def wp_andThen wp_requireSnapshot assms(2) option.case sum.case wp_if
    using assms(3) by (cases "payload e") (simp_all only: DesktopEventPayload.case rest dup if_True if_False
        is_authorization_def split: if_split, auto)
qed

lemma quiet_ingestSerialized:
  assumes "coll_inv cfg s" and "coll_snapshot s \<noteq> None" and "\<not> is_authorization e"
  shows "wp (ingestSerialized n repo cfg e) (\<lambda>_. quiet_step cfg s) s"
  using assms
proof (induction n arbitrary: s)
  case 0
  then show ?case by (auto simp: wp_simps quiet_refl)
next
  case (Suc n)
  then show ?case by (auto intro!: quiet_ingest_body)
qed

text \<open>The other ways to seal.\<close>

lemma quiet_flush:
  assumes "coll_inv cfg s" and "coll_snapshot s = Some sn"
  shows "wp (flushDue repo cfg) (\<lambda>_. quiet_step cfg s) s"
    and "wp (flushCountDue repo cfg) (\<lambda>_. quiet_step cfg s) s"
    and "wp (deadlineOperation repo cfg) (\<lambda>_. quiet_step cfg s) s"
    and "wp (resumeDeadlines repo cfg) (\<lambda>_. quiet_step cfg s) s"
    and "wp (resumeRecovered repo cfg) (\<lambda>_. quiet_step cfg s) s"
proof -
  have refl: "quiet_step cfg s s" by (rule quiet_refl [OF assms])
  have same: "quiet_step cfg s t" if "same_evidence s t" for t
    using refl that by (rule quiet_step_same_right)
  have left: "quiet_step cfg s u" if "same_evidence s t" "quiet_step cfg t u" for t u
    using that by (rule quiet_step_same_left)
  have inv: "coll_inv cfg t" "coll_snapshot t = Some sn" if "same_evidence s t" for t
    using that assms coll_inv_same by (auto simp: same_evidence_def)
  have seal: "wp (sealOpenWindow repo cfg reason d) Q t" "wp (sealCountReady repo cfg ow) Q t"
    if "same_evidence s t" "\<And>res u. quiet_step cfg s u \<Longrightarrow> Q res u" for reason d t ow Q
    using wp_sealOpenWindow [OF inv [OF that(1)]] wp_sealCountReady [OF inv [OF that(1)]] left [OF that(1)] that(2)
    by blast+
  note rules = refl same seal quiet_arm [OF same]
  show "wp (flushDue repo cfg) (\<lambda>_. quiet_step cfg s) s"
    "wp (flushCountDue repo cfg) (\<lambda>_. quiet_step cfg s) s"
    "wp (deadlineOperation repo cfg) (\<lambda>_. quiet_step cfg s) s"
    "wp (resumeDeadlines repo cfg) (\<lambda>_. quiet_step cfg s) s"
    "wp (resumeRecovered repo cfg) (\<lambda>_. quiet_step cfg s) s"
    using assms(2)
    by (auto simp: flushDue_def flushCountDue_def deadlineOperation_def resumeDeadlines_def
        resumeRecovered_def wp_simps same_evidence_def split: option.splits intro!: rules split: sum.split)
qed

end

subsection \<open>Authorization, ownership and recovery\<close>

lemma snapshot_inv_revoked:
  assumes "snapshot_inv cfg sn" and "mergePermissions (revokedPermissions sn) ps = Inr merged"
  shows "snapshot_inv cfg ((receipt cfg sn e)\<lparr>sn_state := ACTIVE_EMPTY, openWindow := None,
    contextCandidates := [], revokedPermissions := merged\<rparr>)"
  using snapshot_inv_receipt [OF assms(1), of e] mergePermissions_InrD [OF assms(2)]
  by (simp add: snapshot_inv_def)

lemma snapshot_inv_granted:
  assumes "snapshot_inv cfg sn" and "removePermissions (revokedPermissions sn) ps = Inr remaining"
  shows "snapshot_inv cfg ((receipt cfg sn e)\<lparr>revokedPermissions := remaining\<rparr>)"
proof -
  have "permission_list remaining" and sub: "set remaining \<subseteq> set (revokedPermissions sn)"
    using removePermissions_InrD [OF assms(2)] by (auto split: if_splits)
  then show ?thesis
    using snapshot_inv_receipt [OF assms(1), of e] unblocked_antimono [OF sub]
    by (auto simp: snapshot_inv_def open_window_inv_def)
qed

lemma snapshot_inv_cutover:
  assumes "snapshot_inv cfg sn" and "normalizeCloudOwnerAccountId account = Inr a"
    and "epoch (cloudOwnerEpoch sn) < MAX_SAFE_INTEGER"
  shows "snapshot_inv cfg (sn\<lparr>sn_state := ACTIVE_EMPTY,
    cloudOwnerEpoch := \<lparr>epoch = epoch (cloudOwnerEpoch sn) + 1, accountId = a\<rparr>,
    openWindow := None, contextCandidates := []\<rparr>)"
proof -
  have "normalizeCloudOwnerAccountId a = Inr a"
    using assms(2) by (auto simp: normalizeCloudOwnerAccountId_def split: option.splits if_splits)
  then show ?thesis using assms by (simp add: snapshot_inv_def valid_epoch_def)
qed

lemma event_goal_revision_mono: "acc \<le> foldl event_goal_revision acc es"
proof (induction es arbitrary: acc)
  case (Cons e es)
  have "acc \<le> event_goal_revision acc e" by (auto simp: Let_def split: DesktopEventPayload.splits)
  also have "\<dots> \<le> foldl event_goal_revision (event_goal_revision acc e) es" by (rule Cons.IH)
  finally show ?case by (simp del: event_goal_revision.simps)
qed simp

lemma normalizeGoalRevision_ge:
  assumes "\<And>g. activeGoal sn = Some g \<Longrightarrow> goal_version g \<le> goalRevision sn" and "activeGoal sn = Some g"
  shows "goal_version g \<le> normalizeGoalRevision (as_recovered sn)"
proof -
  let ?base = "max (goal_version g) (case openWindow sn of None \<Rightarrow> 0
    | Some ow \<Rightarrow> (case ow_goalVersion ow of None \<Rightarrow> 0 | Some v \<Rightarrow> v))"
  have "goal_version g \<le> foldl event_goal_revision ?base es" for es
    using event_goal_revision_mono [of ?base es] by linarith
  then show ?thesis
    using assms by (simp add: normalizeGoalRevision_def as_recovered_def Let_def del: foldl_append)
qed

lemma valid_epoch_normalized: "valid_epoch p \<Longrightarrow> normalizeRecoveredCloudOwnerEpoch (Some p) = Some p"
  by (simp add: valid_epoch_def normalizeRecoveredCloudOwnerEpoch_def)

lemma normalizeRecovered_own:
  assumes "snapshot_inv cfg st"
  shows "normalizeRecoveredSnapshot (as_recovered st) =
    (if length (revokedPermissions st) \<le> 32
     then Inr (st\<lparr>goalRevision := normalizeGoalRevision (as_recovered st)\<rparr>, False)
     else Inl (InvalidPermissions ''revokedPermissions''))"
proof -
  let ?f = "''revokedPermissions''"
  have perm: "normalizePermissions (revokedPermissions st) ?f True =
      (if length (revokedPermissions st) \<le> 32 then Inr (revokedPermissions st) else Inl (InvalidPermissions ?f))"
    using assms normalizePermissions_id by (simp add: snapshot_inv_def normalizePermissions_def [of _ _ True])
  have owner: "normalizeRecoveredCloudOwnerEpoch (raw_cloudOwnerEpoch (as_recovered st)) = Some (cloudOwnerEpoch st)"
    using assms valid_epoch_normalized by (simp add: as_recovered_def snapshot_inv_def)
  have opened: "normalizeRecoveredCloudOwnerEpoch (raw_openCloudOwnerEpoch (as_recovered st)) = Some (cloudOwnerEpoch st)"
    "ow_cloudOwnerEpoch ow = cloudOwnerEpoch st" if "openWindow st = Some ow" for ow
    using that assms valid_epoch_normalized by (simp_all add: as_recovered_def snapshot_inv_def open_window_inv_def)
  have raw: "raw_snapshot (as_recovered st) = st" "raw_revokedPermissions (as_recovered st) = Some (revokedPermissions st)"
    by (simp_all add: as_recovered_def)
  show ?thesis
  proof (cases "openWindow st")
    case None
    then show ?thesis by (simp add: normalizeRecoveredSnapshot_def owner raw perm Let_def)
  next
    case (Some ow)
    then have "ow\<lparr>ow_cloudOwnerEpoch := cloudOwnerEpoch st\<rparr> = ow" using opened(2) by simp
    with Some show ?thesis
      by (simp add: normalizeRecoveredSnapshot_def owner opened(1) raw perm Let_def sameCloudOwnerEpoch_def)
  qed
qed

lemma snapshot_inv_renormalized:
  assumes "snapshot_inv cfg st"
  shows "snapshot_inv cfg (st\<lparr>goalRevision := normalizeGoalRevision (as_recovered st)\<rparr>)"
  using assms normalizeGoalRevision_ge [of st]
  by (simp add: snapshot_inv_def open_window_inv_cong [of "st\<lparr>goalRevision := _\<rparr>" st])

lemma snapshot_inv_initial: "snapshot_inv cfg (initial_snapshot cfg now)"
  by (auto simp: snapshot_inv_def initial_snapshot_def valid_epoch_def normalizeCloudOwnerAccountId_def
      MAX_SAFE_INTEGER_def)

context collector_store
begin

lemma wp_recoverSnapshot:
  assumes "coll_inv cfg s"
    and "\<And>e t. same_evidence s t \<Longrightarrow> Q (Inl e) t"
    and "\<And>sn t. coll_inv cfg t \<Longrightarrow> coll_snapshot t = Some sn \<Longrightarrow>
      held (coll_repository t) = held (coll_repository s) \<Longrightarrow> deadlinesDeferred t = deadlinesDeferred s \<Longrightarrow>
      (\<And>st. stored (coll_repository s) (cfg_collectorId cfg) = Some st \<Longrightarrow> length (revokedPermissions st) \<le> 32 \<and>
         coll_repository t = coll_repository s \<and>
         sn = st\<lparr>goalRevision := normalizeGoalRevision (as_recovered st)\<rparr>) \<Longrightarrow> Q (Inr ()) t"
  shows "wp (recoverSnapshot repo cfg) Q s"
proof (cases "stored (coll_repository s) (cfg_collectorId cfg)")
  case None
  define new where "new = initial_snapshot cfg (coll_clock s (coll_ticks s))"
  have cid: "collectorId new = cfg_collectorId cfg" by (simp add: new_def initial_snapshot_def)
  have inv: "snapshot_inv cfg new" unfolding new_def by (rule snapshot_inv_initial)
  obtain r' where r': "saveCollector_of repo new None (coll_repository s) = (Inr new, r')"
    "stored r' = (stored (coll_repository s))(collectorId new \<mapsto> new)" "held r' = held (coll_repository s)"
    using save_ok [of "coll_repository s" new None] None cid by auto
  show ?thesis
    using None r' inv cid assms(1)
    by (auto simp: recoverSnapshot_def wp_simps wp_def [of "awaitStore _"] awaitStore_def load new_def
        coll_inv_def intro!: assms(3))
next
  case (Some st)
  have st: "snapshot_inv cfg st" using assms(1) Some by (simp add: coll_inv_def)
  have ids: "collectorId st = cfg_collectorId cfg" "sn_deviceId st = cfg_deviceId cfg"
    "sn_sessionId st = cfg_sessionId cfg" using st by (simp_all add: snapshot_inv_def)
  let ?sn = "st\<lparr>goalRevision := normalizeGoalRevision (as_recovered st)\<rparr>"
  have inv: "coll_inv cfg (s\<lparr>coll_snapshot := Some ?sn\<rparr>)"
    using assms(1) Some snapshot_inv_renormalized [OF st] by (simp add: coll_inv_def in_step_def)
  have raw: "raw_snapshot (as_recovered st) = st" by (simp add: as_recovered_def)
  show ?thesis
    using Some ids inv
    by (auto simp: recoverSnapshot_def wp_simps wp_def [of "awaitStore _"] awaitStore_def load raw
        normalizeRecovered_own [OF st] same_evidence_def intro!: assms(2,3))
qed

text \<open>The invariant and the shape of new windows, for every command.\<close>

definition step_ok :: "collector_config \<Rightarrow> 'r collector \<Rightarrow> 'r collector \<Rightarrow> bool" where
  "step_ok cfg s t \<longleftrightarrow> coll_inv cfg t \<and> new_windows_good cfg s t"

lemma step_ok_quiet: "quiet_step cfg s t \<Longrightarrow> step_ok cfg s t"
  by (simp add: quiet_step_def step_ok_def)

lemma step_ok_same: "coll_inv cfg s \<Longrightarrow> same_evidence s t \<Longrightarrow> step_ok cfg s t"
  by (simp add: step_ok_def coll_inv_same new_windows_good_def same_evidence_def)

lemma step_ok_held:
  "coll_inv cfg t \<Longrightarrow> held (coll_repository t) = held (coll_repository s) \<Longrightarrow> step_ok cfg s t"
  by (simp add: step_ok_def new_windows_good_def)

lemma step_ok_after_held:
  "quiet_step cfg t u \<Longrightarrow> held (coll_repository t) = held (coll_repository s) \<Longrightarrow> step_ok cfg s u"
  unfolding quiet_step_def step_ok_def new_windows_good_def by metis

lemma step_ok_recover:
  assumes "coll_inv cfg s"
  shows "wp (recover repo cfg d) (\<lambda>_. step_ok cfg s) s"
proof -
  let ?s = "s\<lparr>coll_timer := None, runtimeState := RECOVERING, deadlinesDeferred := d\<rparr>"
  have s: "coll_inv cfg ?s" "same_evidence s ?s"
    using assms by (auto intro!: coll_inv_same [OF assms] simp: same_evidence_def)
  have tail: "wp (resumeRecovered repo cfg) (\<lambda>_. step_ok cfg s) t"
    if t: "coll_inv cfg t" "coll_snapshot t = Some sn" "held (coll_repository t) = held (coll_repository ?s)" for t sn
    by (rule wp_consequence [OF quiet_flush(5) [OF t(1,2)]])
      (use t(3) s(2) in \<open>simp add: step_ok_after_held same_evidence_def\<close>)
  show ?thesis
    unfolding recover_def wp_andThen wp_cancelTimer wp_modifyS sum.case
    by (rule wp_recoverSnapshot)
      (use s tail in \<open>auto simp: same_evidence_def intro!: step_ok_same [OF assms]\<close>)
qed

lemma step_ok_authorization:
  assumes "coll_inv cfg s" and "coll_snapshot s = Some sn"
  shows "wp (revokeAuthorization repo cfg e ps) (\<lambda>_. step_ok cfg s) s"
    and "wp (grantAuthorization repo cfg e ps) (\<lambda>_. step_ok cfg s) s"
proof -
  have sn: "snapshot_inv cfg sn" using assms by (rule coll_invD)
  have inv: "coll_inv cfg (s\<lparr>coll_timer := None\<rparr>)"
    using assms(1) by (rule coll_inv_same) (simp add: same_evidence_def)
  have final: "coll_inv cfg (t\<lparr>runtimeState := x\<rparr>)" if "coll_inv cfg t" for t x
    using that by (rule coll_inv_same) (simp add: same_evidence_def)
  have same: "step_ok cfg s s" "step_ok cfg s (s\<lparr>coll_timer := None\<rparr>)"
    by (rule step_ok_same [OF assms(1)], simp add: same_evidence_def)+
  show "wp (revokeAuthorization repo cfg e ps) (\<lambda>_. step_ok cfg s) s"
    "wp (grantAuthorization repo cfg e ps) (\<lambda>_. step_ok cfg s) s"
    using assms(2) sn same
    by (auto simp: revokeAuthorization_def grantAuthorization_def wp_simps
        split: sum.splits intro!: step_ok_held final
          wp_saveSnapshot [OF inv] wp_saveSnapshot [OF assms(1)] snapshot_inv_revoked snapshot_inv_granted)
qed

lemma step_ok_cutover:
  assumes "coll_inv cfg s"
  shows "wp (cutoverCloudOwner repo account) (\<lambda>_. step_ok cfg s) s"
proof (cases "coll_snapshot s")
  case (Some sn)
  have sn: "snapshot_inv cfg sn" using assms Some by (rule coll_invD)
  have inv: "coll_inv cfg (s\<lparr>coll_timer := None\<rparr>)"
    using assms(1) by (rule coll_inv_same) (simp add: same_evidence_def)
  have final: "coll_inv cfg (t\<lparr>runtimeState := x\<rparr>)" if "coll_inv cfg t" for t x
    using that by (rule coll_inv_same) (simp add: same_evidence_def)
  have same: "step_ok cfg s s" "step_ok cfg s (s\<lparr>coll_timer := None\<rparr>)"
    by (rule step_ok_same [OF assms(1)], simp add: same_evidence_def)+
  show ?thesis
    using Some sn same
    by (auto simp: cutoverCloudOwner_def wp_simps split: sum.splits
        intro!: step_ok_held final wp_saveSnapshot [OF inv] snapshot_inv_cutover)
qed (auto simp: cutoverCloudOwner_def wp_simps same_evidence_def split: sum.splits
    intro!: step_ok_same [OF assms])

lemma step_ok_ingest:
  assumes "coll_inv cfg s"
  shows "wp (ingest repo cfg e) (\<lambda>_. step_ok cfg s) s"
proof (cases "coll_snapshot s")
  case None
  then show ?thesis
    using step_ok_same [OF assms, of s]
    by (simp add: ingest_def numeral_2_eq_2 ingest_body_def wp_simps same_evidence_def)
next
  case (Some sn)
  show ?thesis
  proof (cases "is_authorization e")
    case True
    then obtain ps where "payload e = AuthorizationRevoked ps \<or> payload e = AuthorizationGranted ps"
      by (auto simp: is_authorization_def)
    then show ?thesis
      using Some step_ok_authorization [OF assms Some] step_ok_same [OF assms, of s]
      by (auto simp: ingest_def numeral_2_eq_2 ingest_body_def wp_andThen [of requireSnapshot]
          wp_requireSnapshot wp_ret same_evidence_def)
  next
    case False
    show ?thesis unfolding ingest_def
      by (rule wp_consequence [OF quiet_ingestSerialized [OF assms]]) (use Some False step_ok_quiet in auto)
  qed
qed

lemma step_ok_flush:
  assumes "coll_inv cfg s"
  shows "wp (flushDue repo cfg) (\<lambda>_. step_ok cfg s) s" "wp (flushCountDue repo cfg) (\<lambda>_. step_ok cfg s) s"
    "wp (deadlineOperation repo cfg) (\<lambda>_. step_ok cfg s) s" "wp (resumeDeadlines repo cfg) (\<lambda>_. step_ok cfg s) s"
proof -
  have same: "step_ok cfg s s" "step_ok cfg s (s\<lparr>deadlinesDeferred := False\<rparr>)"
    by (rule step_ok_same [OF assms], simp add: same_evidence_def)+
  have "wp (flushDue repo cfg) (\<lambda>_. step_ok cfg s) s \<and> wp (flushCountDue repo cfg) (\<lambda>_. step_ok cfg s) s \<and>
    wp (deadlineOperation repo cfg) (\<lambda>_. step_ok cfg s) s \<and> wp (resumeDeadlines repo cfg) (\<lambda>_. step_ok cfg s) s"
  proof (cases "coll_snapshot s")
    case None
    with same show ?thesis
      by (simp add: flushDue_def flushCountDue_def deadlineOperation_def resumeDeadlines_def wp_simps)
  next
    case (Some sn)
    show ?thesis using quiet_flush [OF assms Some] step_ok_quiet by (blast intro: wp_consequence)
  qed
  then show "wp (flushDue repo cfg) (\<lambda>_. step_ok cfg s) s" "wp (flushCountDue repo cfg) (\<lambda>_. step_ok cfg s) s"
    "wp (deadlineOperation repo cfg) (\<lambda>_. step_ok cfg s) s" "wp (resumeDeadlines repo cfg) (\<lambda>_. step_ok cfg s) s"
    by blast+
qed

lemma wp_discard: "wp m (\<lambda>_. P) s \<Longrightarrow> wp (andThen m (\<lambda>_. ret x)) (\<lambda>_. P) s"
  unfolding wp_andThen wp_ret by (erule wp_consequence) (simp split: sum.split)

lemma step_ok_exec:
  assumes "coll_inv cfg s"
  shows "step_ok cfg s (snd (collector_exec repo cfg c s))"
proof (rule wp_snd)
  have timer: "wp (fireTimer cfg) (\<lambda>_. step_ok cfg s) s" "wp dispose (\<lambda>_. step_ok cfg s) s"
    by (auto simp: wp_def fireTimer_def dispose_def modifyS_def same_evidence_def
        intro!: step_ok_same [OF assms] split: option.splits)
  show "wp (collector_exec repo cfg c) (\<lambda>_. step_ok cfg s) s"
    by (cases c) (use step_ok_flush [OF assms] in \<open>auto intro!: wp_discard step_ok_recover [OF assms]
        step_ok_ingest [OF assms] step_ok_cutover [OF assms] timer\<close>)
qed

lemma coll_inv_run: "coll_inv cfg s \<Longrightarrow> coll_inv cfg (collector_run repo cfg cs s)"
  by (induction cs arbitrary: s) (use step_ok_exec in \<open>auto simp: step_ok_def\<close>)

lemma coll_inv_new:
  assumes "ReflectionCollector cfg r clock = Inr s"
    and "\<And>st. stored r (cfg_collectorId cfg) = Some st \<Longrightarrow> snapshot_inv cfg st"
  shows "coll_inv cfg s"
  using assms by (auto simp: ReflectionCollector_def coll_inv_def split: if_splits)

end

subsection \<open>The collector over the in-memory repository\<close>

text \<open>A collector that was constructed over a repository whose snapshot of it, if any, is well formed.\<close>

definition fresh_collector ::
  "collector_config \<Rightarrow> InMemoryReflectionRepository \<Rightarrow> InMemoryReflectionRepository collector \<Rightarrow> bool" where
  "fresh_collector cfg r s \<longleftrightarrow> (\<exists>clock. ReflectionCollector cfg r clock = Inr s) \<and>
     (case jget (collectors r) (cfg_collectorId cfg) of None \<Rightarrow> True | Some st \<Rightarrow> snapshot_inv cfg st)"

lemma fresh_collector_inv: "fresh_collector cfg r s \<Longrightarrow> mem_store.coll_inv cfg (collector_run in_memory_collectors cfg cs s)"
  by (rule mem_store.coll_inv_run)
    (auto simp: fresh_collector_def intro: mem_store.coll_inv_new split: option.splits)

text \<open>C1: The collector's invariant holds after every sequence of operations (recovery, events,
  deadlines, flushes, ownership changes, timer callbacks), failed ones included: the snapshot in
  memory and its durable copy are well formed and in step, so the next save never meets a revision
  conflict. Well formed means in particular that the open window's count is the number of its
  counted events and never exceeds the threshold, that it belongs to the current owner epoch and
  the active goal, that no event in it or in the context needs a revoked permission, and that the
  list of recent event ids is bounded.\<close>

theorem collector_reachable_inv:
  assumes "fresh_collector cfg r s" and "t = collector_run in_memory_collectors cfg cs s"
    and "coll_snapshot t = Some sn"
  shows "snapshot_inv cfg sn \<and>
    (\<exists>st. jget (collectors (coll_repository t)) (cfg_collectorId cfg) = Some st \<and>
       snapshot_inv cfg st \<and> in_step st sn)"
  using fresh_collector_inv [OF assms(1), of cs] assms(2,3) by (auto simp: mem_store.coll_inv_def)

text \<open>C11: Every window the collector adds to the repository is well formed, whichever operation seals
  it: its event count is the number of its counted events and lies between one and the threshold,
  its goal version is the version of its goal, it does not end before it starts, and neither its
  events nor its context contains an event whose permission is revoked.\<close>

theorem collector_seals_good_windows:
  assumes "fresh_collector cfg r s" and "t = collector_run in_memory_collectors cfg cs s"
    and "u = snd (collector_exec in_memory_collectors cfg c t)"
    and "jget (windows (coll_repository u)) wid = Some w"
    and "jget (windows (coll_repository t)) wid \<noteq> Some w"
  shows "good_window cfg (revoked_of u) w"
  using mem_store.step_ok_exec [OF fresh_collector_inv [OF assms(1)], of cs c] assms(2-5)
  by (auto simp: mem_store.step_ok_def mem_store.new_windows_good_def)

end
