(* ===== verification/CollectorBehaviour.thy ===== *)
theory CollectorBehaviour
  imports CollectorCorrect
begin

text \<open>
  What the single operations of the collector do: recovery after a restart, revocation, ownership
  cutover, duplicates, and the depth of the recursion of \<open>ingestSerialized\<close>.
\<close>

lemma wp_trivial: "(\<And>res t. Q res t) \<Longrightarrow> wp m Q s"
  by (auto simp: wp_def split: prod.splits)

subsection \<open>Recorded events\<close>

definition recorded :: "DesktopEvent \<Rightarrow> 'r collector \<Rightarrow> bool" where
  "recorded e s \<longleftrightarrow> (case coll_snapshot s of None \<Rightarrow> False | Some sn \<Rightarrow> eventId e \<in> set (recentEventIds sn))"

lemma recorded_receipt: "eventId e \<in> set (withRecentEventId cfg sn (eventId e))"
  by (simp add: withRecentEventId_def last_in_slice_last)

lemma wp_armDeadline_recorded:
  "recorded e s \<Longrightarrow> (\<And>t. recorded e t \<Longrightarrow> Q (Inr ()) t) \<Longrightarrow> wp (armDeadline d) Q s"
  by (rule wp_armDeadline) (simp add: recorded_def same_evidence_def)

text \<open>A result that carries a window is no claim about the event.\<close>

definition none_recorded :: "DesktopEvent \<Rightarrow> 'e + EventWindow option \<Rightarrow> 'r collector \<Rightarrow> bool" where
  "none_recorded e res t \<longleftrightarrow> (res = Inr None \<longrightarrow> recorded e t)"

lemma none_recorded_simps [simp]:
  "none_recorded e (Inl x) t" "none_recorded e (Inr (Some w)) t"
  "none_recorded e (Inr None) t = recorded e t"
  by (simp_all add: none_recorded_def)

lemma wp_seal_none:
  "wp (andThen (sealCandidate repo cfg candidate reason d g) (\<lambda>w. ret (Some w))) (none_recorded e) s"
  unfolding wp_andThen by (rule wp_trivial) (simp add: wp_simps split: sum.split)

lemma wp_again_none:
  "wp (andThen m (\<lambda>w. andThen again (\<lambda>_. ret (Some w)))) (none_recorded e) s"
  unfolding wp_andThen by (rule wp_trivial) (auto simp: wp_simps intro!: wp_trivial split: sum.split)

context collector_store
begin

lemma wp_save_recorded:
  assumes "coll_inv cfg s" and "coll_snapshot s = Some cur" and "snapshot_inv cfg candidate"
    and "eventId e \<in> set (recentEventIds candidate)"
    and "\<And>x t. recorded e t \<Longrightarrow> Q (Inr x) t"
  shows "wp (saveSnapshot repo candidate) Q s"
  by (rule wp_saveSnapshot [OF assms(1-3)], rule assms(5)) (use assms(4) in \<open>simp add: recorded_def\<close>)

lemma recorded_save_none:
  assumes "coll_inv cfg s" and "coll_snapshot s = Some cur" and "snapshot_inv cfg candidate"
    and "eventId e \<in> set (recentEventIds candidate)"
  shows "wp (andThen (saveSnapshot repo candidate) (\<lambda>_. ret None)) (none_recorded e) s"
  unfolding wp_andThen by (rule wp_save_recorded [OF assms]) (simp add: wp_simps)

lemma recorded_handlers:
  assumes "coll_inv cfg s" and "coll_snapshot s = Some sn" and "\<not> isCountedSemanticEvent e"
    and "\<not> isBlockedByRevocation e (revokedPermissions sn)"
  shows "wp (handleGoalBoundary repo cfg e prior nextGoal) (none_recorded e) s"
    and "wp (handlePresenceBoundary repo cfg e) (none_recorded e) s"
    and "openWindow sn \<noteq> None \<Longrightarrow> wp (handleRetroactivePresenceBoundary repo cfg e) (none_recorded e) s"
proof -
  have sn: "snapshot_inv cfg sn" using assms(1,2) by (rule coll_invD)
  note rules = wp_seal_none recorded_save_none [OF assms(1,2)] snapshot_inv_new_goal snapshot_inv_receipt [OF sn]
  show "wp (handleGoalBoundary repo cfg e prior nextGoal) (none_recorded e) s"
    "wp (handlePresenceBoundary repo cfg e) (none_recorded e) s"
    "openWindow sn \<noteq> None \<Longrightarrow> wp (handleRetroactivePresenceBoundary repo cfg e) (none_recorded e) s"
    using assms(2) recorded_receipt [of e cfg sn]
    by (auto simp: handleGoalBoundary_def handlePresenceBoundary_def handleRetroactivePresenceBoundary_def
        wp_andThen [of requireSnapshot] wp_requireSnapshot wp_throw wp_ret Let_def split: option.splits intro!: rules)
qed

lemma recorded_ingestCounted:
  assumes "coll_inv cfg s" and "coll_snapshot s = Some sn" and "isCountedSemanticEvent e"
    and "\<not> isBlockedByRevocation e (revokedPermissions sn)"
    and "\<And>ow. openWindow sn = Some ow \<Longrightarrow> finalizedSemanticEventCount ow < cfg_threshold cfg"
  shows "wp (ingestCounted repo cfg e) (none_recorded e) s"
proof -
  have sn: "snapshot_inv cfg sn" using assms(1,2) by (rule coll_invD)
  have pos: "0 < cfg_threshold cfg" using assms(1) by (simp add: coll_inv_def)
  define ow where "ow = (case openWindow sn of Some current \<Rightarrow> appendCountedEvent current e
     | None \<Rightarrow> startOpenWindow e (activeGoal sn) (cfg_maxWaitMs cfg) (cloudOwnerEpoch sn))"
  define candidate where
    "candidate = (receipt cfg sn e)\<lparr>sn_state := ACTIVE_COLLECTING, openWindow := Some ow\<rparr>"
  have c: "snapshot_inv cfg candidate" "eventId e \<in> set (recentEventIds candidate)"
    using snapshot_inv_counted [OF sn assms(3,4) pos assms(5)] recorded_receipt [of e cfg sn]
    by (simp_all add: candidate_def ow_def)
  have inv: "coll_inv cfg (s\<lparr>runtimeState := x\<rparr>)" "coll_inv cfg (s\<lparr>runtimeState := x, coll_timer := y\<rparr>)" for x y
    using assms(1) by (auto intro!: coll_inv_same [of cfg s] simp: same_evidence_def)
  have log: "recorded e (t\<lparr>countReadyCalls := z\<rparr>)" if "recorded e t" for t :: "'r collector" and z
    using that by (simp add: recorded_def)
  show ?thesis
    using assms(2)
    by (auto simp: ingestCounted_def wp_andThen [of requireSnapshot] wp_andThen [of cancelTimer]
        wp_andThen [of "setRuntimeState _"] wp_andThen [of "saveSnapshot _ _"] wp_andThen [of "modifyS _"]
        wp_andThen [of "armDeadline _"] wp_requireSnapshot wp_cancelTimer wp_setRuntimeState wp_modifyS wp_ret
        wp_state_if ow_def [symmetric] candidate_def [symmetric] Let_def
        intro!: wp_seal_none wp_save_recorded [OF inv(1) _ c] wp_save_recorded [OF inv(2) _ c]
          wp_armDeadline_recorded log)
qed

lemma recorded_ingestCurrent:
  assumes "coll_inv cfg s" and "coll_snapshot s = Some sn"
    and "\<not> isBlockedByRevocation e (revokedPermissions sn)"
    and "\<And>ow. openWindow sn = Some ow \<Longrightarrow> isCountedSemanticEvent e \<Longrightarrow>
      finalizedSemanticEventCount ow < cfg_threshold cfg"
  shows "wp (ingestCurrent repo cfg e) (none_recorded e) s"
proof -
  have sn: "snapshot_inv cfg sn" using assms(1,2) by (rule coll_invD)
  have goal: "\<not> isCountedSemanticEvent e" if "payload e = GoalContextChanged p n" for p n
    using that by (simp add: isCountedSemanticEvent.simps)
  have append: "snapshot_inv cfg ((receipt cfg sn e)\<lparr>openWindow := map_option (\<lambda>ow. append_event ow e) (openWindow sn)\<rparr>)"
    if "\<not> isCountedSemanticEvent e"
    using snapshot_inv_append [OF sn _ that assms(3)] snapshot_inv_receipt [OF sn, of e]
    by (cases "openWindow sn") (simp_all add: snapshot_inv_def)
  have rest: "wp (if event_goalVersion e \<noteq> v then throw (GoalVersionMismatch (event_goalVersion e) v)
      else if isPresenceFlushBoundary e
      then (case openWindow sn of
              Some ow \<Rightarrow> if occurredAtMs e < ow_startedAtMs ow
                then andThen (saveSnapshot repo (receipt cfg sn e)) (\<lambda>_. ret None)
                else handlePresenceBoundary repo cfg e
            | None \<Rightarrow> handlePresenceBoundary repo cfg e)
      else if \<not> isCountedSemanticEvent e
      then andThen (saveSnapshot repo ((receipt cfg sn e)\<lparr>
             openWindow := map_option (\<lambda>ow. append_event ow e) (openWindow sn)\<rparr>)) (\<lambda>_. ret None)
      else ingestCounted repo cfg e) (none_recorded e) s" for v
    using assms(3) snapshot_inv_receipt [OF sn, of e] append counted_not_presence [of e] recorded_receipt [of e cfg sn]
    by (auto simp: wp_throw split: option.splits intro!: recorded_save_none [OF assms(1,2)]
        recorded_handlers [OF assms(1,2)] recorded_ingestCounted [OF assms(1,2)] assms(4))
  note boundary = recorded_handlers(1) [OF assms(1,2) goal assms(3)]
  show ?thesis
    unfolding ingestCurrent_def wp_andThen wp_requireSnapshot assms(2) option.case sum.case Let_def
    by (cases "payload e") (simp_all only: DesktopEventPayload.case rest boundary)
qed

end

text \<open>What an authorization event does.\<close>

context collector_store
begin

definition revoked_outcome ::
  "collector_config \<Rightarrow> 'r collector \<Rightarrow> DesktopEvent \<Rightarrow> string list
   \<Rightarrow> collector_error + EventWindow option \<Rightarrow> 'r collector \<Rightarrow> bool" where
  "revoked_outcome cfg s e merged res t \<longleftrightarrow>
     res = Inr None \<and> coll_timer t = None \<and> runtimeState t = ACTIVE_EMPTY \<and> recorded e t \<and>
     held (coll_repository t) = held (coll_repository s) \<and>
     (\<exists>sn. coll_snapshot t = Some sn \<and> openWindow sn = None \<and> contextCandidates sn = [] \<and>
        revokedPermissions sn = merged \<and> materializedCursor sn = Some (cursor e))"

lemma revokeAuthorization_outcome:
  assumes "coll_inv cfg s" and "coll_snapshot s = Some sn"
    and "mergePermissions (revokedPermissions sn) ps = Inr merged"
  shows "wp (revokeAuthorization repo cfg e ps) (revoked_outcome cfg s e merged) s"
proof -
  have sn: "snapshot_inv cfg sn" using assms(1,2) by (rule coll_invD)
  have inv: "coll_inv cfg (s\<lparr>coll_timer := None\<rparr>)"
    using assms(1) by (rule coll_inv_same) (simp add: same_evidence_def)
  show ?thesis
    using assms(2,3) snapshot_inv_revoked [OF sn assms(3), of e] recorded_receipt [of e cfg sn]
    by (auto simp: revokeAuthorization_def wp_simps revoked_outcome_def recorded_def
        intro!: wp_saveSnapshot [OF inv])
qed

lemma recorded_authorization:
  assumes "coll_inv cfg s" and "coll_snapshot s = Some sn"
  shows "wp (revokeAuthorization repo cfg e ps) (none_recorded e) s"
    and "wp (grantAuthorization repo cfg e ps) (none_recorded e) s"
proof -
  have sn: "snapshot_inv cfg sn" using assms by (rule coll_invD)
  show "wp (revokeAuthorization repo cfg e ps) (none_recorded e) s"
  proof (cases "mergePermissions (revokedPermissions sn) ps")
    case (Inl x)
    then show ?thesis using assms(2) by (simp add: revokeAuthorization_def wp_simps)
  next
    case (Inr merged)
    show ?thesis
      by (rule wp_consequence [OF revokeAuthorization_outcome [OF assms Inr]])
        (simp add: revoked_outcome_def none_recorded_def)
  qed
  show "wp (grantAuthorization repo cfg e ps) (none_recorded e) s"
    using assms(2) snapshot_inv_granted [OF sn] recorded_receipt [of e cfg sn]
    by (auto simp: grantAuthorization_def wp_andThen [of requireSnapshot] wp_andThen [of "lift_error _"]
        wp_requireSnapshot wp_lift_error split: sum.split intro!: recorded_save_none [OF assms])
qed

lemma recorded_ingest_body:
  assumes "coll_inv cfg s" and "coll_snapshot s = Some sn" and "\<not> isIgnoredReflectionInput e"
  shows "wp (ingest_body repo cfg again e) (none_recorded e) s"
proof -
  have sn: "snapshot_inv cfg sn" using assms(1,2) by (rule coll_invD)
  have dup: "wp (ret None) (none_recorded e) s" if "eventId e \<in> set (recentEventIds sn)"
    using that assms(2) by (simp add: wp_ret recorded_def)
  have rest: "wp (if isBlockedByRevocation e (revokedPermissions sn)
      then andThen (saveSnapshot repo (receipt cfg sn e)) (\<lambda>_. ret None)
      else case openWindow sn of
           None \<Rightarrow> ingestCurrent repo cfg e
         | Some ow \<Rightarrow>
             if isPresenceFlushBoundary e \<and>
                (case latestEventTime ow of None \<Rightarrow> False | Some t \<Rightarrow> occurredAtMs e < t)
             then handleRetroactivePresenceBoundary repo cfg e
             else if count_split cfg ow e
             then andThen (sealCountReady repo cfg ow) (\<lambda>sealed. andThen again (\<lambda>_. ret (Some sealed)))
             else if ow_deadlineAtMs ow < occurredAtMs e
             then andThen (sealOpenWindow repo cfg max_wait (ow_deadlineAtMs ow)) (\<lambda>overdue.
                    andThen again (\<lambda>_. ret (Some overdue)))
             else ingestCurrent repo cfg e) (none_recorded e) s"
    using snapshot_inv_receipt [OF sn, of e] counted_not_presence [of e] recorded_receipt [of e cfg sn]
    by (auto split: option.splits intro!: recorded_save_none [OF assms(1,2)] wp_again_none
        recorded_handlers [OF assms(1,2)] recorded_ingestCurrent [OF assms(1,2)] not_split_count)
  note auth = recorded_authorization [OF assms(1,2)]
  show ?thesis
    unfolding ingest_body_def wp_andThen [of requireSnapshot] wp_requireSnapshot assms(2) option.case sum.case
      wp_if
    using dup assms(3)
    by (cases "payload e") (simp_all only: DesktopEventPayload.case rest auth if_False split: if_split, auto)
qed

lemma ingest_unrecovered: "coll_snapshot s = None \<Longrightarrow> ingest repo cfg e s = (Inl RecoverFirst, s)"
  by (simp add: ingest_def numeral_2_eq_2 ingest_body_def andThen_def [of requireSnapshot] requireSnapshot_def)

lemma recorded_ingest:
  assumes "coll_inv cfg s" and "\<not> isIgnoredReflectionInput e" and "ingest repo cfg e s = (Inr None, t)"
  shows "recorded e t"
proof -
  have "coll_snapshot s \<noteq> None"
    using assms(3) ingest_unrecovered [of s cfg e] by auto
  then have "wp (ingest repo cfg e) (none_recorded e) s"
    using recorded_ingest_body [OF assms(1) _ assms(2)] by (auto simp: ingest_def numeral_2_eq_2)
  then show ?thesis using assms(3) by (simp add: wp_def)
qed

lemma recorded_is_noop: "recorded e s \<Longrightarrow> ingest repo cfg e s = (Inr None, s)"
  by (auto simp: recorded_def ingest_def numeral_2_eq_2 ingest_body_def andThen_def requireSnapshot_def ret_def
      split: option.splits)

end

subsection \<open>The depth of the recursion\<close>

definition cleared :: "'r collector \<Rightarrow> bool" where
  "cleared s \<longleftrightarrow> (\<exists>sn. coll_snapshot s = Some sn \<and> openWindow sn = None)"

lemma ingest_body_cleared: "cleared s \<Longrightarrow> ingest_body repo cfg a e s = ingest_body repo cfg b e s"
  by (auto simp: cleared_def ingest_body_def andThen_def [of requireSnapshot] requireSnapshot_def
      split: DesktopEventPayload.split)

lemma andThen_cong_wp:
  assumes "wp m (\<lambda>res t. \<forall>x. res = Inr x \<longrightarrow> f x t = g x t) s"
  shows "andThen m f s = andThen m g s"
  using assms by (auto simp: wp_def andThen_def split: prod.splits sum.splits)

context collector_store
begin

text \<open>The evidence in the open window has not been sealed before.\<close>

definition unsealed :: "collector_config \<Rightarrow> 'r collector \<Rightarrow> ReflectionCollectorSnapshot \<Rightarrow> bool" where
  "unsealed cfg s sn \<longleftrightarrow> (\<forall>ow reason endedAt w. openWindow sn = Some ow \<longrightarrow>
     build (cfg_sha256 cfg) (cfg_builder cfg) (seal_request cfg sn ow reason endedAt) = Inr w \<longrightarrow>
     held (coll_repository s) (windowId w) = None)"

lemma seal_clears:
  assumes "coll_inv cfg s" and "coll_snapshot s = Some sn" and "unsealed cfg s sn"
  shows "wp (sealOpenWindow repo cfg reason d) (\<lambda>res t. \<forall>w. res = Inr w \<longrightarrow> cleared t) s"
proof (cases "openWindow sn")
  case None
  then show ?thesis using assms(2) by (simp add: sealOpenWindow_def sealCandidate_def wp_simps)
next
  case (Some ow)
  show ?thesis
  proof (cases "build (cfg_sha256 cfg) (cfg_builder cfg) (seal_request cfg sn ow reason d)")
    case (Inl e)
    then show ?thesis using assms(2) Some by (simp add: sealOpenWindow_def sealCandidate_def wp_simps)
  next
    case (Inr w)
    define new where
      "new = sealed_snapshot_of sn (activeGoal sn) w (revision sn + 1) (coll_clock s (coll_ticks s))"
    obtain res r' where r': "sealWindow_of repo w new (revision sn) (accountId (ow_cloudOwnerEpoch ow))
        (coll_repository s) = (res, r')" by fastforce
    have "held (coll_repository s) (windowId w) = None" using assms(3) Some Inr by (simp add: unsealed_def)
    then have "sealed_snapshot x = new" if "res = Inr x" for x
      using seal_repeated [of w new] seal_inserted [of w new] r' that by fastforce
    then show ?thesis
      using Some Inr assms(2) r'
      by (cases res) (auto simp: sealOpenWindow_def sealCandidate_def wp_simps wp_def [of "awaitStore _"]
          awaitStore_def new_def cleared_def sealed_snapshot_of_def)
  qed
qed

lemma seal_count_clears:
  assumes "coll_inv cfg s" and "coll_snapshot s = Some sn" and "unsealed cfg s sn"
  shows "wp (sealCountReady repo cfg ow) (\<lambda>res t. \<forall>w. res = Inr w \<longrightarrow> cleared t) s"
  using seal_clears [OF assms] by (auto simp: sealCountReady_def wp_simps split: option.split)

lemma ingest_body_cong:
  assumes "coll_inv cfg s" and "coll_snapshot s = Some sn" and "unsealed cfg s sn"
    and "\<And>t. cleared t \<Longrightarrow> a t = b t"
  shows "ingest_body repo cfg a e s = ingest_body repo cfg b e s"
proof -
  have again: "andThen a f t = andThen b f t" if "cleared t" for t and f :: "EventWindow option \<Rightarrow> ('r, EventWindow option) coll_op"
    using assms(4) [OF that] by (simp add: andThen_def)
  have count: "andThen (sealCountReady repo cfg ow) (\<lambda>w. andThen a (\<lambda>_. ret (Some w))) s =
      andThen (sealCountReady repo cfg ow) (\<lambda>w. andThen b (\<lambda>_. ret (Some w))) s" for ow
    by (rule andThen_cong_wp, rule wp_consequence [OF seal_count_clears [OF assms(1-3)]]) (use again in blast)
  have overdue: "andThen (sealOpenWindow repo cfg reason d) (\<lambda>w. andThen a (\<lambda>_. ret (Some w))) s =
      andThen (sealOpenWindow repo cfg reason d) (\<lambda>w. andThen b (\<lambda>_. ret (Some w))) s" for reason d
    by (rule andThen_cong_wp, rule wp_consequence [OF seal_clears [OF assms(1-3)]]) (use again in blast)
  show ?thesis
    using assms(2) count overdue
    by (simp add: ingest_body_def andThen_def [of requireSnapshot] requireSnapshot_def
        split: DesktopEventPayload.split option.split)
qed

end

subsection \<open>Claims\<close>

text \<open>What a collector left in memory is what it stored, up to the goal revision.\<close>

lemma ingest_durable:
  assumes "mem_store.coll_inv cfg t" and "ingest in_memory_collectors cfg e t = (res, u)" and "coll_snapshot u = Some sn"
  shows "\<exists>g. jget (collectors (coll_repository u)) (cfg_collectorId cfg) = Some (sn\<lparr>goalRevision := g\<rparr>)"
proof -
  have "mem_store.coll_inv cfg u" using mem_store.coll_inv_run [OF assms(1), of "[Ingest e]"] assms(2) by simp
  then obtain st where "jget (collectors (coll_repository u)) (cfg_collectorId cfg) = Some st" "in_step st sn"
    using assms(3) by (auto simp: mem_store.coll_inv_def)
  then show ?thesis unfolding in_step_def by metis
qed

text \<open>C16: An event is materialised at most once. If ingesting an event that is not an ignored input
  returns without a sealed window, its id is recorded in the snapshot in memory and in the one stored
  in the repository, and ingesting the same event again (a replayed journal) returns nothing and
  changes nothing.\<close>

theorem ingest_at_most_once:
  assumes "fresh_collector cfg r s" and "t = collector_run in_memory_collectors cfg cs s"
    and "\<not> isIgnoredReflectionInput e" and "ingest in_memory_collectors cfg e t = (Inr None, u)"
  shows "recorded e u \<and>
    (\<exists>st. jget (collectors (coll_repository u)) (cfg_collectorId cfg) = Some st \<and> eventId e \<in> set (recentEventIds st)) \<and>
    ingest in_memory_collectors cfg e u = (Inr None, u)"
proof -
  have inv: "mem_store.coll_inv cfg t" using fresh_collector_inv [OF assms(1)] assms(2) by simp
  from mem_store.recorded_ingest [OF inv assms(3,4)] have rec: "recorded e u" .
  then obtain sn where sn: "coll_snapshot u = Some sn" "eventId e \<in> set (recentEventIds sn)"
    by (auto simp: recorded_def split: option.splits)
  with ingest_durable [OF inv assms(4) sn(1)] rec show ?thesis by (auto simp: mem_store.recorded_is_noop)
qed

text \<open>C18: Revocation wins over reflection. Ingesting a revocation that has not been seen before, while
  the collector holds a snapshot and the permissions merge with those revoked before (it names between
  one and 32 well-formed permissions, and at most 32 were revoked before), returns no window, stops the timer, adds no window to the repository, and leaves a
  snapshot without open window and context in which the permissions named and those revoked before
  are revoked; the snapshot stored in the repository says the same.\<close>

theorem revocation_discards_evidence:
  assumes "fresh_collector cfg r s" and "t = collector_run in_memory_collectors cfg cs s"
    and "coll_snapshot t = Some sn" and "payload e = AuthorizationRevoked ps"
    and "eventId e \<notin> set (recentEventIds sn)"
    and "mergePermissions (revokedPermissions sn) ps = Inr merged"
  shows "\<exists>u sn' st. ingest in_memory_collectors cfg e t = (Inr None, u) \<and> coll_timer u = None \<and>
    (\<forall>wid. jget (windows (coll_repository u)) wid = jget (windows (coll_repository t)) wid) \<and>
    coll_snapshot u = Some sn' \<and> openWindow sn' = None \<and> contextCandidates sn' = [] \<and>
    set (revokedPermissions sn') = set (revokedPermissions sn) \<union> set ps \<and>
    jget (collectors (coll_repository u)) (cfg_collectorId cfg) = Some st \<and>
    openWindow st = None \<and> contextCandidates st = [] \<and>
    set (revokedPermissions st) = set (revokedPermissions sn) \<union> set ps"
proof -
  have inv: "mem_store.coll_inv cfg t" using fresh_collector_inv [OF assms(1)] assms(2) by simp
  have "\<not> isIgnoredReflectionInput e"
    using assms(4) by (simp add: isIgnoredReflectionInput_def js_startsWith_def)
  then have "ingest in_memory_collectors cfg e t = revokeAuthorization in_memory_collectors cfg e ps t"
    using assms(3-5) by (simp add: ingest_def numeral_2_eq_2 ingest_body_def andThen_def [of requireSnapshot]
        requireSnapshot_def)
  with mem_store.revokeAuthorization_outcome [OF inv assms(3,6), of e] mergePermissions_InrD [OF assms(6)]
  obtain u sn' where u: "ingest in_memory_collectors cfg e t = (Inr None, u)" "coll_timer u = None"
    "\<forall>wid. jget (windows (coll_repository u)) wid = jget (windows (coll_repository t)) wid"
    "coll_snapshot u = Some sn'" "openWindow sn' = None" "contextCandidates sn' = []"
    "set (revokedPermissions sn') = set (revokedPermissions sn) \<union> set ps"
    by (auto simp: wp_def mem_store.revoked_outcome_def fun_eq_iff split: prod.splits)
  obtain g where "jget (collectors (coll_repository u)) (cfg_collectorId cfg) = Some (sn'\<lparr>goalRevision := g\<rparr>)"
    using ingest_durable [OF inv u(1,4)] by blast
  with u show ?thesis by (intro exI [of _ u] exI [of _ sn'] exI [of _ "sn'\<lparr>goalRevision := g\<rparr>"]) simp
qed

text \<open>A change of the cloud owner never re-attributes evidence. For a well-formed account other
  than the current one, the cutover succeeds, advances the owner epoch by one, discards the open
  window and the context collected under the previous owner and adds no window to the repository.\<close>

lemma cutover_discards_evidence:
  assumes "fresh_collector cfg r s" and "t = collector_run in_memory_collectors cfg cs s"
    and "coll_snapshot t = Some sn" and "normalizeCloudOwnerAccountId account = Inr a"
    and "accountId (cloudOwnerEpoch sn) \<noteq> a" and "epoch (cloudOwnerEpoch sn) < MAX_SAFE_INTEGER"
  shows "\<exists>u sn'. cutoverCloudOwner in_memory_collectors account t = (Inr (), u) \<and> coll_timer u = None \<and>
    (\<forall>wid. jget (windows (coll_repository u)) wid = jget (windows (coll_repository t)) wid) \<and>
    coll_snapshot u = Some sn' \<and> openWindow sn' = None \<and> contextCandidates sn' = [] \<and>
    cloudOwnerEpoch sn' = \<lparr>epoch = epoch (cloudOwnerEpoch sn) + 1, accountId = a\<rparr> \<and>
    jget (collectors (coll_repository u)) (cfg_collectorId cfg) = Some sn'"
proof -
  have inv: "mem_store.coll_inv cfg t" using fresh_collector_inv [OF assms(1)] assms(2) by simp
  have inv': "mem_store.coll_inv cfg (t\<lparr>coll_timer := None\<rparr>)"
    using inv by (rule mem_store.coll_inv_same) (simp add: same_evidence_def)
  have sn: "snapshot_inv cfg sn" using inv assms(3) by (rule mem_store.coll_invD)
  have "wp (cutoverCloudOwner in_memory_collectors account) (\<lambda>res u. res = Inr () \<and> coll_timer u = None \<and>
    (\<forall>wid. jget (windows (coll_repository u)) wid = jget (windows (coll_repository t)) wid) \<and>
    (\<exists>sn'. coll_snapshot u = Some sn' \<and> openWindow sn' = None \<and> contextCandidates sn' = [] \<and>
      cloudOwnerEpoch sn' = \<lparr>epoch = epoch (cloudOwnerEpoch sn) + 1, accountId = a\<rparr> \<and>
      jget (collectors (coll_repository u)) (cfg_collectorId cfg) = Some sn')) t"
    using assms(3-6) snapshot_inv_cutover [OF sn assms(4,6)]
    by (auto simp: cutoverCloudOwner_def wp_simps fun_eq_iff intro!: mem_store.wp_saveSnapshot [OF inv'])
  then show ?thesis by (auto simp: wp_def split: prod.splits)
qed

text \<open>C17: A restart recovers exactly the durable state. A new collector with the same configuration
  over the repository an earlier one left behind (whatever that one did, crashed operations
  included) recovers without error and without writing, and its snapshot is the stored one, provided
  the stored revocation list still has at most 32 entries and the goal revision is a safe
  non-negative integer.\<close>

theorem recovery_restores_snapshot:
  assumes "fresh_collector cfg r s" and "t = collector_run in_memory_collectors cfg cs s"
    and "jget (collectors (coll_repository t)) (cfg_collectorId cfg) = Some st"
    and "ReflectionCollector cfg (coll_repository t) clock = Inr s'"
    and "length (revokedPermissions st) \<le> 32"
    and "0 \<le> goalRevision st" and "goalRevision st \<le> MAX_SAFE_INTEGER"
  shows "\<exists>u. recover in_memory_collectors cfg True s' = (Inr (), u) \<and> coll_snapshot u = Some st \<and>
    coll_repository u = coll_repository t \<and>
    runtimeState u = (if openWindow st = None then ACTIVE_EMPTY else ACTIVE_COLLECTING)"
proof -
  have st: "snapshot_inv cfg st"
    using fresh_collector_inv [OF assms(1)] assms(2,3) by (simp add: mem_store.coll_inv_def)
  have s': "coll_repository s' = coll_repository t" using assms(4) by (auto simp: ReflectionCollector_def split: if_splits)
  have norm: "normalizeRecoveredSnapshot (as_recovered st) = Inr (st, False)"
    using normalizeRecovered_own [OF st] assms(5-7) by (simp add: normalizeGoalRevision_def as_recovered_def)
  have ids: "collectorId st = cfg_collectorId cfg" "sn_deviceId st = cfg_deviceId cfg"
    "sn_sessionId st = cfg_sessionId cfg" using st by (simp_all add: snapshot_inv_def)
  have valid: "assertValidOpenWindow cfg ow (cloudOwnerEpoch st) = Inr ()" if "openWindow st = Some ow" for ow
    using open_window_inv_of [OF st that] open_window_inv_count [of cfg st ow]
    by (auto simp: assertValidOpenWindow_def open_window_inv_def sameCloudOwnerEpoch_def)
  have raw: "raw_snapshot (as_recovered st) = st" by (simp add: as_recovered_def)
  have "wp (recover in_memory_collectors cfg True) (\<lambda>res u. res = Inr () \<and> coll_snapshot u = Some st \<and>
    coll_repository u = coll_repository t \<and>
    runtimeState u = (if openWindow st = None then ACTIVE_EMPTY else ACTIVE_COLLECTING)) s'"
    using assms(3) s' ids norm valid
    by (auto simp: recover_def recoverSnapshot_def resumeRecovered_def wp_simps wp_def [of "awaitStore _"]
        awaitStore_def mem_store.load raw split: option.split)
  then show ?thesis by (auto simp: wp_def split: prod.splits)
qed

text \<open>The recursion of \<open>ingestSerialized\<close> ends: as long as the evidence of the open window has
  not been sealed in the repository before, a second activation never makes a third one (whatever
  the third would do), so every depth of at least two gives the same result.\<close>

lemma ingest_needs_two_activations:
  assumes "fresh_collector cfg r s" and "t = collector_run in_memory_collectors cfg cs s"
    and "coll_snapshot t = Some sn"
    and "\<And>ow reason endedAt w. openWindow sn = Some ow \<Longrightarrow>
      build (cfg_sha256 cfg) (cfg_builder cfg) (seal_request cfg sn ow reason endedAt) = Inr w \<Longrightarrow>
      jget (windows (coll_repository t)) (windowId w) = None"
  shows "ingest_body in_memory_collectors cfg (ingest_body in_memory_collectors cfg third e) e t =
      ingest in_memory_collectors cfg e t \<and>
    ingestSerialized (Suc (Suc n)) in_memory_collectors cfg e t = ingest in_memory_collectors cfg e t"
proof -
  have inv: "mem_store.coll_inv cfg t" using fresh_collector_inv [OF assms(1)] assms(2) by simp
  have "mem_store.unsealed cfg t sn" using assms(4) by (auto simp: mem_store.unsealed_def)
  from mem_store.ingest_body_cong [OF inv assms(3) this ingest_body_cleared]
  show ?thesis by (simp add: ingest_def numeral_2_eq_2)
qed

text \<open>C38: The revocation list can outgrow what recovery accepts. Each revocation may name up to 32
  permissions, but the merged list is persisted without a bound; once it has more than 32 entries a
  restarted collector refuses its own durable snapshot, and recovery fails.\<close>

theorem revocation_overflow_blocks_recovery:
  assumes "fresh_collector cfg r s" and "t = collector_run in_memory_collectors cfg cs s"
    and "jget (collectors (coll_repository t)) (cfg_collectorId cfg) = Some st"
    and "ReflectionCollector cfg (coll_repository t) clock = Inr s'"
    and "32 < length (revokedPermissions st)"
  shows "fst (recover in_memory_collectors cfg d s') = Inl (InvalidPermissions ''revokedPermissions'')"
proof -
  have st: "snapshot_inv cfg st"
    using fresh_collector_inv [OF assms(1)] assms(2,3) by (simp add: mem_store.coll_inv_def)
  have s': "coll_repository s' = coll_repository t" using assms(4) by (auto simp: ReflectionCollector_def split: if_splits)
  have norm: "normalizeRecoveredSnapshot (as_recovered st) = Inl (InvalidPermissions ''revokedPermissions'')"
    using normalizeRecovered_own [OF st] assms(5) by simp
  have ids: "collectorId st = cfg_collectorId cfg" "sn_deviceId st = cfg_deviceId cfg"
    "sn_sessionId st = cfg_sessionId cfg" using st by (simp_all add: snapshot_inv_def)
  have raw: "raw_snapshot (as_recovered st) = st" by (simp add: as_recovered_def)
  have "wp (recover in_memory_collectors cfg d) (\<lambda>res u. res = Inl (InvalidPermissions ''revokedPermissions'')) s'"
    using assms(3) s' ids norm
    by (auto simp: recover_def recoverSnapshot_def wp_simps wp_def [of "awaitStore _"]
        awaitStore_def mem_store.load raw split: option.split)
  then show ?thesis by (auto simp: wp_def split: prod.splits)
qed

end
