(* ===== verification/CollectorExamples.thy ===== *)
theory CollectorExamples
  imports CollectorBehaviour
begin

text \<open>
  Concrete runs of the collector: a small configuration (threshold two, the default window builder)
  over an empty in-memory repository, on which the properties of the collector are applied with the
  definitions evaluated by the simplifier. They show that the hypotheses of the properties can hold
  together.
\<close>

subsection \<open>Fixtures\<close>

definition ex_event :: "string \<Rightarrow> int \<Rightarrow> DesktopEventPayload \<Rightarrow> DesktopEvent" where
  "ex_event name t p =
     \<lparr>eventId = name, cursor = name, deviceId = ''d'', sessionId = ''s'', event_source = ''native'',
      occurredAtMs = t, observedAtMs = t, event_goalVersion = None, sensitivity = Metadata, payload = p\<rparr>"

definition ex_focus :: "string \<Rightarrow> int \<Rightarrow> DesktopEvent" where
  "ex_focus name t = ex_event name t (FocusChanged ''app'' ''button'' None)"

definition ex_cfg :: collector_config where
  "ex_cfg =
     \<lparr>cfg_collectorId = ''c'', cfg_deviceId = ''d'', cfg_sessionId = ''s'', cfg_initialGoal = None,
      cfg_threshold = 2, cfg_maxWaitMs = 1000, cfg_recentEventIdLimit = 8, cfg_onDeadlineReady = False,
      cfg_onCountReady = False, cfg_onWindowSealed = False, cfg_builder = default_builder_options,
      cfg_sha256 = (\<lambda>_. ''h'')\<rparr>"

definition ex_collector :: "InMemoryReflectionRepository collector" where
  "ex_collector = (case ReflectionCollector ex_cfg empty_repository int of Inr s \<Rightarrow> s | Inl _ \<Rightarrow> undefined)"

definition ex_run :: "collector_command list \<Rightarrow> InMemoryReflectionRepository collector" where
  "ex_run cs = collector_run in_memory_collectors ex_cfg cs ex_collector"

lemma ex_collector_new: "ReflectionCollector ex_cfg empty_repository int = Inr ex_collector"
  by (simp add: ex_collector_def ReflectionCollector_def ex_cfg_def)

lemma ex_collector_fresh: "fresh_collector ex_cfg empty_repository ex_collector"
  using ex_collector_new by (auto simp: fresh_collector_def empty_repository_def)

subsection \<open>The collector\<close>

definition ex_recovered :: "InMemoryReflectionRepository collector" where
  "ex_recovered = ex_run [Recover False]"

definition ex_collecting :: "InMemoryReflectionRepository collector" where
  "ex_collecting = ex_run [Recover False, Ingest (ex_focus ''a'' 10)]"

definition ex_sealed :: "InMemoryReflectionRepository collector" where
  "ex_sealed = snd (collector_exec in_memory_collectors ex_cfg (Ingest (ex_focus ''b'' 20)) ex_collecting)"

lemma ex_collecting_run:
  "ex_collecting = collector_run in_memory_collectors ex_cfg [Recover False, Ingest (ex_focus ''a'' 10)] ex_collector"
  by (simp add: ex_collecting_def ex_run_def)

lemma not_None_the: "x \<noteq> None \<Longrightarrow> x = Some (the x)"
  by simp

lemma fst_eq_pair: "fst x = y \<Longrightarrow> x = (y, snd x)"
  by (cases x) simp

lemma ex_collecting_snapshot: "coll_snapshot ex_collecting = Some (the (coll_snapshot ex_collecting))"
  by (rule not_None_the) code_simp

lemma ex_collecting_windows: "windows (coll_repository ex_collecting) = []"
  by code_simp

theorem collector_reachable_inv_witness: "snapshot_inv ex_cfg (the (coll_snapshot ex_collecting))"
  using collector_reachable_inv [OF ex_collector_fresh ex_collecting_run ex_collecting_snapshot] by simp

lemma ex_sealed_window:
  "jget (windows (coll_repository ex_sealed)) ''window_h'' = Some (the (jget (windows (coll_repository ex_sealed)) ''window_h''))"
  by (rule not_None_the) code_simp

theorem collector_seals_good_windows_witness:
  "good_window ex_cfg (revoked_of ex_sealed) (the (jget (windows (coll_repository ex_sealed)) ''window_h''))"
  by (rule collector_seals_good_windows [OF ex_collector_fresh ex_collecting_run ex_sealed_def ex_sealed_window])
    (simp add: ex_collecting_windows)

lemma ex_ingest_recovered:
  "ingest in_memory_collectors ex_cfg (ex_focus ''a'' 10) ex_recovered =
     (Inr None, snd (ingest in_memory_collectors ex_cfg (ex_focus ''a'' 10) ex_recovered))"
  by (rule fst_eq_pair) code_simp

theorem ingest_at_most_once_witness:
  "recorded (ex_focus ''a'' 10) (snd (ingest in_memory_collectors ex_cfg (ex_focus ''a'' 10) ex_recovered)) \<and>
   (\<exists>st. jget (collectors (coll_repository (snd (ingest in_memory_collectors ex_cfg (ex_focus ''a'' 10) ex_recovered))))
      (cfg_collectorId ex_cfg) = Some st \<and> ''a'' \<in> set (recentEventIds st))"
  using ingest_at_most_once [OF ex_collector_fresh, of ex_recovered "[Recover False]" "ex_focus ''a'' 10"]
    ex_ingest_recovered
  by (simp add: ex_recovered_def ex_run_def isIgnoredReflectionInput_def ex_focus_def ex_event_def js_startsWith_def)

definition ex_revocation :: DesktopEvent where
  "ex_revocation = ex_event ''r'' 15 (AuthorizationRevoked [''input.monitoring''])"

lemma ex_collecting_facts:
  "revokedPermissions (the (coll_snapshot ex_collecting)) = []"
  "recentEventIds (the (coll_snapshot ex_collecting)) = [''a'']"
  "cloudOwnerEpoch (the (coll_snapshot ex_collecting)) = \<lparr>epoch = 0, accountId = None\<rparr>"
  "goalRevision (the (coll_snapshot ex_collecting)) = 0"
  by code_simp+

theorem revocation_discards_evidence_witness:
  "\<exists>u sn st. ingest in_memory_collectors ex_cfg ex_revocation ex_collecting = (Inr None, u) \<and>
     coll_snapshot u = Some sn \<and> openWindow sn = None \<and> set (revokedPermissions sn) = {''input.monitoring''} \<and>
     jget (collectors (coll_repository u)) (cfg_collectorId ex_cfg) = Some st \<and>
     set (revokedPermissions st) = {''input.monitoring''}"
proof -
  have "mergePermissions [] [''input.monitoring''] = Inr [''input.monitoring'']"
    by code_simp
  then show ?thesis
    using revocation_discards_evidence [OF ex_collector_fresh ex_collecting_run ex_collecting_snapshot,
        of ex_revocation "[''input.monitoring'']" "[''input.monitoring'']"]
    by (fastforce simp: ex_collecting_facts ex_revocation_def ex_event_def)
qed

definition ex_restarted :: "InMemoryReflectionRepository \<Rightarrow> InMemoryReflectionRepository collector" where
  "ex_restarted r = ex_collector\<lparr>coll_repository := r\<rparr>"

lemma ex_restarted_new: "ReflectionCollector ex_cfg r int = Inr (ex_restarted r)"
  by (simp add: ex_restarted_def ex_collector_def ReflectionCollector_def ex_cfg_def)

definition ex_stored :: "InMemoryReflectionRepository collector \<Rightarrow> ReflectionCollectorSnapshot" where
  "ex_stored t = the (jget (collectors (coll_repository t)) ''c'')"

lemma ex_collecting_stored:
  "jget (collectors (coll_repository ex_collecting)) (cfg_collectorId ex_cfg) = Some (ex_stored ex_collecting)"
  "length (revokedPermissions (ex_stored ex_collecting)) \<le> 32"
  "goalRevision (ex_stored ex_collecting) = 0"
  by code_simp+

theorem recovery_restores_snapshot_witness:
  "\<exists>u. recover in_memory_collectors ex_cfg True (ex_restarted (coll_repository ex_collecting)) = (Inr (), u) \<and>
     coll_snapshot u = Some (ex_stored ex_collecting)"
  using recovery_restores_snapshot [OF ex_collector_fresh ex_collecting_run ex_collecting_stored(1) ex_restarted_new
      ex_collecting_stored(2)]
  by (auto simp: ex_collecting_stored(3) MAX_SAFE_INTEGER_def)

definition ex_revoke_names :: "string \<Rightarrow> string list \<Rightarrow> collector_command" where
  "ex_revoke_names name ps = Ingest (ex_event name 15 (AuthorizationRevoked ps))"

definition ex_overflow_run :: "collector_command list" where
  "ex_overflow_run =
     [Recover True, ex_revoke_names ''r1'' (map (\<lambda>c. [c]) ''abcdefghijklmnopqrstuvwxyz''),
      ex_revoke_names ''r2'' (map (\<lambda>c. [c, c]) ''abcdefg'')]"

lemma ex_overflow_stored:
  "jget (collectors (coll_repository (ex_run ex_overflow_run))) (cfg_collectorId ex_cfg) =
     Some (ex_stored (ex_run ex_overflow_run))"
  "32 < length (revokedPermissions (ex_stored (ex_run ex_overflow_run)))"
  by code_simp+

theorem revocation_overflow_blocks_recovery_witness:
  "fst (recover in_memory_collectors ex_cfg True (ex_restarted (coll_repository (ex_run ex_overflow_run)))) =
     Inl (InvalidPermissions ''revokedPermissions'')"
  by (rule revocation_overflow_blocks_recovery [OF ex_collector_fresh ex_run_def ex_overflow_stored(1)
      ex_restarted_new ex_overflow_stored(2)])

end
