(* ===== verification/JobRunner.thy ===== *)
theory JobRunner
  imports ReflectionRepository
begin

text \<open>
  The job runner, \<open>src/agent/reflection/job-runner.ts\<close>: it claims a durable job, runs the
  inference provider, checks its output against the immutable window, persists it and hands it
  to the committer; failures are retried with a back-off or become terminal.

  The interfaces the runner is given are records of operations, polymorphic in their state: the
  repository (\<open>DurableReflectionJobRepository\<close>), the inference provider and the committer. The
  clock is read and the abort signal is checked at named points of the code; \<open>run_env\<close> gives the
  value each of them sees, so the clock may advance and the signal may fire between any two.
  Probabilities, the confidence and the embedding are real numbers, the exact counterparts of
  the source's doubles; every real is finite.
\<close>

subsection \<open>Errors as values\<close>

fun thrown_of_repository :: "repository_error \<Rightarrow> thrown" where
  "thrown_of_repository CollectorRevisionConflict =
     (plain_error ''Reflection collector state changed concurrently.'')
       \<lparr>thrown_name := Some ''CollectorRevisionConflictError''\<rparr>"
| "thrown_of_repository (InvalidReflectionJobTransition from operation) =
     (plain_error (''Cannot '' @ operation @ '' a reflection job in state '' @
       job_state_name from @ ''.''))\<lparr>thrown_name := Some ''InvalidReflectionJobTransitionError''\<rparr>"
| "thrown_of_repository IdempotentSealWithoutCollector =
     plain_error ''Idempotent seal is missing collector state.''"
| "thrown_of_repository IdempotentSealChangedOwner =
     plain_error ''Idempotent reflection seal changed cloud ownership.''"
| "thrown_of_repository InvalidCloudOwnerAccountId =
     plain_error ''Reflection cloud owner account id is invalid.''"
| "thrown_of_repository DifferentReflectionPersisted =
     plain_error ''A different reflection is already persisted for this window.''"
| "thrown_of_repository ReflectionWindowMismatch =
     plain_error ''Reflection result does not match its window.''"
| "thrown_of_repository (UnknownReflectionJob wid) =
     plain_error (''Unknown reflection job: '' @ wid)"

definition failureCode :: "thrown \<Rightarrow> string" where
  "failureCode error =
     (case thrown_code error of Some code \<Rightarrow> take 128 code
      | None \<Rightarrow> (case thrown_name error of Some name \<Rightarrow> name | None \<Rightarrow> ''UNKNOWN''))"

definition errorMessage :: "thrown \<Rightarrow> string" where
  "errorMessage error = take 1024 (thrown_message error)"

definition isExplicitlyNonRetryable :: "thrown \<Rightarrow> bool" where
  "isExplicitlyNonRetryable error = thrown_nonRetryable error"

subsection \<open>Checking a reflection against its window\<close>

definition ACTIVITY_LABELS :: "ActivityLabel list" where
  "ACTIVITY_LABELS = [development, writing, research, communication, planning, data_work, media,
     gaming, system_file_ops, commerce, idle_transition, other_unknown]"

definition GOAL_RELEVANCE_LABELS :: "GoalRelevanceLabel list" where
  "GOAL_RELEVANCE_LABELS = [direct, supporting, unrelated, uncertain]"

definition isUnitInterval :: "real \<Rightarrow> bool" where
  "isUnitInterval v \<longleftrightarrow> 0 \<le> v \<and> v \<le> 1"

datatype match_error =
    OutputDoesNotMatchWindow
  | GoalRelevanceNullness
  | IncompleteTaxonomy string
  | InvalidProbability string
  | ProbabilitiesDoNotSumToOne string
  | LabelNotMaximal string
  | ConfidenceOutOfRange
  | EmbeddingLength
  | EmbeddingNotNormalized
  | MustRemainSilent
  | FeedbackPolicyMismatch
  | VersionsRequired
  | InvalidEvidence

fun match_message :: "match_error \<Rightarrow> string" where
  "match_message OutputDoesNotMatchWindow =
     ''Reflection output does not match its immutable event window.''"
| "match_message GoalRelevanceNullness =
     ''Goal relevance must be null exactly when the window has no goal.''"
| "match_message (IncompleteTaxonomy field) =
     ''Reflection '' @ field @ '' probabilities must contain the full taxonomy.''"
| "match_message (InvalidProbability field) =
     ''Reflection '' @ field @ '' contains an invalid probability.''"
| "match_message (ProbabilitiesDoNotSumToOne field) =
     ''Reflection '' @ field @ '' probabilities must sum to one.''"
| "match_message (LabelNotMaximal field) =
     ''Reflection '' @ field @ '' label must select a maximum probability.''"
| "match_message ConfidenceOutOfRange =
     ''Reflection confidence and entropy must be between zero and one.''"
| "match_message EmbeddingLength = ''Reflection embedding must contain 256 finite values.''"
| "match_message EmbeddingNotNormalized = ''Reflection embedding must be L2-normalized.''"
| "match_message MustRemainSilent = ''No-goal and abstained reflections must remain silent.''"
| "match_message FeedbackPolicyMismatch =
     ''Reflection feedbackCode does not match the fixed activity/relevance policy.''"
| "match_message VersionsRequired = ''Reflection model and taxonomy versions are required.''"
| "match_message InvalidEvidence =
     ''Reflection evidence may only reference primary window events.''"

text \<open>The accumulation loop of \<open>assertDistribution\<close>: the running sum and maximum, or \<open>None\<close> at
  a probability that is missing or outside the unit interval.\<close>

fun distribution_loop :: "('l, real) jmap \<Rightarrow> 'l list \<Rightarrow> real \<Rightarrow> real \<Rightarrow> (real \<times> real) option" where
  "distribution_loop value [] acc maximum = Some (acc, maximum)"
| "distribution_loop value (l # ls) acc maximum =
     (case jget value l of
        None \<Rightarrow> None
      | Some p \<Rightarrow> if isUnitInterval p then distribution_loop value ls (acc + p) (max maximum p) else None)"

definition assertDistribution ::
  "('l, real) jmap \<Rightarrow> 'l list \<Rightarrow> 'l \<Rightarrow> string \<Rightarrow> match_error + unit" where
  "assertDistribution value labels selected field =
     (if length (jkeys value) \<noteq> length labels \<or> \<not> list_all (\<lambda>l. jget value l \<noteq> None) labels
      then Inl (IncompleteTaxonomy field)
      else case distribution_loop value labels 0 (- 1) of
        None \<Rightarrow> Inl (InvalidProbability field)
      | Some (acc, maximum) \<Rightarrow>
          if \<bar>acc - 1\<bar> > 1 / 10000 then Inl (ProbabilitiesDoNotSumToOne field)
          else case jget value selected of
            None \<Rightarrow> Inl (LabelNotMaximal field)
          | Some p \<Rightarrow> if \<bar>p - maximum\<bar> > 1 / 10 ^ 12 then Inl (LabelNotMaximal field) else Inr ())"

definition hypot :: "real list \<Rightarrow> real" where
  "hypot xs = sqrt (sum_list (map (\<lambda>x. x * x) xs))"

definition expectedFeedbackCode :: "Reflection \<Rightarrow> FeedbackCode" where
  "expectedFeedbackCode r =
     (case goalRelevance r of
        None \<Rightarrow> silent
      | Some g \<Rightarrow>
          if abstain r then silent
          else if label (activity r) = idle_transition then takeBreak
          else case label g of
            direct \<Rightarrow> encourage | supporting \<Rightarrow> encourage
          | unrelated \<Rightarrow> refocus | uncertain \<Rightarrow> clarifyGoal)"

text \<open>\<open>isFeedbackCode\<close> holds of every value of the type, and every embedding entry is finite.\<close>

definition assertReflectionMatchesWindow :: "Reflection \<Rightarrow> EventWindow \<Rightarrow> match_error + unit" where
  "assertReflectionMatchesWindow r w =
     (if rf_schemaVersion r \<noteq> REFLECTION_SCHEMA_VERSION \<or> rf_windowId r \<noteq> windowId w \<or>
         rf_triggerReason r \<noteq> win_triggerReason w \<or> rf_eventCount r \<noteq> win_eventCount w \<or>
         durationMs r \<noteq> win_endedAtMs w - win_startedAtMs w \<or> rf_goalVersion r \<noteq> win_goalVersion w
      then Inl OutputDoesNotMatchWindow
      else if (win_goalVersion w = None) \<noteq> (goalRelevance r = None) then Inl GoalRelevanceNullness
      else case assertDistribution (probabilities (activity r)) ACTIVITY_LABELS
             (label (activity r)) ''activity'' of
        Inl e \<Rightarrow> Inl e
      | Inr _ \<Rightarrow>
      case (case goalRelevance r of None \<Rightarrow> Inr ()
            | Some g \<Rightarrow> assertDistribution (probabilities g) GOAL_RELEVANCE_LABELS (label g)
                ''goalRelevance'') of
        Inl e \<Rightarrow> Inl e
      | Inr _ \<Rightarrow>
      if \<not> isUnitInterval (confidence r) \<or> \<not> isUnitInterval (entropy r) then Inl ConfidenceOutOfRange
      else if length (embedding r) \<noteq> 256 then Inl EmbeddingLength
      else if hypot (embedding r) = 0 \<or> \<bar>hypot (embedding r) - 1\<bar> > 1 / 100
      then Inl EmbeddingNotNormalized
      else if (win_goal w = None \<or> abstain r) \<and> feedbackCode r \<noteq> silent then Inl MustRemainSilent
      else if feedbackCode r \<noteq> expectedFeedbackCode r then Inl FeedbackPolicyMismatch
      else if modelVersion r = '''' \<or> taxonomyVersion r = '''' then Inl VersionsRequired
      else
        let eventIds = map eventId (filter isCountedSemanticEvent (win_events w))
        in if evidenceEventIds r = [] \<or> \<not> distinct (evidenceEventIds r) \<or>
              list_ex (\<lambda>i. i \<notin> set eventIds) (evidenceEventIds r)
           then Inl InvalidEvidence else Inr ())"

subsection \<open>The interfaces\<close>

record 'r DurableReflectionJobRepository =
  getWindow_of :: "string \<Rightarrow> ('r, repository_error, EventWindow option) comp"
  getQueueStats_of :: "('r, repository_error, ReflectionQueueStats) comp"
  claimNextRunnable_of :: "int \<Rightarrow> int \<Rightarrow> ('r, repository_error, ReflectionJob option) comp"
  persistResult_of :: "string \<Rightarrow> Reflection \<Rightarrow> int \<Rightarrow> ('r, repository_error, ReflectionJob) comp"
  beginCommit_of :: "string \<Rightarrow> int \<Rightarrow> int \<Rightarrow> ('r, repository_error, ReflectionJob) comp"
  abandonClaim_of :: "string \<Rightarrow> int \<Rightarrow> ('r, repository_error, ReflectionJob) comp"
  recordFailure_of ::
    "string \<Rightarrow> ReflectionJobFailure \<Rightarrow> int option \<Rightarrow> bool \<Rightarrow> ('r, repository_error, ReflectionJob) comp"
  markCommitted_of :: "string \<Rightarrow> int \<Rightarrow> ('r, repository_error, ReflectionJob) comp"

definition in_memory_jobs ::
  "(string \<Rightarrow> string \<Rightarrow> int) \<Rightarrow> InMemoryReflectionRepository DurableReflectionJobRepository" where
  "in_memory_jobs lc =
     \<lparr>getWindow_of = getWindow, getQueueStats_of = getQueueStats,
      claimNextRunnable_of = claimNextRunnable lc, persistResult_of = persistResult,
      beginCommit_of = beginCommit, abandonClaim_of = abandonClaim,
      recordFailure_of = recordFailure, markCommitted_of = markCommitted\<rparr>"

record ReflectionJobRunnerOptions =
  retryDelaysMs :: "int list"
  terminalAfterMs :: int
  leaseDurationMs :: int
  drainingJobThreshold :: nat
  drainingEventThreshold :: nat
  jitterMs :: "int \<Rightarrow> nat \<Rightarrow> int"

definition DEFAULT_RETRY_DELAYS_MS :: "int list" where
  "DEFAULT_RETRY_DELAYS_MS = [5000, 15000, 45000, 120000, 300000]"

text \<open>The defaults of the source; the jitter draws random numbers and stays a parameter.\<close>

definition default_runner_options :: "(int \<Rightarrow> nat \<Rightarrow> int) \<Rightarrow> ReflectionJobRunnerOptions" where
  "default_runner_options jitter =
     \<lparr>retryDelaysMs = DEFAULT_RETRY_DELAYS_MS, terminalAfterMs = 24 * 60 * 60 * 1000,
      leaseDurationMs = 2 * 60 * 1000, drainingJobThreshold = 8, drainingEventThreshold = 512,
      jitterMs = jitter\<rparr>"

datatype runner_error =
    InvalidRetryDelays
  | RunnerBusy
  | MissingImmutableWindow string
  | CannotBeCommitted string
  | RetryDelayConfigurationEmpty
  | RepositoryRejected repository_error

text \<open>The constructor's check.\<close>

definition ReflectionJobRunner ::
  "ReflectionJobRunnerOptions \<Rightarrow> runner_error + ReflectionJobRunnerOptions" where
  "ReflectionJobRunner options =
     (if retryDelaysMs options = [] \<or> list_ex (\<lambda>d. d < 0) (retryDelaysMs options)
      then Inl InvalidRetryDelays else Inr options)"

datatype job_phase = Inference | Commit

datatype ReflectionJobRunResult =
    Idle
  | Committed string
  | Abandoned string job_phase
  | RetryScheduled string int job_phase
  | TerminalFailed string job_phase

datatype clock_point = AtClaim | AtPersist | AtBegin | AtMarkCommitted | AtAbandon | AtFailure

datatype signal_point =
  AtEntry | BeforeInference | AfterInference | InInferenceCatch | AfterPersist | BeforeCommit | InCommitCatch

record 'c run_env =
  nowMs :: "clock_point \<Rightarrow> int"
  aborted :: "signal_point \<Rightarrow> bool"
  infer_call :: "EventWindow \<Rightarrow> thrown + Reflection"
  commit_call :: "EventWindow \<Rightarrow> Reflection \<Rightarrow> ('c, thrown, unit) comp"

record ('r, 'c) runner =
  repository :: 'r
  committer :: 'c
  running :: bool

type_synonym ('r, 'c, 'a) runner_op = "(('r, 'c) runner, runner_error, 'a) comp"

definition on_repository :: "('r, repository_error, 'a) comp \<Rightarrow> (('r, 'c) runner, repository_error, 'a) comp" where
  "on_repository op s = (case op (repository s) of (res, r) \<Rightarrow> (res, s\<lparr>repository := r\<rparr>))"

text \<open>An awaited repository call whose rejection rejects the runner's promise.\<close>

definition awaitRepo :: "('r, repository_error, 'a) comp \<Rightarrow> ('r, 'c, 'a) runner_op" where
  "awaitRepo op s = (case op (repository s) of
     (Inl e, r) \<Rightarrow> (Inl (RepositoryRejected e), s\<lparr>repository := r\<rparr>)
   | (Inr x, r) \<Rightarrow> (Inr x, s\<lparr>repository := r\<rparr>))"

subsection \<open>Running one job\<close>

definition abandon_claim ::
  "'r DurableReflectionJobRepository \<Rightarrow> 'c run_env \<Rightarrow> ReflectionJob \<Rightarrow> job_phase
   \<Rightarrow> ('r, 'c, ReflectionJobRunResult) runner_op" where
  "abandon_claim repo env job phase =
     andThen (awaitRepo (abandonClaim_of repo (job_windowId job) (nowMs env AtAbandon)))
       (\<lambda>_. ret (Abandoned (job_windowId job) phase))"

definition handleFailure ::
  "'r DurableReflectionJobRepository \<Rightarrow> ReflectionJobRunnerOptions \<Rightarrow> 'c run_env \<Rightarrow> ReflectionJob
   \<Rightarrow> job_phase \<Rightarrow> thrown \<Rightarrow> ('r, 'c, ReflectionJobRunResult) runner_op" where
  "handleFailure repo opts env job phase error =
     (let failedAt = nowMs env AtFailure;
          failure = \<lparr>failure_code = failureCode error, failure_message = errorMessage error,
            failedAtMs = failedAt\<rparr>;
          firstAttempt = (case firstAttemptAtMs job of None \<Rightarrow> failedAt | Some t \<Rightarrow> t);
          terminal = (isExplicitlyNonRetryable error \<or> terminalAfterMs opts \<le> failedAt - firstAttempt)
      in if terminal
         then andThen (awaitRepo (recordFailure_of repo (job_windowId job) failure None True))
                (\<lambda>_. ret (TerminalFailed (job_windowId job) phase))
         else if attempt job = 0 \<or> retryDelaysMs opts = [] then throw RetryDelayConfigurationEmpty
         else
           let baseDelay = retryDelaysMs opts ! min (attempt job - 1) (length (retryDelaysMs opts) - 1);
               next = failedAt + baseDelay + max 0 (jitterMs opts baseDelay (attempt job))
           in andThen (awaitRepo (recordFailure_of repo (job_windowId job) failure (Some next) False))
                (\<lambda>_. ret (RetryScheduled (job_windowId job) next phase)))"

text \<open>The guarded inference call: its value, or the error the surrounding \<open>catch\<close> sees.\<close>

definition abort_error :: thrown where
  "abort_error = \<lparr>thrown_code = None, thrown_name = Some ''AbortError'',
     thrown_message = ''Reflection inference was cancelled during shutdown.'',
     thrown_nonRetryable = False\<rparr>"

definition guarded_inference :: "'c run_env \<Rightarrow> EventWindow \<Rightarrow> thrown + Reflection" where
  "guarded_inference env w =
     (if aborted env BeforeInference then Inl abort_error
      else case infer_call env w of
        Inl e \<Rightarrow> Inl e
      | Inr r \<Rightarrow>
          if aborted env AfterInference then Inl abort_error
          else case assertReflectionMatchesWindow r w of
            Inl e \<Rightarrow> Inl (plain_error (match_message e))
          | Inr _ \<Rightarrow> Inr r)"

text \<open>The body of the commit \<open>try\<close>: the committer's call, then \<open>markCommitted\<close>; either may
  throw into the same \<open>catch\<close>.\<close>

definition commit_try ::
  "'r DurableReflectionJobRepository \<Rightarrow> 'c run_env \<Rightarrow> EventWindow \<Rightarrow> Reflection
   \<Rightarrow> (('r, 'c) runner, thrown, unit) comp" where
  "commit_try repo env w reflection s =
     (case commit_call env w reflection (committer s) of
        (Inl e, c) \<Rightarrow> (Inl e, s\<lparr>committer := c\<rparr>)
      | (Inr _, c) \<Rightarrow>
          (case on_repository (markCommitted_of repo (windowId w) (nowMs env AtMarkCommitted))
             (s\<lparr>committer := c\<rparr>) of
             (Inl e, s') \<Rightarrow> (Inl (thrown_of_repository e), s')
           | (Inr _, s') \<Rightarrow> (Inr (), s')))"

definition commit_phase ::
  "'r DurableReflectionJobRepository \<Rightarrow> ReflectionJobRunnerOptions \<Rightarrow> 'c run_env \<Rightarrow> ReflectionJob
   \<Rightarrow> EventWindow \<Rightarrow> Reflection option \<Rightarrow> ('r, 'c, ReflectionJobRunResult) runner_op" where
  "commit_phase repo opts env job w reflection =
     (case reflection of
        None \<Rightarrow> throw (CannotBeCommitted (job_windowId job))
      | Some x \<Rightarrow>
          if job_state job \<noteq> COMMITTING then throw (CannotBeCommitted (job_windowId job))
          else if aborted env BeforeCommit then abandon_claim repo env job Commit
          else (\<lambda>s. case commit_try repo env w x s of
             (Inr _, s') \<Rightarrow> (Inr (Committed (windowId w)), s')
           | (Inl e, s') \<Rightarrow>
               if aborted env InCommitCatch then abandon_claim repo env job Commit s'
               else handleFailure repo opts env job Commit e s'))"

definition run_claimed ::
  "'r DurableReflectionJobRepository \<Rightarrow> ReflectionJobRunnerOptions \<Rightarrow> 'c run_env \<Rightarrow> ReflectionJob
   \<Rightarrow> EventWindow \<Rightarrow> ('r, 'c, ReflectionJobRunResult) runner_op" where
  "run_claimed repo opts env job w =
     (if job_state job = RUNNING then
        (case guarded_inference env w of
           Inl e \<Rightarrow>
             if aborted env InInferenceCatch then abandon_claim repo env job Inference
             else handleFailure repo opts env job Inference e
         | Inr x \<Rightarrow>
             andThen (awaitRepo (persistResult_of repo (windowId w) x (nowMs env AtPersist)))
               (\<lambda>persisted.
                 if aborted env AfterPersist then abandon_claim repo env persisted Commit
                 else andThen
                   (awaitRepo (beginCommit_of repo (windowId w) (nowMs env AtBegin) (leaseDurationMs opts)))
                   (\<lambda>committing. commit_phase repo opts env committing w (Some x))))
      else commit_phase repo opts env job w (job_reflection job))"

definition run_body ::
  "'r DurableReflectionJobRepository \<Rightarrow> ReflectionJobRunnerOptions \<Rightarrow> 'c run_env
   \<Rightarrow> ('r, 'c, ReflectionJobRunResult) runner_op" where
  "run_body repo opts env =
     andThen (awaitRepo (claimNextRunnable_of repo (nowMs env AtClaim) (leaseDurationMs opts)))
       (\<lambda>claimed. case claimed of
          None \<Rightarrow> ret Idle
        | Some job \<Rightarrow>
            andThen (awaitRepo (getWindow_of repo (job_windowId job)))
              (\<lambda>found. case found of
                 None \<Rightarrow> throw (MissingImmutableWindow (job_windowId job))
               | Some w \<Rightarrow> run_claimed repo opts env job w))"

definition runOnce ::
  "'r DurableReflectionJobRepository \<Rightarrow> ReflectionJobRunnerOptions \<Rightarrow> 'c run_env
   \<Rightarrow> ('r, 'c, ReflectionJobRunResult) runner_op" where
  "runOnce repo opts env s =
     (if running s then (Inl RunnerBusy, s)
      else if aborted env AtEntry then (Inr Idle, s)
      else (case run_body repo opts env (s\<lparr>running := True\<rparr>) of
        (res, s') \<Rightarrow> (res, s'\<lparr>running := False\<rparr>)))"

text \<open>The bounded loop of \<open>runUntilIdle\<close>; \<open>stop i\<close> is what the signal says before and after the
  \<open>i\<close>-th job.\<close>

fun run_until_idle ::
  "'r DurableReflectionJobRepository \<Rightarrow> ReflectionJobRunnerOptions \<Rightarrow> (nat \<Rightarrow> 'c run_env)
   \<Rightarrow> (nat \<Rightarrow> bool) \<Rightarrow> (nat \<Rightarrow> bool) \<Rightarrow> nat \<Rightarrow> nat \<Rightarrow> ReflectionJobRunResult list
   \<Rightarrow> ('r, 'c, ReflectionJobRunResult list) runner_op" where
  "run_until_idle repo opts envs stopBefore stopAfter index 0 results s = (Inr results, s)"
| "run_until_idle repo opts envs stopBefore stopAfter index (Suc n) results s =
     (if stopBefore index then (Inr results, s)
      else case runOnce repo opts (envs index) s of
        (Inl e, s') \<Rightarrow> (Inl e, s')
      | (Inr result, s') \<Rightarrow>
          if result = Idle \<or> stopAfter index then (Inr (results @ [result]), s')
          else run_until_idle repo opts envs stopBefore stopAfter (index + 1) n (results @ [result]) s')"

definition runUntilIdle ::
  "'r DurableReflectionJobRepository \<Rightarrow> ReflectionJobRunnerOptions \<Rightarrow> (nat \<Rightarrow> 'c run_env)
   \<Rightarrow> (nat \<Rightarrow> bool) \<Rightarrow> (nat \<Rightarrow> bool) \<Rightarrow> nat \<Rightarrow> ('r, 'c, ReflectionJobRunResult list) runner_op" where
  "runUntilIdle repo opts envs stopBefore stopAfter maxJobs =
     run_until_idle repo opts envs stopBefore stopAfter 0 maxJobs []"

definition getQueuePressure ::
  "'r DurableReflectionJobRepository \<Rightarrow> ReflectionJobRunnerOptions
   \<Rightarrow> ('r, repository_error, ReflectionQueueMode \<times> ReflectionQueueStats \<times> bool) comp" where
  "getQueuePressure repo opts =
     andThen (getQueueStats_of repo)
       (\<lambda>stats.
         let mode = (if drainingJobThreshold opts \<le> pendingJobs stats \<or>
                        drainingEventThreshold opts \<le> pendingEvents stats
                     then draining else accepting)
         in ret (mode, stats, mode = accepting))"

subsection \<open>The contract of a durable job repository\<close>

text \<open>An operation carries out a transition of the job filed under an id, and nothing else.\<close>

definition implements_transition ::
  "('r \<Rightarrow> bool) \<Rightarrow> ('r \<Rightarrow> string \<Rightarrow> ReflectionJob option) \<Rightarrow> ('r \<Rightarrow> string \<Rightarrow> EventWindow option)
   \<Rightarrow> (string \<Rightarrow> ('r, repository_error, ReflectionJob) comp)
   \<Rightarrow> (string \<Rightarrow> ReflectionJob \<Rightarrow> repository_error + ReflectionJob) \<Rightarrow> bool" where
  "implements_transition ok job_at window_at op f \<longleftrightarrow>
     (\<forall>r wid j j'. ok r \<longrightarrow> job_at r wid = Some j \<longrightarrow> f wid j = Inr j' \<longrightarrow>
       (\<exists>r'. op wid r = (Inr j', r') \<and> ok r' \<and> job_at r' = (job_at r)(wid \<mapsto> j') \<and>
         window_at r' = window_at r))"

lemma implements_transitionE:
  assumes "implements_transition ok job_at window_at op f" and "ok r" and "job_at r wid = Some j"
    and "f wid j = Inr j'"
  obtains r' where "op wid r = (Inr j', r')" and "ok r'" and "job_at r' = (job_at r)(wid \<mapsto> j')"
    and "window_at r' = window_at r"
  using assms unfolding implements_transition_def by blast

text \<open>What one call of \<open>runOnce\<close> may do to the jobs: nothing, or settle the one job it claimed.\<close>

definition run_outcome ::
  "'c run_env \<Rightarrow> (string \<Rightarrow> ReflectionJob option) \<Rightarrow> (string \<Rightarrow> ReflectionJob option)
   \<Rightarrow> ReflectionJobRunResult \<Rightarrow> bool" where
  "run_outcome env before after res =
     (case res of
        Idle \<Rightarrow> after = before
      | Committed wid \<Rightarrow> \<exists>j. after = before(wid \<mapsto> j) \<and> job_state j = COMMITTED
      | Abandoned wid phase \<Rightarrow> \<exists>j. after = before(wid \<mapsto> j) \<and> leaseExpiresAtMs j = None \<and>
          job_state j \<in> {READY, RESULT_PERSISTED}
      | RetryScheduled wid t phase \<Rightarrow> \<exists>j. after = before(wid \<mapsto> j) \<and> leaseExpiresAtMs j = None \<and>
          job_state j = RETRY_WAIT \<and> nextAttemptAtMs j = Some t \<and> nowMs env AtFailure \<le> t
      | TerminalFailed wid phase \<Rightarrow> \<exists>j. after = before(wid \<mapsto> j) \<and> leaseExpiresAtMs j = None \<and>
          job_state j = TERMINAL_FAILED)"

lemma run_outcome_update:
  assumes "run_outcome env (before(wid \<mapsto> k)) after res"
    and "res \<in> {Committed wid, Abandoned wid ph, TerminalFailed wid ph} \<or> (\<exists>t. res = RetryScheduled wid t ph)"
  shows "run_outcome env before after res"
  using assms by (auto simp: run_outcome_def)

lemma awaitRepo_Inr: "op (repository s) = (Inr x, r) \<Longrightarrow> awaitRepo op s = (Inr x, s\<lparr>repository := r\<rparr>)"
  by (simp add: awaitRepo_def)

definition delays_ok :: "ReflectionJobRunnerOptions \<Rightarrow> bool" where
  "delays_ok opts \<longleftrightarrow> retryDelaysMs opts \<noteq> [] \<and> list_all (\<lambda>d. 0 \<le> d) (retryDelaysMs opts)"

lemma ReflectionJobRunner_ok: "ReflectionJobRunner o1 = Inr o2 \<longleftrightarrow> o2 = o1 \<and> delays_ok o1"
  by (force simp: ReflectionJobRunner_def delays_ok_def list_ex_iff list_all_iff not_less)

lemma retry_delay_nonneg:
  "delays_ok opts \<Longrightarrow> 0 \<le> retryDelaysMs opts ! min n (length (retryDelaysMs opts) - 1)"
  by (auto simp: delays_ok_def list_all_iff in_set_conv_nth min_def)
    (metis One_nat_def Suc_pred le_imp_less_Suc length_greater_0_conv nat_le_linear nth_mem)+

text \<open>The result of a settled run names the job it settled.\<close>

fun result_window :: "ReflectionJobRunResult \<Rightarrow> string option" where
  "result_window Idle = None"
| "result_window (Committed w) = Some w"
| "result_window (Abandoned w _) = Some w"
| "result_window (RetryScheduled w _ _) = Some w"
| "result_window (TerminalFailed w _) = Some w"

lemma run_outcome_rebase:
  assumes "run_outcome env (before(wid \<mapsto> k)) after res" and "result_window res = Some wid"
  shows "run_outcome env before after res"
  using assms by (cases res) (auto simp: run_outcome_def)

locale durable_jobs =
  fixes repo :: "'r DurableReflectionJobRepository"
    and ok :: "'r \<Rightarrow> bool"
    and job_at :: "'r \<Rightarrow> string \<Rightarrow> ReflectionJob option"
    and window_at :: "'r \<Rightarrow> string \<Rightarrow> EventWindow option"
  assumes job_law: "ok r \<Longrightarrow> job_at r wid = Some j \<Longrightarrow> job_windowId j = wid \<and> job_inv j \<and>
        (\<exists>w. window_at r wid = Some w \<and> windowId w = wid)"
    and window_law: "ok r \<Longrightarrow> getWindow_of repo wid r = (Inr (window_at r wid), r)"
    and claim_law: "ok r \<Longrightarrow>
        claimNextRunnable_of repo now lease r = (Inr None, r) \<or>
        (\<exists>k r'. claimNextRunnable_of repo now lease r = (Inr (Some (claimed_job now lease k)), r') \<and>
          ok r' \<and> job_at r (job_windowId k) = Some k \<and> isRunnable k now \<and>
          job_at r' = (job_at r)(job_windowId k \<mapsto> claimed_job now lease k) \<and>
          window_at r' = window_at r)"
    and persist_law: "implements_transition ok job_at window_at
        (\<lambda>wid. persistResult_of repo wid x now) (\<lambda>wid. persist_job wid x now)"
    and begin_law: "implements_transition ok job_at window_at
        (\<lambda>wid. beginCommit_of repo wid now lease) (\<lambda>wid. begin_job now lease)"
    and abandon_law: "implements_transition ok job_at window_at
        (\<lambda>wid. abandonClaim_of repo wid now) (\<lambda>wid. abandon_job now)"
    and fail_law: "implements_transition ok job_at window_at
        (\<lambda>wid. recordFailure_of repo wid failure next terminal) (\<lambda>wid. fail_job failure next terminal)"
    and commit_law: "implements_transition ok job_at window_at
        (\<lambda>wid. markCommitted_of repo wid now) (\<lambda>wid. commit_job now)"
begin

lemma abandon_claim_settles:
  assumes "ok (repository s)" and "job_at (repository s) (job_windowId job) = Some job"
    and "job_state job \<in> {RUNNING, RESULT_PERSISTED, COMMITTING}"
  shows "\<exists>r'. abandon_claim repo env job ph s =
      (Inr (Abandoned (job_windowId job) ph), s\<lparr>repository := r'\<rparr>) \<and> ok r' \<and>
    run_outcome env (job_at (repository s)) (job_at r') (Abandoned (job_windowId job) ph)"
proof -
  obtain j' where j': "abandon_job (nowMs env AtAbandon) job = Inr j'"
      "leaseExpiresAtMs j' = None" "job_state j' \<in> {READY, RESULT_PERSISTED}"
    using assms(3) by (auto simp: abandon_job_def Let_def)
  from abandon_law assms(1,2) j'(1) obtain r' where
    "abandonClaim_of repo (job_windowId job) (nowMs env AtAbandon) (repository s) = (Inr j', r')"
    "ok r'" "job_at r' = (job_at (repository s))(job_windowId job \<mapsto> j')"
    by (rule implements_transitionE)
  with j'(2,3) show ?thesis
    by (auto simp: abandon_claim_def andThen_def ret_def awaitRepo_Inr run_outcome_def)
qed

lemma handleFailure_settles:
  assumes "ok (repository s)" and "job_at (repository s) (job_windowId job) = Some job"
    and "job_state job \<in> {RUNNING, COMMITTING}" and "0 < attempt job" and "delays_ok opts"
  shows "\<exists>res r'. handleFailure repo opts env job ph e s = (Inr res, s\<lparr>repository := r'\<rparr>) \<and> ok r' \<and>
    run_outcome env (job_at (repository s)) (job_at r') res \<and> result_window res = Some (job_windowId job)"
proof -
  define failure where "failure = \<lparr>failure_code = failureCode e, failure_message = errorMessage e,
      failedAtMs = nowMs env AtFailure\<rparr>"
  have rec_fail: "\<exists>r' j'. recordFailure_of repo (job_windowId job) failure next terminal (repository s) =
      (Inr j', r') \<and> ok r' \<and> job_at r' = (job_at (repository s))(job_windowId job \<mapsto> j') \<and>
      fail_job failure next terminal job = Inr j'" for "next" terminal
  proof -
    obtain j' where j': "fail_job failure next terminal job = Inr j'"
      using assms(3) by (auto simp: fail_job_def)
    from fail_law assms(1,2) j' show ?thesis by (rule implements_transitionE) (use j' in blast)
  qed
  let ?d = "retryDelaysMs opts ! min (attempt job - 1) (length (retryDelaysMs opts) - 1)"
  define soon where "soon = nowMs env AtFailure + ?d + max 0 (jitterMs opts ?d (attempt job))"
  have soon: "nowMs env AtFailure \<le> soon"
    using retry_delay_nonneg [OF assms(5), of "attempt job - 1"] by (simp add: soon_def)
  obtain r1 j1 where one: "recordFailure_of repo (job_windowId job) failure None True (repository s) =
      (Inr j1, r1)" "ok r1" "job_at r1 = (job_at (repository s))(job_windowId job \<mapsto> j1)"
      "fail_job failure None True job = Inr j1" using rec_fail by blast
  obtain r2 j2 where two: "recordFailure_of repo (job_windowId job) failure (Some soon) False
      (repository s) = (Inr j2, r2)" "ok r2"
      "job_at r2 = (job_at (repository s))(job_windowId job \<mapsto> j2)"
      "fail_job failure (Some soon) False job = Inr j2" using rec_fail by blast
  have j1: "leaseExpiresAtMs j1 = None" "job_state j1 = TERMINAL_FAILED"
    using one(4) by (auto simp: fail_job_def split: if_splits)
  have j2: "leaseExpiresAtMs j2 = None" "job_state j2 = RETRY_WAIT" "nextAttemptAtMs j2 = Some soon"
    using two(4) by (auto simp: fail_job_def split: if_splits)
  have "handleFailure repo opts env job ph e s =
      (Inr (TerminalFailed (job_windowId job) ph), s\<lparr>repository := r1\<rparr>) \<or>
    handleFailure repo opts env job ph e s =
      (Inr (RetryScheduled (job_windowId job) soon ph), s\<lparr>repository := r2\<rparr>)"
    using one(1) two(1) assms(4,5)
    by (simp add: handleFailure_def Let_def failure_def [symmetric] soon_def
        andThen_def ret_def awaitRepo_Inr delays_ok_def)
  moreover have "run_outcome env (job_at (repository s)) (job_at r1) (TerminalFailed (job_windowId job) ph)"
    using one(3) j1 by (auto simp: run_outcome_def)
  moreover have "run_outcome env (job_at (repository s)) (job_at r2)
      (RetryScheduled (job_windowId job) soon ph)"
    using two(3) j2 soon by (auto simp: run_outcome_def)
  ultimately show ?thesis using one(2) two(2) by (metis result_window.simps(4,5))
qed

lemma commit_phase_settles:
  assumes "ok (repository s)" and "job_at (repository s) (job_windowId job) = Some job"
    and "job_state job = COMMITTING" and "0 < attempt job" and "delays_ok opts"
    and "windowId w = job_windowId job"
  shows "\<exists>res s'. commit_phase repo opts env job w (Some x) s = (Inr res, s') \<and> ok (repository s') \<and>
    run_outcome env (job_at (repository s)) (job_at (repository s')) res \<and>
    result_window res = Some (job_windowId job)"
proof (cases "aborted env BeforeCommit")
  case True
  with abandon_claim_settles [OF assms(1,2), where env = env and ph = Commit] assms(3) show ?thesis
    by (auto simp: commit_phase_def)
next
  case False
  obtain cres c where c: "commit_call env w x (committer s) = (cres, c)" by fastforce
  let ?s = "s\<lparr>committer := c\<rparr>"
  have repo_same: "repository ?s = repository s" by simp
  show ?thesis
  proof (cases cres)
    case (Inl e)
    have "\<exists>res r'. abandon_claim repo env job Commit ?s = (Inr res, ?s\<lparr>repository := r'\<rparr>) \<and> ok r' \<and>
        run_outcome env (job_at (repository s)) (job_at r') res \<and>
        result_window res = Some (job_windowId job)"
      using abandon_claim_settles [where s = ?s and env = env and ph = Commit and job = job] assms(1,2,3)
      by auto
    moreover have "\<exists>res r'. handleFailure repo opts env job Commit e ?s =
        (Inr res, ?s\<lparr>repository := r'\<rparr>) \<and> ok r' \<and>
        run_outcome env (job_at (repository s)) (job_at r') res \<and>
        result_window res = Some (job_windowId job)"
      using handleFailure_settles [where s = ?s and env = env and ph = Commit and job = job and e = e
          and opts = opts] assms by simp
    ultimately show ?thesis using False c Inl assms(3)
      by (fastforce simp: commit_phase_def commit_try_def)
  next
    case (Inr u)
    define j' where "j' = job\<lparr>job_state := COMMITTED, job_updatedAtMs := nowMs env AtMarkCommitted,
      leaseExpiresAtMs := None, nextAttemptAtMs := None\<rparr>"
    have "commit_job (nowMs env AtMarkCommitted) job = Inr j'"
      using assms(3) by (simp add: commit_job_def j'_def)
    with commit_law assms(1,2) obtain r' where
      "markCommitted_of repo (job_windowId job) (nowMs env AtMarkCommitted) (repository s) = (Inr j', r')"
      "ok r'" "job_at r' = (job_at (repository s))(job_windowId job \<mapsto> j')"
      by (rule implements_transitionE)
    then show ?thesis using False c Inr assms(3,6)
      by (auto simp: commit_phase_def commit_try_def on_repository_def run_outcome_def j'_def)
  qed
qed

lemma run_claimed_settles:
  assumes "ok (repository s)" and "job_at (repository s) (job_windowId job) = Some job"
    and "job_state job \<in> {RUNNING, COMMITTING}" and "0 < attempt job" and "delays_ok opts"
    and "windowId w = job_windowId job"
  shows "\<exists>res s'. run_claimed repo opts env job w s = (Inr res, s') \<and> ok (repository s') \<and>
    run_outcome env (job_at (repository s)) (job_at (repository s')) res \<and>
    result_window res = Some (job_windowId job)"
proof (cases "job_state job = RUNNING")
  case False
  with assms(3) have "job_state job = COMMITTING" by simp
  moreover then obtain x where "job_reflection job = Some x"
    using job_law [OF assms(1,2)] by (auto simp: job_inv_def)
  ultimately show ?thesis
    using commit_phase_settles [OF assms(1,2) _ assms(4,5,6), of env x] by (simp add: run_claimed_def)
next
  case True
  let ?wid = "job_windowId job"
  have fresh: "job_reflection job = None" using job_law [OF assms(1,2)] True by (simp add: job_inv_def)
  show ?thesis
  proof (cases "guarded_inference env w")
    case (Inl e)
    with True abandon_claim_settles [OF assms(1-2), where env = env and ph = Inference]
      handleFailure_settles [OF assms(1-5), where env = env and ph = Inference and e = e]
    show ?thesis by (auto simp: run_claimed_def)
  next
    case (Inr x)
    then have "rf_windowId x = windowId w"
      by (auto simp: guarded_inference_def assertReflectionMatchesWindow_def
          split: if_splits sum.splits)
    define j1 where "j1 = job\<lparr>job_state := RESULT_PERSISTED, job_reflection := Some x,
      job_updatedAtMs := nowMs env AtPersist, leaseExpiresAtMs := None\<rparr>"
    have "persist_job ?wid x (nowMs env AtPersist) job = Inr j1"
      using True fresh \<open>rf_windowId x = windowId w\<close> assms(6) by (simp add: persist_job_def j1_def)
    with persist_law assms(1,2) obtain r1 where r1:
      "persistResult_of repo ?wid x (nowMs env AtPersist) (repository s) = (Inr j1, r1)" "ok r1"
      "job_at r1 = (job_at (repository s))(?wid \<mapsto> j1)" by (rule implements_transitionE)
    define j2 where "j2 = j1\<lparr>job_state := COMMITTING, job_updatedAtMs := nowMs env AtBegin,
      leaseExpiresAtMs := Some (nowMs env AtBegin + leaseDurationMs opts)\<rparr>"
    have "begin_job (nowMs env AtBegin) (leaseDurationMs opts) j1 = Inr j2"
      by (simp add: begin_job_def j1_def j2_def)
    moreover have "job_at r1 ?wid = Some j1" using r1(3) by simp
    ultimately obtain r2 where r2:
      "beginCommit_of repo ?wid (nowMs env AtBegin) (leaseDurationMs opts) r1 = (Inr j2, r2)" "ok r2"
      "job_at r2 = (job_at r1)(?wid \<mapsto> j2)" using begin_law r1(2) by (blast elim: implements_transitionE)
    have wids: "job_windowId j1 = ?wid" "job_windowId j2 = ?wid" by (simp_all add: j1_def j2_def)
    have ab: "\<exists>r'. abandon_claim repo env j1 Commit (s\<lparr>repository := r1\<rparr>) =
        (Inr (Abandoned ?wid Commit), s\<lparr>repository := r'\<rparr>) \<and> ok r' \<and>
        run_outcome env (job_at r1) (job_at r') (Abandoned ?wid Commit)"
      using abandon_claim_settles [where s = "s\<lparr>repository := r1\<rparr>" and job = j1 and env = env and ph = Commit]
        r1 wids by (simp add: j1_def)
    have cp: "\<exists>res s'. commit_phase repo opts env j2 w (Some x) (s\<lparr>repository := r2\<rparr>) = (Inr res, s') \<and>
        ok (repository s') \<and> run_outcome env (job_at r2) (job_at (repository s')) res \<and>
        result_window res = Some ?wid"
      using commit_phase_settles [where s = "s\<lparr>repository := r2\<rparr>" and job = j2 and env = env and x = x
          and w = w and opts = opts] r2 wids assms(4,5,6) by (simp add: j2_def j1_def)
    show ?thesis
    proof (cases "aborted env AfterPersist")
      case aborted: True
      from ab r1 obtain r' where "abandon_claim repo env j1 Commit (s\<lparr>repository := r1\<rparr>) =
          (Inr (Abandoned ?wid Commit), s\<lparr>repository := r'\<rparr>)" "ok r'"
          "run_outcome env (job_at (repository s)) (job_at r') (Abandoned ?wid Commit)"
        by (metis result_window.simps(3) run_outcome_rebase)
      then show ?thesis using True Inr aborted r1 assms(6)
        by (simp add: run_claimed_def andThen_def awaitRepo_Inr)
    next
      case nab: False
      from cp r1 r2 obtain res s' where "commit_phase repo opts env j2 w (Some x)
          (s\<lparr>repository := r2\<rparr>) = (Inr res, s')" "ok (repository s')"
          "run_outcome env (job_at (repository s)) (job_at (repository s')) res"
          "result_window res = Some ?wid" by (metis fun_upd_upd run_outcome_rebase)
      then show ?thesis using True Inr nab r1 r2 assms(6)
        by (simp add: run_claimed_def andThen_def awaitRepo_Inr)
    qed
  qed
qed

lemma runOnce_settles:
  assumes "ok (repository s)" and "\<not> running s" and "delays_ok opts"
  shows "\<exists>res s'. runOnce repo opts env s = (Inr res, s') \<and> ok (repository s') \<and> \<not> running s' \<and>
    run_outcome env (job_at (repository s)) (job_at (repository s')) res"
proof (cases "aborted env AtEntry")
  case True
  with assms show ?thesis by (simp add: runOnce_def run_outcome_def)
next
  case False
  let ?s = "s\<lparr>running := True\<rparr>" and ?now = "nowMs env AtClaim" and ?lease = "leaseDurationMs opts"
  consider (none) "claimNextRunnable_of repo ?now ?lease (repository s) = (Inr None, repository s)"
    | (some) k r' where "claimNextRunnable_of repo ?now ?lease (repository s) =
          (Inr (Some (claimed_job ?now ?lease k)), r')" "ok r'"
        "job_at (repository s) (job_windowId k) = Some k" "isRunnable k ?now"
        "job_at r' = (job_at (repository s))(job_windowId k \<mapsto> claimed_job ?now ?lease k)"
        "window_at r' = window_at (repository s)"
    using claim_law [OF assms(1), of ?now ?lease] by blast
  then show ?thesis
  proof cases
    case none
    then have "run_body repo opts env ?s = (Inr Idle, ?s)"
      by (simp add: run_body_def andThen_def awaitRepo_def ret_def)
    with assms False show ?thesis by (simp add: runOnce_def run_outcome_def)
  next
    case some
    let ?job = "claimed_job ?now ?lease k"
    have wid: "job_windowId ?job = job_windowId k" by (simp add: claimed_job_def)
    obtain w where w: "window_at r' (job_windowId k) = Some w" "windowId w = job_windowId k"
      using job_law [OF assms(1) some(3)] some(6) by auto
    have "\<exists>res s'. run_claimed repo opts env ?job w (?s\<lparr>repository := r'\<rparr>) = (Inr res, s') \<and>
        ok (repository s') \<and> run_outcome env (job_at r') (job_at (repository s')) res \<and>
        result_window res = Some (job_windowId k)"
      using run_claimed_settles [where s = "?s\<lparr>repository := r'\<rparr>" and job = ?job and w = w
          and opts = opts and env = env] some w assms(3) wid
      by (simp add: claimed_job_def)
    then obtain res s' where rc: "run_claimed repo opts env ?job w (?s\<lparr>repository := r'\<rparr>) = (Inr res, s')"
        "ok (repository s')" "run_outcome env (job_at (repository s)) (job_at (repository s')) res"
      using some(5) by (metis run_outcome_rebase)
    have "run_body repo opts env ?s = (Inr res, s')"
      using some(1,2) w wid rc(1)
      by (simp add: run_body_def andThen_def awaitRepo_def window_law)
    with rc(2,3) assms(2) False show ?thesis by (simp add: runOnce_def)
  qed
qed

end

subsection \<open>The in-memory repository keeps the contract\<close>

lemma with_job_implements:
  assumes "\<And>wid j j'. job_inv j \<Longrightarrow> job_windowId j = wid \<Longrightarrow> f wid j = Inr j' \<Longrightarrow> job_moves j j' \<and> job_inv j'"
  shows "implements_transition repo_inv (\<lambda>r. jget (jobs r)) (\<lambda>r. jget (windows r))
    (\<lambda>wid. with_job wid (f wid)) f"
  unfolding implements_transition_def
proof (intro allI impI)
  fix r wid j j'
  assume r: "repo_inv r" and j: "jget (jobs r) wid = Some j" and j': "f wid j = Inr j'"
  have "repo_inv (snd (with_job wid (f wid) r))" using r assms by (rule with_job_inv)
  with j j' show "\<exists>r'. with_job wid (f wid) r = (Inr j', r') \<and> repo_inv r' \<and>
      jget (jobs r') = (jget (jobs r))(wid \<mapsto> j') \<and> jget (windows r') = jget (windows r)"
    by (auto simp: with_job_def put_job_def update_conv')
qed

interpretation mem: durable_jobs "in_memory_jobs lc" repo_inv "\<lambda>r. jget (jobs r)" "\<lambda>r. jget (windows r)"
proof (unfold_locales, goal_cases)
  case (1 r wid j)
  then show ?case using repo_inv_job [OF 1] by (auto elim: repo_inv_window)
next
  case (2 r wid)
  then show ?case by (simp add: in_memory_jobs_def getWindow_def)
next
  case (3 r now lease)
  obtain res r' where c: "claimNextRunnable lc now lease r = (res, r')" by fastforce
  have "repo_inv r'" using claim_inv [OF 3, of lc now lease] c by simp
  from 3 c show ?case
  proof (cases rule: claim_cases)
    case idle
    with c show ?thesis by (simp add: in_memory_jobs_def)
  next
    case (claimed j)
    let ?c = "claimed_job now lease j"
    have "jget (jobs r') = (jget (jobs r))(job_windowId j \<mapsto> ?c)" and "windows r' = windows r"
      using claimed(4) by (auto simp: put_job_def update_conv')
    moreover have "claimNextRunnable_of (in_memory_jobs lc) now lease r = (Inr (Some ?c), r')"
      using c claimed(3) by (simp add: in_memory_jobs_def)
    ultimately show ?thesis using \<open>repo_inv r'\<close> claimed(2,5)
      by (intro disjI2 exI [of _ j] exI [of _ r']) (auto simp: fun_eq_iff)
  qed
next
  case (4 x now)
  then show ?case
    using with_job_implements [of "\<lambda>wid. persist_job wid x now"] persist_ok
    by (simp add: in_memory_jobs_def persistResult_def [abs_def])
next
  case (5 now lease)
  then show ?case
    using with_job_implements [of "\<lambda>wid. begin_job now lease"] begin_ok
    by (simp add: in_memory_jobs_def beginCommit_def [abs_def])
next
  case (6 now)
  then show ?case
    using with_job_implements [of "\<lambda>wid. abandon_job now"] abandon_ok
    by (simp add: in_memory_jobs_def abandonClaim_def [abs_def])
next
  case (7 failure "next" terminal)
  then show ?case
    using with_job_implements [of "\<lambda>wid. fail_job failure next terminal"] fail_ok
    by (simp add: in_memory_jobs_def recordFailure_def [abs_def])
next
  case (8 now)
  then show ?case
    using with_job_implements [of "\<lambda>wid. commit_job now"] commit_ok
    by (simp add: in_memory_jobs_def markCommitted_def [abs_def])
qed

text \<open>C14: From every reachable repository, one run of the job runner never rejects and never
  leaves a lease behind: it is idle, or it settles exactly the job it claimed as committed,
  abandoned (runnable again), waiting for a retry that is not in the past, or terminally failed,
  and it leaves every other job alone. This holds whatever the provider, the committer, the clock
  and the abort signal do.\<close>

theorem runOnce_settles_its_job:
  assumes "ReflectionJobRunner opts = Inr opts"
    and "repository s = repo_run lc cs empty_repository" and "\<not> running s"
  shows "\<exists>res s'. runOnce (in_memory_jobs lc) opts env s = (Inr res, s') \<and> \<not> running s' \<and>
    repo_inv (repository s') \<and>
    run_outcome env (jget (jobs (repository s))) (jget (jobs (repository s'))) res"
proof -
  have "repo_inv (repository s)" using assms(2) repo_run_inv [OF repo_inv_empty] by simp
  moreover have "delays_ok opts" using assms(1) by (simp add: ReflectionJobRunner_ok)
  ultimately show ?thesis using mem.runOnce_settles [of s opts lc env] assms(3) by blast
qed

text \<open>The runner is not reentrant: while a run is under way a second one is refused without
  touching anything, and when a run ends, also with an error, the runner is free again.\<close>

lemma runOnce_not_reentrant:
  "(running s \<longrightarrow> runOnce repo opts env s = (Inl RunnerBusy, s)) \<and>
   (\<not> running s \<longrightarrow> \<not> running (snd (runOnce repo opts env s)))"
  by (auto simp: runOnce_def split: prod.splits)

text \<open>A failure is terminal exactly when the error says so or the job has been failing for
  \<open>terminalAfterMs\<close>; otherwise the retry waits for the back-off delay of the attempt, the last
  delay from then on, plus a jitter that never shortens it.\<close>

lemma handleFailure_backoff:
  assumes "delays_ok opts" and "0 < attempt job"
    and "handleFailure repo opts env job phase error s = (Inr res, s')"
  shows "res = (if isExplicitlyNonRetryable error \<or>
       (\<exists>t. firstAttemptAtMs job = Some t \<and> terminalAfterMs opts \<le> nowMs env AtFailure - t) \<or>
       (firstAttemptAtMs job = None \<and> terminalAfterMs opts \<le> 0)
     then TerminalFailed (job_windowId job) phase
     else RetryScheduled (job_windowId job)
       (let d = retryDelaysMs opts ! min (attempt job - 1) (length (retryDelaysMs opts) - 1)
        in nowMs env AtFailure + d + max 0 (jitterMs opts d (attempt job))) phase)"
  using assms
  by (auto simp: handleFailure_def Let_def delays_ok_def awaitRepo_def ret_def
      elim!: andThen_InrE split: if_splits option.splits)

text \<open>The queue reports back-pressure exactly when a threshold is reached, and suppresses
  immediate feedback exactly then.\<close>

lemma getQueuePressure_spec:
  "\<exists>stats. getQueuePressure (in_memory_jobs lc) opts r =
     (Inr (if drainingJobThreshold opts \<le> pendingJobs stats \<or>
              drainingEventThreshold opts \<le> pendingEvents stats then draining else accepting,
           stats, \<not> (drainingJobThreshold opts \<le> pendingJobs stats \<or>
              drainingEventThreshold opts \<le> pendingEvents stats)), r) \<and>
     pendingJobs stats = length (filter (\<lambda>j. job_state j \<noteq> COMMITTED \<and> job_state j \<noteq> TERMINAL_FAILED)
       (jvalues (jobs r)))"
  by (simp add: getQueuePressure_def in_memory_jobs_def getQueueStats_def Let_def andThen_def ret_def)

end
