(* ===== verification/Inference.thy ===== *)
theory Inference
  imports JobRunner
begin

text \<open>
  The conservative local inference, the feedback policy and the reminder deduper,
  \<open>src/agent/reflection/inference.ts\<close>. The SHA-256 digest of a string (\<open>crypto.subtle\<close>) is the
  parameter \<open>digest\<close>, a list of byte values; what is relied on is that it has 32 bytes.
\<close>

subsection \<open>Distributions\<close>

definition minimallyBiasedDistribution :: "'l list \<Rightarrow> 'l \<Rightarrow> ('l, real) jmap" where
  "minimallyBiasedDistribution labels target =
     (let epsilon = 1 / 10 ^ 6; base = 1 / real (length labels)
      in map (\<lambda>l. (l, if l = target then base + epsilon * (real (length labels) - 1)
                       else base - epsilon)) labels)"

text \<open>Reading a label of a \<open>Record<L, number>\<close>, which holds every label.\<close>

definition probability_of :: "('l, real) jmap \<Rightarrow> 'l \<Rightarrow> real" where
  "probability_of d l = (case jget d l of None \<Rightarrow> 0 | Some p \<Rightarrow> p)"

definition maximumProbability :: "('l, real) jmap \<Rightarrow> 'l list \<Rightarrow> real" where
  "maximumProbability d labels = foldl (\<lambda>m l. max m (probability_of d l)) 0 labels"

definition normalizedEntropy :: "('l, real) jmap \<Rightarrow> 'l list \<Rightarrow> real" where
  "normalizedEntropy d labels =
     (let total = foldl (\<lambda>h l. let p = probability_of d l in if 0 < p then h - p * ln p else h) 0 labels
      in max 0 (min 1 (total / ln (real (length labels)))))"

subsection \<open>Inference\<close>

datatype inference_error = InferenceCancelled | InconsistentGoalMetadata | EmbeddingUnavailable

definition embedding_seed :: "EventWindow \<Rightarrow> nat \<Rightarrow> string" where
  "embedding_seed w block =
     ''whalehall-reflection-embedding.v1'' @ [char_of (0::nat)] @ windowId w @ [char_of (0::nat)] @
     inputHash w @ [char_of (0::nat)] @ show_nat block"

definition deterministicEmbedding :: "(string \<Rightarrow> nat list) \<Rightarrow> EventWindow \<Rightarrow> inference_error + real list" where
  "deterministicEmbedding digest w =
     (let vector = concat (map (\<lambda>block. map (\<lambda>byte. (real byte - 127.5) / 127.5)
            (digest (embedding_seed w block))) [0..<8]);
          norm = hypot vector
      in if norm = 0 then Inl EmbeddingUnavailable else Inr (map (\<lambda>item. item / norm) vector))"

definition uniqueEvidenceEventIds :: "EventWindow \<Rightarrow> string list" where
  "uniqueEvidenceEventIds w = js_unique (map eventId (filter isCountedSemanticEvent (win_events w)))"

definition assertWindowGoalInvariant :: "EventWindow \<Rightarrow> inference_error + unit" where
  "assertWindowGoalInvariant w =
     (if (win_goal w = None \<and> win_goalVersion w \<noteq> None) \<or>
         (win_goal w \<noteq> None \<and> win_goalVersion w \<noteq> map_option goal_version (win_goal w))
      then Inl InconsistentGoalMetadata else Inr ())"

definition deterministic_model_version :: string where
  "deterministic_model_version = ''deterministic-reflection.v1''"

definition DEFAULT_REFLECTION_TAXONOMY_VERSION :: string where
  "DEFAULT_REFLECTION_TAXONOMY_VERSION = ''activity-taxonomy.v1''"

text \<open>\<open>abortedBefore\<close> and \<open>abortedAfter\<close> are what the signal says at the two checks.\<close>

definition infer ::
  "(string \<Rightarrow> nat list) \<Rightarrow> bool \<Rightarrow> bool \<Rightarrow> EventWindow \<Rightarrow> inference_error + Reflection" where
  "infer digest abortedBefore abortedAfter w =
     (if abortedBefore then Inl InferenceCancelled
      else case assertWindowGoalInvariant w of Inl e \<Rightarrow> Inl e | Inr _ \<Rightarrow>
        let hasGoal = (win_goal w \<noteq> None);
            activityProbabilities = minimallyBiasedDistribution ACTIVITY_LABELS other_unknown;
            goalProbabilities = minimallyBiasedDistribution GOAL_RELEVANCE_LABELS uncertain
        in case deterministicEmbedding digest w of Inl e \<Rightarrow> Inl e | Inr vector \<Rightarrow>
          if abortedAfter then Inl InferenceCancelled
          else Inr
            \<lparr>rf_schemaVersion = REFLECTION_SCHEMA_VERSION,
             rf_windowId = windowId w,
             rf_triggerReason = win_triggerReason w,
             rf_eventCount = win_eventCount w,
             durationMs = max 0 (win_endedAtMs w - win_startedAtMs w),
             rf_goalVersion = (if hasGoal then win_goalVersion w else None),
             activity = \<lparr>label = other_unknown, probabilities = activityProbabilities\<rparr>,
             goalRelevance = (if hasGoal
               then Some \<lparr>label = uncertain, probabilities = goalProbabilities\<rparr> else None),
             embedding = vector,
             confidence = min (maximumProbability activityProbabilities ACTIVITY_LABELS)
               (if hasGoal then maximumProbability goalProbabilities GOAL_RELEVANCE_LABELS else 1),
             entropy = max (normalizedEntropy activityProbabilities ACTIVITY_LABELS)
               (if hasGoal then normalizedEntropy goalProbabilities GOAL_RELEVANCE_LABELS else 0),
             abstain = True,
             evidenceEventIds = uniqueEvidenceEventIds w,
             feedbackCode = silent,
             modelVersion = deterministic_model_version,
             taxonomyVersion = DEFAULT_REFLECTION_TAXONOMY_VERSION\<rparr>)"

subsection \<open>Feedback policy\<close>

record FeedbackSelectionInput =
  hasGoal :: bool
  fb_activity :: ActivityLabel
  fb_goalRelevance :: "GoalRelevanceLabel option"
  fb_abstain :: bool

definition selectFeedbackCode :: "FeedbackSelectionInput \<Rightarrow> FeedbackCode" where
  "selectFeedbackCode input =
     (if \<not> hasGoal input \<or> fb_abstain input then silent
      else case fb_goalRelevance input of
        None \<Rightarrow> silent
      | Some relevance \<Rightarrow>
          if fb_activity input = idle_transition then takeBreak
          else case relevance of
            direct \<Rightarrow> encourage | supporting \<Rightarrow> encourage
          | unrelated \<Rightarrow> refocus | uncertain \<Rightarrow> clarifyGoal)"

subsection \<open>Reminder deduplication\<close>

fun feedback_name :: "FeedbackCode \<Rightarrow> string" where
  "feedback_name silent = ''silent''"
| "feedback_name encourage = ''encourage''"
| "feedback_name refocus = ''refocus''"
| "feedback_name clarifyGoal = ''clarifyGoal''"
| "feedback_name takeBreak = ''takeBreak''"

record ReflectionReminderDeduper =
  deduplicationMs :: int
  lastReminderAtByKey :: "(string, int) jmap"

definition new_deduper :: "int \<Rightarrow> unit + ReflectionReminderDeduper" where
  "new_deduper ms = (if ms < 1 then Inl () else Inr \<lparr>deduplicationMs = ms, lastReminderAtByKey = []\<rparr>)"

definition reminder_key :: "Reflection \<Rightarrow> string" where
  "reminder_key r = js_join [char_of (0::nat)]
     [activity_name (label (activity r)),
      (case goalRelevance r of None \<Rightarrow> ''no_goal'' | Some g \<Rightarrow> relevance_name (label g)),
      feedback_name (feedbackCode r)]"

definition prune :: "int \<Rightarrow> ReflectionReminderDeduper \<Rightarrow> ReflectionReminderDeduper" where
  "prune now d = d\<lparr>lastReminderAtByKey :=
     filter (\<lambda>e. \<not> deduplicationMs d \<le> now - snd e) (lastReminderAtByKey d)\<rparr>"

definition shouldNotify ::
  "Reflection \<Rightarrow> int \<Rightarrow> ReflectionReminderDeduper \<Rightarrow> bool \<times> ReflectionReminderDeduper" where
  "shouldNotify r now d =
     (if feedbackCode r = silent then (False, d)
      else
        let key = reminder_key r
        in case jget (lastReminderAtByKey d) key of
             Some previous \<Rightarrow>
               if now - previous < deduplicationMs d then (False, d)
               else (True, prune now (d\<lparr>lastReminderAtByKey := jset key now (lastReminderAtByKey d)\<rparr>))
           | None \<Rightarrow>
               (True, prune now (d\<lparr>lastReminderAtByKey := jset key now (lastReminderAtByKey d)\<rparr>)))"

definition clear_reminders :: "ReflectionReminderDeduper \<Rightarrow> ReflectionReminderDeduper" where
  "clear_reminders d = d\<lparr>lastReminderAtByKey := []\<rparr>"

subsection \<open>The embedding has unit length\<close>

lemma sum_squares_scale:
  "sum_list (map (\<lambda>x. x * x) (map (\<lambda>x. x / n) xs)) = sum_list (map (\<lambda>x. x * x) xs) / (n * n)"
  for n :: real
  by (induction xs) (auto simp: add_divide_distrib)

lemma sum_squares_nonneg: "0 \<le> sum_list (map (\<lambda>x. x * x) xs)" for xs :: "real list"
  by (induction xs) auto

lemma hypot_normalized:
  assumes "hypot xs \<noteq> 0"
  shows "hypot (map (\<lambda>x. x / hypot xs) xs) = 1"
proof -
  let ?q = "sum_list (map (\<lambda>x. x * x) xs)"
  have "hypot xs * hypot xs = ?q" by (simp add: hypot_def sum_squares_nonneg)
  moreover have "?q \<noteq> 0" using assms by (auto simp: hypot_def)
  ultimately show ?thesis by (simp add: hypot_def [of "map _ _"] sum_squares_scale del: map_map)
qed

lemma hypot_eq_0: "hypot xs = 0 \<Longrightarrow> x \<in> set xs \<Longrightarrow> x = 0"
proof -
  assume "hypot xs = 0" and x: "x \<in> set xs"
  then have "sum_list (map (\<lambda>x. x * x) xs) = 0" by (simp add: hypot_def)
  then have "x * x = 0" using x
    by (subst (asm) sum_list_nonneg_eq_0_iff) auto
  then show "x = 0" by simp
qed

lemma deterministicEmbedding_ok:
  assumes "\<And>s. length (digest s) = 32"
  obtains v where "deterministicEmbedding digest w = Inr v" and "length v = 256" and "hypot v = 1"
proof -
  define vector where "vector = concat (map (\<lambda>block. map (\<lambda>byte. (real byte - 127.5) / 127.5)
      (digest (embedding_seed w block))) [0..<8])"
  have len: "length vector = 256"
    by (simp add: vector_def length_concat comp_def assms sum_list_replicate upt_conv_Cons)
  have "\<forall>x \<in> set vector. x \<noteq> 0"
  proof
    fix x
    assume "x \<in> set vector"
    then obtain b :: nat where "x = (real b - 127.5) / 127.5" by (auto simp: vector_def)
    moreover have "2 * real b \<noteq> 255" by (metis even_mult_iff even_numeral odd_numeral of_nat_eq_iff
        of_nat_mult of_nat_numeral)
    ultimately show "x \<noteq> 0" by auto
  qed
  moreover have "hd vector \<in> set vector" using len by (intro hd_in_set) auto
  ultimately have "hypot vector \<noteq> 0" using hypot_eq_0 [of vector "hd vector"] by blast
  moreover from this have "deterministicEmbedding digest w = Inr (map (\<lambda>x. x / hypot vector) vector)"
    unfolding deterministicEmbedding_def Let_def vector_def by (rule if_not_P)
  ultimately show ?thesis
    using len by (intro that [of "map (\<lambda>x. x / hypot vector) vector"] hypot_normalized) auto
qed

subsection \<open>The distributions are over the full taxonomy\<close>

lemma activity_distribution_ok:
  "assertDistribution (minimallyBiasedDistribution ACTIVITY_LABELS other_unknown)
     ACTIVITY_LABELS other_unknown field = Inr ()"
  by (simp add: assertDistribution_def minimallyBiasedDistribution_def ACTIVITY_LABELS_def
      isUnitInterval_def Let_def del: not_None_eq)

lemma goal_distribution_ok:
  "assertDistribution (minimallyBiasedDistribution GOAL_RELEVANCE_LABELS uncertain)
     GOAL_RELEVANCE_LABELS uncertain field = Inr ()"
  by (simp add: assertDistribution_def minimallyBiasedDistribution_def GOAL_RELEVANCE_LABELS_def
      isUnitInterval_def Let_def del: not_None_eq)

lemma activity_confidence:
  "isUnitInterval (maximumProbability (minimallyBiasedDistribution ACTIVITY_LABELS other_unknown)
     ACTIVITY_LABELS)"
  by (simp add: maximumProbability_def probability_of_def minimallyBiasedDistribution_def
      ACTIVITY_LABELS_def isUnitInterval_def Let_def)

lemma goal_confidence:
  "isUnitInterval (maximumProbability (minimallyBiasedDistribution GOAL_RELEVANCE_LABELS uncertain)
     GOAL_RELEVANCE_LABELS)"
  by (simp add: maximumProbability_def probability_of_def minimallyBiasedDistribution_def
      GOAL_RELEVANCE_LABELS_def isUnitInterval_def Let_def)

lemma normalizedEntropy_unit: "isUnitInterval (normalizedEntropy d labels)"
  by (simp add: normalizedEntropy_def isUnitInterval_def Let_def)

lemma isUnitInterval_min: "isUnitInterval x \<Longrightarrow> isUnitInterval y \<Longrightarrow> isUnitInterval (min x y)"
  and isUnitInterval_max: "isUnitInterval x \<Longrightarrow> isUnitInterval y \<Longrightarrow> isUnitInterval (max x y)"
  and isUnitInterval_0: "isUnitInterval 0" and isUnitInterval_1: "isUnitInterval 1"
  by (auto simp: isUnitInterval_def)

lemmas unit_interval_facts = isUnitInterval_min isUnitInterval_max isUnitInterval_0 isUnitInterval_1
  normalizedEntropy_unit activity_confidence goal_confidence

subsection \<open>What the inference returns\<close>

lemma distinct_uniqueEvidenceEventIds: "distinct (uniqueEvidenceEventIds w)"
  by (simp add: uniqueEvidenceEventIds_def)

lemma set_uniqueEvidenceEventIds:
  "set (uniqueEvidenceEventIds w) = eventId ` {e \<in> set (win_events w). isCountedSemanticEvent e}"
  by (auto simp: uniqueEvidenceEventIds_def)

lemma infer_Inr_iff:
  assumes "\<forall>s. length (digest s) = 32"
  shows "(\<exists>r. infer digest before after w = Inr r) \<longleftrightarrow>
    \<not> before \<and> \<not> after \<and> win_goalVersion w = map_option goal_version (win_goal w)"
proof -
  obtain v where "deterministicEmbedding digest w = Inr v" "length v = 256" "hypot v = 1"
    by (rule deterministicEmbedding_ok [of digest w]) (auto simp: assms)
  then show ?thesis
    by (cases "win_goal w") (auto simp: infer_def assertWindowGoalInvariant_def Let_def)
qed

lemma infer_fields:
  assumes "infer digest before after w = Inr r" and "deterministicEmbedding digest w = Inr v"
  shows "rf_schemaVersion r = REFLECTION_SCHEMA_VERSION" and "rf_windowId r = windowId w"
    and "rf_triggerReason r = win_triggerReason w" and "rf_eventCount r = win_eventCount w"
    and "durationMs r = max 0 (win_endedAtMs w - win_startedAtMs w)"
    and "rf_goalVersion r = (if win_goal w \<noteq> None then win_goalVersion w else None)"
    and "activity r = \<lparr>label = other_unknown,
      probabilities = minimallyBiasedDistribution ACTIVITY_LABELS other_unknown\<rparr>"
    and "goalRelevance r = (if win_goal w \<noteq> None then Some \<lparr>label = uncertain,
      probabilities = minimallyBiasedDistribution GOAL_RELEVANCE_LABELS uncertain\<rparr> else None)"
    and "embedding r = v" and "isUnitInterval (confidence r)" and "isUnitInterval (entropy r)"
    and "abstain r" and "evidenceEventIds r = uniqueEvidenceEventIds w" and "feedbackCode r = silent"
    and "modelVersion r \<noteq> ''''" and "taxonomyVersion r \<noteq> ''''"
  using assms
  by (auto simp: infer_def Let_def deterministic_model_version_def unit_interval_facts
      DEFAULT_REFLECTION_TAXONOMY_VERSION_def split: if_splits sum.splits)

lemma assertReflectionMatchesWindowI:
  assumes "rf_schemaVersion r = REFLECTION_SCHEMA_VERSION" and "rf_windowId r = windowId w"
    and "rf_triggerReason r = win_triggerReason w" and "rf_eventCount r = win_eventCount w"
    and "durationMs r = win_endedAtMs w - win_startedAtMs w" and "rf_goalVersion r = win_goalVersion w"
    and "(win_goalVersion w = None) = (goalRelevance r = None)"
    and "assertDistribution (probabilities (activity r)) ACTIVITY_LABELS (label (activity r))
      ''activity'' = Inr ()"
    and "\<And>g. goalRelevance r = Some g \<Longrightarrow> assertDistribution (probabilities g)
      GOAL_RELEVANCE_LABELS (label g) ''goalRelevance'' = Inr ()"
    and "isUnitInterval (confidence r)" and "isUnitInterval (entropy r)"
    and "length (embedding r) = 256" and "hypot (embedding r) = 1"
    and "win_goal w = None \<or> abstain r \<longrightarrow> feedbackCode r = silent"
    and "feedbackCode r = expectedFeedbackCode r"
    and "modelVersion r \<noteq> ''''" and "taxonomyVersion r \<noteq> ''''"
    and "evidenceEventIds r \<noteq> []" and "distinct (evidenceEventIds r)"
    and "\<not> list_ex (\<lambda>i. i \<notin> set (map eventId (filter isCountedSemanticEvent (win_events w))))
      (evidenceEventIds r)"
  shows "assertReflectionMatchesWindow r w = Inr ()"
proof -
  have g: "(case goalRelevance r of None \<Rightarrow> Inr () | Some g \<Rightarrow> assertDistribution (probabilities g)
      GOAL_RELEVANCE_LABELS (label g) ''goalRelevance'') = (Inr () :: match_error + unit)"
    using assms(9) by (auto split: option.splits)
  show ?thesis
    unfolding assertReflectionMatchesWindow_def g Let_def
    using assms(1-8,10-13,15-20) assms(14) by (auto simp del: set_map set_filter)
qed

lemma accepted_feedback:
  assumes "assertReflectionMatchesWindow r w = Inr ()"
  shows "win_goal w = None \<or> abstain r \<Longrightarrow> feedbackCode r = silent"
    and "feedbackCode r = expectedFeedbackCode r"
  using assms unfolding assertReflectionMatchesWindow_def Let_def
  by (simp_all split: if_splits sum.splits del: set_map set_filter)

text \<open>What the inference returns for a window with consistent goal metadata and a counted event passes
  every check of the runner.\<close>

lemma infer_matches:
  assumes "\<And>s. length (digest s) = 32"
    and "win_goalVersion w = map_option goal_version (win_goal w)"
    and "win_startedAtMs w \<le> win_endedAtMs w"
    and "list_ex isCountedSemanticEvent (win_events w)"
    and "infer digest before after w = Inr r"
  shows "assertReflectionMatchesWindow r w = Inr () \<and> abstain r \<and> feedbackCode r = silent \<and>
    rf_windowId r = windowId w"
proof -
  obtain v where v: "deterministicEmbedding digest w = Inr v" "length v = 256" "hypot v = 1"
    using assms(1) by (rule deterministicEmbedding_ok)
  have ev: "uniqueEvidenceEventIds w \<noteq> []" "\<not> list_ex (\<lambda>i. i \<notin> set (map eventId
      (filter isCountedSemanticEvent (win_events w)))) (uniqueEvidenceEventIds w)"
    using assms(4) by (auto simp: uniqueEvidenceEventIds_def filter_empty_conv list_ex_iff)
  note fields = infer_fields [OF assms(5) v(1)]
  have "assertReflectionMatchesWindow r w = Inr ()"
    using fields v ev assms(2,3)
    by (intro assertReflectionMatchesWindowI) (auto simp: activity_distribution_ok
        goal_distribution_ok distinct_uniqueEvidenceEventIds expectedFeedbackCode_def split: if_splits)
  with fields show ?thesis by blast
qed

text \<open>The conservative inference is total on the windows the pipeline seals, and what it returns
  passes every check of the job runner. For a digest of 32 bytes, a window whose goal version is
  the version of its goal, whose end is not before its start and which holds a counted event, an
  uninterrupted inference returns a reflection (never an error), the runner's validation accepts
  that reflection, and it is an abstaining, silent one.\<close>

lemma infer_accepted_by_runner:
  assumes "\<And>s. length (digest s) = 32"
    and "win_goalVersion w = map_option goal_version (win_goal w)"
    and "win_startedAtMs w \<le> win_endedAtMs w"
    and "list_ex isCountedSemanticEvent (win_events w)"
  shows "\<exists>r. infer digest False False w = Inr r \<and> assertReflectionMatchesWindow r w = Inr () \<and>
    abstain r \<and> feedbackCode r = silent"
proof -
  obtain r where "infer digest False False w = Inr r"
    using infer_Inr_iff [of digest False False w] assms(1,2) by auto
  then show ?thesis
    using infer_matches [of digest w False False r] assms by blast
qed

text \<open>The feedback a validated reflection carries is the one the feedback policy selects: the
  runner's own check (\<open>expectedFeedbackCode\<close> and the silence rule) and \<open>selectFeedbackCode\<close> agree on
  every reflection that is accepted for a window, whatever provider produced it.\<close>

lemma accepted_feedback_is_policy:
  assumes "assertReflectionMatchesWindow r w = Inr ()"
  shows "feedbackCode r = selectFeedbackCode
    \<lparr>hasGoal = (win_goal w \<noteq> None), fb_activity = label (activity r),
     fb_goalRelevance = map_option label (goalRelevance r), fb_abstain = abstain r\<rparr>"
  using accepted_feedback [OF assms]
  by (cases "goalRelevance r"; cases "win_goal w")
    (auto simp: expectedFeedbackCode_def selectFeedbackCode_def)

subsection \<open>Reminders\<close>

text \<open>The reminders a sequence of reflections, each with the time it is offered, gives.\<close>

fun reminders :: "ReflectionReminderDeduper \<Rightarrow> (Reflection \<times> int) list \<Rightarrow> (string \<times> int) list" where
  "reminders d [] = []"
| "reminders d ((r, now) # rest) =
     (case shouldNotify r now d of (notify, d') \<Rightarrow>
        (if notify then [(reminder_key r, now)] else []) @ reminders d' rest)"

lemma shouldNotify_deduplicationMs [simp]:
  "deduplicationMs (snd (shouldNotify r now d)) = deduplicationMs d"
  by (auto simp: shouldNotify_def prune_def Let_def split: option.splits)

lemma reminders_times: "(k, t) \<in> set (reminders d rs) \<Longrightarrow> t \<in> snd ` set rs"
  by (induction d rs rule: reminders.induct) (force split: prod.splits if_splits)+

lemma jget_filter_distinct:
  "distinct (jkeys m) \<Longrightarrow>
   jget (filter (\<lambda>e. P (snd e)) m) k = (case jget m k of Some v \<Rightarrow> if P v then Some v else None | None \<Rightarrow> None)"
  by (induction m) (auto simp: map_of_eq_None_iff split: option.splits)

definition deduper_wf :: "ReflectionReminderDeduper \<Rightarrow> bool" where
  "deduper_wf d \<longleftrightarrow> 1 \<le> deduplicationMs d \<and> distinct (jkeys (lastReminderAtByKey d))"

lemma jget_prune:
  "deduper_wf d \<Longrightarrow> jget (lastReminderAtByKey (prune now d)) k =
     (case jget (lastReminderAtByKey d) k of
        Some t \<Rightarrow> if deduplicationMs d \<le> now - t then None else Some t | None \<Rightarrow> None)"
  using jget_filter_distinct [of "lastReminderAtByKey d" "\<lambda>t. \<not> deduplicationMs d \<le> now - t" k]
  by (auto simp: prune_def deduper_wf_def split: option.splits)

lemma deduper_wf_prune: "deduper_wf d \<Longrightarrow> deduper_wf (prune now d)"
  by (auto simp: deduper_wf_def prune_def distinct_map_filter)

lemma deduper_wf_shouldNotify: "deduper_wf d \<Longrightarrow> deduper_wf (snd (shouldNotify r now d))"
  by (auto simp: shouldNotify_def Let_def deduper_wf_def distinct_update split: option.splits
      intro!: deduper_wf_prune [unfolded deduper_wf_def, THEN conjunct2]
        deduper_wf_prune [unfolded deduper_wf_def, THEN conjunct1])

lemma reminders_after:
  assumes "deduper_wf d" and "sorted (map snd rs)" and "jget (lastReminderAtByKey d) k = Some t"
    and "(k, t') \<in> set (reminders d rs)"
  shows "t + deduplicationMs d \<le> t'"
  using assms
proof (induction d rs arbitrary: t rule: reminders.induct)
  case (2 d r now rest)
  obtain notify d' where step: "shouldNotify r now d = (notify, d')" by fastforce
  show ?case
  proof (cases "notify \<and> reminder_key r = k \<and> t' = now")
    case True
    then show ?thesis using step "2.prems"(3)
      by (auto simp: shouldNotify_def Let_def split: if_splits option.splits)
  next
    case False
    then have later: "(k, t') \<in> set (reminders d' rest)" using "2.prems"(4) step by (auto split: if_splits)
    then have "now \<le> t'" using reminders_times "2.prems"(2) by fastforce
    have d': "deduper_wf d'" "deduplicationMs d' = deduplicationMs d"
      using deduper_wf_shouldNotify [OF "2.prems"(1), of r now] shouldNotify_deduplicationMs [of r now d] step
      by auto
    have "jget (lastReminderAtByKey d') k = Some t \<or> t + deduplicationMs d \<le> now"
      using step "2.prems"(1,3)
      by (auto simp: shouldNotify_def Let_def jget_prune deduper_wf_def simp del: map_of_eq_Some_iff
          split: if_splits option.splits)
    then show ?thesis
      using "2.IH" [OF step [symmetric] d'(1) _ _ later] "2.prems"(2) d'(2) \<open>now \<le> t'\<close> by auto
  qed
qed simp

text \<open>Reminders are spaced. Offered reflections at non-decreasing times, a well-formed deduper
  never raises two reminders with the same activity, goal relevance and feedback code less than
  \<open>deduplicationMs\<close> apart, although it forgets old entries as it goes.\<close>

lemma reminders_spaced:
  assumes "deduper_wf d" and "sorted (map snd rs)"
  shows "sorted_wrt (\<lambda>(k, t) (k', t'). k = k' \<longrightarrow> t + deduplicationMs d \<le> t') (reminders d rs)"
  using assms
proof (induction d rs rule: reminders.induct)
  case (2 d r now rest)
  obtain notify d' where step: "shouldNotify r now d = (notify, d')" by fastforce
  have d': "deduper_wf d'" "deduplicationMs d' = deduplicationMs d"
    using deduper_wf_shouldNotify [OF "2.prems"(1), of r now] shouldNotify_deduplicationMs [of r now d] step
    by auto
  have "notify \<Longrightarrow> jget (lastReminderAtByKey d') (reminder_key r) = Some now"
    using step "2.prems"(1)
    by (auto simp: shouldNotify_def Let_def jget_prune deduper_wf_def
        split: if_splits option.splits)
  then show ?case
    using "2.IH" [OF step [symmetric] d'(1)] "2.prems"(2) step d' reminders_after [OF d'(1)]
    by auto
qed simp

end
