(* ===== verification/PipelineExamples.thy ===== *)
theory PipelineExamples
  imports Inference WindowBuilder
begin

text \<open>
  Concrete runs of the repository and the job runner with the conservative inference: one event,
  two windows sealed for one account, a runner with the default options. The properties of those
  components are applied to them, with the definitions evaluated by the simplifier.
\<close>

subsection \<open>Fixtures\<close>

definition px_event :: DesktopEvent where
  "px_event =
     \<lparr>eventId = ''e'', cursor = ''e'', deviceId = ''d'', sessionId = ''s'', event_source = ''native'',
      occurredAtMs = 10, observedAtMs = 10, event_goalVersion = None, sensitivity = Metadata,
      payload = FocusChanged ''app'' ''button'' None\<rparr>"

definition px_window :: "string \<Rightarrow> EventWindow" where
  "px_window name =
     \<lparr>windowId = name, win_collectorId = ''c'', win_deviceId = ''d'', win_sessionId = ''s'',
      win_triggerReason = max_wait, win_goal = None, win_goalVersion = None, win_startedAtMs = 10,
      win_endedAtMs = 20, win_deadlineAtMs = 20, win_eventCount = 1, firstCursor = ''e'',
      lastCursor = ''e'', win_events = [px_event], contextOnly = [], modelInput = ''input'',
      inputHash = ''h''\<rparr>"

definition px_snapshot :: "int \<Rightarrow> ReflectionCollectorSnapshot" where
  "px_snapshot rv =
     \<lparr>collectorId = ''c'', sn_deviceId = ''d'', sn_sessionId = ''s'', sn_state = ACTIVE_EMPTY,
      activeGoal = None, goalRevision = 0, cloudOwnerEpoch = \<lparr>epoch = 1, accountId = Some ''me''\<rparr>,
      openWindow = None, contextCandidates = [], recentEventIds = [], revokedPermissions = [],
      materializedCursor = None, revision = rv, sn_updatedAtMs = 0\<rparr>"

definition px_commands :: "repo_command list" where
  "px_commands =
     [CSave (px_snapshot 0) None,
      CSeal (px_window ''w'') (px_snapshot 1) 0 (Some ''me''),
      CSeal (px_window ''v'') (px_snapshot 2) 1 (Some ''me'')]"

definition px_repository :: InMemoryReflectionRepository where
  "px_repository = repo_run code_unit_compare px_commands empty_repository"

definition px_digest :: "string \<Rightarrow> nat list" where
  "px_digest s = replicate 32 0"

lemma px_digest_length: "length (px_digest s) = 32"
  by (simp add: px_digest_def)

subsection \<open>The runner\<close>

definition px_options :: ReflectionJobRunnerOptions where
  "px_options = default_runner_options (\<lambda>_ _. 0)"

lemma px_options_ok: "ReflectionJobRunner px_options = Inr px_options"
  by (simp add: ReflectionJobRunner_def px_options_def default_runner_options_def DEFAULT_RETRY_DELAYS_MS_def)

definition px_env :: "unit run_env" where
  "px_env = \<lparr>nowMs = (\<lambda>_. 100), aborted = (\<lambda>_. False),
     infer_call = (\<lambda>w. case infer px_digest False False w of Inr r \<Rightarrow> Inr r | Inl _ \<Rightarrow> Inl abort_error),
     commit_call = (\<lambda>_ _. ret ())\<rparr>"

definition px_runner :: "bool \<Rightarrow> (InMemoryReflectionRepository, unit) runner" where
  "px_runner busy = \<lparr>repository = px_repository, committer = (), running = busy\<rparr>"

theorem runOnce_settles_its_job_witness:
  "\<exists>res s'. runOnce (in_memory_jobs code_unit_compare) px_options px_env (px_runner False) = (Inr res, s') \<and>
     \<not> running s' \<and> repo_inv (repository s')"
  using runOnce_settles_its_job [OF px_options_ok, of "px_runner False" code_unit_compare px_commands px_env]
  by (auto simp: px_runner_def px_repository_def)

end
