(* ===== verification/Pipeline.thy ===== *)
theory Pipeline
  imports CollectorCorrect Inference
begin

text \<open>
  The reflection pipeline end to end: the collector of \<open>collector.ts\<close> seals windows into the
  repository of \<open>repository.ts\<close>, and the runner of \<open>job-runner.ts\<close> takes their jobs through the
  inference of \<open>inference.ts\<close> to a commit. The components meet in the repository only, so the
  collector's invariant gives the windows the inference needs and the repository's invariant the
  jobs the runner needs.
\<close>

subsection \<open>What the collector leaves in the repository\<close>

text \<open>The collector touches its repository only by saves and seals: what both keep it keeps.\<close>

definition keeps :: "('r \<Rightarrow> bool) \<Rightarrow> ('r collector, 'e, 'a) comp \<Rightarrow> bool" where
  "keeps I m \<longleftrightarrow> preserves (\<lambda>s. I (coll_repository s)) m"

locale repository_invariant =
  fixes repo :: "'r ReflectionCollectorRepository" and I :: "'r \<Rightarrow> bool"
  assumes load_keeps: "I r \<Longrightarrow> I (snd (loadCollector_of repo cid r))"
    and save_keeps: "I r \<Longrightarrow> I (snd (saveCollector_of repo sn rv r))"
    and seal_keeps: "I r \<Longrightarrow> I (snd (sealWindow_of repo w sn rw own r))"
begin

lemma keeps_basic:
  "keeps I (ret x)" "keeps I (throw e)" "keeps I requireSnapshot" "keeps I readClock" "keeps I cancelTimer"
  "keeps I (setRuntimeState st)" "keeps I (lift_error y)" "keeps I (fireTimer cfg)" "keeps I dispose"
  by (auto simp: keeps_def preserves_def ret_def throw_def requireSnapshot_def readClock_def cancelTimer_def
      setRuntimeState_def lift_error_def modifyS_def fireTimer_def dispose_def split: option.splits)

lemma keeps_andThen: "keeps I m \<Longrightarrow> (\<And>x. keeps I (f x)) \<Longrightarrow> keeps I (andThen m f)"
  unfolding keeps_def by blast

lemma keeps_modifyS: "(\<And>s. coll_repository (f s) = coll_repository s) \<Longrightarrow> keeps I (modifyS f)"
  by (simp add: keeps_def preserves_def modifyS_def)

lemma keeps_awaitStore: "(\<And>r. I r \<Longrightarrow> I (snd (op r))) \<Longrightarrow> keeps I (awaitStore op)"
  unfolding keeps_def preserves_def awaitStore_def
  by (auto split: prod.splits sum.splits) (metis snd_conv)+

lemma keeps_if: "keeps I m \<Longrightarrow> keeps I n \<Longrightarrow> keeps I (if b then m else n)"
  by simp

lemma keeps_state_if: "keeps I m \<Longrightarrow> keeps I (\<lambda>s. if b s then (res, s) else m s)"
  by (auto simp: keeps_def preserves_def)

lemmas keeps_intros = keeps_basic keeps_andThen keeps_modifyS keeps_awaitStore keeps_if keeps_state_if
  load_keeps save_keeps seal_keeps

lemma keeps_armDeadline: "keeps I (armDeadline d)"
  unfolding armDeadline_def by (auto simp: keeps_def preserves_def andThen_def cancelTimer_def readClock_def
      modifyS_def ret_def split: sum.splits)

lemma keeps_saveSnapshot: "keeps I (saveSnapshot repo c)"
  unfolding saveSnapshot_def by (intro keeps_intros) simp_all

lemma keeps_sealCandidate: "keeps I (sealCandidate repo cfg c reason t g)"
  unfolding sealCandidate_def by (auto intro!: keeps_intros split: option.splits sum.splits)

lemmas keeps_steps = keeps_intros keeps_armDeadline keeps_saveSnapshot keeps_sealCandidate

lemma keeps_seals: "keeps I (sealOpenWindow repo cfg reason t)" "keeps I (sealCountReady repo cfg ow)"
proof -
  show "keeps I (sealOpenWindow repo cfg reason t)" for reason t
    unfolding sealOpenWindow_def by (intro keeps_steps)
  then show "keeps I (sealCountReady repo cfg ow)"
    unfolding sealCountReady_def by (auto intro: keeps_basic split: option.split)
qed

lemma keeps_boundaries:
  "keeps I (handleGoalBoundary repo cfg e p n)" "keeps I (handlePresenceBoundary repo cfg e)"
  "keeps I (handleRetroactivePresenceBoundary repo cfg e)" "keeps I (revokeAuthorization repo cfg e ps)"
  "keeps I (grantAuthorization repo cfg e ps)"
  unfolding handleGoalBoundary_def handlePresenceBoundary_def handleRetroactivePresenceBoundary_def
    revokeAuthorization_def grantAuthorization_def Let_def
  by (auto intro!: keeps_steps split: option.split)

lemma keeps_ingestCounted: "keeps I (ingestCounted repo cfg e)"
  unfolding ingestCounted_def Let_def by (auto intro!: keeps_steps split: option.split)

lemma keeps_ingestCurrent: "keeps I (ingestCurrent repo cfg e)"
  unfolding ingestCurrent_def Let_def
  by (intro keeps_andThen keeps_basic)
    (auto intro!: keeps_steps keeps_boundaries keeps_ingestCounted split: option.split DesktopEventPayload.split)

lemma keeps_ingest_body: "keeps I again \<Longrightarrow> keeps I (ingest_body repo cfg again e)"
  unfolding ingest_body_def
  by (intro keeps_andThen keeps_basic)
    (auto intro!: keeps_steps keeps_boundaries keeps_ingestCurrent keeps_seals
      split: option.split DesktopEventPayload.split)

lemma keeps_ingest: "keeps I (ingest repo cfg e)"
  unfolding ingest_def numeral_2_eq_2 by (simp add: keeps_ingest_body keeps_basic)

lemma keeps_recover: "keeps I (recover repo cfg d)"
proof -
  have "keeps I (recoverSnapshot repo cfg)"
    unfolding recoverSnapshot_def Let_def by (auto intro!: keeps_steps split: option.split)
  moreover have "keeps I (resumeRecovered repo cfg)"
    unfolding resumeRecovered_def by (auto intro!: keeps_steps keeps_seals split: option.split)
  ultimately show ?thesis
    unfolding recover_def by (intro keeps_steps) auto
qed

lemma keeps_flushes:
  "keeps I (flushDue repo cfg)" "keeps I (flushCountDue repo cfg)" "keeps I (resumeDeadlines repo cfg)"
  "keeps I (deadlineOperation repo cfg)" "keeps I (cutoverCloudOwner repo a)"
  unfolding flushDue_def flushCountDue_def resumeDeadlines_def deadlineOperation_def cutoverCloudOwner_def
  by (auto intro!: keeps_steps keeps_seals split: option.split)

lemma keeps_exec: "keeps I (collector_exec repo cfg c)"
  by (cases c) (auto intro!: keeps_steps keeps_ingest keeps_recover keeps_flushes)

lemma keeps_run: "I (coll_repository s) \<Longrightarrow> I (coll_repository (collector_run repo cfg cs s))"
  by (induction cs arbitrary: s) (use keeps_exec in \<open>auto simp: keeps_def preserves_def\<close>)

end

text \<open>After a run of the collector every sealed window has a job that nobody has touched yet.\<close>

definition awaiting :: "InMemoryReflectionRepository \<Rightarrow> bool" where
  "awaiting r \<longleftrightarrow> repo_inv r \<and>
     (\<forall>wid w. jget (windows r) wid = Some w \<longrightarrow> jget (jobs r) wid = Some (new_job w))"

interpretation sealed_jobs: repository_invariant in_memory_collectors awaiting
proof (unfold_locales, goal_cases)
  case (1 r cid)
  then show ?case by (simp add: in_memory_collectors_def loadCollector_def andThen_def ret_def)
next
  case (2 r sn rv)
  then show ?case
    by (simp add: in_memory_collectors_def awaiting_def maps_unchanged
        repo_inv_cong [OF maps_unchanged(1,2)] del: map_of_eq_Some_iff)
next
  case (3 r w sn rw own)
  then show ?case
    using sealWindow_inv [of r w sn rw own] sealWindow_maps [of w sn rw own r]
    by (auto simp: in_memory_collectors_def awaiting_def simp del: map_of_eq_Some_iff split: if_splits)
qed

text \<open>What the conservative inference needs of a window.\<close>

definition inferable :: "EventWindow \<Rightarrow> bool" where
  "inferable w \<longleftrightarrow> win_goalVersion w = map_option goal_version (win_goal w) \<and>
     win_startedAtMs w \<le> win_endedAtMs w \<and> list_ex isCountedSemanticEvent (win_events w)"

lemma good_window_inferable: "good_window cfg revoked w \<Longrightarrow> inferable w"
  by (auto simp: good_window_def inferable_def list_ex_iff Suc_le_eq filter_empty_conv)

lemma collector_windows_inferable:
  assumes "mem_store.coll_inv cfg s" and "\<And>wid w. jget (windows (coll_repository s)) wid = Some w \<Longrightarrow> inferable w"
    and "jget (windows (coll_repository (collector_run in_memory_collectors cfg cs s))) wid = Some w"
  shows "inferable w"
  using assms
proof (induction cs arbitrary: s)
  case (Cons c cs)
  let ?t = "snd (collector_exec in_memory_collectors cfg c s)"
  have step: "mem_store.step_ok cfg s ?t" by (rule mem_store.step_ok_exec [OF Cons.prems(1)])
  show ?case
  proof (rule Cons.IH [of ?t])
    show "mem_store.coll_inv cfg ?t" using step by (simp add: mem_store.step_ok_def)
    show "inferable w" if "jget (windows (coll_repository ?t)) wid = Some w" for wid w
      using that step Cons.prems(2) good_window_inferable
      unfolding mem_store.step_ok_def mem_store.new_windows_good_def by blast
    show "jget (windows (coll_repository (collector_run in_memory_collectors cfg cs ?t))) wid = Some w"
      using Cons.prems(3) by simp
  qed
qed simp

subsection \<open>The runner commits what waits\<close>

text \<open>A run in which nothing goes wrong: nobody aborts, the conservative inference answers and the
  committer accepts. The error a failed inference would throw is arbitrary.\<close>

definition undisturbed :: "(string \<Rightarrow> nat list) \<Rightarrow> (inference_error \<Rightarrow> thrown) \<Rightarrow> 'c run_env \<Rightarrow> bool" where
  "undisturbed digest to_thrown env \<longleftrightarrow>
     (\<forall>p. \<not> aborted env p) \<and> infer_call env = (\<lambda>w. map_sum to_thrown id (infer digest False False w)) \<and>
     (\<forall>w x c. fst (commit_call env w x c) = Inr ())"

text \<open>A repository that also promises that a claim misses no runnable job.\<close>

locale live_jobs = durable_jobs +
  assumes claim_live: "ok r \<Longrightarrow> claimNextRunnable_of repo now lease r = (Inr None, r) \<Longrightarrow>
    job_at r wid = Some j \<Longrightarrow> \<not> isRunnable j now"
begin

definition waiting :: "int \<Rightarrow> 'a \<Rightarrow> bool" where
  "waiting now r \<longleftrightarrow> ok r \<and> (\<forall>wid j. job_at r wid = Some j \<longrightarrow> job_state j = COMMITTED \<or>
     (\<exists>w. window_at r wid = Some w \<and> j = new_job w \<and> inferable w \<and> win_endedAtMs w \<le> now))"

lemma run_claimed_commits:
  assumes "ok (repository s)" and "job_at (repository s) (windowId w) = Some (claimed_job now lease (new_job w))"
    and "inferable w" and "undisturbed digest to_thrown env" and "\<And>x. length (digest x) = 32"
  shows "\<exists>j u. run_claimed repo opts env (claimed_job now lease (new_job w)) w s = (Inr (Committed (windowId w)), u) \<and>
    running u = running s \<and> ok (repository u) \<and> job_state j = COMMITTED \<and>
    job_at (repository u) = (job_at (repository s))(windowId w \<mapsto> j) \<and>
    window_at (repository u) = window_at (repository s)"
proof -
  let ?job = "claimed_job now lease (new_job w)"
  obtain x where x: "infer digest False False w = Inr x"
    using infer_Inr_iff [of digest False False w] assms(3,5) by (auto simp: inferable_def)
  then have m: "assertReflectionMatchesWindow x w = Inr ()" "rf_windowId x = windowId w"
    using infer_matches [OF assms(5) _ _ _ x] assms(3) by (auto simp: inferable_def)
  have env: "guarded_inference env w = Inr x" "aborted env p = False" for p
    using assms(4) x m(1) by (auto simp: undisturbed_def guarded_inference_def)
  define j1 where "j1 = ?job\<lparr>job_state := RESULT_PERSISTED, job_reflection := Some x,
    job_updatedAtMs := nowMs env AtPersist, leaseExpiresAtMs := None\<rparr>"
  have "persist_job (windowId w) x (nowMs env AtPersist) ?job = Inr j1"
    using m(2) by (simp add: persist_job_def claimed_job_def new_job_def j1_def)
  from persist_law assms(1,2) this obtain r1 where r1:
    "persistResult_of repo (windowId w) x (nowMs env AtPersist) (repository s) = (Inr j1, r1)" "ok r1"
    "job_at r1 = (job_at (repository s))(windowId w \<mapsto> j1)" "window_at r1 = window_at (repository s)"
    by (rule implements_transitionE)
  define j2 where "j2 = j1\<lparr>job_state := COMMITTING, job_updatedAtMs := nowMs env AtBegin,
    leaseExpiresAtMs := Some (nowMs env AtBegin + leaseDurationMs opts)\<rparr>"
  have "begin_job (nowMs env AtBegin) (leaseDurationMs opts) j1 = Inr j2"
    by (simp add: begin_job_def j1_def j2_def)
  moreover have "job_at r1 (windowId w) = Some j1" by (simp add: r1(3))
  ultimately obtain r2 where r2:
    "beginCommit_of repo (windowId w) (nowMs env AtBegin) (leaseDurationMs opts) r1 = (Inr j2, r2)" "ok r2"
    "job_at r2 = (job_at r1)(windowId w \<mapsto> j2)" "window_at r2 = window_at r1"
    using begin_law r1(2) by (meson implements_transitionE)
  obtain j3 where j3: "commit_job (nowMs env AtMarkCommitted) j2 = Inr j3" "job_state j3 = COMMITTED"
    by (simp add: commit_job_def j2_def j1_def)
  moreover have "job_at r2 (windowId w) = Some j2" by (simp add: r2(3))
  ultimately obtain r3 where r3:
    "markCommitted_of repo (windowId w) (nowMs env AtMarkCommitted) r2 = (Inr j3, r3)" "ok r3"
    "job_at r3 = (job_at r2)(windowId w \<mapsto> j3)" "window_at r3 = window_at r2"
    using commit_law r2(2) by (meson implements_transitionE)
  obtain c where c: "commit_call env w x (committer s) = (Inr (), c)"
    using assms(4) by (metis prod.collapse undisturbed_def)
  have "run_claimed repo opts env ?job w s = (Inr (Committed (windowId w)), s\<lparr>repository := r3, committer := c\<rparr>)"
    using r1(1) r2(1) r3(1) c env
    by (simp add: run_claimed_def claimed_job_def new_job_def andThen_def awaitRepo_def commit_phase_def
        commit_try_def on_repository_def j2_def)
  then show ?thesis
    using r3(2) j3(2) by (intro exI [of _ j3] exI) (auto simp: r1(3,4) r2(3,4) r3(3,4))
qed

lemma new_job_runnable: "isRunnable (new_job w) now \<longleftrightarrow> win_endedAtMs w \<le> now"
  by (auto simp: isRunnable_def new_job_def due_at_def)

text \<open>One run is idle when everything is committed, and otherwise commits a job that was waiting.\<close>

lemma runOnce_commits:
  assumes "waiting (nowMs env AtClaim) (repository s)" and "\<not> running s"
    and "undisturbed digest to_thrown env" and "\<And>x. length (digest x) = 32"
  shows "(runOnce repo opts env s = (Inr Idle, s) \<and> (\<forall>wid j. job_at (repository s) wid = Some j \<longrightarrow> job_state j = COMMITTED)) \<or>
    (\<exists>wid j0 j u. runOnce repo opts env s = (Inr (Committed wid), u) \<and> \<not> running u \<and> ok (repository u) \<and>
      job_at (repository s) wid = Some j0 \<and> job_state j0 \<noteq> COMMITTED \<and> job_state j = COMMITTED \<and>
      job_at (repository u) = (job_at (repository s))(wid \<mapsto> j) \<and>
      window_at (repository u) = window_at (repository s))"
proof -
  let ?r = "repository s" and ?now = "nowMs env AtClaim" and ?lease = "leaseDurationMs opts"
  have ok: "ok ?r" and entry: "\<not> aborted env AtEntry"
    using assms(1,3) by (auto simp: waiting_def undisturbed_def)
  have settled: "job_state j = COMMITTED" if "claimNextRunnable_of repo ?now ?lease ?r = (Inr None, ?r)"
    "job_at ?r wid = Some j" for wid j
    using claim_live [OF ok that] assms(1) that(2) by (fastforce simp: waiting_def new_job_runnable)
  from claim_law [OF ok, of ?now ?lease] show ?thesis
  proof (elim disjE exE conjE)
    assume none: "claimNextRunnable_of repo ?now ?lease ?r = (Inr None, ?r)"
    then have "runOnce repo opts env s = (Inr Idle, s)"
      using assms(2) entry by (cases s) (simp add: runOnce_def run_body_def andThen_def awaitRepo_def ret_def)
    with settled none show ?thesis by blast
  next
    fix k r'
    assume c: "claimNextRunnable_of repo ?now ?lease ?r = (Inr (Some (claimed_job ?now ?lease k)), r')"
      and r': "ok r'" "job_at r' = (job_at ?r)(job_windowId k \<mapsto> claimed_job ?now ?lease k)"
        "window_at r' = window_at ?r"
      and k: "job_at ?r (job_windowId k) = Some k" "isRunnable k ?now"
    obtain w where w: "window_at ?r (job_windowId k) = Some w" "k = new_job w" "inferable w"
      using assms(1) k by (fastforce simp: waiting_def isRunnable_def)
    then have id: "job_windowId k = windowId w" "job_windowId (claimed_job ?now ?lease k) = windowId w"
      by (simp_all add: new_job_def claimed_job_def)
    let ?s = "s\<lparr>running := True, repository := r'\<rparr>"
    obtain j u where u: "run_claimed repo opts env (claimed_job ?now ?lease k) w ?s = (Inr (Committed (windowId w)), u)"
      "ok (repository u)" "job_state j = COMMITTED" "job_at (repository u) = (job_at r')(windowId w \<mapsto> j)"
      "window_at (repository u) = window_at r'"
      using run_claimed_commits [of ?s w ?now ?lease digest to_thrown env opts] r' assms(3,4) w id by auto
    have "runOnce repo opts env s = (Inr (Committed (windowId w)), u\<lparr>running := False\<rparr>)"
      using assms(2) entry c u(1) window_law [OF r'(1), of "windowId w"] w(1) r'(3) id
      by (simp add: runOnce_def run_body_def andThen_def awaitRepo_def)
    moreover have "job_state k \<noteq> COMMITTED" by (simp add: w(2) new_job_def)
    ultimately show ?thesis using u k(1) r'(2,3) id by (intro disjI2) auto
  qed
qed

definition uncommitted :: "'a \<Rightarrow> string set" where
  "uncommitted r = {wid. \<exists>j. job_at r wid = Some j \<and> job_state j \<noteq> COMMITTED}"

lemma run_until_idle_commits:
  assumes "\<And>i. undisturbed digest to_thrown (envs i)" and "\<And>x. length (digest x) = 32"
    and "\<And>i. waiting (nowMs (envs i) AtClaim) (repository s)" and "\<not> running s"
    and "finite (uncommitted (repository s))" and "card (uncommitted (repository s)) \<le> n"
  shows "\<exists>results u. run_until_idle repo opts envs (\<lambda>_. False) (\<lambda>_. False) i n done_so_far s = (Inr results, u) \<and>
    (\<forall>wid. job_at (repository s) wid \<noteq> None \<longrightarrow>
      (\<exists>j. job_at (repository u) wid = Some j \<and> job_state j = COMMITTED))"
  using assms(3-6)
proof (induction n arbitrary: i done_so_far s)
  case 0
  then have "uncommitted (repository s) = {}" by simp
  then show ?case by (auto simp: uncommitted_def)
next
  case (Suc n)
  from runOnce_commits [OF Suc.prems(1) [of i] Suc.prems(2) assms(1,2), where opts = opts]
  show ?case
  proof (elim disjE exE conjE)
    assume "runOnce repo opts (envs i) s = (Inr Idle, s)"
      "\<forall>wid j. job_at (repository s) wid = Some j \<longrightarrow> job_state j = COMMITTED"
    then show ?thesis by auto
  next
    fix wid j0 j u
    assume run: "runOnce repo opts (envs i) s = (Inr (Committed wid), u)" "\<not> running u" "ok (repository u)"
      and j: "job_at (repository s) wid = Some j0" "job_state j0 \<noteq> COMMITTED" "job_state j = COMMITTED"
        "job_at (repository u) = (job_at (repository s))(wid \<mapsto> j)"
        "window_at (repository u) = window_at (repository s)"
    have un: "uncommitted (repository u) = uncommitted (repository s) - {wid}" "wid \<in> uncommitted (repository s)"
      using j by (auto simp: uncommitted_def)
    have "\<And>i. waiting (nowMs (envs i) AtClaim) (repository u)"
      using Suc.prems(1) run(3) j(3-5) by (auto simp: waiting_def)
    moreover have "finite (uncommitted (repository u))" "card (uncommitted (repository u)) \<le> n"
      using un Suc.prems(3,4) by (simp_all add: le_diff_conv)
    ultimately have "\<exists>results v. run_until_idle repo opts envs (\<lambda>_. False) (\<lambda>_. False) (Suc i) n
        (done_so_far @ [Committed wid]) u = (Inr results, v) \<and>
        (\<forall>wid. job_at (repository u) wid \<noteq> None \<longrightarrow>
          (\<exists>j. job_at (repository v) wid = Some j \<and> job_state j = COMMITTED))"
      using run(2) by (intro Suc.IH)
    then
    obtain results v where v: "run_until_idle repo opts envs (\<lambda>_. False) (\<lambda>_. False) (Suc i) n
        (done_so_far @ [Committed wid]) u = (Inr results, v)"
      "\<forall>wid. job_at (repository u) wid \<noteq> None \<longrightarrow>
        (\<exists>j. job_at (repository v) wid = Some j \<and> job_state j = COMMITTED)"
      by blast
    then show ?thesis using run(1) j(4) by auto
  qed
qed

end

interpretation mem_live: live_jobs "in_memory_jobs lc" repo_inv "\<lambda>r. jget (jobs r)" "\<lambda>r. jget (windows r)"
proof (unfold_locales, goal_cases)
  case (1 r now lease wid j)
  have "(wid, j) \<in> set (jobs r)" using 1(3) by (rule map_of_SomeD)
  then have "j \<in> set (jvalues (jobs r))" by force
  with claim_cases [OF 1(1), of lc now lease "Inr None" r] 1(2) show ?case
    by (auto simp: in_memory_jobs_def)
qed

text \<open>C3: The pipeline delivers. Take a collector that started over an empty repository and went
  through any sequence of operations, failed ones included, and then let the runner work on what it
  left behind: with the conservative inference over 32-byte digests, a committer that accepts, no
  abort, and clocks that have reached the end of every window, \<open>runUntilIdle\<close> with room for as many
  jobs as there are ends without an error, and afterwards the job of every sealed window is
  committed.\<close>

theorem pipeline_delivers:
  assumes "fresh_collector cfg empty_repository s" and "t = collector_run in_memory_collectors cfg cs s"
    and "\<And>x. length (digest x) = 32" and "\<And>i. undisturbed digest to_thrown (envs i)"
    and "\<And>i wid w. jget (windows (coll_repository t)) wid = Some w \<Longrightarrow> win_endedAtMs w \<le> nowMs (envs i) AtClaim"
    and "length (jobs (coll_repository t)) \<le> maxJobs"
  shows "\<exists>results u. runUntilIdle (in_memory_jobs lc) opts envs (\<lambda>_. False) (\<lambda>_. False) maxJobs
      \<lparr>repository = coll_repository t, committer = c, running = False\<rparr> = (Inr results, u) \<and>
    (\<forall>wid w. jget (windows (coll_repository t)) wid = Some w \<longrightarrow>
      (\<exists>j. jget (jobs (repository u)) wid = Some j \<and> job_state j = COMMITTED))"
proof -
  let ?r = "coll_repository t"
  have empty: "coll_repository s = empty_repository"
    using assms(1) by (auto simp: fresh_collector_def ReflectionCollector_def split: if_splits)
  have "awaiting empty_repository"
    unfolding awaiting_def using repo_inv_empty by (simp add: empty_repository_def)
  with empty have aw: "awaiting ?r"
    using sealed_jobs.keeps_run [of s cfg cs] assms(2) by simp
  have "mem_store.coll_inv cfg s"
    using fresh_collector_inv [OF assms(1), of "[]"] by simp
  then have windows: "inferable w" if "jget (windows ?r) wid = Some w" for wid w
    by (rule collector_windows_inferable [where cs = cs and wid = wid])
      (use that assms(2) empty in \<open>auto simp: empty_repository_def\<close>)
  have "mem_live.waiting (nowMs (envs i) AtClaim) ?r" for i
    unfolding mem_live.waiting_def
    using aw windows assms(5) by (metis (no_types, lifting) awaiting_def option.inject repo_inv_window)
  moreover have "finite (mem_live.uncommitted ?r)" "card (mem_live.uncommitted ?r) \<le> maxJobs"
  proof -
    have sub: "mem_live.uncommitted ?r \<subseteq> set (jkeys (jobs ?r))"
      unfolding mem_live.uncommitted_def by (force dest: map_of_SomeD)
    then show "finite (mem_live.uncommitted ?r)" by (rule finite_subset) simp
    have "card (mem_live.uncommitted ?r) \<le> length (jkeys (jobs ?r))"
      using sub by (meson List.finite_set card_length card_mono le_trans)
    with assms(6) show "card (mem_live.uncommitted ?r) \<le> maxJobs" by simp
  qed
  ultimately obtain results u where "runUntilIdle (in_memory_jobs lc) opts envs (\<lambda>_. False) (\<lambda>_. False) maxJobs
      \<lparr>repository = ?r, committer = c, running = False\<rparr> = (Inr results, u)"
    "\<forall>wid. jget (jobs ?r) wid \<noteq> None \<longrightarrow> (\<exists>j. jget (jobs (repository u)) wid = Some j \<and> job_state j = COMMITTED)"
    using mem_live.run_until_idle_commits [of digest to_thrown envs "\<lparr>repository = ?r, committer = c, running = False\<rparr>"
        maxJobs lc opts 0 "[]"] assms(3,4) unfolding runUntilIdle_def by auto
  with aw show ?thesis unfolding awaiting_def by (metis option.distinct(1))
qed

end
