(* ===== verification/Framing.thy ===== *)
theory Framing
  imports Prelude
begin

text \<open>
  The Content-Length framing between the application and its agent process,
  \<open>src/agent/mastra-host/framing.ts\<close>: the encoder and the incremental parser that receives the
  byte stream in chunks of any size. A byte is a \<open>char\<close> and a buffer a list of bytes. The platform's
  UTF-8 coder and its JSON functions work on values the model does not look into: they are the
  record \<open>frame_codec\<close>, of which the round trip assumes only that it reads back what it wrote.
\<close>

subsection \<open>Bytes\<close>

type_synonym bytes = "char list"

definition CRLF :: bytes where
  "CRLF = [CHR 0x0D, CHR 0x0A]"

definition headerTerminator :: bytes where
  "headerTerminator = CRLF @ CRLF"

text \<open>\<open>buffer.indexOf(needle)\<close>; \<open>None\<close> stands for \<open>-1\<close>.\<close>

fun index_of :: "bytes \<Rightarrow> bytes \<Rightarrow> nat option" where
  "index_of needle [] = (if needle = [] then Some 0 else None)"
| "index_of needle (c # cs) =
     (if take (length needle) (c # cs) = needle then Some 0 else map_option Suc (index_of needle cs))"

text \<open>\<open>buffer.toString("ascii")\<close> clears the high bit of every byte.\<close>

definition ascii_decode :: "bytes \<Rightarrow> string" where
  "ascii_decode = map (\<lambda>c. char_of ((of_char c :: nat) mod 128))"

text \<open>\<open>header.split("\r\n")\<close>.\<close>

fun split_crlf :: "string \<Rightarrow> string list" where
  "split_crlf [] = [[]]"
| "split_crlf [c] = [[c]]"
| "split_crlf (c # d # cs) =
     (if c = CHR 0x0D \<and> d = CHR 0x0A then [] # split_crlf cs
      else case split_crlf (d # cs) of [] \<Rightarrow> [[c]] | l # ls \<Rightarrow> (c # l) # ls)"

subsection \<open>The header\<close>

datatype framing_error =
    HeaderTooLong
  | DuplicateContentLength
  | UnsafeContentLength
  | MissingContentLength
  | BodyTooLong
  | InvalidUtf8
  | InvalidJson
  | IncompleteFrame
  | InvalidLimit

definition ascii_lower :: "char \<Rightarrow> char" where
  "ascii_lower c = (let n = (of_char c :: nat) in if 65 \<le> n \<and> n \<le> 90 then char_of (n + 32) else c)"

definition is_digit :: "char \<Rightarrow> bool" where
  "is_digit c \<longleftrightarrow> (let n = (of_char c :: nat) in 48 \<le> n \<and> n \<le> 57)"

text \<open>The match of \<open>contentLengthPattern\<close> on a line: the number its group captures.\<close>

definition match_content_length :: "string \<Rightarrow> nat option" where
  "match_content_length line =
     (if map ascii_lower (take 15 line) \<noteq> ''content-length:'' then None
      else
        let rest = dropWhile js_space (drop 15 line)
        in if takeWhile is_digit rest = [] \<or> \<not> list_all js_space (dropWhile is_digit rest) then None
           else Some (base_value 10 0 (takeWhile is_digit rest)))"

fun content_length_loop :: "nat option \<Rightarrow> string list \<Rightarrow> framing_error + nat option" where
  "content_length_loop contentLength [] = Inr contentLength"
| "content_length_loop contentLength (line # rest) =
     (case match_content_length line of
        None \<Rightarrow> content_length_loop contentLength rest
      | Some parsed \<Rightarrow>
          if contentLength \<noteq> None then Inl DuplicateContentLength
          else if MAX_SAFE_INTEGER < int parsed then Inl UnsafeContentLength
          else content_length_loop (Some parsed) rest)"

definition parseContentLength :: "string \<Rightarrow> nat \<Rightarrow> framing_error + nat" where
  "parseContentLength header maxFrameBytes =
     (case content_length_loop None (split_crlf header) of
        Inl e \<Rightarrow> Inl e
      | Inr None \<Rightarrow> Inl MissingContentLength
      | Inr (Some contentLength) \<Rightarrow>
          if maxFrameBytes < contentLength then Inl BodyTooLong else Inr contentLength)"

subsection \<open>Encoder and parser\<close>

record ('t, 'v) frame_codec =
  utf8_encode :: "'t \<Rightarrow> bytes"
  utf8_decode :: "bytes \<Rightarrow> 't option"
  json_stringify :: "'v \<Rightarrow> 't"
  json_parse :: "'t \<Rightarrow> 'v option"

definition frame_body :: "('t, 'v) frame_codec \<Rightarrow> 'v \<Rightarrow> bytes" where
  "frame_body C value = utf8_encode C (json_stringify C value)"

definition frame_header :: "nat \<Rightarrow> bytes" where
  "frame_header n = ''Content-Length: '' @ show_nat n"

definition encodeContentLengthFrame :: "('t, 'v) frame_codec \<Rightarrow> 'v \<Rightarrow> bytes" where
  "encodeContentLengthFrame C value =
     (let body = frame_body C value in frame_header (length body) @ headerTerminator @ body)"

record frame_limits =
  maxFrameBytes :: nat
  maxHeaderBytes :: nat

record ContentLengthFrameParser =
  buffer :: bytes
  expectedBodyBytes :: "nat option"

definition default_limits :: frame_limits where
  "default_limits = \<lparr>maxFrameBytes = 16 * 1024 * 1024, maxHeaderBytes = 8 * 1024\<rparr>"

text \<open>The constructor's checks, and the parser it makes.\<close>

definition ContentLengthFrameParser ::
  "frame_limits \<Rightarrow> framing_error + ContentLengthFrameParser" where
  "ContentLengthFrameParser L =
     (if MAX_SAFE_INTEGER < int (maxFrameBytes L) \<or> maxFrameBytes L < 1 \<or>
         MAX_SAFE_INTEGER < int (maxHeaderBytes L) \<or> maxHeaderBytes L < 1
      then Inl InvalidLimit else Inr \<lparr>buffer = [], expectedBodyBytes = None\<rparr>)"

text \<open>The first half of an iteration of \<open>push\<close>: the expected body length, \<open>None\<close> where the loop
  breaks for want of a complete header.\<close>

definition read_header ::
  "frame_limits \<Rightarrow> (ContentLengthFrameParser, framing_error, nat option) comp" where
  "read_header L s =
     (case expectedBodyBytes s of
        Some n \<Rightarrow> (Inr (Some n), s)
      | None \<Rightarrow>
          (case index_of headerTerminator (buffer s) of
             None \<Rightarrow>
               if maxHeaderBytes L < length (buffer s) then (Inl HeaderTooLong, s) else (Inr None, s)
           | Some headerEnd \<Rightarrow>
               if maxHeaderBytes L < headerEnd then (Inl HeaderTooLong, s)
               else case parseContentLength (ascii_decode (take headerEnd (buffer s))) (maxFrameBytes L) of
                 Inl e \<Rightarrow> (Inl e, s)
               | Inr n \<Rightarrow>
                   (Inr (Some n), s\<lparr>expectedBodyBytes := Some n,
                      buffer := drop (headerEnd + length headerTerminator) (buffer s)\<rparr>)))"

lemma index_of_bound: "index_of t b = Some i \<Longrightarrow> i + length t \<le> length b"
proof (induction b arbitrary: i)
  case (Cons c b)
  show ?case
  proof (cases "take (length t) (c # b) = t")
    case True
    then have "length t \<le> length (c # b)" by (metis length_take min.cobounded1)
    with True Cons.prems show ?thesis by simp
  next
    case False
    with Cons.prems obtain j where "index_of t b = Some j" "i = Suc j" by auto
    with Cons.IH show ?thesis by fastforce
  qed
qed (auto split: if_splits)

text \<open>A step shortens the buffer or consumes the expected length.\<close>

definition frame_measure :: "ContentLengthFrameParser \<Rightarrow> nat" where
  "frame_measure s = 2 * length (buffer s) + (if expectedBodyBytes s = None then 0 else 1)"

lemma read_header_cases:
  assumes "read_header L s = (Inr (Some n), s1)"
  obtains (pending) "expectedBodyBytes s = Some n" "s1 = s"
  | (fresh) i where "expectedBodyBytes s = None" "index_of headerTerminator (buffer s) = Some i"
      "i \<le> maxHeaderBytes L"
      "parseContentLength (ascii_decode (take i (buffer s))) (maxFrameBytes L) = Inr n"
      "s1 = s\<lparr>expectedBodyBytes := Some n, buffer := drop (i + length headerTerminator) (buffer s)\<rparr>"
  using assms by (auto simp: read_header_def split: option.splits if_splits sum.splits)

lemma read_header_measure:
  assumes "read_header L s = (Inr (Some n), s1)"
  shows "frame_measure (s1\<lparr>buffer := drop n (buffer s1), expectedBodyBytes := None\<rparr>) < frame_measure s"
  using assms
proof (cases rule: read_header_cases)
  case (fresh i)
  then have "i + length headerTerminator \<le> length (buffer s)" by (blast dest: index_of_bound)
  with fresh show ?thesis by (simp add: frame_measure_def headerTerminator_def CRLF_def)
qed (simp add: frame_measure_def)

function parse_frames ::
  "('t, 'v) frame_codec \<Rightarrow> frame_limits \<Rightarrow> 'v list \<Rightarrow> (ContentLengthFrameParser, framing_error, 'v list) comp" where
  "parse_frames C L frames s =
     (case read_header L s of
        (Inl e, s1) \<Rightarrow> (Inl e, s1)
      | (Inr None, s1) \<Rightarrow> (Inr frames, s1)
      | (Inr (Some n), s1) \<Rightarrow>
          if length (buffer s1) < n then (Inr frames, s1)
          else
            let s2 = s1\<lparr>buffer := drop n (buffer s1), expectedBodyBytes := None\<rparr>
            in case utf8_decode C (take n (buffer s1)) of
                 None \<Rightarrow> (Inl InvalidUtf8, s2)
               | Some t \<Rightarrow>
                   (case json_parse C t of
                      None \<Rightarrow> (Inl InvalidJson, s2)
                    | Some v \<Rightarrow> parse_frames C L (frames @ [v]) s2))"
  by pat_completeness auto

termination parse_frames
  by (relation "measure (\<lambda>(C, L, frames, s). frame_measure s)") (auto dest!: sym [of _ "read_header _ _"] read_header_measure)

declare parse_frames.simps [simp del]

definition push :: "('t, 'v) frame_codec \<Rightarrow> frame_limits \<Rightarrow> bytes \<Rightarrow> (ContentLengthFrameParser, framing_error, 'v list) comp" where
  "push C L chunk s =
     (if chunk = [] then (Inr [], s) else parse_frames C L [] (s\<lparr>buffer := buffer s @ chunk\<rparr>))"

definition finish :: "(ContentLengthFrameParser, framing_error, unit) comp" where
  "finish s = (if expectedBodyBytes s \<noteq> None \<or> buffer s \<noteq> [] then (Inl IncompleteFrame, s) else (Inr (), s))"

text \<open>A stream of chunks, pushed until one throws; the frames of the pushes in order.\<close>

fun push_chunks :: "('t, 'v) frame_codec \<Rightarrow> frame_limits \<Rightarrow> bytes list \<Rightarrow> (ContentLengthFrameParser, framing_error, 'v list) comp" where
  "push_chunks C L [] s = (Inr [], s)"
| "push_chunks C L (c # cs) s =
     (case push C L c s of
        (Inl e, s1) \<Rightarrow> (Inl e, s1)
      | (Inr frames, s1) \<Rightarrow>
          (case push_chunks C L cs s1 of
             (Inl e, s2) \<Rightarrow> (Inl e, s2)
           | (Inr later, s2) \<Rightarrow> (Inr (frames @ later), s2)))"

subsection \<open>Chunks do not matter\<close>

text \<open>The result of continuing after frames have been produced.\<close>

definition after_frames :: "'v list \<Rightarrow> (framing_error + 'v list) \<times> ContentLengthFrameParser \<Rightarrow>
    (framing_error + 'v list) \<times> ContentLengthFrameParser" where
  "after_frames fs r = (map_sum id (\<lambda>gs. fs @ gs) (fst r), snd r)"

lemma after_frames_simps [simp]:
  "after_frames fs (Inl e, s) = (Inl e, s)" "after_frames fs (Inr gs, s) = (Inr (fs @ gs), s)"
  "after_frames [] r = r" "after_frames fs (after_frames gs r) = after_frames (fs @ gs) r"
  by (auto simp: after_frames_def prod_eq_iff sum.map_comp o_def sum.map_id0 [unfolded id_def] id_def
      intro: sum.map_ident)

lemma parse_frames_after: "parse_frames C L (gs @ fs) s = after_frames gs (parse_frames C L fs s)"
proof (induction C L fs s rule: parse_frames.induct)
  case (1 C L fs s)
  then show ?case
    by (subst (1 2) parse_frames.simps) (auto simp: Let_def split: prod.splits sum.splits option.splits)
qed

text \<open>When the loop stops for want of bytes, more bytes continue it where it stopped.\<close>

lemma index_of_append: "t \<noteq> [] \<Longrightarrow> index_of t b = Some i \<Longrightarrow> index_of t (b @ c) = Some i"
proof (induction b arbitrary: i)
  case (Cons x b)
  show ?case
  proof (cases "take (length t) (x # b) = t")
    case True
    then have "length t \<le> length (x # b)" by (metis length_take min.cobounded1)
    with True Cons.prems show ?thesis by (cases t) auto
  next
    case False
    with Cons.prems obtain j where j: "index_of t b = Some j" "i = Suc j" by auto
    then have "j + length t \<le> length b" by (simp add: index_of_bound)
    then have "take (length t) (x # b @ c) = take (length t) (x # b)"
      using Cons.prems(1) by (cases t) auto
    with False j Cons show ?thesis by simp
  qed
qed simp

lemma headerTerminator_not_Nil [simp]: "headerTerminator \<noteq> []"
  by (simp add: headerTerminator_def CRLF_def)

lemma read_header_append:
  assumes "read_header L s = (Inr (Some n), s1)"
  shows "read_header L (s\<lparr>buffer := buffer s @ c\<rparr>) = (Inr (Some n), s1\<lparr>buffer := buffer s1 @ c\<rparr>)"
  using assms
proof (cases rule: read_header_cases)
  case (fresh i)
  then have "i + length headerTerminator \<le> length (buffer s)" by (blast dest: index_of_bound)
  with fresh show ?thesis by (simp add: read_header_def index_of_append)
qed (simp add: read_header_def)

lemma read_header_None: "read_header L s = (Inr None, s1) \<Longrightarrow> s1 = s"
  by (auto simp: read_header_def split: option.splits if_splits sum.splits)

lemma parse_frames_cases:
  assumes "parse_frames C L fs s = (Inr gs, s1)"
  obtains (header) "read_header L s = (Inr None, s1)" "gs = fs"
  | (partial) n where "read_header L s = (Inr (Some n), s1)" "length (buffer s1) < n" "gs = fs"
  | (complete) n t1 t v where "read_header L s = (Inr (Some n), t1)" "\<not> length (buffer t1) < n"
      "utf8_decode C (take n (buffer t1)) = Some t" "json_parse C t = Some v"
      "parse_frames C L (fs @ [v]) (t1\<lparr>buffer := drop n (buffer t1), expectedBodyBytes := None\<rparr>) = (Inr gs, s1)"
  using assms unfolding parse_frames.simps [of C L fs s]
  by (auto simp: Let_def split: prod.splits sum.splits option.splits if_splits)

lemma parse_frames_frame:
  assumes "read_header L s = (Inr (Some n), t1)" "n \<le> length (buffer t1)"
    "utf8_decode C (take n (buffer t1)) = Some t" "json_parse C t = Some v"
  shows "parse_frames C L fs s =
    parse_frames C L (fs @ [v]) (t1\<lparr>buffer := drop n (buffer t1), expectedBodyBytes := None\<rparr>)"
  using assms by (subst parse_frames.simps) simp

lemma parse_frames_append:
  assumes "parse_frames C L fs s = (Inr gs, s1)"
  shows "parse_frames C L fs (s\<lparr>buffer := buffer s @ c\<rparr>) = parse_frames C L gs (s1\<lparr>buffer := buffer s1 @ c\<rparr>)"
  using assms
proof (induction C L fs s rule: parse_frames.induct)
  case (1 C L fs s)
  from "1.prems" show ?case
  proof (cases rule: parse_frames_cases)
    case header
    then show ?thesis using read_header_None by auto
  next
    case (partial n)
    then have "expectedBodyBytes s1 = Some n"
      by (cases rule: read_header_cases) auto
    then have "read_header L (s1\<lparr>buffer := buffer s1 @ c\<rparr>) = (Inr (Some n), s1\<lparr>buffer := buffer s1 @ c\<rparr>)"
      by (simp add: read_header_def)
    then show ?thesis unfolding partial(3) using read_header_append [OF partial(1), of c]
      by (subst (1 2) parse_frames.simps) simp
  next
    case (complete n t1 t v)
    from "1.IH" [OF complete(1) [symmetric] refl refl complete(2) refl complete(3,4,5)] show ?thesis
      using complete
      by (subst parse_frames_frame [OF read_header_append [OF complete(1), of c]]) (auto, cases t1, simp)
  qed
qed

lemma push_append:
  assumes "push C L c s = (Inr fs, s1)"
  shows "push C L (c @ d) s = after_frames fs (push C L d s1)"
proof (cases "c = [] \<or> d = []")
  case True
  then show ?thesis using assms by (auto simp: push_def)
next
  case False
  have "parse_frames C L [] (s\<lparr>buffer := buffer s @ c\<rparr>) = (Inr fs, s1)"
    using assms False by (simp add: push_def)
  from parse_frames_append [OF this, of d] show ?thesis
    using False parse_frames_after [of C L fs "[]"] by (simp add: push_def)
qed

text \<open>How the stream is cut into chunks does not matter. Whenever pushing the chunks one after the
  other succeeds, pushing their concatenation at once succeeds with the same frames in the same
  order and leaves the parser in the same state; this holds for every byte stream, every limit and
  every decoder.\<close>

lemma chunking_irrelevant:
  assumes "push_chunks C L cs s = (Inr fs, s')"
  shows "push C L (concat cs) s = (Inr fs, s')"
  using assms
proof (induction cs arbitrary: s fs)
  case Nil
  then show ?case by (simp add: push_def)
next
  case (Cons c cs)
  then obtain gs s1 hs where "push C L c s = (Inr gs, s1)" "push_chunks C L cs s1 = (Inr hs, s')" "fs = gs @ hs"
    by (auto split: prod.splits sum.splits)
  with Cons.IH push_append [of C L c s gs s1 "concat cs"] show ?case by simp
qed

subsection \<open>The buffer is bounded\<close>

definition parser_ok :: "frame_limits \<Rightarrow> ContentLengthFrameParser \<Rightarrow> bool" where
  "parser_ok L s \<longleftrightarrow>
     (case expectedBodyBytes s of
        None \<Rightarrow> length (buffer s) \<le> maxHeaderBytes L \<and> index_of headerTerminator (buffer s) = None
      | Some n \<Rightarrow> length (buffer s) < n \<and> n \<le> maxFrameBytes L)"

lemma parseContentLength_bound: "parseContentLength h m = Inr n \<Longrightarrow> n \<le> m"
  by (auto simp: parseContentLength_def split: sum.splits option.splits if_splits)

lemma read_header_bound:
  assumes "read_header L s = (Inr (Some n), t1)" and "\<And>n. expectedBodyBytes s = Some n \<Longrightarrow> n \<le> maxFrameBytes L"
  shows "expectedBodyBytes t1 = Some n \<and> n \<le> maxFrameBytes L"
  using assms(1) by (cases rule: read_header_cases) (use assms(2) in \<open>auto dest: parseContentLength_bound\<close>)

lemma parse_frames_ok:
  assumes "parse_frames C L fs s = (Inr gs, s1)"
    and "\<And>n. expectedBodyBytes s = Some n \<Longrightarrow> n \<le> maxFrameBytes L"
  shows "parser_ok L s1"
  using assms
proof (induction C L fs s rule: parse_frames.induct)
  case (1 C L fs s)
  from "1.prems"(1) show ?case
  proof (cases rule: parse_frames_cases)
    case header
    then show ?thesis
      by (auto simp: read_header_def parser_ok_def split: option.splits if_splits sum.splits)
  next
    case partial
    with read_header_bound [OF partial(1)] "1.prems"(2) show ?thesis by (simp add: parser_ok_def)
  next
    case complete
    then show ?thesis using "1.IH" [OF complete(1) [symmetric] refl refl complete(2) refl complete(3,4,5)] by simp
  qed
qed

lemma push_ok:
  assumes "push C L c s = (Inr fs, s1)" and "parser_ok L s"
  shows "parser_ok L s1"
proof (cases "c = []")
  case False
  with assms(1) have "parse_frames C L [] (s\<lparr>buffer := buffer s @ c\<rparr>) = (Inr fs, s1)" by (simp add: push_def)
  then show ?thesis by (rule parse_frames_ok) (use assms(2) in \<open>auto simp: parser_ok_def\<close>)
qed (use assms in \<open>simp add: push_def\<close>)

text \<open>C39: The parser's memory is bounded. After every successful push the buffer holds an incomplete header of at
  most \<open>maxHeaderBytes\<close> bytes, or part of a body that the limit \<open>maxFrameBytes\<close> allows; so nothing the
  peer sends makes a parser that has not failed keep more than the limits.\<close>

theorem parser_memory_bounded:
  assumes "ContentLengthFrameParser L = Inr s0" and "push_chunks C L cs s0 = (Inr fs, s)"
  shows "length (buffer s) \<le> max (maxHeaderBytes L) (maxFrameBytes L) \<and>
    (case expectedBodyBytes s of
       None \<Rightarrow> length (buffer s) \<le> maxHeaderBytes L
     | Some n \<Rightarrow> length (buffer s) < n \<and> n \<le> maxFrameBytes L)"
proof -
  have "parser_ok L s0"
    using assms(1) by (auto simp: ContentLengthFrameParser_def parser_ok_def split: if_splits)
  then have "parser_ok L s"
    using assms(2)
  proof (induction cs arbitrary: s0 fs)
    case (Cons c cs)
    then obtain gs s1 hs where p: "push C L c s0 = (Inr gs, s1)" "push_chunks C L cs s1 = (Inr hs, s)"
      by (auto split: prod.splits sum.splits)
    with Cons.IH push_ok [OF p(1) Cons.prems(1)] show ?case by blast
  qed simp
  then show ?thesis by (auto simp: parser_ok_def split: option.splits)
qed

subsection \<open>Round trip\<close>

text \<open>The header of a frame is found at once, is short, and is read back.\<close>

lemma digit_char_facts:
  assumes "d < 10"
  shows "is_digit (digit_char d)" "digit_char d \<noteq> CHR 0x0D" "char_of ((of_char (digit_char d) :: nat) mod 128) = digit_char d"
    "\<not> js_space (digit_char d)"
  using assms by (auto simp: is_digit_def digit_char_def Let_def js_space_def dest: arg_cong [of _ _ "of_char :: char \<Rightarrow> nat"])

lemma show_nat_chars:
  assumes "c \<in> set (show_nat n)"
  shows "is_digit c" "c \<noteq> CHR 0x0D" "char_of ((of_char c :: nat) mod 128) = c" "\<not> js_space c"
proof -
  obtain d where "d < 10" "c = digit_char d"
    using assms set_nat_to_base [of 10 n] by (auto simp: show_nat_def)
  then show "is_digit c" "c \<noteq> CHR 0x0D" "char_of ((of_char c :: nat) mod 128) = c" "\<not> js_space c"
    using digit_char_facts by auto
qed

lemma split_crlf_plain: "CHR 0x0D \<notin> set s \<Longrightarrow> split_crlf s = [s]"
  by (induction s rule: split_crlf.induct) auto

lemma frame_header_no_CR: "CHR 0x0D \<notin> set (frame_header n)"
  using show_nat_chars(2) by (auto simp: frame_header_def)

lemma ascii_frame_header: "ascii_decode (frame_header n) = frame_header n"
proof -
  have "ascii_decode ''Content-Length: '' = ''Content-Length: ''" by code_simp
  moreover have "ascii_decode (show_nat n) = show_nat n"
    unfolding ascii_decode_def by (rule map_idI) (rule show_nat_chars(3))
  ultimately show ?thesis by (simp add: ascii_decode_def frame_header_def)
qed

lemma match_frame_header: "match_content_length (frame_header n) = Some n"
proof -
  have ne: "show_nat n \<noteq> []" by (simp add: show_nat_def nat_to_base_not_Nil)
  have tw: "takeWhile is_digit (show_nat n) = show_nat n" "dropWhile is_digit (show_nat n) = []"
    using show_nat_chars(1) by (simp_all add: takeWhile_eq_all_conv dropWhile_eq_Nil_conv)
  have "dropWhile js_space (CHR '' '' # show_nat n) = show_nat n"
    using ne show_nat_chars(4) [of "hd (show_nat n)" n] by (cases "show_nat n") (auto simp: js_space_def [of "CHR '' ''"])
  moreover have "map ascii_lower ''Content-Length:'' = ''content-length:''" by code_simp
  moreover have "take 15 (frame_header n) = ''Content-Length:''" "drop 15 (frame_header n) = CHR '' '' # show_nat n"
    by (simp_all add: frame_header_def)
  moreover have "base_value 10 0 (show_nat n) = n"
    by (simp add: show_nat_def base_value_nat_to_base)
  ultimately show ?thesis
    using ne unfolding match_content_length_def Let_def by (simp add: tw del: list.map dropWhile.simps)
qed

lemma parse_frame_header:
  assumes "n \<le> m" and "int m \<le> MAX_SAFE_INTEGER"
  shows "parseContentLength (ascii_decode (frame_header n)) m = Inr n"
  using assms by (simp add: parseContentLength_def ascii_frame_header split_crlf_plain frame_header_no_CR
      match_frame_header)

lemma length_frame_header:
  assumes "int n \<le> MAX_SAFE_INTEGER"
  shows "length (frame_header n) \<le> 32"
proof -
  have "n < 10 ^ 16" using assms by (simp add: MAX_SAFE_INTEGER_def)
  then have "length (show_nat n) \<le> 16" by (simp add: show_nat_def length_nat_to_base)
  then show ?thesis by (simp add: frame_header_def)
qed

lemma index_of_terminator: "CHR 0x0D \<notin> set h \<Longrightarrow> index_of headerTerminator (h @ headerTerminator @ r) = Some (length h)"
  by (induction h) (auto simp: headerTerminator_def CRLF_def)

lemma prefix_of_append:
  assumes "prefix p (a @ b)" and "length a \<le> length p"
  obtains q where "p = a @ q" and "prefix q b"
proof -
  from assms(1) consider "prefix p a" | q where "p = a @ q" "prefix q b" by (auto simp: prefix_append)
  then show thesis
  proof cases
    case 1
    with assms(2) have "p = a" by (metis append_Nil2 append_eq_conv_conj prefixE prefix_length_le take_all)
    with that [of "[]"] show thesis by simp
  qed (rule that)
qed

lemma index_of_prefix:
  assumes "CHR 0x0D \<notin> set h" and "prefix p (h @ headerTerminator)" and "length p < length h + length headerTerminator"
  shows "index_of headerTerminator p = None"
proof (rule ccontr)
  assume "index_of headerTerminator p \<noteq> None"
  then obtain i where i: "index_of headerTerminator p = Some i" by blast
  obtain q where "h @ headerTerminator = p @ q" using assms(2) by (auto elim: prefixE)
  then have "i = length h"
    using index_of_append [OF _ i, of q] index_of_terminator [OF assms(1), of "[]"] by simp
  with index_of_bound [OF i] assms(3) show False by simp
qed

definition at_start :: "bytes \<Rightarrow> ContentLengthFrameParser" where
  "at_start b = \<lparr>buffer = b, expectedBodyBytes = None\<rparr>"

lemma parse_frames_no_header:
  assumes "index_of headerTerminator p = None" and "length p \<le> maxHeaderBytes L"
  shows "parse_frames C L fs (at_start p) = (Inr fs, at_start p)"
  using assms by (subst parse_frames.simps) (simp add: read_header_def at_start_def)

text \<open>Every prefix of a stream of encoded frames is parsed without an error, and the whole stream
  gives the values back.\<close>

lemma parse_encoded_prefix:
  assumes codec: "\<And>v. utf8_decode C (frame_body C v) = Some (json_stringify C v)"
    "\<And>v. json_parse C (json_stringify C v) = Some v"
    and limits: "int (maxFrameBytes L) \<le> MAX_SAFE_INTEGER" "35 \<le> maxHeaderBytes L"
    and "\<forall>v \<in> set vs. length (frame_body C v) \<le> maxFrameBytes L"
    and "prefix p (concat (map (encodeContentLengthFrame C) vs))"
  shows "(\<exists>gs s1. parse_frames C L [] (at_start p) = (Inr gs, s1)) \<and>
    (p = concat (map (encodeContentLengthFrame C) vs) \<longrightarrow> parse_frames C L [] (at_start p) = (Inr vs, at_start []))"
  using assms(5,6)
proof (induction vs arbitrary: p)
  case Nil
  then show ?case by (simp add: parse_frames_no_header)
next
  case (Cons v vs)
  define body where "body = frame_body C v"
  define h where "h = frame_header (length body)"
  define rest where "rest = concat (map (encodeContentLengthFrame C) vs)"
  have n: "length body \<le> maxFrameBytes L" using Cons.prems(1) by (simp add: body_def)
  have stream: "concat (map (encodeContentLengthFrame C) (v # vs)) = h @ headerTerminator @ body @ rest"
    by (simp add: encodeContentLengthFrame_def Let_def h_def body_def rest_def)
  have h: "CHR 0x0D \<notin> set h" "length h \<le> 32" "parseContentLength (ascii_decode h) (maxFrameBytes L) = Inr (length body)"
    using n limits(1) by (simp_all add: h_def frame_header_no_CR length_frame_header parse_frame_header)
  have four: "length headerTerminator = 4" by (simp add: headerTerminator_def CRLF_def)
  show ?case
  proof (cases "length p < length h + 4")
    case True
    then have "prefix p (h @ headerTerminator)"
      using Cons.prems(2) prefix_length_prefix [of p _ "h @ headerTerminator"] unfolding stream
      by (fastforce simp: four prefix_def)
    then have "index_of headerTerminator p = None"
      using True h(1) by (intro index_of_prefix) (auto simp: four)
    moreover have "length p \<le> maxHeaderBytes L" using True h(2) limits(2) by simp
    ultimately have "parse_frames C L [] (at_start p) = (Inr [], at_start p)"
      by (rule parse_frames_no_header)
    moreover have "p \<noteq> concat (map (encodeContentLengthFrame C) (v # vs))"
      unfolding stream using True four by auto
    ultimately show ?thesis by blast
  next
    case False
    then obtain q where p: "p = h @ headerTerminator @ q" and q: "prefix q (body @ rest)"
      using prefix_of_append [of p "h @ headerTerminator" "body @ rest"] Cons.prems(2) unfolding stream
      by (auto simp: four)
    have rh: "read_header L (at_start p) = (Inr (Some (length body)), \<lparr>buffer = q, expectedBodyBytes = Some (length body)\<rparr>)"
      using h limits(2) by (simp add: read_header_def at_start_def p index_of_terminator)
    show ?thesis
    proof (cases "length q < length body")
      case True
      then have "parse_frames C L [] (at_start p) = (Inr [], \<lparr>buffer = q, expectedBodyBytes = Some (length body)\<rparr>)"
        by (subst parse_frames.simps) (simp add: rh)
      moreover have "p \<noteq> concat (map (encodeContentLengthFrame C) (v # vs))"
        unfolding stream p using True by auto
      ultimately show ?thesis by blast
    next
      case False
      then obtain p' where q': "q = body @ p'" and p': "prefix p' rest"
        using prefix_of_append [OF q] by auto
      have "parse_frames C L [] (at_start p) = parse_frames C L ([] @ [v]) (at_start p')"
        by (subst parse_frames_frame [OF rh]) (auto simp: q' at_start_def codec body_def)
      then have step: "parse_frames C L [] (at_start p) = after_frames [v] (parse_frames C L [] (at_start p'))"
        using parse_frames_after [of C L "[v]" "[]"] by simp
      have IH: "(\<exists>gs s1. parse_frames C L [] (at_start p') = (Inr gs, s1)) \<and>
          (p' = rest \<longrightarrow> parse_frames C L [] (at_start p') = (Inr vs, at_start []))"
        using Cons.IH [of p'] Cons.prems(1) p' by (simp add: rest_def)
      moreover have "p = concat (map (encodeContentLengthFrame C) (v # vs)) \<longleftrightarrow> p' = rest"
        unfolding stream p q' by auto
      ultimately show ?thesis using step by fastforce
    qed
  qed
qed

text \<open>Pushing chunk by chunk does what parsing the bytes received so far does.\<close>

lemma push_chunks_history:
  assumes "parse_frames C L [] (at_start p) = (Inr gs, s)"
    and "\<And>q. prefix q (p @ concat cs) \<Longrightarrow> \<exists>hs t. parse_frames C L [] (at_start q) = (Inr hs, t)"
  shows "\<exists>hs t. push_chunks C L cs s = (Inr hs, t) \<and> parse_frames C L [] (at_start (p @ concat cs)) = (Inr (gs @ hs), t)"
  using assms
proof (induction cs arbitrary: p gs s)
  case (Cons c cs)
  obtain ks t where ks: "parse_frames C L [] (at_start (p @ c)) = (Inr ks, t)"
    using Cons.prems(2) [of "p @ c"] by auto
  have "\<exists>hs. push C L c s = (Inr hs, t) \<and> ks = gs @ hs"
  proof (cases "c = []")
    case True
    then show ?thesis using Cons.prems(1) ks by (simp add: push_def)
  next
    case False
    have "parse_frames C L [] (at_start (p @ c)) = after_frames gs (push C L c s)"
      using parse_frames_append [OF Cons.prems(1), of c] parse_frames_after [of C L gs "[]"] False
      by (simp add: push_def at_start_def)
    with ks show ?thesis by (cases "push C L c s"; cases "fst (push C L c s)") auto
  qed
  then obtain hs where hs: "push C L c s = (Inr hs, t)" "ks = gs @ hs" by blast
  from Cons.IH [OF ks] Cons.prems(2) show ?case by (fastforce simp: hs)
qed simp

text \<open>C8: What one side encodes the other side receives, however the bytes are cut into chunks. For a
  JSON and UTF-8 codec that reads back what it wrote, a parser with a header limit of at least 35
  bytes and messages whose bodies respect its frame limit, pushing any chunks whose concatenation is
  the encoding of the messages never fails, returns exactly the messages in order, leaves nothing in
  the parser and lets the stream finish.\<close>

theorem framing_round_trip:
  assumes "\<And>v. utf8_decode C (frame_body C v) = Some (json_stringify C v)"
    and "\<And>v. json_parse C (json_stringify C v) = Some v"
    and "ContentLengthFrameParser L = Inr s0" and "35 \<le> maxHeaderBytes L"
    and "\<forall>v \<in> set vs. length (frame_body C v) \<le> maxFrameBytes L"
    and "concat cs = concat (map (encodeContentLengthFrame C) vs)"
  shows "push_chunks C L cs s0 = (Inr vs, s0) \<and> finish s0 = (Inr (), s0)"
proof -
  have s0: "s0 = at_start []" "int (maxFrameBytes L) \<le> MAX_SAFE_INTEGER"
    using assms(3) by (auto simp: ContentLengthFrameParser_def at_start_def split: if_splits)
  note parse = parse_encoded_prefix [OF assms(1,2) s0(2) assms(4,5)]
  have "parse_frames C L [] (at_start []) = (Inr [], s0)"
    by (simp add: parse_frames_no_header s0)
  from push_chunks_history [OF this, of cs] parse assms(6)
  have "push_chunks C L cs s0 = (Inr vs, s0)" by (auto simp: s0)
  then show ?thesis by (simp add: finish_def s0 at_start_def)
qed

end
