(* ===== verification/SystemExamples.thy ===== *)
theory SystemExamples
  imports CollectorExamples PipelineExamples Pipeline Framing
begin

text \<open>
  Concrete runs across components: the collector of the examples seals one window, which the runner
  of the examples takes to its commit; and two messages are framed, cut into chunks and read back.
\<close>

subsection \<open>The pipeline\<close>

definition sx_commands :: "collector_command list" where
  "sx_commands = [Recover False, Ingest (ex_focus ''a'' 10), Ingest (ex_focus ''b'' 20)]"

lemma sx_undisturbed: "undisturbed px_digest (\<lambda>_. abort_error) px_env"
  by (auto simp: undisturbed_def px_env_def ret_def fun_eq_iff split: sum.splits)

lemma sx_windows: "list_all (\<lambda>(k, w). win_endedAtMs w \<le> 100) (windows (coll_repository (ex_run sx_commands)))"
  by code_simp

lemma sx_jobs: "length (jobs (coll_repository (ex_run sx_commands))) \<le> 1"
  by code_simp

lemma sx_sealed: "jget (windows (coll_repository (ex_run sx_commands))) ''window_h'' \<noteq> None"
  by code_simp

theorem pipeline_delivers_witness:
  "\<exists>results u j. runUntilIdle (in_memory_jobs code_unit_compare) px_options (\<lambda>_. px_env) (\<lambda>_. False) (\<lambda>_. False) 1
      \<lparr>repository = coll_repository (ex_run sx_commands), committer = (), running = False\<rparr> = (Inr results, u) \<and>
    jget (jobs (repository u)) ''window_h'' = Some j \<and> job_state j = COMMITTED"
proof -
  have "win_endedAtMs w \<le> nowMs px_env AtClaim"
    if "jget (windows (coll_repository (ex_run sx_commands))) wid = Some w" for wid w
    using map_of_SomeD [OF that] sx_windows by (auto simp: list_all_iff px_env_def)
  then have "\<exists>results u. runUntilIdle (in_memory_jobs code_unit_compare) px_options (\<lambda>_. px_env) (\<lambda>_. False) (\<lambda>_. False) 1
      \<lparr>repository = coll_repository (ex_run sx_commands), committer = (), running = False\<rparr> = (Inr results, u) \<and>
    (\<forall>wid w. jget (windows (coll_repository (ex_run sx_commands))) wid = Some w \<longrightarrow>
      (\<exists>j. jget (jobs (repository u)) wid = Some j \<and> job_state j = COMMITTED))"
    by (rule pipeline_delivers [OF ex_collector_fresh ex_run_def px_digest_length sx_undisturbed _ sx_jobs])
  then show ?thesis using sx_sealed by blast
qed

subsection \<open>Framing\<close>

definition fx_codec :: "(string, bool) frame_codec" where
  "fx_codec = \<lparr>utf8_encode = id, utf8_decode = Some, json_stringify = (\<lambda>b. if b then ''true'' else ''false''),
     json_parse = (\<lambda>t. if t = ''true'' then Some True else if t = ''false'' then Some False else None)\<rparr>"

definition fx_stream :: bytes where
  "fx_stream = concat (map (encodeContentLengthFrame fx_codec) [True, False])"

definition fx_chunks :: "bytes list" where
  "fx_chunks = [take 3 fx_stream, [], take 17 (drop 3 fx_stream), drop 20 fx_stream]"

definition fx_limits :: frame_limits where
  "fx_limits = \<lparr>maxFrameBytes = 100, maxHeaderBytes = 64\<rparr>"

definition fx_parser :: ContentLengthFrameParser where
  "fx_parser = \<lparr>buffer = [], expectedBodyBytes = None\<rparr>"

lemma fx_constructed: "ContentLengthFrameParser default_limits = Inr fx_parser"
  by (simp add: ContentLengthFrameParser_def default_limits_def fx_parser_def MAX_SAFE_INTEGER_def)

lemma fx_constructed_small: "ContentLengthFrameParser fx_limits = Inr fx_parser"
  by (simp add: ContentLengthFrameParser_def fx_limits_def fx_parser_def MAX_SAFE_INTEGER_def)

theorem framing_round_trip_witness:
  "push_chunks fx_codec default_limits fx_chunks fx_parser = (Inr [True, False], fx_parser)"
proof -
  have "drop 20 fx_stream = drop 17 (drop 3 fx_stream)" by simp
  then have "concat fx_chunks = fx_stream"
    unfolding fx_chunks_def by (simp del: drop_drop)
  then have "concat fx_chunks = concat (map (encodeContentLengthFrame fx_codec) [True, False])"
    unfolding fx_stream_def .
  then show ?thesis
    by (rule framing_round_trip [OF _ _ fx_constructed, THEN conjunct1, rotated -1])
      (auto simp: fx_codec_def frame_body_def default_limits_def)
qed

theorem parser_memory_bounded_witness:
  "length (buffer (snd (push_chunks fx_codec fx_limits [''Content-Length: 4''] fx_parser))) \<le> 100"
proof -
  have "fst (push_chunks fx_codec fx_limits [''Content-Length: 4''] fx_parser) = Inr []"
    by code_simp
  from parser_memory_bounded [OF fx_constructed_small fst_eq_pair [OF this], THEN conjunct1]
  show ?thesis by (simp add: fx_limits_def)
qed

text \<open>The limit of the header is checked against the whole buffer while the terminator is incomplete, so
  a header of the maximal length is accepted in one chunk and refused when its terminator is cut.\<close>

lemma header_limit_depends_on_chunks:
  fixes L defines "L \<equiv> \<lparr>maxFrameBytes = 100, maxHeaderBytes = 17\<rparr>"
  shows "fst (push_chunks fx_codec L [encodeContentLengthFrame fx_codec True] fx_parser) = Inr [True]"
    and "fst (push_chunks fx_codec L [take 18 (encodeContentLengthFrame fx_codec True),
      drop 18 (encodeContentLengthFrame fx_codec True)] fx_parser) = Inl HeaderTooLong"
  unfolding L_def by code_simp+

end
