(* ===== verification/Coalescer.thy ===== *)
theory Coalescer
  imports ReflectionTypes
begin

text \<open>
  The semantic event coalescer, \<open>src/agent/reflection/coalescer.ts\<close>: input samples are summed in
  five-second buckets that become one event each, process scans become events, and exact repeats
  of semantic events are suppressed. A sampled number is \<open>Some n\<close>, or \<open>None\<close> when it is not
  finite. The source adds doubles, and distances may be fractions: here sampled numbers and their
  sums are whole, so the rounding and the overflow of double additions are not modelled, and no
  property of the program rests on the sums. The identity factory is a record of its operation, polymorphic in its state; the
  locale-dependent string order \<open>localeCompare\<close> is the parameter \<open>lc\<close>.
\<close>

subsection \<open>Observations\<close>

datatype observation_payload =
    InputActivitySample "int option" "int option" "int option" "int option"
  | ProcessScan "ProcessObservation list" "ProcessObservation list"

record DesktopObservation =
  observationId :: string
  obs_deviceId :: string
  obs_sessionId :: string
  obs_source :: string
  obs_occurredAtMs :: int
  obs_observedAtMs :: int
  obs_goalVersion :: "int option"
  obs_payload :: observation_payload

datatype coalescer_input = Observed DesktopObservation | Semantic DesktopEvent

fun input_occurredAtMs :: "coalescer_input \<Rightarrow> int" where
  "input_occurredAtMs (Observed ob) = obs_occurredAtMs ob"
| "input_occurredAtMs (Semantic e) = occurredAtMs e"

definition finite_number :: "int option \<Rightarrow> int" where
  "finite_number value = (case value of None \<Rightarrow> 0 | Some n \<Rightarrow> n)"

definition nonNegative :: "int option \<Rightarrow> int" where
  "nonNegative value = max 0 (finite_number value)"

subsection \<open>Identities\<close>

record EventIdentity =
  id_eventId :: string
  id_cursor :: string

record 'f EventIdentityFactory =
  create_of :: "'f \<Rightarrow> string \<Rightarrow> string list \<Rightarrow> int \<Rightarrow> EventIdentity \<times> 'f"

record MonotonicEventIdentityFactory =
  factory_prefix :: string
  sequence_no :: nat

definition monotonic_create ::
  "MonotonicEventIdentityFactory \<Rightarrow> string \<Rightarrow> string list \<Rightarrow> int \<Rightarrow> EventIdentity \<times> MonotonicEventIdentityFactory" where
  "monotonic_create f kd sources occurredAt =
     (let n = sequence_no f + 1;
          suffix = int_to_base 36 occurredAt @ ''_'' @ nat_to_base 36 n
      in (\<lparr>id_eventId = factory_prefix f @ ''_'' @ kd @ ''_'' @ suffix,
           id_cursor = factory_prefix f @ '':'' @ pad_start 12 (CHR ''0'') (show_nat n)\<rparr>,
          f\<lparr>sequence_no := n\<rparr>))"

definition monotonic_factory :: "MonotonicEventIdentityFactory EventIdentityFactory" where
  "monotonic_factory = \<lparr>create_of = monotonic_create\<rparr>"

subsection \<open>State\<close>

record InputBucket =
  bk_deviceId :: string
  bk_sessionId :: string
  bk_source :: string
  bk_goalVersion :: "int option"
  bucketStartedAtMs :: int
  latestOccurredAtMs :: int
  latestObservedAtMs :: int
  observationIds :: "string list"
  keyCount :: int
  clickCount :: int
  scrollDelta :: int
  mouseDistance :: int

record 'f coalescer =
  identityFactory :: 'f
  inputBuckets :: "(string, InputBucket) jmap"
  lastSignatures :: "(string, string) jmap"

definition new_coalescer :: "'f \<Rightarrow> 'f coalescer" where
  "new_coalescer f = \<lparr>identityFactory = f, inputBuckets = [], lastSignatures = []\<rparr>"

definition DEFAULT_INPUT_BUCKET_MS :: int where
  "DEFAULT_INPUT_BUCKET_MS = 5000"

subsection \<open>Making events\<close>

definition makeEvent ::
  "'f EventIdentityFactory \<Rightarrow> DesktopEventPayload \<Rightarrow> string \<Rightarrow> string \<Rightarrow> string \<Rightarrow> int option \<Rightarrow> string list
   \<Rightarrow> EventSensitivity \<Rightarrow> int \<Rightarrow> int \<Rightarrow> 'f \<Rightarrow> DesktopEvent \<times> 'f" where
  "makeEvent F pl device session src goal sources sens occurredAt observedAt f =
     (case create_of F f (kind_of pl) sources occurredAt of (identity, f') \<Rightarrow>
        (\<lparr>eventId = id_eventId identity, cursor = id_cursor identity, deviceId = device,
          sessionId = session, event_source = src, occurredAtMs = occurredAt,
          observedAtMs = observedAt, event_goalVersion = goal, sensitivity = sens, payload = pl\<rparr>, f'))"

definition inputBucketEvent ::
  "'f EventIdentityFactory \<Rightarrow> int \<Rightarrow> InputBucket \<Rightarrow> 'f \<Rightarrow> DesktopEvent \<times> 'f" where
  "inputBucketEvent F inputBucketMs b =
     makeEvent F (ActivityAggregated (bucketStartedAtMs b) (bucketStartedAtMs b + inputBucketMs)
         (keyCount b) (clickCount b) (scrollDelta b) (mouseDistance b) None)
       (bk_deviceId b) (bk_sessionId b) (bk_source b) (bk_goalVersion b) (observationIds b)
       Metadata (latestOccurredAtMs b) (latestObservedAtMs b)"

definition processScanEvent ::
  "'f EventIdentityFactory \<Rightarrow> DesktopObservation \<Rightarrow> ProcessObservation list \<Rightarrow> ProcessObservation list
   \<Rightarrow> 'f \<Rightarrow> DesktopEvent option \<times> 'f" where
  "processScanEvent F ob started exited f =
     (if started = [] \<and> exited = [] then (None, f)
      else case makeEvent F (ProcessObservedBatch started exited) (obs_deviceId ob) (obs_sessionId ob)
             (obs_source ob) (obs_goalVersion ob) [observationId ob] Metadata (obs_occurredAtMs ob)
             (obs_observedAtMs ob) f of (e, f') \<Rightarrow> (Some e, f'))"

subsection \<open>Buckets\<close>

definition bucket_start :: "int \<Rightarrow> int \<Rightarrow> int" where
  "bucket_start inputBucketMs t = (t div inputBucketMs) * inputBucketMs"

definition bucket_key :: "int \<Rightarrow> DesktopObservation \<Rightarrow> string" where
  "bucket_key inputBucketMs ob = js_join ''|''
     [obs_deviceId ob, obs_sessionId ob,
      (case obs_goalVersion ob of None \<Rightarrow> ''none'' | Some v \<Rightarrow> show_int v),
      show_int (bucket_start inputBucketMs (obs_occurredAtMs ob))]"

definition accumulateInput ::
  "int \<Rightarrow> DesktopObservation \<Rightarrow> int option \<Rightarrow> int option \<Rightarrow> int option \<Rightarrow> int option
   \<Rightarrow> 'f coalescer \<Rightarrow> 'f coalescer" where
  "accumulateInput inputBucketMs ob keys clicks scroll mouse c =
     (let key = bucket_key inputBucketMs ob;
          bucket = (case jget (inputBuckets c) key of
            Some existing \<Rightarrow> existing\<lparr>
              latestOccurredAtMs := max (latestOccurredAtMs existing) (obs_occurredAtMs ob),
              latestObservedAtMs := max (latestObservedAtMs existing) (obs_observedAtMs ob),
              observationIds := observationIds existing @ [observationId ob],
              keyCount := keyCount existing + nonNegative keys,
              clickCount := clickCount existing + nonNegative clicks,
              scrollDelta := scrollDelta existing + finite_number scroll,
              mouseDistance := mouseDistance existing + nonNegative mouse\<rparr>
          | None \<Rightarrow>
              \<lparr>bk_deviceId = obs_deviceId ob, bk_sessionId = obs_sessionId ob, bk_source = obs_source ob,
               bk_goalVersion = obs_goalVersion ob,
               bucketStartedAtMs = bucket_start inputBucketMs (obs_occurredAtMs ob),
               latestOccurredAtMs = obs_occurredAtMs ob, latestObservedAtMs = obs_observedAtMs ob,
               observationIds = [observationId ob], keyCount = nonNegative keys,
               clickCount = nonNegative clicks, scrollDelta = finite_number scroll,
               mouseDistance = nonNegative mouse\<rparr>)
      in c\<lparr>inputBuckets := jset key bucket (inputBuckets c)\<rparr>)"

fun flush_loop ::
  "'f EventIdentityFactory \<Rightarrow> int \<Rightarrow> int \<Rightarrow> bool \<Rightarrow> (string \<times> InputBucket) list \<Rightarrow> 'f coalescer
   \<Rightarrow> DesktopEvent list \<Rightarrow> DesktopEvent list \<times> 'f coalescer" where
  "flush_loop F inputBucketMs atMs force [] c output = (output, c)"
| "flush_loop F inputBucketMs atMs force ((key, bucket) # rest) c output =
     (if \<not> force \<and> atMs < bucketStartedAtMs bucket + inputBucketMs
      then flush_loop F inputBucketMs atMs force rest c output
      else case inputBucketEvent F inputBucketMs bucket (identityFactory c) of (e, f') \<Rightarrow>
        flush_loop F inputBucketMs atMs force rest
          (c\<lparr>inputBuckets := jdelete key (inputBuckets c), identityFactory := f'\<rparr>) (output @ [e]))"

definition event_compare :: "(string \<Rightarrow> string \<Rightarrow> int) \<Rightarrow> DesktopEvent \<Rightarrow> DesktopEvent \<Rightarrow> int" where
  "event_compare lc = or_else_cmp (cmp_by occurredAtMs) (\<lambda>a b. lc (eventId a) (eventId b))"

definition flushMatured ::
  "(string \<Rightarrow> string \<Rightarrow> int) \<Rightarrow> 'f EventIdentityFactory \<Rightarrow> int \<Rightarrow> int \<Rightarrow> bool \<Rightarrow> 'f coalescer
   \<Rightarrow> DesktopEvent list \<times> 'f coalescer" where
  "flushMatured lc F inputBucketMs atMs force c =
     (let inputEntries = js_sort (\<lambda>a b. lc (fst a) (fst b)) (inputBuckets c)
      in case flush_loop F inputBucketMs atMs force inputEntries c [] of
           (output, c') \<Rightarrow> (js_sort (event_compare lc) output, c'))"

definition flush_at ::
  "(string \<Rightarrow> string \<Rightarrow> int) \<Rightarrow> 'f EventIdentityFactory \<Rightarrow> int \<Rightarrow> int \<Rightarrow> 'f coalescer
   \<Rightarrow> DesktopEvent list \<times> 'f coalescer" where
  "flush_at lc F inputBucketMs atMs c = flushMatured lc F inputBucketMs atMs False c"

definition flushAll ::
  "(string \<Rightarrow> string \<Rightarrow> int) \<Rightarrow> 'f EventIdentityFactory \<Rightarrow> int \<Rightarrow> int \<Rightarrow> 'f coalescer
   \<Rightarrow> DesktopEvent list \<times> 'f coalescer" where
  "flushAll lc F inputBucketMs atMs c = flushMatured lc F inputBucketMs atMs True c"

subsection \<open>Repeats\<close>

definition or_empty :: "string option \<Rightarrow> string" where
  "or_empty value = (case value of None \<Rightarrow> '''' | Some v \<Rightarrow> v)"

definition browserTabDedupeKey :: "DesktopEvent \<Rightarrow> string \<Rightarrow> string \<Rightarrow> string" where
  "browserTabDedupeKey e browserId tabId =
     ''browser|'' @ deviceId e @ ''|'' @ sessionId e @ ''|'' @ browserId @ ''|'' @ tabId"

definition dedupeKeyForEvent :: "DesktopEvent \<Rightarrow> (string \<times> string) option" where
  "dedupeKeyForEvent e =
     (case payload e of
        ForegroundChanged appId appName windowTitle \<Rightarrow>
          Some (''foreground|'' @ deviceId e @ ''|'' @ sessionId e, appId @ ''|'' @ or_empty windowTitle)
      | TabOpened browserId tabId title url \<Rightarrow>
          if url = None \<and> title = None then None
          else Some (browserTabDedupeKey e browserId tabId,
                 kind e @ ''|'' @ or_empty url @ ''|'' @ or_empty title)
      | TabNavigated browserId tabId title url \<Rightarrow>
          if url = None \<and> title = None then None
          else Some (browserTabDedupeKey e browserId tabId,
                 kind e @ ''|'' @ or_empty url @ ''|'' @ or_empty title)
      | FocusChanged appId role focusLabel \<Rightarrow>
          Some (''focus|'' @ deviceId e @ ''|'' @ sessionId e,
            appId @ ''|'' @ role @ ''|'' @ or_empty focusLabel)
      | _ \<Rightarrow> None)"

text \<open>The pending write of a decision, which \<open>commit\<close> performs.\<close>

datatype signature_write = NoWrite | DeleteSignature string | SetSignature string string

definition prepareDuplicateDecision :: "DesktopEvent \<Rightarrow> 'f coalescer \<Rightarrow> bool \<times> signature_write" where
  "prepareDuplicateDecision e c =
     (case payload e of
        TabClosed browserId tabId \<Rightarrow> (False, DeleteSignature (browserTabDedupeKey e browserId tabId))
      | _ \<Rightarrow>
          (case dedupeKeyForEvent e of
             None \<Rightarrow> (False, NoWrite)
           | Some (key, signature) \<Rightarrow>
               (jget (lastSignatures c) key = Some signature, SetSignature key signature)))"

fun apply_write :: "signature_write \<Rightarrow> 'f coalescer \<Rightarrow> 'f coalescer" where
  "apply_write NoWrite c = c"
| "apply_write (DeleteSignature key) c = c\<lparr>lastSignatures := jdelete key (lastSignatures c)\<rparr>"
| "apply_write (SetSignature key signature) c = c\<lparr>lastSignatures := jset key signature (lastSignatures c)\<rparr>"

record PreparedDesktopEvent =
  prepared_events :: "DesktopEvent list"
  prepared_write :: signature_write
  committed :: bool

definition prepareDesktopEvent :: "DesktopEvent \<Rightarrow> 'f coalescer \<Rightarrow> PreparedDesktopEvent" where
  "prepareDesktopEvent e c =
     (case prepareDuplicateDecision e c of (duplicate, w) \<Rightarrow>
        \<lparr>prepared_events = (if duplicate then [] else [e]), prepared_write = w, committed = False\<rparr>)"

definition commit_prepared ::
  "PreparedDesktopEvent \<Rightarrow> 'f coalescer \<Rightarrow> PreparedDesktopEvent \<times> 'f coalescer" where
  "commit_prepared p c =
     (if committed p then (p, c) else (p\<lparr>committed := True\<rparr>, apply_write (prepared_write p) c))"

subsection \<open>Pushing an input\<close>

definition push ::
  "(string \<Rightarrow> string \<Rightarrow> int) \<Rightarrow> 'f EventIdentityFactory \<Rightarrow> int \<Rightarrow> coalescer_input \<Rightarrow> 'f coalescer
   \<Rightarrow> DesktopEvent list \<times> 'f coalescer" where
  "push lc F inputBucketMs input c =
     (case flushMatured lc F inputBucketMs (input_occurredAtMs input) False c of (matured, c1) \<Rightarrow>
        case input of
          Semantic e \<Rightarrow>
            (let prepared = prepareDesktopEvent e c1
             in (matured @ prepared_events prepared, snd (commit_prepared prepared c1)))
        | Observed ob \<Rightarrow>
            (case obs_payload ob of
               InputActivitySample keys clicks scroll mouse \<Rightarrow>
                 (matured, accumulateInput inputBucketMs ob keys clicks scroll mouse c1)
             | ProcessScan started exited \<Rightarrow>
                 (case processScanEvent F ob started exited (identityFactory c1) of
                    (None, f') \<Rightarrow> (matured, c1\<lparr>identityFactory := f'\<rparr>)
                  | (Some e, f') \<Rightarrow> (matured @ [e], c1\<lparr>identityFactory := f'\<rparr>))))"

fun push_all ::
  "(string \<Rightarrow> string \<Rightarrow> int) \<Rightarrow> 'f EventIdentityFactory \<Rightarrow> int \<Rightarrow> coalescer_input list \<Rightarrow> 'f coalescer
   \<Rightarrow> DesktopEvent list \<times> 'f coalescer" where
  "push_all lc F inputBucketMs [] c = ([], c)"
| "push_all lc F inputBucketMs (i # is) c =
     (case push lc F inputBucketMs i c of (out, c1) \<Rightarrow>
        case push_all lc F inputBucketMs is c1 of (outs, c2) \<Rightarrow> (out @ outs, c2))"

subsection \<open>Amounts\<close>

text \<open>The four quantities a bucket sums.\<close>

datatype quantity = Keys | Clicks | Scroll | Mouse

fun bucket_amount :: "quantity \<Rightarrow> InputBucket \<Rightarrow> int" where
  "bucket_amount Keys b = keyCount b"
| "bucket_amount Clicks b = clickCount b"
| "bucket_amount Scroll b = scrollDelta b"
| "bucket_amount Mouse b = mouseDistance b"

fun event_amount :: "quantity \<Rightarrow> DesktopEvent \<Rightarrow> int" where
  "event_amount q e = (case payload e of
     ActivityAggregated _ _ keys clicks scroll mouse _ \<Rightarrow>
       (case q of Keys \<Rightarrow> keys | Clicks \<Rightarrow> clicks | Scroll \<Rightarrow> scroll | Mouse \<Rightarrow> mouse)
   | _ \<Rightarrow> 0)"

fun input_amount :: "quantity \<Rightarrow> coalescer_input \<Rightarrow> int" where
  "input_amount q (Semantic e) = event_amount q e"
| "input_amount q (Observed ob) = (case obs_payload ob of
     InputActivitySample keys clicks scroll mouse \<Rightarrow>
       (case q of Keys \<Rightarrow> nonNegative keys | Clicks \<Rightarrow> nonNegative clicks
        | Scroll \<Rightarrow> finite_number scroll | Mouse \<Rightarrow> nonNegative mouse)
   | ProcessScan _ _ \<Rightarrow> 0)"

definition events_total :: "quantity \<Rightarrow> DesktopEvent list \<Rightarrow> int" where
  "events_total q es = sum_list (map (event_amount q) es)"

definition buckets_total :: "quantity \<Rightarrow> 'f coalescer \<Rightarrow> int" where
  "buckets_total q c = sum_list (map (bucket_amount q) (jvalues (inputBuckets c)))"

lemma events_total_simps [simp]:
  "events_total q [] = 0" "events_total q (xs @ ys) = events_total q xs + events_total q ys"
  "events_total q (x # xs) = event_amount q x + events_total q xs"
  by (simp_all add: events_total_def)

lemma events_total_sort [simp]: "events_total q (js_sort cmp es) = events_total q es"
  unfolding events_total_def by (metis mset_js_sort mset_map sum_mset_sum_list)

subsection \<open>Flushing\<close>

lemma inputBucketEvent_amount: "inputBucketEvent F ms b f = (e, f') \<Longrightarrow> event_amount q e = bucket_amount q b"
  by (cases q) (auto simp: inputBucketEvent_def makeEvent_def split: prod.splits)

lemma flush_loop_total:
  assumes "distinct (jkeys (inputBuckets c))" and "distinct (map fst es)"
    and "\<And>k b. (k, b) \<in> set es \<Longrightarrow> jget (inputBuckets c) k = Some b"
    and "flush_loop F ms atMs force es c out = (out', c')"
  shows "events_total q out' + buckets_total q c' = events_total q out + buckets_total q c \<and>
    distinct (jkeys (inputBuckets c'))"
  using assms
proof (induction F ms atMs force es c out rule: flush_loop.induct)
  case (2 F ms atMs force key bucket rest c out)
  show ?case
  proof (cases "\<not> force \<and> atMs < bucketStartedAtMs bucket + ms")
    case True
    with "2.IH"(1) "2.prems" show ?thesis by auto
  next
    case False
    obtain e f' where e: "inputBucketEvent F ms bucket (identityFactory c) = (e, f')" by fastforce
    let ?c = "c\<lparr>inputBuckets := jdelete key (inputBuckets c), identityFactory := f'\<rparr>"
    have step: "flush_loop F ms atMs force rest ?c (out @ [e]) = (out', c')"
      using "2.prems"(4) False e by simp
    have total: "buckets_total q ?c = buckets_total q c - bucket_amount q bucket"
      using "2.prems"(1) "2.prems"(3) [of key bucket] sum_jvalues_jdelete [of "inputBuckets c" "bucket_amount q" key]
      by (simp add: buckets_total_def del: map_map map_of_eq_Some_iff)
    have key: "key \<notin> fst ` set rest" using "2.prems"(2) by simp
    have rest: "jget (inputBuckets ?c) k = Some b" if "(k, b) \<in> set rest" for k b
      using that "2.prems"(3) key by force
    have "events_total q out' + buckets_total q c' = events_total q (out @ [e]) + buckets_total q ?c \<and>
        distinct (jkeys (inputBuckets c'))"
      using "2.IH"(2) [OF False e [symmetric] _ _ rest step] "2.prems"(1,2) by simp
    then show ?thesis using total inputBucketEvent_amount [OF e, of q] by simp
  qed
qed simp

lemma flush_entries:
  assumes "distinct (jkeys (inputBuckets c))"
  shows "distinct (map fst (js_sort (\<lambda>a b. lc (fst a) (fst b)) (inputBuckets c)))"
    and "(k, b) \<in> set (js_sort (\<lambda>a b. lc (fst a) (fst b)) (inputBuckets c)) \<longleftrightarrow> jget (inputBuckets c) k = Some b"
proof -
  let ?es = "js_sort (\<lambda>a b. lc (fst a) (fst b)) (inputBuckets c)"
  have "mset (map fst ?es) = mset (jkeys (inputBuckets c))" by (metis mset_js_sort mset_map)
  then show "distinct (map fst ?es)" using assms(1) mset_eq_imp_distinct_iff by blast
  show "(k, b) \<in> set ?es \<longleftrightarrow> jget (inputBuckets c) k = Some b"
    using assms(1) by simp
qed

lemma flushMatured_total:
  assumes "distinct (jkeys (inputBuckets c))" and "flushMatured lc F ms atMs force c = (out, c')"
  shows "events_total q out + buckets_total q c' = buckets_total q c \<and> distinct (jkeys (inputBuckets c'))"
proof -
  obtain raw where raw: "flush_loop F ms atMs force (js_sort (\<lambda>a b. lc (fst a) (fst b)) (inputBuckets c)) c [] = (raw, c')"
    and out: "out = js_sort (event_compare lc) raw"
    using assms(2) by (auto simp: flushMatured_def Let_def split: prod.splits)
  show ?thesis
    using flush_loop_total [OF assms(1) flush_entries(1) [OF assms(1)] _ raw, of q] flush_entries(2) [OF assms(1)] out
    by simp
qed

text \<open>The remaining buckets are those the loop skipped.\<close>

lemma flush_loop_remaining:
  assumes "flush_loop F ms atMs force es c out = (out', c')" and "distinct (jkeys (inputBuckets c))"
    and "distinct (map fst es)"
    and "jget (inputBuckets c') k = Some b"
  shows "jget (inputBuckets c) k = Some b \<and> ((k, b) \<in> set es \<longrightarrow> \<not> force \<and> atMs < bucketStartedAtMs b + ms)"
  using assms
proof (induction F ms atMs force es c out rule: flush_loop.induct)
  case (2 F ms atMs force key bucket rest c out)
  show ?case
  proof (cases "\<not> force \<and> atMs < bucketStartedAtMs bucket + ms")
    case True
    with 2 show ?thesis by auto
  next
    case False
    obtain e f' where e: "inputBucketEvent F ms bucket (identityFactory c) = (e, f')" by fastforce
    have "jget (inputBuckets (c\<lparr>inputBuckets := jdelete key (inputBuckets c), identityFactory := f'\<rparr>)) k = Some b \<and>
        ((k, b) \<in> set rest \<longrightarrow> \<not> force \<and> atMs < bucketStartedAtMs b + ms)"
      using "2.IH"(2) [OF False e [symmetric]] "2.prems" False e by simp
    then show ?thesis by (auto split: if_splits)
  qed
qed simp

lemma flushMatured_remaining:
  assumes "distinct (jkeys (inputBuckets c))" and "flushMatured lc F ms atMs force c = (out, c')"
    and "jget (inputBuckets c') k = Some b"
  shows "\<not> force" and "atMs < bucketStartedAtMs b + ms" and "jget (inputBuckets c) k = Some b"
proof -
  obtain raw where raw: "flush_loop F ms atMs force (js_sort (\<lambda>a b. lc (fst a) (fst b)) (inputBuckets c)) c [] = (raw, c')"
    using assms(2) by (auto simp: flushMatured_def Let_def split: prod.splits)
  from flush_loop_remaining [OF raw assms(1) flush_entries(1) [OF assms(1)] assms(3)] flush_entries(2) [OF assms(1)]
  show "\<not> force" and "atMs < bucketStartedAtMs b + ms" and "jget (inputBuckets c) k = Some b" by blast+
qed

subsection \<open>Accumulating\<close>

lemma accumulateInput_total:
  assumes "distinct (jkeys (inputBuckets c))"
    and "obs_payload ob = InputActivitySample keys clicks scroll mouse"
  shows "buckets_total q (accumulateInput ms ob keys clicks scroll mouse c) =
    buckets_total q c + input_amount q (Observed ob)"
  using assms(2) sum_jvalues_jset [OF assms(1), of "bucket_amount q" "bucket_key ms ob"]
  by (cases q) (auto simp: buckets_total_def accumulateInput_def Let_def simp del: map_map split: option.splits)

lemma flushMatured_distinct:
  "distinct (jkeys (inputBuckets c)) \<Longrightarrow> distinct (jkeys (inputBuckets (snd (flushMatured lc F ms atMs force c))))"
  using flushMatured_total [of c lc F ms atMs force] by (metis prod.collapse)

lemma prepared_total:
  "events_total q (prepared_events (prepareDesktopEvent e c)) = event_amount q e"
  by (cases "payload e") (auto simp: prepareDesktopEvent_def prepareDuplicateDecision_def dedupeKeyForEvent_def
      split: option.splits)

lemma inputBuckets_apply_write [simp]: "inputBuckets (apply_write w c) = inputBuckets c"
  by (cases w) auto

lemma processScan_total:
  "events_total q (case fst (processScanEvent F ob started exited f) of None \<Rightarrow> [] | Some e \<Rightarrow> [e]) = 0"
  by (auto simp: processScanEvent_def makeEvent_def split: prod.splits)

lemma push_total:
  assumes "distinct (jkeys (inputBuckets c))" and "push lc F ms i c = (out, c')"
  shows "events_total q out + buckets_total q c' = buckets_total q c + input_amount q i \<and>
    distinct (jkeys (inputBuckets c'))"
proof -
  obtain matured c1 where m: "flushMatured lc F ms (input_occurredAtMs i) False c = (matured, c1)" by fastforce
  note t = flushMatured_total [OF assms(1) m, of q]
  show ?thesis
  proof (cases i)
    case (Semantic e)
    then show ?thesis
      using assms(2) m t prepared_total [of q e c1]
      by (auto simp: push_def Let_def commit_prepared_def buckets_total_def)
  next
    case (Observed ob)
    show ?thesis
    proof (cases "obs_payload ob")
      case (InputActivitySample keys clicks scroll mouse)
      then show ?thesis
        using assms(2) m t Observed accumulateInput_total [of c1 ob keys clicks scroll mouse q ms]
        by (auto simp: push_def accumulateInput_def Let_def)
    next
      case (ProcessScan started exited)
      then show ?thesis
        using assms(2) m t Observed processScan_total [of q F ob started exited "identityFactory c1"]
        by (auto simp: push_def buckets_total_def split: prod.splits option.splits)
    qed
  qed
qed

lemma push_all_total:
  assumes "distinct (jkeys (inputBuckets c))" and "push_all lc F ms is c = (outs, c')"
  shows "events_total q outs + buckets_total q c' = buckets_total q c + sum_list (map (input_amount q) is) \<and>
    distinct (jkeys (inputBuckets c'))"
  using assms
proof (induction "is" arbitrary: c outs)
  case (Cons i "is")
  obtain out c1 outs1 where p: "push lc F ms i c = (out, c1)" "push_all lc F ms is c1 = (outs1, c')" "outs = out @ outs1"
    using Cons.prems(2) by (auto split: prod.splits)
  then show ?case using push_total [OF Cons.prems(1) p(1), of q] Cons.IH [OF _ p(2)] by simp
qed simp

text \<open>For whole samples, and so as long as no addition rounds, coalescing loses no input and invents
  none: after any inputs to a new coalescer and a final flush, each of the four summed quantities
  has the same total in the emitted events as in the inputs, negative and non-finite samples
  counted as the code counts them; and no bucket is left behind.\<close>

lemma coalescing_conserves_whole_samples:
  assumes "push_all lc F ms inputs (new_coalescer f) = (outs, c)" and "flushAll lc F ms atMs c = (rest, c')"
  shows "events_total q (outs @ rest) = sum_list (map (input_amount q) inputs) \<and> inputBuckets c' = []"
proof -
  have d0: "distinct (jkeys (inputBuckets (new_coalescer f)))" by (simp add: new_coalescer_def)
  note p = push_all_total [OF d0 assms(1), of q]
  then have d: "distinct (jkeys (inputBuckets c))" by blast
  note fl = flushMatured_total [OF d assms(2) [unfolded flushAll_def], of q]
  have "k \<notin> set (jkeys (inputBuckets c'))" for k
    using flushMatured_remaining(1) [OF d assms(2) [unfolded flushAll_def], of k]
    by (cases "jget (inputBuckets c') k") (auto simp: jget_not_key)
  then have "set (jkeys (inputBuckets c')) = {}" by (meson equals0I)
  then have "inputBuckets c' = []" by simp
  then show ?thesis using p fl by (simp add: buckets_total_def new_coalescer_def)
qed

lemma js_order_event_compare: "js_order lc \<Longrightarrow> js_order (event_compare lc)"
  unfolding event_compare_def
  by (intro js_order_or_else js_order_cmp_by)
    (auto simp: js_order_def js_comparator_def js_order_axioms_def)

text \<open>A flush emits what is due, in order, and keeps the rest. After any pushes, flushing at a
  time returns events sorted by their time (ties by event id, in the order \<open>localeCompare\<close> gives),
  and the buckets that remain are exactly the old ones whose interval has not ended at that time.\<close>

lemma flush_emits_due_sorted:
  assumes "js_order lc" and "push_all lc F ms inputs (new_coalescer f) = (outs, c)"
    and "flush_at lc F ms atMs c = (due, c')"
  shows "sorted_wrt (\<lambda>a b. event_compare lc a b \<le> 0) due \<and>
    (\<forall>k b. jget (inputBuckets c') k = Some b \<longrightarrow>
       jget (inputBuckets c) k = Some b \<and> atMs < bucketStartedAtMs b + ms)"
proof -
  have d0: "distinct (jkeys (inputBuckets (new_coalescer f)))" by (simp add: new_coalescer_def)
  have d: "distinct (jkeys (inputBuckets c))" using push_all_total [OF d0 assms(2), of Keys] by blast
  have fl: "flushMatured lc F ms atMs False c = (due, c')" using assms(3) by (simp add: flush_at_def)
  have "js_comparator (event_compare lc)"
    using js_order_event_compare [OF assms(1)] by (simp add: js_order_def)
  then have "sorted_wrt (\<lambda>a b. event_compare lc a b \<le> 0) due"
    using fl js_comparator.sorted_sort_cmp by (auto simp: flushMatured_def Let_def split: prod.splits)
  then show ?thesis using flushMatured_remaining [OF d fl] by blast
qed

subsection \<open>Repeat suppression against a reference\<close>
























subsection \<open>Identities are unique\<close>

text \<open>The contract of an identity factory: a new identity has a cursor it has not issued before.\<close>

locale identity_factory =
  fixes F :: "'f EventIdentityFactory" and issued :: "'f \<Rightarrow> string set"
  assumes create_fresh: "create_of F f kd sources t = (i, f') \<Longrightarrow>
    id_cursor i \<notin> issued f \<and> issued f' = insert (id_cursor i) (issued f)"
begin

text \<open>Events made by going from one state of the factory to another.\<close>

definition minted :: "'f \<Rightarrow> DesktopEvent list \<Rightarrow> 'f \<Rightarrow> bool" where
  "minted f es f' \<longleftrightarrow> distinct (map cursor es) \<and> set (map cursor es) \<inter> issued f = {} \<and>
     issued f' = issued f \<union> set (map cursor es)"

lemma minted_Nil [simp]: "minted f [] f"
  by (simp add: minted_def)

lemma minted_append: "minted f xs f' \<Longrightarrow> minted f' ys f'' \<Longrightarrow> minted f (xs @ ys) f''"
  by (auto simp: minted_def)

lemma minted_mset:
  assumes "mset xs = mset ys" and "minted f xs f'"
  shows "minted f ys f'"
proof -
  have m: "mset (map cursor xs) = mset (map cursor ys)" using assms(1) unfolding mset_map by (rule arg_cong)
  have "distinct (map cursor ys)" "set (map cursor ys) = set (map cursor xs)"
    using assms(2) mset_eq_imp_distinct_iff [OF m] mset_eq_setD [OF m] unfolding minted_def by blast+
  with assms(2) show ?thesis unfolding minted_def by argo
qed

lemma minted_makeEvent:
  assumes "makeEvent F pl device session src goal sources sens occurredAt observedAt f = (e, f')"
  shows "minted f [e] f'"
proof -
  obtain i where i: "create_of F f (kind_of pl) sources occurredAt = (i, f')" and e: "cursor e = id_cursor i"
    using assms by (auto simp: makeEvent_def split: prod.splits)
  from create_fresh [OF i] e show ?thesis by (simp add: minted_def)
qed

lemma minted_flush_loop:
  assumes "flush_loop F ms atMs force es c out = (out', c')" and "minted f out (identityFactory c)"
  shows "minted f out' (identityFactory c')"
  using assms
proof (induction es arbitrary: c out)
  case (Cons entry rest)
  obtain key bucket where entry: "entry = (key, bucket)" by fastforce
  obtain e f' where e: "inputBucketEvent F ms bucket (identityFactory c) = (e, f')" by fastforce
  from e have "minted (identityFactory c) [e] f'" unfolding inputBucketEvent_def by (rule minted_makeEvent)
  then have "minted f (out @ [e]) f'" using Cons.prems(2) minted_append by blast
  then show ?case using Cons.IH Cons.prems entry e by (auto split: if_splits)
qed simp

lemma minted_flushMatured:
  assumes "flushMatured lc F ms atMs force c = (out, c')"
  shows "minted (identityFactory c) out (identityFactory c')"
proof -
  obtain raw where raw: "flush_loop F ms atMs force (js_sort (\<lambda>a b. lc (fst a) (fst b)) (inputBuckets c)) c [] = (raw, c')"
    and out: "out = js_sort (event_compare lc) raw"
    using assms by (auto simp: flushMatured_def Let_def split: prod.splits)
  show ?thesis unfolding out
    by (rule minted_mset [OF _ minted_flush_loop [OF raw]]) simp_all
qed

lemma minted_push:
  assumes "push lc F ms (Observed ob) c = (out, c')"
  shows "minted (identityFactory c) out (identityFactory c')"
proof -
  obtain matured c1 where m: "flushMatured lc F ms (obs_occurredAtMs ob) False c = (matured, c1)" by fastforce
  note mm = minted_flushMatured [OF m]
  show ?thesis
  proof (cases "obs_payload ob")
    case (InputActivitySample keys clicks scroll mouse)
    then show ?thesis using assms m mm by (auto simp: push_def accumulateInput_def Let_def)
  next
    case (ProcessScan started exited)
    then show ?thesis
      using assms m mm minted_makeEvent minted_append
      by (auto simp: push_def processScanEvent_def split: prod.splits if_splits)
  qed
qed

lemma minted_push_all:
  assumes "push_all lc F ms (map Observed obs) c = (outs, c')"
  shows "minted (identityFactory c) outs (identityFactory c')"
  using assms
proof (induction obs arbitrary: c outs)
  case (Cons ob obs)
  then obtain out c1 outs1 where "push lc F ms (Observed ob) c = (out, c1)"
    "push_all lc F ms (map Observed obs) c1 = (outs1, c')" "outs = out @ outs1"
    by (auto split: prod.splits)
  then show ?case using Cons.IH minted_push minted_append by blast
qed simp

end

definition monotonic_issued :: "MonotonicEventIdentityFactory \<Rightarrow> string set" where
  "monotonic_issued f =
     (\<lambda>n. factory_prefix f @ '':'' @ pad_start 12 (CHR ''0'') (show_nat n)) ` {1..sequence_no f}"

interpretation monotonic: identity_factory monotonic_factory monotonic_issued
proof
  fix f kd sources t i f'
  assume "create_of monotonic_factory f kd sources t = (i, f')"
  then have "id_cursor i = factory_prefix f @ '':'' @ pad_start 12 (CHR ''0'') (show_nat (Suc (sequence_no f)))"
    and "f' = f\<lparr>sequence_no := Suc (sequence_no f)\<rparr>"
    by (auto simp: monotonic_factory_def monotonic_create_def Let_def)
  then show "id_cursor i \<notin> monotonic_issued f \<and>
      monotonic_issued f' = insert (id_cursor i) (monotonic_issued f)"
    by (auto simp: monotonic_issued_def pad_start_show_nat_inject atLeastAtMostSuc_conv)
qed

text \<open>The events the coalescer makes have distinct cursors: whatever observations are pushed and
  however the flushes reorder them, the monotonic identity factory never gives two of the emitted
  events the same cursor.\<close>

lemma coalesced_cursors_distinct:
  assumes "push_all lc monotonic_factory ms (map Observed obs) (new_coalescer f) = (outs, c)"
    and "flushAll lc monotonic_factory ms atMs c = (rest, c')"
  shows "distinct (map cursor (outs @ rest))"
proof -
  have "monotonic.minted (identityFactory (new_coalescer f)) (outs @ rest) (identityFactory c')"
    using monotonic.minted_append [OF monotonic.minted_push_all [OF assms(1)]
      monotonic.minted_flushMatured [OF assms(2) [unfolded flushAll_def]]] .
  then show ?thesis unfolding monotonic.minted_def by blast
qed

end
