(* ===== verification/Scheduler.thy ===== *)
theory Scheduler
  imports Prelude
begin

text \<open>
  The deterministic seven-day scheduler and the time rules of the planning agent,
  \<open>src/agent/planning/scheduler.ts\<close> and \<open>time.ts\<close>.

  An ISO instant is represented by the instant it denotes, in nanoseconds since the epoch (the
  resolution of \<open>Temporal.Instant\<close>), an ISO date by its day number, and an amount of minutes by
  the nanoseconds it lasts, so that comparisons, sums and durations are exact. What the Temporal
  library computes from a time zone is the parameter record \<open>zone\<close>: the weekday of a date, the date
  of an instant, and the instant of a local date and time, \<open>None\<close> where it is rejected (a gap or
  a fold of the zone).
\<close>

subsection \<open>Time\<close>

record zone =
  day_of_week :: "int \<Rightarrow> int"
  local_instant :: "int \<Rightarrow> string \<Rightarrow> int option"
  local_date :: "int \<Rightarrow> int"

definition minutes :: "int \<Rightarrow> int" where
  "minutes n = n * 60000000000"

definition milliseconds :: "int \<Rightarrow> int" where
  "milliseconds n = n * 1000000"

definition addInstantMinutes :: "int \<Rightarrow> int \<Rightarrow> int" where
  "addInstantMinutes instant duration = instant + duration"

definition durationMinutes :: "int \<Rightarrow> int \<Rightarrow> int" where
  "durationMinutes start end = end - start"

definition compareInstants :: "int \<Rightarrow> int \<Rightarrow> int" where
  "compareInstants left right = sgn (left - right)"

definition intervalsOverlap :: "int \<Rightarrow> int \<Rightarrow> int \<Rightarrow> int \<Rightarrow> bool" where
  "intervalsOverlap leftStart leftEnd rightStart rightEnd \<longleftrightarrow>
     compareInstants leftStart rightEnd < 0 \<and> compareInstants rightStart leftEnd < 0"

definition rollingSevenDayWindow :: "int \<Rightarrow> int \<times> int" where
  "rollingSevenDayWindow startDate = (startDate, startDate + 7)"

definition effectivePlanStartDate :: "zone \<Rightarrow> int \<Rightarrow> bool \<Rightarrow> int" where
  "effectivePlanStartDate z nowMs startToday =
     (let today = local_date z (milliseconds nowMs) in if startToday then today else today + 1)"

subsection \<open>Data\<close>

datatype PlanTaskStatus = pending | completed | skipped

datatype PlanTaskPurpose = execution | validation | review

record RevisionTask =
  taskId :: string
  purpose :: PlanTaskPurpose
  task_title :: string
  estimatedMinutes :: int
  dependencyTaskIds :: "string list"

record SchedulingWindowPreference =
  dayOfWeek :: int
  startTime :: string
  endTime :: string

record SchedulingPreferences =
  weeklyCapacityMinutes :: int
  sessionMinutes :: int
  availableWindows :: "SchedulingWindowPreference list"

datatype PlanningCalendarEventKind = plan_event | manual_block | external_event | break_event

datatype schedule_origin = by_model | by_user

record PlanningCalendarEvent =
  ev_id :: string
  ev_kind :: PlanningCalendarEventKind
  ev_start :: int
  ev_end :: int
  ev_planId :: "string option"
  sourceTaskId :: "string option"
  scheduleOrigin :: schedule_origin
  userLocked :: bool

record PlanScheduleItem =
  item_id :: string
  item_planId :: string
  item_taskId :: string
  item_title :: string
  item_start :: int
  item_end :: int

record DeterministicScheduleRequest =
  rq_planId :: string
  rq_startDate :: int
  rq_endDateExclusive :: int
  rq_mutableStartDate :: int
  rq_tasks :: "RevisionTask list"
  rq_taskStates :: "(string \<times> PlanTaskStatus) list"
  rq_preferences :: SchedulingPreferences
  rq_busyEvents :: "PlanningCalendarEvent list"
  rq_nowMs :: int
  rq_createId :: "nat \<Rightarrow> string"

datatype schedule_error = NotSevenDates | DependencyCycle | UnknownDependency

subsection \<open>Automatic changes of calendar events\<close>

datatype mutation_denial = not_plan_event | different_plan | not_model_generated | user_locked_event
  | today_frozen | already_started | completed_task

definition canAutomaticallyMutateCalendarEvent ::
  "zone \<Rightarrow> PlanningCalendarEvent \<Rightarrow> string \<Rightarrow> int \<Rightarrow> string list \<Rightarrow> mutation_denial option" where
  "canAutomaticallyMutateCalendarEvent z event planId nowMs completedTaskIds =
     (if ev_kind event \<noteq> plan_event then Some not_plan_event
      else if ev_planId event \<noteq> Some planId then Some different_plan
      else if scheduleOrigin event \<noteq> by_model then Some not_model_generated
      else if userLocked event then Some user_locked_event
      else if local_date z (ev_start event) \<le> local_date z (milliseconds nowMs) then Some today_frozen
      else if compareInstants (ev_start event) (milliseconds nowMs) \<le> 0 then Some already_started
      else if (case sourceTaskId event of None \<Rightarrow> False | Some t \<Rightarrow> t \<in> set completedTaskIds)
      then Some completed_task
      else None)"

subsection \<open>Topological order of the tasks\<close>

text \<open>
  \<open>visit\<close> over a list of tasks, \<open>None\<close> for an id the map does not know. \<open>visiting\<close> is the path of
  ancestors: each call removes its task again before it returns, and an error ends everything.
\<close>

definition task_universe :: "(string, RevisionTask) jmap \<Rightarrow> string set" where
  "task_universe byId = taskId ` set (jvalues byId)"

definition pending_visits :: "(string, RevisionTask) jmap \<Rightarrow> string list \<Rightarrow> RevisionTask option list \<Rightarrow> nat" where
  "pending_visits byId visiting ts =
     (if \<forall>t. Some t \<in> set ts \<longrightarrow> taskId t \<in> task_universe byId
      then card (task_universe byId - set visiting) else Suc (card (task_universe byId)))"

function visit_list ::
  "(string, RevisionTask) jmap \<Rightarrow> string list \<Rightarrow> RevisionTask option list \<Rightarrow> RevisionTask list
   \<Rightarrow> schedule_error + RevisionTask list" where
  "visit_list byId visiting [] result = Inr result"
| "visit_list byId visiting (None # ts) result = Inl UnknownDependency"
| "visit_list byId visiting (Some t # ts) result =
     (if taskId t \<in> set (map taskId result) then visit_list byId visiting ts result
      else if taskId t \<in> set visiting then Inl DependencyCycle
      else case visit_list byId (taskId t # visiting) (map (jget byId) (dependencyTaskIds t)) result of
        Inl e \<Rightarrow> Inl e
      | Inr result1 \<Rightarrow> visit_list byId visiting ts (result1 @ [t]))"
  by pat_completeness auto

lemma finite_task_universe: "finite (task_universe byId)"
  by (simp add: task_universe_def)

lemma pending_visits_deps:
  assumes "taskId t \<notin> set visiting"
  shows "pending_visits byId (taskId t # visiting) (map (jget byId) ids) < pending_visits byId visiting (Some t # ts)"
proof -
  let ?U = "task_universe byId"
  have deps: "\<forall>u. Some u \<in> set (map (jget byId) ids) \<longrightarrow> taskId u \<in> ?U"
    by (force simp: task_universe_def dest!: map_of_SomeD [OF sym])
  have le: "card (?U - insert (taskId t) (set visiting)) \<le> card ?U"
    by (intro card_mono finite_task_universe) auto
  have "card (?U - insert (taskId t) (set visiting)) < card (?U - set visiting)" if "taskId t \<in> ?U"
    using that assms finite_task_universe by (intro psubset_card_mono) auto
  then show ?thesis using deps le by (auto simp: pending_visits_def)
qed

lemma pending_visits_tail: "pending_visits byId visiting ts \<le> pending_visits byId visiting (t # ts)"
  using card_mono [OF finite_task_universe [of byId], of "task_universe byId - set visiting"]
  by (auto simp: pending_visits_def)

termination visit_list
  by (relation "measures [\<lambda>(byId, visiting, ts, result). pending_visits byId visiting ts,
      \<lambda>(byId, visiting, ts, result). length ts]")
    (use pending_visits_deps pending_visits_tail in \<open>auto simp: less_eq_Suc_le [symmetric] le_less\<close>)

fun purpose_order :: "PlanTaskPurpose \<Rightarrow> int" where
  "purpose_order validation = 0"
| "purpose_order review = 1"
| "purpose_order execution = 2"

definition topologicalTasks :: "RevisionTask list \<Rightarrow> schedule_error + RevisionTask list" where
  "topologicalTasks tasks =
     (let byId = fold (\<lambda>t m. jset (taskId t) t m) tasks []
      in visit_list byId [] (map Some (js_sort (cmp_by (\<lambda>t. purpose_order (purpose t))) tasks)) [])"

subsection \<open>Free slots\<close>

type_synonym interval = "int \<times> int"

text \<open>\<open>earliest && compareInstants(cursor, earliest) < 0\<close>\<close>

definition not_before :: "int option \<Rightarrow> int \<Rightarrow> int" where
  "not_before earliest cur =
     (case earliest of None \<Rightarrow> cur | Some t \<Rightarrow> if compareInstants cur t < 0 then t else cur)"

text \<open>The loop over the occupied intervals: \<open>Inl\<close> a slot that is returned, or \<open>Inr\<close> the position after
  all of them.\<close>

fun scan_busy :: "int \<Rightarrow> int option \<Rightarrow> interval list \<Rightarrow> int \<Rightarrow> interval + int" where
  "scan_busy duration earliest [] cur = Inr cur"
| "scan_busy duration earliest ((busyStart, busyEnd) # rest) cur =
     (if compareInstants (addInstantMinutes cur duration) busyStart \<le> 0
      then Inl (cur, addInstantMinutes cur duration)
      else scan_busy duration earliest rest
        (not_before earliest (if compareInstants cur busyEnd < 0 then busyEnd else cur)))"

definition ceil_div :: "int \<Rightarrow> int \<Rightarrow> int" where
  "ceil_div a b = - ((- a) div b)"

definition window_cursor :: "int \<Rightarrow> int option \<Rightarrow> int \<Rightarrow> int" where
  "window_cursor nowMs earliest windowStart =
     not_before earliest
       (if compareInstants windowStart (milliseconds nowMs) < 0
        then milliseconds (ceil_div nowMs (15 * 60000) * 15 * 60000) else windowStart)"

definition slot_in_window :: "int \<Rightarrow> int \<Rightarrow> int option \<Rightarrow> interval list \<Rightarrow> int \<Rightarrow> int \<Rightarrow> interval option" where
  "slot_in_window nowMs duration earliest busy windowStart windowEnd =
     (let cur = window_cursor nowMs earliest windowStart;
          relevantBusy = js_sort (\<lambda>l r. compareInstants (fst l) (fst r))
            (filter (\<lambda>item. intervalsOverlap cur windowEnd (fst item) (snd item)) busy)
      in case scan_busy duration earliest relevantBusy cur of
           Inl slot \<Rightarrow> Some slot
         | Inr position \<Rightarrow>
             if compareInstants (addInstantMinutes position duration) windowEnd \<le> 0
             then Some (position, addInstantMinutes position duration) else None)"

fun slot_in_windows ::
  "zone \<Rightarrow> int \<Rightarrow> int \<Rightarrow> int option \<Rightarrow> interval list \<Rightarrow> int \<Rightarrow> SchedulingWindowPreference list \<Rightarrow> interval option" where
  "slot_in_windows z nowMs duration earliest busy date [] = None"
| "slot_in_windows z nowMs duration earliest busy date (preference # rest) =
     (case (local_instant z date (startTime preference), local_instant z date (endTime preference)) of
        (Some windowStart, Some windowEnd) \<Rightarrow>
          (case slot_in_window nowMs duration earliest busy windowStart windowEnd of
             Some slot \<Rightarrow> Some slot
           | None \<Rightarrow> slot_in_windows z nowMs duration earliest busy date rest)
      | _ \<Rightarrow> slot_in_windows z nowMs duration earliest busy date rest)"

definition day_preferences ::
  "(string \<Rightarrow> string \<Rightarrow> int) \<Rightarrow> zone \<Rightarrow> SchedulingPreferences \<Rightarrow> int \<Rightarrow> SchedulingWindowPreference list" where
  "day_preferences lc z prefs date =
     js_sort (\<lambda>l r. lc (startTime l) (startTime r))
       (filter (\<lambda>w. dayOfWeek w = day_of_week z date) (availableWindows prefs))"

function findFirstSlot ::
  "(string \<Rightarrow> string \<Rightarrow> int) \<Rightarrow> zone \<Rightarrow> DeterministicScheduleRequest \<Rightarrow> int \<Rightarrow> int option \<Rightarrow> interval list
   \<Rightarrow> int \<Rightarrow> interval option" where
  "findFirstSlot lc z rq duration earliest busy date =
     (if rq_endDateExclusive rq \<le> date then None
      else case slot_in_windows z (rq_nowMs rq) duration earliest busy date
             (day_preferences lc z (rq_preferences rq) date) of
        Some slot \<Rightarrow> Some slot
      | None \<Rightarrow> findFirstSlot lc z rq duration earliest busy (date + 1))"
  by pat_completeness auto

termination findFirstSlot
  by (relation "measure (\<lambda>(lc, z, rq, duration, earliest, busy, date). nat (rq_endDateExclusive rq - date))") auto

declare findFirstSlot.simps [simp del]

subsection \<open>Scheduling the tasks\<close>

record schedule_state =
  ss_schedule :: "PlanScheduleItem list"
  ss_busy :: "interval list"
  ss_remainingCapacity :: int
  ss_unscheduled :: "string list"
  ss_finalEndByTask :: "(string, int) jmap"
  ss_createdIds :: nat

definition slot_item ::
  "DeterministicScheduleRequest \<Rightarrow> RevisionTask \<Rightarrow> nat \<Rightarrow> interval \<Rightarrow> PlanScheduleItem" where
  "slot_item rq task n slot =
     \<lparr>item_id = rq_createId rq n, item_planId = rq_planId rq, item_taskId = taskId task,
      item_title = task_title task, item_start = fst slot, item_end = snd slot\<rparr>"

definition put_slot ::
  "DeterministicScheduleRequest \<Rightarrow> RevisionTask \<Rightarrow> int \<Rightarrow> interval \<Rightarrow> schedule_state \<Rightarrow> schedule_state" where
  "put_slot rq task chunk slot st =
     st\<lparr>ss_schedule := ss_schedule st @ [slot_item rq task (ss_createdIds st) slot],
        ss_busy := ss_busy st @ [slot], ss_remainingCapacity := ss_remainingCapacity st - chunk,
        ss_createdIds := Suc (ss_createdIds st)\<rparr>"

definition next_chunk :: "DeterministicScheduleRequest \<Rightarrow> int \<Rightarrow> int \<Rightarrow> int" where
  "next_chunk rq remaining capacity = min (min (minutes (sessionMinutes (rq_preferences rq))) remaining) capacity"

text \<open>The \<open>while\<close> loop of one task: what remains of it, the end of its last slot, and the state.\<close>

function schedule_chunks ::
  "(string \<Rightarrow> string \<Rightarrow> int) \<Rightarrow> zone \<Rightarrow> DeterministicScheduleRequest \<Rightarrow> int \<Rightarrow> RevisionTask \<Rightarrow> int \<Rightarrow> int option
   \<Rightarrow> schedule_state \<Rightarrow> int \<times> int option \<times> schedule_state" where
  "schedule_chunks lc z rq startDate task remaining earliest st =
     (let chunk = next_chunk rq remaining (ss_remainingCapacity st)
      in if \<not> (0 < remaining \<and> 0 < ss_remainingCapacity st) then (remaining, earliest, st)
         else if chunk < minutes 15 \<or> chunk mod minutes 15 \<noteq> 0 then (remaining, earliest, st)
         else case findFirstSlot lc z rq chunk earliest (ss_busy st) startDate of
           None \<Rightarrow> (remaining, earliest, st)
         | Some slot \<Rightarrow>
             schedule_chunks lc z rq startDate task (remaining - chunk) (Some (snd slot))
               (put_slot rq task chunk slot st))"
  by pat_completeness auto

termination schedule_chunks
  by (relation "measure (\<lambda>(lc, z, rq, startDate, task, remaining, earliest, st). nat remaining)")
    (auto simp: minutes_def)

declare schedule_chunks.simps [simp del]

text \<open>The ends of the dependencies that are not completed, \<open>None\<close> when one has no known end.\<close>

fun dependency_ends :: "string list \<Rightarrow> (string, int) jmap \<Rightarrow> string list \<Rightarrow> int list option" where
  "dependency_ends completedIds finalEnd [] = Some []"
| "dependency_ends completedIds finalEnd (d # ds) =
     (if d \<in> set completedIds then dependency_ends completedIds finalEnd ds
      else case jget finalEnd d of
        None \<Rightarrow> None
      | Some e \<Rightarrow> map_option (\<lambda>es. e # es) (dependency_ends completedIds finalEnd ds))"

definition last_of_sorted :: "int list \<Rightarrow> int option" where
  "last_of_sorted xs = (case js_sort compareInstants xs of [] \<Rightarrow> None | y # ys \<Rightarrow> Some (last (y # ys)))"

record allocation =
  alloc_minutes :: int
  lastEnd :: int

definition plan_allocations ::
  "DeterministicScheduleRequest \<Rightarrow> string list \<Rightarrow> (string, allocation) jmap" where
  "plan_allocations rq pendingIds =
     fold (\<lambda>event m.
       case sourceTaskId event of
         None \<Rightarrow> m
       | Some tid \<Rightarrow>
           if ev_planId event \<noteq> Some (rq_planId rq) \<or> tid \<notin> set pendingIds then m
           else
             let current = jget m tid
             in jset tid
                  \<lparr>alloc_minutes = (case current of None \<Rightarrow> 0 | Some a \<Rightarrow> alloc_minutes a) +
                     max 0 (durationMinutes (ev_start event) (ev_end event)),
                   lastEnd = (case current of
                     Some a \<Rightarrow> if 0 \<le> compareInstants (lastEnd a) (ev_end event) then lastEnd a else ev_end event
                   | None \<Rightarrow> ev_end event)\<rparr> m)
       (rq_busyEvents rq) []"

definition already_allocated :: "DeterministicScheduleRequest \<Rightarrow> string list \<Rightarrow> int" where
  "already_allocated rq pendingIds =
     sum_list (map (\<lambda>event. max 0 (durationMinutes (ev_start event) (ev_end event)))
       (filter (\<lambda>event. ev_planId event = Some (rq_planId rq) \<and>
          (case sourceTaskId event of None \<Rightarrow> False | Some tid \<Rightarrow> tid \<in> set pendingIds)) (rq_busyEvents rq)))"

definition schedule_task ::
  "(string \<Rightarrow> string \<Rightarrow> int) \<Rightarrow> zone \<Rightarrow> DeterministicScheduleRequest \<Rightarrow> int \<Rightarrow> string list
   \<Rightarrow> (string, allocation) jmap \<Rightarrow> RevisionTask \<Rightarrow> schedule_state \<Rightarrow> schedule_state" where
  "schedule_task lc z rq startDate completedIds allocated task st =
     (case dependency_ends completedIds (ss_finalEndByTask st) (dependencyTaskIds task) of
        None \<Rightarrow> st\<lparr>ss_unscheduled := set_add (taskId task) (ss_unscheduled st)\<rparr>
      | Some ends \<Rightarrow>
          let existing = jget allocated (taskId task);
              remaining = max 0 (minutes (estimatedMinutes task) -
                (case existing of None \<Rightarrow> 0 | Some a \<Rightarrow> alloc_minutes a));
              earliest0 = last_of_sorted ends;
              earliest = (case existing of
                  None \<Rightarrow> earliest0
                | Some a \<Rightarrow> (case earliest0 of
                    None \<Rightarrow> Some (lastEnd a)
                  | Some t \<Rightarrow> if compareInstants t (lastEnd a) < 0 then Some (lastEnd a) else Some t))
          in case schedule_chunks lc z rq startDate task remaining earliest st of
               (left, lastSlotEnd, st1) \<Rightarrow>
                 if 0 < left then st1\<lparr>ss_unscheduled := set_add (taskId task) (ss_unscheduled st1)\<rparr>
                 else case lastSlotEnd of
                   Some t \<Rightarrow> st1\<lparr>ss_finalEndByTask := jset (taskId task) t (ss_finalEndByTask st1)\<rparr>
                 | None \<Rightarrow> (case existing of
                     Some a \<Rightarrow> st1\<lparr>ss_finalEndByTask := jset (taskId task) (lastEnd a) (ss_finalEndByTask st1)\<rparr>
                   | None \<Rightarrow> st1))"

definition statusByTask :: "DeterministicScheduleRequest \<Rightarrow> (string, PlanTaskStatus) jmap" where
  "statusByTask rq = fold (\<lambda>(i, s) m. jset i s m) (rq_taskStates rq) []"

definition completedTaskIds :: "DeterministicScheduleRequest \<Rightarrow> string list" where
  "completedTaskIds rq = map fst (filter (\<lambda>(i, s). s = completed) (rq_taskStates rq))"

definition firstMutableDate :: "DeterministicScheduleRequest \<Rightarrow> int" where
  "firstMutableDate rq =
     (if rq_mutableStartDate rq < rq_startDate rq then rq_startDate rq else rq_mutableStartDate rq)"

definition buildDeterministicSevenDaySchedule ::
  "(string \<Rightarrow> string \<Rightarrow> int) \<Rightarrow> zone \<Rightarrow> DeterministicScheduleRequest
   \<Rightarrow> schedule_error + PlanScheduleItem list \<times> string list" where
  "buildDeterministicSevenDaySchedule lc z rq =
     (if rq_endDateExclusive rq \<le> rq_startDate rq \<or> rq_endDateExclusive rq - rq_startDate rq \<noteq> 7
      then Inl NotSevenDates
      else
        case topologicalTasks (rq_tasks rq) of
             Inl e \<Rightarrow> Inl e
           | Inr tasks \<Rightarrow>
               let pendingTasks = filter (\<lambda>t. jget (statusByTask rq) (taskId t) = Some pending) tasks;
                   pendingIds = map taskId pendingTasks;
                   st0 = \<lparr>ss_schedule = [], ss_busy = map (\<lambda>e. (ev_start e, ev_end e)) (rq_busyEvents rq),
                     ss_remainingCapacity = max 0 (minutes (weeklyCapacityMinutes (rq_preferences rq)) -
                       already_allocated rq pendingIds),
                     ss_unscheduled = [], ss_finalEndByTask = [], ss_createdIds = 0\<rparr>;
                   st = fold (schedule_task lc z rq (firstMutableDate rq) (completedTaskIds rq)
                     (plan_allocations rq pendingIds)) pendingTasks st0
               in Inr (js_sort (\<lambda>l r. compareInstants (item_start l) (item_start r)) (ss_schedule st),
                       ss_unscheduled st))"

end
