(* ===== verification/SchedulerCorrect.thy ===== *)
theory SchedulerCorrect
  imports Scheduler
begin

text \<open>
  The correctness of the scheduler: every slot lies in an available window, after the present, clear
  of the calendar and of the other slots; the weekly capacity and the estimates bound the total;
  dependencies end before the tasks that need them start; a task is scheduled in full or reported.
\<close>

subsection \<open>Instants\<close>

lemma compareInstants_simps [simp]:
  "compareInstants a b < 0 \<longleftrightarrow> a < b" "compareInstants a b \<le> 0 \<longleftrightarrow> a \<le> b" "0 \<le> compareInstants a b \<longleftrightarrow> b \<le> a"
  "0 < compareInstants a b \<longleftrightarrow> b < a" "compareInstants a b = 0 \<longleftrightarrow> a = b"
  by (auto simp: compareInstants_def sgn_if)

lemma overlap_iff [simp]: "intervalsOverlap a b s e \<longleftrightarrow> a < e \<and> s < b"
  by (simp add: intervalsOverlap_def)

lemma addInstantMinutes_simp [simp]: "addInstantMinutes t d = t + d"
  by (simp add: addInstantMinutes_def)

lemma not_before_ge: "cur \<le> not_before earliest cur" "earliest = Some t \<Longrightarrow> t \<le> not_before earliest cur"
  by (auto simp: not_before_def split: option.splits)

interpretation instants: js_order compareInstants
  by unfold_locales (auto simp: not_less)

definition interval_of :: "PlanScheduleItem \<Rightarrow> interval" where
  "interval_of i = (item_start i, item_end i)"

definition clear_of :: "interval list \<Rightarrow> interval \<Rightarrow> bool" where
  "clear_of busy slot \<longleftrightarrow> list_all (\<lambda>b. \<not> intervalsOverlap (fst slot) (snd slot) (fst b) (snd b)) busy"

lemma clear_of_append [simp]: "clear_of (xs @ ys) slot \<longleftrightarrow> clear_of xs slot \<and> clear_of ys slot"
  by (simp add: clear_of_def)

subsection \<open>One slot\<close>

lemma scan_busy_Inl:
  assumes "scan_busy d earliest bs cur = Inl (a, b)" and "sorted_wrt (\<lambda>x y. fst x \<le> fst y) bs"
  shows "cur \<le> a \<and> b = a + d \<and> clear_of bs (a, b) \<and> (\<exists>x \<in> set bs. b \<le> fst x)"
  using assms
proof (induction bs arbitrary: cur)
  case (Cons x bs)
  obtain s e where x: "x = (s, e)" by fastforce
  show ?case
  proof (cases "cur + d \<le> s")
    case True
    then have "\<forall>y \<in> set bs. cur + d \<le> fst y" using Cons.prems(2) x by force
    with True Cons.prems(1) x show ?thesis by (auto simp: clear_of_def list_all_iff)
  next
    case False
    let ?cur = "not_before earliest (if cur < e then e else cur)"
    have "cur \<le> ?cur" "e \<le> ?cur" using not_before_ge(1) [of "if cur < e then e else cur" earliest] by auto
    moreover have "?cur \<le> a \<and> b = a + d \<and> clear_of bs (a, b) \<and> (\<exists>x \<in> set bs. b \<le> fst x)"
      using Cons.IH [of ?cur] Cons.prems False x by auto
    ultimately show ?thesis using x by (auto simp: clear_of_def)
  qed
qed simp

lemma scan_busy_Inr:
  assumes "scan_busy d earliest bs cur = Inr p"
  shows "cur \<le> p \<and> list_all (\<lambda>x. snd x \<le> p) bs"
  using assms
proof (induction bs arbitrary: cur)
  case (Cons x bs)
  obtain s e where x: "x = (s, e)" by fastforce
  let ?cur = "not_before earliest (if cur < e then e else cur)"
  have "cur \<le> ?cur" "e \<le> ?cur" using not_before_ge(1) [of "if cur < e then e else cur" earliest] by auto
  moreover have "?cur \<le> p \<and> list_all (\<lambda>x. snd x \<le> p) bs" using Cons.IH [of ?cur] Cons.prems x by (simp split: if_splits)
  ultimately show ?case using x by simp
qed simp

lemma ceil_div_ge: "0 < b \<Longrightarrow> a \<le> ceil_div a b * b"
proof -
  assume "0 < b"
  then have "(- a) div b * b \<le> - a" by (metis minus_mod_eq_div_mult pos_mod_sign diff_le_eq le_add_same_cancel1)
  then show ?thesis by (simp add: ceil_div_def)
qed

lemma window_cursor_ge:
  "windowStart \<le> window_cursor nowMs earliest windowStart"
  "milliseconds nowMs \<le> window_cursor nowMs earliest windowStart"
  "earliest = Some t \<Longrightarrow> t \<le> window_cursor nowMs earliest windowStart"
proof -
  let ?c = "if windowStart < milliseconds nowMs then milliseconds (ceil_div nowMs 900000 * 900000) else windowStart"
  have "milliseconds nowMs \<le> milliseconds (ceil_div nowMs 900000 * 900000)"
    using ceil_div_ge [of 900000 nowMs] by (simp add: milliseconds_def)
  then have c: "windowStart \<le> ?c" "milliseconds nowMs \<le> ?c" by auto
  have eq: "window_cursor nowMs earliest windowStart = not_before earliest ?c"
    by (simp add: window_cursor_def mult.assoc)
  show "windowStart \<le> window_cursor nowMs earliest windowStart"
    "milliseconds nowMs \<le> window_cursor nowMs earliest windowStart"
    unfolding eq using c not_before_ge(1) [of ?c earliest] by linarith+
  show "earliest = Some t \<Longrightarrow> t \<le> window_cursor nowMs earliest windowStart"
    unfolding eq by (rule not_before_ge(2))
qed

definition slot_ok :: "int \<Rightarrow> int \<Rightarrow> int option \<Rightarrow> interval list \<Rightarrow> interval \<Rightarrow> bool" where
  "slot_ok nowMs duration earliest busy slot \<longleftrightarrow>
     snd slot = fst slot + duration \<and> milliseconds nowMs \<le> fst slot \<and>
     (case earliest of None \<Rightarrow> True | Some t \<Rightarrow> t \<le> fst slot) \<and> clear_of busy slot"

lemma slot_in_window_ok:
  assumes "slot_in_window nowMs d earliest busy ws we = Some slot"
  shows "slot_ok nowMs d earliest busy slot \<and> ws \<le> fst slot \<and> snd slot \<le> we"
proof -
  define cur where "cur = window_cursor nowMs earliest ws"
  define rel where "rel = js_sort (\<lambda>l r. compareInstants (fst l) (fst r))
    (filter (\<lambda>item. intervalsOverlap cur we (fst item) (snd item)) busy)"
  have set_rel: "set rel = {x \<in> set busy. cur < snd x \<and> fst x < we}" by (auto simp: rel_def)
  have cmp: "js_comparator (\<lambda>l r. compareInstants (fst l) (fst (r :: interval)))"
    by unfold_locales auto
  have srt: "sorted_wrt (\<lambda>x y. fst x \<le> fst y) rel"
    using js_comparator.sorted_sort_cmp [OF cmp] by (simp add: rel_def)
  obtain a b where slot: "slot = (a, b)" by fastforce
  have "cur \<le> a \<and> b = a + d \<and> b \<le> we \<and> clear_of rel (a, b)"
  proof (cases "scan_busy d earliest rel cur")
    case (Inl x)
    then have "x = (a, b)" using assms slot by (simp add: slot_in_window_def Let_def cur_def rel_def)
    with scan_busy_Inl [OF _ srt] Inl set_rel show ?thesis by fastforce
  next
    case (Inr p)
    then have "a = p" "b = p + d" "b \<le> we"
      using assms slot by (simp_all add: slot_in_window_def Let_def cur_def rel_def split: if_splits)
    with scan_busy_Inr [OF Inr] show ?thesis by (auto simp: clear_of_def list_all_iff)
  qed
  moreover from this have "clear_of busy (a, b)" using set_rel by (force simp: clear_of_def list_all_iff)
  ultimately show ?thesis
    using slot window_cursor_ge [where windowStart = ws and nowMs = nowMs and earliest = earliest]
    by (force simp: slot_ok_def cur_def split: option.splits)
qed

text \<open>A slot lies in one of the available windows of its date.\<close>

definition in_available_window :: "zone \<Rightarrow> DeterministicScheduleRequest \<Rightarrow> int \<Rightarrow> interval \<Rightarrow> bool" where
  "in_available_window z rq startDate slot \<longleftrightarrow>
     (\<exists>date w ws we. startDate \<le> date \<and> date < rq_endDateExclusive rq \<and>
        w \<in> set (availableWindows (rq_preferences rq)) \<and> dayOfWeek w = day_of_week z date \<and>
        local_instant z date (startTime w) = Some ws \<and> local_instant z date (endTime w) = Some we \<and>
        ws \<le> fst slot \<and> snd slot \<le> we)"

lemma slot_in_windows_ok:
  assumes "slot_in_windows z nowMs d earliest busy date ws = Some slot"
  shows "slot_ok nowMs d earliest busy slot \<and> (\<exists>w \<in> set ws. \<exists>a b.
    local_instant z date (startTime w) = Some a \<and> local_instant z date (endTime w) = Some b \<and>
    a \<le> fst slot \<and> snd slot \<le> b)"
  using assms
proof (induction ws)
  case (Cons w ws)
  then show ?case
    using slot_in_window_ok [of nowMs d earliest busy _ _ slot]
    by (fastforce split: option.splits)
qed simp

lemma findFirstSlot_ok:
  assumes "findFirstSlot lc z rq d earliest busy date = Some slot"
  shows "slot_ok (rq_nowMs rq) d earliest busy slot \<and> in_available_window z rq date slot"
  using assms
proof (induction lc z rq d earliest busy date rule: findFirstSlot.induct)
  case (1 lc z rq d earliest busy date)
  show ?case
  proof (cases "slot_in_windows z (rq_nowMs rq) d earliest busy date (day_preferences lc z (rq_preferences rq) date)")
    case None
    then have "\<not> rq_endDateExclusive rq \<le> date" and "findFirstSlot lc z rq d earliest busy (date + 1) = Some slot"
      using "1.prems" by (simp_all add: findFirstSlot.simps [of lc z rq d earliest busy date] split: if_splits)
    with "1.IH" None have "slot_ok (rq_nowMs rq) d earliest busy slot \<and> in_available_window z rq (date + 1) slot"
      by blast
    then show ?thesis unfolding in_available_window_def by (meson add_increasing2 order.trans zless_add1_eq zle_add1_eq_le less_imp_le)
  next
    case (Some s)
    then have s: "s = slot" and date: "date < rq_endDateExclusive rq"
      using "1.prems" by (simp_all add: findFirstSlot.simps [of lc z rq d earliest busy date] split: if_splits)
    from slot_in_windows_ok [OF Some] s date show ?thesis
      by (auto simp: in_available_window_def day_preferences_def)
  qed
qed

subsection \<open>One task\<close>

definition disjoint_items :: "PlanScheduleItem list \<Rightarrow> bool" where
  "disjoint_items items \<longleftrightarrow>
     sorted_wrt (\<lambda>i j. \<not> intervalsOverlap (item_start i) (item_end i) (item_start j) (item_end j)) items"

definition item_ok :: "zone \<Rightarrow> DeterministicScheduleRequest \<Rightarrow> int \<Rightarrow> interval list \<Rightarrow> PlanScheduleItem \<Rightarrow> bool" where
  "item_ok z rq startDate base i \<longleftrightarrow>
     item_start i + minutes 15 \<le> item_end i \<and>
     item_end i - item_start i \<le> minutes (sessionMinutes (rq_preferences rq)) \<and>
     milliseconds (rq_nowMs rq) \<le> item_start i \<and> in_available_window z rq startDate (interval_of i) \<and>
     clear_of base (interval_of i)"

definition item_total :: "PlanScheduleItem list \<Rightarrow> int" where
  "item_total items = sum_list (map (\<lambda>i. item_end i - item_start i) items)"

definition schedule_inv ::
  "zone \<Rightarrow> DeterministicScheduleRequest \<Rightarrow> int \<Rightarrow> interval list \<Rightarrow> int \<Rightarrow> schedule_state \<Rightarrow> bool" where
  "schedule_inv z rq startDate base capacity st \<longleftrightarrow>
     ss_busy st = base @ map interval_of (ss_schedule st) \<and>
     list_all (item_ok z rq startDate base) (ss_schedule st) \<and> disjoint_items (ss_schedule st) \<and>
     0 \<le> ss_remainingCapacity st \<and> ss_remainingCapacity st + item_total (ss_schedule st) = capacity"

lemma slot_item_fields [simp]:
  "item_start (slot_item rq task n slot) = fst slot" "item_end (slot_item rq task n slot) = snd slot"
  "item_taskId (slot_item rq task n slot) = taskId task" "interval_of (slot_item rq task n slot) = slot"
  by (simp_all add: slot_item_def interval_of_def)

lemma item_total_append [simp]: "item_total (xs @ ys) = item_total xs + item_total ys"
  by (simp add: item_total_def)

lemma schedule_inv_put_slot:
  assumes "schedule_inv z rq startDate base capacity st"
    and "findFirstSlot lc z rq chunk earliest (ss_busy st) startDate = Some slot"
    and "minutes 15 \<le> chunk" and "chunk \<le> ss_remainingCapacity st"
    and "chunk \<le> minutes (sessionMinutes (rq_preferences rq))"
  shows "schedule_inv z rq startDate base capacity (put_slot rq task chunk slot st)"
proof -
  have ok: "snd slot = fst slot + chunk" "milliseconds (rq_nowMs rq) \<le> fst slot" "clear_of (ss_busy st) slot"
    "in_available_window z rq startDate slot"
    using findFirstSlot_ok [OF assms(2)] by (auto simp: slot_ok_def)
  have clear: "clear_of base slot" "clear_of (map interval_of (ss_schedule st)) slot"
    using ok(3) assms(1) by (auto simp: schedule_inv_def)
  have "item_ok z rq startDate base (slot_item rq task (ss_createdIds st) slot)"
    using ok clear(1) assms(3,5) by (simp add: item_ok_def)
  moreover have "disjoint_items (ss_schedule st @ [slot_item rq task (ss_createdIds st) slot])"
    using assms(1) clear(2)
    by (auto simp: schedule_inv_def disjoint_items_def sorted_wrt_append clear_of_def list_all_iff interval_of_def)
  ultimately show ?thesis
    using assms(1,4) ok(1) by (auto simp: schedule_inv_def put_slot_def item_total_def)
qed

text \<open>What the loop of one task adds.\<close>

definition chunks_outcome ::
  "RevisionTask \<Rightarrow> int \<Rightarrow> int option \<Rightarrow> schedule_state \<Rightarrow> int \<times> int option \<times> schedule_state \<Rightarrow> bool" where
  "chunks_outcome task remaining earliest st res \<longleftrightarrow>
     (case res of (left, lastSlotEnd, st1) \<Rightarrow>
        \<exists>new. ss_schedule st1 = ss_schedule st @ new \<and> list_all (\<lambda>i. item_taskId i = taskId task) new \<and>
          list_all (\<lambda>i. case earliest of None \<Rightarrow> True | Some t \<Rightarrow> t \<le> item_start i) new \<and>
          (new \<noteq> [] \<longrightarrow> (\<exists>t. lastSlotEnd = Some t \<and> list_all (\<lambda>i. item_end i \<le> t) new)) \<and>
          (new = [] \<longrightarrow> lastSlotEnd = earliest) \<and>
          (case earliest of None \<Rightarrow> True | Some t \<Rightarrow> (\<exists>u. lastSlotEnd = Some u \<and> t \<le> u)) \<and>
          left + item_total new = remaining \<and> (0 \<le> remaining \<longrightarrow> 0 \<le> left) \<and>
          ss_finalEndByTask st1 = ss_finalEndByTask st \<and> ss_unscheduled st1 = ss_unscheduled st)"

lemma chunks_outcome_stop: "chunks_outcome task remaining earliest st (remaining, earliest, st)"
  unfolding chunks_outcome_def by (auto simp: item_total_def intro!: exI [of _ "[]"] split: option.splits)

lemma chunks_outcome_step:
  assumes "slot_ok nowMs chunk earliest busy slot" and "0 < chunk" and "chunk \<le> remaining"
    and "chunks_outcome task (remaining - chunk) (Some (snd slot)) (put_slot rq task chunk slot st) res"
  shows "chunks_outcome task remaining earliest st res"
proof -
  obtain left e st1 where res: "res = (left, e, st1)" by (cases res) auto
  let ?i = "slot_item rq task (ss_createdIds st) slot"
  obtain new u where new: "ss_schedule st1 = ss_schedule st @ [?i] @ new" "list_all (\<lambda>i. item_taskId i = taskId task) new"
    "list_all (\<lambda>i. snd slot \<le> item_start i) new" "new \<noteq> [] \<longrightarrow> list_all (\<lambda>i. item_end i \<le> u) new"
    "e = Some u" "snd slot \<le> u" "left + item_total new = remaining - chunk" "0 \<le> remaining - chunk \<longrightarrow> 0 \<le> left"
    "ss_finalEndByTask st1 = ss_finalEndByTask st" "ss_unscheduled st1 = ss_unscheduled st"
    using assms(4) unfolding chunks_outcome_def res by (auto simp: put_slot_def)
  have slot: "snd slot = fst slot + chunk" "case earliest of None \<Rightarrow> True | Some t \<Rightarrow> t \<le> fst slot"
    using assms(1) by (simp_all add: slot_ok_def)
  then have "list_all (\<lambda>i. case earliest of None \<Rightarrow> True | Some t \<Rightarrow> t \<le> item_start i) (?i # new)"
    using new(3) assms(2) by (cases earliest) (auto simp: list_all_iff)
  moreover have "list_all (\<lambda>i. item_end i \<le> u) (?i # new)"
    using new(4,6) by (cases "new = []") auto
  moreover have "left + item_total (?i # new) = remaining"
    using new(7) slot(1) by (simp add: item_total_def)
  moreover have "case earliest of None \<Rightarrow> True | Some t \<Rightarrow> t \<le> u"
    using slot new(6) assms(2) by (cases earliest) auto
  ultimately show ?thesis
    unfolding chunks_outcome_def res prod.case using new assms(3)
    by (intro exI [of _ "?i # new"]) (auto split: option.splits)
qed

lemma schedule_chunks_ok:
  assumes "schedule_inv z rq startDate base capacity st"
  shows "chunks_outcome task remaining earliest st (schedule_chunks lc z rq startDate task remaining earliest st) \<and>
    schedule_inv z rq startDate base capacity (snd (snd (schedule_chunks lc z rq startDate task remaining earliest st)))"
  using assms
proof (induction lc z rq startDate task remaining earliest st rule: schedule_chunks.induct)
  case (1 lc z rq startDate task remaining earliest st)
  define chunk where "chunk = next_chunk rq remaining (ss_remainingCapacity st)"
  have le: "chunk \<le> remaining" "chunk \<le> ss_remainingCapacity st" "chunk \<le> minutes (sessionMinutes (rq_preferences rq))"
    by (simp_all add: chunk_def next_chunk_def)
  show ?case
  proof (cases "0 < remaining \<and> 0 < ss_remainingCapacity st \<and> minutes 15 \<le> chunk \<and> chunk mod minutes 15 = 0 \<and>
      findFirstSlot lc z rq chunk earliest (ss_busy st) startDate \<noteq> None")
    case False
    then have "schedule_chunks lc z rq startDate task remaining earliest st = (remaining, earliest, st)"
      by (auto simp: schedule_chunks.simps [of lc z rq startDate task remaining] Let_def chunk_def [symmetric]
          split: option.splits)
    then show ?thesis using "1.prems" chunks_outcome_stop by simp
  next
    case True
    then obtain slot where slot: "findFirstSlot lc z rq chunk earliest (ss_busy st) startDate = Some slot" by blast
    let ?st = "put_slot rq task chunk slot st"
    have eq: "schedule_chunks lc z rq startDate task remaining earliest st =
        schedule_chunks lc z rq startDate task (remaining - chunk) (Some (snd slot)) ?st"
      using True slot
      by (simp add: schedule_chunks.simps [of lc z rq startDate task remaining earliest st] Let_def chunk_def [symmetric])
    have inv: "schedule_inv z rq startDate base capacity ?st"
      using schedule_inv_put_slot [OF "1.prems" slot] True le by blast
    have pos: "0 < chunk" using True by (simp add: minutes_def)
    have IH: "chunks_outcome task (remaining - chunk) (Some (snd slot)) ?st
        (schedule_chunks lc z rq startDate task (remaining - chunk) (Some (snd slot)) ?st) \<and>
      schedule_inv z rq startDate base capacity
        (snd (snd (schedule_chunks lc z rq startDate task (remaining - chunk) (Some (snd slot)) ?st)))"
      using "1.IH" [OF chunk_def _ _ slot inv] True by simp
    show ?thesis unfolding eq
      using IH chunks_outcome_step [OF _ pos le(1)] findFirstSlot_ok [OF slot] by blast
  qed
qed

subsection \<open>Dependencies\<close>

lemma le_last_of_sorted: "sorted_wrt (\<le>) xs \<Longrightarrow> x \<in> set xs \<Longrightarrow> x \<le> last xs" for xs :: "int list"
  by (induction xs) (auto split: if_splits)

lemma last_of_sorted_max: "x \<in> set xs \<Longrightarrow> \<exists>t. last_of_sorted xs = Some t \<and> x \<le> t"
proof -
  assume x: "x \<in> set xs"
  then obtain y ys where ys: "js_sort compareInstants xs = y # ys" by (cases "js_sort compareInstants xs") auto
  have "sorted_wrt (\<le>) (y # ys)" using instants.sorted_sort_cmp [of xs] ys by simp
  then have "x \<le> last (y # ys)" using x ys by (metis le_last_of_sorted set_js_sort)
  then show ?thesis using ys by (simp add: last_of_sorted_def)
qed

lemma dependency_ends_known:
  assumes "dependency_ends completedIds fe ds = Some ends" and "d \<in> set ds" and "d \<notin> set completedIds"
  shows "\<exists>e \<in> set ends. jget fe d = Some e"
  using assms by (induction ds arbitrary: ends) (auto split: if_splits option.splits simp del: map_of_eq_Some_iff)

definition allocated_minutes :: "(string, allocation) jmap \<Rightarrow> string \<Rightarrow> int" where
  "allocated_minutes allocated t = (case jget allocated t of None \<Rightarrow> 0 | Some a \<Rightarrow> alloc_minutes a)"

definition task_total :: "string \<Rightarrow> PlanScheduleItem list \<Rightarrow> int" where
  "task_total t items = item_total (filter (\<lambda>i. item_taskId i = t) items)"

text \<open>What holds of the tasks processed so far.\<close>

definition task_inv ::
  "string list \<Rightarrow> (string, allocation) jmap \<Rightarrow> schedule_state \<Rightarrow> RevisionTask \<Rightarrow> bool" where
  "task_inv completedIds allocated st u \<longleftrightarrow>
     (\<forall>i \<in> set (ss_schedule st). item_taskId i = taskId u \<longrightarrow>
        (\<forall>d \<in> set (dependencyTaskIds u). d \<notin> set completedIds \<longrightarrow>
           (\<exists>e. jget (ss_finalEndByTask st) d = Some e \<and> e \<le> item_start i))) \<and>
     (taskId u \<in> set (ss_unscheduled st) \<or>
        minutes (estimatedMinutes u) \<le> allocated_minutes allocated (taskId u) + task_total (taskId u) (ss_schedule st)) \<and>
     task_total (taskId u) (ss_schedule st) \<le>
       max 0 (minutes (estimatedMinutes u) - allocated_minutes allocated (taskId u))"

definition tasks_inv ::
  "string list \<Rightarrow> (string, allocation) jmap \<Rightarrow> RevisionTask list \<Rightarrow> schedule_state \<Rightarrow> bool" where
  "tasks_inv completedIds allocated processed st \<longleftrightarrow>
     item_taskId ` set (ss_schedule st) \<subseteq> taskId ` set processed \<and>
     set (jkeys (ss_finalEndByTask st)) \<subseteq> taskId ` set processed \<and>
     (\<forall>t e. jget (ss_finalEndByTask st) t = Some e \<longrightarrow>
        (\<forall>i \<in> set (ss_schedule st). item_taskId i = t \<longrightarrow> item_end i \<le> e)) \<and>
     (\<forall>u \<in> set processed. task_inv completedIds allocated st u)"

lemma task_total_other:
  "list_all (\<lambda>i. item_taskId i = t) new \<Longrightarrow> t \<noteq> t' \<Longrightarrow> task_total t' (items @ new) = task_total t' items"
  by (induction new) (auto simp: task_total_def item_total_def)

lemma task_total_own:
  assumes "list_all (\<lambda>i. item_taskId i = t) new" and "t \<notin> item_taskId ` set items"
  shows "task_total t (items @ new) = item_total new"
proof -
  have "filter (\<lambda>i. item_taskId i = t) items = []" using assms(2) by (auto simp: filter_empty_conv)
  moreover have "filter (\<lambda>i. item_taskId i = t) new = new" using assms(1) by (simp add: filter_id_conv list_all_iff)
  ultimately show ?thesis by (simp add: task_total_def item_total_def)
qed

text \<open>Adding the outcome of a new task keeps what holds of the others.\<close>

lemma task_inv_other:
  assumes "task_inv completedIds allocated st u" and "taskId u \<noteq> taskId task"
    and "ss_schedule st' = ss_schedule st @ new" and "list_all (\<lambda>i. item_taskId i = taskId task) new"
    and "\<And>t e. jget (ss_finalEndByTask st) t = Some e \<Longrightarrow> jget (ss_finalEndByTask st') t = Some e"
    and "set (ss_unscheduled st) \<subseteq> set (ss_unscheduled st')"
  shows "task_inv completedIds allocated st' u"
proof -
  have total: "task_total (taskId u) (ss_schedule st') = task_total (taskId u) (ss_schedule st)"
    using assms(2,3,4) task_total_other [of "taskId task" new "taskId u"] by auto
  have "i \<in> set (ss_schedule st)" if "i \<in> set (ss_schedule st')" "item_taskId i = taskId u" for i
    using that assms(2-4) by (auto simp: list_all_iff)
  then show ?thesis using assms(1,5,6) unfolding task_inv_def total by blast
qed

lemma tasks_inv_extend:
  assumes "tasks_inv completedIds allocated processed st" and "taskId task \<notin> taskId ` set processed"
    and "ss_schedule st' = ss_schedule st @ new" and "list_all (\<lambda>i. item_taskId i = taskId task) new"
    and "ss_finalEndByTask st' = ss_finalEndByTask st \<or>
      (\<exists>t. ss_finalEndByTask st' = jset (taskId task) t (ss_finalEndByTask st) \<and> list_all (\<lambda>i. item_end i \<le> t) new)"
    and "set (ss_unscheduled st) \<subseteq> set (ss_unscheduled st')"
    and "task_inv completedIds allocated st' task"
  shows "tasks_inv completedIds allocated (processed @ [task]) st'"
proof -
  let ?fe = "ss_finalEndByTask st" and ?fe' = "ss_finalEndByTask st'"
  note inv = assms(1) [unfolded tasks_inv_def]
  have new: "item_taskId i = taskId task" if "i \<in> set new" for i using that assms(4) by (auto simp: list_all_iff)
  have fresh: "jget ?fe (taskId task) = None" using inv assms(2) jget_not_key by (metis subsetD)
  have keep: "jget ?fe' t = Some e" if "jget ?fe t = Some e" for t e
    using that fresh assms(5) by (auto simp del: map_of_eq_Some_iff)
  have ends: "item_end i \<le> e" if "jget ?fe' t = Some e" "i \<in> set (ss_schedule st')" "item_taskId i = t" for t e i
  proof (cases "t = taskId task")
    case True
    have "i \<notin> set (ss_schedule st)" using that(3) True inv assms(2) by (metis image_eqI subsetD)
    then have "i \<in> set new" using that(2) assms(3) by simp
    with that(1) True fresh assms(5) show ?thesis by (auto simp: list_all_iff simp del: map_of_eq_Some_iff)
  next
    case False
    then have "jget ?fe t = Some e" using that(1) assms(5) by (auto simp del: map_of_eq_Some_iff)
    moreover have "i \<in> set (ss_schedule st)" using that(2,3) False new assms(3) by auto
    ultimately show ?thesis using inv that(3) by blast
  qed
  have "set (jkeys ?fe') \<subseteq> insert (taskId task) (set (jkeys ?fe))"
    using assms(5) by (elim disjE exE conjE) (simp_all only: jkeys_jset subset_insertI order_refl)
  also have "\<dots> \<subseteq> taskId ` set (processed @ [task])" using inv by (auto simp del: set_map)
  finally have keys: "set (jkeys ?fe') \<subseteq> taskId ` set (processed @ [task])" .
  have others: "task_inv completedIds allocated st' u" if "u \<in> set processed" for u
  proof (rule task_inv_other [OF _ _ assms(3,4) keep assms(6)])
    show "task_inv completedIds allocated st u" using that inv by blast
    show "taskId u \<noteq> taskId task" using that assms(2) by (metis image_eqI)
  qed
  have ids: "item_taskId ` set (ss_schedule st') \<subseteq> taskId ` set (processed @ [task])"
    using inv assms(3) new by auto
  have "task_inv completedIds allocated st' u" if "u \<in> set (processed @ [task])" for u
    using that others assms(7) by auto
  with ids keys ends show ?thesis unfolding tasks_inv_def by blast
qed

text \<open>The first instant a task may use is not before the end of a dependency.\<close>

definition task_earliest :: "int list \<Rightarrow> allocation option \<Rightarrow> int option" where
  "task_earliest ends existing =
     (case existing of
        None \<Rightarrow> last_of_sorted ends
      | Some a \<Rightarrow> (case last_of_sorted ends of
          None \<Rightarrow> Some (lastEnd a)
        | Some t \<Rightarrow> if compareInstants t (lastEnd a) < 0 then Some (lastEnd a) else Some t))"

lemma task_earliest_ge: "x \<in> set ends \<Longrightarrow> \<exists>t. task_earliest ends existing = Some t \<and> x \<le> t"
  using last_of_sorted_max [of x ends] by (auto simp: task_earliest_def split: option.splits)

lemma schedule_task_blocked:
  assumes "tasks_inv completedIds allocated processed st" and "taskId task \<notin> taskId ` set processed"
    and "st' = st\<lparr>ss_unscheduled := set_add (taskId task) (ss_unscheduled st)\<rparr>"
  shows "tasks_inv completedIds allocated (processed @ [task]) st'"
proof -
  have none: "item_taskId i \<noteq> taskId task" if "i \<in> set (ss_schedule st)" for i
    using that assms(1,2) unfolding tasks_inv_def by (metis image_eqI subsetD)
  have "task_total (taskId task) (ss_schedule st) = 0"
    using none by (simp add: task_total_def item_total_def filter_False)
  then have "task_inv completedIds allocated st' task"
    using none by (auto simp: task_inv_def assms(3) set_add_def)
  then show ?thesis
    by (intro tasks_inv_extend [OF assms(1,2), of st' "[]"]) (auto simp: assms(3) set_add_def)
qed

lemma schedule_task_placed:
  assumes "tasks_inv completedIds allocated processed st" and "taskId task \<notin> taskId ` set processed"
    and "dependency_ends completedIds (ss_finalEndByTask st) (dependencyTaskIds task) = Some ends"
    and "chunks_outcome task (max 0 (minutes (estimatedMinutes task) - allocated_minutes allocated (taskId task)))
      (task_earliest ends existing) st (left, e, st1)"
    and "st' = (if 0 < left then st1\<lparr>ss_unscheduled := set_add (taskId task) (ss_unscheduled st1)\<rparr>
      else case e of
        Some t \<Rightarrow> st1\<lparr>ss_finalEndByTask := jset (taskId task) t (ss_finalEndByTask st1)\<rparr>
      | None \<Rightarrow> st1)"
  shows "tasks_inv completedIds allocated (processed @ [task]) st'"
proof -
  let ?remaining = "max 0 (minutes (estimatedMinutes task) - allocated_minutes allocated (taskId task))"
  obtain new where new: "ss_schedule st1 = ss_schedule st @ new" "list_all (\<lambda>i. item_taskId i = taskId task) new"
    "list_all (\<lambda>i. case task_earliest ends existing of None \<Rightarrow> True | Some t \<Rightarrow> t \<le> item_start i) new"
    "new \<noteq> [] \<longrightarrow> (\<exists>t. e = Some t \<and> list_all (\<lambda>i. item_end i \<le> t) new)"
    "left + item_total new = ?remaining" "0 \<le> left"
    "ss_finalEndByTask st1 = ss_finalEndByTask st" "ss_unscheduled st1 = ss_unscheduled st"
    using assms(4) by (auto simp: chunks_outcome_def)
  have items: "ss_schedule st' = ss_schedule st @ new" using assms(5) new(1) by (auto split: option.splits)
  have fe: "ss_finalEndByTask st' = ss_finalEndByTask st \<or>
      (\<exists>t. ss_finalEndByTask st' = jset (taskId task) t (ss_finalEndByTask st) \<and> list_all (\<lambda>i. item_end i \<le> t) new)"
    using assms(5) new(4,7) by (cases "new = []") (auto split: option.splits)
  have un: "set (ss_unscheduled st) \<subseteq> set (ss_unscheduled st')"
    using assms(5) new(8) by (auto simp: set_add_def split: option.splits)
  have old: "taskId task \<notin> item_taskId ` set (ss_schedule st)"
    using assms(1,2) unfolding tasks_inv_def by blast
  have total: "task_total (taskId task) (ss_schedule st') = item_total new"
    unfolding items using new(2) old by (rule task_total_own)
  have fresh: "jget (ss_finalEndByTask st) (taskId task) = None"
    using assms(1,2) jget_not_key unfolding tasks_inv_def by (metis subsetD)
  have dep: "\<exists>x. jget (ss_finalEndByTask st') d = Some x \<and> x \<le> item_start i"
    if i: "i \<in> set (ss_schedule st')" "item_taskId i = taskId task"
      and d: "d \<in> set (dependencyTaskIds task)" "d \<notin> set completedIds" for i d
  proof -
    have "i \<notin> set (ss_schedule st)" using i(2) old by (metis image_eqI)
    then have "i \<in> set new" using i(1) items by simp
    moreover obtain x where x: "x \<in> set ends" "jget (ss_finalEndByTask st) d = Some x"
      using dependency_ends_known [OF assms(3) d] by blast
    moreover obtain t where "task_earliest ends existing = Some t" "x \<le> t" using task_earliest_ge [OF x(1)] by blast
    ultimately have "x \<le> item_start i" using new(3) by (auto simp: list_all_iff)
    moreover have "jget (ss_finalEndByTask st') d = Some x"
      using x(2) fresh fe by (auto simp del: map_of_eq_Some_iff)
    ultimately show ?thesis by blast
  qed
  have "taskId task \<in> set (ss_unscheduled st') \<or>
      minutes (estimatedMinutes task) \<le> allocated_minutes allocated (taskId task) + item_total new"
    using assms(5) new(5,6) by (auto simp: set_add_def)
  with dep new(5,6) have "task_inv completedIds allocated st' task"
    unfolding task_inv_def total by auto
  with tasks_inv_extend [OF assms(1,2) items new(2) fe un] show ?thesis by blast
qed

lemma schedule_task_ok:
  assumes "schedule_inv z rq startDate base capacity st"
    and "tasks_inv completedIds allocated processed st" and "taskId task \<notin> taskId ` set processed"
    and "st' = schedule_task lc z rq startDate completedIds allocated task st"
  shows "schedule_inv z rq startDate base capacity st' \<and> tasks_inv completedIds allocated (processed @ [task]) st'"
proof (cases "dependency_ends completedIds (ss_finalEndByTask st) (dependencyTaskIds task)")
  case None
  then have "st' = st\<lparr>ss_unscheduled := set_add (taskId task) (ss_unscheduled st)\<rparr>"
    using assms(4) by (simp add: schedule_task_def)
  with schedule_task_blocked [OF assms(2,3) this] assms(1) show ?thesis by (simp add: schedule_inv_def)
next
  case (Some ends)
  define existing where "existing = jget allocated (taskId task)"
  let ?remaining = "max 0 (minutes (estimatedMinutes task) - allocated_minutes allocated (taskId task))"
  obtain left e st1 where run: "schedule_chunks lc z rq startDate task ?remaining (task_earliest ends existing) st = (left, e, st1)"
    by (metis prod_cases3)
  note ok = schedule_chunks_ok [OF assms(1), of task ?remaining "task_earliest ends existing" lc, unfolded run snd_conv]
  have e: "e \<noteq> None" if "existing = Some a" for a
    using ok that by (auto simp: chunks_outcome_def task_earliest_def split: option.splits if_splits)
  have st': "st' = (if 0 < left then st1\<lparr>ss_unscheduled := set_add (taskId task) (ss_unscheduled st1)\<rparr>
      else case e of
        Some t \<Rightarrow> st1\<lparr>ss_finalEndByTask := jset (taskId task) t (ss_finalEndByTask st1)\<rparr>
      | None \<Rightarrow> st1)"
    using assms(4) Some run e
    by (simp add: schedule_task_def Let_def task_earliest_def existing_def [symmetric] allocated_minutes_def
        split: option.splits)
  have "schedule_inv z rq startDate base capacity st'"
    using ok st' by (auto simp: schedule_inv_def split: option.splits)
  with schedule_task_placed [OF assms(2,3) Some _ st'] ok show ?thesis by blast
qed

subsection \<open>The whole schedule\<close>

lemma schedule_tasks_ok:
  assumes "schedule_inv z rq startDate base capacity st" and "tasks_inv completedIds allocated processed st"
    and "distinct (map taskId (processed @ tasks))"
    and "st' = fold (schedule_task lc z rq startDate completedIds allocated) tasks st"
  shows "schedule_inv z rq startDate base capacity st' \<and> tasks_inv completedIds allocated (processed @ tasks) st'"
  using assms
proof (induction tasks arbitrary: processed st)
  case (Cons t ts)
  let ?st = "schedule_task lc z rq startDate completedIds allocated t st"
  have "schedule_inv z rq startDate base capacity ?st \<and> tasks_inv completedIds allocated (processed @ [t]) ?st"
    by (rule schedule_task_ok [OF Cons.prems(1,2) _ refl]) (use Cons.prems(3) in auto)
  with Cons.IH [of ?st "processed @ [t]"] Cons.prems(3,4) show ?case by simp
qed simp

subsection \<open>The topological order\<close>

lemma visit_list_step:
  assumes "visit_list byId visiting (Some t # ts) result = Inr result'" and "taskId t \<notin> set (map taskId result)"
  obtains r1 where "taskId t \<notin> set visiting"
    and "visit_list byId (taskId t # visiting) (map (jget byId) (dependencyTaskIds t)) result = Inr r1"
    and "visit_list byId visiting ts (r1 @ [t]) = Inr result'"
  using assms by (auto split: if_splits sum.splits)

text \<open>Every task comes after the tasks it depends on.\<close>

fun dependencies_first :: "string set \<Rightarrow> RevisionTask list \<Rightarrow> bool" where
  "dependencies_first seen [] = True"
| "dependencies_first seen (t # ts) \<longleftrightarrow>
     set (dependencyTaskIds t) \<subseteq> seen \<and> dependencies_first (insert (taskId t) seen) ts"

lemma dependencies_first_snoc:
  "dependencies_first seen (ts @ [t]) \<longleftrightarrow>
   dependencies_first seen ts \<and> set (dependencyTaskIds t) \<subseteq> seen \<union> taskId ` set ts"
  by (induction ts arbitrary: seen) auto

definition topo_result :: "(string, RevisionTask) jmap \<Rightarrow> RevisionTask list \<Rightarrow> RevisionTask list \<Rightarrow> bool" where
  "topo_result byId tasks result \<longleftrightarrow>
     distinct (map taskId result) \<and> dependencies_first {} result \<and> set result \<subseteq> set tasks"

lemma visited_sets:
  "insert x B \<subseteq> C \<Longrightarrow> C \<inter> V \<subseteq> insert x B \<Longrightarrow> B \<inter> V \<subseteq> A \<Longrightarrow> A \<subseteq> B \<Longrightarrow> x \<notin> V \<Longrightarrow>
   A \<subseteq> C \<and> x \<in> C \<and> C \<inter> V \<subseteq> A"
  by blast

lemma visit_list_ok:
  assumes "visit_list byId visiting ts result = Inr result'" and "topo_result byId tasks result"
    and "\<And>d t. jget byId d = Some t \<Longrightarrow> taskId t = d \<and> t \<in> set tasks"
    and "\<And>t. Some t \<in> set ts \<Longrightarrow> t \<in> set tasks"
  shows "topo_result byId tasks result' \<and> taskId ` set result \<subseteq> taskId ` set result' \<and>
    (\<forall>t. Some t \<in> set ts \<longrightarrow> taskId t \<in> taskId ` set result') \<and> None \<notin> set ts \<and>
    taskId ` set result' \<inter> set visiting \<subseteq> taskId ` set result"
  using assms
proof (induction byId visiting ts result arbitrary: result' rule: visit_list.induct)
  case (3 byId visiting t ts result)
  show ?case
  proof (cases "taskId t \<in> set (map taskId result)")
    case True
    then have "visit_list byId visiting ts result = Inr result'" using "3.prems"(1) by simp
    from "3.IH"(1) [OF True this "3.prems"(2,3)] "3.prems"(4) True show ?thesis by auto
  next
    case False
    then obtain r1 where r1: "taskId t \<notin> set visiting"
      "visit_list byId (taskId t # visiting) (map (jget byId) (dependencyTaskIds t)) result = Inr r1"
      "visit_list byId visiting ts (r1 @ [t]) = Inr result'"
      using visit_list_step [OF "3.prems"(1)] by blast
    have nested: "topo_result byId tasks r1" "taskId ` set result \<subseteq> taskId ` set r1"
      "\<forall>u. Some u \<in> set (map (jget byId) (dependencyTaskIds t)) \<longrightarrow> taskId u \<in> taskId ` set r1"
      "None \<notin> set (map (jget byId) (dependencyTaskIds t))"
      "taskId ` set r1 \<inter> set (taskId t # visiting) \<subseteq> taskId ` set result"
      using "3.IH"(2) [OF False r1(1,2) "3.prems"(2,3)] "3.prems"(3) by (metis image_iff set_map)+
    have "set (dependencyTaskIds t) \<subseteq> taskId ` set r1"
    proof
      fix d
      assume d: "d \<in> set (dependencyTaskIds t)"
      then obtain u where "jget byId d = Some u" using nested(4) by (cases "jget byId d") (force dest: sym)+
      with d nested(3) "3.prems"(3) show "d \<in> taskId ` set r1" by (metis image_eqI set_map)
    qed
    moreover have "taskId t \<notin> taskId ` set r1" using nested(5) False by auto
    ultimately have "topo_result byId tasks (r1 @ [t])"
      using nested(1) "3.prems"(4) by (auto simp: topo_result_def dependencies_first_snoc)
    note last = "3.IH"(3) [OF False r1(1,2,3) this "3.prems"(3)]
    have img: "taskId ` set (r1 @ [t]) = insert (taskId t) (taskId ` set r1)" by auto
    have fin: "topo_result byId tasks result'" "insert (taskId t) (taskId ` set r1) \<subseteq> taskId ` set result'"
      "\<forall>u. Some u \<in> set ts \<longrightarrow> taskId u \<in> taskId ` set result'" "None \<notin> set ts"
      "taskId ` set result' \<inter> set visiting \<subseteq> insert (taskId t) (taskId ` set r1)"
      using last "3.prems"(4) unfolding img by (meson list.set_intros(2))+
    have "taskId ` set r1 \<inter> set visiting \<subseteq> taskId ` set result" using nested(5) by auto
    from visited_sets [OF fin(2,5) this nested(2) r1(1)] fin(1,3,4) show ?thesis by simp
  qed
qed auto

text \<open>An error of the traversal has a cause in the graph.\<close>

definition depends :: "RevisionTask list \<Rightarrow> (string \<times> string) set" where
  "depends tasks = {(taskId t, d) | t d. t \<in> set tasks \<and> d \<in> set (dependencyTaskIds t)}"

lemma visit_list_error:
  assumes "visit_list byId visiting ts result = Inl e"
    and "\<And>d t. jget byId d = Some t \<Longrightarrow> taskId t = d \<and> t \<in> set tasks"
    and "\<And>d. jget byId d = None \<Longrightarrow> d \<notin> taskId ` set tasks"
    and "\<And>t. Some t \<in> set ts \<Longrightarrow> t \<in> set tasks"
    and "None \<in> set ts \<Longrightarrow> \<exists>t \<in> set tasks. \<exists>d \<in> set (dependencyTaskIds t). d \<notin> taskId ` set tasks"
    and "\<And>v t. v \<in> set visiting \<Longrightarrow> Some t \<in> set ts \<Longrightarrow> (v, taskId t) \<in> (depends tasks)\<^sup>+"
  shows "(e = UnknownDependency \<and> (\<exists>t \<in> set tasks. \<exists>d \<in> set (dependencyTaskIds t). d \<notin> taskId ` set tasks)) \<or>
    (e = DependencyCycle \<and> (\<exists>v. (v, v) \<in> (depends tasks)\<^sup>+))"
  using assms
proof (induction byId visiting ts result rule: visit_list.induct)
  case (3 byId visiting t ts result)
  have t: "t \<in> set tasks" using "3.prems"(4) by simp
  show ?case
  proof (cases "taskId t \<in> set (map taskId result)")
    case True
    with 3 show ?thesis by simp
  next
    case False
    show ?thesis
    proof (cases "taskId t \<in> set visiting")
      case True
      with False "3.prems"(1,6) show ?thesis by auto
    next
      case new: False
      let ?ds = "map (jget byId) (dependencyTaskIds t)"
      have path: "(v, taskId u) \<in> (depends tasks)\<^sup>+" if v: "v \<in> set (taskId t # visiting)" and u: "Some u \<in> set ?ds" for v u
      proof -
        obtain d where "d \<in> set (dependencyTaskIds t)" "jget byId d = Some u" using u by (auto dest: sym)
        then have "(taskId t, taskId u) \<in> depends tasks" using "3.prems"(2) t by (auto simp: depends_def)
        then show ?thesis using v "3.prems"(6) [of v t] by (auto intro: trancl_into_trancl)
      qed
      have unknown: "\<exists>t \<in> set tasks. \<exists>d \<in> set (dependencyTaskIds t). d \<notin> taskId ` set tasks" if n: "None \<in> set ?ds"
      proof -
        obtain d where "d \<in> set (dependencyTaskIds t)" "jget byId d = None"
          using n unfolding set_map by (metis imageE)
        with "3.prems"(3) t show ?thesis by blast
      qed
      have inner: "u \<in> set tasks" if "Some u \<in> set ?ds" for u using that "3.prems"(2) by (auto dest: sym)
      show ?thesis
      proof (cases "visit_list byId (taskId t # visiting) ?ds result")
        case (Inl e')
        then have "e' = e" using "3.prems"(1) False new by simp
        with "3.IH"(2) [OF False new _ "3.prems"(2,3) inner unknown path] Inl show ?thesis by blast
      next
        case (Inr r1)
        then have "visit_list byId visiting ts (r1 @ [t]) = Inl e" using "3.prems"(1) False new by simp
        from "3.IH"(3) [OF False new Inr this "3.prems"(2,3)] "3.prems"(4,5,6) show ?thesis by auto
      qed
    qed
  qed
qed auto

lemma byId_fold:
  assumes "m = fold (\<lambda>t m. jset (taskId t) t m) tasks m0"
  shows "jget m d = Some t \<Longrightarrow> (taskId t = d \<and> t \<in> set tasks) \<or> jget m0 d = Some t"
    and "jget m d = None \<longleftrightarrow> d \<notin> taskId ` set tasks \<and> jget m0 d = None"
proof -
  have "(jget m d = Some t \<longrightarrow> (taskId t = d \<and> t \<in> set tasks) \<or> jget m0 d = Some t) \<and>
    (jget m d = None \<longleftrightarrow> d \<notin> taskId ` set tasks \<and> jget m0 d = None)"
    using assms
  proof (induction tasks arbitrary: m0)
    case (Cons u tasks)
    then show ?case
      using Cons.IH [of "jset (taskId u) u m0"] by (auto split: if_splits simp del: map_of_eq_Some_iff map_of_eq_None_iff)
  qed simp
  then show "jget m d = Some t \<Longrightarrow> (taskId t = d \<and> t \<in> set tasks) \<or> jget m0 d = Some t"
    and "jget m d = None \<longleftrightarrow> d \<notin> taskId ` set tasks \<and> jget m0 d = None" by blast+
qed

lemma topologicalTasks_cases:
  "case topologicalTasks tasks of
     Inr ordered \<Rightarrow> distinct (map taskId ordered) \<and> dependencies_first {} ordered \<and> set ordered \<subseteq> set tasks \<and>
       taskId ` set ordered = taskId ` set tasks
   | Inl e \<Rightarrow> (e = UnknownDependency \<and> (\<exists>t \<in> set tasks. \<exists>d \<in> set (dependencyTaskIds t). d \<notin> taskId ` set tasks)) \<or>
       (e = DependencyCycle \<and> (\<exists>v. (v, v) \<in> (depends tasks)\<^sup>+))"
proof -
  define byId where "byId = fold (\<lambda>t m. jset (taskId t) t m) tasks []"
  define ts where "ts = map Some (js_sort (cmp_by (\<lambda>t. purpose_order (purpose t))) tasks)"
  have eq: "topologicalTasks tasks = visit_list byId [] ts []"
    by (simp add: topologicalTasks_def byId_def ts_def Let_def)
  have some: "\<And>d t. jget byId d = Some t \<Longrightarrow> taskId t = d \<and> t \<in> set tasks"
    using byId_fold(1) [OF byId_def] by auto
  have none: "\<And>d. jget byId d = None \<Longrightarrow> d \<notin> taskId ` set tasks"
    using byId_fold(2) [OF byId_def] by auto
  have ts: "\<And>t. Some t \<in> set ts \<longleftrightarrow> t \<in> set tasks" "None \<notin> set ts" by (auto simp: ts_def)
  show ?thesis
  proof (cases "topologicalTasks tasks")
    case (Inl e)
    from visit_list_error [OF Inl [unfolded eq] some none] ts Inl show ?thesis by auto
  next
    case (Inr ordered)
    have "topo_result byId tasks ordered \<and> (\<forall>t. Some t \<in> set ts \<longrightarrow> taskId t \<in> taskId ` set ordered)"
      using visit_list_ok [OF Inr [unfolded eq] _ some] ts by (auto simp: topo_result_def)
    then show ?thesis using Inr ts by (auto simp: topo_result_def)
  qed
qed

subsection \<open>Claims\<close>

text \<open>C37: The task order is a topological order, and its errors are real. The traversal always ends;
  when it succeeds the order has every task id exactly once and each task after all the tasks it
  depends on; when it reports an unknown dependency there is one, and when it reports a cycle the
  dependencies contain one.\<close>

theorem topologicalTasks_correct:
  "case topologicalTasks tasks of
     Inr ordered \<Rightarrow> distinct (map taskId ordered) \<and> dependencies_first {} ordered \<and>
       taskId ` set ordered = taskId ` set tasks
   | Inl e \<Rightarrow> (e = UnknownDependency \<and> (\<exists>t \<in> set tasks. \<exists>d \<in> set (dependencyTaskIds t). d \<notin> taskId ` set tasks)) \<or>
       (e = DependencyCycle \<and> (\<exists>v. (v, v) \<in> (depends tasks)\<^sup>+))"
  using topologicalTasks_cases [of tasks] by (simp split: sum.splits)

text \<open>The state at the end of a successful run.\<close>

lemma build_state:
  assumes "buildDeterministicSevenDaySchedule lc z rq = Inr (schedule, unscheduled)"
  obtains tasks pendingTasks st where
    "topologicalTasks (rq_tasks rq) = Inr tasks"
    and "pendingTasks = filter (\<lambda>t. jget (statusByTask rq) (taskId t) = Some pending) tasks"
    and "schedule_inv z rq (firstMutableDate rq) (map (\<lambda>e. (ev_start e, ev_end e)) (rq_busyEvents rq))
      (max 0 (minutes (weeklyCapacityMinutes (rq_preferences rq)) - already_allocated rq (map taskId pendingTasks))) st"
    and "tasks_inv (completedTaskIds rq) (plan_allocations rq (map taskId pendingTasks)) pendingTasks st"
    and "schedule = js_sort (\<lambda>l r. compareInstants (item_start l) (item_start r)) (ss_schedule st)"
    and "unscheduled = ss_unscheduled st"
proof -
  obtain tasks where tasks: "topologicalTasks (rq_tasks rq) = Inr tasks"
    using assms by (auto simp: buildDeterministicSevenDaySchedule_def split: if_splits sum.splits)
  define pendingTasks where "pendingTasks = filter (\<lambda>t. jget (statusByTask rq) (taskId t) = Some pending) tasks"
  define base where "base = map (\<lambda>e. (ev_start e, ev_end e)) (rq_busyEvents rq)"
  define capacity where "capacity = max 0 (minutes (weeklyCapacityMinutes (rq_preferences rq)) -
    already_allocated rq (map taskId pendingTasks))"
  define st0 where "st0 = \<lparr>ss_schedule = [], ss_busy = base, ss_remainingCapacity = capacity,
    ss_unscheduled = [], ss_finalEndByTask = [], ss_createdIds = 0\<rparr>"
  define st where "st = fold (schedule_task lc z rq (firstMutableDate rq) (completedTaskIds rq)
    (plan_allocations rq (map taskId pendingTasks))) pendingTasks st0"
  have "distinct (map taskId tasks)" using topologicalTasks_cases [of "rq_tasks rq"] tasks by simp
  then have "distinct (map taskId ([] @ pendingTasks))" by (simp add: pendingTasks_def distinct_map_filter)
  moreover have "schedule_inv z rq (firstMutableDate rq) base capacity st0"
    by (simp add: schedule_inv_def st0_def disjoint_items_def item_total_def capacity_def)
  moreover have "tasks_inv (completedTaskIds rq) (plan_allocations rq (map taskId pendingTasks)) [] st0"
    by (simp add: tasks_inv_def st0_def)
  ultimately have "schedule_inv z rq (firstMutableDate rq) base capacity st \<and>
      tasks_inv (completedTaskIds rq) (plan_allocations rq (map taskId pendingTasks)) pendingTasks st"
    using schedule_tasks_ok [OF _ _ _ st_def] by fastforce
  moreover have "schedule = js_sort (\<lambda>l r. compareInstants (item_start l) (item_start r)) (ss_schedule st) \<and>
      unscheduled = ss_unscheduled st"
    using assms tasks unfolding buildDeterministicSevenDaySchedule_def st_def st0_def capacity_def base_def pendingTasks_def
    by (simp add: Let_def split: if_splits)
  ultimately show ?thesis
    using that tasks pendingTasks_def unfolding base_def capacity_def by blast
qed

lemma sorted_wrt_symmetric_mset:
  assumes "sorted_wrt R xs" and "mset xs = mset ys" and "\<And>x y. R x y \<Longrightarrow> R y x"
  shows "sorted_wrt R ys"
  using assms(1,2)
proof (induction ys arbitrary: xs)
  case (Cons y ys)
  then obtain us vs where xs: "xs = us @ y # vs" by (metis list.set_intros(1) mset_eq_setD split_list)
  then have "mset (us @ vs) = mset ys" using Cons.prems(2) by simp
  moreover have "sorted_wrt R (us @ vs)" "\<forall>x \<in> set (us @ vs). R y x"
    using Cons.prems(1) xs assms(3) by (auto simp: sorted_wrt_append)
  moreover have "set (us @ vs) = set ys" using calculation(1) by (rule mset_eq_setD)
  ultimately show ?case using Cons.IH [of "us @ vs"] by simp
qed simp

lemma item_total_mset: "mset xs = mset ys \<Longrightarrow> item_total xs = item_total ys"
  unfolding item_total_def sum_mset_sum_list [symmetric] mset_map by simp

lemma item_total_sort: "item_total (js_sort cmp items) = item_total items"
  by (rule item_total_mset) simp

lemma js_comparator_item_start: "js_comparator (\<lambda>l r. compareInstants (item_start l) (item_start r))"
  by unfold_locales auto

text \<open>C26: Every slot of the schedule is usable, and no two collide. The schedule is a sequence in which
  each item ends before the next one starts; each item lies in one of the user's available windows
  of a date from the first mutable date to the end of the seven days, starts no earlier than now,
  lasts at least 15 minutes and at most one session, and overlaps none of the busy events.\<close>

theorem schedule_slots_safe:
  assumes "buildDeterministicSevenDaySchedule lc z rq = Inr (schedule, unscheduled)"
  shows "sorted_wrt (\<lambda>i j. item_end i \<le> item_start j) schedule \<and>
    list_all (item_ok z rq (firstMutableDate rq) (map (\<lambda>e. (ev_start e, ev_end e)) (rq_busyEvents rq))) schedule"
  using assms
proof (rule build_state, goal_cases)
  case (1 tasks pendingTasks st)
  note inv = 1(3) and sched = 1(5)
  have ok: "list_all (item_ok z rq (firstMutableDate rq) (map (\<lambda>e. (ev_start e, ev_end e)) (rq_busyEvents rq))) schedule"
    using inv sched by (simp add: schedule_inv_def list_all_iff)
  have disj: "sorted_wrt (\<lambda>i j. \<not> intervalsOverlap (item_start i) (item_end i) (item_start j) (item_end j)) schedule"
    by (rule sorted_wrt_symmetric_mset [of _ "ss_schedule st"])
      (use inv sched in \<open>auto simp: schedule_inv_def disjoint_items_def\<close>)
  have "sorted_wrt (\<lambda>i j. item_start i \<le> item_start j) schedule"
    using js_comparator.sorted_sort_cmp [OF js_comparator_item_start] sched by simp
  with disj have "sorted_wrt (\<lambda>i j. \<not> intervalsOverlap (item_start i) (item_end i) (item_start j) (item_end j) \<and>
      item_start i \<le> item_start j) schedule"
    by (simp add: sorted_wrt_iff_nth_less)
  then have "sorted_wrt (\<lambda>i j. item_end i \<le> item_start j) schedule"
    by (rule sorted_wrt_mono_rel [rotated])
      (use ok in \<open>auto simp: list_all_iff item_ok_def minutes_def not_less\<close>)
  with ok show ?thesis by blast
qed

text \<open>The schedule stays within the weekly capacity: the time it plans, together with the time this
  plan's pending tasks already occupy in the calendar, does not exceed the capacity the user set,
  unless the calendar alone already does, and then nothing is added.\<close>

lemma schedule_within_capacity:
  assumes "buildDeterministicSevenDaySchedule lc z rq = Inr (schedule, unscheduled)"
    and "topologicalTasks (rq_tasks rq) = Inr tasks"
  shows "item_total schedule \<le> max 0 (minutes (weeklyCapacityMinutes (rq_preferences rq)) -
    already_allocated rq (map taskId (filter (\<lambda>t. jget (statusByTask rq) (taskId t) = Some pending) tasks)))"
  using assms(1)
proof (rule build_state, goal_cases)
  case (1 tasks' pendingTasks st)
  then show ?thesis using assms(2) by (simp add: schedule_inv_def item_total_sort)
qed

text \<open>C35: Dependencies come first. No item of a task starts before the last item of a task it depends
  on has ended, for every dependency that is not completed.\<close>

theorem schedule_respects_dependencies:
  assumes "buildDeterministicSevenDaySchedule lc z rq = Inr (schedule, unscheduled)"
    and "distinct (map taskId (rq_tasks rq))" and "task \<in> set (rq_tasks rq)"
    and "d \<in> set (dependencyTaskIds task)" and "d \<notin> set (completedTaskIds rq)"
    and "i \<in> set schedule" and "item_taskId i = taskId task" and "j \<in> set schedule" and "item_taskId j = d"
  shows "item_end j \<le> item_start i"
  using assms(1)
proof (rule build_state, goal_cases)
  case (1 tasks pendingTasks st)
  have items: "set schedule = set (ss_schedule st)" using 1(5) by simp
  note inv = 1(4) [unfolded tasks_inv_def]
  have "item_taskId i \<in> taskId ` set pendingTasks" using inv assms(6) items by blast
  then obtain u where u: "u \<in> set pendingTasks" "taskId u = taskId task" using assms(7) by auto
  have "set pendingTasks \<subseteq> set (rq_tasks rq)"
    using topologicalTasks_cases [of "rq_tasks rq"] 1(1,2) by auto
  then have "u = task" using u assms(2,3) by (meson eq_key_imp_eq_value inj_onD distinct_map subsetD)
  then have "task_inv (completedTaskIds rq) (plan_allocations rq (map taskId pendingTasks)) st task"
    using inv u(1) by blast
  then obtain e where "jget (ss_finalEndByTask st) d = Some e" "e \<le> item_start i"
    using assms(4-7) items unfolding task_inv_def by blast
  moreover have "item_end j \<le> e" using inv calculation(1) assms(8,9) items by blast
  ultimately show ?thesis by linarith
qed

text \<open>The time a plan's task already has in the calendar.\<close>

definition calendar_time :: "DeterministicScheduleRequest \<Rightarrow> string \<Rightarrow> int" where
  "calendar_time rq t = sum_list (map (\<lambda>e. max 0 (ev_end e - ev_start e))
     (filter (\<lambda>e. ev_planId e = Some (rq_planId rq) \<and> sourceTaskId e = Some t) (rq_busyEvents rq)))"

lemma plan_allocations_time:
  assumes "t \<in> set pendingIds"
  shows "allocated_minutes (plan_allocations rq pendingIds) t = calendar_time rq t"
proof -
  define step :: "PlanningCalendarEvent \<Rightarrow> (string, allocation) jmap \<Rightarrow> (string, allocation) jmap"
    where "step = (\<lambda>event m. case sourceTaskId event of None \<Rightarrow> m
    | Some tid \<Rightarrow> if ev_planId event \<noteq> Some (rq_planId rq) \<or> tid \<notin> set pendingIds then m
      else let current = jget m tid in jset tid
        \<lparr>alloc_minutes = (case current of None \<Rightarrow> 0 | Some a \<Rightarrow> alloc_minutes a) +
           max 0 (durationMinutes (ev_start event) (ev_end event)),
         lastEnd = (case current of
           Some a \<Rightarrow> if 0 \<le> compareInstants (lastEnd a) (ev_end event) then lastEnd a else ev_end event
         | None \<Rightarrow> ev_end event)\<rparr> m)"
  have one: "allocated_minutes (step e m) t = allocated_minutes m t +
      (if ev_planId e = Some (rq_planId rq) \<and> sourceTaskId e = Some t then max 0 (ev_end e - ev_start e) else 0)" for e m
    using assms by (auto simp: step_def allocated_minutes_def Let_def durationMinutes_def split: option.splits)
  have "allocated_minutes (fold step es m) t = allocated_minutes m t + sum_list (map (\<lambda>e. max 0 (ev_end e - ev_start e))
      (filter (\<lambda>e. ev_planId e = Some (rq_planId rq) \<and> sourceTaskId e = Some t) es))" for es m
    by (induction es arbitrary: m) (auto simp: one)
  from this [where es = "rq_busyEvents rq" and m = "[]"] show ?thesis
    by (simp add: plan_allocations_def step_def calendar_time_def allocated_minutes_def)
qed

text \<open>C36: No task is lost. Each pending task is reported as unscheduled, or the time it has in the
  calendar together with the time the schedule gives it covers its estimate; and the schedule never
  gives a task more than what the calendar leaves of its estimate.\<close>

theorem schedule_accounts_for_every_task:
  assumes "buildDeterministicSevenDaySchedule lc z rq = Inr (schedule, unscheduled)"
    and "distinct (map taskId (rq_tasks rq))" and "task \<in> set (rq_tasks rq)"
    and "jget (statusByTask rq) (taskId task) = Some pending"
  shows "(taskId task \<in> set unscheduled \<or>
      minutes (estimatedMinutes task) \<le> calendar_time rq (taskId task) + task_total (taskId task) schedule) \<and>
    task_total (taskId task) schedule \<le> max 0 (minutes (estimatedMinutes task) - calendar_time rq (taskId task))"
  using assms(1)
proof (rule build_state, goal_cases)
  case (1 tasks pendingTasks st)
  have "set tasks \<subseteq> set (rq_tasks rq)" and ids: "taskId ` set tasks = taskId ` set (rq_tasks rq)"
    using topologicalTasks_cases [of "rq_tasks rq"] 1(1) by auto
  moreover have "taskId task \<in> taskId ` set tasks" unfolding ids using assms(3) by (rule imageI)
  then obtain u where "taskId task = taskId u" "u \<in> set tasks" by (rule imageE)
  moreover have "inj_on taskId (set (rq_tasks rq))" using assms(2) by (simp add: distinct_map)
  ultimately have "task \<in> set tasks" using assms(3) by (metis inj_onD subsetD)
  then have task: "task \<in> set pendingTasks" using 1(2) assms(4) by simp
  have total: "task_total (taskId task) schedule = task_total (taskId task) (ss_schedule st)"
    unfolding task_total_def using 1(5) by (intro item_total_mset) (simp add: mset_filter)
  have "task_inv (completedTaskIds rq) (plan_allocations rq (map taskId pendingTasks)) st task"
    using 1(4) task unfolding tasks_inv_def by blast
  then show ?thesis
    using plan_allocations_time [of "taskId task" "map taskId pendingTasks" rq] task 1(6) total
    by (simp add: task_inv_def)
qed

end
