(* ===== verification/PlanningExamples.thy ===== *)
theory PlanningExamples
  imports Coalescer SchedulerCorrect
begin

text \<open>
  Concrete runs of the coalescer and of the scheduler: two samples and a tab event that repeats, and two
  dependent tasks with one busy event on a Monday morning. The properties of the two components
  are applied to them, with the definitions evaluated by the simplifier.
\<close>

subsection \<open>The coalescer\<close>









subsection \<open>The scheduler\<close>

definition sx_zone :: zone where
  "sx_zone = \<lparr>day_of_week = (\<lambda>d. d mod 7 + 1),
     local_instant = (\<lambda>d t. Some (minutes (d * 1440 + (if t = ''09:00'' then 540 else 720)))),
     local_date = (\<lambda>t. t div minutes 1440)\<rparr>"

definition sx_task :: "string \<Rightarrow> string list \<Rightarrow> RevisionTask" where
  "sx_task name deps = \<lparr>taskId = name, purpose = execution, task_title = name, estimatedMinutes = 60,
     dependencyTaskIds = deps\<rparr>"

definition sx_request :: DeterministicScheduleRequest where
  "sx_request =
     \<lparr>rq_planId = ''p'', rq_startDate = 0, rq_endDateExclusive = 7, rq_mutableStartDate = 0,
      rq_tasks = [sx_task ''b'' [''a''], sx_task ''a'' []],
      rq_taskStates = [(''a'', pending), (''b'', pending)],
      rq_preferences = \<lparr>weeklyCapacityMinutes = 600, sessionMinutes = 60,
        availableWindows = [\<lparr>dayOfWeek = 1, startTime = ''09:00'', endTime = ''12:00''\<rparr>]\<rparr>,
      rq_busyEvents = [\<lparr>ev_id = ''x'', ev_kind = manual_block, ev_start = minutes 570, ev_end = minutes 600,
        ev_planId = None, sourceTaskId = None, scheduleOrigin = by_user, userLocked = True\<rparr>],
      rq_nowMs = 0, rq_createId = (\<lambda>n. show_nat n)\<rparr>"

definition sx_item :: "nat \<Rightarrow> string \<Rightarrow> int \<Rightarrow> int \<Rightarrow> PlanScheduleItem" where
  "sx_item n name s e = \<lparr>item_id = show_nat n, item_planId = ''p'', item_taskId = name, item_title = name,
     item_start = minutes s, item_end = minutes e\<rparr>"

lemma sx_schedule: "buildDeterministicSevenDaySchedule code_unit_compare sx_zone sx_request =
    Inr ([sx_item 0 ''a'' 600 660, sx_item 1 ''b'' 660 720], [])"
  by code_simp

theorem schedule_slots_safe_witness:
  "list_all (item_ok sx_zone sx_request 0 [(minutes 570, minutes 600)]) [sx_item 0 ''a'' 600 660, sx_item 1 ''b'' 660 720]"
  using schedule_slots_safe [OF sx_schedule] by (simp add: firstMutableDate_def sx_request_def)

theorem schedule_respects_dependencies_witness:
  "item_end (sx_item 0 ''a'' 600 660) \<le> item_start (sx_item 1 ''b'' 660 720)"
  by (rule schedule_respects_dependencies [OF sx_schedule, of "sx_task ''b'' [''a'']" "''a''"])
    (simp_all add: sx_request_def sx_task_def sx_item_def completedTaskIds_def)

lemma sx_status: "jget (statusByTask sx_request) (taskId (sx_task ''b'' [''a''])) = Some pending"
  by code_simp

theorem schedule_accounts_for_every_task_witness:
  "task_total ''b'' [sx_item 0 ''a'' 600 660, sx_item 1 ''b'' 660 720] \<le>
     max 0 (minutes 60 - calendar_time sx_request ''b'')"
  using schedule_accounts_for_every_task [OF sx_schedule _ _ sx_status]
  by (simp add: sx_request_def sx_task_def)

end
