(* ===== verification/CalendarPolicy.thy ===== *)
theory CalendarPolicy
  imports Prelude
begin

text \<open>
  The calendar's rules: the contracts of \<open>src/shared/calendar.ts\<close> and the checks of
  \<open>src/bun/calendar-policy.ts\<close>. An instant is an integer of nanoseconds since the epoch, a date an
  integer of days and a wall time an integer of nanoseconds on a floating time line. The packages
  \<open>temporal-polyfill\<close> and \<open>rrule\<close> and the time zone data are the record \<open>time_library\<close>, a parameter
  of every definition that uses them: parsing an instant or a date is partial, and the conversions
  between instants and wall times are total, since the zone of a stored event was validated and
  instants outside Temporal's range of 10 to the 8 days are left out. Two schedules are compared
  by value, as \<open>JSON.stringify\<close> does when both list their fields in the order of the contract. The
  Chinese texts of messages are not carried.
\<close>

subsection \<open>Contracts\<close>

datatype CalendarEventKind = PlanKind | ManualBlockKind | ExternalKind | BreakKind

datatype CalendarEventState = ProposedState | CommittedState

datatype calendar_schedule =
    Timed string string string
  | AllDay string string

record Recurrence =
  seriesId :: string
  rrule :: string
  rec_timeZone :: string
  exceptionDates :: "string list"

record CalendarEvent =
  cal_id :: string
  cal_title :: string
  cal_kind :: CalendarEventKind
  cal_state :: CalendarEventState
  schedule :: calendar_schedule
  recurrence :: "Recurrence option"
  occurrenceId :: "string option"
  sourcePlanId :: "string option"
  editable :: bool
  cal_version :: int

datatype CalendarConflictReason =
    overlaps_manual_block | overlaps_external_event | overlaps_committed_plan
  | outside_available_hours | insufficient_duration | stale_version | stale_revision
  | recurrence_restriction | read_only_event | service_unavailable

datatype conflict_severity = WarningSeverity | ErrorSeverity

datatype conflict_action = EditAction | RetryAction | InspectAction | KeepProposedAction

record CalendarConflict =
  conflict_reason :: CalendarConflictReason
  severity :: conflict_severity
  affectedEventIds :: "string list"
  nextAction :: conflict_action

datatype RecurrenceScope = OccurrenceScope | FollowingScope | SeriesScope

datatype CalendarMutationKind = CreateMutation | UpdateMutation | DeleteMutation | RestoreMutation

record CalendarMutation =
  mutationId :: string
  mutation_kind :: CalendarMutationKind
  mutation_eventId :: string
  expectedVersion :: "int option"
  mutation_before :: "CalendarEvent option"
  mutation_after :: "CalendarEvent option"
  recurrenceScope :: "RecurrenceScope option"

datatype calendar_error =
    InvalidText | InvalidVersion | ExternalEditable | InvalidAllDayRange | InvalidTimedRange
  | InsufficientDuration | InvalidRecurrence | InvalidOccurrence | EventIdMismatch | MissingAfter
  | UnexpectedAfter | InvalidDateRange | RecurrenceTooDense | InvalidInstant | InvalidDate
  | InvalidTimeZone | RuleRejected | InvalidBatch | CalendarChanged | PaginationStalled
  | RevisionConflict | StorageRejected | PageBoundReached

subsection \<open>Time\<close>

record time_library =
  instant_from :: "string \<Rightarrow> int option"
  plain_date_from :: "string \<Rightarrow> int option"
  is_time_zone :: "string \<Rightarrow> bool"
  to_local :: "string \<Rightarrow> int \<Rightarrow> int"
  from_local :: "string \<Rightarrow> int \<Rightarrow> int"
  date_string :: "int \<Rightarrow> string"
  rule_between :: "string \<Rightarrow> int \<Rightarrow> int \<Rightarrow> int \<Rightarrow> int list option"

definition day_ns :: int where
  "day_ns = 86400 * 10 ^ 9"

definition ms_ns :: int where
  "ms_ns = 10 ^ 6"

definition boundedText :: "string \<Rightarrow> nat \<Rightarrow> calendar_error + unit" where
  "boundedText value maxLength = ensure (js_trim value \<noteq> [] \<and> length value \<le> maxLength) InvalidText"

definition is_decimal :: "char \<Rightarrow> bool" where
  "is_decimal c \<longleftrightarrow> c \<in> set ''0123456789''"

text \<open>The pattern of four, two and two digits between dashes.\<close>

definition is_date_only :: "string \<Rightarrow> bool" where
  "is_date_only value \<longleftrightarrow> length value = 10 \<and> value ! 4 = CHR ''-'' \<and> value ! 7 = CHR ''-'' \<and>
     list_all is_decimal (take 4 value) \<and> list_all is_decimal (take 2 (drop 5 value)) \<and>
     list_all is_decimal (drop 8 value)"

definition parseInstant :: "time_library \<Rightarrow> string \<Rightarrow> calendar_error + int" where
  "parseInstant T value = (case instant_from T value of None \<Rightarrow> Inl InvalidInstant | Some t \<Rightarrow> Inr t)"

definition parseDate :: "time_library \<Rightarrow> string \<Rightarrow> calendar_error + int" where
  "parseDate T value =
     (if \<not> is_date_only value then Inl InvalidDate
      else case plain_date_from T value of None \<Rightarrow> Inl InvalidDate | Some d \<Rightarrow> Inr d)"

definition parseRecurrenceException :: "time_library \<Rightarrow> string \<Rightarrow> calendar_error + unit" where
  "parseRecurrenceException T value =
     (if is_date_only value then bindE (parseDate T value) (\<lambda>_. Inr ())
      else bindE (parseInstant T value) (\<lambda>_. Inr ()))"

definition assertTimeZone :: "time_library \<Rightarrow> string \<Rightarrow> calendar_error + unit" where
  "assertTimeZone T value = bindE (boundedText value 128) (\<lambda>_. ensure (is_time_zone T value) InvalidTimeZone)"

subsection \<open>Validation of an event\<close>

fun split_on :: "char \<Rightarrow> string \<Rightarrow> string list" where
  "split_on sep [] = [[]]"
| "split_on sep (c # cs) =
     (if c = sep then [] # split_on sep cs
      else case split_on sep cs of [] \<Rightarrow> [[c]] | l # ls \<Rightarrow> (c # l) # ls)"

definition upper :: "char \<Rightarrow> char" where
  "upper c = (let n = (of_char c :: nat) in if 97 \<le> n \<and> n \<le> 122 then char_of (n - 32) else c)"

text \<open>\<open>rrule.replace(/^RRULE:/i, "")\<close>.\<close>

definition strip_rrule :: "string \<Rightarrow> string" where
  "strip_rrule s = (if map upper (take 6 s) = ''RRULE:'' then drop 6 s else s)"

definition has_frequency :: "string \<Rightarrow> bool" where
  "has_frequency s \<longleftrightarrow> list_ex (\<lambda>part. map upper part \<in>
     {''FREQ=DAILY'', ''FREQ=WEEKLY'', ''FREQ=MONTHLY'', ''FREQ=YEARLY''}) (split_on (CHR '';'') s)"

fun check_all :: "('a \<Rightarrow> 'e + unit) \<Rightarrow> 'a list \<Rightarrow> 'e + unit" where
  "check_all f [] = Inr ()"
| "check_all f (x # xs) = bindE (f x) (\<lambda>_. check_all f xs)"

definition validateSchedule :: "time_library \<Rightarrow> calendar_schedule \<Rightarrow> calendar_error + unit" where
  "validateSchedule T s =
     (case s of
        AllDay startDate endDate \<Rightarrow>
          bindE (parseDate T startDate) (\<lambda>start.
          bindE (parseDate T endDate) (\<lambda>end.
          ensure (start < end) InvalidAllDayRange))
      | Timed startText endText zone \<Rightarrow>
          bindE (assertTimeZone T zone) (\<lambda>_.
          bindE (parseInstant T startText) (\<lambda>start.
          bindE (parseInstant T endText) (\<lambda>end.
          bindE (ensure (start < end) InvalidTimedRange) (\<lambda>_.
          ensure (15 * 60 * 10 ^ 9 \<le> end - start) InsufficientDuration)))))"

definition is_all_day :: "CalendarEvent \<Rightarrow> bool" where
  "is_all_day event = (case schedule event of AllDay _ _ \<Rightarrow> True | Timed _ _ _ \<Rightarrow> False)"

definition validateRecurrence :: "time_library \<Rightarrow> CalendarEvent \<Rightarrow> calendar_error + unit" where
  "validateRecurrence T event =
     (case recurrence event of
        Some rec \<Rightarrow>
          bindE (boundedText (seriesId rec) 256) (\<lambda>_.
          bindE (boundedText (rrule rec) 4096) (\<lambda>_.
          bindE (assertTimeZone T (rec_timeZone rec)) (\<lambda>_.
          bindE (ensure (has_frequency (strip_rrule (rrule rec))) InvalidRecurrence) (\<lambda>_.
          bindE (ensure (length (exceptionDates rec) \<le> 2000) InvalidRecurrence) (\<lambda>_.
          check_all (\<lambda>date. if is_all_day event then bindE (parseDate T date) (\<lambda>_. Inr ())
            else parseRecurrenceException T date) (exceptionDates rec))))))
      | None \<Rightarrow>
          (case occurrenceId event of
             None \<Rightarrow> Inr ()
           | Some oc \<Rightarrow> ensure (oc = []) InvalidOccurrence))"

definition validateCalendarEvent :: "time_library \<Rightarrow> CalendarEvent \<Rightarrow> calendar_error + unit" where
  "validateCalendarEvent T event =
     bindE (boundedText (cal_id event) 256) (\<lambda>_.
     bindE (boundedText (cal_title event) 512) (\<lambda>_.
     bindE (ensure (\<bar>cal_version event\<bar> \<le> MAX_SAFE_INTEGER \<and> 0 \<le> cal_version event) InvalidVersion) (\<lambda>_.
     bindE (ensure (\<not> (cal_kind event = ExternalKind \<and> editable event)) ExternalEditable) (\<lambda>_.
     bindE (validateSchedule T (schedule event)) (\<lambda>_.
     validateRecurrence T event)))))"

subsection \<open>Validation of a mutation\<close>

definition staleConflict :: "string \<Rightarrow> CalendarConflict" where
  "staleConflict eventId = \<lparr>conflict_reason = stale_version, severity = ErrorSeverity,
     affectedEventIds = [eventId], nextAction = RetryAction\<rparr>"

definition recurrenceConflict :: "string \<Rightarrow> CalendarConflict" where
  "recurrenceConflict eventId = \<lparr>conflict_reason = recurrence_restriction, severity = ErrorSeverity,
     affectedEventIds = [eventId], nextAction = EditAction\<rparr>"

definition readOnlyConflict :: "string \<Rightarrow> CalendarConflict" where
  "readOnlyConflict eventId = \<lparr>conflict_reason = read_only_event, severity = ErrorSeverity,
     affectedEventIds = [eventId], nextAction = InspectAction\<rparr>"

definition isOccurrenceExceptionUpdate :: "CalendarEvent \<Rightarrow> CalendarEvent \<Rightarrow> bool" where
  "isOccurrenceExceptionUpdate current after =
     (case (recurrence current, recurrence after) of
        (Some rc, Some ra) \<Rightarrow>
          if cal_id after \<noteq> cal_id current \<or> cal_title after \<noteq> cal_title current \<or>
             cal_kind after \<noteq> cal_kind current \<or> cal_state after \<noteq> cal_state current \<or>
             occurrenceId after \<noteq> occurrenceId current \<or> sourcePlanId after \<noteq> sourcePlanId current \<or>
             editable after \<noteq> editable current \<or> cal_version after \<noteq> cal_version current \<or>
             schedule after \<noteq> schedule current \<or> seriesId ra \<noteq> seriesId rc \<or> rrule ra \<noteq> rrule rc \<or>
             rec_timeZone ra \<noteq> rec_timeZone rc
          then False
          else
            let before = js_unique (exceptionDates rc); nextSet = js_unique (exceptionDates ra)
            in length before < length nextSet \<and> list_all (\<lambda>x. x \<in> set nextSet) before
      | _ \<Rightarrow> False)"

text \<open>The recurrence rules of an update, a deletion or a restoration.\<close>

definition scopeConflict :: "CalendarMutation \<Rightarrow> CalendarEvent \<Rightarrow> CalendarConflict option" where
  "scopeConflict m current =
     (case recurrence current of
        None \<Rightarrow> None
      | Some rc \<Rightarrow>
          if recurrenceScope m = None then Some (recurrenceConflict (cal_id current))
          else if recurrenceScope m = Some FollowingScope then Some (recurrenceConflict (cal_id current))
          else if occurrenceId current = None then
            (if recurrenceScope m = Some OccurrenceScope \<and>
                (mutation_kind m \<noteq> UpdateMutation \<or>
                 (case mutation_after m of None \<Rightarrow> True
                  | Some after \<Rightarrow> \<not> isOccurrenceExceptionUpdate current after))
             then Some (recurrenceConflict (cal_id current))
             else if recurrenceScope m = Some SeriesScope \<and>
                (case mutation_after m of None \<Rightarrow> False
                 | Some after \<Rightarrow> (case recurrence after of None \<Rightarrow> False
                   | Some ra \<Rightarrow> occurrenceId after \<noteq> None \<or> seriesId ra \<noteq> seriesId rc))
             then Some (recurrenceConflict (cal_id current))
             else None)
          else if recurrenceScope m = Some SeriesScope then Some (recurrenceConflict (cal_id current))
          else None)"

definition validateCalendarMutation ::
  "time_library \<Rightarrow> CalendarMutation \<Rightarrow> CalendarEvent option \<Rightarrow> calendar_error + CalendarConflict option" where
  "validateCalendarMutation T m current =
     bindE (boundedText (mutationId m) 256) (\<lambda>_.
     bindE (boundedText (mutation_eventId m) 256) (\<lambda>_.
     bindE (case mutation_after m of
              None \<Rightarrow> Inr ()
            | Some after \<Rightarrow> bindE (validateCalendarEvent T after) (\<lambda>_.
                ensure (cal_id after = mutation_eventId m) EventIdMismatch)) (\<lambda>_.
     if mutation_kind m = CreateMutation
     then Inr (if current \<noteq> None \<or> expectedVersion m \<noteq> None \<or> mutation_after m = None
               then Some (staleConflict (mutation_eventId m)) else None)
     else case current of
       None \<Rightarrow> Inr (Some (staleConflict (mutation_eventId m)))
     | Some cur \<Rightarrow>
         if expectedVersion m \<noteq> Some (cal_version cur) then Inr (Some (staleConflict (mutation_eventId m)))
         else if cal_kind cur = ExternalKind \<or> \<not> editable cur then Inr (Some (readOnlyConflict (cal_id cur)))
         else case scopeConflict m cur of
           Some conflict \<Rightarrow> Inr (Some conflict)
         | None \<Rightarrow>
             if mutation_kind m = UpdateMutation \<and> mutation_after m = None then Inl MissingAfter
             else if mutation_kind m = DeleteMutation \<and> mutation_after m \<noteq> None then Inl UnexpectedAfter
             else Inr None)))"

definition validateOccurrenceOverride ::
  "time_library \<Rightarrow> CalendarEvent \<Rightarrow> CalendarEvent list \<Rightarrow> CalendarConflict option" where
  "validateOccurrenceOverride T candidate existing =
     (case occurrenceId candidate of
        None \<Rightarrow> None
      | Some oc \<Rightarrow>
          if oc = [] then None
          else case recurrence candidate of
            None \<Rightarrow> Some (recurrenceConflict (cal_id candidate))
          | Some rec \<Rightarrow>
              let pre = seriesId rec @ '':''
              in if \<not> js_startsWith oc pre then Some (recurrenceConflict (cal_id candidate))
                 else
                   let anchor = drop (length pre) oc;
                       series = filter (\<lambda>e. cal_id e \<noteq> cal_id candidate \<and>
                         map_option seriesId (recurrence e) = Some (seriesId rec) \<and> occurrenceId e = None) existing
                   in case parseRecurrenceException T anchor of
                        Inl _ \<Rightarrow> Some (recurrenceConflict (cal_id candidate))
                      | Inr _ \<Rightarrow>
                          (case series of
                             [only] \<Rightarrow>
                               (case recurrence only of
                                  Some ro \<Rightarrow> if anchor \<in> set (exceptionDates ro) then None
                                    else Some (recurrenceConflict (cal_id candidate))
                                | None \<Rightarrow> Some (recurrenceConflict (cal_id candidate)))
                           | _ \<Rightarrow> Some (recurrenceConflict (cal_id candidate))))"

subsection \<open>Occurrences\<close>

definition str_less :: "string \<Rightarrow> string \<Rightarrow> bool" where
  "str_less a b \<longleftrightarrow> code_unit_compare a b < 0"

definition eventTimeZone :: "CalendarEvent \<Rightarrow> string option" where
  "eventTimeZone event =
     (case schedule event of
        Timed _ _ zone \<Rightarrow> Some zone
      | AllDay _ _ \<Rightarrow> map_option rec_timeZone (recurrence event))"

definition midnight :: "time_library \<Rightarrow> string \<Rightarrow> int \<Rightarrow> int" where
  "midnight T zone date = from_local T zone (date * day_ns)"

definition eventDateRange :: "time_library \<Rightarrow> CalendarEvent \<Rightarrow> string \<Rightarrow> calendar_error + string \<times> string" where
  "eventDateRange T event zone =
     (case schedule event of
        AllDay startDate endDate \<Rightarrow> Inr (startDate, endDate)
      | Timed startText endText _ \<Rightarrow>
          bindE (parseInstant T startText) (\<lambda>start.
          bindE (parseInstant T endText) (\<lambda>end.
          Inr (date_string T (to_local T zone start div day_ns),
               date_string T (to_local T zone (end - 1) div day_ns + 1)))))"

definition eventInstantRange :: "time_library \<Rightarrow> CalendarEvent \<Rightarrow> string \<Rightarrow> calendar_error + int \<times> int" where
  "eventInstantRange T event allDayTimeZone =
     (case schedule event of
        Timed startText endText _ \<Rightarrow>
          bindE (parseInstant T startText) (\<lambda>start.
          bindE (parseInstant T endText) (\<lambda>end. Inr (start, end)))
      | AllDay startDate endDate \<Rightarrow>
          bindE (parseDate T startDate) (\<lambda>start.
          bindE (parseDate T endDate) (\<lambda>end.
          Inr (midnight T allDayTimeZone start, midnight T allDayTimeZone end))))"

definition eventLocalStart :: "time_library \<Rightarrow> CalendarEvent \<Rightarrow> string \<Rightarrow> calendar_error + int" where
  "eventLocalStart T event zone =
     (case schedule event of
        AllDay startDate _ \<Rightarrow> bindE (parseDate T startDate) (\<lambda>d. Inr (d * day_ns))
      | Timed startText _ _ \<Rightarrow> bindE (parseInstant T startText) (\<lambda>t. Inr (to_local T zone t)))"

text \<open>The pair of days and milliseconds; \<open>epochMilliseconds\<close> rounds down.\<close>

definition recurrenceDuration :: "time_library \<Rightarrow> CalendarEvent \<Rightarrow> calendar_error + int \<times> int" where
  "recurrenceDuration T event =
     (case schedule event of
        AllDay startDate endDate \<Rightarrow>
          bindE (parseDate T startDate) (\<lambda>start. bindE (parseDate T endDate) (\<lambda>end. Inr (end - start, 0)))
      | Timed startText endText _ \<Rightarrow>
          bindE (parseInstant T endText) (\<lambda>end.
          bindE (parseInstant T startText) (\<lambda>start. Inr (0, end div ms_ns - start div ms_ns))))"

text \<open>A \<open>Date\<close> on the floating time line counts milliseconds.\<close>

definition floatingDate :: "int \<Rightarrow> int" where
  "floatingDate local = local div ms_ns"

definition floatingPlainDateTime :: "int \<Rightarrow> int" where
  "floatingPlainDateTime date = date * ms_ns"

definition isException :: "time_library \<Rightarrow> string list \<Rightarrow> int \<Rightarrow> int \<Rightarrow> bool" where
  "isException T exceptions localDate start =
     list_ex (\<lambda>ex. if is_date_only ex then ex = date_string T localDate else instant_from T ex = Some start) exceptions"

definition instantRangesOverlap :: "int \<times> int \<Rightarrow> int \<times> int \<Rightarrow> bool" where
  "instantRangesOverlap l r \<longleftrightarrow> fst l < snd r \<and> fst r < snd l"

text \<open>The instants of one occurrence, and nothing for an excluded one.\<close>

definition occurrence_range ::
  "time_library \<Rightarrow> CalendarEvent \<Rightarrow> Recurrence \<Rightarrow> int \<times> int \<Rightarrow> int \<Rightarrow> (int \<times> int) option" where
  "occurrence_range T event rec duration occurrence =
     (let local = floatingPlainDateTime occurrence; zone = rec_timeZone rec;
          start = from_local T zone local
      in if isException T (exceptionDates rec) (local div day_ns) start then None
         else Some (start, if is_all_day event then midnight T zone (local div day_ns + fst duration)
                           else start + snd duration * ms_ns))"

definition recurrenceIntervals ::
  "time_library \<Rightarrow> CalendarEvent \<Rightarrow> int \<Rightarrow> int \<Rightarrow> calendar_error + (int \<times> int) list" where
  "recurrenceIntervals T event queryStart queryEnd =
     (case recurrence event of
        None \<Rightarrow>
          bindE (eventInstantRange T event (case eventTimeZone event of None \<Rightarrow> ''UTC'' | Some z \<Rightarrow> z)) (\<lambda>range.
          Inr [range])
      | Some rec \<Rightarrow>
          bindE (eventLocalStart T event (rec_timeZone rec)) (\<lambda>base.
          bindE (recurrenceDuration T event) (\<lambda>duration.
          let queryStartLocal = to_local T (rec_timeZone rec) queryStart;
              queryEndLocal = to_local T (rec_timeZone rec) queryEnd;
              lowerLocal = min queryStartLocal queryEndLocal;
              upperLocal = max queryStartLocal queryEndLocal;
              recurrenceQueryStart =
                (if is_all_day event then lowerLocal - (fst duration + 1) * day_ns
                 else lowerLocal - snd duration * ms_ns - day_ns);
              recurrenceQueryEnd = upperLocal + day_ns
          in case rule_between T (strip_rrule (rrule rec)) (floatingDate base)
                    (floatingDate recurrenceQueryStart) (floatingDate recurrenceQueryEnd) of
               None \<Rightarrow> Inl RuleRejected
             | Some occurrences \<Rightarrow>
                 if length occurrences > 4096 then Inl RecurrenceTooDense
                 else Inr (List.map_filter (occurrence_range T event rec duration) occurrences))))"

subsection \<open>Overlap\<close>

definition recurringEventOverlaps ::
  "time_library \<Rightarrow> CalendarEvent \<Rightarrow> string \<Rightarrow> CalendarEvent \<Rightarrow> calendar_error + bool" where
  "recurringEventOverlaps T series zone candidate =
     bindE (eventInstantRange T candidate zone) (\<lambda>candidateRange.
     bindE (recurrenceIntervals T series (fst candidateRange) (snd candidateRange)) (\<lambda>intervals.
     Inr (list_ex (\<lambda>interval. instantRangesOverlap interval candidateRange) intervals)))"

definition recurringSeriesOverlap ::
  "time_library \<Rightarrow> CalendarEvent \<Rightarrow> string \<Rightarrow> CalendarEvent \<Rightarrow> string \<Rightarrow> calendar_error + bool" where
  "recurringSeriesOverlap T left leftZone right rightZone =
     bindE (eventInstantRange T left leftZone) (\<lambda>leftBase.
     bindE (eventInstantRange T right rightZone) (\<lambda>rightBase.
     let start = (if fst leftBase \<le> fst rightBase then fst leftBase else fst rightBase);
         end = start + 24 * 366 * 3600 * 10 ^ 9
     in bindE (recurrenceIntervals T left start end) (\<lambda>leftIntervals.
        bindE (recurrenceIntervals T right start end) (\<lambda>rightIntervals.
        Inr (list_ex (\<lambda>l. list_ex (\<lambda>r. instantRangesOverlap l r) rightIntervals) leftIntervals)))))"

definition eventsOverlap :: "time_library \<Rightarrow> CalendarEvent \<Rightarrow> CalendarEvent \<Rightarrow> calendar_error + bool" where
  "eventsOverlap T left right =
     (case (recurrence left, recurrence right) of
        (Some lrec, None) \<Rightarrow> recurringEventOverlaps T left (rec_timeZone lrec) right
      | (None, Some rrec) \<Rightarrow> recurringEventOverlaps T right (rec_timeZone rrec) left
      | (Some lrec, Some rrec) \<Rightarrow> recurringSeriesOverlap T left (rec_timeZone lrec) right (rec_timeZone rrec)
      | (None, None) \<Rightarrow>
          (case (schedule left, schedule right) of
             (Timed ls le _, Timed rs re _) \<Rightarrow>
               bindE (parseInstant T ls) (\<lambda>lstart.
               bindE (parseInstant T re) (\<lambda>rend.
               if lstart < rend
               then bindE (parseInstant T rs) (\<lambda>rstart. bindE (parseInstant T le) (\<lambda>lend. Inr (rstart < lend)))
               else Inr False))
           | _ \<Rightarrow>
               let zone = (case eventTimeZone left of Some z \<Rightarrow> z
                           | None \<Rightarrow> (case eventTimeZone right of Some z \<Rightarrow> z | None \<Rightarrow> ''UTC''))
               in bindE (eventDateRange T left zone) (\<lambda>leftRange.
                  bindE (eventDateRange T right zone) (\<lambda>rightRange.
                  Inr (str_less (fst leftRange) (snd rightRange) \<and> str_less (fst rightRange) (snd leftRange))))))"

definition eventOccursInDateRange ::
  "time_library \<Rightarrow> CalendarEvent \<Rightarrow> string \<Rightarrow> string \<Rightarrow> string \<Rightarrow> calendar_error + bool" where
  "eventOccursInDateRange T event fromDate toDateExclusive defaultTimeZone =
     bindE (parseDate T fromDate) (\<lambda>from.
     bindE (parseDate T toDateExclusive) (\<lambda>to.
     bindE (ensure (from < to) InvalidDateRange) (\<lambda>_.
     case recurrence event of
       None \<Rightarrow>
         bindE (eventDateRange T event defaultTimeZone) (\<lambda>range.
         Inr (str_less (fst range) toDateExclusive \<and> str_less fromDate (snd range)))
     | Some rec \<Rightarrow>
         let queryStart = midnight T (rec_timeZone rec) from; queryEnd = midnight T (rec_timeZone rec) to
         in bindE (recurrenceIntervals T event queryStart queryEnd) (\<lambda>intervals.
            Inr (list_ex (\<lambda>interval. instantRangesOverlap interval (queryStart, queryEnd)) intervals)))))"

subsection \<open>Conflicts with the calendar\<close>

text \<open>\<open>Array.filter\<close> with a predicate that may throw.\<close>

fun filterE :: "('a \<Rightarrow> 'e + bool) \<Rightarrow> 'a list \<Rightarrow> 'e + 'a list" where
  "filterE f [] = Inr []"
| "filterE f (x # xs) = bindE (f x) (\<lambda>b. bindE (filterE f xs) (\<lambda>ys. Inr (if b then x # ys else ys)))"

definition overlapConflict :: "CalendarConflictReason \<Rightarrow> CalendarEvent list \<Rightarrow> conflict_severity \<Rightarrow> CalendarConflict" where
  "overlapConflict reason events sev = \<lparr>conflict_reason = reason, severity = sev,
     affectedEventIds = map cal_id events,
     nextAction = (if sev = WarningSeverity then KeepProposedAction else InspectAction)\<rparr>"

definition detectAuthoritativeConflict ::
  "time_library \<Rightarrow> CalendarEvent \<Rightarrow> CalendarEvent list \<Rightarrow> calendar_error + CalendarConflict option" where
  "detectAuthoritativeConflict T candidate existing =
     bindE (filterE (\<lambda>event. if cal_id event \<noteq> cal_id candidate then eventsOverlap T candidate event
       else Inr False) existing) (\<lambda>overlaps.
     let manual = filter (\<lambda>event. cal_kind event = ManualBlockKind) overlaps;
         external = filter (\<lambda>event. cal_kind event = ExternalKind) overlaps;
         committed = filter (\<lambda>event. cal_kind event = PlanKind \<and> cal_state event = CommittedState) overlaps
     in Inr (
       if manual \<noteq> [] then Some (overlapConflict overlaps_manual_block manual ErrorSeverity)
       else if external \<noteq> [] then Some (overlapConflict overlaps_external_event external ErrorSeverity)
       else if committed \<noteq> [] then Some (overlapConflict overlaps_committed_plan committed
         (if cal_state candidate = CommittedState then ErrorSeverity else WarningSeverity))
       else None))"

subsection \<open>Properties of the overlap test\<close>

lemma filterE_Inr:
  "filterE f xs = Inr ys \<Longrightarrow> ys = filter (\<lambda>x. f x = Inr True) xs \<and> (\<forall>x\<in>set xs. \<exists>b. f x = Inr b)"
  by (induction xs arbitrary: ys) (auto simp: bindE_eq_Inr_iff split: if_splits)

lemma instantRangesOverlap_sym: "instantRangesOverlap l r \<longleftrightarrow> instantRangesOverlap r l"
  by (auto simp: instantRangesOverlap_def)

lemma list_ex_ranges_sym:
  "list_ex (\<lambda>l. list_ex (\<lambda>r. instantRangesOverlap l r) rs) ls \<longleftrightarrow>
   list_ex (\<lambda>r. list_ex (\<lambda>l. instantRangesOverlap r l) ls) rs"
  unfolding list_ex_iff using instantRangesOverlap_sym by blast

lemma if_min: "(if a \<le> b then a else b) = min a (b::int)"
  by simp

lemma recurringSeriesOverlap_sym:
  assumes "recurringSeriesOverlap T a za b zb = Inr x"
  shows "recurringSeriesOverlap T b zb a za = Inr x"
proof -
  from assms obtain ra rb ias ibs where base: "eventInstantRange T a za = Inr ra" "eventInstantRange T b zb = Inr rb"
    and ints: "recurrenceIntervals T a (min (fst ra) (fst rb)) (min (fst ra) (fst rb) + 24 * 366 * 3600 * 10 ^ 9) = Inr ias"
      "recurrenceIntervals T b (min (fst ra) (fst rb)) (min (fst ra) (fst rb) + 24 * 366 * 3600 * 10 ^ 9) = Inr ibs"
    and x: "x = list_ex (\<lambda>l. list_ex (\<lambda>r. instantRangesOverlap l r) ibs) ias"
    unfolding recurringSeriesOverlap_def Let_def if_min bindE_eq_Inr_iff by blast
  show ?thesis unfolding recurringSeriesOverlap_def Let_def if_min x
    using base ints [unfolded min.commute [of "fst ra"]] list_ex_ranges_sym [of ibs ias] by simp
qed

text \<open>The test reports an overlap whichever way round it is asked.\<close>

lemma eventsOverlap_sym:
  assumes "eventsOverlap T a b = Inr True"
  shows "eventsOverlap T b a = Inr True"
proof (cases "recurrence a = None \<and> recurrence b = None")
  case True
  then show ?thesis using assms
    by (auto simp: eventsOverlap_def bindE_eq_Inr_iff Let_def eventTimeZone_def
        split: calendar_schedule.splits option.splits if_splits)
next
  case False
  then show ?thesis using assms
    by (auto simp: eventsOverlap_def intro: recurringSeriesOverlap_sym split: option.splits)
qed

text \<open>Two timed events that do not recur overlap exactly when they share an instant.\<close>

definition occupies :: "time_library \<Rightarrow> CalendarEvent \<Rightarrow> int \<Rightarrow> bool" where
  "occupies T event t =
     (case schedule event of
        Timed startText endText _ \<Rightarrow>
          (case (instant_from T startText, instant_from T endText) of
             (Some start, Some end) \<Rightarrow> start \<le> t \<and> t < end
           | _ \<Rightarrow> False)
      | AllDay _ _ \<Rightarrow> False)"

lemma parseInstant_iff: "parseInstant T s = Inr t \<longleftrightarrow> instant_from T s = Some t"
  by (simp add: parseInstant_def split: option.splits)

lemma valid_timed_range:
  assumes "validateCalendarEvent T e = Inr ()" and "schedule e = Timed s f z"
  obtains b e' where "instant_from T s = Some b" and "instant_from T f = Some e'" and "b < e'"
  using assms by (auto simp: validateCalendarEvent_def validateSchedule_def bindE_eq_Inr_iff parseInstant_iff)

subsection \<open>Events that exclude each other\<close>

text \<open>
  Two manual blocks or external events never overlap, and neither do two committed events other
  than breaks. A proposal may overlap a committed plan, with a warning.
\<close>

definition blocks :: "CalendarEvent \<Rightarrow> bool" where
  "blocks e \<longleftrightarrow> cal_kind e = ManualBlockKind \<or> cal_kind e = ExternalKind"

definition exclusive :: "CalendarEvent \<Rightarrow> CalendarEvent \<Rightarrow> bool" where
  "exclusive e f \<longleftrightarrow> blocks e \<and> blocks f \<or>
     cal_kind e \<noteq> BreakKind \<and> cal_kind f \<noteq> BreakKind \<and> cal_state e = CommittedState \<and> cal_state f = CommittedState"

lemma exclusive_sym: "exclusive e f \<longleftrightarrow> exclusive f e"
  by (auto simp: exclusive_def)

lemma detect_exclusive:
  assumes "detectAuthoritativeConflict T c es = Inr res" and "e \<in> set es" and "cal_id e \<noteq> cal_id c"
    and "exclusive c e" and "eventsOverlap T c e = Inr True"
  shows "\<exists>conflict. res = Some conflict \<and> severity conflict = ErrorSeverity"
  using assms
  by (cases "cal_kind e")
    (auto simp: detectAuthoritativeConflict_def bindE_eq_Inr_iff Let_def overlapConflict_def exclusive_def blocks_def
      filter_empty_conv dest!: filterE_Inr)

end
