(* ===== verification/CalendarStorage.thy ===== *)
theory CalendarStorage
  imports CalendarPolicy
begin

text \<open>
  The calendar tables of \<open>src/bun/encrypted-agent-repository.ts\<close>: the operations of the
  \<open>CalendarStorage\<close> interface and the other two writers of single rows, each as one
  transaction on the database. (A fourth writer, \<open>commitCalendarAndPlanningAuthority\<close>, is left
  out: it makes the checks and changes of \<open>commitCalendarBatch\<close> on these tables, and writes the planning
  record in the same transaction.) Rows hold the event itself: encrypting a cell on the way in and
  decrypting it on the way out are not modelled, nor are the key store and the deletion of an
  account. The coarse date range of a timed event comes from \<open>Intl\<close> and is the parameter
  \<open>zoned\<close>. Between two operations of one client the other clients may write: the state of the
  world holds what they do at each such point.
\<close>

subsection \<open>Rows and records\<close>

record AgentCalendarEventRecord =
  rec_accountId :: string
  rec_event :: CalendarEvent
  rec_updatedAtMs :: int

record CalendarBatchCommit =
  expectedRevision :: int
  upserts :: "AgentCalendarEventRecord list"
  deletes :: "string list"

record calendar_row =
  start_date :: string
  end_date_exclusive :: string
  row_record :: AgentCalendarEventRecord

record calendar_db =
  calendar_revisions :: "(string, int) jmap"
  calendar_events :: "(string \<times> string, calendar_row) jmap"

abbreviation record_id :: "AgentCalendarEventRecord \<Rightarrow> string" where
  "record_id r \<equiv> cal_id (rec_event r)"

subsection \<open>Validation\<close>

definition is_control :: "char \<Rightarrow> bool" where
  "is_control c \<longleftrightarrow> (let n = (of_char c :: nat) in n < 32 \<or> 127 \<le> n \<and> n < 160)"

definition validateIdentifier :: "string \<Rightarrow> calendar_error + unit" where
  "validateIdentifier value =
     ensure (1 \<le> length value \<and> length value \<le> 256 \<and> \<not> list_ex is_control value) StorageRejected"

definition validateText :: "string \<Rightarrow> calendar_error + unit" where
  "validateText value = ensure (1 \<le> length value \<and> int (length value) \<le> 1000000) StorageRejected"

definition validateTimestamp :: "int \<Rightarrow> calendar_error + unit" where
  "validateTimestamp value = ensure (value \<le> MAX_SAFE_INTEGER \<and> 0 \<le> value) StorageRejected"

definition validateRevision :: "int \<Rightarrow> calendar_error + unit" where
  "validateRevision value = ensure (value \<le> MAX_SAFE_INTEGER \<and> 0 \<le> value) StorageRejected"

definition MAX_LIST_LIMIT :: nat where
  "MAX_LIST_LIMIT = 1000"

definition validateLimit :: "nat \<Rightarrow> calendar_error + unit" where
  "validateLimit limit = ensure (1 \<le> limit \<and> limit \<le> MAX_LIST_LIMIT) StorageRejected"

definition decimal_value :: "string \<Rightarrow> nat" where
  "decimal_value s = base_value 10 0 s"

definition days_in_month :: "nat \<Rightarrow> nat \<Rightarrow> nat" where
  "days_in_month y m =
     (if m = 2 then (if y mod 4 = 0 \<and> (y mod 100 \<noteq> 0 \<or> y mod 400 = 0) then 29 else 28)
      else if m \<in> {4, 6, 9, 11} then 30 else 31)"

text \<open>
  Rebuilding the date with \<open>Date.UTC\<close> gives the text back exactly for a month from 1 to 12, a day
  of that month and a year from 100, since \<open>Date.UTC\<close> moves smaller years to the 20th century.
\<close>

definition validateDateOnly :: "string \<Rightarrow> calendar_error + unit" where
  "validateDateOnly value =
     bindE (ensure (is_date_only value) StorageRejected) (\<lambda>_.
     let y = decimal_value (take 4 value); m = decimal_value (take 2 (drop 5 value)); d = decimal_value (drop 8 value)
     in ensure (100 \<le> y \<and> 1 \<le> m \<and> m \<le> 12 \<and> 1 \<le> d \<and> d \<le> days_in_month y m) StorageRejected)"

type_synonym zoned_range = "string \<Rightarrow> string \<Rightarrow> string \<Rightarrow> (string \<times> string) option"

definition calendarDateRange :: "zoned_range \<Rightarrow> CalendarEvent \<Rightarrow> calendar_error + string \<times> string" where
  "calendarDateRange zoned event =
     (case schedule event of
        AllDay startDate endDate \<Rightarrow>
          bindE (validateDateOnly startDate) (\<lambda>_.
          bindE (validateDateOnly endDate) (\<lambda>_. Inr (startDate, endDate)))
      | Timed startText endText zone \<Rightarrow>
          (case zoned startText endText zone of None \<Rightarrow> Inl StorageRejected | Some dates \<Rightarrow> Inr dates))"

definition validateCalendarRecord :: "zoned_range \<Rightarrow> AgentCalendarEventRecord \<Rightarrow> calendar_error + unit" where
  "validateCalendarRecord zoned r =
     bindE (validateIdentifier (rec_accountId r)) (\<lambda>_.
     bindE (validateIdentifier (record_id r)) (\<lambda>_.
     bindE (validateText (cal_title (rec_event r))) (\<lambda>_.
     bindE (validateTimestamp (rec_updatedAtMs r)) (\<lambda>_.
     bindE (calendarDateRange zoned (rec_event r)) (\<lambda>range.
     ensure (str_less (fst range) (snd range)) StorageRejected)))))"

definition prepareCalendarEvent :: "zoned_range \<Rightarrow> AgentCalendarEventRecord \<Rightarrow> calendar_error + calendar_row" where
  "prepareCalendarEvent zoned r =
     bindE (calendarDateRange zoned (rec_event r)) (\<lambda>range.
     Inr \<lparr>start_date = fst range, end_date_exclusive = snd range, row_record = r\<rparr>)"

subsection \<open>Reading\<close>

text \<open>The first use of an account creates its revision row.\<close>

definition accountContext :: "string \<Rightarrow> calendar_db \<Rightarrow> calendar_db" where
  "accountContext accountId db =
     (case jget (calendar_revisions db) accountId of
        Some _ \<Rightarrow> db
      | None \<Rightarrow> db\<lparr>calendar_revisions := jset accountId 0 (calendar_revisions db)\<rparr>)"

definition readCalendarRevision :: "string \<Rightarrow> calendar_db \<Rightarrow> calendar_error + int" where
  "readCalendarRevision accountId db =
     (case jget (calendar_revisions db) accountId of None \<Rightarrow> Inl StorageRejected | Some r \<Rightarrow> Inr r)"

definition getCalendarRevision :: "string \<Rightarrow> (calendar_db, calendar_error, int) comp" where
  "getCalendarRevision accountId db =
     (case validateIdentifier accountId of
        Inl e \<Rightarrow> (Inl e, db)
      | Inr _ \<Rightarrow> let opened = accountContext accountId db in (readCalendarRevision accountId opened, opened))"

definition row_order :: "calendar_row \<Rightarrow> calendar_row \<Rightarrow> int" where
  "row_order = or_else_cmp (\<lambda>a b. code_unit_compare (start_date a) (start_date b))
     (\<lambda>a b. code_unit_compare (record_id (row_record a)) (record_id (row_record b)))"

definition select_rows :: "string \<Rightarrow> string option \<Rightarrow> string option \<Rightarrow> calendar_db \<Rightarrow> calendar_row list" where
  "select_rows accountId from to db =
     js_sort row_order (map snd (filter (\<lambda>(k, row). fst k = accountId \<and>
       (case from of None \<Rightarrow> True | Some f \<Rightarrow> str_less f (end_date_exclusive row)) \<and>
       (case to of None \<Rightarrow> True | Some t \<Rightarrow> str_less (start_date row) t)) (calendar_events db)))"

record CalendarEventListOptions =
  opt_from :: "string option"
  opt_to :: "string option"
  opt_limit :: "nat option"
  opt_offset :: "nat option"

definition listCalendarEvents ::
  "string \<Rightarrow> CalendarEventListOptions \<Rightarrow> (calendar_db, calendar_error, AgentCalendarEventRecord list) comp" where
  "listCalendarEvents accountId options db =
     (bindE (validateIdentifier accountId) (\<lambda>_.
      let limit = (case opt_limit options of None \<Rightarrow> 500 | Some n \<Rightarrow> n);
          offset = (case opt_offset options of None \<Rightarrow> 0 | Some n \<Rightarrow> n)
      in bindE (validateLimit limit) (\<lambda>_.
         bindE (ensure (int offset \<le> MAX_SAFE_INTEGER) StorageRejected) (\<lambda>_.
         bindE (case opt_from options of None \<Rightarrow> Inr () | Some f \<Rightarrow> validateDateOnly f) (\<lambda>_.
         bindE (case opt_to options of None \<Rightarrow> Inr () | Some t \<Rightarrow> validateDateOnly t) (\<lambda>_.
         bindE (ensure (case (opt_from options, opt_to options) of (Some f, Some t) \<Rightarrow> str_less f t | _ \<Rightarrow> True)
           StorageRejected) (\<lambda>_.
         Inr (map row_record (take limit (drop offset
           (select_rows accountId (opt_from options) (opt_to options) db)))))))))), db)"

definition getCalendarEvent ::
  "string \<Rightarrow> string \<Rightarrow> (calendar_db, calendar_error, AgentCalendarEventRecord option) comp" where
  "getCalendarEvent accountId eventId db =
     (bindE (validateIdentifier accountId) (\<lambda>_.
      bindE (validateIdentifier eventId) (\<lambda>_.
      Inr (map_option row_record (jget (calendar_events db) (accountId, eventId))))), db)"

subsection \<open>Writing\<close>

definition upsertPreparedCalendarEvent :: "calendar_row \<Rightarrow> calendar_db \<Rightarrow> calendar_db" where
  "upsertPreparedCalendarEvent row db =
     db\<lparr>calendar_events := jset (rec_accountId (row_record row), record_id (row_record row)) row (calendar_events db)\<rparr>"

definition delete_row :: "string \<Rightarrow> string \<Rightarrow> calendar_db \<Rightarrow> calendar_db" where
  "delete_row accountId eventId db =
     db\<lparr>calendar_events := jdelete (accountId, eventId) (calendar_events db)\<rparr>"

definition set_revision :: "string \<Rightarrow> int \<Rightarrow> calendar_db \<Rightarrow> calendar_db" where
  "set_revision accountId r db = db\<lparr>calendar_revisions := jset accountId r (calendar_revisions db)\<rparr>"

definition incrementCalendarRevision :: "string \<Rightarrow> calendar_db \<Rightarrow> calendar_error + calendar_db" where
  "incrementCalendarRevision accountId db =
     bindE (readCalendarRevision accountId db) (\<lambda>r. Inr (set_revision accountId (r + 1) db))"

text \<open>A transaction that throws leaves the database as it found it.\<close>

definition transact :: "calendar_error + 'a \<times> calendar_db \<Rightarrow> calendar_db \<Rightarrow> (calendar_error + 'a) \<times> calendar_db" where
  "transact outcome db = (case outcome of Inl e \<Rightarrow> (Inl e, db) | Inr (x, changed) \<Rightarrow> (Inr x, changed))"

definition putCalendarEvent ::
  "zoned_range \<Rightarrow> AgentCalendarEventRecord \<Rightarrow> (calendar_db, calendar_error, AgentCalendarEventRecord) comp" where
  "putCalendarEvent zoned r db =
     (case bindE (validateCalendarRecord zoned r) (\<lambda>_. prepareCalendarEvent zoned r) of
        Inl e \<Rightarrow> (Inl e, db)
      | Inr row \<Rightarrow>
          let opened = accountContext (rec_accountId r) db
          in transact (bindE (incrementCalendarRevision (rec_accountId r) (upsertPreparedCalendarEvent row opened))
               (\<lambda>changed. Inr (r, changed))) opened)"

definition deleteCalendarEvent :: "string \<Rightarrow> string \<Rightarrow> (calendar_db, calendar_error, bool) comp" where
  "deleteCalendarEvent accountId eventId db =
     (case validateIdentifier accountId of
        Inl e \<Rightarrow> (Inl e, db)
      | Inr _ \<Rightarrow>
          let opened = accountContext accountId db
          in case validateIdentifier eventId of
               Inl e \<Rightarrow> (Inl e, opened)
             | Inr _ \<Rightarrow>
                 if jget (calendar_events opened) (accountId, eventId) = None then (Inr False, opened)
                 else transact (bindE (incrementCalendarRevision accountId (delete_row accountId eventId opened))
                        (\<lambda>changed. Inr (True, changed))) opened)"

fun check_deletes :: "string list \<Rightarrow> string list \<Rightarrow> calendar_error + unit" where
  "check_deletes seen [] = Inr ()"
| "check_deletes seen (eventId # rest) =
     bindE (validateIdentifier eventId) (\<lambda>_.
     bindE (ensure (eventId \<notin> set seen) StorageRejected) (\<lambda>_. check_deletes (eventId # seen) rest))"

fun check_upserts ::
  "zoned_range \<Rightarrow> string \<Rightarrow> string list \<Rightarrow> string list \<Rightarrow> AgentCalendarEventRecord list \<Rightarrow> calendar_error + unit" where
  "check_upserts zoned accountId deleteIds seen [] = Inr ()"
| "check_upserts zoned accountId deleteIds seen (r # rest) =
     bindE (validateCalendarRecord zoned r) (\<lambda>_.
     bindE (ensure (rec_accountId r = accountId) StorageRejected) (\<lambda>_.
     bindE (ensure (record_id r \<notin> set seen \<and> record_id r \<notin> set deleteIds) StorageRejected) (\<lambda>_.
     check_upserts zoned accountId deleteIds (record_id r # seen) rest)))"

fun prepare_all :: "zoned_range \<Rightarrow> AgentCalendarEventRecord list \<Rightarrow> calendar_error + calendar_row list" where
  "prepare_all zoned [] = Inr []"
| "prepare_all zoned (r # rest) =
     bindE (prepareCalendarEvent zoned r) (\<lambda>row. bindE (prepare_all zoned rest) (\<lambda>rows. Inr (row # rows)))"

definition prepareCalendarBatch ::
  "zoned_range \<Rightarrow> string \<Rightarrow> CalendarBatchCommit \<Rightarrow> calendar_error + string list \<times> calendar_row list" where
  "prepareCalendarBatch zoned accountId batch =
     bindE (validateIdentifier accountId) (\<lambda>_.
     bindE (validateRevision (expectedRevision batch)) (\<lambda>_.
     bindE (check_deletes [] (deletes batch)) (\<lambda>_.
     bindE (check_upserts zoned accountId (deletes batch) [] (upserts batch)) (\<lambda>_.
     bindE (prepare_all zoned (upserts batch)) (\<lambda>prepared.
     Inr (deletes batch, prepared))))))"

definition apply_batch :: "string \<Rightarrow> string list \<Rightarrow> calendar_row list \<Rightarrow> calendar_db \<Rightarrow> calendar_db" where
  "apply_batch accountId deleteIds prepared db =
     fold (delete_row accountId) deleteIds (fold upsertPreparedCalendarEvent prepared db)"

definition commitCalendarBatch ::
  "zoned_range \<Rightarrow> string \<Rightarrow> CalendarBatchCommit \<Rightarrow> (calendar_db, calendar_error, int) comp" where
  "commitCalendarBatch zoned accountId batch db =
     (case prepareCalendarBatch zoned accountId batch of
        Inl e \<Rightarrow> (Inl e, db)
      | Inr (deleteIds, prepared) \<Rightarrow>
          let opened = (if upserts batch = [] then db else accountContext accountId db)
          in transact (bindE (readCalendarRevision accountId opened) (\<lambda>actualRevision.
               if actualRevision \<noteq> expectedRevision batch then Inl RevisionConflict
               else Inr (actualRevision + 1,
                 set_revision accountId (actualRevision + 1) (apply_batch accountId deleteIds prepared opened)))) opened)"

subsection \<open>What the tables hold\<close>

definition row_key :: "calendar_row \<Rightarrow> string \<times> string" where
  "row_key row = (rec_accountId (row_record row), record_id (row_record row))"

definition db_ok :: "calendar_db \<Rightarrow> bool" where
  "db_ok db \<longleftrightarrow> distinct (jkeys (calendar_events db)) \<and>
     (\<forall>k row. jget (calendar_events db) k = Some row \<longrightarrow> row_key row = k)"

definition table :: "calendar_db \<Rightarrow> string \<Rightarrow> AgentCalendarEventRecord list" where
  "table db accountId = map row_record (select_rows accountId None None db)"

definition revision_of :: "calendar_db \<Rightarrow> string \<Rightarrow> int" where
  "revision_of db accountId = (case jget (calendar_revisions db) accountId of None \<Rightarrow> 0 | Some r \<Rightarrow> r)"

lemma in_table_iff:
  assumes "db_ok db"
  shows "r \<in> set (table db a) \<longleftrightarrow>
    (\<exists>row. jget (calendar_events db) (a, record_id r) = Some row \<and> row_record row = r)"
proof -
  have "r \<in> set (table db a) \<longleftrightarrow> (\<exists>k row. (k, row) \<in> set (calendar_events db) \<and> fst k = a \<and> row_record row = r)"
    by (force simp: table_def select_rows_def)
  also have "\<dots> \<longleftrightarrow> (\<exists>k row. jget (calendar_events db) k = Some row \<and> fst k = a \<and> row_record row = r)"
    using assms unfolding db_ok_def by (metis map_of_SomeD map_of_is_SomeI)
  also have "\<dots> \<longleftrightarrow> (\<exists>row. jget (calendar_events db) (a, record_id r) = Some row \<and> row_record row = r)"
  proof
    assume "\<exists>k row. jget (calendar_events db) k = Some row \<and> fst k = a \<and> row_record row = r"
    then obtain k row where k: "jget (calendar_events db) k = Some row" "fst k = a" "row_record row = r" by blast
    with assms have "row_key row = k" unfolding db_ok_def by blast
    with k have "k = (a, record_id r)" by (auto simp: row_key_def)
    then show "\<exists>row. jget (calendar_events db) (a, record_id r) = Some row \<and> row_record row = r"
      using k(1,3) by (intro exI [of _ row]) simp
  next
    assume "\<exists>row. jget (calendar_events db) (a, record_id r) = Some row \<and> row_record row = r"
    then obtain row where "jget (calendar_events db) (a, record_id r) = Some row" "row_record row = r" by blast
    then show "\<exists>k row. jget (calendar_events db) k = Some row \<and> fst k = a \<and> row_record row = r"
      by (intro exI [of _ "(a, record_id r)"] exI [of _ row]) simp
  qed
  finally show ?thesis .
qed

lemma distinct_map_js_sort: "distinct (map f (js_sort cmp xs)) = distinct (map f xs)"
  by (rule mset_eq_imp_distinct_iff) simp

lemma distinct_table:
  assumes "db_ok db"
  shows "distinct (map record_id (table db a))"
proof -
  let ?rows = "filter (\<lambda>(k, row). fst k = a) (calendar_events db)"
  have keys: "map (\<lambda>(k, row). record_id (row_record row)) ?rows = map (snd \<circ> fst) ?rows"
    using assms by (force simp: db_ok_def row_key_def)
  have "distinct (map fst ?rows)" using assms by (simp add: db_ok_def distinct_map_filter)
  moreover have "inj_on snd (set (map fst ?rows))" by (auto simp: inj_on_def)
  ultimately have "distinct (map (snd \<circ> fst) ?rows)"
    by (metis distinct_map map_map)
  then have "distinct (map (\<lambda>row. record_id (row_record row)) (map snd ?rows))"
    unfolding keys [symmetric] by (simp add: comp_def case_prod_beta')
  then have "distinct (map (\<lambda>row. record_id (row_record row)) (js_sort row_order (map snd ?rows)))"
    unfolding distinct_map_js_sort .
  then show ?thesis by (simp add: table_def select_rows_def comp_def)
qed

subsection \<open>What the writers do\<close>

lemma filter_jset_other: "\<not> P k \<Longrightarrow> filter (\<lambda>(j, v). P j) (jset k x m) = filter (\<lambda>(j, v). P j) m"
  by (induction m) auto

lemma filter_jdelete_other: "\<not> P k \<Longrightarrow> filter (\<lambda>(j, v). P j) (jdelete k m) = filter (\<lambda>(j, v). P j) m"
  by (induction m) auto

lemma table_other:
  "rec_accountId (row_record row) \<noteq> a \<Longrightarrow> table (upsertPreparedCalendarEvent row db) a = table db a"
  "b \<noteq> a \<Longrightarrow> table (delete_row b i db) a = table db a"
  by (simp_all add: table_def select_rows_def upsertPreparedCalendarEvent_def delete_row_def
      filter_jset_other [of "\<lambda>k. fst k = a"] filter_jdelete_other [of "\<lambda>k. fst k = a"])

lemma table_revisions [simp]:
  "table (set_revision b r db) a = table db a" "table (accountContext b db) a = table db a"
  by (simp_all add: table_def select_rows_def set_revision_def accountContext_def split: option.split)

lemma revision_events [simp]:
  "revision_of (upsertPreparedCalendarEvent row db) a = revision_of db a"
  "revision_of (delete_row b i db) a = revision_of db a"
  "revision_of (accountContext b db) a = revision_of db a"
  "revision_of (set_revision b r db) a = (if a = b then r else revision_of db a)"
  by (simp_all add: revision_of_def upsertPreparedCalendarEvent_def delete_row_def accountContext_def set_revision_def
      split: option.split)

lemma db_ok_steps [simp]:
  "db_ok db \<Longrightarrow> db_ok (upsertPreparedCalendarEvent row db)"
  "db_ok db \<Longrightarrow> db_ok (delete_row b i db)"
  "db_ok db \<Longrightarrow> db_ok (accountContext b db)"
  "db_ok db \<Longrightarrow> db_ok (set_revision b r db)"
  by (auto simp: db_ok_def row_key_def upsertPreparedCalendarEvent_def delete_row_def accountContext_def set_revision_def
      split: option.split if_splits)

lemma jget_upserts:
  "distinct (map row_key rows) \<Longrightarrow>
   jget (calendar_events (fold upsertPreparedCalendarEvent rows db)) k =
     (case find (\<lambda>row. row_key row = k) rows of Some row \<Rightarrow> Some row | None \<Rightarrow> jget (calendar_events db) k)"
proof (induction rows arbitrary: db)
  case (Cons row rows)
  then have "row_key row \<notin> row_key ` set rows" by simp
  then have "find (\<lambda>r. row_key r = row_key row) rows = None" unfolding find_None_iff by (metis imageI)
  with Cons show ?case
    by (auto simp: upsertPreparedCalendarEvent_def row_key_def split: option.split)
qed simp

lemma jget_deletes:
  "jget (calendar_events (fold (delete_row a) ids db)) k =
     (if fst k = a \<and> snd k \<in> set ids then None else jget (calendar_events db) k)"
  by (induction ids arbitrary: db) (auto simp: delete_row_def)

lemma fold_writes [simp]:
  "db_ok db \<Longrightarrow> db_ok (apply_batch a ids rows db)"
  "revision_of (apply_batch a ids rows db) b = revision_of db b"
proof -
  have ups: "db_ok db \<Longrightarrow> db_ok (fold upsertPreparedCalendarEvent rows db)" for db
    by (induction rows arbitrary: db) simp_all
  have dels: "db_ok db \<Longrightarrow> db_ok (fold (delete_row a) ids db)" for db
    by (induction ids arbitrary: db) simp_all
  show "db_ok db \<Longrightarrow> db_ok (apply_batch a ids rows db)" unfolding apply_batch_def using ups dels by blast
  have "revision_of (fold upsertPreparedCalendarEvent rows db) b = revision_of db b" for db
    by (induction rows arbitrary: db) simp_all
  moreover have "revision_of (fold (delete_row a) ids db) b = revision_of db b" for db
    by (induction ids arbitrary: db) simp_all
  ultimately show "revision_of (apply_batch a ids rows db) b = revision_of db b" by (simp add: apply_batch_def)
qed

lemma table_apply_batch_other:
  assumes "\<And>row. row \<in> set rows \<Longrightarrow> rec_accountId (row_record row) = a" and "b \<noteq> a"
  shows "table (apply_batch a ids rows db) b = table db b"
proof -
  have "table (fold upsertPreparedCalendarEvent rows db) b = table db b"
    using assms by (induction rows arbitrary: db) (auto simp: table_other)
  moreover have "table (fold (delete_row a) ids d) b = table d b" for d
    using assms(2) by (induction ids arbitrary: d) (auto simp: table_other)
  ultimately show ?thesis by (simp add: apply_batch_def)
qed

text \<open>A batch that passed the checks replaces and removes exactly the rows it names.\<close>

lemma check_deletes_distinct: "check_deletes seen ids = Inr () \<Longrightarrow> distinct ids \<and> set ids \<inter> set seen = {}"
proof (induction ids arbitrary: seen)
  case (Cons i ids)
  then show ?case using Cons.IH [of "i # seen"] by (auto simp: bindE_eq_Inr_iff)
qed simp

lemma check_upserts_facts:
  "check_upserts zoned a dels seen rs = Inr () \<Longrightarrow>
   distinct (map record_id rs) \<and> record_id ` set rs \<inter> (set seen \<union> set dels) = {} \<and> (\<forall>r\<in>set rs. rec_accountId r = a)"
proof (induction rs arbitrary: seen)
  case (Cons r rs)
  then show ?case using Cons.IH [of "record_id r # seen"] by (auto simp: bindE_eq_Inr_iff)
qed simp

lemma prepare_all_rows: "prepare_all zoned rs = Inr rows \<Longrightarrow> map row_record rows = rs"
  by (induction rs arbitrary: rows) (auto simp: bindE_eq_Inr_iff prepareCalendarEvent_def)

lemma prepareCalendarBatch_facts:
  assumes "prepareCalendarBatch zoned a batch = Inr (ids, rows)"
  shows "ids = deletes batch" and "map row_record rows = upserts batch"
    and "distinct (deletes batch)" and "distinct (map record_id (upserts batch))"
    and "record_id ` set (upserts batch) \<inter> set (deletes batch) = {}"
    and "r \<in> set (upserts batch) \<Longrightarrow> rec_accountId r = a"
  using assms check_deletes_distinct [of "[]" "deletes batch"] check_upserts_facts [of zoned a "deletes batch" "[]" "upserts batch"]
    prepare_all_rows [of zoned "upserts batch" rows]
  by (auto simp: prepareCalendarBatch_def bindE_eq_Inr_iff)

lemma find_row_iff:
  assumes "distinct (map row_key rows)" and "\<And>row. row \<in> set rows \<Longrightarrow> rec_accountId (row_record row) = a"
  shows "find (\<lambda>row. row_key row = (a, i)) rows = Some row \<longleftrightarrow> row \<in> set rows \<and> record_id (row_record row) = i"
proof
  assume "find (\<lambda>row. row_key row = (a, i)) rows = Some row"
  then show "row \<in> set rows \<and> record_id (row_record row) = i"
    by (auto simp: find_Some_iff row_key_def)
next
  assume row: "row \<in> set rows \<and> record_id (row_record row) = i"
  then have k: "row_key row = (a, i)" using assms(2) by (auto simp: row_key_def)
  with row obtain row' where "find (\<lambda>row. row_key row = (a, i)) rows = Some row'"
    by (cases "find (\<lambda>row. row_key row = (a, i)) rows") (auto simp: find_None_iff)
  moreover from this have "row' \<in> set rows" "row_key row' = (a, i)" by (auto simp: find_Some_iff)
  with row k assms(1) have "row' = row" by (metis distinct_map inj_onD)
  ultimately show "find (\<lambda>row. row_key row = (a, i)) rows = Some row" by simp
qed

lemma table_apply_batch:
  assumes "prepareCalendarBatch zoned a batch = Inr (ids, rows)" and "db_ok db"
  shows "set (table (apply_batch a ids rows db) a) =
    {r \<in> set (table db a). record_id r \<notin> set (deletes batch) \<union> record_id ` set (upserts batch)} \<union> set (upserts batch)"
proof -
  note facts = prepareCalendarBatch_facts [OF assms(1)]
  have keys: "map row_key rows = map (\<lambda>r. (a, record_id r)) (upserts batch)"
    using facts(6) unfolding facts(2) [symmetric] by (auto simp: row_key_def)
  have "distinct (map row_key rows)" unfolding keys using facts(4) by (auto simp: distinct_map inj_on_def)
  note get = jget_upserts [OF this]
  have acc: "rec_accountId (row_record row) = a" if "row \<in> set rows" for row
    using that facts(6) unfolding facts(2) [symmetric] by simp
  have ev: "jget (calendar_events (apply_batch a ids rows db)) (a, i) =
      (if i \<in> set (deletes batch) then None
       else case find (\<lambda>row. row_key row = (a, i)) rows of Some row \<Rightarrow> Some row | None \<Rightarrow> jget (calendar_events db) (a, i))" for i
    by (simp add: apply_batch_def jget_deletes get facts(1))
  note found = find_row_iff [OF \<open>distinct (map row_key rows)\<close> acc]
  have "find (\<lambda>row. row_key row = (a, i)) rows = None \<longleftrightarrow> i \<notin> record_id ` set (upserts batch)" for i
    using found [of i] unfolding set_map [symmetric] facts(2) [symmetric]
    by (cases "find (\<lambda>row. row_key row = (a, i)) rows") (force simp del: map_map)+
  note none = this
  have "r \<in> set (table (apply_batch a ids rows db) a) \<longleftrightarrow>
      r \<in> {r \<in> set (table db a). record_id r \<notin> set (deletes batch) \<union> record_id ` set (upserts batch)} \<union> set (upserts batch)" for r
  proof (cases "record_id r \<in> record_id ` set (upserts batch)")
    case True
    then obtain row where row: "find (\<lambda>row. row_key row = (a, record_id r)) rows = Some row"
      using none by (cases "find (\<lambda>row. row_key row = (a, record_id r)) rows") auto
    have "record_id r \<notin> set (deletes batch)" using True facts(5) by blast
    then have "r \<in> set (table (apply_batch a ids rows db) a) \<longleftrightarrow> row_record row = r"
      using assms(2) row by (simp add: in_table_iff ev)
    moreover have "r \<in> set (upserts batch) \<longleftrightarrow> row_record row = r"
    proof
      assume "r \<in> set (upserts batch)"
      then obtain row' where "row' \<in> set rows" "row_record row' = r" unfolding facts(2) [symmetric] by auto
      with found [of "record_id r" row'] row show "row_record row = r" by simp
    next
      assume "row_record row = r"
      with found [of "record_id r" row] row show "r \<in> set (upserts batch)" unfolding facts(2) [symmetric] by force
    qed
    ultimately show ?thesis using True by blast
  next
    case False
    with none [of "record_id r"] show ?thesis using assms(2) by (auto simp: in_table_iff ev)
  qed
  then show ?thesis by blast
qed

subsection \<open>Other clients\<close>

datatype calendar_write =
    PutWrite AgentCalendarEventRecord
  | DeleteWrite string string
  | CommitWrite string CalendarBatchCommit

definition apply_write :: "zoned_range \<Rightarrow> calendar_write \<Rightarrow> calendar_db \<Rightarrow> calendar_db" where
  "apply_write zoned write db =
     (case write of
        PutWrite r \<Rightarrow> snd (putCalendarEvent zoned r db)
      | DeleteWrite accountId eventId \<Rightarrow> snd (deleteCalendarEvent accountId eventId db)
      | CommitWrite accountId batch \<Rightarrow> snd (commitCalendarBatch zoned accountId batch db))"

text \<open>No writer changes an account's rows without raising its revision.\<close>

definition honest_step :: "calendar_db \<Rightarrow> calendar_db \<Rightarrow> bool" where
  "honest_step db changed \<longleftrightarrow> db_ok changed \<and>
     (\<forall>a. revision_of db a \<le> revision_of changed a \<and>
       (revision_of changed a = revision_of db a \<longrightarrow> table changed a = table db a))"

lemma honest_refl: "db_ok db \<Longrightarrow> honest_step db db"
  by (simp add: honest_step_def)

lemma honest_trans: "honest_step d1 d2 \<Longrightarrow> honest_step d2 d3 \<Longrightarrow> honest_step d1 d3"
  unfolding honest_step_def by (metis order_antisym order_trans)

lemma honest_open: "db_ok db \<Longrightarrow> honest_step db (accountContext a db)"
  by (simp add: honest_step_def)

lemma readCalendarRevision_revision: "readCalendarRevision a db = Inr r \<Longrightarrow> revision_of db a = r"
  by (auto simp: readCalendarRevision_def revision_of_def split: option.splits)

lemma honest_put: "db_ok db \<Longrightarrow> honest_step db (snd (putCalendarEvent zoned r db))"
  by (auto simp: putCalendarEvent_def transact_def incrementCalendarRevision_def honest_refl honest_open Let_def
      bindE_def honest_step_def prepareCalendarEvent_def table_other
      dest: readCalendarRevision_revision split: sum.splits)

lemma honest_delete: "db_ok db \<Longrightarrow> honest_step db (snd (deleteCalendarEvent a i db))"
  by (auto simp: deleteCalendarEvent_def transact_def incrementCalendarRevision_def honest_refl honest_open Let_def
      bindE_def honest_step_def table_other dest: readCalendarRevision_revision split: sum.splits)

lemma honest_commit:
  assumes "db_ok db"
  shows "honest_step db (snd (commitCalendarBatch zoned a batch db))"
proof (cases "prepareCalendarBatch zoned a batch")
  case (Inl e)
  then show ?thesis using assms by (simp add: commitCalendarBatch_def honest_refl)
next
  case (Inr prepared)
  obtain ids rows where ir: "prepared = (ids, rows)" by fastforce
  have "rec_accountId (row_record row) = a" if "row \<in> set rows" for row
    using that prepareCalendarBatch_facts(2,6) [OF Inr [unfolded ir]] by (metis imageI list.set_map)
  note other = table_apply_batch_other [OF this]
  show ?thesis using assms Inr
    by (auto simp: ir commitCalendarBatch_def transact_def honest_step_def bindE_def Let_def other
        dest!: readCalendarRevision_revision split: sum.splits)
qed

lemma honest_write: "db_ok db \<Longrightarrow> honest_step db (apply_write zoned write db)"
  by (simp add: apply_write_def honest_put honest_delete honest_commit split: calendar_write.split)

lemma honest_writes: "db_ok db \<Longrightarrow> honest_step db (fold (apply_write zoned) writes db)"
proof (induction writes arbitrary: db)
  case (Cons wr writes)
  have "honest_step db (apply_write zoned wr db)" using Cons.prems by (rule honest_write)
  moreover from this have "honest_step (apply_write zoned wr db) (fold (apply_write zoned) (wr # writes) db)"
    using Cons.IH by (simp add: honest_step_def)
  ultimately show ?case by (rule honest_trans)
qed (simp add: honest_refl)

subsection \<open>The storage interface\<close>

text \<open>
  What \<open>CalendarRepository\<close> is given. Each operation is awaited, so what the other clients have
  queued is written first.
\<close>

record 's calendar_storage =
  st_getCalendarRevision :: "string \<Rightarrow> ('s, calendar_error, int) comp"
  st_listCalendarEvents :: "string \<Rightarrow> CalendarEventListOptions \<Rightarrow> ('s, calendar_error, AgentCalendarEventRecord list) comp"
  st_commitCalendarBatch :: "string \<Rightarrow> CalendarBatchCommit \<Rightarrow> ('s, calendar_error, int) comp"

record calendar_world =
  cal_db :: calendar_db
  pending :: "calendar_write list list"

definition let_others_run :: "zoned_range \<Rightarrow> calendar_world \<Rightarrow> calendar_world" where
  "let_others_run zoned w =
     (case pending w of
        [] \<Rightarrow> w
      | writes # rest \<Rightarrow> w\<lparr>cal_db := fold (apply_write zoned) writes (cal_db w), pending := rest\<rparr>)"

definition on_world :: "zoned_range \<Rightarrow> (calendar_db, calendar_error, 'a) comp \<Rightarrow> (calendar_world, calendar_error, 'a) comp" where
  "on_world zoned op w =
     (let w1 = let_others_run zoned w in case op (cal_db w1) of (res, db) \<Rightarrow> (res, w1\<lparr>cal_db := db\<rparr>))"

definition table_storage :: "zoned_range \<Rightarrow> calendar_world calendar_storage" where
  "table_storage zoned =
     \<lparr>st_getCalendarRevision = \<lambda>a. on_world zoned (getCalendarRevision a),
      st_listCalendarEvents = \<lambda>a options. on_world zoned (listCalendarEvents a options),
      st_commitCalendarBatch = \<lambda>a batch. on_world zoned (commitCalendarBatch zoned a batch)\<rparr>"

text \<open>What happens when this client writes nothing: others write, and accounts are opened.\<close>

inductive others_only :: "zoned_range \<Rightarrow> calendar_world \<Rightarrow> calendar_world \<Rightarrow> bool" for zoned where
  others_refl: "others_only zoned w w"
| others_write: "others_only zoned w v \<Longrightarrow> others_only zoned w (let_others_run zoned v)"
| others_open: "others_only zoned w v \<Longrightarrow> others_only zoned w (v\<lparr>cal_db := accountContext a (cal_db v)\<rparr>)"

lemma others_trans: "others_only zoned v u \<Longrightarrow> others_only zoned w v \<Longrightarrow> others_only zoned w u"
  by (induction rule: others_only.induct) (auto intro: others_only.intros)

lemma others_honest: "others_only zoned w v \<Longrightarrow> db_ok (cal_db w) \<Longrightarrow> honest_step (cal_db w) (cal_db v)"
proof (induction rule: others_only.induct)
  case (others_write w v)
  then have "honest_step (cal_db v) (cal_db (let_others_run zoned v))"
    by (auto simp: let_others_run_def honest_step_def honest_writes [unfolded honest_step_def] split: list.split)
  with others_write show ?case using honest_trans by blast
next
  case (others_open w v a)
  then have "honest_step (cal_db v) (cal_db (v\<lparr>cal_db := accountContext a (cal_db v)\<rparr>))"
    by (simp add: honest_open honest_step_def)
  with others_open show ?case using honest_trans by blast
qed (simp add: honest_refl)

end
