(* ===== verification/CalendarRepository.thy ===== *)
theory CalendarRepository
  imports CalendarStorage
begin

text \<open>
  The authoritative calendar of \<open>src/bun/calendar-repository.ts\<close>: it reads the whole calendar page
  by page, checks a batch of mutations against a working copy and commits it when the revision
  has not moved. The storage is a parameter with the operations of the \<open>CalendarStorage\<close>
  interface; the locale \<open>calendar_store\<close> states what the repository relies on while other clients
  write in between, and the tables of \<open>encrypted-agent-repository.ts\<close> are shown to provide it.
  The loop over the pages has no bound in the source: \<open>max_pages\<close> bounds it here, and
  \<open>list_pages_enough\<close> says how many are enough.
\<close>

subsection \<open>Operations\<close>

record calendar_config =
  time :: time_library
  timeZone :: string
  clock :: "nat \<Rightarrow> int"
  max_pages :: nat

definition pageSize :: nat where
  "pageSize = 500"

text \<open>A page's records whose id has not been seen, and how many they are.\<close>

fun add_page :: "AgentCalendarEventRecord list \<Rightarrow> AgentCalendarEventRecord list \<Rightarrow> AgentCalendarEventRecord list \<times> nat" where
  "add_page records [] = (records, 0)"
| "add_page records (r # page) =
     (if record_id r \<in> set (map record_id records) then add_page records page
      else case add_page (records @ [r]) page of (all, added) \<Rightarrow> (all, added + 1))"

definition page_options :: "nat \<Rightarrow> CalendarEventListOptions" where
  "page_options offset = \<lparr>opt_from = None, opt_to = None, opt_limit = Some pageSize, opt_offset = Some offset\<rparr>"

fun list_pages ::
  "'s calendar_storage \<Rightarrow> string \<Rightarrow> nat \<Rightarrow> nat \<Rightarrow> AgentCalendarEventRecord list \<Rightarrow>
   ('s, calendar_error, AgentCalendarEventRecord list) comp" where
  "list_pages storage accountId 0 offset records = throw PageBoundReached"
| "list_pages storage accountId (Suc pages) offset records =
     andThen (st_listCalendarEvents storage accountId (page_options offset)) (\<lambda>page.
     case add_page records page of (all, added) \<Rightarrow>
       if length page < pageSize then ret all
       else if added = 0 then throw PaginationStalled
       else list_pages storage accountId pages (offset + pageSize) all)"

definition listAllCalendarEvents ::
  "'s calendar_storage \<Rightarrow> calendar_config \<Rightarrow> string \<Rightarrow> ('s, calendar_error, AgentCalendarEventRecord list) comp" where
  "listAllCalendarEvents storage cfg accountId = list_pages storage accountId (max_pages cfg) 0 []"

fun read_attempts ::
  "'s calendar_storage \<Rightarrow> calendar_config \<Rightarrow> string \<Rightarrow> nat \<Rightarrow>
   ('s, calendar_error, int \<times> AgentCalendarEventRecord list) comp" where
  "read_attempts storage cfg accountId 0 = throw CalendarChanged"
| "read_attempts storage cfg accountId (Suc attempts) =
     andThen (st_getCalendarRevision storage accountId) (\<lambda>before.
     andThen (listAllCalendarEvents storage cfg accountId) (\<lambda>records.
     andThen (st_getCalendarRevision storage accountId) (\<lambda>after.
     if before = after then ret (after, records) else read_attempts storage cfg accountId attempts)))"

definition readStableCalendar ::
  "'s calendar_storage \<Rightarrow> calendar_config \<Rightarrow> string \<Rightarrow> ('s, calendar_error, int \<times> AgentCalendarEventRecord list) comp" where
  "readStableCalendar storage cfg accountId = read_attempts storage cfg accountId 2"

record CalendarLoadResponse =
  load_revision :: int
  load_timeZone :: string
  load_events :: "CalendarEvent list"

definition load ::
  "'s calendar_storage \<Rightarrow> calendar_config \<Rightarrow> string \<Rightarrow> ('s, calendar_error, CalendarLoadResponse) comp" where
  "load storage cfg accountId =
     andThen (readStableCalendar storage cfg accountId) (\<lambda>(revision, records).
     ret \<lparr>load_revision = revision, load_timeZone = timeZone cfg, load_events = map rec_event records\<rparr>)"

record CalendarSnapshot =
  snap_accountId :: string
  snap_revision :: int
  snap_timeZone :: string
  snap_fromDate :: string
  snap_toDateExclusive :: string
  snap_events :: "CalendarEvent list"

definition snapshot ::
  "'s calendar_storage \<Rightarrow> calendar_config \<Rightarrow> string \<Rightarrow> string \<Rightarrow> string \<Rightarrow> ('s, calendar_error, CalendarSnapshot) comp" where
  "snapshot storage cfg accountId fromDate toDateExclusive =
     andThen (readStableCalendar storage cfg accountId) (\<lambda>(revision, records).
     case filterE (\<lambda>event. eventOccursInDateRange (time cfg) event fromDate toDateExclusive (timeZone cfg))
            (map rec_event records) of
       Inl e \<Rightarrow> throw e
     | Inr events \<Rightarrow> ret \<lparr>snap_accountId = accountId, snap_revision = revision, snap_timeZone = timeZone cfg,
         snap_fromDate = fromDate, snap_toDateExclusive = toDateExclusive, snap_events = events\<rparr>)"

definition revisionConflict :: CalendarConflict where
  "revisionConflict = \<lparr>conflict_reason = stale_revision, severity = ErrorSeverity,
     affectedEventIds = [], nextAction = RetryAction\<rparr>"

definition serviceConflict :: "string \<Rightarrow> CalendarConflict" where
  "serviceConflict eventId = \<lparr>conflict_reason = service_unavailable, severity = ErrorSeverity,
     affectedEventIds = [eventId], nextAction = RetryAction\<rparr>"

datatype PreparedCalendarMutationBatch =
    PreparedOk string "CalendarEvent list" "CalendarConflict list" CalendarBatchCommit
  | PreparedConflicts string "CalendarConflict list"

datatype CalendarBatchMutationResult =
    BatchOk string "CalendarEvent list" "CalendarConflict list" int
  | BatchConflicts string "CalendarConflict list"

datatype CalendarMutationResult =
    MutationOk string "CalendarEvent option" "CalendarConflict option"
  | MutationConflict string CalendarConflict

text \<open>The variables of the loop over the mutations.\<close>

record batch_state =
  working :: "(string, CalendarEvent) jmap"
  outputs :: "CalendarEvent list"
  warnings :: "CalendarConflict list"
  conflicts :: "CalendarConflict list"
  batch_upserts :: "AgentCalendarEventRecord list"
  batch_deletes :: "string list"

definition batch_start :: "AgentCalendarEventRecord list \<Rightarrow> batch_state" where
  "batch_start records = \<lparr>working = fold (\<lambda>r. jset (record_id r) (rec_event r)) records [],
     outputs = [], warnings = [], conflicts = [], batch_upserts = [], batch_deletes = []\<rparr>"

definition push_conflict :: "CalendarConflict \<Rightarrow> batch_state \<Rightarrow> batch_state" where
  "push_conflict c s = s\<lparr>conflicts := conflicts s @ [c]\<rparr>"

definition next_event :: "CalendarEvent option \<Rightarrow> CalendarEvent \<Rightarrow> CalendarEvent" where
  "next_event current after = after\<lparr>cal_version := (case current of None \<Rightarrow> 0 | Some c \<Rightarrow> cal_version c + 1)\<rparr>"

definition store_event ::
  "calendar_config \<Rightarrow> string \<Rightarrow> CalendarEvent \<Rightarrow> CalendarConflict option \<Rightarrow> batch_state \<Rightarrow> batch_state" where
  "store_event cfg accountId event conflict s = s\<lparr>
     working := jset (cal_id event) event (working s),
     outputs := outputs s @ [event],
     warnings := (case conflict of None \<Rightarrow> warnings s | Some c \<Rightarrow> warnings s @ [c]),
     batch_upserts := batch_upserts s @ [\<lparr>rec_accountId = accountId, rec_event = event,
       rec_updatedAtMs = clock cfg (length (batch_upserts s))\<rparr>]\<rparr>"

definition drop_event :: "string \<Rightarrow> batch_state \<Rightarrow> batch_state" where
  "drop_event eventId s = s\<lparr>working := jdelete eventId (working s), batch_deletes := batch_deletes s @ [eventId]\<rparr>"

text \<open>
  A restoration without \<open>after\<close> passes the validation; the event then has no schedule, and since
  the current event is in the working copy the first overlap test fails to parse its start.
\<close>

definition mutation_step ::
  "calendar_config \<Rightarrow> string \<Rightarrow> CalendarMutation \<Rightarrow> batch_state \<Rightarrow> calendar_error + batch_state" where
  "mutation_step cfg accountId m s =
     (let current = jget (working s) (mutation_eventId m)
      in bindE (validateCalendarMutation (time cfg) m current) (\<lambda>invalid.
         case invalid of
           Some c \<Rightarrow> Inr (push_conflict c s)
         | None \<Rightarrow>
             if mutation_kind m = DeleteMutation
             then Inr (drop_event (mutation_eventId m) s)
             else case mutation_after m of
               None \<Rightarrow> Inl InvalidInstant
             | Some after \<Rightarrow>
                 let event = next_event current after
                 in case validateOccurrenceOverride (time cfg) event (jvalues (working s)) of
                      Some c \<Rightarrow> Inr (push_conflict c s)
                    | None \<Rightarrow>
                        bindE (detectAuthoritativeConflict (time cfg) event (jvalues (working s))) (\<lambda>conflict.
                        if map_option severity conflict = Some ErrorSeverity
                        then Inr (push_conflict (the conflict) s)
                        else Inr (store_event cfg accountId event conflict s))))"

fun run_mutations ::
  "calendar_config \<Rightarrow> string \<Rightarrow> CalendarMutation list \<Rightarrow> batch_state \<Rightarrow> calendar_error + batch_state" where
  "run_mutations cfg accountId [] s = Inr s"
| "run_mutations cfg accountId (m # ms) s =
     bindE (mutation_step cfg accountId m s) (\<lambda>t. run_mutations cfg accountId ms t)"

definition prepareMutationBatch ::
  "'s calendar_storage \<Rightarrow> calendar_config \<Rightarrow> string \<Rightarrow> string \<Rightarrow> CalendarMutation list \<Rightarrow> int option \<Rightarrow>
   ('s, calendar_error, PreparedCalendarMutationBatch) comp" where
  "prepareMutationBatch storage cfg accountId batchId mutations expected =
     (if length mutations < 1 \<or> length mutations > 500 then throw InvalidBatch
      else andThen (st_getCalendarRevision storage accountId) (\<lambda>currentRevision.
        if expected \<noteq> None \<and> expected \<noteq> Some currentRevision
        then ret (PreparedConflicts batchId [revisionConflict])
        else andThen (listAllCalendarEvents storage cfg accountId) (\<lambda>records.
          case run_mutations cfg accountId mutations (batch_start records) of
            Inl e \<Rightarrow> throw e
          | Inr s \<Rightarrow>
              if conflicts s \<noteq> [] then ret (PreparedConflicts batchId (conflicts s))
              else ret (PreparedOk batchId (outputs s) (warnings s)
                \<lparr>expectedRevision = currentRevision, upserts = batch_upserts s, deletes = batch_deletes s\<rparr>))))"

definition mutateBatch ::
  "'s calendar_storage \<Rightarrow> calendar_config \<Rightarrow> string \<Rightarrow> string \<Rightarrow> CalendarMutation list \<Rightarrow> int option \<Rightarrow>
   ('s, calendar_error, CalendarBatchMutationResult) comp" where
  "mutateBatch storage cfg accountId batchId mutations expected =
     andThen (prepareMutationBatch storage cfg accountId batchId mutations expected) (\<lambda>prepared s.
     case prepared of
       PreparedConflicts b cs \<Rightarrow> (Inr (BatchConflicts b cs), s)
     | PreparedOk b events warns commit \<Rightarrow>
         (case st_commitCalendarBatch storage accountId commit s of
            (Inr revision, t) \<Rightarrow> (Inr (BatchOk batchId events warns revision), t)
          | (Inl e, t) \<Rightarrow> (if e = RevisionConflict then Inr (BatchConflicts batchId [revisionConflict]) else Inl e, t)))"

definition mutate ::
  "'s calendar_storage \<Rightarrow> calendar_config \<Rightarrow> string \<Rightarrow> CalendarMutation \<Rightarrow> ('s, calendar_error, CalendarMutationResult) comp" where
  "mutate storage cfg accountId m =
     andThen (mutateBatch storage cfg accountId (mutationId m) [m] None) (\<lambda>batch.
     ret (case batch of
            BatchConflicts _ cs \<Rightarrow> MutationConflict (mutationId m)
              (case cs of [] \<Rightarrow> serviceConflict (mutation_eventId m) | c # _ \<Rightarrow> c)
          | BatchOk _ events warns _ \<Rightarrow> MutationOk (mutationId m)
              (find (\<lambda>event. cal_id event = mutation_eventId m) events)
              (case warns of [] \<Rightarrow> None | c # _ \<Rightarrow> Some c)))"

subsection \<open>The batch on the working copy\<close>

text \<open>The keys of the working copy are the ids of its events.\<close>

definition keyed :: "(string, CalendarEvent) jmap \<Rightarrow> bool" where
  "keyed m \<longleftrightarrow> distinct (jkeys m) \<and> (\<forall>i e. jget m i = Some e \<longrightarrow> cal_id e = i)"

lemma keyed_jset [simp]: "keyed m \<Longrightarrow> keyed (jset (cal_id e) e m)"
  by (auto simp: keyed_def split: if_splits)

lemma keyed_jdelete [simp]: "keyed m \<Longrightarrow> keyed (jdelete i m)"
  by (auto simp: keyed_def split: if_splits)

definition held :: "(string, CalendarEvent) jmap \<Rightarrow> CalendarEvent set" where
  "held m = set (jvalues m)"

lemma held_iff: "keyed m \<Longrightarrow> e \<in> held m \<longleftrightarrow> jget m (cal_id e) = Some e"
  unfolding keyed_def held_def by (simp only: jvalues_in_iff) blast

lemma batch_start_keyed: "keyed (working (batch_start records))"
proof -
  have "keyed m \<Longrightarrow> keyed (fold (\<lambda>r. jset (record_id r) (rec_event r)) records m)" for m
    by (induction records arbitrary: m) simp_all
  from this [of "[]"] show ?thesis unfolding batch_start_def by (simp add: keyed_def [of "[]"])
qed

lemma batch_start_get:
  assumes "distinct (map record_id records)"
  shows "jget (working (batch_start records)) i = Some e \<longleftrightarrow> (\<exists>r\<in>set records. record_id r = i \<and> rec_event r = e)"
proof -
  have "distinct (map record_id records) \<Longrightarrow>
      jget (fold (\<lambda>r. jset (record_id r) (rec_event r)) records m) i = Some e \<longleftrightarrow>
      (\<exists>r\<in>set records. record_id r = i \<and> rec_event r = e) \<or> i \<notin> record_id ` set records \<and> jget m i = Some e" for m
  proof (induction records arbitrary: m)
    case (Cons r records)
    then show ?case by (auto split: if_splits)
  qed simp
  with assms show ?thesis by (simp add: batch_start_def)
qed

text \<open>A step that reports no conflict either removes an editable event or stores a checked one.\<close>

lemma validateCalendarMutation_None:
  assumes "validateCalendarMutation T m current = Inr None"
  shows "mutation_kind m = CreateMutation \<Longrightarrow> current = None \<and> mutation_after m \<noteq> None \<and> expectedVersion m = None"
    and "mutation_kind m \<noteq> CreateMutation \<Longrightarrow> \<exists>c. current = Some c \<and> expectedVersion m = Some (cal_version c) \<and>
      cal_kind c \<noteq> ExternalKind \<and> editable c"
    and "mutation_after m = Some after \<Longrightarrow> cal_id after = mutation_eventId m \<and> validateCalendarEvent T after = Inr ()"
  using assms
  by (auto simp: validateCalendarMutation_def bindE_eq_Inr_iff split: option.splits if_splits)

lemma mutation_step_cases:
  assumes "mutation_step cfg a m s = Inr t" and "conflicts t = []"
  obtains (drop) "validateCalendarMutation (time cfg) m (jget (working s) (mutation_eventId m)) = Inr None"
      and "mutation_kind m = DeleteMutation" and "t = drop_event (mutation_eventId m) s"
  | (store) after conflict where
      "validateCalendarMutation (time cfg) m (jget (working s) (mutation_eventId m)) = Inr None"
      and "mutation_kind m \<noteq> DeleteMutation" and "mutation_after m = Some after"
      and "detectAuthoritativeConflict (time cfg) (next_event (jget (working s) (mutation_eventId m)) after)
        (jvalues (working s)) = Inr conflict"
      and "map_option severity conflict \<noteq> Some ErrorSeverity"
      and "t = store_event cfg a (next_event (jget (working s) (mutation_eventId m)) after) conflict s"
proof -
  from assms(1) obtain invalid where v: "validateCalendarMutation (time cfg) m (jget (working s) (mutation_eventId m)) = Inr invalid"
    by (auto simp: mutation_step_def Let_def bindE_eq_Inr_iff)
  have no: "conflicts (push_conflict c s) \<noteq> []" for c by (simp add: push_conflict_def)
  have none: "invalid = None"
    using v assms no by (cases invalid) (auto simp: mutation_step_def)
  show ?thesis
  proof (cases "mutation_kind m = DeleteMutation")
    case True
    with v none assms show ?thesis by (auto simp: mutation_step_def intro: drop)
  next
    case False
    with v none assms no show ?thesis unfolding mutation_step_def Let_def
      by (auto simp: bindE_eq_Inr_iff intro: store split: if_splits option.splits)
  qed
qed

lemma mutation_step_conflicts: "mutation_step cfg a m s = Inr t \<Longrightarrow> conflicts t = [] \<Longrightarrow> conflicts s = []"
  by (erule (1) mutation_step_cases) (simp_all add: drop_event_def store_event_def)

lemma run_mutations_conflicts: "run_mutations cfg a ms s = Inr t \<Longrightarrow> conflicts t = [] \<Longrightarrow> conflicts s = []"
  by (induction ms arbitrary: s) (auto simp: bindE_eq_Inr_iff dest: mutation_step_conflicts)

lemma run_mutations_induct [consumes 2, case_names start step]:
  assumes "run_mutations cfg a ms s = Inr t" and "conflicts t = []" and "P s"
    and step: "\<And>m s t. m \<in> set ms \<Longrightarrow> P s \<Longrightarrow> mutation_step cfg a m s = Inr t \<Longrightarrow> conflicts t = [] \<Longrightarrow> P t"
  shows "P t"
  using assms(1,3) step
proof (induction ms arbitrary: s)
  case (Cons m ms)
  then obtain u where u: "mutation_step cfg a m s = Inr u" "run_mutations cfg a ms u = Inr t"
    by (auto simp: bindE_eq_Inr_iff)
  moreover from run_mutations_conflicts [OF u(2) assms(2)] have "P u" using Cons.prems u(1) by (metis list.set_intros(1))
  ultimately show ?case using Cons.IH [OF u(2)] Cons.prems(3) by (metis list.set_intros(2))
qed simp

lemma stored_id:
  assumes "validateCalendarMutation T m current = Inr None" and "mutation_after m = Some after"
  shows "cal_id (next_event c after) = mutation_eventId m"
  using validateCalendarMutation_None(3) [OF assms] by (simp add: next_event_def)

text \<open>What a step without a conflict does to the working copy.\<close>

lemma mutation_step_working:
  assumes "mutation_step cfg a m s = Inr t" and "conflicts t = []"
  shows "validateCalendarMutation (time cfg) m (jget (working s) (mutation_eventId m)) = Inr None"
    and "jget (working t) i = (if i = mutation_eventId m then
      (if mutation_kind m = DeleteMutation then None
       else map_option (next_event (jget (working s) i)) (mutation_after m)) else jget (working s) i)"
    and "mutation_kind m \<noteq> DeleteMutation \<Longrightarrow> mutation_after m \<noteq> None"
    and "keyed (working s) \<Longrightarrow> keyed (working t)"
proof -
  show "validateCalendarMutation (time cfg) m (jget (working s) (mutation_eventId m)) = Inr None"
    by (rule mutation_step_cases [OF assms])
  show "jget (working t) i = (if i = mutation_eventId m then
      (if mutation_kind m = DeleteMutation then None
       else map_option (next_event (jget (working s) i)) (mutation_after m)) else jget (working s) i)"
    by (rule mutation_step_cases [OF assms]) (simp_all add: drop_event_def store_event_def stored_id)
  show "mutation_kind m \<noteq> DeleteMutation \<Longrightarrow> mutation_after m \<noteq> None"
    by (rule mutation_step_cases [OF assms]) simp_all
  show "keyed (working s) \<Longrightarrow> keyed (working t)"
    by (rule mutation_step_cases [OF assms]) (simp_all add: drop_event_def store_event_def)
qed

lemma run_mutations_keyed:
  assumes "run_mutations cfg a ms s = Inr t" and "conflicts t = []" and "keyed (working s)"
  shows "keyed (working t)"
  using assms by (induction rule: run_mutations_induct) (auto dest: mutation_step_working(4))

lemma run_mutations_frame:
  assumes "run_mutations cfg a ms s = Inr t" and "conflicts t = []" and "i \<notin> mutation_eventId ` set ms"
  shows "jget (working t) i = jget (working s) i"
  using assms(1,2)
proof (induction rule: run_mutations_induct)
  case (step m u v)
  then have "i \<noteq> mutation_eventId m" using assms(3) by blast
  with step mutation_step_working(2) [of cfg a m u v i] show ?case by simp
qed simp

text \<open>When no event is named twice each mutation acts on the event the batch started with.\<close>

lemma run_mutations_each:
  assumes "run_mutations cfg a ms s = Inr t" and "conflicts t = []" and "distinct (map mutation_eventId ms)" and "m \<in> set ms"
  shows "validateCalendarMutation (time cfg) m (jget (working s) (mutation_eventId m)) = Inr None \<and>
    jget (working t) (mutation_eventId m) = (if mutation_kind m = DeleteMutation then None
      else map_option (next_event (jget (working s) (mutation_eventId m))) (mutation_after m)) \<and>
    (mutation_kind m \<noteq> DeleteMutation \<longrightarrow> mutation_after m \<noteq> None)"
  using assms(1,3,4)
proof (induction ms arbitrary: s)
  case (Cons n ms)
  then obtain u where u: "mutation_step cfg a n s = Inr u" "run_mutations cfg a ms u = Inr t"
    by (auto simp: bindE_eq_Inr_iff)
  note clean = run_mutations_conflicts [OF u(2) assms(2)]
  note st = mutation_step_working [OF u(1) clean]
  show ?case
  proof (cases "m = n")
    case True
    moreover have "mutation_eventId n \<notin> mutation_eventId ` set ms" using Cons.prems by simp
    ultimately show ?thesis using run_mutations_frame [OF u(2) assms(2)] st(1) st(2) [of "mutation_eventId n"] st(3) by simp
  next
    case False
    with Cons.prems have m: "m \<in> set ms" "distinct (map mutation_eventId ms)" by simp_all
    have "mutation_eventId m \<noteq> mutation_eventId n" using Cons.prems(2) imageI [OF m(1), of mutation_eventId] by auto
    with m Cons.IH [OF u(2)] st(2) [of "mutation_eventId m"] show ?thesis by simp
  qed
qed simp

lemma next_event_expected:
  assumes "validateCalendarMutation T m current = Inr None"
  shows "next_event current after = after\<lparr>cal_version := (case expectedVersion m of None \<Rightarrow> 0 | Some k \<Rightarrow> k + 1)\<rparr>"
  using validateCalendarMutation_None(1,2) [OF assms]
  by (cases "mutation_kind m = CreateMutation") (auto simp: next_event_def)

text \<open>The ids the batch upserts or deletes are the ids its mutations name.\<close>

lemma run_mutations_ids:
  "run_mutations cfg a ms s = Inr t \<Longrightarrow> conflicts t = [] \<Longrightarrow>
   mset (map record_id (batch_upserts t) @ batch_deletes t) =
     mset (map record_id (batch_upserts s) @ batch_deletes s) + mset (map mutation_eventId ms)"
proof (induction ms arbitrary: s)
  case (Cons m ms)
  then obtain u where u: "mutation_step cfg a m s = Inr u" "run_mutations cfg a ms u = Inr t"
    by (auto simp: bindE_eq_Inr_iff)
  have "mset (map record_id (batch_upserts u) @ batch_deletes u) =
      mset (map record_id (batch_upserts s) @ batch_deletes s) + {#mutation_eventId m#}"
    using u(1) run_mutations_conflicts [OF u(2) Cons.prems(2)]
    by (rule mutation_step_cases) (simp_all add: drop_event_def store_event_def stored_id)
  with Cons.IH [OF u(2) Cons.prems(2)] show ?case by simp
qed simp

text \<open>The events left in the working copy are those of the calendar after the commit.\<close>

lemma held_jset:
  "keyed m \<Longrightarrow> held (jset (cal_id e) e m) = insert e {f \<in> held m. cal_id f \<noteq> cal_id e}"
  by (rule set_eqI) (auto simp only: held_iff keyed_jset jget_jset mem_Collect_eq insert_iff split: if_splits)

lemma held_jdelete: "keyed m \<Longrightarrow> held (jdelete i m) = {f \<in> held m. cal_id f \<noteq> i}"
  by (rule set_eqI) (auto simp only: held_iff keyed_jdelete jget_jdelete mem_Collect_eq split: if_splits)

definition batch_effect :: "CalendarEvent set \<Rightarrow> batch_state \<Rightarrow> bool" where
  "batch_effect E s \<longleftrightarrow> keyed (working s) \<and>
     (distinct (map record_id (batch_upserts s) @ batch_deletes s) \<longrightarrow>
      held (working s) = {e \<in> E. cal_id e \<notin> set (batch_deletes s) \<union> record_id ` set (batch_upserts s)} \<union>
        rec_event ` set (batch_upserts s))"

lemma not_record_id: "i \<notin> record_id ` U \<Longrightarrow> r \<in> U \<Longrightarrow> record_id r \<noteq> i"
  by auto

lemma run_mutations_effect:
  assumes "run_mutations cfg a ms (batch_start records) = Inr t" and "conflicts t = []"
  shows "batch_effect (held (working (batch_start records))) t"
  using assms
proof (induction rule: run_mutations_induct)
  case start
  then show ?case using batch_start_keyed by (simp add: batch_effect_def) (simp add: batch_start_def)
next
  case (step m s t)
  have keyed: "keyed (working s)" using step(4) by (simp add: batch_effect_def)
  from step(2,3) show ?case
  proof (cases rule: mutation_step_cases)
    case drop
    with step(4) keyed show ?thesis
      by (auto simp: batch_effect_def drop_event_def held_jdelete dest: not_record_id)
  next
    case (store after conflict)
    with step(4) keyed show ?thesis
      by (auto simp: batch_effect_def store_event_def held_jset dest: not_record_id)
  qed
qed





lemma batch_start_held:
  assumes "distinct (map record_id records)"
  shows "held (working (batch_start records)) = rec_event ` set records"
  using batch_start_get [OF assms] held_iff [OF batch_start_keyed, of _ records] by auto

subsection \<open>The storage contract and its client\<close>

lemma add_page_append:
  "distinct (map record_id (records @ page)) \<Longrightarrow> add_page records page = (records @ page, length page)"
  by (induction page arbitrary: records) auto

text \<open>
  The repository relies on this: an operation lets the other clients write first; no write goes
  without a new revision; a page is a slice of the account's rows; and a commit succeeds only on
  the revision it names and then replaces exactly the rows of the batch.
\<close>

locale calendar_store =
  fixes storage :: "'s calendar_storage"
    and rows :: "'s \<Rightarrow> string \<Rightarrow> AgentCalendarEventRecord list"
    and rev_of :: "'s \<Rightarrow> string \<Rightarrow> int"
    and others :: "'s \<Rightarrow> 's \<Rightarrow> bool"
    and ok :: "'s \<Rightarrow> bool"
  assumes self: "others w w"
    and trans: "others v u \<Longrightarrow> others w v \<Longrightarrow> others w u"
    and ok_kept: "others w v \<Longrightarrow> ok w \<Longrightarrow> ok v"
    and rev_grows: "others w v \<Longrightarrow> ok w \<Longrightarrow> rev_of w a \<le> rev_of v a"
    and rows_kept: "others w v \<Longrightarrow> ok w \<Longrightarrow> rev_of v a = rev_of w a \<Longrightarrow> rows v a = rows w a"
    and rows_distinct: "ok w \<Longrightarrow> distinct (map record_id (rows w a))"
    and get_revision: "st_getCalendarRevision storage a w = (res, v) \<Longrightarrow> others w v \<and> (\<forall>n. res = Inr n \<longrightarrow> n = rev_of v a)"
    and list_page: "st_listCalendarEvents storage a (page_options off) w = (got, v) \<Longrightarrow>
      others w v \<and> (\<forall>page. got = Inr page \<longrightarrow> page = take pageSize (drop off (rows v a)))"
    and commit_refused: "st_commitCalendarBatch storage a batch w = (Inl e, v) \<Longrightarrow> others w v"
    and commit_done: "st_commitCalendarBatch storage a batch w = (Inr n, v) \<Longrightarrow> ok w \<Longrightarrow>
      \<exists>u. others w u \<and> rev_of u a = expectedRevision batch \<and> n = rev_of u a + 1 \<and> rev_of v a = n \<and>
        distinct (map record_id (upserts batch) @ deletes batch) \<and>
        set (rows v a) = {r \<in> set (rows u a). record_id r \<notin> set (deletes batch) \<union> record_id ` set (upserts batch)} \<union>
          set (upserts batch)"
begin

lemma rows_between:
  assumes "others w v" and "others v u" and "ok w" and "rev_of u a = rev_of w a"
  shows "rows v a = rows w a" and "rows u a = rows w a" and "rev_of v a = rev_of w a"
proof -
  have "rev_of w a \<le> rev_of v a" "rev_of v a \<le> rev_of u a"
    using assms rev_grows ok_kept by blast+
  then show v: "rev_of v a = rev_of w a" using assms(4) by simp
  show "rows v a = rows w a" using assms(1,3) v by (rule rows_kept)
  show "rows u a = rows w a" using trans [OF assms(2,1)] assms(3,4) by (rule rows_kept)
qed

text \<open>Pages read while the revision stood still make up the calendar.\<close>

lemma page_joins:
  assumes "ok w" and "add_page (take off (rows w a)) (take pageSize (drop off (rows w a))) = (all, added)"
  shows "all = take (off + pageSize) (rows w a)"
proof -
  have "distinct (map record_id (take off (rows w a) @ take pageSize (drop off (rows w a))))"
    using rows_distinct [OF assms(1), of a] by (simp only: take_add [symmetric] take_map [symmetric] distinct_take)
  from add_page_append [OF this] assms(2) show ?thesis by (simp add: take_add)
qed

lemma list_pages_others:
  assumes "list_pages storage a pages off records w = (res, v)"
  shows "others w v"
  using assms
proof (induction pages arbitrary: off records w)
  case (Suc pages)
  obtain got w1 where l: "st_listCalendarEvents storage a (page_options off) w = (got, w1)" by fastforce
  with list_page have ow: "others w w1" by blast
  then have "v = w1 \<or> (\<exists>off1 records1. list_pages storage a pages off1 records1 w1 = (res, v))"
    using Suc.prems l by (auto simp: andThen_def ret_def throw_def split: sum.splits prod.splits if_splits)
  with ow Suc.IH trans show ?case by blast
qed (simp add: throw_def self)

lemma list_pages_all:
  assumes "list_pages storage a pages off (take off (rows w a)) w = (Inr all, v)" and "ok w" and "rev_of v a = rev_of w a"
  shows "all = rows w a"
  using assms
proof (induction pages arbitrary: off w)
  case (Suc pages)
  from Suc.prems(1) obtain page w1 where l: "st_listCalendarEvents storage a (page_options off) w = (Inr page, w1)"
    by (auto simp: andThen_def split: sum.splits prod.splits)
  then have ow: "others w w1" and page: "page = take pageSize (drop off (rows w1 a))" using list_page by blast+
  obtain all1 added where ad: "add_page (take off (rows w a)) page = (all1, added)" by fastforce
  have ok1: "ok w1" using ow Suc.prems(2) by (rule ok_kept)
  consider (last) "length page < pageSize" "all = all1" "v = w1"
    | (more) "list_pages storage a pages (off + pageSize) all1 w1 = (Inr all, v)"
    using Suc.prems(1) l ad by (auto simp: andThen_def ret_def throw_def split: if_splits)
  then show ?case
  proof cases
    case last
    have same: "rows w1 a = rows w a" using rows_kept [OF ow Suc.prems(2)] Suc.prems(3) last by simp
    from last page have "take (off + pageSize) (rows w1 a) = rows w1 a" by simp
    with page_joins [OF ok1, of off a all1 added] ad last page same show ?thesis by simp
  next
    case more
    note same = rows_between [OF ow list_pages_others [OF more] Suc.prems(2,3)]
    have "all1 = take (off + pageSize) (rows w1 a)"
      using page_joins [OF ok1, of off a all1 added] ad page same by simp
    with Suc.IH [of "off + pageSize" w1] more ok1 same Suc.prems(3) show ?thesis by simp
  qed
qed (simp add: throw_def)

text \<open>A stable read returns the calendar as it is at its end.\<close>

lemma read_attempts_stable:
  assumes "read_attempts storage cfg a n w = (Inr (revision, records), v)" and "ok w"
  shows "others w v \<and> revision = rev_of v a \<and> records = rows v a"
  using assms
proof (induction n arbitrary: w)
  case (Suc n)
  from Suc.prems(1) obtain before w1 where g1: "st_getCalendarRevision storage a w = (Inr before, w1)"
    by (auto simp: andThen_def split: sum.splits prod.splits)
  with Suc.prems(1) obtain recs w2 where l: "listAllCalendarEvents storage cfg a w1 = (Inr recs, w2)"
    by (auto simp: andThen_def split: sum.splits prod.splits)
  with g1 Suc.prems(1) obtain after w3 where g2: "st_getCalendarRevision storage a w2 = (Inr after, w3)"
    by (auto simp: andThen_def split: sum.splits prod.splits)
  note b = get_revision [OF g1] and c = get_revision [OF g2]
  have m: "others w1 w2" using l unfolding listAllCalendarEvents_def by (rule list_pages_others)
  have o1: "ok w1" using conjunct1 [OF b] Suc.prems(2) by (rule ok_kept)
  have o13: "others w1 w3" using conjunct1 [OF c] m by (rule trans)
  have ow3: "others w w3" using o13 conjunct1 [OF b] by (rule trans)
  have o3: "ok w3" using o13 o1 by (rule ok_kept)
  show ?case
  proof (cases "before = after")
    case True
    with g1 l g2 Suc.prems(1) have v: "v = w3" "revision = after" "records = recs"
      by (auto simp: andThen_def ret_def)
    have "rev_of w3 a = rev_of w1 a" using b c True by simp
    note same = rows_between [OF m conjunct1 [OF c] o1 this]
    have "rev_of w2 a = rev_of w1 a" "rows w3 a = rows w1 a" by (rule same)+
    moreover from this have "recs = rows w1 a"
      using list_pages_all [of a "max_pages cfg" 0 w1 recs w2] l o1 unfolding listAllCalendarEvents_def by simp
    ultimately show ?thesis using v ow3 c by simp
  next
    case False
    with g1 l g2 Suc.prems(1) have "read_attempts storage cfg a n w3 = (Inr (revision, records), v)"
      by (simp add: andThen_def)
    note ih = Suc.IH [OF this o3]
    with trans [OF conjunct1 [OF ih] ow3] show ?thesis by simp
  qed
qed (simp add: throw_def)

text \<open>A batch that is not committed leaves the calendar to the other clients.\<close>

lemma prepare_others:
  assumes "prepareMutationBatch storage cfg a b ms expected w = (res, v)"
  shows "others w v"
proof -
  obtain got w1 where g: "st_getCalendarRevision storage a w = (got, w1)" by fastforce
  obtain all w2 where l: "listAllCalendarEvents storage cfg a w1 = (all, w2)" by fastforce
  have "others w w1" using get_revision [OF g] by blast
  moreover have "others w1 w2" using l unfolding listAllCalendarEvents_def by (rule list_pages_others)
  ultimately have "others w w2" using trans by blast
  moreover have "v = w \<or> v = w1 \<or> v = w2"
    using assms g l by (auto simp: prepareMutationBatch_def andThen_def ret_def throw_def split: if_splits sum.splits)
  ultimately show ?thesis using self \<open>others w w1\<close> by blast
qed

lemma mutateBatch_refused:
  assumes "mutateBatch storage cfg a b ms expected w = (res, v)" and "\<nexists>evs ws n. res = Inr (BatchOk b evs ws n)"
  shows "others w v"
proof -
  obtain prepared w1 where p: "prepareMutationBatch storage cfg a b ms expected w = (prepared, w1)" by fastforce
  note ow = prepare_others [OF p]
  show ?thesis
  proof (cases "v = w1")
    case False
    with assms p obtain commit e where "st_commitCalendarBatch storage a commit w1 = (Inl e, v)"
      by (auto simp: mutateBatch_def andThen_def split: sum.splits prod.splits PreparedCalendarMutationBatch.splits)
    then show ?thesis using commit_refused ow trans by blast
  qed (use ow in simp)
qed

text \<open>A batch is checked against the calendar it is committed to.\<close>

lemma prepare_ok:
  assumes "prepareMutationBatch storage cfg a b ms expected w = (Inr (PreparedOk b' evs ws commit), v)" and "ok w"
    and "others v u" and "rev_of u a = expectedRevision commit"
  shows "\<exists>s. run_mutations cfg a ms (batch_start (rows u a)) = Inr s \<and> conflicts s = [] \<and> evs = outputs s \<and>
    upserts commit = batch_upserts s \<and> deletes commit = batch_deletes s"
proof -
  from assms(1) obtain n w1 where g: "st_getCalendarRevision storage a w = (Inr n, w1)"
    by (auto simp: prepareMutationBatch_def andThen_def throw_def split: if_splits sum.splits prod.splits)
  with assms(1) obtain all where l: "listAllCalendarEvents storage cfg a w1 = (Inr all, v)"
    by (auto simp: prepareMutationBatch_def andThen_def ret_def throw_def split: if_splits sum.splits prod.splits)
  from assms(1) g l obtain s where s: "run_mutations cfg a ms (batch_start all) = Inr s" "conflicts s = []"
    "evs = outputs s" "commit = \<lparr>expectedRevision = n, upserts = batch_upserts s, deletes = batch_deletes s\<rparr>"
    by (auto simp: prepareMutationBatch_def andThen_def ret_def throw_def split: if_splits sum.splits)
  note r = get_revision [OF g]
  have o1: "ok w1" using conjunct1 [OF r] assms(2) by (rule ok_kept)
  have m: "others w1 v" using l unfolding listAllCalendarEvents_def by (rule list_pages_others)
  have "rev_of u a = rev_of w1 a" using assms(4) s(4) r by simp
  note same = rows_between [OF m assms(3) o1 this]
  have "all = rows w1 a"
    using list_pages_all [of a "max_pages cfg" 0 w1 all v] l o1 same unfolding listAllCalendarEvents_def by simp
  with s same show ?thesis by auto
qed

lemma mutateBatch_done:
  assumes "mutateBatch storage cfg a b ms expected w = (Inr (BatchOk b' evs ws n), v)" and "ok w"
  obtains u s where "others w u" and "run_mutations cfg a ms (batch_start (rows u a)) = Inr s" and "conflicts s = []"
    and "n = rev_of u a + 1" and "rev_of v a = n" and "distinct (map mutation_eventId ms)" and "evs = outputs s"
    and "held (working (batch_start (rows u a))) = rec_event ` set (rows u a)"
    and "held (working s) = rec_event ` set (rows v a)"
proof -
  from assms(1) obtain b1 commit w1 where
    p: "prepareMutationBatch storage cfg a b ms expected w = (Inr (PreparedOk b1 evs ws commit), w1)"
    and c: "st_commitCalendarBatch storage a commit w1 = (Inr n, v)"
    by (auto simp: mutateBatch_def andThen_def split: sum.splits prod.splits PreparedCalendarMutationBatch.splits if_splits)
  have ow: "others w w1" using p by (rule prepare_others)
  then have "ok w1" using assms(2) by (rule ok_kept)
  from commit_done [OF c this] obtain u where u: "others w1 u" "rev_of u a = expectedRevision commit"
    "n = rev_of u a + 1" "rev_of v a = n" "distinct (map record_id (upserts commit) @ deletes commit)"
    "set (rows v a) = {r \<in> set (rows u a). record_id r \<notin> set (deletes commit) \<union> record_id ` set (upserts commit)} \<union>
       set (upserts commit)" by blast
  from prepare_ok [OF p assms(2) u(1,2)] obtain s where s: "run_mutations cfg a ms (batch_start (rows u a)) = Inr s"
    "conflicts s = []" "evs = outputs s" "upserts commit = batch_upserts s" "deletes commit = batch_deletes s" by blast
  have ou: "others w u" using u(1) ow by (rule trans)
  have start: "held (working (batch_start (rows u a))) = rec_event ` set (rows u a)"
    using rows_distinct [OF ok_kept [OF ou assms(2)]] by (rule batch_start_held)
  have d: "distinct (map record_id (batch_upserts s) @ batch_deletes s)" using u(5) s by simp
  have "mset (map record_id (batch_upserts s) @ batch_deletes s) = mset (map mutation_eventId ms)"
    using run_mutations_ids [OF s(1,2)] by (simp add: batch_start_def)
  from mset_eq_imp_distinct_iff [OF this] d have "distinct (map mutation_eventId ms)" by blast
  moreover have "held (working s) = rec_event ` set (rows v a)"
    using run_mutations_effect [OF s(1,2)] d unfolding batch_effect_def start u(6) s(4,5) by auto
  ultimately show ?thesis using that ou s u(3,4) start by blast
qed

end

subsection \<open>The tables provide the storage\<close>

abbreviation calendar_of :: "calendar_world \<Rightarrow> string \<Rightarrow> CalendarEvent set" where
  "calendar_of w a \<equiv> rec_event ` set (table (cal_db w) a)"

lemma on_world_others:
  assumes "on_world zoned op w = (res, v)" and "\<And>db. snd (op db) = db \<or> (\<exists>a. snd (op db) = accountContext a db)"
  shows "others_only zoned w v"
proof -
  let ?w = "let_others_run zoned w"
  have "others_only zoned w ?w" by (intro others_write others_refl)
  moreover have "v = ?w\<lparr>cal_db := snd (op (cal_db ?w))\<rparr>"
    using assms(1) by (auto simp: on_world_def Let_def split: prod.splits)
  ultimately show ?thesis using assms(2) [of "cal_db ?w"] others_open by fastforce
qed

lemma on_world_result: "on_world zoned op w = (res, v) \<Longrightarrow> op (cal_db (let_others_run zoned w)) = (res, cal_db v)"
  by (auto simp: on_world_def Let_def split: prod.splits)

lemma on_world_state: "on_world zoned op w = (res, v) \<Longrightarrow> v = (let_others_run zoned w)\<lparr>cal_db := cal_db v\<rparr>"
  by (auto simp: on_world_def Let_def split: prod.splits)

lemma get_opens: "snd (getCalendarRevision a db) = db \<or> (\<exists>b. snd (getCalendarRevision a db) = accountContext b db)"
  by (auto simp: getCalendarRevision_def Let_def split: sum.split)

lemma listCalendarEvents_page:
  "fst (listCalendarEvents a (page_options off) db) = Inr page \<Longrightarrow> page = take pageSize (drop off (table db a))"
  by (auto simp: listCalendarEvents_def page_options_def bindE_eq_Inr_iff table_def take_map drop_map)

lemma commit_cases:
  assumes "commitCalendarBatch zoned a batch db = (res, changed)"
  obtains (refused) e where "res = Inl e" and "changed = db \<or> changed = accountContext a db"
  | (accepted) ids rows opened where "prepareCalendarBatch zoned a batch = Inr (ids, rows)"
      and "opened = db \<or> opened = accountContext a db" and "revision_of opened a = expectedRevision batch"
      and "res = Inr (expectedRevision batch + 1)"
      and "changed = set_revision a (expectedRevision batch + 1) (apply_batch a ids rows opened)"
proof (cases "prepareCalendarBatch zoned a batch")
  case (Inl e)
  with assms show ?thesis by (intro refused) (auto simp: commitCalendarBatch_def)
next
  case (Inr prepared)
  obtain ids rows where p: "prepared = (ids, rows)" by fastforce
  let ?opened = "if upserts batch = [] then db else accountContext a db"
  show ?thesis
  proof (cases "readCalendarRevision a ?opened = Inr (expectedRevision batch)")
    case True
    from accepted [OF Inr [unfolded p], of ?opened] assms Inr p readCalendarRevision_revision [OF True] True
    show ?thesis by (auto simp: commitCalendarBatch_def transact_def Let_def split: if_splits)
  next
    case False
    with assms Inr p have "changed = ?opened \<and> (\<exists>e. res = Inl e)"
      by (cases "readCalendarRevision a ?opened") (simp_all add: commitCalendarBatch_def transact_def Let_def split del: if_split, blast+)
    then show ?thesis using refused by (auto split: if_splits)
  qed
qed

interpretation tables: calendar_store "table_storage zoned" "\<lambda>w. table (cal_db w)" "\<lambda>w. revision_of (cal_db w)"
  "others_only zoned" "\<lambda>w. db_ok (cal_db w)" for zoned
proof (unfold_locales, goal_cases)
  case (1 w)
  show ?case by (rule others_refl)
next
  case (2 v u w)
  then show ?case by (rule others_trans)
next
  case (3 w v)
  then show ?case using others_honest by (auto simp: honest_step_def)
next
  case (4 w v a)
  then show ?case using others_honest by (auto simp: honest_step_def)
next
  case (5 w v a)
  then show ?case using others_honest by (auto simp: honest_step_def)
next
  case (6 w a)
  then show ?case by (rule distinct_table)
next
  case (7 a w res v)
  then have "on_world zoned (getCalendarRevision a) w = (res, v)" by (simp add: table_storage_def)
  note op = this
  have "n = revision_of (cal_db v) a" if "res = Inr n" for n
    using on_world_result [OF op] that
    by (auto simp: getCalendarRevision_def Let_def dest: readCalendarRevision_revision split: sum.splits)
  then show ?case using on_world_others [OF op get_opens] by blast
next
  case (8 a off w got v)
  then have op: "on_world zoned (listCalendarEvents a (page_options off)) w = (got, v)" by (simp add: table_storage_def)
  have keep: "snd (listCalendarEvents a (page_options off) db) = db" for db by (simp add: listCalendarEvents_def)
  have "page = take pageSize (drop off (table (cal_db v) a))" if "got = Inr page" for page
    using on_world_result [OF op] keep [of "cal_db (let_others_run zoned w)"] that
      listCalendarEvents_page [of a off "cal_db (let_others_run zoned w)" page] by simp
  moreover have "others_only zoned w v" by (rule on_world_others [OF op]) (simp add: keep)
  ultimately show ?case by blast
next
  case (9 a batch w e v)
  then have op: "on_world zoned (commitCalendarBatch zoned a batch) w = (Inl e, v)" by (simp add: table_storage_def)
  have "others_only zoned w (let_others_run zoned w)" by (intro others_write others_refl)
  note steps = this others_open [OF this, of a]
  have "cal_db v = cal_db (let_others_run zoned w) \<or> cal_db v = accountContext a (cal_db (let_others_run zoned w))"
    using on_world_result [OF op] by (rule commit_cases) auto
  then show ?case using steps on_world_state [OF op] by auto
next
  case (10 a batch w n v)
  then have op: "on_world zoned (commitCalendarBatch zoned a batch) w = (Inr n, v)" by (simp add: table_storage_def)
  let ?w = "let_others_run zoned w"
  have ow: "others_only zoned w ?w" by (intro others_write others_refl)
  with 10(2) have db: "db_ok (cal_db ?w)" using others_honest by (auto simp: honest_step_def)
  from on_world_result [OF op] show ?case
  proof (rule commit_cases)
    fix ids rows opened
    assume prep: "prepareCalendarBatch zoned a batch = Inr (ids, rows)"
      and opened: "opened = cal_db ?w \<or> opened = accountContext a (cal_db ?w)"
      and r: "revision_of opened a = expectedRevision batch" "Inr n = Inr (expectedRevision batch + 1)"
        "cal_db v = set_revision a (expectedRevision batch + 1) (apply_batch a ids rows opened)"
    have "others_only zoned w (?w\<lparr>cal_db := opened\<rparr>)" "db_ok opened"
      using opened ow db others_open by auto
    with prep r prepareCalendarBatch_facts [OF prep] table_apply_batch [OF prep, of opened] show ?thesis
      by (intro exI [of _ "?w\<lparr>cal_db := opened\<rparr>"]) auto
  qed simp
qed

subsection \<open>Properties\<close>



text \<open>A batch that ends in conflicts or in an error writes nothing: the calendar is what the
  other clients make of it.\<close>

lemma refused_batch_changes_nothing:
  assumes "mutateBatch (table_storage zoned) cfg a b ms expected w = (res, v)"
    and "\<nexists>evs ws n. res = Inr (BatchOk b evs ws n)"
  shows "others_only zoned w v"
  using assms by (rule tables.mutateBatch_refused)

text \<open>What a batch without a conflict does, read off the events before and after it.\<close>

lemma batch_met_versions:
  assumes "run_mutations cfg a ms s = Inr t" and "conflicts t = []" and "distinct (map mutation_eventId ms)"
    and "keyed (working s)" and "m \<in> set ms"
  shows "if mutation_kind m = CreateMutation then (\<forall>e\<in>held (working s). cal_id e \<noteq> mutation_eventId m)
    else (\<exists>e\<in>held (working s). cal_id e = mutation_eventId m \<and> expectedVersion m = Some (cal_version e) \<and>
      cal_kind e \<noteq> ExternalKind \<and> editable e)"
proof -
  note valid = conjunct1 [OF run_mutations_each [OF assms(1-3,5)]]
  show ?thesis
  proof (cases "mutation_kind m = CreateMutation")
    case True
    with validateCalendarMutation_None(1) [OF valid] show ?thesis using held_iff [OF assms(4)] by auto
  next
    case False
    from validateCalendarMutation_None(2) [OF valid False] obtain c where
      c: "jget (working s) (mutation_eventId m) = Some c" "expectedVersion m = Some (cal_version c)"
        "cal_kind c \<noteq> ExternalKind" "editable c" by blast
    moreover from this have "cal_id c = mutation_eventId m" using assms(4) unfolding keyed_def by blast
    ultimately show ?thesis using False held_iff [OF assms(4), of c] by auto
  qed
qed

lemma batch_took_effect:
  assumes "run_mutations cfg a ms s = Inr t" and "conflicts t = []" and "distinct (map mutation_eventId ms)"
    and "keyed (working t)" and "m \<in> set ms"
  shows "if mutation_kind m = DeleteMutation then (\<forall>e\<in>held (working t). cal_id e \<noteq> mutation_eventId m)
    else (\<exists>after. mutation_after m = Some after \<and>
      after\<lparr>cal_version := (case expectedVersion m of None \<Rightarrow> 0 | Some k \<Rightarrow> k + 1)\<rparr> \<in> held (working t))"
proof -
  note each = run_mutations_each [OF assms(1-3,5)]
  show ?thesis
  proof (cases "mutation_kind m = DeleteMutation")
    case True
    with each show ?thesis using held_iff [OF assms(4)] by auto
  next
    case False
    with each obtain after where after: "mutation_after m = Some after" by auto
    have "jget (working t) (mutation_eventId m) =
        Some (after\<lparr>cal_version := (case expectedVersion m of None \<Rightarrow> 0 | Some k \<Rightarrow> k + 1)\<rparr>)"
      using each False after next_event_expected [OF conjunct1 [OF each]] by simp
    moreover have "cal_id after = mutation_eventId m"
      using validateCalendarMutation_None(3) [OF conjunct1 [OF each] after] by blast
    ultimately show ?thesis using False after held_iff [OF assms(4)] by auto
  qed
qed

lemma batch_frame:
  assumes "run_mutations cfg a ms s = Inr t" and "conflicts t = []" and "keyed (working s)" and "keyed (working t)"
    and "cal_id e \<notin> mutation_eventId ` set ms"
  shows "e \<in> held (working t) \<longleftrightarrow> e \<in> held (working s)"
  using run_mutations_frame [OF assms(1,2,5)] held_iff [OF assms(3)] held_iff [OF assms(4)] by simp

lemma batch_keeps_read_only:
  assumes "run_mutations cfg a ms s = Inr t" and "conflicts t = []" and "distinct (map mutation_eventId ms)"
    and "keyed (working s)" and "keyed (working t)"
    and e: "e \<in> held (working s)" "cal_kind e = ExternalKind \<or> \<not> editable e"
  shows "e \<in> held (working t)"
proof -
  have "cal_id e \<noteq> mutation_eventId m" if m: "m \<in> set ms" for m
  proof
    assume id: "cal_id e = mutation_eventId m"
    with batch_met_versions [OF assms(1-4) m] e(1) have nc: "mutation_kind m \<noteq> CreateMutation" by (auto split: if_splits)
    with batch_met_versions [OF assms(1-4) m] obtain f where
      f: "f \<in> held (working s)" "cal_id f = mutation_eventId m" "cal_kind f \<noteq> ExternalKind" "editable f" by auto
    with id e(1) have "f = e" using held_iff [OF assms(4)] by simp
    with f e(2) show False by blast
  qed
  then have "cal_id e \<notin> mutation_eventId ` set ms" by blast
  with batch_frame [OF assms(1,2,4,5)] e(1) show ?thesis by blast
qed

text \<open>C20: A committed batch acts on the very calendar it replaces, whatever other clients wrote
  while it was prepared: every mutation met the version it expected and took effect once, read-only
  and external events and all events the batch does not name are untouched, and the revision
  moves by one.\<close>

theorem committed_batch_exact:
  assumes "mutateBatch (table_storage zoned) cfg a b ms expected w = (Inr (BatchOk b' evs ws n), v)"
    and "db_ok (cal_db w)"
  shows "\<exists>u. others_only zoned w u \<and> revision_of (cal_db v) a = n \<and> n = revision_of (cal_db u) a + 1 \<and>
    (\<forall>m\<in>set ms. if mutation_kind m = CreateMutation
       then (\<forall>e\<in>calendar_of u a. cal_id e \<noteq> mutation_eventId m)
       else (\<exists>e\<in>calendar_of u a. cal_id e = mutation_eventId m \<and> expectedVersion m = Some (cal_version e))) \<and>
    (\<forall>m\<in>set ms. if mutation_kind m = DeleteMutation
       then (\<forall>e\<in>calendar_of v a. cal_id e \<noteq> mutation_eventId m)
       else (\<exists>after. mutation_after m = Some after \<and>
         after\<lparr>cal_version := (case expectedVersion m of None \<Rightarrow> 0 | Some k \<Rightarrow> k + 1)\<rparr> \<in> calendar_of v a)) \<and>
    (\<forall>e. cal_id e \<notin> mutation_eventId ` set ms \<longrightarrow> (e \<in> calendar_of v a \<longleftrightarrow> e \<in> calendar_of u a)) \<and>
    (\<forall>e\<in>calendar_of u a. cal_kind e = ExternalKind \<or> \<not> editable e \<longrightarrow> e \<in> calendar_of v a)"
proof -
  from assms obtain u s where us: "others_only zoned w u"
    "run_mutations cfg a ms (batch_start (table (cal_db u) a)) = Inr s" "conflicts s = []"
    "n = revision_of (cal_db u) a + 1" "revision_of (cal_db v) a = n" "distinct (map mutation_eventId ms)"
    "held (working (batch_start (table (cal_db u) a))) = calendar_of u a" "held (working s) = calendar_of v a"
    by (rule tables.mutateBatch_done)
  note kW = batch_start_keyed [of "table (cal_db u) a"]
  note ks = run_mutations_keyed [OF us(2,3) kW]
  show ?thesis
  proof (intro exI [of _ u] conjI ballI allI impI)
    show "others_only zoned w u" "revision_of (cal_db v) a = n" "n = revision_of (cal_db u) a + 1" using us by simp_all
  next
    fix m assume m: "m \<in> set ms"
    from batch_met_versions [OF us(2,3,6) kW m, unfolded us(7)]
    show "if mutation_kind m = CreateMutation then (\<forall>e\<in>calendar_of u a. cal_id e \<noteq> mutation_eventId m)
       else (\<exists>e\<in>calendar_of u a. cal_id e = mutation_eventId m \<and> expectedVersion m = Some (cal_version e))"
      by (auto split: if_splits)
    from batch_took_effect [OF us(2,3,6) ks m, unfolded us(8)]
    show "if mutation_kind m = DeleteMutation then (\<forall>e\<in>calendar_of v a. cal_id e \<noteq> mutation_eventId m)
       else (\<exists>after. mutation_after m = Some after \<and>
         after\<lparr>cal_version := (case expectedVersion m of None \<Rightarrow> 0 | Some k \<Rightarrow> k + 1)\<rparr> \<in> calendar_of v a)" .
  next
    fix e :: CalendarEvent assume "cal_id e \<notin> mutation_eventId ` set ms"
    from batch_frame [OF us(2,3) kW ks this, unfolded us(7,8)]
    show "e \<in> calendar_of v a \<longleftrightarrow> e \<in> calendar_of u a" .
  next
    fix e :: CalendarEvent assume "e \<in> calendar_of u a" "cal_kind e = ExternalKind \<or> \<not> editable e"
    from batch_keeps_read_only [OF us(2,3,6) kW ks, unfolded us(7,8), OF this] show "e \<in> calendar_of v a" .
  qed
qed

subsection \<open>Reading the whole calendar\<close>

text \<open>While no other client writes, one page more than the rows fill is enough.\<close>

lemma list_quiet:
  assumes "pending w = []" and "validateIdentifier a = Inr ()" and "int off \<le> MAX_SAFE_INTEGER"
  shows "st_listCalendarEvents (table_storage zoned) a (page_options off) w =
    (Inr (take pageSize (drop off (table (cal_db w) a))), w)"
  using assms
  by (simp add: table_storage_def on_world_def let_others_run_def listCalendarEvents_def page_options_def bindE_def
      validateLimit_def pageSize_def MAX_LIST_LIMIT_def table_def take_map drop_map ensure_def)

lemma list_pages_enough:
  assumes "pending w = []" and "validateIdentifier a = Inr ()" and "db_ok (cal_db w)"
    and "int (length (table (cal_db w) a)) \<le> MAX_SAFE_INTEGER"
    and "off \<le> length (table (cal_db w) a)" and "length (table (cal_db w) a) < off + pageSize * pages"
  shows "list_pages (table_storage zoned) a pages off (take off (table (cal_db w) a)) w = (Inr (table (cal_db w) a), w)"
  using assms(5,6)
proof (induction pages arbitrary: off)
  case (Suc pages)
  let ?rows = "table (cal_db w) a" and ?page = "take pageSize (drop off (table (cal_db w) a))"
  have d: "distinct (map record_id (take off ?rows @ ?page))"
    using distinct_table [OF assms(3), of a] by (simp only: take_add [symmetric] take_map [symmetric] distinct_take)
  have l: "st_listCalendarEvents (table_storage zoned) a (page_options off) w = (Inr ?page, w)"
    by (rule list_quiet) (use assms(1,2,4) Suc.prems(1) in auto)
  have add: "add_page (take off ?rows) ?page = (take (off + pageSize) ?rows, length ?page)"
    using add_page_append [OF d] by (simp add: take_add)
  show ?case
  proof (cases "length ?page < pageSize")
    case True
    then have "take (off + pageSize) ?rows = ?rows" by simp
    with True l add show ?thesis by (simp add: andThen_def ret_def min_less_iff_disj)
  next
    case False
    then have "off + pageSize \<le> length ?rows" and "length ?page \<noteq> 0" by (auto simp: pageSize_def)
    with Suc.IH [of "off + pageSize"] Suc.prems(2) False l add show ?thesis by (simp add: andThen_def)
  qed
qed simp

lemma get_quiet:
  assumes "pending w = []" and "validateIdentifier a = Inr ()" and "jget (calendar_revisions (cal_db w)) a = Some n"
  shows "st_getCalendarRevision (table_storage zoned) a w = (Inr n, w)"
  using assms
  by (simp add: table_storage_def on_world_def let_others_run_def getCalendarRevision_def accountContext_def
      readCalendarRevision_def Let_def)

text \<open>C25: A calendar that is loaded is the whole calendar at the revision it is labelled with,
  whatever other clients write during the reading of its pages; and while they do not write, the
  loading succeeds with one page more than the rows fill.\<close>

theorem load_returns_whole_calendar:
  assumes "db_ok (cal_db w)"
  shows "(load (table_storage zoned) cfg a w = (Inr response, v) \<longrightarrow>
      others_only zoned w v \<and> load_revision response = revision_of (cal_db v) a \<and>
      load_events response = map rec_event (table (cal_db v) a)) \<and>
    (pending w = [] \<and> validateIdentifier a = Inr () \<and> jget (calendar_revisions (cal_db w)) a = Some n \<and>
      int (length (table (cal_db w) a)) \<le> MAX_SAFE_INTEGER \<and>
      length (table (cal_db w) a) < pageSize * max_pages cfg \<longrightarrow>
      load (table_storage zoned) cfg a w =
        (Inr \<lparr>load_revision = n, load_timeZone = timeZone cfg, load_events = map rec_event (table (cal_db w) a)\<rparr>, w))"
proof (intro conjI impI)
  assume l: "load (table_storage zoned) cfg a w = (Inr response, v)"
  then obtain revision records where r: "read_attempts (table_storage zoned) cfg a 2 w = (Inr (revision, records), v)"
    and "response = \<lparr>load_revision = revision, load_timeZone = timeZone cfg, load_events = map rec_event records\<rparr>"
    by (auto simp: load_def readStableCalendar_def andThen_def ret_def split: prod.splits sum.splits)
  with tables.read_attempts_stable [OF r assms]
  show "others_only zoned w v" "load_revision response = revision_of (cal_db v) a"
    "load_events response = map rec_event (table (cal_db v) a)" by simp_all
next
  assume q: "pending w = [] \<and> validateIdentifier a = Inr () \<and> jget (calendar_revisions (cal_db w)) a = Some n \<and>
      int (length (table (cal_db w) a)) \<le> MAX_SAFE_INTEGER \<and> length (table (cal_db w) a) < pageSize * max_pages cfg"
  then have "list_pages (table_storage zoned) a (max_pages cfg) 0 [] w = (Inr (table (cal_db w) a), w)"
    using list_pages_enough [of w a 0 "max_pages cfg" zoned] assms by simp
  with q get_quiet [of w a n zoned]
  show "load (table_storage zoned) cfg a w =
        (Inr \<lparr>load_revision = n, load_timeZone = timeZone cfg, load_events = map rec_event (table (cal_db w) a)\<rparr>, w)"
    by (simp add: load_def readStableCalendar_def listAllCalendarEvents_def numeral_2_eq_2 andThen_def ret_def)
qed

end
