(* ===== verification/CalendarExamples.thy ===== *)
theory CalendarExamples
  imports CalendarRepository
begin

text \<open>
  The calendar's properties at a concrete calendar, with a time library whose instants are written
  as minutes and whose only zone is UTC. Another client writes an external event before the batch
  reads the revision.
\<close>

definition example_time :: time_library where
  "example_time =
     \<lparr>instant_from = \<lambda>s. if s \<noteq> [] \<and> list_all is_decimal s then Some (int (decimal_value s) * 60000000000) else None,
      plain_date_from = \<lambda>s. if is_date_only s then Some (int (decimal_value (drop 8 s))) else None,
      is_time_zone = \<lambda>z. z = ''UTC'', to_local = \<lambda>_ t. t, from_local = \<lambda>_ t. t,
      date_string = \<lambda>d. ''2025-01-'' @ pad_start 2 (CHR ''0'') (show_int d),
      rule_between = \<lambda>_ _ _ _. Some []\<rparr>"

definition example_zoned :: zoned_range where
  "example_zoned s e z = Some (''2025-01-01'', ''2025-01-02'')"

definition example_event :: "string \<Rightarrow> CalendarEventKind \<Rightarrow> string \<Rightarrow> string \<Rightarrow> int \<Rightarrow> CalendarEvent" where
  "example_event i k s e v =
     \<lparr>cal_id = i, cal_title = ''x'', cal_kind = k, cal_state = CommittedState, schedule = Timed s e ''UTC'',
      recurrence = None, occurrenceId = None, sourcePlanId = None, editable = (k \<noteq> ExternalKind), cal_version = v\<rparr>"

definition example_record :: "CalendarEvent \<Rightarrow> AgentCalendarEventRecord" where
  "example_record e = \<lparr>rec_accountId = ''a'', rec_event = e, rec_updatedAtMs = 1\<rparr>"

definition example_row :: "CalendarEvent \<Rightarrow> (string \<times> string) \<times> calendar_row" where
  "example_row e = ((''a'', cal_id e), \<lparr>start_date = ''2025-01-01'', end_date_exclusive = ''2025-01-02'', row_record = example_record e\<rparr>)"

definition example_world :: calendar_world where
  "example_world =
     \<lparr>cal_db = \<lparr>calendar_revisions = [(''a'', 3)],
        calendar_events = [example_row (example_event ''p'' PlanKind ''0'' ''30'' 4)]\<rparr>,
      pending = [[PutWrite (example_record (example_event ''q'' ExternalKind ''60'' ''90'' 0))]]\<rparr>"

definition example_config :: calendar_config where
  "example_config = \<lparr>time = example_time, timeZone = ''UTC'', clock = (\<lambda>n. 7), max_pages = 1\<rparr>"

definition example_mutation :: "CalendarMutationKind \<Rightarrow> string \<Rightarrow> int option \<Rightarrow> CalendarEvent option \<Rightarrow> CalendarMutation" where
  "example_mutation k i ver after =
     \<lparr>mutationId = ''m'', mutation_kind = k, mutation_eventId = i, expectedVersion = ver, mutation_before = None,
      mutation_after = after, recurrenceScope = None\<rparr>"

text \<open>Moving the plan and adding a manual block, both clear of the external event.\<close>

definition example_batch :: "CalendarMutation list" where
  "example_batch =
     [example_mutation UpdateMutation ''p'' (Some 4) (Some (example_event ''p'' PlanKind ''30'' ''60'' 4)),
      example_mutation CreateMutation ''r'' None (Some (example_event ''r'' ManualBlockKind ''0'' ''30'' 0))]"

text \<open>A plan on top of the external event.\<close>

definition clashing_batch :: "CalendarMutation list" where
  "clashing_batch = [example_mutation CreateMutation ''s'' None (Some (example_event ''s'' PlanKind ''75'' ''105'' 0))]"

abbreviation run_example :: "CalendarMutation list \<Rightarrow> (calendar_error + CalendarBatchMutationResult) \<times> calendar_world" where
  "run_example ms \<equiv> mutateBatch (table_storage example_zoned) example_config ''a'' ''b'' ms None example_world"

lemma example_world_ok: "db_ok (cal_db example_world)"
  by (auto simp: db_ok_def example_world_def example_row_def row_key_def example_record_def example_event_def split: if_splits)

lemma example_batch_committed:
  "fst (run_example example_batch) = Inr (BatchOk ''b''
     [example_event ''p'' PlanKind ''30'' ''60'' 5, example_event ''r'' ManualBlockKind ''0'' ''30'' 0] [] 5)"
  by code_simp

lemma clashing_batch_refused:
  "fst (run_example clashing_batch) = Inr (BatchConflicts ''b''
     [overlapConflict overlaps_external_event [example_event ''q'' ExternalKind ''60'' ''90'' 0] ErrorSeverity])"
  by code_simp

definition example_after :: calendar_world where
  "example_after = snd (run_example example_batch)"

lemma example_run: "run_example example_batch = (Inr (BatchOk ''b''
     [example_event ''p'' PlanKind ''30'' ''60'' 5, example_event ''r'' ManualBlockKind ''0'' ''30'' 0] [] 5), example_after)"
  using example_batch_committed by (simp add: example_after_def prod_eq_iff)


theorem committed_batch_exact_witness:
  "\<exists>u. others_only example_zoned example_world u \<and> 5 = revision_of (cal_db u) ''a'' + 1 \<and>
    (\<exists>e\<in>calendar_of u ''a''. cal_id e = ''p'' \<and> cal_version e = 4) \<and>
    example_event ''p'' PlanKind ''30'' ''60'' 5 \<in> calendar_of example_after ''a''"
proof -
  have p: "example_mutation UpdateMutation ''p'' (Some 4) (Some (example_event ''p'' PlanKind ''30'' ''60'' 4)) \<in> set example_batch"
    by (simp add: example_batch_def)
  obtain u where u: "others_only example_zoned example_world u" "5 = revision_of (cal_db u) ''a'' + 1"
    and met: "\<forall>m\<in>set example_batch. if mutation_kind m = CreateMutation
       then (\<forall>e\<in>calendar_of u ''a''. cal_id e \<noteq> mutation_eventId m)
       else (\<exists>e\<in>calendar_of u ''a''. cal_id e = mutation_eventId m \<and> expectedVersion m = Some (cal_version e))"
    and effect: "\<forall>m\<in>set example_batch. if mutation_kind m = DeleteMutation
       then (\<forall>e\<in>calendar_of example_after ''a''. cal_id e \<noteq> mutation_eventId m)
       else (\<exists>after. mutation_after m = Some after \<and>
         after\<lparr>cal_version := (case expectedVersion m of None \<Rightarrow> 0 | Some k \<Rightarrow> k + 1)\<rparr> \<in> calendar_of example_after ''a'')"
    using committed_batch_exact [OF example_run example_world_ok] by blast
  show ?thesis
    using u bspec [OF met p] bspec [OF effect p]
    by (intro exI [of _ u]) (auto simp: example_mutation_def example_event_def)
qed

definition quiet_world :: calendar_world where
  "quiet_world = example_world\<lparr>pending := []\<rparr>"

lemma quiet_world_facts:
  "table (cal_db quiet_world) ''a'' = [example_record (example_event ''p'' PlanKind ''0'' ''30'' 4)]"
  "validateIdentifier ''a'' = Inr ()"
  by code_simp+

theorem load_returns_whole_calendar_witness:
  "load (table_storage example_zoned) example_config ''a'' quiet_world =
     (Inr \<lparr>load_revision = 3, load_timeZone = ''UTC'', load_events = [example_event ''p'' PlanKind ''0'' ''30'' 4]\<rparr>, quiet_world)"
proof -
  have "db_ok (cal_db quiet_world)" using example_world_ok by (simp add: quiet_world_def)
  from load_returns_whole_calendar [OF this, of example_zoned example_config "''a''" _ _ 3]
  show ?thesis
    by (simp add: quiet_world_facts example_config_def pageSize_def MAX_SAFE_INTEGER_def example_record_def)
      (simp add: quiet_world_def example_world_def)
qed

subsection \<open>Two series that start more than a year apart\<close>

text \<open>
  Two blocks every fourth week at the same hour, the second starting 56 weeks after the first: they
  coincide every time from then on, but the test looks only at the 366 days after the earlier
  start and reports no overlap.
\<close>

definition weekly_time :: time_library where
  "weekly_time = example_time\<lparr>instant_from := map_of [(''0'', 0), (''60'', 3600000000000),
     (''564480'', 33868800000000000), (''564540'', 33872400000000000)], rule_between := (\<lambda>_ base s e.
     Some (map (\<lambda>k. base + k * 2419200000) [max 0 ((s - base + 2419199999) div 2419200000) .. (e - base) div 2419200000]))\<rparr>"

definition weekly_block :: "string \<Rightarrow> string \<Rightarrow> string \<Rightarrow> CalendarEvent" where
  "weekly_block i s e = example_event i ManualBlockKind s e 0 \<lparr>recurrence :=
     Some \<lparr>seriesId = i, rrule = ''FREQ=WEEKLY;INTERVAL=4'', rec_timeZone = ''UTC'', exceptionDates = []\<rparr>\<rparr>"

lemma series_beyond_horizon:
  "eventsOverlap weekly_time (weekly_block ''x'' ''0'' ''60'') (weekly_block ''y'' ''564480'' ''564540'') = Inr False"
  "eventsOverlap weekly_time (weekly_block ''x'' ''0'' ''60'') (example_event ''y'' ManualBlockKind ''564480'' ''564540'' 0) = Inr True"
  by code_simp+

end
