(* ===== verification/CalendarCallers.thy ===== *)
theory CalendarCallers
  imports CalendarPolicy
begin

text \<open>
  What stands between the renderer and the calendar: the lock rule for the renderer's edits of model
  events, \<open>src/bun/calendar-mutation-policy.ts\<close>, and the boundary between a durable commit and the
  work after it, \<open>src/bun/durable-calendar-mutation.ts\<close>. The commit, the projection, the follow-ups and
  the reporter are given by the caller: computations on its state that may throw.
\<close>

subsection \<open>The lock rule\<close>

datatype schedule_origin = ModelOrigin | UserOrigin

record PlanningCalendarEventProjection = CalendarEvent +
  proj_sourceTaskId :: "string option"
  proj_scheduleOrigin :: "schedule_origin option"
  proj_userLocked :: bool

record PlanningCalendarMutationProjection =
  pm_mutationId :: string
  pm_kind :: CalendarMutationKind
  pm_eventId :: string
  pm_expectedVersion :: "int option"
  pm_before :: "PlanningCalendarEventProjection option"
  pm_after :: "PlanningCalendarEventProjection option"
  pm_recurrenceScope :: "RecurrenceScope option"

record canonical_unlock_event =
  cu_id :: string
  cu_title :: string
  cu_kind :: CalendarEventKind
  cu_state :: CalendarEventState
  cu_schedule :: calendar_schedule
  cu_recurrence :: "Recurrence option"
  cu_occurrenceId :: "string option"
  cu_sourcePlanId :: "string option"
  cu_sourceTaskId :: "string option"
  cu_scheduleOrigin :: "schedule_origin option"
  cu_userLocked :: bool
  cu_editable :: bool

definition canonicalUnlockEvent :: "PlanningCalendarEventProjection \<Rightarrow> canonical_unlock_event" where
  "canonicalUnlockEvent event =
     \<lparr>cu_id = cal_id event, cu_title = cal_title event, cu_kind = cal_kind event, cu_state = cal_state event,
      cu_schedule = schedule event, cu_recurrence = recurrence event, cu_occurrenceId = occurrenceId event,
      cu_sourcePlanId = sourcePlanId event, cu_sourceTaskId = proj_sourceTaskId event,
      cu_scheduleOrigin = proj_scheduleOrigin event, cu_userLocked = False, cu_editable = editable event\<rparr>"

definition isExplicitRendererPlanUnlock :: "PlanningCalendarMutationProjection \<Rightarrow> bool" where
  "isExplicitRendererPlanUnlock m =
     (case (pm_before m, pm_after m) of
        (Some before, Some after) \<Rightarrow>
          if pm_kind m \<noteq> UpdateMutation \<or> cal_kind before \<noteq> PlanKind \<or> proj_scheduleOrigin before \<noteq> Some ModelOrigin \<or>
             \<not> proj_userLocked before \<or> proj_userLocked after \<or> pm_expectedVersion m \<noteq> Some (cal_version before) \<or>
             cal_version after \<noteq> cal_version before + 1
          then False
          else canonicalUnlockEvent before = canonicalUnlockEvent after
      | _ \<Rightarrow> False)"

definition shouldForceRendererPlanLock :: "PlanningCalendarMutationProjection \<Rightarrow> bool" where
  "shouldForceRendererPlanLock m \<longleftrightarrow>
     pm_kind m = UpdateMutation \<and>
     (case pm_before m of None \<Rightarrow> False
      | Some before \<Rightarrow> cal_kind before = PlanKind \<and> proj_scheduleOrigin before = Some ModelOrigin) \<and>
     \<not> isExplicitRendererPlanUnlock m"

subsection \<open>The durable commit\<close>

datatype DurableCalendarPostCommitStage = ProjectionStage | OutboxFlushStage | ExecutionReconciliationStage

datatype ('e, 'p) DurableCalendarMutationResult = CommitFailed 'e | CommitDurable "'p option"

record ('s, 'e, 'c, 'p) DurableCalendarMutationOptions =
  commit :: "('s, 'e, 'c) comp"
  project :: "'c \<Rightarrow> ('s, 'e, 'p) comp"
  followUps :: "(DurableCalendarPostCommitStage \<times> ('s, 'e, unit) comp) list"
  onDeferredFailure :: "DurableCalendarPostCommitStage \<Rightarrow> 'e \<Rightarrow> ('s, 'e, unit) comp"

definition reportDeferredFailure ::
  "('s, 'e, 'c, 'p) DurableCalendarMutationOptions \<Rightarrow> DurableCalendarPostCommitStage \<Rightarrow> 'e \<Rightarrow> 's \<Rightarrow> 's" where
  "reportDeferredFailure options stage err s = snd (onDeferredFailure options stage err s)"

definition follow_up ::
  "('s, 'e, 'c, 'p) DurableCalendarMutationOptions \<Rightarrow> DurableCalendarPostCommitStage \<times> ('s, 'e, unit) comp \<Rightarrow> 's \<Rightarrow> 's" where
  "follow_up options step s =
     (case snd step s of
        (Inr _, t) \<Rightarrow> t
      | (Inl err, t) \<Rightarrow> reportDeferredFailure options (fst step) err t)"

definition runDurableCalendarMutation ::
  "('s, 'e, 'c, 'p) DurableCalendarMutationOptions \<Rightarrow> 's \<Rightarrow> ('e, 'p) DurableCalendarMutationResult \<times> 's" where
  "runDurableCalendarMutation options s =
     (case commit options s of
        (Inl err, t) \<Rightarrow> (CommitFailed err, t)
      | (Inr committed, t) \<Rightarrow>
          (case (case project options committed t of
                   (Inr projection, u) \<Rightarrow> (Some projection, u)
                 | (Inl err, u) \<Rightarrow> (None, reportDeferredFailure options ProjectionStage err u)) of
             (projection, u) \<Rightarrow> (CommitDurable projection, fold (follow_up options) (followUps options) u)))"

definition calendarEventsAfterDurableCommit ::
  "PlanningCalendarMutationProjection list \<Rightarrow> PlanningCalendarEventProjection list option \<Rightarrow>
   PlanningCalendarEventProjection list" where
  "calendarEventsAfterDurableCommit mutations projection =
     (let projectedById = fold (\<lambda>event. jset (cal_id event) event)
            (case projection of None \<Rightarrow> [] | Some events \<Rightarrow> events) []
      in concat (map (\<lambda>m.
           if pm_kind m = DeleteMutation then []
           else case pm_after m of
             None \<Rightarrow> []
           | Some after \<Rightarrow> [case jget projectedById (pm_eventId m) of None \<Rightarrow> after | Some event \<Rightarrow> event]) mutations))"

subsection \<open>Properties\<close>

lemma canonicalUnlockEvent_eq_iff:
  "canonicalUnlockEvent b = canonicalUnlockEvent a \<longleftrightarrow> a = b\<lparr>proj_userLocked := proj_userLocked a, cal_version := cal_version a\<rparr>"
  by (cases a; cases b) (auto simp: canonicalUnlockEvent_def)

text \<open>C27: The renderer leaves a model event unlocked in one way only: an update of a locked plan event
  made by the model, at the version it expects, whose result is that event with nothing changed but
  the lock removed and the version raised by one. Every other update of a model event is forced to
  lock it.\<close>

theorem renderer_unlock_exact:
  "(isExplicitRendererPlanUnlock m \<longleftrightarrow>
     (\<exists>b. pm_kind m = UpdateMutation \<and> pm_before m = Some b \<and> cal_kind b = PlanKind \<and>
       proj_scheduleOrigin b = Some ModelOrigin \<and> proj_userLocked b \<and> pm_expectedVersion m = Some (cal_version b) \<and>
       pm_after m = Some (b\<lparr>proj_userLocked := False, cal_version := cal_version b + 1\<rparr>))) \<and>
   (shouldForceRendererPlanLock m \<longleftrightarrow>
     (\<exists>b. pm_kind m = UpdateMutation \<and> pm_before m = Some b \<and> cal_kind b = PlanKind \<and>
       proj_scheduleOrigin b = Some ModelOrigin \<and>
       \<not> (proj_userLocked b \<and> pm_expectedVersion m = Some (cal_version b) \<and>
         pm_after m = Some (b\<lparr>proj_userLocked := False, cal_version := cal_version b + 1\<rparr>))))"
proof -
  have unlock: "isExplicitRendererPlanUnlock m \<longleftrightarrow>
     (\<exists>b. pm_kind m = UpdateMutation \<and> pm_before m = Some b \<and> cal_kind b = PlanKind \<and>
       proj_scheduleOrigin b = Some ModelOrigin \<and> proj_userLocked b \<and> pm_expectedVersion m = Some (cal_version b) \<and>
       pm_after m = Some (b\<lparr>proj_userLocked := False, cal_version := cal_version b + 1\<rparr>))"
    by (cases "pm_before m"; cases "pm_after m")
      (auto simp: isExplicitRendererPlanUnlock_def canonicalUnlockEvent_eq_iff)
  then show ?thesis by (auto simp: shouldForceRendererPlanLock_def split: option.split)
qed

text \<open>
  A committed mutation is never reported as failed, whatever the projection, the follow-ups and the
  reporter throw; and when the commit throws nothing else is run.
\<close>

lemma durable_failure_iff:
  "fst (runDurableCalendarMutation options s) = CommitFailed err \<longleftrightarrow> fst (commit options s) = Inl err"
  by (auto simp: runDurableCalendarMutation_def split: prod.splits sum.splits)

lemma durable_failure_stops:
  "commit options s = (Inl err, t) \<Longrightarrow> runDurableCalendarMutation options s = (CommitFailed err, t)"
  by (simp add: runDurableCalendarMutation_def)

text \<open>The renderer gets one event for every mutation that stores one, the committed version if it is known.\<close>

lemma jget_projected:
  "jget (fold (\<lambda>event. jset (cal_id event) event) events m) i = Some e \<Longrightarrow>
   (\<And>e. jget m i = Some e \<Longrightarrow> cal_id e = i) \<Longrightarrow> cal_id e = i"
proof (induction events arbitrary: m)
  case (Cons event events)
  show ?case by (rule Cons.IH [of "jset (cal_id event) event m"]) (use Cons.prems in \<open>auto split: if_splits\<close>)
qed simp

lemma events_after_commit_ids:
  assumes "\<And>m after. m \<in> set mutations \<Longrightarrow> pm_after m = Some after \<Longrightarrow> cal_id after = pm_eventId m"
  shows "map cal_id (calendarEventsAfterDurableCommit mutations projection) =
    map pm_eventId (filter (\<lambda>m. pm_kind m \<noteq> DeleteMutation \<and> pm_after m \<noteq> None) mutations)"
  using assms
proof (induction mutations)
  case (Cons m mutations)
  then have "map cal_id (calendarEventsAfterDurableCommit mutations projection) =
      map pm_eventId (filter (\<lambda>m. pm_kind m \<noteq> DeleteMutation \<and> pm_after m \<noteq> None) mutations)" by simp
  then show ?case using Cons.prems [of m]
    by (auto simp: calendarEventsAfterDurableCommit_def Let_def dest: jget_projected split: option.splits)
qed (simp add: calendarEventsAfterDurableCommit_def)

end
