(* ===== verification/TimelineTypes.thy ===== *)
theory TimelineTypes
  imports CanonicalJson
begin

text \<open>
  The data model of the timeline, \<open>src/agent/timeline/types.ts\<close>: semantic events, the
  collector's snapshot and its windows, evidence facts, activity episodes, the timeline summary
  and the agent inputs made of it, the durable jobs. Fields whose type is a single literal
  (\<open>schemaVersion\<close>) are not carried. The unions of the job states and of the collector states
  have the same members as those of the reflection pipeline and are the same types here.

  The program's Chinese wording lies outside the characters of \<open>string\<close>: a code point above
  255 is written as its hexadecimal number between angle brackets, so that every text the
  program composes keeps its shape.
\<close>

subsection \<open>Semantic events\<close>

datatype SemanticEventKind =
    ApplicationForegroundChanged | ApplicationVisibleContentChanged | ApplicationTextValueChanged
  | BrowserVisiblePageChanged | UiFocusChanged | UiControlActivated | InputActivityBucket
  | PresenceChanged | GoalChanged | AuthorizationChangedV2 | ApplicationProcessObservedBatch
  | CoverageGap

datatype SemanticCountClass = CountEffective | CountBoundary | CountContext | CountIgnored

datatype EvidenceReliability = ReliabilityHigh | ReliabilityMedium | ReliabilityLow

datatype CoverageLevel =
  CoverContent | CoverMetadata | CoverRedacted | CoverDenied | CoverUnavailable

datatype SemanticContentState =
  ContentAvailable | ContentRedacted | ContentExpired | ContentUnavailable

record SemanticEventV2 =
  se_eventId :: string
  se_cursor :: string
  se_deviceId :: string
  se_sessionId :: string
  se_kind :: SemanticEventKind
  se_source :: string
  se_occurredAtMs :: int
  se_observedAtMs :: int
  se_goalVersion :: "int option"
  se_countClass :: SemanticCountClass
  se_reliability :: EvidenceReliability
  se_coverage :: "CoverageLevel list"
  se_contentState :: SemanticContentState
  se_sourceObservationIds :: "string list"
  se_taxonomyVersion :: string
  se_projectorVersion :: string
  se_payload :: "(string \<times> json) list"

text \<open>\<open>event.payload[key]\<close>: an absent key reads as undefined.\<close>

definition payload_value :: "SemanticEventV2 \<Rightarrow> string \<Rightarrow> json" where
  "payload_value event key = (case map_of (se_payload event) key of None \<Rightarrow> JUndef | Some v \<Rightarrow> v)"

subsection \<open>The collector's state and its windows\<close>

type_synonym TimelineCollectorState = CollectorRuntimeState

record OpenTimelineWindowV2 =
  otw_goal :: "ActiveGoalContext option"
  otw_goalVersion :: "int option"
  otw_startedAtMs :: int
  otw_deadlineAtMs :: int
  otw_events :: "SemanticEventV2 list"
  otw_effectiveEventCount :: nat

record TimelineCollectorSnapshotV2 =
  tcs_collectorId :: string
  tcs_deviceId :: string
  tcs_sessionId :: string
  tcs_state :: TimelineCollectorState
  tcs_activeGoal :: "ActiveGoalContext option"
  tcs_openWindow :: "OpenTimelineWindowV2 option"
  tcs_contextCandidates :: "SemanticEventV2 list"
  tcs_recentEventIds :: "string list"
  tcs_materializedCursor :: "string option"
  tcs_revision :: int
  tcs_updatedAtMs :: int

record TimelineWindowV2 =
  tw_windowId :: string
  tw_collectorId :: string
  tw_deviceId :: string
  tw_sessionId :: string
  tw_triggerReason :: ReflectionTriggerReason
  tw_goal :: "ActiveGoalContext option"
  tw_goalVersion :: "int option"
  tw_startedAtMs :: int
  tw_endedAtMs :: int
  tw_deadlineAtMs :: int
  tw_eventCount :: nat
  tw_firstCursor :: string
  tw_lastCursor :: string
  tw_events :: "SemanticEventV2 list"
  tw_contextOnly :: "SemanticEventV2 list"
  tw_inputHash :: string

subsection \<open>Evidence\<close>

datatype FactTemplateCode =
    TemplateForeground | TemplateVisibleContent | TemplateTextValue | TemplateVisiblePage
  | TemplateFocus | TemplateControlActivated | TemplateInputActivity | TemplatePresence
  | TemplateGoal | TemplateUnavailable

record EvidenceAnchorV2 =
  an_appId :: "string option"
  an_windowId :: "string option"
  an_documentId :: "string option"
  an_pageId :: "string option"

datatype FactRole = RolePrimary | RoleSupporting | RoleBoundary

record EvidenceFactV2 =
  fa_factId :: string
  fa_eventIds :: "string list"
  fa_sourceObservationIds :: "string list"
  fa_startedAtMs :: int
  fa_endedAtMs :: int
  fa_templateCode :: FactTemplateCode
  fa_templateArgs :: "(string \<times> json) list"
  fa_renderedText :: string
  fa_anchor :: EvidenceAnchorV2
  fa_role :: FactRole
  fa_reliability :: EvidenceReliability
  fa_coverage :: "CoverageLevel list"

subsection \<open>Episodes\<close>

record TimelineInferenceDiagnosticV2 =
  di_stage :: string
  di_code :: string
  di_retryable :: bool
  di_httpStatus :: "int option"
  di_affectedEpisodeCount :: "int option"

record EpisodeHypothesisV2 =
  hy_text :: string
  hy_citedFactIds :: "string list"
  hy_generator :: string
  hy_diagnostics :: "TimelineInferenceDiagnosticV2 list option"

record EpisodeClassificationV2 =
  cl_activity :: ActivityLabel
  cl_goalRelevance :: "GoalRelevanceLabel option"
  cl_confidence :: real
  cl_entropy :: real
  cl_oodScore :: real
  cl_abstain :: bool
  cl_modelVersion :: string

record ActivityEpisodeV2 =
  ep_episodeId :: string
  ep_revisionId :: string
  ep_revision :: int
  ep_supersedesRevisionId :: "string option"
  ep_sourceWindowIds :: "string list"
  ep_startedAtMs :: int
  ep_endedAtMs :: int
  ep_goalVersion :: "int option"
  ep_anchor :: EvidenceAnchorV2
  ep_classification :: EpisodeClassificationV2
  ep_hypothesis :: EpisodeHypothesisV2
  ep_evidenceFactIds :: "string list"
  ep_supportingFactIds :: "string list"
  ep_coverage :: "CoverageLevel list"

subsection \<open>Summaries and agent inputs\<close>

record TimelineSegmentV2 =
  sg_episodeId :: string
  sg_episodeRevisionId :: string
  sg_startedAtMs :: int
  sg_endedAtMs :: int
  sg_activity :: ActivityLabel
  sg_goalRelevance :: "GoalRelevanceLabel option"
  sg_classification :: EpisodeClassificationV2
  sg_hypothesis :: EpisodeHypothesisV2
  sg_evidence :: "EvidenceFactV2 list"

record TimelinePeriod =
  pd_startedAtMs :: int
  pd_endedAtMs :: int

record TimelineSummaryV2 =
  su_timelineId :: string
  su_windowId :: string
  su_triggerReason :: ReflectionTriggerReason
  su_triggeredAtMs :: int
  su_deadlineAtMs :: int
  su_period :: TimelinePeriod
  su_goalVersion :: "int option"
  su_segments :: "TimelineSegmentV2 list"
  su_coverage :: "CoverageLevel list"
  su_coverageWarnings :: "string list"
  su_renderedText :: string
  su_modelVersions :: "string list"
  su_inferenceDiagnostics :: "TimelineInferenceDiagnosticV2 list"
  su_taxonomyVersion :: string
  su_projectorVersion :: string
  su_createdAtMs :: int
  su_revision :: int
  su_correctsTimelineId :: "string option"

datatype AgentInputState = HELD_LOCAL | INPUT_READY | LEASED | ACKED

record AgentInputV1 =
  ai_agentInputId :: string
  ai_idempotencyKey :: string
  ai_timelineId :: string
  ai_windowId :: string
  ai_triggerReason :: ReflectionTriggerReason
  ai_triggeredAtMs :: int
  ai_deadlineAtMs :: int
  ai_period :: TimelinePeriod
  ai_goal :: "ActiveGoalContext option"
  ai_segments :: "TimelineSegmentV2 list"
  ai_renderedText :: string
  ai_coverage :: "CoverageLevel list"
  ai_modelVersions :: "string list"
  ai_inferenceDiagnostics :: "TimelineInferenceDiagnosticV2 list"
  ai_taxonomyVersion :: string
  ai_projectorVersion :: string
  ai_payloadHash :: string
  ai_createdAtMs :: int

record AgentInputEnvelopeV1 =
  en_input :: AgentInputV1
  en_state :: AgentInputState
  en_leaseToken :: "string option"
  en_leaseExpiresAtMs :: "int option"
  en_attempt :: nat
  en_ackedAtMs :: "int option"

subsection \<open>Jobs\<close>

type_synonym TimelineJobState = ReflectionJobState

record TimelineJobV2 =
  tj_windowId :: string
  tj_state :: TimelineJobState
  tj_attempt :: nat
  tj_createdAtMs :: int
  tj_updatedAtMs :: int
  tj_nextAttemptAtMs :: "int option"
  tj_leaseExpiresAtMs :: "int option"
  tj_firstAttemptAtMs :: "int option"
  tj_failureCode :: "string option"
  tj_failureMessage :: "string option"

definition TIMELINE_TAXONOMY_VERSION :: string where
  "TIMELINE_TAXONOMY_VERSION = ''activity-taxonomy.v2''"

definition TIMELINE_PROJECTOR_VERSION :: string where
  "TIMELINE_PROJECTOR_VERSION = ''timeline-projector.v2''"

end
