(* ===== verification/TimelineEvidence.thy ===== *)
theory TimelineEvidence
  imports TimelineTypes WindowBuilder
begin

text \<open>
  Evidence facts, \<open>src/agent/timeline/evidence.ts\<close>: each semantic event is rendered by the
  template of its kind into a fact with a bounded text, an anchor and a role. Parameters: the
  digest \<open>sha256\<close> and the platform's URL parser and printer (\<open>None\<close> where \<open>new URL\<close> throws); a parsed
  URL is a record of the parts the source changes. The numbers of a payload are integers, so the
  source's rounding to whole or hundredth units leaves them as they are.
\<close>

record ParsedUrl =
  url_protocol :: string
  url_username :: string
  url_password :: string
  url_hostname :: string
  url_port :: string
  url_pathname :: string
  url_search :: string
  url_hash :: string

record UrlLibrary =
  new_url :: "string \<Rightarrow> ParsedUrl option"
  url_toString :: "ParsedUrl \<Rightarrow> string"

datatype evidence_error = ProcessInventoryIsNotEvidence | CoverageGapIsNotEvidence

record RenderedTemplate =
  rt_templateCode :: FactTemplateCode
  rt_templateArgs :: "(string \<times> json) list"
  rt_text :: string

subsection \<open>Reading a payload\<close>

definition MAX_FACT_CONTENT_CHARACTERS :: nat where
  "MAX_FACT_CONTENT_CHARACTERS = 320"

definition compactText :: "string \<Rightarrow> string" where
  "compactText value = take MAX_FACT_CONTENT_CHARACTERS (js_trim (collapse_spaces value))"

definition stringValue :: "SemanticEventV2 \<Rightarrow> string \<Rightarrow> string option" where
  "stringValue event key = (case payload_value event key of JStr s \<Rightarrow> Some (compactText s) | _ \<Rightarrow> None)"

definition contentValue :: "SemanticEventV2 \<Rightarrow> string \<Rightarrow> string option" where
  "contentValue event key = (if se_contentState event \<noteq> ContentAvailable then None else stringValue event key)"

definition numberValue :: "SemanticEventV2 \<Rightarrow> string \<Rightarrow> int option" where
  "numberValue event key = (case payload_value event key of JNum n \<Rightarrow> Some n | _ \<Rightarrow> None)"

definition booleanValue :: "SemanticEventV2 \<Rightarrow> string \<Rightarrow> bool option" where
  "booleanValue event key = (case payload_value event key of JBool b \<Rightarrow> Some b | _ \<Rightarrow> None)"

definition recordValue :: "SemanticEventV2 \<Rightarrow> string \<Rightarrow> (string \<times> json) list option" where
  "recordValue event key = (case payload_value event key of JObj es \<Rightarrow> Some es | _ \<Rightarrow> None)"

fun compact_arg :: "json \<Rightarrow> json" where
  "compact_arg (JStr s) = JStr (compactText s)"
| "compact_arg v = v"

definition compactArgs :: "(string \<times> json) list \<Rightarrow> (string \<times> json) list" where
  "compactArgs values = map (\<lambda>(key, v). (key, compact_arg v)) (filter (\<lambda>(key, v). v \<noteq> JUndef) values)"

text \<open>JavaScript's truthiness of a string or null, and \<open>x ?? y\<close>.\<close>

definition truthy :: "string option \<Rightarrow> bool" where
  "truthy x \<longleftrightarrow> x \<noteq> None \<and> x \<noteq> Some []"

definition or_default :: "'a option \<Rightarrow> 'a \<Rightarrow> 'a" where
  "or_default x d = (case x of None \<Rightarrow> d | Some v \<Rightarrow> v)"

definition or_else :: "'a option \<Rightarrow> 'a option \<Rightarrow> 'a option" where
  "or_else x y = (case x of None \<Rightarrow> y | Some v \<Rightarrow> Some v)"

definition lower_char :: "char \<Rightarrow> char" where
  "lower_char c = (let n = (of_char c :: nat) in
     if (65 \<le> n \<and> n \<le> 90) \<or> (192 \<le> n \<and> n \<le> 222 \<and> n \<noteq> 215) then char_of (n + 32) else c)"

definition toLowerCase :: "string \<Rightarrow> string" where
  "toLowerCase s = map lower_char s"

definition sanitizedUrl :: "UrlLibrary \<Rightarrow> string option \<Rightarrow> string option" where
  "sanitizedUrl urls value =
     (if \<not> truthy value then None
      else let v = the value
           in case new_url urls v of
                Some url \<Rightarrow> Some (compactText (url_toString urls
                  (url\<lparr>url_username := [], url_password := [], url_search := [], url_hash := []\<rparr>)))
              | None \<Rightarrow> Some (compactText (takeWhile (\<lambda>c. c \<noteq> CHR ''?'' \<and> c \<noteq> CHR ''#'') v)))"

definition canonical_url :: "ParsedUrl \<Rightarrow> ParsedUrl" where
  "canonical_url url =
     (let url' = url\<lparr>url_username := [], url_password := [], url_hash := [],
            url_protocol := toLowerCase (url_protocol url), url_hostname := toLowerCase (url_hostname url)\<rparr>
      in if url_protocol url' = ''http:'' \<and> url_port url' = ''80'' \<or>
            url_protocol url' = ''https:'' \<and> url_port url' = ''443''
         then url'\<lparr>url_port := []\<rparr> else url')"

definition canonicalPageUrl :: "UrlLibrary \<Rightarrow> string option \<Rightarrow> string option" where
  "canonicalPageUrl urls value =
     (if \<not> truthy value then None
      else let v = the value
           in case new_url urls v of
                Some url \<Rightarrow> Some (url_toString urls (canonical_url url))
              | None \<Rightarrow> (let s = js_trim (takeWhile (\<lambda>c. c \<noteq> CHR ''#'') v)
                         in if s = [] then None else Some s))"

subsection \<open>Templates\<close>

record TextValueChange =
  tv_appName :: string
  tv_control :: string
  tv_addedText :: "string option"
  tv_finalValue :: "string option"
  tv_insertedChars :: "int option"
  tv_deletedChars :: "int option"
  tv_deltaAvailable :: bool

definition textValueChangeDescription :: "TextValueChange \<Rightarrow> string" where
  "textValueChangeDescription input =
     (let subject = tv_appName input @ ''<7684>'' @ tv_control input in
      if \<not> tv_deltaAvailable input
      then (case tv_finalValue input of
              Some finalValue \<Rightarrow>
                let displayed = (if finalValue \<noteq> [] then ''<201c>'' @ finalValue @ ''<201d>'' else ''<7a7a><5185><5bb9>'')
                in subject @ ''<6700><7ec8><663e><793a><4e3a>'' @ displayed @ ''<ff0c><56e0><7f3a><5c11><57fa><7ebf><65e0><6cd5><5224><65ad><589e><5220><6216><8f93><5165><65b9><5f0f>''
            | None \<Rightarrow> subject @ ''<6700><7ec8><503c><4e0d><53ef><7528><ff0c><65e0><6cd5><5224><65ad><589e><5220><6216><8f93><5165><65b9><5f0f>'')
      else (case (tv_insertedChars input, tv_deletedChars input) of
              (Some insertedChars, Some deletedChars) \<Rightarrow>
                if 0 < insertedChars \<and> truthy (tv_addedText input)
                then let deletionDetail =
                       (if 0 < deletedChars then ''<ff08><540c><65f6><5220><9664> '' @ show_int deletedChars @ '' <5b57><7b26><ff09>'' else [])
                     in subject @ ''<6700><7ec8><589e><52a0><4e86><6587><672c><201c>'' @ the (tv_addedText input) @ ''<201d>'' @ deletionDetail @
                          ''<ff0c><8f93><5165><65b9><5f0f><672a><77e5>''
                else if insertedChars = 0 \<and> 0 < deletedChars
                then if tv_finalValue input = Some []
                     then subject @ ''<6700><7ec8><6e05><7a7a><4e86><5185><5bb9><ff08><5220><9664> '' @ show_int deletedChars @ '' <5b57><7b26><ff09><ff0c><8f93><5165><65b9><5f0f><672a><77e5>''
                     else let finalDetail = (case tv_finalValue input of None \<Rightarrow> []
                            | Some finalValue \<Rightarrow> ''<ff0c><5f53><524d><663e><793a><4e3a><201c>'' @ finalValue @ ''<201d>'')
                          in subject @ ''<6700><7ec8><5220><9664><4e86> '' @ show_int deletedChars @ '' <4e2a><5b57><7b26>'' @ finalDetail @
                               ''<ff0c><8f93><5165><65b9><5f0f><672a><77e5>''
                else subject @ ''<6700><7ec8><5185><5bb9><53d1><751f><53d8><5316><ff08><589e><52a0> '' @ show_int insertedChars @ '' <5b57><7b26><3001><5220><9664> '' @
                       show_int deletedChars @ '' <5b57><7b26><ff09><ff0c><8f93><5165><65b9><5f0f><672a><77e5>''
            | _ \<Rightarrow> subject @ ''<5185><5bb9><53d1><751f><53d8><5316><ff0c><4f46><589e><5220><8ba1><6570><7f3a><5931><ff08><8ba1><6570><672a><968f><4e8b><4ef6><91c7><96c6><ff09><ff0c><8f93><5165><65b9><5f0f><672a><77e5>''))"

fun content_state_name :: "SemanticContentState \<Rightarrow> string" where
  "content_state_name ContentAvailable = ''available''"
| "content_state_name ContentRedacted = ''redacted''"
| "content_state_name ContentExpired = ''expired''"
| "content_state_name ContentUnavailable = ''unavailable''"

definition unavailableContentTemplate ::
  "SemanticEventV2 \<Rightarrow> string \<Rightarrow> (string \<times> json) list \<Rightarrow> RenderedTemplate" where
  "unavailableContentTemplate event text args =
     \<lparr>rt_templateCode = TemplateUnavailable,
      rt_templateArgs = compactArgs (args @ [(''contentState'', JStr (content_state_name (se_contentState event)))]),
      rt_text = text\<rparr>"

definition presenceText :: "string \<Rightarrow> string" where
  "presenceText state =
     (if state = ''afk_started'' then ''<7528><6237><8fdb><5165><6682><79bb><72b6><6001>''
      else if state = ''afk_ended'' then ''<7528><6237><7ed3><675f><6682><79bb><5e76><6062><590d><6d3b><52a8>''
      else if state = ''locked'' then ''<7535><8111><5df2><9501><5c4f>''
      else if state = ''unlocked'' then ''<7535><8111><5df2><89e3><9501>''
      else if state = ''sleep'' then ''<7535><8111><8fdb><5165><7761><7720>''
      else if state = ''wake'' then ''<7535><8111><4ece><7761><7720><4e2d><5524><9192>''
      else ''<7528><6237><5728><573a><72b6><6001><53d1><751f><53d8><5316>'')"

definition app_name :: "SemanticEventV2 \<Rightarrow> string option" where
  "app_name event = or_else (stringValue event ''appName'') (stringValue event ''appId'')"

definition foreground_template :: "SemanticEventV2 \<Rightarrow> RenderedTemplate" where
  "foreground_template event =
     (let appName = app_name event; title = contentValue event ''windowTitle'' in
      \<lparr>rt_templateCode = TemplateForeground,
       rt_templateArgs = compactArgs [(''appName'', null_str appName), (''windowTitle'', null_str title)],
       rt_text = (if truthy title
         then ''<524d><53f0><5207><6362><5230> '' @ or_default appName ''<672a><77e5><5e94><7528>'' @ ''<ff0c><53ef><89c1><7a97><53e3><6807><9898><4e3a><201c>'' @ the title @ ''<201d>''
         else ''<524d><53f0><5207><6362><5230> '' @ or_default appName ''<672a><77e5><5e94><7528>'')\<rparr>)"

definition visible_content_template :: "SemanticEventV2 \<Rightarrow> RenderedTemplate" where
  "visible_content_template event =
     (let appName = app_name event; title = contentValue event ''windowTitle'';
          text = contentValue event ''visibleText'' in
      if truthy text
      then \<lparr>rt_templateCode = TemplateVisibleContent,
            rt_templateArgs = compactArgs [(''appName'', null_str appName), (''windowTitle'', null_str title),
              (''visibleText'', null_str text)],
            rt_text = or_default appName ''<5f53><524d><5e94><7528>'' @ ''<7684><5c4f><5e55><53ef><89c1><533a><57df><51fa><73b0><201c>'' @ the text @ ''<201d>''\<rparr>
      else unavailableContentTemplate event
             (or_default appName ''<5f53><524d><5e94><7528>'' @ ''<7684><53ef><89c1><5185><5bb9><53d1><751f><53d8><5316><ff0c><4f46><6b63><6587><4e0d><53ef><7528>'')
             [(''appName'', null_str appName), (''windowTitle'', null_str title)])"

definition text_value_template :: "SemanticEventV2 \<Rightarrow> RenderedTemplate" where
  "text_value_template event =
     (let appName = app_name event; label' = contentValue event ''label'';
          addedText = contentValue event ''addedText''; finalValue = contentValue event ''finalValue'';
          insertedChars = numberValue event ''insertedChars'';
          deletedChars = numberValue event ''deletedChars'';
          deltaAvailable = (booleanValue event ''deltaAvailable'' = Some True);
          control = (if truthy label' then ''<201c>'' @ the label' @ ''<201d><63a7><4ef6>'' else ''<7126><70b9><63a7><4ef6>'') in
      \<lparr>rt_templateCode = TemplateTextValue,
       rt_templateArgs = compactArgs
         [(''appName'', null_str appName), (''label'', null_str label'), (''addedText'', null_str addedText),
          (''finalValue'', null_str finalValue), (''insertedChars'', null_int insertedChars),
          (''deletedChars'', null_int deletedChars), (''deltaAvailable'', JBool deltaAvailable),
          (''inputMethod'', JStr ''unknown'')],
       rt_text = textValueChangeDescription
         \<lparr>tv_appName = or_default appName ''<5f53><524d><5e94><7528>'', tv_control = control, tv_addedText = addedText,
          tv_finalValue = finalValue, tv_insertedChars = insertedChars, tv_deletedChars = deletedChars,
          tv_deltaAvailable = deltaAvailable\<rparr>\<rparr>)"

definition visible_page_template :: "UrlLibrary \<Rightarrow> SemanticEventV2 \<Rightarrow> RenderedTemplate" where
  "visible_page_template urls event =
     (let appName = app_name event; title = contentValue event ''title'';
          url = sanitizedUrl urls (contentValue event ''url'');
          visibleText = contentValue event ''visibleText''; domain = stringValue event ''domain'';
          page = or_default (or_else title (or_else url domain)) ''<672a><77e5><9875><9762>'';
          suffix = (if truthy visibleText then ''<ff0c><9875><9762><53ef><89c1><533a><57df><51fa><73b0><201c>'' @ the visibleText @ ''<201d>'' else []) in
      \<lparr>rt_templateCode = TemplateVisiblePage,
       rt_templateArgs = compactArgs
         [(''appName'', null_str appName), (''title'', null_str title), (''url'', null_str url),
          (''domain'', null_str domain), (''visibleText'', null_str visibleText),
          (''changeKind'', null_str (stringValue event ''changeKind''))],
       rt_text = ''<5728>'' @ or_default appName ''<6d4f><89c8><5668>'' @ ''<6253><5f00><6216><67e5><770b><5f53><524d><53ef><89c1><9875><9762><201c>'' @ page @ ''<201d>'' @ suffix\<rparr>)"

definition focus_template :: "SemanticEventV2 \<Rightarrow> RenderedTemplate" where
  "focus_template event =
     (let appName = app_name event; role = or_default (stringValue event ''role'') ''<672a><77e5><63a7><4ef6>'';
          label' = contentValue event ''label'' in
      \<lparr>rt_templateCode = TemplateFocus,
       rt_templateArgs = compactArgs [(''appName'', null_str appName), (''role'', JStr role),
         (''label'', null_str label')],
       rt_text = or_default appName ''<5f53><524d><5e94><7528>'' @ ''<7684><7126><70b9><5207><6362><5230> '' @ role @
         (if truthy label' then ''<201c>'' @ the label' @ ''<201d>'' else [])\<rparr>)"

definition control_template :: "SemanticEventV2 \<Rightarrow> RenderedTemplate" where
  "control_template event =
     (let appName = app_name event; role = or_default (stringValue event ''role'') ''<672a><77e5><63a7><4ef6>'';
          action = or_default (stringValue event ''action'') ''activate'';
          label' = contentValue event ''label'' in
      \<lparr>rt_templateCode = TemplateControlActivated,
       rt_templateArgs = compactArgs [(''appName'', null_str appName), (''role'', JStr role),
         (''action'', JStr action), (''label'', null_str label')],
       rt_text = (if truthy label'
         then ''<5728>'' @ or_default appName ''<5f53><524d><5e94><7528>'' @ ''<5bf9> '' @ role @ ''<201c>'' @ the label' @ ''<201d><6267><884c><4e86> '' @ action
         else ''<5728>'' @ or_default appName ''<5f53><524d><5e94><7528>'' @ ''<5bf9> '' @ role @ '' <6267><884c><4e86> '' @ action)\<rparr>)"

definition input_template :: "SemanticEventV2 \<Rightarrow> RenderedTemplate" where
  "input_template event =
     (let keyCount = or_default (numberValue event ''keyCount'') 0;
          clickCount = or_default (numberValue event ''clickCount'') 0;
          scrollDelta = or_default (numberValue event ''scrollDelta'') 0;
          mouseDistance = or_default (numberValue event ''mouseDistance'') 0 in
      \<lparr>rt_templateCode = TemplateInputActivity,
       rt_templateArgs = [(''keyCount'', JNum keyCount), (''clickCount'', JNum clickCount),
         (''scrollDelta'', JNum scrollDelta), (''mouseDistance'', JNum mouseDistance)],
       rt_text = ''5 <79d2><5185><68c0><6d4b><5230> '' @ show_int keyCount @ '' <6b21><952e><76d8><6d3b><52a8><3001>'' @ show_int clickCount @
         '' <6b21><70b9><51fb><3001><6eda><52a8><91cf> '' @ show_int scrollDelta @ '' <548c><9f20><6807><79fb><52a8><8ddd><79bb> '' @ show_int mouseDistance @
         ''<ff1b><672a><8bb0><5f55><6309><952e><5185><5bb9><6216><5750><6807>''\<rparr>)"

definition presence_template :: "SemanticEventV2 \<Rightarrow> RenderedTemplate" where
  "presence_template event =
     (let state = or_default (stringValue event ''state'') ''unknown'' in
      \<lparr>rt_templateCode = TemplatePresence,
       rt_templateArgs = compactArgs [(''state'', JStr state),
         (''idleForMs'', null_int (numberValue event ''idleForMs''))],
       rt_text = presenceText state\<rparr>)"

definition goal_template :: "SemanticEventV2 \<Rightarrow> RenderedTemplate" where
  "goal_template event =
     (let entries = recordValue event ''next'';
          field = (\<lambda>key. case entries of None \<Rightarrow> JUndef
            | Some es \<Rightarrow> (case map_of es key of None \<Rightarrow> JUndef | Some v \<Rightarrow> v));
          nextText = (case field ''text'' of JStr s \<Rightarrow> Some (compactText s) | _ \<Rightarrow> None) in
      \<lparr>rt_templateCode = TemplateGoal,
       rt_templateArgs = compactArgs
         [(''goalVersion'', (case field ''version'' of JNum n \<Rightarrow> JNum n | _ \<Rightarrow> JNull)),
          (''goalText'', null_str nextText)],
       rt_text = (if truthy nextText then ''<5f53><524d><76ee><6807><5207><6362><4e3a><201c>'' @ the nextText @ ''<201d>'' else ''<5f53><524d><76ee><6807><5df2><6e05><9664>'')\<rparr>)"

definition renderTemplate :: "UrlLibrary \<Rightarrow> SemanticEventV2 \<Rightarrow> evidence_error + RenderedTemplate option" where
  "renderTemplate urls event =
     (case se_kind event of
        ApplicationForegroundChanged \<Rightarrow> Inr (Some (foreground_template event))
      | ApplicationVisibleContentChanged \<Rightarrow> Inr (Some (visible_content_template event))
      | ApplicationTextValueChanged \<Rightarrow> Inr (Some (text_value_template event))
      | BrowserVisiblePageChanged \<Rightarrow> Inr (Some (visible_page_template urls event))
      | UiFocusChanged \<Rightarrow> Inr (Some (focus_template event))
      | UiControlActivated \<Rightarrow> Inr (Some (control_template event))
      | InputActivityBucket \<Rightarrow> Inr (Some (input_template event))
      | PresenceChanged \<Rightarrow> Inr (Some (presence_template event))
      | GoalChanged \<Rightarrow> Inr (Some (goal_template event))
      | AuthorizationChangedV2 \<Rightarrow> Inr None
      | ApplicationProcessObservedBatch \<Rightarrow> Inl ProcessInventoryIsNotEvidence
      | CoverageGap \<Rightarrow> Inl CoverageGapIsNotEvidence)"

subsection \<open>Anchors, roles and coverage\<close>

definition evidenceAnchor :: "UrlLibrary \<Rightarrow> (string \<Rightarrow> string) \<Rightarrow> SemanticEventV2 \<Rightarrow> EvidenceAnchorV2" where
  "evidenceAnchor urls sha256 event =
     (let appId = stringValue event ''appId''; wid = stringValue event ''opaqueWindowId'' in
      case se_kind event of
        BrowserVisiblePageChanged \<Rightarrow>
          let suppliedPageId = or_else (stringValue event ''opaquePageId'') (stringValue event ''pageAnchorHash'');
              canonicalUrl = canonicalPageUrl urls (contentValue event ''url'');
              pageId = or_else suppliedPageId
                (if truthy canonicalUrl
                 then Some (''page_'' @ sha256 (canonicalJson (JObj [(''appId'', null_str appId),
                        (''windowId'', null_str wid), (''url'', JStr (the canonicalUrl))])))
                 else stringValue event ''domain'')
          in \<lparr>an_appId = appId, an_windowId = wid, an_documentId = None, an_pageId = pageId\<rparr>
      | ApplicationTextValueChanged \<Rightarrow>
          \<lparr>an_appId = appId, an_windowId = wid,
           an_documentId = or_else (stringValue event ''opaqueControlId'') wid, an_pageId = None\<rparr>
      | ApplicationVisibleContentChanged \<Rightarrow>
          \<lparr>an_appId = appId, an_windowId = wid,
           an_documentId = or_else (stringValue event ''opaqueDocumentId'')
             (or_else (stringValue event ''documentAnchorHash'') wid), an_pageId = None\<rparr>
      | _ \<Rightarrow> \<lparr>an_appId = appId, an_windowId = wid, an_documentId = None, an_pageId = None\<rparr>)"

definition factRole :: "SemanticEventV2 \<Rightarrow> FactRole" where
  "factRole event =
     (if se_countClass event = CountBoundary then RoleBoundary
      else case se_kind event of
        InputActivityBucket \<Rightarrow> RoleSupporting
      | UiFocusChanged \<Rightarrow> RoleSupporting
      | _ \<Rightarrow> RolePrimary)"

definition mergeCoverage :: "CoverageLevel list list \<Rightarrow> CoverageLevel list" where
  "mergeCoverage values =
     filter (\<lambda>v. v \<in> set (concat values))
       [CoverContent, CoverMetadata, CoverRedacted, CoverDenied, CoverUnavailable]"

fun template_code_name :: "FactTemplateCode \<Rightarrow> string" where
  "template_code_name TemplateForeground = ''application.foreground''"
| "template_code_name TemplateVisibleContent = ''application.visible_content''"
| "template_code_name TemplateTextValue = ''application.text_value''"
| "template_code_name TemplateVisiblePage = ''browser.visible_page''"
| "template_code_name TemplateFocus = ''ui.focus''"
| "template_code_name TemplateControlActivated = ''ui.control_activated''"
| "template_code_name TemplateInputActivity = ''input.activity''"
| "template_code_name TemplatePresence = ''presence.changed''"
| "template_code_name TemplateGoal = ''goal.changed''"
| "template_code_name TemplateUnavailable = ''coverage.unavailable''"

subsection \<open>The renderer\<close>

definition renderEventV2 ::
  "UrlLibrary \<Rightarrow> (string \<Rightarrow> string) \<Rightarrow> SemanticEventV2 \<Rightarrow> evidence_error + EvidenceFactV2 option" where
  "renderEventV2 urls sha256 event =
     bindE (renderTemplate urls event) (\<lambda>rendered.
       case rendered of
         None \<Rightarrow> Inr None
       | Some t \<Rightarrow>
           Inr (Some \<lparr>
             fa_factId = ''fact_'' @ sha256 (canonicalJson (JObj [(''eventIds'', JArr [JStr (se_eventId event)]),
               (''templateCode'', JStr (template_code_name (rt_templateCode t))),
               (''templateArgs'', JObj (rt_templateArgs t)),
               (''projectorVersion'', JStr (se_projectorVersion event))])),
             fa_eventIds = [se_eventId event],
             fa_sourceObservationIds = se_sourceObservationIds event,
             fa_startedAtMs = se_occurredAtMs event, fa_endedAtMs = se_observedAtMs event,
             fa_templateCode = rt_templateCode t, fa_templateArgs = rt_templateArgs t,
             fa_renderedText = rt_text t, fa_anchor = evidenceAnchor urls sha256 event,
             fa_role = factRole event, fa_reliability = se_reliability event,
             fa_coverage = se_coverage event\<rparr>))"

fun render :: "UrlLibrary \<Rightarrow> (string \<Rightarrow> string) \<Rightarrow> SemanticEventV2 list \<Rightarrow> evidence_error + EvidenceFactV2 list" where
  "render urls sha256 [] = Inr []"
| "render urls sha256 (event # events) =
     (if se_countClass event = CountIgnored \<or> se_kind event = AuthorizationChangedV2
      then render urls sha256 events
      else bindE (renderEventV2 urls sha256 event) (\<lambda>fact.
           bindE (render urls sha256 events) (\<lambda>facts.
             Inr (case fact of None \<Rightarrow> facts | Some f \<Rightarrow> f # facts))))"

subsection \<open>What the renderer makes of a window\<close>

lemma length_compactText: "length (compactText s) \<le> 320"
  by (simp add: compactText_def MAX_FACT_CONTENT_CHARACTERS_def)

text \<open>The events of a window that the renderer turns into facts.\<close>

definition rendered_events :: "SemanticEventV2 list \<Rightarrow> SemanticEventV2 list" where
  "rendered_events events =
     filter (\<lambda>e. se_countClass e \<noteq> CountIgnored \<and> se_kind e \<noteq> AuthorizationChangedV2) events"

definition evidence_kind :: "SemanticEventKind \<Rightarrow> bool" where
  "evidence_kind k \<longleftrightarrow> k \<notin> {AuthorizationChangedV2, ApplicationProcessObservedBatch, CoverageGap}"

lemma renderTemplate_evidence:
  "evidence_kind (se_kind e) \<Longrightarrow> \<exists>t. renderTemplate urls e = Inr (Some t)"
  by (cases "se_kind e") (auto simp: renderTemplate_def evidence_kind_def)

lemma renderEventV2_evidence:
  assumes "evidence_kind (se_kind e)"
  obtains f where "renderEventV2 urls sha256 e = Inr (Some f)"
  using renderTemplate_evidence [OF assms, of urls] by (auto simp: renderEventV2_def)

lemma renderEventV2_fields:
  assumes "renderEventV2 urls sha256 e = Inr (Some f)"
  shows "fa_eventIds f = [se_eventId e]" and "fa_role f = factRole e" and "fa_coverage f = se_coverage e"
    and "fa_startedAtMs f = se_occurredAtMs e" and "fa_endedAtMs f = se_observedAtMs e"
  using assms by (auto simp: renderEventV2_def bindE_def split: sum.splits option.splits)

lemma render_succeeds:
  assumes "\<And>e. e \<in> set (rendered_events events) \<Longrightarrow> evidence_kind (se_kind e)"
  obtains facts where "render urls sha256 events = Inr facts"
    and "list_all2 (\<lambda>e f. renderEventV2 urls sha256 e = Inr (Some f)) (rendered_events events) facts"
  using assms
proof (induction events arbitrary: thesis)
  case Nil
  then show ?case by (simp add: rendered_events_def)
next
  case (Cons e events)
  obtain facts where facts: "render urls sha256 events = Inr facts"
      "list_all2 (\<lambda>e f. renderEventV2 urls sha256 e = Inr (Some f)) (rendered_events events) facts"
    using Cons.IH Cons.prems(2) by (auto simp: rendered_events_def)
  show ?case
  proof (cases "se_countClass e = CountIgnored \<or> se_kind e = AuthorizationChangedV2")
    case True
    then show ?thesis using facts Cons.prems(1) [of facts] by (auto simp: rendered_events_def)
  next
    case False
    then have "evidence_kind (se_kind e)" using Cons.prems(2) by (simp add: rendered_events_def)
    then obtain f where "renderEventV2 urls sha256 e = Inr (Some f)" by (rule renderEventV2_evidence)
    then show ?thesis using False facts Cons.prems(1) [of "f # facts"] by (simp add: rendered_events_def)
  qed
qed

text \<open>A fact that is not a boundary exists as soon as one event is counted.\<close>

lemma render_has_evidence:
  assumes "render urls sha256 events = Inr facts"
    and "e \<in> set events" and "se_countClass e = CountEffective" and "se_kind e \<noteq> AuthorizationChangedV2"
  shows "\<exists>f \<in> set facts. fa_role f \<noteq> RoleBoundary"
  using assms
proof (induction events arbitrary: facts)
  case (Cons e' events)
  show ?case
  proof (cases "se_countClass e' = CountIgnored \<or> se_kind e' = AuthorizationChangedV2")
    case True
    with Cons show ?thesis by auto
  next
    case False
    with Cons.prems(1) obtain fo fs where fo: "renderEventV2 urls sha256 e' = Inr fo" "render urls sha256 events = Inr fs"
        "facts = (case fo of None \<Rightarrow> fs | Some f \<Rightarrow> f # fs)"
      by (auto simp: bindE_eq_Inr_iff)
    show ?thesis
    proof (cases "e = e'")
      case True
      have "fo \<noteq> None" using fo(1) True Cons.prems(4)
        by (cases "se_kind e'") (auto simp: renderEventV2_def renderTemplate_def)
      then obtain f where f: "fo = Some f" by blast
      then have "fa_role f = factRole e" using renderEventV2_fields(2) fo(1) True by blast
      moreover have "factRole e \<noteq> RoleBoundary" using Cons.prems(3)
        by (auto simp: factRole_def split: SemanticEventKind.splits)
      ultimately show ?thesis using fo(3) f by auto
    next
      case False
      with Cons fo show ?thesis by (auto split: option.splits)
    qed
  qed
qed simp

subsection \<open>Content that is not available stays out\<close>

definition content_keys :: "string list" where
  "content_keys = [''windowTitle'', ''visibleText'', ''label'', ''addedText'', ''finalValue'', ''title'', ''url'']"

definition agree_outside_content :: "SemanticEventV2 \<Rightarrow> SemanticEventV2 \<Rightarrow> bool" where
  "agree_outside_content e e' \<longleftrightarrow>
     (\<exists>p. e' = e\<lparr>se_payload := p\<rparr>) \<and>
     (\<forall>key. key \<notin> set content_keys \<longrightarrow> payload_value e' key = payload_value e key)"

lemma agree_reads:
  assumes "agree_outside_content e e'" and "key \<notin> set content_keys"
  shows "stringValue e' key = stringValue e key" and "numberValue e' key = numberValue e key"
    and "booleanValue e' key = booleanValue e key" and "recordValue e' key = recordValue e key"
  using assms
  by (simp_all add: agree_outside_content_def stringValue_def numberValue_def booleanValue_def recordValue_def)

lemma agree_rest:
  assumes "agree_outside_content e e'"
  shows "se_kind e' = se_kind e" "se_eventId e' = se_eventId e" "se_contentState e' = se_contentState e"
    "se_sourceObservationIds e' = se_sourceObservationIds e" "se_occurredAtMs e' = se_occurredAtMs e"
    "se_observedAtMs e' = se_observedAtMs e" "se_countClass e' = se_countClass e"
    "se_reliability e' = se_reliability e" "se_coverage e' = se_coverage e"
    "se_projectorVersion e' = se_projectorVersion e"
  using assms by (auto simp: agree_outside_content_def)

lemma content_withheld: "se_contentState e \<noteq> ContentAvailable \<Longrightarrow> contentValue e key = None"
  by (simp add: contentValue_def)

lemmas template_defs = foreground_template_def visible_content_template_def text_value_template_def
  visible_page_template_def focus_template_def control_template_def input_template_def
  presence_template_def goal_template_def unavailableContentTemplate_def app_name_def

text \<open>C23: content that is not available never reaches a fact: when the content of an event is
  redacted, expired or unavailable, two events that differ only in their content fields (window
  title, visible text, label, added text, final value, page title, URL) are rendered into the
  same fact, text, arguments, anchor and identity included.\<close>

theorem withheld_content_not_rendered:
  assumes "se_contentState e \<noteq> ContentAvailable" and "agree_outside_content e e'"
  shows "renderEventV2 urls sha256 e' = renderEventV2 urls sha256 e"
proof -
  have withheld: "contentValue e key = None" "contentValue e' key = None" for key
    using assms agree_rest(3) [OF assms(2)] by (simp_all add: content_withheld)
  note reads = agree_reads [OF assms(2)]
  have 1: "renderTemplate urls e' = renderTemplate urls e"
    by (simp add: renderTemplate_def template_defs Let_def withheld reads content_keys_def agree_rest [OF assms(2)]
        split: SemanticEventKind.split)
  have 2: "evidenceAnchor urls sha256 e' = evidenceAnchor urls sha256 e"
    by (simp add: evidenceAnchor_def Let_def withheld reads content_keys_def agree_rest [OF assms(2)]
        split: SemanticEventKind.split)
  have 3: "factRole e' = factRole e" by (simp add: factRole_def agree_rest [OF assms(2)])
  show ?thesis unfolding renderEventV2_def 1 2 3 agree_rest [OF assms(2)] ..
qed

subsection \<open>The texts of a fact are bounded\<close>

lemma compact_arg_bounded: "compact_arg v = JStr s \<Longrightarrow> length s \<le> 320"
  by (cases v) (auto simp: length_compactText)

lemma compactArgs_bounded: "(key, JStr s) \<in> set (compactArgs vs) \<Longrightarrow> length s \<le> 320"
  by (auto simp: compactArgs_def dest: compact_arg_bounded sym)

lemma template_args_bounded:
  assumes "renderTemplate urls e = Inr (Some t)" and "(key, JStr s) \<in> set (rt_templateArgs t)"
  shows "length s \<le> 320"
proof (cases "se_kind e = InputActivityBucket")
  case True
  with assms show ?thesis by (auto simp: renderTemplate_def input_template_def Let_def)
next
  case False
  with assms(1) have "\<exists>vs. rt_templateArgs t = compactArgs vs"
    by (cases "se_kind e") (auto simp: renderTemplate_def template_defs Let_def)
  with assms(2) compactArgs_bounded show ?thesis by auto
qed

end
