(* ===== verification/TimelineEpisodes.thy ===== *)
theory TimelineEpisodes
  imports TimelineEvidence
begin

text \<open>
  Activity episodes, \<open>src/agent/timeline/episodes.ts\<close> and \<open>hypothesis.ts\<close>: the facts of a
  window are cut into at most eight segments, each segment is classified and becomes an episode
  or a new revision of the previous one, and every episode gets a hypothesis. The classifier,
  the hypothesis generator and the similarity are the source's interfaces and parameters of the
  assembler; the classifier and the generator the program runs with are modelled as well.

  A rejected promise is a \<open>thrown\<close> value. The assembler has no effect before it returns, so the
  moment at which its abort signal fires cannot be observed: \<open>aborted\<close> says that one of the
  checks of the call saw it.
\<close>

definition timeline_abort_error :: thrown where
  "timeline_abort_error = (plain_error ''Timeline inference was cancelled.'')\<lparr>thrown_name := Some ''AbortError''\<rparr>"

definition throwIfAborted :: "bool \<Rightarrow> thrown + unit" where
  "throwIfAborted aborted = (if aborted then Inl timeline_abort_error else Inr ())"

definition EPISODE_INACTIVITY_BOUNDARY_MS :: int where "EPISODE_INACTIVITY_BOUNDARY_MS = 30000"
definition EPISODE_BRIEF_DETOUR_MS :: int where "EPISODE_BRIEF_DETOUR_MS = 10000"
definition EPISODE_CROSS_WINDOW_GAP_MS :: int where "EPISODE_CROSS_WINDOW_GAP_MS = 90000"
definition EPISODE_CROSS_WINDOW_SIMILARITY :: real where "EPISODE_CROSS_WINDOW_SIMILARITY = 8 / 10"
definition EPISODE_MAX_PRIMARY_SEGMENTS :: nat where "EPISODE_MAX_PRIMARY_SEGMENTS = 8"

subsection \<open>Anchors\<close>

definition hasAnchor :: "EvidenceAnchorV2 \<Rightarrow> bool" where
  "hasAnchor anchor \<longleftrightarrow> an_appId anchor \<noteq> None \<or> an_windowId anchor \<noteq> None \<or>
     an_documentId anchor \<noteq> None \<or> an_pageId anchor \<noteq> None"

definition anchorSpecificity :: "EvidenceAnchorV2 \<Rightarrow> int" where
  "anchorSpecificity anchor = int (length (filter (\<lambda>v. v \<noteq> None)
     [an_appId anchor, an_windowId anchor, an_documentId anchor, an_pageId anchor]))"

definition compatibleAnchorPart :: "string option \<Rightarrow> string option \<Rightarrow> bool" where
  "compatibleAnchorPart left right \<longleftrightarrow> left = None \<or> right = None \<or> left = right"

definition sameAnchor :: "EvidenceAnchorV2 \<Rightarrow> EvidenceAnchorV2 \<Rightarrow> bool" where
  "sameAnchor left right \<longleftrightarrow>
     compatibleAnchorPart (an_appId left) (an_appId right) \<and>
     compatibleAnchorPart (an_windowId left) (an_windowId right) \<and>
     compatibleAnchorPart (an_documentId left) (an_documentId right) \<and>
     compatibleAnchorPart (an_pageId left) (an_pageId right)"

definition no_anchor :: EvidenceAnchorV2 where
  "no_anchor = \<lparr>an_appId = None, an_windowId = None, an_documentId = None, an_pageId = None\<rparr>"

definition anchor_rank_compare :: "nat \<times> EvidenceFactV2 \<Rightarrow> nat \<times> EvidenceFactV2 \<Rightarrow> int" where
  "anchor_rank_compare left right =
     or_else_cmp (cmp_by (\<lambda>p. anchorSpecificity (fa_anchor (snd p)))) (cmp_by (\<lambda>p. int (fst p))) right left"

definition segmentAnchor :: "EvidenceFactV2 list \<Rightarrow> EvidenceAnchorV2" where
  "segmentAnchor facts =
     (let candidates = filter (\<lambda>f. hasAnchor (fa_anchor f)) facts;
          primary = filter (\<lambda>f. fa_role f = RolePrimary) candidates
      in case js_sort anchor_rank_compare (enumerate 0 (if primary \<noteq> [] then primary else candidates)) of
           [] \<Rightarrow> no_anchor
         | p # _ \<Rightarrow> fa_anchor (snd p))"

subsection \<open>Cutting the facts into segments\<close>

record FactSegment =
  fs_facts :: "EvidenceFactV2 list"
  fs_supportingFactIds :: "string list"

definition fact_compare :: "(string \<Rightarrow> string \<Rightarrow> int) \<Rightarrow> EvidenceFactV2 \<Rightarrow> EvidenceFactV2 \<Rightarrow> int" where
  "fact_compare lc = or_else_cmp (cmp_by fa_startedAtMs) (\<lambda>a b. lc (fa_factId a) (fa_factId b))"

text \<open>
  The source walks the ordered facts by index; here the walk carries the facts from the current
  index on, and \<open>findBriefReturn\<close> answers how many of them the detour takes.
\<close>

fun findBriefReturn :: "EvidenceAnchorV2 \<Rightarrow> int \<Rightarrow> nat \<Rightarrow> EvidenceFactV2 list \<Rightarrow> nat option" where
  "findBriefReturn anchor detourStartedAtMs n [] = None"
| "findBriefReturn anchor detourStartedAtMs n (fct # facts) =
     (if fa_role fct = RoleBoundary then None
      else if EPISODE_BRIEF_DETOUR_MS < fa_startedAtMs fct - detourStartedAtMs then None
      else if fa_role fct = RolePrimary \<and> sameAnchor (fa_anchor fct) anchor then Some n
      else findBriefReturn anchor detourStartedAtMs (Suc n) facts)"

lemma findBriefReturn_ge: "findBriefReturn anchor t n facts = Some k \<Longrightarrow> n \<le> k"
  by (induction anchor t n facts rule: findBriefReturn.induct) (auto split: if_splits)

definition new_segment :: "EvidenceFactV2 \<Rightarrow> FactSegment" where
  "new_segment fct = \<lparr>fs_facts = [fct], fs_supportingFactIds = []\<rparr>"

definition push_fact :: "EvidenceFactV2 \<Rightarrow> FactSegment \<Rightarrow> FactSegment" where
  "push_fact fct seg = seg\<lparr>fs_facts := fs_facts seg @ [fct]\<rparr>"

definition push_detour :: "EvidenceFactV2 \<Rightarrow> FactSegment \<Rightarrow> FactSegment" where
  "push_detour fct seg = seg\<lparr>fs_facts := fs_facts seg @ [fct],
     fs_supportingFactIds := set_add (fa_factId fct) (fs_supportingFactIds seg)\<rparr>"

definition after_inactivity :: "EvidenceFactV2 \<Rightarrow> FactSegment \<Rightarrow> bool" where
  "after_inactivity fct seg \<longleftrightarrow> fs_facts seg \<noteq> [] \<and>
     EPISODE_INACTIVITY_BOUNDARY_MS \<le> fa_startedAtMs fct - fa_endedAtMs (last (fs_facts seg))"

definition leaves_anchor :: "EvidenceFactV2 \<Rightarrow> EvidenceAnchorV2 \<Rightarrow> bool" where
  "leaves_anchor fct currentAnchor \<longleftrightarrow> fa_role fct = RolePrimary \<and> hasAnchor currentAnchor \<and>
     hasAnchor (fa_anchor fct) \<and> \<not> sameAnchor currentAnchor (fa_anchor fct)"

function segment_loop :: "EvidenceFactV2 list \<Rightarrow> FactSegment list \<Rightarrow> FactSegment option \<Rightarrow> FactSegment list" where
  "segment_loop [] segments current =
     (case current of None \<Rightarrow> segments | Some seg \<Rightarrow> segments @ [seg])"
| "segment_loop (fct # rest) segments current =
     (if fa_role fct = RoleBoundary
      then segment_loop rest (case current of None \<Rightarrow> segments | Some seg \<Rightarrow> segments @ [seg]) None
      else case current of
        None \<Rightarrow> segment_loop rest segments (Some (new_segment fct))
      | Some seg \<Rightarrow>
          if after_inactivity fct seg
          then segment_loop rest (segments @ [seg]) (Some (new_segment fct))
          else
            let currentAnchor = segmentAnchor (fs_facts seg) in
            if leaves_anchor fct currentAnchor
            then case findBriefReturn currentAnchor (fa_startedAtMs fct) 1 rest of
                   Some k \<Rightarrow>
                     segment_loop (drop k (fct # rest)) segments
                       (Some (fold push_detour
                          (takeWhile (\<lambda>f. fa_role f \<noteq> RoleBoundary) (take k (fct # rest))) seg))
                 | None \<Rightarrow> segment_loop rest (segments @ [seg]) (Some (new_segment fct))
            else segment_loop rest segments (Some (push_fact fct seg)))"
  by pat_completeness auto
termination
  by (relation "measure (\<lambda>(facts, _, _). length facts)") (auto dest: findBriefReturn_ge)

definition math_min :: "int list \<Rightarrow> int" where
  "math_min xs = fold min (tl xs) (hd xs)"

definition math_max :: "int list \<Rightarrow> int" where
  "math_max xs = fold max (tl xs) (hd xs)"

definition segmentDuration :: "FactSegment \<Rightarrow> int" where
  "segmentDuration seg =
     max 0 (math_max (map fa_endedAtMs (fs_facts seg)) - math_min (map fa_startedAtMs (fs_facts seg)))"

text \<open>The first segment of the shortest duration.\<close>

function select_shortest :: "FactSegment list \<Rightarrow> nat \<Rightarrow> nat \<Rightarrow> nat" where
  "select_shortest segments selectedIndex index =
     (if length segments \<le> index then selectedIndex
      else select_shortest segments
        (if segmentDuration (segments ! index) < segmentDuration (segments ! selectedIndex) then index
         else selectedIndex) (Suc index))"
  by pat_completeness auto
termination
  by (relation "measure (\<lambda>(segments, _, index). length segments - index)") auto

declare select_shortest.simps [simp del]

definition merge_segments :: "(string \<Rightarrow> string \<Rightarrow> int) \<Rightarrow> FactSegment \<Rightarrow> FactSegment \<Rightarrow> FactSegment" where
  "merge_segments lc target selected =
     \<lparr>fs_facts = js_sort (fact_compare lc) (fs_facts target @ fs_facts selected),
      fs_supportingFactIds =
        fold set_add (fs_supportingFactIds selected)
          (fold set_add (map fa_factId (fs_facts selected)) (fs_supportingFactIds target))\<rparr>"

definition remove_at :: "nat \<Rightarrow> 'a list \<Rightarrow> 'a list" where
  "remove_at i xs = take i xs @ drop (Suc i) xs"

definition merge_into_previous :: "FactSegment list \<Rightarrow> nat \<Rightarrow> bool" where
  "merge_into_previous segments i \<longleftrightarrow>
     0 < i \<and>
     (length segments \<le> Suc i \<or>
      sameAnchor (segmentAnchor (fs_facts (segments ! (i - 1)))) (segmentAnchor (fs_facts (segments ! i))) \<or>
      \<not> sameAnchor (segmentAnchor (fs_facts (segments ! Suc i))) (segmentAnchor (fs_facts (segments ! i))))"

function collapseOverflowSegments ::
  "(string \<Rightarrow> string \<Rightarrow> int) \<Rightarrow> FactSegment list \<Rightarrow> nat \<Rightarrow> FactSegment list" where
  "collapseOverflowSegments lc segments limit =
     (if length segments \<le> limit then segments
      else
        let i = select_shortest segments 0 1;
            targetIndex = (if merge_into_previous segments i then i - 1 else Suc i)
        in if length segments \<le> i \<or> length segments \<le> targetIndex then segments
           else collapseOverflowSegments lc
             (remove_at i (segments[targetIndex := merge_segments lc (segments ! targetIndex) (segments ! i)]))
             limit)"
  by pat_completeness auto
termination
  by (relation "measure (\<lambda>(_, segments, _). length segments)") (auto simp: remove_at_def)

declare collapseOverflowSegments.simps [simp del]

definition segmentFacts :: "(string \<Rightarrow> string \<Rightarrow> int) \<Rightarrow> EvidenceFactV2 list \<Rightarrow> FactSegment list" where
  "segmentFacts lc facts =
     collapseOverflowSegments lc
       (filter (\<lambda>seg. 0 < length (fs_facts seg)) (segment_loop (js_sort (fact_compare lc) facts) [] None))
       EPISODE_MAX_PRIMARY_SEGMENTS"

subsection \<open>The deterministic classifier\<close>

fun js_contains :: "string \<Rightarrow> string \<Rightarrow> bool" where
  "js_contains s [] = True"
| "js_contains [] (c # p) = False"
| "js_contains (d # s) p = (js_startsWith (d # s) p \<or> js_contains s p)"

text \<open>\<open>/(^|\s)word(\s|$)/\<close>; the second argument says whether the match may start here.\<close>

fun contains_word :: "string \<Rightarrow> bool \<Rightarrow> string \<Rightarrow> bool" where
  "contains_word w here [] = (here \<and> w = [])"
| "contains_word w here (c # s) =
     ((here \<and> js_startsWith (c # s) w \<and>
        (drop (length w) (c # s) = [] \<or> js_space (hd (drop (length w) (c # s))))) \<or>
      contains_word w (js_space c) s)"

definition fact_strings :: "string list \<Rightarrow> EvidenceFactV2 list \<Rightarrow> string" where
  "fact_strings keys facts =
     toLowerCase (js_join '' '' (concat (map (\<lambda>f. concat (map (\<lambda>key.
       case map_of (fa_templateArgs f) key of Some (JStr s) \<Rightarrow> [s] | _ \<Rightarrow> []) keys)) facts)))"

definition matches_any :: "string \<Rightarrow> string list \<Rightarrow> bool" where
  "matches_any corpus patterns \<longleftrightarrow> (\<exists>p \<in> set patterns. js_contains corpus p)"

definition heuristic_activity :: "EvidenceFactV2 list \<Rightarrow> ActivityLabel" where
  "heuristic_activity facts =
     (let appCorpus = fact_strings [''appName'', ''appId''] facts;
          browserFacts = filter (\<lambda>f. fa_templateCode f = TemplateVisiblePage) facts;
          browserMetadata = fact_strings [''title'', ''url'', ''domain''] browserFacts in
      if \<exists>f \<in> set facts. fa_templateCode f = TemplatePresence then idle_transition
      else if matches_any appCorpus
        [''visual studio code'', ''vscode'', ''xcode'', ''terminal'', ''iterm'', ''code editor'']
      then development
      else if matches_any appCorpus [''<98de><4e66>'', ''feishu'', ''lark'', ''qq'', ''<5fae><4fe1>'',
        ''wechat'', ''slack'', ''teams'', ''messages'']
      then communication
      else if matches_any appCorpus
        [''<7f51><6613><4e91>'', ''music'', ''spotify'', ''vlc'', ''quicktime'', ''media player'']
      then media
      else if \<exists>w \<in> set [''finder'', ''<8bbf><8fbe>'', ''system settings'', ''<7cfb><7edf><8bbe><7f6e>''].
        contains_word w True appCorpus
      then system_file_ops
      else if browserFacts \<noteq> []
      then if matches_any browserMetadata
             [''github'', ''gitlab'', ''stackoverflow'', ''developer.'', ''localhost'', ''127.0.0.1'']
           then development
           else if matches_any browserMetadata [''mail.'', ''gmail'', ''outlook'', ''slack'', ''teams'',
             ''feishu'', ''lark'', ''qq.com'']
           then communication
           else if matches_any browserMetadata [''youtube'', ''bilibili'', ''spotify'', ''music'', ''video'']
           then media
           else if matches_any browserMetadata
             [''amazon'', ''taobao'', ''tmall'', ''jd.com'', ''shop'', ''checkout'', ''cart'']
           then commerce
           else research
      else if \<exists>f \<in> set facts. fa_templateCode f = TemplateTextValue then writing
      else other_unknown)"

definition heuristic_classify ::
  "bool \<Rightarrow> EvidenceFactV2 list \<Rightarrow> ActiveGoalContext option \<Rightarrow> thrown + EpisodeClassificationV2" where
  "heuristic_classify aborted facts goal =
     bindE (throwIfAborted aborted) (\<lambda>_.
       let activity = heuristic_activity facts; unsure = (activity = other_unknown) in
       Inr \<lparr>cl_activity = activity,
         cl_goalRelevance = (if goal \<noteq> None then Some uncertain else None),
         cl_confidence = (if unsure then 35 / 100 else 6 / 10),
         cl_entropy = (if unsure then 1 else 8 / 10),
         cl_oodScore = (if unsure then 9 / 10 else 45 / 100),
         cl_abstain = unsure,
         cl_modelVersion = ''deterministic-cold-start.v2''\<rparr>)"

subsection \<open>Hypotheses\<close>

definition DETERMINISTIC_HYPOTHESIS_FACT_LIMIT :: nat where
  "DETERMINISTIC_HYPOTHESIS_FACT_LIMIT = 4"

definition uncertain_text :: string where
  "uncertain_text = ''<53ef><80fd><5728><8fdb><884c><5f53><524d><53ef><89c1><64cd><4f5c><ff08><6d3b><52a8><7c7b><578b><6682><4e0d><786e><5b9a><ff09>''"

definition visible_operation_text :: string where
  "visible_operation_text = ''<53ef><80fd><5728><8fdb><884c><5f53><524d><53ef><89c1><64cd><4f5c>''"

fun hypothesisTemplate :: "ActivityLabel \<Rightarrow> string" where
  "hypothesisTemplate development = ''<53ef><80fd><5728><8fdb><884c><8f6f><4ef6><5f00><53d1><6216><6392><67e5><6280><672f><95ee><9898>''"
| "hypothesisTemplate writing = ''<53ef><80fd><5728><7f16><8f91><6216><6574><7406><6587><5b57><5185><5bb9>''"
| "hypothesisTemplate research = ''<53ef><80fd><5728><67e5><9605><548c><7814><7a76><8d44><6599>''"
| "hypothesisTemplate communication = ''<53ef><80fd><5728><5904><7406><6c9f><901a><6d88><606f>''"
| "hypothesisTemplate planning = ''<53ef><80fd><5728><89c4><5212><6216><5b89><6392><63a5><4e0b><6765><7684><5de5><4f5c>''"
| "hypothesisTemplate data_work = ''<53ef><80fd><5728><67e5><770b><6216><5904><7406><6570><636e>''"
| "hypothesisTemplate media = ''<53ef><80fd><5728><67e5><770b><6216><64ad><653e><5a92><4f53><5185><5bb9>''"
| "hypothesisTemplate gaming = ''<53ef><80fd><5728><8fdb><884c><6e38><620f><6d3b><52a8>''"
| "hypothesisTemplate system_file_ops = ''<53ef><80fd><5728><7ba1><7406><7cfb><7edf><6216><6587><4ef6>''"
| "hypothesisTemplate commerce = ''<53ef><80fd><5728><6d4f><89c8><5546><54c1><6216><5904><7406><4ea4><6613><76f8><5173><9875><9762>''"
| "hypothesisTemplate idle_transition = ''<53ef><80fd><5728><6682><79bb><3001><9501><5c4f><6216><6062><590d><7535><8111><6d3b><52a8>''"
| "hypothesisTemplate other_unknown = ''<53ef><80fd><5728><8fdb><884c><5f53><524d><53ef><89c1><64cd><4f5c>''"

definition deterministic_hypothesis :: "string list \<Rightarrow> ActivityEpisodeV2 \<Rightarrow> EpisodeHypothesisV2" where
  "deterministic_hypothesis factIds episode =
     \<lparr>hy_text = (if cl_abstain (ep_classification episode) then uncertain_text
         else hypothesisTemplate (cl_activity (ep_classification episode))),
      hy_citedFactIds = take DETERMINISTIC_HYPOTHESIS_FACT_LIMIT
        (filter (\<lambda>i. i \<in> set factIds)
          (js_unique (ep_evidenceFactIds episode @ ep_supportingFactIds episode))),
      hy_generator = ''deterministic-template.v2'',
      hy_diagnostics = None\<rparr>"

definition deterministic_generate ::
  "bool \<Rightarrow> ActivityEpisodeV2 list \<Rightarrow> EvidenceFactV2 list \<Rightarrow> ActiveGoalContext option \<Rightarrow>
   thrown + (string, EpisodeHypothesisV2) jmap" where
  "deterministic_generate aborted episodes facts goal =
     bindE (throwIfAborted aborted) (\<lambda>_.
       Inr (fold (\<lambda>episode. jset (ep_episodeId episode)
              (deterministic_hypothesis (map fa_factId facts) episode)) episodes []))"

subsection \<open>The assembler\<close>

record ClassificationContext =
  cc_windowId :: string
  cc_triggerReason :: ReflectionTriggerReason
  cc_startedAtMs :: int
  cc_endedAtMs :: int
  cc_eventCount :: nat
  cc_contextOnlyFacts :: "EvidenceFactV2 list"

record EpisodeAssembler =
  as_sha256 :: "string \<Rightarrow> string"
  as_localeCompare :: "string \<Rightarrow> string \<Rightarrow> int"
  as_classify :: "EvidenceFactV2 list \<Rightarrow> ActiveGoalContext option \<Rightarrow> ClassificationContext \<Rightarrow>
    thrown + EpisodeClassificationV2"
  as_generate :: "ActivityEpisodeV2 list \<Rightarrow> EvidenceFactV2 list \<Rightarrow> ActiveGoalContext option \<Rightarrow>
    thrown + (string, EpisodeHypothesisV2) jmap"
  as_similarity :: "(ActivityEpisodeV2 \<Rightarrow> EvidenceFactV2 list \<Rightarrow> thrown + real option) option"

text \<open>The similarity is a number, or \<open>None\<close> for one that is not finite.\<close>

definition shouldContinue ::
  "EpisodeAssembler \<Rightarrow> ActivityEpisodeV2 \<Rightarrow> EvidenceFactV2 list \<Rightarrow> EvidenceAnchorV2 \<Rightarrow> int option \<Rightarrow> int \<Rightarrow>
   thrown + bool" where
  "shouldContinue a previous facts anchor goalVersion startedAtMs =
     (let gapMs = startedAtMs - ep_endedAtMs previous in
      if (gapMs < 0 \<and> startedAtMs < ep_startedAtMs previous) \<or> EPISODE_CROSS_WINDOW_GAP_MS < gapMs \<or>
         ep_goalVersion previous \<noteq> goalVersion
      then Inr False
      else if sameAnchor (ep_anchor previous) anchor then Inr True
      else case as_similarity a of
        None \<Rightarrow> Inr False
      | Some compare \<Rightarrow>
          bindE (compare previous facts) (\<lambda>similarity.
            Inr (case similarity of None \<Rightarrow> False | Some x \<Rightarrow> EPISODE_CROSS_WINDOW_SIMILARITY \<le> x)))"

definition segment_fact_ids :: "FactSegment \<Rightarrow> string list \<times> string list" where
  "segment_fact_ids seg =
     (let evidence = map fa_factId (filter (\<lambda>f. fa_role f = RolePrimary \<and>
            fa_factId f \<notin> set (fs_supportingFactIds seg)) (fs_facts seg));
          supports = map fa_factId (filter (\<lambda>f. fa_role f \<noteq> RolePrimary \<or>
            fa_factId f \<in> set (fs_supportingFactIds seg)) (fs_facts seg))
      in if evidence = [] \<and> supports \<noteq> []
         then (if hd supports \<noteq> [] then [hd supports] else [], tl supports)
         else (evidence, supports))"

text \<open>Whether the first segment continues the previous episode, and the episode built of a segment.\<close>

definition continuation ::
  "EpisodeAssembler \<Rightarrow> TimelineWindowV2 \<Rightarrow> ActivityEpisodeV2 option \<Rightarrow> nat \<Rightarrow> FactSegment \<Rightarrow>
   thrown + ActivityEpisodeV2 option" where
  "continuation a window previousEpisode index seg =
     (case previousEpisode of
        None \<Rightarrow> Inr None
      | Some previous \<Rightarrow>
          if index \<noteq> 0 then Inr None
          else bindE (shouldContinue a previous (fs_facts seg) (segmentAnchor (fs_facts seg))
                 (tw_goalVersion window) (math_min (map fa_startedAtMs (fs_facts seg))))
                 (\<lambda>yes. Inr (if yes then Some previous else None)))"

definition build_episode ::
  "EpisodeAssembler \<Rightarrow> TimelineWindowV2 \<Rightarrow> FactSegment \<Rightarrow> EpisodeClassificationV2 \<Rightarrow>
   ActivityEpisodeV2 option \<Rightarrow> ActivityEpisodeV2" where
  "build_episode a window seg classification continued =
     (let (evidenceFactIds, supportingFactIds) = segment_fact_ids seg;
          startedAtMs = math_min (map fa_startedAtMs (fs_facts seg));
          endedAtMs = math_max (map fa_endedAtMs (fs_facts seg));
          episodeId = (case continued of Some previous \<Rightarrow> ep_episodeId previous
            | None \<Rightarrow> ''episode_'' @ as_sha256 a (canonicalJson (JObj
                [(''deviceId'', JStr (tw_deviceId window)), (''sessionId'', JStr (tw_sessionId window)),
                 (''goalVersion'', null_int (tw_goalVersion window)),
                 (''firstFactId'', (case evidenceFactIds @ supportingFactIds of [] \<Rightarrow> JUndef | i # _ \<Rightarrow> JStr i))])));
          revision' = (case continued of Some previous \<Rightarrow> ep_revision previous + 1 | None \<Rightarrow> 1);
          revisionId = ''episode_revision_'' @ as_sha256 a (canonicalJson (JObj
            [(''episodeId'', JStr episodeId), (''revision'', JNum revision'),
             (''windowId'', JStr (tw_windowId window)),
             (''evidenceFactIds'', JArr (map JStr evidenceFactIds)),
             (''supportingFactIds'', JArr (map JStr supportingFactIds))])) in
      \<lparr>ep_episodeId = episodeId, ep_revisionId = revisionId, ep_revision = revision',
       ep_supersedesRevisionId = map_option ep_revisionId continued,
       ep_sourceWindowIds = (case continued of None \<Rightarrow> [tw_windowId window]
         | Some previous \<Rightarrow> js_unique (ep_sourceWindowIds previous @ [tw_windowId window])),
       ep_startedAtMs = (case continued of None \<Rightarrow> startedAtMs
         | Some previous \<Rightarrow> min (ep_startedAtMs previous) startedAtMs),
       ep_endedAtMs = (case continued of None \<Rightarrow> endedAtMs
         | Some previous \<Rightarrow> max (ep_endedAtMs previous) endedAtMs),
       ep_goalVersion = tw_goalVersion window, ep_anchor = segmentAnchor (fs_facts seg),
       ep_classification = classification,
       ep_hypothesis = \<lparr>hy_text = visible_operation_text, hy_citedFactIds = take 1 evidenceFactIds,
         hy_generator = ''deterministic-template.v2'', hy_diagnostics = None\<rparr>,
       ep_evidenceFactIds = (case continued of None \<Rightarrow> evidenceFactIds
         | Some previous \<Rightarrow> js_unique (ep_evidenceFactIds previous @ evidenceFactIds)),
       ep_supportingFactIds = (case continued of None \<Rightarrow> supportingFactIds
         | Some previous \<Rightarrow> js_unique (ep_supportingFactIds previous @ supportingFactIds)),
       ep_coverage = mergeCoverage (map fa_coverage (fs_facts seg))\<rparr>)"

definition classification_facts :: "FactSegment \<Rightarrow> EvidenceFactV2 list" where
  "classification_facts seg =
     (let own = filter (\<lambda>f. fa_factId f \<notin> set (fs_supportingFactIds seg)) (fs_facts seg)
      in if own \<noteq> [] then own else fs_facts seg)"

definition assemble_segment ::
  "EpisodeAssembler \<Rightarrow> TimelineWindowV2 \<Rightarrow> ActivityEpisodeV2 option \<Rightarrow> EvidenceFactV2 list \<Rightarrow>
   nat \<Rightarrow> FactSegment \<Rightarrow> thrown + ActivityEpisodeV2" where
  "assemble_segment a window previousEpisode contextOnlyFacts index seg =
     bindE (as_classify a (classification_facts seg) (tw_goal window)
       \<lparr>cc_windowId = tw_windowId window, cc_triggerReason = tw_triggerReason window,
        cc_startedAtMs = tw_startedAtMs window, cc_endedAtMs = tw_endedAtMs window,
        cc_eventCount = tw_eventCount window, cc_contextOnlyFacts = contextOnlyFacts\<rparr>) (\<lambda>classified.
     bindE (continuation a window previousEpisode index seg) (\<lambda>continued.
       Inr (build_episode a window seg
         (classified\<lparr>cl_goalRelevance := (if tw_goal window = None then None else cl_goalRelevance classified)\<rparr>)
         continued)))"

fun assemble_segments ::
  "EpisodeAssembler \<Rightarrow> TimelineWindowV2 \<Rightarrow> ActivityEpisodeV2 option \<Rightarrow> EvidenceFactV2 list \<Rightarrow>
   nat \<Rightarrow> FactSegment list \<Rightarrow> thrown + ActivityEpisodeV2 list" where
  "assemble_segments a window previousEpisode contextOnlyFacts index [] = Inr []"
| "assemble_segments a window previousEpisode contextOnlyFacts index (seg # segs) =
     bindE (assemble_segment a window previousEpisode contextOnlyFacts index seg) (\<lambda>episode.
     bindE (assemble_segments a window previousEpisode contextOnlyFacts (Suc index) segs) (\<lambda>episodes.
       Inr (episode # episodes)))"

definition final_hypothesis :: "(string, EpisodeHypothesisV2) jmap \<Rightarrow> ActivityEpisodeV2 \<Rightarrow> ActivityEpisodeV2" where
  "final_hypothesis hypotheses episode =
     (if cl_abstain (ep_classification episode)
      then episode\<lparr>ep_hypothesis := \<lparr>hy_text = uncertain_text,
             hy_citedFactIds = take 1 (ep_evidenceFactIds episode),
             hy_generator = ''deterministic-template.v2'', hy_diagnostics = None\<rparr>\<rparr>
      else case jget hypotheses (ep_episodeId episode) of
             None \<Rightarrow> episode
           | Some hypothesis \<Rightarrow> episode\<lparr>ep_hypothesis := hypothesis\<rparr>)"

definition assemble ::
  "EpisodeAssembler \<Rightarrow> bool \<Rightarrow> TimelineWindowV2 \<Rightarrow> EvidenceFactV2 list \<Rightarrow> ActivityEpisodeV2 option \<Rightarrow>
   EvidenceFactV2 list \<Rightarrow> thrown + ActivityEpisodeV2 list" where
  "assemble a aborted window facts previousEpisode contextOnlyFacts =
     bindE (throwIfAborted aborted) (\<lambda>_.
     bindE (assemble_segments a window previousEpisode contextOnlyFacts 0
              (segmentFacts (as_localeCompare a) facts)) (\<lambda>episodes.
       let eligible = filter (\<lambda>episode. \<not> cl_abstain (ep_classification episode)) episodes in
       bindE (if eligible = [] then Inr [] else as_generate a eligible facts (tw_goal window)) (\<lambda>hypotheses.
         Inr (map (final_hypothesis hypotheses) episodes))))"

subsection \<open>Segmentation keeps every fact\<close>

definition non_boundary :: "EvidenceFactV2 list \<Rightarrow> EvidenceFactV2 list" where
  "non_boundary facts = filter (\<lambda>f. fa_role f \<noteq> RoleBoundary) facts"

definition facts_of :: "FactSegment list \<Rightarrow> EvidenceFactV2 multiset" where
  "facts_of segs = sum_list (map (\<lambda>seg. mset (fs_facts seg)) segs)"

lemma facts_of_simps [simp]:
  "facts_of [] = {#}" "facts_of (seg # segs) = mset (fs_facts seg) + facts_of segs"
  "facts_of (xs @ ys) = facts_of xs + facts_of ys"
  by (simp_all add: facts_of_def)

lemma facts_of_in: "seg \<in> set segs \<Longrightarrow> f \<in> set (fs_facts seg) \<Longrightarrow> f \<in># facts_of segs"
  by (induction segs) auto

lemma facts_of_member: "f \<in># facts_of segs \<Longrightarrow> \<exists>seg \<in> set segs. f \<in> set (fs_facts seg)"
  by (induction segs) auto

lemma findBriefReturn_no_boundary:
  "findBriefReturn anchor t n facts = Some k \<Longrightarrow> f \<in> set (take (k - n) facts) \<Longrightarrow> fa_role f \<noteq> RoleBoundary"
proof (induction anchor t n facts rule: findBriefReturn.induct)
  case (2 anchor t n g facts)
  show ?case
  proof (cases "fa_role g = RolePrimary \<and> sameAnchor (fa_anchor g) anchor")
    case True
    with "2.prems" show ?thesis by (auto split: if_splits)
  next
    case False
    with "2.prems"(1) have *: "fa_role g \<noteq> RoleBoundary"
        "\<not> EPISODE_BRIEF_DETOUR_MS < fa_startedAtMs g - t"
        "findBriefReturn anchor t (Suc n) facts = Some k"
      by (auto split: if_splits)
    then have "Suc n \<le> k" by (blast dest: findBriefReturn_ge)
    then have "take (k - n) (g # facts) = g # take (k - Suc n) facts"
      by (simp add: take_Cons' Suc_diff_le diff_Suc)
    with "2.prems"(2) "2.IH" [OF *(1,2) False *(3)] *(1) show ?thesis by auto
  qed
qed simp

lemma fold_push_detour: "fs_facts (fold push_detour fs seg) = fs_facts seg @ fs"
  by (induction fs arbitrary: seg) (simp_all add: push_detour_def)

lemma detour_facts:
  assumes "findBriefReturn anchor t 1 rest = Some k" and "fa_role g \<noteq> RoleBoundary"
  shows "takeWhile (\<lambda>f. fa_role f \<noteq> RoleBoundary) (take k (g # rest)) = take k (g # rest)"
    and "non_boundary (take k (g # rest)) = take k (g # rest)"
proof -
  have "1 \<le> k" using findBriefReturn_ge [OF assms(1)] .
  then have "fa_role f \<noteq> RoleBoundary" if "f \<in> set (take k (g # rest))" for f
    using that assms findBriefReturn_no_boundary [OF assms(1), of f]
    by (cases k) auto
  then show "takeWhile (\<lambda>f. fa_role f \<noteq> RoleBoundary) (take k (g # rest)) = take k (g # rest)"
    and "non_boundary (take k (g # rest)) = take k (g # rest)"
    by (simp_all add: non_boundary_def takeWhile_eq_all_conv filter_id_conv)
qed

definition open_facts :: "FactSegment option \<Rightarrow> EvidenceFactV2 multiset" where
  "open_facts current = (case current of None \<Rightarrow> {#} | Some seg \<Rightarrow> mset (fs_facts seg))"

lemma non_boundary_split: "mset (non_boundary xs) = mset (non_boundary (take k xs)) + mset (non_boundary (drop k xs))"
  unfolding non_boundary_def by (metis append_take_drop_id filter_append mset_append)

text \<open>The walk, one way at a time.\<close>

lemma segment_loop_step:
  "fa_role g = RoleBoundary \<Longrightarrow> segment_loop (g # rest) segs cur =
     segment_loop rest (case cur of None \<Rightarrow> segs | Some seg \<Rightarrow> segs @ [seg]) None"
  "fa_role g \<noteq> RoleBoundary \<Longrightarrow> segment_loop (g # rest) segs None = segment_loop rest segs (Some (new_segment g))"
  "fa_role g \<noteq> RoleBoundary \<Longrightarrow> after_inactivity g seg \<Longrightarrow>
     segment_loop (g # rest) segs (Some seg) = segment_loop rest (segs @ [seg]) (Some (new_segment g))"
  "fa_role g \<noteq> RoleBoundary \<Longrightarrow> \<not> after_inactivity g seg \<Longrightarrow> \<not> leaves_anchor g (segmentAnchor (fs_facts seg)) \<Longrightarrow>
     segment_loop (g # rest) segs (Some seg) = segment_loop rest segs (Some (push_fact g seg))"
  "fa_role g \<noteq> RoleBoundary \<Longrightarrow> \<not> after_inactivity g seg \<Longrightarrow> leaves_anchor g (segmentAnchor (fs_facts seg)) \<Longrightarrow>
     findBriefReturn (segmentAnchor (fs_facts seg)) (fa_startedAtMs g) 1 rest = None \<Longrightarrow>
     segment_loop (g # rest) segs (Some seg) = segment_loop rest (segs @ [seg]) (Some (new_segment g))"
  "fa_role g \<noteq> RoleBoundary \<Longrightarrow> \<not> after_inactivity g seg \<Longrightarrow> leaves_anchor g (segmentAnchor (fs_facts seg)) \<Longrightarrow>
     findBriefReturn (segmentAnchor (fs_facts seg)) (fa_startedAtMs g) 1 rest = Some k \<Longrightarrow>
     segment_loop (g # rest) segs (Some seg) =
       segment_loop (drop k (g # rest)) segs (Some (fold push_detour (take k (g # rest)) seg))"
  by (simp_all add: Let_def detour_facts(1))

text \<open>
  Induction over the walk: what holds at its end and is kept by starting a segment, closing
  one, pushing a fact and taking a detour holds of the whole walk.
\<close>

lemma segment_loop_induct [case_names finish boundary start inactive stay leave detour]:
  assumes "\<And>segs cur. P [] segs cur"
    and "\<And>g rest segs cur. fa_role g = RoleBoundary \<Longrightarrow>
      P rest (case cur of None \<Rightarrow> segs | Some seg \<Rightarrow> segs @ [seg]) None \<Longrightarrow> P (g # rest) segs cur"
    and "\<And>g rest segs. fa_role g \<noteq> RoleBoundary \<Longrightarrow> P rest segs (Some (new_segment g)) \<Longrightarrow> P (g # rest) segs None"
    and "\<And>g rest segs seg. fa_role g \<noteq> RoleBoundary \<Longrightarrow> after_inactivity g seg \<Longrightarrow>
      P rest (segs @ [seg]) (Some (new_segment g)) \<Longrightarrow> P (g # rest) segs (Some seg)"
    and "\<And>g rest segs seg. fa_role g \<noteq> RoleBoundary \<Longrightarrow> \<not> after_inactivity g seg \<Longrightarrow>
      \<not> leaves_anchor g (segmentAnchor (fs_facts seg)) \<Longrightarrow>
      P rest segs (Some (push_fact g seg)) \<Longrightarrow> P (g # rest) segs (Some seg)"
    and "\<And>g rest segs seg. fa_role g \<noteq> RoleBoundary \<Longrightarrow> \<not> after_inactivity g seg \<Longrightarrow>
      leaves_anchor g (segmentAnchor (fs_facts seg)) \<Longrightarrow>
      findBriefReturn (segmentAnchor (fs_facts seg)) (fa_startedAtMs g) 1 rest = None \<Longrightarrow>
      P rest (segs @ [seg]) (Some (new_segment g)) \<Longrightarrow> P (g # rest) segs (Some seg)"
    and "\<And>g rest segs seg k. fa_role g \<noteq> RoleBoundary \<Longrightarrow> \<not> after_inactivity g seg \<Longrightarrow>
      leaves_anchor g (segmentAnchor (fs_facts seg)) \<Longrightarrow>
      findBriefReturn (segmentAnchor (fs_facts seg)) (fa_startedAtMs g) 1 rest = Some k \<Longrightarrow>
      P (drop k (g # rest)) segs (Some (fold push_detour (take k (g # rest)) seg)) \<Longrightarrow> P (g # rest) segs (Some seg)"
  shows "P facts segs cur"
proof (induction facts segs cur rule: segment_loop.induct)
  case (1 segs cur)
  then show ?case by (rule assms(1))
next
  case (2 g rest segs cur)
  show ?case
  proof (cases "fa_role g = RoleBoundary")
    case True
    then show ?thesis using assms(2) "2.IH"(1) by blast
  next
    case nb: False
    show ?thesis
    proof (cases cur)
      case None
      then show ?thesis using assms(3) nb "2.IH"(2) by blast
    next
      case (Some seg)
      show ?thesis
      proof (cases "after_inactivity g seg")
        case True
        then show ?thesis using assms(4) nb Some "2.IH"(3) by blast
      next
        case quiet: False
        show ?thesis
        proof (cases "leaves_anchor g (segmentAnchor (fs_facts seg))")
          case False
          then show ?thesis using assms(5) nb Some quiet "2.IH"(6) by blast
        next
          case away: True
          show ?thesis
          proof (cases "findBriefReturn (segmentAnchor (fs_facts seg)) (fa_startedAtMs g) 1 rest")
            case None
            show ?thesis
              using assms(6) [OF nb quiet away None "2.IH"(4) [OF nb \<open>cur = Some seg\<close> quiet refl away None]]
                \<open>cur = Some seg\<close> by simp
          next
            case (Some k)
            have "P (drop k (g # rest)) segs (Some (fold push_detour (take k (g # rest)) seg))"
              using "2.IH"(5) [OF nb \<open>cur = Some seg\<close> quiet refl away Some] detour_facts(1) [OF Some nb] by simp
            then show ?thesis using assms(7) [OF nb quiet away Some] \<open>cur = Some seg\<close> by blast
          qed
        qed
      qed
    qed
  qed
qed

lemma segment_loop_facts:
  "facts_of (segment_loop facts segments current) =
     facts_of segments + open_facts current + mset (non_boundary facts)"
proof (induction facts segments current rule: segment_loop_induct)
  case (finish segs cur)
  then show ?case by (simp add: open_facts_def non_boundary_def split: option.split)
next
  case (boundary g rest segs cur)
  then show ?case
    unfolding segment_loop_step(1) [OF boundary(1)]
    by (simp add: open_facts_def non_boundary_def split: option.splits)
next
  case (detour g rest segs seg k)
  then show ?case
    using non_boundary_split [of "g # rest" k] detour_facts(2) [OF detour(4,1)]
    unfolding segment_loop_step(6) [OF detour(1-4)]
    by (simp add: open_facts_def fold_push_detour)
qed (simp_all add: segment_loop_step open_facts_def new_segment_def push_fact_def non_boundary_def
    del: segment_loop.simps)

lemma segment_loop_nonempty:
  assumes "\<forall>seg \<in> set segments. fs_facts seg \<noteq> []" and "\<forall>seg. current = Some seg \<longrightarrow> fs_facts seg \<noteq> []"
  shows "\<forall>seg \<in> set (segment_loop facts segments current). fs_facts seg \<noteq> []"
  using assms
proof (induction facts segments current rule: segment_loop_induct)
  case (boundary g rest segs cur)
  then show ?case
    unfolding segment_loop_step(1) [OF boundary(1)] by (cases cur) auto
next
  case (detour g rest segs seg k)
  then show ?case
    unfolding segment_loop_step(6) [OF detour(1-4)] by (simp add: fold_push_detour)
qed (auto simp: segment_loop_step new_segment_def push_fact_def simp del: segment_loop.simps(2) split: option.splits)

subsection \<open>Collapsing an overflow of segments\<close>

lemma select_shortest_less:
  "sel < length segs \<Longrightarrow> select_shortest segs sel i < length segs"
proof (induction segs sel i rule: select_shortest.induct)
  case (1 segs sel i)
  show ?case
  proof (cases "length segs \<le> i")
    case True
    with "1.prems" show ?thesis by (simp add: select_shortest.simps [of segs sel i])
  next
    case False
    with "1" show ?thesis by (subst select_shortest.simps) simp
  qed
qed

lemma facts_of_remove:
  assumes "i < length segs"
  shows "facts_of segs = mset (fs_facts (segs ! i)) + facts_of (remove_at i segs)"
proof -
  have "facts_of segs = facts_of (take i segs @ segs ! i # drop (Suc i) segs)"
    using id_take_nth_drop [OF assms] by simp
  then show ?thesis by (simp add: remove_at_def)
qed

lemma facts_of_update:
  assumes "i < length segs"
  shows "facts_of (segs[i := seg]) + mset (fs_facts (segs ! i)) = facts_of segs + mset (fs_facts seg)"
proof -
  have "facts_of segs = facts_of (take i segs @ segs ! i # drop (Suc i) segs)"
    using id_take_nth_drop [OF assms] by simp
  moreover have "facts_of (segs[i := seg]) = facts_of (take i segs @ seg # drop (Suc i) segs)"
    using upd_conv_take_nth_drop [OF assms, of seg] by simp
  ultimately show ?thesis by (simp add: ac_simps)
qed

lemma facts_of_merge:
  assumes "i < length segs" and "t < length segs" and "t \<noteq> i"
  shows "facts_of (remove_at i (segs[t := merge_segments lc (segs ! t) (segs ! i)])) = facts_of segs"
proof -
  let ?m = "merge_segments lc (segs ! t) (segs ! i)"
  have "facts_of (segs[t := ?m]) = mset (fs_facts (segs ! i)) + facts_of (remove_at i (segs[t := ?m]))"
    using facts_of_remove [of i "segs[t := ?m]"] assms by simp
  moreover have "facts_of (segs[t := ?m]) + mset (fs_facts (segs ! t)) =
      facts_of segs + (mset (fs_facts (segs ! t)) + mset (fs_facts (segs ! i)))"
    using facts_of_update [OF assms(2), of ?m] by (simp add: merge_segments_def)
  ultimately have "(facts_of (remove_at i (segs[t := ?m])) + mset (fs_facts (segs ! i))) + mset (fs_facts (segs ! t)) =
      (facts_of segs + mset (fs_facts (segs ! i))) + mset (fs_facts (segs ! t))"
    by (simp add: ac_simps)
  then show ?thesis by simp
qed

text \<open>One round of the collapse and the reason it always finds a neighbour.\<close>

definition merge_target :: "FactSegment list \<Rightarrow> nat \<Rightarrow> nat" where
  "merge_target segs i = (if merge_into_previous segs i then i - 1 else Suc i)"

lemma merge_target_ok:
  assumes "i < length segs" and "1 < length segs"
  shows "merge_target segs i < length segs" and "merge_target segs i \<noteq> i"
  using assms by (auto simp: merge_target_def merge_into_previous_def)

definition collapse_round :: "(string \<Rightarrow> string \<Rightarrow> int) \<Rightarrow> FactSegment list \<Rightarrow> FactSegment list" where
  "collapse_round lc segs =
     (let i = select_shortest segs 0 1; t = merge_target segs i
      in remove_at i (segs[t := merge_segments lc (segs ! t) (segs ! i)]))"

lemma collapse_step:
  assumes "0 < limit" and "limit < length segs"
  shows "collapseOverflowSegments lc segs limit = collapseOverflowSegments lc (collapse_round lc segs) limit"
    and "facts_of (collapse_round lc segs) = facts_of segs"
    and "length (collapse_round lc segs) < length segs"
    and "\<forall>seg \<in> set segs. fs_facts seg \<noteq> [] \<Longrightarrow> \<forall>seg \<in> set (collapse_round lc segs). fs_facts seg \<noteq> []"
proof -
  let ?i = "select_shortest segs 0 1"
  have i: "?i < length segs" using assms by (intro select_shortest_less) linarith
  have len: "1 < length segs" using assms by simp
  note t = merge_target_ok [OF i len]
  show "collapseOverflowSegments lc segs limit = collapseOverflowSegments lc (collapse_round lc segs) limit"
    using assms i t by (subst collapseOverflowSegments.simps) (simp add: Let_def collapse_round_def merge_target_def)
  show "facts_of (collapse_round lc segs) = facts_of segs"
    using facts_of_merge [OF i t] by (simp add: collapse_round_def Let_def)
  show "length (collapse_round lc segs) < length segs"
    using i by (simp add: collapse_round_def Let_def remove_at_def)
  assume ne: "\<forall>seg \<in> set segs. fs_facts seg \<noteq> []"
  have "fs_facts (merge_segments lc (segs ! merge_target segs ?i) (segs ! ?i)) \<noteq> []"
    using ne i by (simp add: merge_segments_def)
  moreover have "set (collapse_round lc segs) \<subseteq>
      insert (merge_segments lc (segs ! merge_target segs ?i) (segs ! ?i)) (set segs)"
    unfolding collapse_round_def Let_def remove_at_def
    by (auto dest!: in_set_takeD in_set_dropD dest: set_update_subset_insert [THEN subsetD])
  ultimately show "\<forall>seg \<in> set (collapse_round lc segs). fs_facts seg \<noteq> []" using ne by auto
qed

lemma collapse_props:
  assumes "0 < limit"
  shows "facts_of (collapseOverflowSegments lc segs limit) = facts_of segs \<and>
    length (collapseOverflowSegments lc segs limit) \<le> max limit 1 \<and>
    ((\<forall>seg \<in> set segs. fs_facts seg \<noteq> []) \<longrightarrow>
      (\<forall>seg \<in> set (collapseOverflowSegments lc segs limit). fs_facts seg \<noteq> []))"
proof (induction segs rule: measure_induct_rule [of length])
  case (less segs)
  show ?case
  proof (cases "limit < length segs")
    case True
    note st = collapse_step [OF assms True, of lc]
    show ?thesis
      unfolding st(1) using less [OF st(3)] st(2,4) by (intro conjI impI) simp_all
  next
    case False
    then show ?thesis by (auto simp: collapseOverflowSegments.simps [of lc segs limit])
  qed
qed

lemma segmentFacts_props:
  "facts_of (segmentFacts lc facts) = mset (non_boundary facts)"
  "length (segmentFacts lc facts) \<le> 8"
  "seg \<in> set (segmentFacts lc facts) \<Longrightarrow> fs_facts seg \<noteq> []"
proof -
  let ?ordered = "js_sort (fact_compare lc) facts"
  let ?loop = "segment_loop ?ordered [] None"
  have "\<forall>seg \<in> set ?loop. fs_facts seg \<noteq> []" by (rule segment_loop_nonempty) auto
  then have all: "filter (\<lambda>seg. 0 < length (fs_facts seg)) ?loop = ?loop" and ne: "\<forall>seg \<in> set ?loop. fs_facts seg \<noteq> []"
    by (auto simp: filter_id_conv)
  have eq: "segmentFacts lc facts = collapseOverflowSegments lc ?loop 8"
    unfolding segmentFacts_def all EPISODE_MAX_PRIMARY_SEGMENTS_def ..
  have "mset (non_boundary ?ordered) = mset (non_boundary facts)"
    by (simp add: non_boundary_def mset_filter)
  then show "facts_of (segmentFacts lc facts) = mset (non_boundary facts)"
    using collapse_props [of 8 lc ?loop] segment_loop_facts [of ?ordered "[]" None] eq
    by (simp add: open_facts_def)
  show "length (segmentFacts lc facts) \<le> 8" using collapse_props [of 8 lc ?loop] eq by simp
  show "seg \<in> set (segmentFacts lc facts) \<Longrightarrow> fs_facts seg \<noteq> []"
    using collapse_props [of 8 lc ?loop] eq ne by auto
qed

subsection \<open>What the assembler makes of the segments\<close>

lemma segment_fact_ids_cover:
  assumes "segment_fact_ids seg = (ev, su)" and "fs_facts seg \<noteq> []" and "\<forall>f \<in> set (fs_facts seg). fa_factId f \<noteq> []"
  shows "ev \<noteq> []" and "set ev \<union> set su = fa_factId ` set (fs_facts seg)"
proof -
  let ?E = "filter (\<lambda>f. fa_role f = RolePrimary \<and> fa_factId f \<notin> set (fs_supportingFactIds seg)) (fs_facts seg)"
  let ?S = "filter (\<lambda>f. fa_role f \<noteq> RolePrimary \<or> fa_factId f \<in> set (fs_supportingFactIds seg)) (fs_facts seg)"
  define E where "E = map fa_factId ?E"
  define S where "S = map fa_factId ?S"
  have cover: "set E \<union> set S = fa_factId ` set (fs_facts seg)" by (auto simp: E_def S_def)
  have eq: "(ev, su) = (if E = [] \<and> S \<noteq> [] then (if hd S \<noteq> [] then [hd S] else [], tl S) else (E, S))"
    using assms(1) unfolding segment_fact_ids_def Let_def E_def S_def by simp
  have "set S \<subseteq> fa_factId ` set (fs_facts seg)" using cover by blast
  then have named: "[] \<notin> set S" using assms(3) by force
  have ne: "set E \<union> set S \<noteq> {}" using cover assms(2) by simp
  show "ev \<noteq> []" and "set ev \<union> set su = fa_factId ` set (fs_facts seg)"
    unfolding cover [symmetric] using eq named ne by (cases S; auto split: if_splits)+
qed

text \<open>When a segment may continue an earlier episode: the same goal, a start soon enough after its end and
  not before its beginning, and the same anchor or similar content.\<close>

definition may_continue :: "EpisodeAssembler \<Rightarrow> TimelineWindowV2 \<Rightarrow> ActivityEpisodeV2 \<Rightarrow> FactSegment \<Rightarrow> bool" where
  "may_continue a window previous seg \<longleftrightarrow>
     (let startedAtMs = math_min (map fa_startedAtMs (fs_facts seg)) in
      ep_goalVersion previous = tw_goalVersion window \<and>
      startedAtMs \<le> ep_endedAtMs previous + EPISODE_CROSS_WINDOW_GAP_MS \<and>
      min (ep_startedAtMs previous) (ep_endedAtMs previous) \<le> startedAtMs \<and>
      (sameAnchor (ep_anchor previous) (segmentAnchor (fs_facts seg)) \<or>
       (\<exists>compare x. as_similarity a = Some compare \<and> compare previous (fs_facts seg) = Inr (Some x) \<and>
          EPISODE_CROSS_WINDOW_SIMILARITY \<le> x)))"

lemma continuation_Some:
  assumes "continuation a window previousEpisode index seg = Inr (Some previous)"
  shows "previousEpisode = Some previous \<and> index = 0 \<and> may_continue a window previous seg"
  using assms
  by (auto simp: continuation_def shouldContinue_def may_continue_def Let_def bindE_eq_Inr_iff
      split: option.splits if_splits)

text \<open>
  What an assembled episode says of its segment: its facts, its classification, and whether it
  starts an episode or continues the previous one.
\<close>

definition episode_of_segment ::
  "EpisodeAssembler \<Rightarrow> TimelineWindowV2 \<Rightarrow> ActivityEpisodeV2 option \<Rightarrow> nat \<Rightarrow> FactSegment \<Rightarrow> ActivityEpisodeV2 \<Rightarrow> bool" where
  "episode_of_segment a window previousEpisode index seg ep \<longleftrightarrow>
     (\<exists>ev su. segment_fact_ids seg = (ev, su) \<and>
        ((ep_supersedesRevisionId ep = None \<and> ep_revision ep = 1 \<and> ep_sourceWindowIds ep = [tw_windowId window] \<and>
          ep_evidenceFactIds ep = ev \<and> ep_supportingFactIds ep = su) \<or>
         (\<exists>previous. previousEpisode = Some previous \<and> index = 0 \<and> may_continue a window previous seg \<and> ep_episodeId ep = ep_episodeId previous \<and>
          ep_supersedesRevisionId ep = Some (ep_revisionId previous) \<and> ep_revision ep = ep_revision previous + 1 \<and>
          ep_sourceWindowIds ep = js_unique (ep_sourceWindowIds previous @ [tw_windowId window]) \<and>
          ep_evidenceFactIds ep = js_unique (ep_evidenceFactIds previous @ ev) \<and>
          ep_supportingFactIds ep = js_unique (ep_supportingFactIds previous @ su)))) \<and>
     (\<exists>fs ctx c. fs \<noteq> [] \<and> set fs \<subseteq> set (fs_facts seg) \<and> as_classify a fs (tw_goal window) ctx = Inr c \<and>
        ep_classification ep = c\<lparr>cl_goalRelevance := (if tw_goal window = None then None else cl_goalRelevance c)\<rparr>) \<and>
     ep_goalVersion ep = tw_goalVersion window \<and>
     hy_diagnostics (ep_hypothesis ep) = None"

lemma assemble_segment_episode:
  assumes "assemble_segment a window previousEpisode ctx index seg = Inr ep" and "fs_facts seg \<noteq> []"
  shows "episode_of_segment a window previousEpisode index seg ep"
proof -
  have fs: "classification_facts seg \<noteq> []" "set (classification_facts seg) \<subseteq> set (fs_facts seg)"
    using assms(2) by (auto simp: classification_facts_def Let_def)
  obtain ev su where ids: "segment_fact_ids seg = (ev, su)" by fastforce
  obtain cx c continued where c: "as_classify a (classification_facts seg) (tw_goal window) cx = Inr c"
      and cont: "continuation a window previousEpisode index seg = Inr continued"
      and ep: "ep = build_episode a window seg
        (c\<lparr>cl_goalRelevance := (if tw_goal window = None then None else cl_goalRelevance c)\<rparr>) continued"
    using assms(1) unfolding assemble_segment_def bindE_eq_Inr_iff by auto
  have cont': "continued = None \<or> (\<exists>previous. continued = Some previous \<and> previousEpisode = Some previous \<and> index = 0 \<and>
      may_continue a window previous seg)"
    using cont continuation_Some by (cases continued) auto
  show ?thesis
    unfolding episode_of_segment_def
  proof (intro conjI)
    show "\<exists>fs ctx c. fs \<noteq> [] \<and> set fs \<subseteq> set (fs_facts seg) \<and> as_classify a fs (tw_goal window) ctx = Inr c \<and>
        ep_classification ep = c\<lparr>cl_goalRelevance := (if tw_goal window = None then None else cl_goalRelevance c)\<rparr>"
      using fs c ep ids by (intro exI [of _ "classification_facts seg"] exI [of _ cx] exI [of _ c])
        (simp add: build_episode_def Let_def)
  qed (use cont' ids in \<open>auto simp: ep build_episode_def Let_def\<close>)
qed

lemma assemble_segments_episodes:
  assumes "assemble_segments a window previousEpisode ctx index segs = Inr eps"
    and "\<And>seg. seg \<in> set segs \<Longrightarrow> fs_facts seg \<noteq> []"
  shows "length eps = length segs \<and>
    (\<forall>i < length segs. episode_of_segment a window previousEpisode (index + i) (segs ! i) (eps ! i))"
  using assms
proof (induction segs arbitrary: index eps)
  case (Cons seg segs)
  then obtain ep eps' where eps: "eps = ep # eps'"
      "assemble_segment a window previousEpisode ctx index seg = Inr ep"
      "assemble_segments a window previousEpisode ctx (Suc index) segs = Inr eps'"
    by (auto simp: bindE_eq_Inr_iff)
  have "episode_of_segment a window previousEpisode index seg ep"
    using assemble_segment_episode [OF eps(2)] Cons.prems(2) by simp
  with Cons.IH [OF eps(3)] Cons.prems(2) eps(1) show ?case by (auto simp: nth_Cons split: nat.split)
qed simp

lemma final_hypothesis_fields [simp]:
  "ep_evidenceFactIds (final_hypothesis h ep) = ep_evidenceFactIds ep"
  "ep_supportingFactIds (final_hypothesis h ep) = ep_supportingFactIds ep"
  "ep_classification (final_hypothesis h ep) = ep_classification ep"
  "ep_supersedesRevisionId (final_hypothesis h ep) = ep_supersedesRevisionId ep"
  "ep_revision (final_hypothesis h ep) = ep_revision ep"
  "ep_episodeId (final_hypothesis h ep) = ep_episodeId ep"
  "ep_sourceWindowIds (final_hypothesis h ep) = ep_sourceWindowIds ep"
  "ep_goalVersion (final_hypothesis h ep) = ep_goalVersion ep"
  by (simp_all add: final_hypothesis_def split: option.split)

lemma assemble_episodes:
  assumes "assemble a aborted window facts previousEpisode ctx = Inr eps"
  obtains eps0 h where "eps = map (final_hypothesis h) eps0"
    and "length eps0 = length (segmentFacts (as_localeCompare a) facts)"
    and "\<And>i. i < length eps0 \<Longrightarrow>
      episode_of_segment a window previousEpisode i (segmentFacts (as_localeCompare a) facts ! i) (eps0 ! i)"
proof -
  let ?segs = "segmentFacts (as_localeCompare a) facts"
  obtain eps0 h where e: "assemble_segments a window previousEpisode ctx 0 ?segs = Inr eps0"
      "eps = map (final_hypothesis h) eps0"
    using assms by (auto simp: assemble_def bindE_eq_Inr_iff Let_def)
  from assemble_segments_episodes [OF e(1)] segmentFacts_props(3) e(2) that show thesis by auto
qed

text \<open>C28: cutting the facts of a window into segments always ends, drops the boundary facts and loses
  no other: the segments hold every fact that is not a boundary exactly as often as the window does, there
  are at most eight of them, and none is empty.\<close>

theorem segmentation_conserves_facts:
  "mset (concat (map fs_facts (segmentFacts lc facts))) = mset (filter (\<lambda>f. fa_role f \<noteq> RoleBoundary) facts) \<and>
   length (segmentFacts lc facts) \<le> 8 \<and> [] \<notin> set (map fs_facts (segmentFacts lc facts))"
proof -
  have "mset (concat (map fs_facts segs)) = facts_of segs" for segs by (induction segs) auto
  moreover have "[] \<notin> set (map fs_facts (segmentFacts lc facts))" using segmentFacts_props(3) by (metis (no_types, lifting) imageE list.set_map)
  ultimately show ?thesis using segmentFacts_props(1,2) [of lc facts] by (simp add: non_boundary_def)
qed

lemma segment_facts_subset: "seg \<in> set (segmentFacts lc facts) \<Longrightarrow> set (fs_facts seg) \<subseteq> set facts"
proof
  fix f
  assume "seg \<in> set (segmentFacts lc facts)" "f \<in> set (fs_facts seg)"
  then have "f \<in># mset (non_boundary facts)" using facts_of_in segmentFacts_props(1) [of lc facts] by metis
  then show "f \<in> set facts" by (simp add: non_boundary_def)
qed

definition cited_ids :: "ActivityEpisodeV2 \<Rightarrow> string set" where
  "cited_ids ep = set (ep_evidenceFactIds ep) \<union> set (ep_supportingFactIds ep)"

text \<open>An episode that supersedes no revision cites its window only; one that does continues the previous
  episode, for a reason, and cites the facts of both.\<close>

definition cites_as_it_should ::
  "EpisodeAssembler \<Rightarrow> TimelineWindowV2 \<Rightarrow> ActivityEpisodeV2 option \<Rightarrow> EvidenceFactV2 list \<Rightarrow> nat \<Rightarrow> FactSegment \<Rightarrow>
   ActivityEpisodeV2 \<Rightarrow> bool" where
  "cites_as_it_should a window previousEpisode facts i seg ep \<longleftrightarrow> ep_evidenceFactIds ep \<noteq> [] \<and>
     (case ep_supersedesRevisionId ep of
        None \<Rightarrow> cited_ids ep \<subseteq> fa_factId ` set facts
      | Some revision' \<Rightarrow> i = 0 \<and> (\<exists>p. previousEpisode = Some p \<and> revision' = ep_revisionId p \<and>
          ep_episodeId ep = ep_episodeId p \<and> may_continue a window p seg \<and>
          cited_ids p \<subseteq> cited_ids ep \<and> cited_ids ep \<subseteq> fa_factId ` set facts \<union> cited_ids p))"

lemma episode_of_segment_cites:
  assumes "episode_of_segment a window previousEpisode i seg ep" and "seg \<in> set (segmentFacts lc facts)"
    and "\<forall>f \<in> set facts. fa_factId f \<noteq> []"
  shows "fa_factId ` set (fs_facts seg) \<subseteq> cited_ids ep \<and> cites_as_it_should a window previousEpisode facts i seg ep"
proof -
  obtain ev su where ids: "segment_fact_ids seg = (ev, su)" by fastforce
  note within' = segment_facts_subset [OF assms(2)]
  have named: "\<forall>f \<in> set (fs_facts seg). fa_factId f \<noteq> []" using within' assms(3) by blast
  note cover = segment_fact_ids_cover [OF ids segmentFacts_props(3) [OF assms(2)] named]
  have new: "set ev \<subseteq> fa_factId ` set facts" "set su \<subseteq> fa_factId ` set facts"
    using cover(2) image_mono [OF within', of fa_factId] by blast+
  consider "ep_supersedesRevisionId ep = None" "ep_evidenceFactIds ep = ev" "ep_supportingFactIds ep = su"
    | previous where "previousEpisode = Some previous" "i = 0" "may_continue a window previous seg"
      "ep_episodeId ep = ep_episodeId previous" "ep_supersedesRevisionId ep = Some (ep_revisionId previous)"
      "ep_evidenceFactIds ep = js_unique (ep_evidenceFactIds previous @ ev)"
      "ep_supportingFactIds ep = js_unique (ep_supportingFactIds previous @ su)"
    using assms(1) ids unfolding episode_of_segment_def by auto
  then show ?thesis
    by cases (use cover new in \<open>auto simp: cited_ids_def cites_as_it_should_def\<close>)
qed

text \<open>C29: every fact of a window that is not a boundary is accounted for, provided facts have ids: it is
  cited by one of the window's episodes, as evidence or as support. Every episode has evidence. One that
  supersedes no revision cites only facts of the window; only the first can supersede one, then it
  carries on the id of the previous episode, cites the facts of both and nothing else, and there was a
  reason: the same goal, a start at most the allowed gap after that episode's end, and its anchor or
  a sufficient similarity.\<close>

theorem episodes_account_for_facts:
  assumes "assemble a aborted window facts previousEpisode ctx = Inr episodes"
    and "\<forall>f \<in> set facts. fa_factId f \<noteq> []"
  shows "(\<forall>f \<in> set facts. fa_role f \<noteq> RoleBoundary \<longrightarrow> (\<exists>ep \<in> set episodes. fa_factId f \<in> cited_ids ep)) \<and>
    length episodes = length (segmentFacts (as_localeCompare a) facts) \<and>
    (\<forall>i < length episodes.
       cites_as_it_should a window previousEpisode facts i (segmentFacts (as_localeCompare a) facts ! i) (episodes ! i))"
proof -
  let ?segs = "segmentFacts (as_localeCompare a) facts"
  obtain eps0 h where e: "episodes = map (final_hypothesis h) eps0" "length eps0 = length ?segs"
      "\<And>i. i < length eps0 \<Longrightarrow> episode_of_segment a window previousEpisode i (?segs ! i) (eps0 ! i)"
    using assemble_episodes [OF assms(1)] by blast
  note cites = episode_of_segment_cites [OF e(3) nth_mem assms(2)]
  have final: "cited_ids (final_hypothesis h ep) = cited_ids ep"
    "cites_as_it_should a window previousEpisode facts i seg (final_hypothesis h ep) =
      cites_as_it_should a window previousEpisode facts i seg ep" for i seg ep
    by (simp_all add: cited_ids_def cites_as_it_should_def cong: option.case_cong)
  have "\<exists>ep \<in> set episodes. fa_factId f \<in> cited_ids ep" if "f \<in> set facts" "fa_role f \<noteq> RoleBoundary" for f
  proof -
    have "f \<in># facts_of ?segs"
      using that segmentFacts_props(1) [of "as_localeCompare a" facts] by (simp add: non_boundary_def)
    then obtain i where i: "i < length ?segs" "f \<in> set (fs_facts (?segs ! i))"
      using facts_of_member by (metis in_set_conv_nth)
    then have "fa_factId f \<in> cited_ids (final_hypothesis h (eps0 ! i))" using cites [of i] e(2) final(1) by auto
    moreover have "final_hypothesis h (eps0 ! i) \<in> set episodes" using e(1,2) i by simp
    ultimately show ?thesis by blast
  qed
  moreover have "cites_as_it_should a window previousEpisode facts i (?segs ! i) (episodes ! i)" if "i < length episodes" for i
    using that cites [of i] e(1,2) final(2) by simp
  ultimately show ?thesis using e(1,2) by simp
qed

end
