(* ===== verification/TimelineRepository.thy ===== *)
theory TimelineRepository
  imports TimelineTypes
begin

text \<open>
  The timeline's repository, \<open>src/agent/timeline/repository.ts\<close>: collector snapshots, sealed
  windows, durable jobs, persisted results and the outbox of agent inputs with its leases. The
  in-memory implementation is an object with six insertion-ordered maps; every method is a
  computation on it.

  Parameters: \<open>lc\<close> is the locale-dependent string order, \<open>digest\<close> the bytes of SHA-256, and
  \<open>uuid i\<close> the \<open>i\<close>-th random UUID drawn during a call.
\<close>

datatype timeline_error =
    TimelineCollectorRevisionConflict
  | TimelineRevisionMustAdvance int int
  | TimelineWindowCollision string
  | IdempotentSealLostCollector
  | NotAnIntegerBetween int int
  | EndedAtOrAfterInvalid
  | AvailableAtInvalid
  | LeaseDurationNotPositive
  | UnknownTimelineJob string
  | CannotAbandonClaim string TimelineJobState
  | DifferentTimelineResult string
  | CannotComplete string TimelineJobState
  | TimelineResultMismatch
  | AgentInputIdCollision string
  | CannotFinalize string TimelineJobState
  | CannotRecordFailure string TimelineJobState
  | UnknownAgentInput string
  | AckLeaseTokenMismatch
  | AgentInputLeaseInvalid

record PersistTimelineResult =
  pr_windowId :: string
  pr_facts :: "EvidenceFactV2 list"
  pr_episodes :: "ActivityEpisodeV2 list"
  pr_summary :: TimelineSummaryV2
  pr_agentInput :: AgentInputV1

record TimelineRepositoryV2 =
  tr_collectors :: "(string, TimelineCollectorSnapshotV2) jmap"
  tr_windows :: "(string, TimelineWindowV2) jmap"
  tr_jobs :: "(string, TimelineJobV2) jmap"
  tr_results :: "(string, PersistTimelineResult) jmap"
  tr_outbox :: "(string, AgentInputEnvelopeV1) jmap"
  tr_ackedLeaseTokenHashes :: "(string, string) jmap"

type_synonym 'a timeline_op = "(TimelineRepositoryV2, timeline_error, 'a) comp"

definition empty_timeline_repository :: TimelineRepositoryV2 where
  "empty_timeline_repository =
     \<lparr>tr_collectors = [], tr_windows = [], tr_jobs = [], tr_results = [], tr_outbox = [],
      tr_ackedLeaseTokenHashes = []\<rparr>"

definition TIMELINE_RAW_RETENTION_MS :: int where
  "TIMELINE_RAW_RETENTION_MS = 7 * 24 * 60 * 60 * 1000"

subsection \<open>Guards and helpers\<close>

definition assertExpectedRevision :: "int option \<Rightarrow> int option \<Rightarrow> timeline_error + unit" where
  "assertExpectedRevision actual expected = ensure (actual = expected) TimelineCollectorRevisionConflict"

definition assertNextRevision :: "int \<Rightarrow> int option \<Rightarrow> timeline_error + unit" where
  "assertNextRevision received expected =
     (let required = (case expected of None \<Rightarrow> 0 | Some n \<Rightarrow> n + 1)
      in ensure (received = required) (TimelineRevisionMustAdvance required received))"

definition boundedLimit :: "int \<Rightarrow> int \<Rightarrow> int \<Rightarrow> timeline_error + int" where
  "boundedLimit value minimum maximum =
     (if value < minimum \<or> maximum < value then Inl (NotAnIntegerBetween minimum maximum) else Inr value)"

definition isSafeInteger :: "int \<Rightarrow> bool" where
  "isSafeInteger n \<longleftrightarrow> - MAX_SAFE_INTEGER \<le> n \<and> n \<le> MAX_SAFE_INTEGER"

definition assertPositiveDuration :: "int \<Rightarrow> timeline_error + unit" where
  "assertPositiveDuration value = ensure (isSafeInteger value \<and> 0 < value) LeaseDurationNotPositive"

datatype WindowListOrder = oldest_first | newest_first

record CommittedTimelineWindowListOptions =
  wl_endedAtOrAfterMs :: "int option"
  wl_availableAtMs :: int
  wl_order :: WindowListOrder
  wl_limit :: int

definition assertCommittedWindowListOptions ::
  "CommittedTimelineWindowListOptions \<Rightarrow> timeline_error + unit" where
  "assertCommittedWindowListOptions options =
     bindE (ensure (case wl_endedAtOrAfterMs options of None \<Rightarrow> True
              | Some t \<Rightarrow> isSafeInteger t \<and> 0 \<le> t) EndedAtOrAfterInvalid) (\<lambda>_.
     bindE (ensure (isSafeInteger (wl_availableAtMs options) \<and> 0 \<le> wl_availableAtMs options)
              AvailableAtInvalid) (\<lambda>_.
     bindE (boundedLimit (wl_limit options) 1 10001) (\<lambda>_. Inr ())))"

definition compareOpaqueIds :: "string \<Rightarrow> string \<Rightarrow> int" where
  "compareOpaqueIds left right =
     (if code_unit_compare left right < 0 then -1 else if 0 < code_unit_compare left right then 1 else 0)"

definition control_char :: "char \<Rightarrow> bool" where
  "control_char c \<longleftrightarrow> (let n = (of_char c :: nat) in n \<le> 31 \<or> n = 127)"

definition boundedFailureText :: "string \<Rightarrow> nat \<Rightarrow> string" where
  "boundedFailureText value maximum =
     (let normalized = take maximum (map (\<lambda>c. if control_char c then CHR '' '' else c) value)
      in if normalized = [] then ''unknown'' else normalized)"

definition opaqueLeaseTokenHash :: "(string \<Rightarrow> nat list) \<Rightarrow> string \<Rightarrow> string" where
  "opaqueLeaseTokenHash digest value =
     concat (map (\<lambda>byte. pad_start 2 (CHR ''0'') (nat_to_base 16 byte)) (digest value))"

subsection \<open>Collector snapshots and sealed windows\<close>

definition loadCollectorV2 :: "string \<Rightarrow> TimelineCollectorSnapshotV2 option timeline_op" where
  "loadCollectorV2 cid r = (Inr (jget (tr_collectors r) cid), r)"

definition saveCollectorV2 ::
  "TimelineCollectorSnapshotV2 \<Rightarrow> int option \<Rightarrow> TimelineCollectorSnapshotV2 timeline_op" where
  "saveCollectorV2 snapshot expectedRevision r =
     (let current = jget (tr_collectors r) (tcs_collectorId snapshot)
      in case bindE (assertExpectedRevision (map_option tcs_revision current) expectedRevision)
                (\<lambda>_. assertNextRevision (tcs_revision snapshot) expectedRevision) of
           Inl e \<Rightarrow> (Inl e, r)
         | Inr _ \<Rightarrow>
             (Inr snapshot,
              r\<lparr>tr_collectors := jset (tcs_collectorId snapshot) snapshot (tr_collectors r)\<rparr>))"

record TimelineSealResult =
  sr_inserted :: bool
  sr_window :: TimelineWindowV2
  sr_snapshot :: TimelineCollectorSnapshotV2
  sr_job :: TimelineJobV2

definition newTimelineJob :: "TimelineWindowV2 \<Rightarrow> TimelineJobV2" where
  "newTimelineJob window =
     \<lparr>tj_windowId = tw_windowId window, tj_state = READY, tj_attempt = 0,
      tj_createdAtMs = tw_endedAtMs window, tj_updatedAtMs = tw_endedAtMs window,
      tj_nextAttemptAtMs = Some (tw_endedAtMs window), tj_leaseExpiresAtMs = None,
      tj_firstAttemptAtMs = None, tj_failureCode = None, tj_failureMessage = None\<rparr>"

definition sealWindowV2 ::
  "TimelineWindowV2 \<Rightarrow> TimelineCollectorSnapshotV2 \<Rightarrow> int \<Rightarrow> TimelineSealResult timeline_op" where
  "sealWindowV2 window nextSnapshot expectedRevision r =
     (let wid = tw_windowId window; cid = tcs_collectorId nextSnapshot in
      case (jget (tr_windows r) wid, jget (tr_jobs r) wid) of
        (None, None) \<Rightarrow>
          (case bindE (assertExpectedRevision (map_option tcs_revision (jget (tr_collectors r) cid))
                         (Some expectedRevision))
                  (\<lambda>_. assertNextRevision (tcs_revision nextSnapshot) (Some expectedRevision)) of
             Inl e \<Rightarrow> (Inl e, r)
           | Inr _ \<Rightarrow>
               let job = newTimelineJob window
               in (Inr \<lparr>sr_inserted = True, sr_window = window, sr_snapshot = nextSnapshot, sr_job = job\<rparr>,
                   r\<lparr>tr_windows := jset wid window (tr_windows r),
                     tr_jobs := jset wid job (tr_jobs r),
                     tr_collectors := jset cid nextSnapshot (tr_collectors r)\<rparr>))
      | (Some existingWindow, Some existingJob) \<Rightarrow>
          if tw_inputHash existingWindow \<noteq> tw_inputHash window then (Inl (TimelineWindowCollision wid), r)
          else (case jget (tr_collectors r) cid of
                  None \<Rightarrow> (Inl IdempotentSealLostCollector, r)
                | Some snapshot \<Rightarrow>
                    (Inr \<lparr>sr_inserted = False, sr_window = existingWindow, sr_snapshot = snapshot,
                       sr_job = existingJob\<rparr>, r))
      | _ \<Rightarrow> (Inl (TimelineWindowCollision wid), r))"

definition getWindowV2 :: "string \<Rightarrow> TimelineWindowV2 option timeline_op" where
  "getWindowV2 wid r = (Inr (jget (tr_windows r) wid), r)"

definition getJobV2 :: "string \<Rightarrow> TimelineJobV2 option timeline_op" where
  "getJobV2 wid r = (Inr (jget (tr_jobs r) wid), r)"

definition window_list_compare :: "WindowListOrder \<Rightarrow> TimelineWindowV2 \<Rightarrow> TimelineWindowV2 \<Rightarrow> int" where
  "window_list_compare order left right =
     (let oldestFirst = or_else_cmp (cmp_by tw_endedAtMs)
            (\<lambda>a b. compareOpaqueIds (tw_windowId a) (tw_windowId b)) left right
      in if order = oldest_first then oldestFirst else - oldestFirst)"

definition listCommittedWindowIds ::
  "CommittedTimelineWindowListOptions \<Rightarrow> string list timeline_op" where
  "listCommittedWindowIds options r =
     (case assertCommittedWindowListOptions options of
        Inl e \<Rightarrow> (Inl e, r)
      | Inr _ \<Rightarrow>
          let rawCutoffMs = wl_availableAtMs options - TIMELINE_RAW_RETENTION_MS;
              kept = filter (\<lambda>w.
                map_option tj_state (jget (tr_jobs r) (tw_windowId w)) = Some COMMITTED \<and>
                rawCutoffMs < tw_endedAtMs w \<and>
                (case wl_endedAtOrAfterMs options of None \<Rightarrow> True | Some t \<Rightarrow> t \<le> tw_endedAtMs w))
                (jvalues (tr_windows r))
          in (Inr (map tw_windowId (take (nat (wl_limit options))
                (js_sort (window_list_compare (wl_order options)) kept))), r))"

subsection \<open>Jobs\<close>

definition due_at_v2 :: "TimelineJobV2 \<Rightarrow> int" where
  "due_at_v2 job = (case tj_nextAttemptAtMs job of None \<Rightarrow> tj_createdAtMs job | Some t \<Rightarrow> t)"

definition isRunnableV2 :: "TimelineJobV2 \<Rightarrow> int \<Rightarrow> bool" where
  "isRunnableV2 job nowMs =
     (case tj_state job of
        READY \<Rightarrow> due_at_v2 job \<le> nowMs
      | RETRY_WAIT \<Rightarrow> due_at_v2 job \<le> nowMs
      | RUNNING \<Rightarrow> (case tj_leaseExpiresAtMs job of None \<Rightarrow> False | Some t \<Rightarrow> t \<le> nowMs)
      | RESULT_PERSISTED \<Rightarrow> True
      | COMMITTING \<Rightarrow> True
      | COMMITTED \<Rightarrow> False
      | TERMINAL_FAILED \<Rightarrow> False)"

definition job_compare_v2 :: "(string \<Rightarrow> string \<Rightarrow> int) \<Rightarrow> TimelineJobV2 \<Rightarrow> TimelineJobV2 \<Rightarrow> int" where
  "job_compare_v2 lc = or_else_cmp (cmp_by due_at_v2)
     (or_else_cmp (cmp_by tj_createdAtMs) (\<lambda>a b. lc (tj_windowId a) (tj_windowId b)))"

definition claimed_job_v2 :: "int \<Rightarrow> int \<Rightarrow> TimelineJobV2 \<Rightarrow> TimelineJobV2" where
  "claimed_job_v2 nowMs leaseDurationMs candidate =
     candidate\<lparr>tj_state := RUNNING,
       tj_attempt := tj_attempt candidate + 1,
       tj_firstAttemptAtMs :=
         (case tj_firstAttemptAtMs candidate of None \<Rightarrow> Some nowMs | Some t \<Rightarrow> Some t),
       tj_updatedAtMs := nowMs,
       tj_nextAttemptAtMs := None,
       tj_leaseExpiresAtMs := Some (nowMs + leaseDurationMs)\<rparr>"

definition put_job_v2 :: "string \<Rightarrow> TimelineJobV2 \<Rightarrow> TimelineRepositoryV2 \<Rightarrow> TimelineRepositoryV2" where
  "put_job_v2 wid job r = r\<lparr>tr_jobs := jset wid job (tr_jobs r)\<rparr>"

definition claimNextWindow ::
  "(string \<Rightarrow> string \<Rightarrow> int) \<Rightarrow> int \<Rightarrow> int \<Rightarrow> TimelineJobV2 option timeline_op" where
  "claimNextWindow lc nowMs leaseDurationMs r =
     (case assertPositiveDuration leaseDurationMs of
        Inl e \<Rightarrow> (Inl e, r)
      | Inr _ \<Rightarrow>
          (case js_sort (job_compare_v2 lc)
                  (filter (\<lambda>job. isRunnableV2 job nowMs) (jvalues (tr_jobs r))) of
             [] \<Rightarrow> (Inr None, r)
           | candidate # _ \<Rightarrow>
               if tj_state candidate = RESULT_PERSISTED \<or> tj_state candidate = COMMITTING
               then (Inr (Some candidate), r)
               else let claimed = claimed_job_v2 nowMs leaseDurationMs candidate
                    in (Inr (Some claimed), put_job_v2 (tj_windowId candidate) claimed r)))"

definition requireJobV2 :: "string \<Rightarrow> TimelineJobV2 timeline_op" where
  "requireJobV2 wid r =
     (case jget (tr_jobs r) wid of None \<Rightarrow> (Inl (UnknownTimelineJob wid), r) | Some job \<Rightarrow> (Inr job, r))"

definition abandoned_job_v2 :: "int \<Rightarrow> TimelineJobV2 \<Rightarrow> TimelineJobV2" where
  "abandoned_job_v2 nowMs current =
     (let n = tj_attempt current - 1
      in current\<lparr>tj_state := READY, tj_attempt := n,
           tj_firstAttemptAtMs := (if n = 0 then None else tj_firstAttemptAtMs current),
           tj_updatedAtMs := nowMs, tj_nextAttemptAtMs := Some nowMs, tj_leaseExpiresAtMs := None\<rparr>)"

definition abandonWindowClaim :: "string \<Rightarrow> int \<Rightarrow> TimelineJobV2 timeline_op" where
  "abandonWindowClaim wid nowMs =
     andThen (requireJobV2 wid) (\<lambda>current.
       if tj_state current \<noteq> RUNNING then throw (CannotAbandonClaim wid (tj_state current))
       else let abandoned = abandoned_job_v2 nowMs current
            in andThen (modifyS (put_job_v2 wid abandoned)) (\<lambda>_. ret abandoned))"

definition committing_job_v2 :: "int \<Rightarrow> TimelineJobV2 \<Rightarrow> TimelineJobV2" where
  "committing_job_v2 nowMs current =
     current\<lparr>tj_state := COMMITTING, tj_updatedAtMs := nowMs, tj_nextAttemptAtMs := None,
       tj_leaseExpiresAtMs := None\<rparr>"

definition finalizeWindowCommit :: "string \<Rightarrow> int \<Rightarrow> TimelineJobV2 timeline_op" where
  "finalizeWindowCommit wid nowMs =
     andThen (requireJobV2 wid) (\<lambda>current.
       if tj_state current = COMMITTED then ret current
       else if tj_state current \<noteq> RESULT_PERSISTED \<and> tj_state current \<noteq> COMMITTING
       then throw (CannotFinalize wid (tj_state current))
       else let committing = committing_job_v2 nowMs current;
                committed = committing\<lparr>tj_state := COMMITTED, tj_failureCode := None,
                  tj_failureMessage := None\<rparr>
            in andThen (modifyS (put_job_v2 wid committing)) (\<lambda>_.
               andThen (modifyS (put_job_v2 wid committed)) (\<lambda>_. ret committed)))"

definition held_envelope :: "AgentInputV1 \<Rightarrow> AgentInputEnvelopeV1" where
  "held_envelope input =
     \<lparr>en_input = input, en_state = HELD_LOCAL, en_leaseToken = None, en_leaseExpiresAtMs = None,
      en_attempt = 0, en_ackedAtMs = None\<rparr>"

definition persisted_job_v2 :: "int \<Rightarrow> TimelineJobV2 \<Rightarrow> TimelineJobV2" where
  "persisted_job_v2 nowMs current =
     current\<lparr>tj_state := RESULT_PERSISTED, tj_updatedAtMs := nowMs, tj_nextAttemptAtMs := None,
       tj_leaseExpiresAtMs := None, tj_failureCode := None, tj_failureMessage := None\<rparr>"

definition completeWindow :: "PersistTimelineResult \<Rightarrow> int \<Rightarrow> TimelineJobV2 timeline_op" where
  "completeWindow result nowMs =
     andThen (requireJobV2 (pr_windowId result)) (\<lambda>current.
     andThen getS (\<lambda>r.
       case jget (tr_results r) (pr_windowId result) of
         Some existing \<Rightarrow>
           if su_timelineId (pr_summary existing) \<noteq> su_timelineId (pr_summary result) \<or>
              ai_payloadHash (pr_agentInput existing) \<noteq> ai_payloadHash (pr_agentInput result)
           then throw (DifferentTimelineResult (pr_windowId result))
           else finalizeWindowCommit (pr_windowId result) nowMs
       | None \<Rightarrow>
           if tj_state current \<noteq> RUNNING then throw (CannotComplete (pr_windowId result) (tj_state current))
           else if su_windowId (pr_summary result) \<noteq> pr_windowId result \<or>
                   ai_windowId (pr_agentInput result) \<noteq> pr_windowId result
           then throw TimelineResultMismatch
           else if jget (tr_outbox r) (ai_agentInputId (pr_agentInput result)) \<noteq> None
           then throw (AgentInputIdCollision (ai_agentInputId (pr_agentInput result)))
           else
             andThen (modifyS (\<lambda>r. r\<lparr>tr_results := jset (pr_windowId result) result (tr_results r)\<rparr>)) (\<lambda>_.
             andThen (modifyS (\<lambda>r. r\<lparr>tr_outbox := jset (ai_agentInputId (pr_agentInput result))
                        (held_envelope (pr_agentInput result)) (tr_outbox r)\<rparr>)) (\<lambda>_.
             andThen (modifyS (put_job_v2 (pr_windowId result) (persisted_job_v2 nowMs current))) (\<lambda>_.
               finalizeWindowCommit (pr_windowId result) nowMs)))))"

record WindowFailureOptions =
  wf_nowMs :: int
  wf_code :: string
  wf_message :: string
  wf_nextAttemptAtMs :: "int option"
  wf_terminal :: bool

definition failed_job_v2 :: "WindowFailureOptions \<Rightarrow> TimelineJobV2 \<Rightarrow> TimelineJobV2" where
  "failed_job_v2 options current =
     current\<lparr>tj_state := (if wf_terminal options then TERMINAL_FAILED else RETRY_WAIT),
       tj_updatedAtMs := wf_nowMs options,
       tj_nextAttemptAtMs := (if wf_terminal options then None else wf_nextAttemptAtMs options),
       tj_leaseExpiresAtMs := None,
       tj_failureCode := Some (boundedFailureText (wf_code options) 128),
       tj_failureMessage := Some (boundedFailureText (wf_message options) 512)\<rparr>"

definition recordWindowFailure :: "string \<Rightarrow> WindowFailureOptions \<Rightarrow> TimelineJobV2 timeline_op" where
  "recordWindowFailure wid options =
     andThen (requireJobV2 wid) (\<lambda>current.
       if tj_state current \<noteq> RUNNING then throw (CannotRecordFailure wid (tj_state current))
       else let failed = failed_job_v2 options current
            in andThen (modifyS (put_job_v2 wid failed)) (\<lambda>_. ret failed))"

subsection \<open>Results\<close>

definition episode_latest_compare ::
  "(string \<Rightarrow> string \<Rightarrow> int) \<Rightarrow> ActivityEpisodeV2 \<Rightarrow> ActivityEpisodeV2 \<Rightarrow> int" where
  "episode_latest_compare lc left right =
     or_else_cmp (cmp_by ep_endedAtMs)
       (or_else_cmp (cmp_by ep_revision) (\<lambda>a b. lc (ep_revisionId a) (ep_revisionId b))) right left"

definition findLatestEpisode ::
  "(string \<Rightarrow> string \<Rightarrow> int) \<Rightarrow> string \<Rightarrow> string \<Rightarrow> int \<Rightarrow> ActivityEpisodeV2 option timeline_op" where
  "findLatestEpisode lc device session beforeOrAtMs r =
     (let candidates = js_sort (episode_latest_compare lc) (filter (\<lambda>episode.
            (case jget (tr_windows r)
                    (if ep_sourceWindowIds episode = [] then '''' else last (ep_sourceWindowIds episode)) of
               None \<Rightarrow> False
             | Some window \<Rightarrow> tw_deviceId window = device \<and> tw_sessionId window = session \<and>
                 ep_endedAtMs episode \<le> beforeOrAtMs))
            (concat (map pr_episodes (jvalues (tr_results r)))))
      in (Inr (case candidates of [] \<Rightarrow> None | episode # _ \<Rightarrow> Some episode), r))"

definition getTimelineResult :: "string \<Rightarrow> PersistTimelineResult option timeline_op" where
  "getTimelineResult wid r = (Inr (jget (tr_results r) wid), r)"

subsection \<open>The outbox\<close>

definition released :: "string list option \<Rightarrow> string \<Rightarrow> AgentInputEnvelopeV1 \<Rightarrow> bool" where
  "released selected aid envelope \<longleftrightarrow> en_state envelope = HELD_LOCAL \<and>
     (case selected of None \<Rightarrow> True | Some ids \<Rightarrow> aid \<in> set ids)"

definition releaseAgentInputs :: "string list option \<Rightarrow> nat timeline_op" where
  "releaseAgentInputs selected r =
     (Inr (length (filter (\<lambda>(aid, envelope). released selected aid envelope) (tr_outbox r))),
      r\<lparr>tr_outbox := map (\<lambda>(aid, envelope).
          (aid, if released selected aid envelope then envelope\<lparr>en_state := INPUT_READY\<rparr> else envelope))
        (tr_outbox r)\<rparr>)"

record AgentInputQuery =
  aq_limit :: "int option"
  aq_nowMs :: int
  aq_leaseDurationMs :: "int option"
  aq_includeHeldLocal :: bool

definition deliverable :: "AgentInputQuery \<Rightarrow> AgentInputEnvelopeV1 \<Rightarrow> bool" where
  "deliverable query envelope \<longleftrightarrow>
     en_state envelope = INPUT_READY \<or>
     (en_state envelope = LEASED \<and>
       (case en_leaseExpiresAtMs envelope of None \<Rightarrow> False | Some t \<Rightarrow> t \<le> aq_nowMs query)) \<or>
     (aq_includeHeldLocal query \<and> en_state envelope = HELD_LOCAL)"

definition envelope_compare ::
  "(string \<Rightarrow> string \<Rightarrow> int) \<Rightarrow> AgentInputEnvelopeV1 \<Rightarrow> AgentInputEnvelopeV1 \<Rightarrow> int" where
  "envelope_compare lc = or_else_cmp (cmp_by (\<lambda>e. ai_createdAtMs (en_input e)))
     (\<lambda>a b. lc (ai_agentInputId (en_input a)) (ai_agentInputId (en_input b)))"

definition leased_envelope :: "string \<Rightarrow> int \<Rightarrow> AgentInputEnvelopeV1 \<Rightarrow> AgentInputEnvelopeV1" where
  "leased_envelope token expiresAtMs candidate =
     candidate\<lparr>en_state := LEASED, en_leaseToken := Some token, en_leaseExpiresAtMs := Some expiresAtMs,
       en_attempt := en_attempt candidate + 1\<rparr>"

text \<open>The loop over the candidates; \<open>i\<close> counts the random UUIDs drawn so far.\<close>

fun lease_loop ::
  "(nat \<Rightarrow> string) \<Rightarrow> int \<Rightarrow> nat \<Rightarrow> AgentInputEnvelopeV1 list \<Rightarrow>
   AgentInputEnvelopeV1 list \<times> (string, AgentInputEnvelopeV1) jmap \<Rightarrow>
   AgentInputEnvelopeV1 list \<times> (string, AgentInputEnvelopeV1) jmap" where
  "lease_loop uuid expiresAtMs i [] acc = acc"
| "lease_loop uuid expiresAtMs i (candidate # cs) (result, outbox) =
     (if en_state candidate = HELD_LOCAL
      then lease_loop uuid expiresAtMs i cs (result @ [candidate], outbox)
      else let leased = leased_envelope (uuid i) expiresAtMs candidate
           in lease_loop uuid expiresAtMs (Suc i) cs
                (result @ [leased], jset (ai_agentInputId (en_input candidate)) leased outbox))"

definition query_candidates ::
  "(string \<Rightarrow> string \<Rightarrow> int) \<Rightarrow> AgentInputQuery \<Rightarrow> nat \<Rightarrow> (string, AgentInputEnvelopeV1) jmap \<Rightarrow>
   AgentInputEnvelopeV1 list" where
  "query_candidates lc query n outbox =
     take n (js_sort (envelope_compare lc) (filter (deliverable query) (jvalues outbox)))"

definition queryAgentInputs ::
  "(string \<Rightarrow> string \<Rightarrow> int) \<Rightarrow> (nat \<Rightarrow> string) \<Rightarrow> AgentInputQuery \<Rightarrow>
   AgentInputEnvelopeV1 list timeline_op" where
  "queryAgentInputs lc uuid query r =
     (case bindE (boundedLimit (case aq_limit query of None \<Rightarrow> 32 | Some n \<Rightarrow> n) 1 100) (\<lambda>limit.
             let leaseDurationMs = (case aq_leaseDurationMs query of None \<Rightarrow> 30000 | Some d \<Rightarrow> d)
             in bindE (assertPositiveDuration leaseDurationMs) (\<lambda>_. Inr (limit, leaseDurationMs))) of
        Inl e \<Rightarrow> (Inl e, r)
      | Inr (limit, leaseDurationMs) \<Rightarrow>
          let (result, outbox) = lease_loop uuid (aq_nowMs query + leaseDurationMs) 0
                (query_candidates lc query (nat limit) (tr_outbox r)) ([], tr_outbox r)
          in (Inr result, r\<lparr>tr_outbox := outbox\<rparr>))"

definition acked_envelope :: "int \<Rightarrow> AgentInputEnvelopeV1 \<Rightarrow> AgentInputEnvelopeV1" where
  "acked_envelope nowMs current =
     current\<lparr>en_state := ACKED, en_leaseToken := None, en_leaseExpiresAtMs := None,
       en_ackedAtMs := Some nowMs\<rparr>"

definition commitAgentInput ::
  "(string \<Rightarrow> nat list) \<Rightarrow> string \<Rightarrow> string \<Rightarrow> int \<Rightarrow> AgentInputEnvelopeV1 timeline_op" where
  "commitAgentInput digest aid leaseToken nowMs r =
     (case jget (tr_outbox r) aid of
        None \<Rightarrow> (Inl (UnknownAgentInput aid), r)
      | Some current \<Rightarrow>
          let leaseTokenHash = opaqueLeaseTokenHash digest leaseToken
          in if en_state current = ACKED
             then if jget (tr_ackedLeaseTokenHashes r) aid \<noteq> Some leaseTokenHash
                  then (Inl AckLeaseTokenMismatch, r)
                  else (Inr current, r)
             else if en_state current \<noteq> LEASED \<or> en_leaseToken current \<noteq> Some leaseToken \<or>
                  (case en_leaseExpiresAtMs current of None \<Rightarrow> True | Some t \<Rightarrow> t < nowMs)
             then (Inl AgentInputLeaseInvalid, r)
             else let acked = acked_envelope nowMs current
                  in (Inr acked,
                      r\<lparr>tr_outbox := jset aid acked (tr_outbox r),
                        tr_ackedLeaseTokenHashes :=
                          jset aid leaseTokenHash (tr_ackedLeaseTokenHashes r)\<rparr>))"

subsection \<open>Authority over cursors and the audit range\<close>

datatype TimelineCursorAuthority =
    AuthorityCommitted string
  | AuthorityPending "string option"
  | AuthorityTerminalFailed string "string option"
  | AuthorityInconsistent string

definition readCursorAuthority :: "string \<Rightarrow> TimelineCursorAuthority timeline_op" where
  "readCursorAuthority c r =
     (Inr (case find (\<lambda>w. \<exists>event \<in> set (tw_events w). se_cursor event = c) (jvalues (tr_windows r)) of
        None \<Rightarrow> AuthorityPending None
      | Some window \<Rightarrow>
          (case jget (tr_jobs r) (tw_windowId window) of
             None \<Rightarrow> AuthorityInconsistent (tw_windowId window)
           | Some job \<Rightarrow>
               if tj_state job = TERMINAL_FAILED
               then AuthorityTerminalFailed (tw_windowId window) (tj_failureCode job)
               else if tj_state job \<noteq> COMMITTED then AuthorityPending (Some (tw_windowId window))
               else if jget (tr_results r) (tw_windowId window) = None
               then AuthorityInconsistent (tw_windowId window)
               else AuthorityCommitted (tw_windowId window))), r)"

record TimelineAuditRangeResult =
  ar_windows :: "TimelineWindowV2 list"
  ar_facts :: "EvidenceFactV2 list"
  ar_episodes :: "ActivityEpisodeV2 list"
  ar_summaries :: "TimelineSummaryV2 list"

definition readAuditRange :: "int \<Rightarrow> int \<Rightarrow> TimelineAuditRangeResult timeline_op" where
  "readAuditRange fromMs toMs r =
     (let ws = filter (\<lambda>w. fromMs \<le> tw_endedAtMs w \<and> tw_startedAtMs w < toMs) (jvalues (tr_windows r));
          windowIds = map tw_windowId ws;
          results = filter (\<lambda>result. pr_windowId result \<in> set windowIds) (jvalues (tr_results r))
      in (Inr \<lparr>ar_windows = ws, ar_facts = concat (map pr_facts results),
           ar_episodes = concat (map pr_episodes results), ar_summaries = map pr_summary results\<rparr>, r))"

end
