(* ===== verification/TimelineProcessor.thy ===== *)
theory TimelineProcessor
  imports TimelineEpisodes TimelineRepository
begin

text \<open>
  The timeline processor and its job runner, \<open>src/agent/timeline/processor.ts\<close>: a sealed window
  becomes evidence facts, episodes, a summary and an agent input, and the runner claims the
  durable job of a window, processes it and completes it, or records its failure.

  Parameters: the local time format, the JSON leaf of a fractional score (JavaScript's number
  formatting), the jitter, and what the clock and the abort signal show at each point where the
  runner reads them.
\<close>

subsection \<open>Errors\<close>

fun thrown_of_timeline :: "timeline_error \<Rightarrow> thrown" where
  "thrown_of_timeline TimelineCollectorRevisionConflict =
     (plain_error ''Timeline collector state changed concurrently.'')
       \<lparr>thrown_name := Some ''TimelineCollectorRevisionConflictError''\<rparr>"
| "thrown_of_timeline (TimelineRevisionMustAdvance required received) =
     plain_error (''Timeline collector revision must advance to '' @ show_int required @ ''; received '' @
       show_int received @ ''.'')"
| "thrown_of_timeline (TimelineWindowCollision wid) =
     plain_error (''Timeline window collision for '' @ wid @ ''.'')"
| "thrown_of_timeline IdempotentSealLostCollector = plain_error ''Idempotent seal lost its collector.''"
| "thrown_of_timeline (NotAnIntegerBetween minimum maximum) =
     plain_error (''Expected an integer between '' @ show_int minimum @ '' and '' @ show_int maximum @ ''.'')"
| "thrown_of_timeline EndedAtOrAfterInvalid =
     plain_error ''endedAtOrAfterMs must be null or a non-negative safe integer.''"
| "thrown_of_timeline AvailableAtInvalid =
     plain_error ''availableAtMs must be a non-negative safe integer.''"
| "thrown_of_timeline LeaseDurationNotPositive =
     plain_error ''leaseDurationMs must be a positive safe integer.''"
| "thrown_of_timeline (UnknownTimelineJob wid) = plain_error (''Unknown timeline job: '' @ wid @ ''.'')"
| "thrown_of_timeline (CannotAbandonClaim wid state) =
     plain_error (''Cannot abandon timeline claim '' @ wid @ '' from '' @ job_state_name state @ ''.'')"
| "thrown_of_timeline (DifferentTimelineResult wid) =
     plain_error (''A different timeline result already exists for '' @ wid @ ''.'')"
| "thrown_of_timeline (CannotComplete wid state) =
     plain_error (''Cannot complete timeline job '' @ wid @ '' from '' @ job_state_name state @ ''.'')"
| "thrown_of_timeline TimelineResultMismatch = plain_error ''Timeline result does not match its window.''"
| "thrown_of_timeline (AgentInputIdCollision aid) =
     plain_error (''Agent input id collision: '' @ aid @ ''.'')"
| "thrown_of_timeline (CannotFinalize wid state) =
     plain_error (''Cannot finalize timeline job '' @ wid @ '' from '' @ job_state_name state @ ''.'')"
| "thrown_of_timeline (CannotRecordFailure wid state) =
     plain_error (''Cannot record timeline failure '' @ wid @ '' from '' @ job_state_name state @ ''.'')"
| "thrown_of_timeline (UnknownAgentInput aid) = plain_error (''Unknown AgentInput: '' @ aid @ ''.'')"
| "thrown_of_timeline AckLeaseTokenMismatch = plain_error ''AgentInput ACK lease token does not match.''"
| "thrown_of_timeline AgentInputLeaseInvalid =
     plain_error ''AgentInput lease is missing, expired, or does not match.''"

fun thrown_of_evidence :: "evidence_error \<Rightarrow> thrown" where
  "thrown_of_evidence ProcessInventoryIsNotEvidence =
     plain_error ''Ignored process inventory cannot become EvidenceFact.''"
| "thrown_of_evidence CoverageGapIsNotEvidence = plain_error ''Coverage gaps cannot become EvidenceFact.''"

definition map_error :: "('e \<Rightarrow> 'f) \<Rightarrow> 'e + 'a \<Rightarrow> 'f + 'a" where
  "map_error g x = (case x of Inl e \<Rightarrow> Inl (g e) | Inr v \<Rightarrow> Inr v)"

text \<open>An awaited repository call inside the processor.\<close>

definition await_op :: "('e \<Rightarrow> 'f) \<Rightarrow> ('s, 'e, 'a) comp \<Rightarrow> ('s, 'f, 'a) comp" where
  "await_op g m s = (case m s of (x, t) \<Rightarrow> (map_error g x, t))"

definition isNonRetryable :: "thrown \<Rightarrow> bool" where
  "isNonRetryable error = thrown_nonRetryable error"

definition errorCodeV2 :: "thrown \<Rightarrow> string" where
  "errorCodeV2 error =
     (case thrown_code error of Some code \<Rightarrow> code
      | None \<Rightarrow> (case thrown_name error of Some name \<Rightarrow> name | None \<Rightarrow> ''TIMELINE_PROCESSING_FAILED''))"

definition url_at :: "string \<Rightarrow> nat option" where
  "url_at s =
     (let rest = (\<lambda>p. if js_startsWith s p then Some (takeWhile (\<lambda>c. \<not> js_space c) (drop (length p) s)) else None) in
      case rest ''http://'' of
        Some (c # cs) \<Rightarrow> Some (7 + length (c # cs))
      | _ \<Rightarrow> (case rest ''https://'' of Some (c # cs) \<Rightarrow> Some (8 + length (c # cs)) | _ \<Rightarrow> None))"

text \<open>\<open>value.replace(/https?:\/\/[^\s]+/gu, "[url]")\<close>.\<close>

function hide_urls :: "string \<Rightarrow> string" where
  "hide_urls [] = []"
| "hide_urls (c # cs) =
     (case url_at (c # cs) of None \<Rightarrow> c # hide_urls cs | Some n \<Rightarrow> ''[url]'' @ hide_urls (drop (max 1 n) (c # cs)))"
  by pat_completeness auto
termination
  by (relation "measure length") auto

definition safeErrorMessage :: "thrown \<Rightarrow> string" where
  "safeErrorMessage error =
     take 512 (map (\<lambda>c. if control_char c then CHR '' '' else c)
       (hide_urls (case thrown_name error of Some _ \<Rightarrow> thrown_message error
                   | None \<Rightarrow> ''Timeline processing failed.'')))"

definition RETRY_DELAYS_MS :: "int list" where
  "RETRY_DELAYS_MS = [5000, 15000, 45000, 120000, 300000]"

definition TERMINAL_FAILURE_AFTER_MS :: int where
  "TERMINAL_FAILURE_AFTER_MS = 24 * 60 * 60 * 1000"

definition retry_base :: "nat \<Rightarrow> int" where
  "retry_base n = RETRY_DELAYS_MS ! min (n - 1) (length RETRY_DELAYS_MS - 1)"

definition retryDelay :: "nat \<Rightarrow> (int \<Rightarrow> int) \<Rightarrow> int" where
  "retryDelay n jitter =
     (let base = retry_base n; maximumJitter = max 1 (base div 5)
      in base + max 0 (min (maximumJitter - 1) (jitter maximumJitter)))"

subsection \<open>Values as JSON\<close>

fun coverage_name :: "CoverageLevel \<Rightarrow> string" where
  "coverage_name CoverContent = ''content''"
| "coverage_name CoverMetadata = ''metadata''"
| "coverage_name CoverRedacted = ''redacted''"
| "coverage_name CoverDenied = ''denied''"
| "coverage_name CoverUnavailable = ''unavailable''"

fun role_name :: "FactRole \<Rightarrow> string" where
  "role_name RolePrimary = ''primary''"
| "role_name RoleSupporting = ''supporting''"
| "role_name RoleBoundary = ''boundary''"

fun reliability_name :: "EvidenceReliability \<Rightarrow> string" where
  "reliability_name ReliabilityHigh = ''high''"
| "reliability_name ReliabilityMedium = ''medium''"
| "reliability_name ReliabilityLow = ''low''"

definition strings_json :: "string list \<Rightarrow> json" where
  "strings_json xs = JArr (map JStr xs)"

definition coverage_json :: "CoverageLevel list \<Rightarrow> json" where
  "coverage_json cs = JArr (map (\<lambda>c. JStr (coverage_name c)) cs)"

definition period_json :: "TimelinePeriod \<Rightarrow> json" where
  "period_json p = JObj [(''startedAtMs'', JNum (pd_startedAtMs p)), (''endedAtMs'', JNum (pd_endedAtMs p))]"

definition anchor_json :: "EvidenceAnchorV2 \<Rightarrow> json" where
  "anchor_json a = JObj [(''appId'', null_str (an_appId a)), (''windowId'', null_str (an_windowId a)),
     (''documentId'', null_str (an_documentId a)), (''pageId'', null_str (an_pageId a))]"

definition fact_json :: "EvidenceFactV2 \<Rightarrow> json" where
  "fact_json f = JObj [(''schemaVersion'', JStr ''evidence-fact.v2''), (''factId'', JStr (fa_factId f)),
     (''eventIds'', strings_json (fa_eventIds f)),
     (''sourceObservationIds'', strings_json (fa_sourceObservationIds f)),
     (''startedAtMs'', JNum (fa_startedAtMs f)), (''endedAtMs'', JNum (fa_endedAtMs f)),
     (''templateCode'', JStr (template_code_name (fa_templateCode f))),
     (''templateArgs'', JObj (fa_templateArgs f)), (''renderedText'', JStr (fa_renderedText f)),
     (''anchor'', anchor_json (fa_anchor f)), (''role'', JStr (role_name (fa_role f))),
     (''reliability'', JStr (reliability_name (fa_reliability f))), (''coverage'', coverage_json (fa_coverage f))]"

definition diagnostic_json :: "TimelineInferenceDiagnosticV2 \<Rightarrow> json" where
  "diagnostic_json d = JObj [(''source'', JStr ''qwen3:4b''), (''stage'', JStr (di_stage d)),
     (''code'', JStr (di_code d)), (''retryable'', JBool (di_retryable d)),
     (''httpStatus'', null_int (di_httpStatus d)),
     (''affectedEpisodeCount'', null_int (di_affectedEpisodeCount d))]"

definition hypothesis_json :: "EpisodeHypothesisV2 \<Rightarrow> json" where
  "hypothesis_json h = JObj [(''text'', JStr (hy_text h)), (''citedFactIds'', strings_json (hy_citedFactIds h)),
     (''generator'', JStr (hy_generator h)),
     (''diagnostics'', (case hy_diagnostics h of None \<Rightarrow> JUndef | Some ds \<Rightarrow> JArr (map diagnostic_json ds)))]"

definition relevance_json :: "GoalRelevanceLabel option \<Rightarrow> json" where
  "relevance_json g = null_str (map_option relevance_name g)"

definition classification_json :: "(real \<Rightarrow> json) \<Rightarrow> EpisodeClassificationV2 \<Rightarrow> json" where
  "classification_json score c = JObj [(''activity'', JStr (activity_name (cl_activity c))),
     (''goalRelevance'', relevance_json (cl_goalRelevance c)), (''confidence'', score (cl_confidence c)),
     (''entropy'', score (cl_entropy c)), (''oodScore'', score (cl_oodScore c)),
     (''abstain'', JBool (cl_abstain c)), (''modelVersion'', JStr (cl_modelVersion c))]"

definition segment_json :: "(real \<Rightarrow> json) \<Rightarrow> TimelineSegmentV2 \<Rightarrow> json" where
  "segment_json score s = JObj [(''episodeId'', JStr (sg_episodeId s)),
     (''episodeRevisionId'', JStr (sg_episodeRevisionId s)), (''startedAtMs'', JNum (sg_startedAtMs s)),
     (''endedAtMs'', JNum (sg_endedAtMs s)), (''activity'', JStr (activity_name (sg_activity s))),
     (''goalRelevance'', relevance_json (sg_goalRelevance s)),
     (''classification'', classification_json score (sg_classification s)),
     (''hypothesis'', hypothesis_json (sg_hypothesis s)),
     (''evidence'', JArr (map fact_json (sg_evidence s)))]"

subsection \<open>The summary\<close>

record TimelineProcessor =
  tp_urls :: UrlLibrary
  tp_episodes :: EpisodeAssembler
  tp_formatTime :: "int \<Rightarrow> string"
  tp_score :: "real \<Rightarrow> json"

definition explicitlyLate :: "SemanticEventV2 \<Rightarrow> bool" where
  "explicitlyLate event \<longleftrightarrow> payload_value event ''late'' = JBool True \<or>
     payload_value event ''isLate'' = JBool True \<or> payload_value event ''lateObservation'' = JBool True"

definition correctionTarget ::
  "TimelineWindowV2 \<Rightarrow> ActivityEpisodeV2 option \<Rightarrow> PersistTimelineResult option timeline_op" where
  "correctionTarget window previousEpisode =
     (case previousEpisode of
        None \<Rightarrow> ret None
      | Some previous \<Rightarrow>
          if \<not> (\<exists>event \<in> set (tw_events window). explicitlyLate event \<or>
               (se_occurredAtMs event < ep_endedAtMs previous \<and> se_observedAtMs event < ep_endedAtMs previous))
          then ret None
          else if ep_sourceWindowIds previous = [] \<or> last (ep_sourceWindowIds previous) = [] then ret None
          else getTimelineResult (last (ep_sourceWindowIds previous)))"

definition add_missing_facts ::
  "string list \<Rightarrow> EvidenceFactV2 list \<Rightarrow> (string, EvidenceFactV2) jmap \<Rightarrow> (string, EvidenceFactV2) jmap" where
  "add_missing_facts required facts byId =
     fold (\<lambda>f m. if fa_factId f \<in> set required \<and> jget m (fa_factId f) = None then jset (fa_factId f) f m else m)
       facts byId"

fun collect_historical_facts ::
  "string list \<Rightarrow> string list \<Rightarrow> (string, EvidenceFactV2) jmap \<Rightarrow> (string, EvidenceFactV2) jmap timeline_op" where
  "collect_historical_facts required [] byId = ret byId"
| "collect_historical_facts required (wid # wids) byId =
     (if \<forall>i \<in> set required. jget byId i \<noteq> None then ret byId
      else andThen (getTimelineResult wid) (\<lambda>result.
        collect_historical_facts required wids
          (add_missing_facts required (case result of None \<Rightarrow> [] | Some p \<Rightarrow> pr_facts p) byId)))"

definition factsForSummary ::
  "(string \<Rightarrow> string \<Rightarrow> int) \<Rightarrow> TimelineWindowV2 \<Rightarrow> EvidenceFactV2 list \<Rightarrow> ActivityEpisodeV2 list \<Rightarrow>
   EvidenceFactV2 list timeline_op" where
  "factsForSummary lc window currentFacts episodes =
     (let required = js_unique (concat (map (\<lambda>ep. ep_evidenceFactIds ep @ ep_supportingFactIds ep) episodes));
          byId = fold (\<lambda>f. jset (fa_factId f) f) currentFacts [];
          historicalWindowIds = filter (\<lambda>wid. wid \<noteq> tw_windowId window)
            (js_unique (concat (map ep_sourceWindowIds episodes)))
      in andThen (collect_historical_facts required historicalWindowIds byId) (\<lambda>m.
           ret (js_sort (fact_compare lc) (jvalues m))))"

definition coverageWarnings :: "CoverageLevel list \<Rightarrow> string list" where
  "coverageWarnings coverage =
     (if CoverRedacted \<in> set coverage then [''<90e8><5206><654f><611f><5185><5bb9><5df2><4e3b><52a8><906e><853d>''] else []) @
     (if CoverDenied \<in> set coverage then [''<90e8><5206><5e94><7528><6216><5185><5bb9><56e0><6388><6743><7b56><7565><672a><91c7><96c6>''] else []) @
     (if CoverUnavailable \<in> set coverage then [''<90e8><5206><53ef><89c1><5185><5bb9><5728><91c7><96c6><6216><89e3><5bc6><65f6><4e0d><53ef><7528>''] else []) @
     (if CoverContent \<notin> set coverage then [''<672c><65f6><95f4><6bb5><53ea><6709><5143><6570><636e><ff0c><6d3b><52a8><5224><65ad><5e94><89c6><4e3a><4f4e><7f6e><4fe1>''] else [])"

definition renderTimelineText :: "TimelineSegmentV2 list \<Rightarrow> string list \<Rightarrow> (int \<Rightarrow> string) \<Rightarrow> string" where
  "renderTimelineText segments warnings formatTime =
     js_join [char_of (10::nat)]
       (concat (map (\<lambda>s.
          (''- '' @ formatTime (sg_startedAtMs s) @ ''<2013>'' @ formatTime (sg_endedAtMs s) @ ''<ff0c>'' @
             hy_text (sg_hypothesis s)) #
          map (\<lambda>f. ''  - '' @ formatTime (fa_startedAtMs f) @ '' '' @ fa_renderedText f) (sg_evidence s)) segments) @
        map (\<lambda>w. ''- <6570><636e><8986><76d6><63d0><793a><ff1a>'' @ w) warnings)"

definition periodFromFacts :: "EvidenceFactV2 list \<Rightarrow> TimelineWindowV2 \<Rightarrow> TimelinePeriod" where
  "periodFromFacts facts window =
     (if facts = [] then \<lparr>pd_startedAtMs = tw_startedAtMs window, pd_endedAtMs = tw_startedAtMs window\<rparr>
      else \<lparr>pd_startedAtMs = math_min (map fa_startedAtMs facts), pd_endedAtMs = math_max (map fa_endedAtMs facts)\<rparr>)"

definition segment_of_episode ::
  "TimelineWindowV2 \<Rightarrow> (string, EvidenceFactV2) jmap \<Rightarrow> ActivityEpisodeV2 \<Rightarrow> TimelineSegmentV2" where
  "segment_of_episode window factById ep =
     (let c = ep_classification ep in
      \<lparr>sg_episodeId = ep_episodeId ep, sg_episodeRevisionId = ep_revisionId ep,
       sg_startedAtMs = ep_startedAtMs ep, sg_endedAtMs = ep_endedAtMs ep,
       sg_activity = (if cl_abstain c then other_unknown else cl_activity c),
       sg_goalRelevance = (if tw_goal window = None then None
         else if cl_abstain c then Some uncertain else cl_goalRelevance c),
       sg_classification = c, sg_hypothesis = ep_hypothesis ep,
       sg_evidence = concat (map (\<lambda>i. case jget factById i of None \<Rightarrow> [] | Some f \<Rightarrow> [f])
         (js_unique (ep_evidenceFactIds ep @ ep_supportingFactIds ep)))\<rparr>)"

definition buildSummary ::
  "TimelineProcessor \<Rightarrow> int \<Rightarrow> TimelineWindowV2 \<Rightarrow> EvidenceFactV2 list \<Rightarrow> ActivityEpisodeV2 list \<Rightarrow>
   TimelineSummaryV2 option \<Rightarrow> TimelineSummaryV2" where
  "buildSummary p createdAtMs' window facts episodes corrected =
     (let factById = fold (\<lambda>f. jset (fa_factId f) f) facts [];
          segments = map (segment_of_episode window factById) episodes;
          timelineId = ''timeline_'' @ as_sha256 (tp_episodes p) (canonicalJson (JObj
            [(''windowId'', JStr (tw_windowId window)),
             (''episodeRevisionIds'', strings_json (map ep_revisionId episodes)),
             (''correctsTimelineId'', null_str (map_option su_timelineId corrected))]));
          coverage = mergeCoverage (map fa_coverage facts);
          warnings = coverageWarnings coverage in
      \<lparr>su_timelineId = timelineId, su_windowId = tw_windowId window,
       su_triggerReason = tw_triggerReason window, su_triggeredAtMs = tw_endedAtMs window,
       su_deadlineAtMs = tw_deadlineAtMs window, su_period = periodFromFacts facts window,
       su_goalVersion = tw_goalVersion window, su_segments = segments, su_coverage = coverage,
       su_coverageWarnings = warnings,
       su_renderedText = renderTimelineText segments warnings (tp_formatTime p),
       su_modelVersions = js_unique (map (\<lambda>ep. cl_modelVersion (ep_classification ep)) episodes @
         map (\<lambda>ep. ''hypothesis:'' @ hy_generator (ep_hypothesis ep)) episodes),
       su_inferenceDiagnostics = js_unique (concat (map (\<lambda>ep.
         case hy_diagnostics (ep_hypothesis ep) of None \<Rightarrow> [] | Some ds \<Rightarrow> ds) episodes)),
       su_taxonomyVersion = TIMELINE_TAXONOMY_VERSION, su_projectorVersion = TIMELINE_PROJECTOR_VERSION,
       su_createdAtMs = createdAtMs',
       su_revision = (case corrected of None \<Rightarrow> 1 | Some c \<Rightarrow> su_revision c + 1),
       su_correctsTimelineId = map_option su_timelineId corrected\<rparr>)"

definition buildAgentInput ::
  "TimelineProcessor \<Rightarrow> TimelineWindowV2 \<Rightarrow> TimelineSummaryV2 \<Rightarrow> AgentInputV1" where
  "buildAgentInput p window summary =
     (let payload = JObj [(''schemaVersion'', JStr ''agent-input.v1''),
            (''timelineId'', JStr (su_timelineId summary)), (''windowId'', JStr (tw_windowId window)),
            (''triggerReason'', JStr (reason_name (tw_triggerReason window))),
            (''triggeredAtMs'', JNum (su_triggeredAtMs summary)), (''deadlineAtMs'', JNum (su_deadlineAtMs summary)),
            (''period'', period_json (su_period summary)), (''goal'', goal_json (tw_goal window)),
            (''segments'', JArr (map (segment_json (tp_score p)) (su_segments summary))),
            (''renderedText'', JStr (su_renderedText summary)), (''coverage'', coverage_json (su_coverage summary)),
            (''modelVersions'', strings_json (su_modelVersions summary)),
            (''inferenceDiagnostics'', JArr (map diagnostic_json (su_inferenceDiagnostics summary))),
            (''taxonomyVersion'', JStr (su_taxonomyVersion summary)),
            (''projectorVersion'', JStr (su_projectorVersion summary)),
            (''createdAtMs'', JNum (su_createdAtMs summary))];
          agentInputId = ''agent_input_'' @ as_sha256 (tp_episodes p) (canonicalJson (JObj
            [(''deviceId'', JStr (tw_deviceId window)), (''sessionId'', JStr (tw_sessionId window)),
             (''goalVersion'', null_int (tw_goalVersion window)),
             (''firstCursor'', JStr (tw_firstCursor window)), (''lastCursor'', JStr (tw_lastCursor window)),
             (''triggerReason'', JStr (reason_name (tw_triggerReason window))),
             (''taxonomyVersion'', JStr (su_taxonomyVersion summary)),
             (''projectorVersion'', JStr (su_projectorVersion summary))])) in
      \<lparr>ai_agentInputId = agentInputId, ai_idempotencyKey = agentInputId,
       ai_timelineId = su_timelineId summary, ai_windowId = tw_windowId window,
       ai_triggerReason = tw_triggerReason window, ai_triggeredAtMs = su_triggeredAtMs summary,
       ai_deadlineAtMs = su_deadlineAtMs summary, ai_period = su_period summary, ai_goal = tw_goal window,
       ai_segments = su_segments summary, ai_renderedText = su_renderedText summary,
       ai_coverage = su_coverage summary, ai_modelVersions = su_modelVersions summary,
       ai_inferenceDiagnostics = su_inferenceDiagnostics summary,
       ai_taxonomyVersion = su_taxonomyVersion summary, ai_projectorVersion = su_projectorVersion summary,
       ai_payloadHash = as_sha256 (tp_episodes p) (canonicalJson payload),
       ai_createdAtMs = su_createdAtMs summary\<rparr>)"

text \<open>
  \<open>process\<close> reads the repository and has no effect on it; as in the assembler, \<open>stopped\<close> says
  that one of its checks saw the signal aborted.
\<close>

definition process ::
  "TimelineProcessor \<Rightarrow> bool \<Rightarrow> int \<Rightarrow> TimelineWindowV2 \<Rightarrow> (TimelineRepositoryV2, thrown, PersistTimelineResult) comp" where
  "process p stopped createdAtMs' window =
     (let a = tp_episodes p; lc = as_localeCompare a in
      andThen (liftE (throwIfAborted stopped)) (\<lambda>_.
      andThen (liftE (map_error thrown_of_evidence (render (tp_urls p) (as_sha256 a) (tw_events window)))) (\<lambda>facts.
      andThen (liftE (map_error thrown_of_evidence
        (if tw_contextOnly window \<noteq> [] then render (tp_urls p) (as_sha256 a) (tw_contextOnly window)
         else Inr []))) (\<lambda>contextOnlyFacts.
      andThen (await_op thrown_of_timeline
        (findLatestEpisode lc (tw_deviceId window) (tw_sessionId window) MAX_SAFE_INTEGER)) (\<lambda>previousEpisode.
      andThen (liftE (assemble a stopped window facts previousEpisode contextOnlyFacts)) (\<lambda>episodes.
      andThen (await_op thrown_of_timeline (correctionTarget window previousEpisode)) (\<lambda>correctedResult.
      andThen (await_op thrown_of_timeline (factsForSummary lc window facts episodes)) (\<lambda>summaryFacts.
      let summary = buildSummary p createdAtMs' window summaryFacts episodes (map_option pr_summary correctedResult) in
      ret \<lparr>pr_windowId = tw_windowId window, pr_facts = facts, pr_episodes = episodes, pr_summary = summary,
        pr_agentInput = buildAgentInput p window summary\<rparr>))))))))"

subsection \<open>The job runner\<close>

datatype timeline_clock = ClockClaim | ClockAbandonEarly | ClockFinalize | ClockAbandonWindow
  | ClockAbandonResult | ClockComplete | ClockFailed

datatype timeline_signal = SignalEntry | SignalClaimed | SignalWindow | SignalResult | SignalCatch

record TimelineRunEnv =
  re_now :: "timeline_clock \<Rightarrow> int"
  re_aborted :: "timeline_signal \<Rightarrow> bool"
  re_process :: "TimelineWindowV2 \<Rightarrow> (TimelineRepositoryV2, thrown, PersistTimelineResult) comp"

record TimelineRunnerOptions =
  ro_localeCompare :: "string \<Rightarrow> string \<Rightarrow> int"
  ro_leaseDurationMs :: int
  ro_jitter :: "int \<Rightarrow> int"

datatype TimelineRunResult = RunIdle | RunCompleted | RunRetry | RunTerminal | RunAbandoned

definition run_try ::
  "TimelineRunEnv \<Rightarrow> TimelineJobV2 \<Rightarrow> TimelineWindowV2 \<Rightarrow> (TimelineRepositoryV2, thrown, TimelineRunResult) comp" where
  "run_try env job window =
     andThen (re_process env window) (\<lambda>result.
       if re_aborted env SignalResult
       then andThen (await_op thrown_of_timeline
              (abandonWindowClaim (tj_windowId job) (re_now env ClockAbandonResult))) (\<lambda>_. ret RunAbandoned)
       else andThen (await_op thrown_of_timeline (completeWindow result (re_now env ClockComplete))) (\<lambda>_.
              ret RunCompleted))"

definition run_catch ::
  "TimelineRunnerOptions \<Rightarrow> TimelineRunEnv \<Rightarrow> TimelineJobV2 \<Rightarrow> thrown \<Rightarrow>
   (TimelineRepositoryV2, thrown, TimelineRunResult) comp" where
  "run_catch opts env job error =
     (let failedAtMs' = re_now env ClockFailed; wid = tj_windowId job in
      andThen (await_op thrown_of_timeline (getJobV2 wid)) (\<lambda>durable.
        if map_option tj_state durable \<in> {Some RESULT_PERSISTED, Some COMMITTING, Some COMMITTED}
        then if map_option tj_state durable = Some COMMITTED then ret RunCompleted
             else if re_aborted env SignalCatch then ret RunAbandoned
             else throw error
        else if re_aborted env SignalCatch
        then if map_option tj_state durable = Some RUNNING
             then andThen (await_op thrown_of_timeline (abandonWindowClaim wid failedAtMs')) (\<lambda>_. ret RunAbandoned)
             else ret RunAbandoned
        else
          let firstAttempt = (case tj_firstAttemptAtMs job of None \<Rightarrow> failedAtMs' | Some t \<Rightarrow> t);
              terminal = (TERMINAL_FAILURE_AFTER_MS \<le> failedAtMs' - firstAttempt \<or> isNonRetryable error);
              delay = retryDelay (tj_attempt job) (ro_jitter opts)
          in andThen (await_op thrown_of_timeline (recordWindowFailure wid
               \<lparr>wf_nowMs = failedAtMs', wf_code = errorCodeV2 error, wf_message = safeErrorMessage error,
                wf_nextAttemptAtMs = (if terminal then None else Some (failedAtMs' + delay)),
                wf_terminal = terminal\<rparr>)) (\<lambda>_.
               ret (if terminal then RunTerminal else RunRetry))))"

definition run_claimed_v2 ::
  "TimelineRunnerOptions \<Rightarrow> TimelineRunEnv \<Rightarrow> TimelineJobV2 \<Rightarrow> (TimelineRepositoryV2, thrown, TimelineRunResult) comp" where
  "run_claimed_v2 opts env job =
     (let wid = tj_windowId job in
      if re_aborted env SignalClaimed
      then if tj_state job = RUNNING
           then andThen (await_op thrown_of_timeline (abandonWindowClaim wid (re_now env ClockAbandonEarly)))
                  (\<lambda>_. ret RunAbandoned)
           else ret RunAbandoned
      else if tj_state job = RESULT_PERSISTED \<or> tj_state job = COMMITTING
      then andThen (await_op thrown_of_timeline (finalizeWindowCommit wid (re_now env ClockFinalize)))
             (\<lambda>_. ret RunCompleted)
      else if tj_state job \<noteq> RUNNING
      then throw (plain_error (''Timeline repository returned non-runnable job state '' @
             job_state_name (tj_state job) @ ''.''))
      else
        andThen (await_op thrown_of_timeline (getWindowV2 wid)) (\<lambda>found.
          if re_aborted env SignalWindow
          then andThen (await_op thrown_of_timeline (abandonWindowClaim wid (re_now env ClockAbandonWindow)))
                 (\<lambda>_. ret RunAbandoned)
          else case found of
            None \<Rightarrow>
              andThen (await_op thrown_of_timeline (recordWindowFailure wid
                \<lparr>wf_nowMs = re_now env ClockClaim, wf_code = ''WINDOW_MISSING'',
                 wf_message = ''Encrypted timeline window is unavailable.'', wf_nextAttemptAtMs = None,
                 wf_terminal = True\<rparr>)) (\<lambda>_. ret RunTerminal)
          | Some window \<Rightarrow>
              (\<lambda>r. case run_try env job window r of
                 (Inr result, t) \<Rightarrow> (Inr result, t)
               | (Inl error, t) \<Rightarrow> run_catch opts env job error t)))"

definition runNext ::
  "TimelineRunnerOptions \<Rightarrow> TimelineRunEnv \<Rightarrow> (TimelineRepositoryV2, thrown, TimelineRunResult) comp" where
  "runNext opts env =
     (if re_aborted env SignalEntry then ret RunIdle
      else andThen (await_op thrown_of_timeline
             (claimNextWindow (ro_localeCompare opts) (re_now env ClockClaim) (ro_leaseDurationMs opts))) (\<lambda>claimed.
           case claimed of None \<Rightarrow> ret RunIdle | Some job \<Rightarrow> run_claimed_v2 opts env job))"

text \<open>\<open>runUntilIdle\<close>; \<open>envs i\<close> is what the \<open>i\<close>-th run sees.\<close>

fun run_loop ::
  "TimelineRunnerOptions \<Rightarrow> (nat \<Rightarrow> TimelineRunEnv) \<Rightarrow> nat \<Rightarrow> nat \<Rightarrow> (TimelineRepositoryV2, thrown, nat) comp" where
  "run_loop opts envs processed 0 = ret processed"
| "run_loop opts envs processed (Suc left) =
     andThen (runNext opts (envs processed)) (\<lambda>result.
       if result = RunIdle \<or> result = RunAbandoned then ret processed
       else run_loop opts envs (Suc processed) left)"

definition runUntilIdleV2 ::
  "TimelineRunnerOptions \<Rightarrow> (nat \<Rightarrow> TimelineRunEnv) \<Rightarrow> int \<Rightarrow> (TimelineRepositoryV2, thrown, nat) comp" where
  "runUntilIdleV2 opts envs maxJobs =
     (if maxJobs < 1 \<or> 10000 < maxJobs then throw (plain_error ''maxJobs must be between 1 and 10000.'')
      else run_loop opts envs 0 (nat maxJobs))"

end
