(* ===== verification/TimelineCollector.thy ===== *)
theory TimelineCollector
  imports TimelineProcessor
begin

text \<open>
  The timeline's collector, \<open>src/agent/timeline/collector.ts\<close>: it materialises semantic events
  into one open window and seals it at the count threshold, at its deadline, or at a goal or
  presence boundary; an authorization boundary drops what is pending.

  Every public mutation is placed on one promise chain, so an operation runs to its end before
  the next one starts: it is one computation on the collector object, with the in-memory
  repository inside it. Each read of the clock takes the next value of \<open>tc_clock\<close>; the calls of
  the two optional hooks are logged. The digest is the parameter \<open>tcc_sha256\<close>.
\<close>

subsection \<open>Configuration and state\<close>

record TimelineCollectorConfig =
  tcc_collectorId :: string
  tcc_deviceId :: string
  tcc_sessionId :: string
  tcc_initialGoal :: "ActiveGoalContext option"
  tcc_threshold :: nat
  tcc_maxWaitMs :: int
  tcc_onDeadlineReady :: bool
  tcc_onCountReady :: bool
  tcc_sha256 :: "string \<Rightarrow> string"

definition TIMELINE_EFFECTIVE_EVENT_THRESHOLD :: nat where "TIMELINE_EFFECTIVE_EVENT_THRESHOLD = 64"
definition TIMELINE_MAX_WAIT_MS :: int where "TIMELINE_MAX_WAIT_MS = 5 * 60 * 1000"
definition TIMELINE_CONTEXT_EVENT_LIMIT :: nat where "TIMELINE_CONTEXT_EVENT_LIMIT = 5"
definition TIMELINE_CONTEXT_LOOKBACK_MS :: int where "TIMELINE_CONTEXT_LOOKBACK_MS = 30000"
definition TIMELINE_RECENT_EVENT_ID_LIMIT :: nat where "TIMELINE_RECENT_EVENT_ID_LIMIT = 2048"

datatype timeline_collector_error =
    EffectiveThresholdInvalid
  | MaxWaitInvalid
  | TimelineRecoverFirst
  | TimelineIdentityMismatch
  | TimelineSnapshotInvalid
  | CannotSealEmptyWindow
  | WindowLostCursorBounds
  | WindowHasNoEffectiveEvent
  | ExpectedGoalChanged
  | TimelineGoalVersionMismatch "int option" "int option"
  | TimelineGoalContentUnavailable string
  | TimelineStoreFailed timeline_error
  | TimelineCallDepthExceeded

record TimelineCollectorV2 =
  tc_repository :: TimelineRepositoryV2
  tc_snapshot :: "TimelineCollectorSnapshotV2 option"
  tc_state :: TimelineCollectorState
  tc_timer :: "(int \<times> int) option"
  tc_deadlinesDeferred :: bool
  tc_disposed :: bool
  tc_clock :: "nat \<Rightarrow> int"
  tc_ticks :: nat
  tc_deadlineReadyCalls :: "int list"
  tc_countReadyCalls :: "int list"

type_synonym 'a tc_op = "(TimelineCollectorV2, timeline_collector_error, 'a) comp"

definition new_timeline_collector ::
  "TimelineCollectorConfig \<Rightarrow> TimelineRepositoryV2 \<Rightarrow> (nat \<Rightarrow> int) \<Rightarrow> timeline_collector_error + TimelineCollectorV2" where
  "new_timeline_collector cfg repo clock =
     (if tcc_threshold cfg < 1 then Inl EffectiveThresholdInvalid
      else if \<not> (isSafeInteger (tcc_maxWaitMs cfg) \<and> 0 < tcc_maxWaitMs cfg) then Inl MaxWaitInvalid
      else Inr \<lparr>tc_repository = repo, tc_snapshot = None, tc_state = RECOVERING, tc_timer = None,
             tc_deadlinesDeferred = False, tc_disposed = False, tc_clock = clock, tc_ticks = 0,
             tc_deadlineReadyCalls = [], tc_countReadyCalls = []\<rparr>)"

subsection \<open>Windows\<close>

definition is_effective :: "SemanticEventV2 \<Rightarrow> bool" where
  "is_effective event \<longleftrightarrow> se_countClass event = CountEffective"

definition startWindow :: "SemanticEventV2 \<Rightarrow> ActiveGoalContext option \<Rightarrow> int \<Rightarrow> OpenTimelineWindowV2" where
  "startWindow event goal maxWaitMs =
     \<lparr>otw_goal = goal, otw_goalVersion = map_option goal_version goal, otw_startedAtMs = se_occurredAtMs event,
      otw_deadlineAtMs = se_occurredAtMs event + maxWaitMs, otw_events = [event], otw_effectiveEventCount = 1\<rparr>"

definition appendEffective :: "OpenTimelineWindowV2 \<Rightarrow> SemanticEventV2 \<Rightarrow> OpenTimelineWindowV2" where
  "appendEffective ow event =
     ow\<lparr>otw_events := otw_events ow @ [event], otw_effectiveEventCount := otw_effectiveEventCount ow + 1\<rparr>"

definition append_uncounted :: "SemanticEventV2 \<Rightarrow> OpenTimelineWindowV2 \<Rightarrow> OpenTimelineWindowV2" where
  "append_uncounted event ow = ow\<lparr>otw_events := otw_events ow @ [event]\<rparr>"

definition thresholdReachedAt :: "OpenTimelineWindowV2 \<Rightarrow> timeline_collector_error + int" where
  "thresholdReachedAt ow =
     (case find is_effective (rev (otw_events ow)) of
        None \<Rightarrow> Inl WindowHasNoEffectiveEvent
      | Some event \<Rightarrow> Inr (se_occurredAtMs event))"

definition latestEventAt :: "OpenTimelineWindowV2 \<Rightarrow> int" where
  "latestEventAt ow = math_max (map se_occurredAtMs (otw_events ow))"

definition addRecent :: "TimelineCollectorSnapshotV2 \<Rightarrow> string \<Rightarrow> string list" where
  "addRecent snapshot event_id =
     slice_last TIMELINE_RECENT_EVENT_ID_LIMIT (tcs_recentEventIds snapshot @ [event_id])"

fun kind_name :: "SemanticEventKind \<Rightarrow> string" where
  "kind_name ApplicationForegroundChanged = ''application.foregroundChanged''"
| "kind_name ApplicationVisibleContentChanged = ''application.visibleContentChanged''"
| "kind_name ApplicationTextValueChanged = ''application.textValueChanged''"
| "kind_name BrowserVisiblePageChanged = ''browser.visiblePageChanged''"
| "kind_name UiFocusChanged = ''ui.focusChanged''"
| "kind_name UiControlActivated = ''ui.controlActivated''"
| "kind_name InputActivityBucket = ''input.activityBucket''"
| "kind_name PresenceChanged = ''presence.changed''"
| "kind_name GoalChanged = ''goal.changed''"
| "kind_name AuthorizationChangedV2 = ''authorization.changed''"
| "kind_name ApplicationProcessObservedBatch = ''application.processObservedBatch''"
| "kind_name CoverageGap = ''coverage.gap''"

fun count_class_name :: "SemanticCountClass \<Rightarrow> string" where
  "count_class_name CountEffective = ''effective''"
| "count_class_name CountBoundary = ''boundary''"
| "count_class_name CountContext = ''context''"
| "count_class_name CountIgnored = ''ignored''"

definition semantic_event_json :: "SemanticEventV2 \<Rightarrow> json" where
  "semantic_event_json e = JObj [(''schemaVersion'', JStr ''semantic-event.v2''), (''eventId'', JStr (se_eventId e)),
     (''cursor'', JStr (se_cursor e)), (''deviceId'', JStr (se_deviceId e)), (''sessionId'', JStr (se_sessionId e)),
     (''kind'', JStr (kind_name (se_kind e))), (''source'', JStr (se_source e)),
     (''occurredAtMs'', JNum (se_occurredAtMs e)), (''observedAtMs'', JNum (se_observedAtMs e)),
     (''goalVersion'', null_int (se_goalVersion e)), (''countClass'', JStr (count_class_name (se_countClass e))),
     (''reliability'', JStr (reliability_name (se_reliability e))), (''coverage'', coverage_json (se_coverage e)),
     (''contentState'', JStr (content_state_name (se_contentState e))),
     (''sourceObservationIds'', strings_json (se_sourceObservationIds e)),
     (''taxonomyVersion'', JStr (se_taxonomyVersion e)), (''projectorVersion'', JStr (se_projectorVersion e)),
     (''payload'', JObj (se_payload e))]"

text \<open>The events kept as context of a window, and the window itself.\<close>

definition context_events :: "OpenTimelineWindowV2 \<Rightarrow> SemanticEventV2 list \<Rightarrow> SemanticEventV2 list" where
  "context_events ow candidates =
     slice_last TIMELINE_CONTEXT_EVENT_LIMIT (filter (\<lambda>e. is_effective e \<and>
       0 \<le> otw_startedAtMs ow - se_occurredAtMs e \<and>
       otw_startedAtMs ow - se_occurredAtMs e \<le> TIMELINE_CONTEXT_LOOKBACK_MS) candidates)"

definition buildTimelineWindow ::
  "TimelineCollectorConfig \<Rightarrow> OpenTimelineWindowV2 \<Rightarrow> ReflectionTriggerReason \<Rightarrow> int \<Rightarrow> SemanticEventV2 list \<Rightarrow>
   timeline_collector_error + TimelineWindowV2" where
  "buildTimelineWindow cfg ow reason endedAtMs candidates =
     (let events = otw_events ow in
      if events = [] then Inl WindowLostCursorBounds
      else
        let contextOnly' = context_events ow candidates;
            inputHash' = tcc_sha256 cfg (canonicalJson (JObj [(''goal'', goal_json (otw_goal ow)),
              (''events'', JArr (map semantic_event_json events)),
              (''contextOnly'', JArr (map semantic_event_json contextOnly'))]));
            identity = canonicalJson (JObj [(''deviceId'', JStr (tcc_deviceId cfg)),
              (''sessionId'', JStr (tcc_sessionId cfg)), (''goalVersion'', null_int (otw_goalVersion ow)),
              (''firstCursor'', JStr (se_cursor (hd events))), (''lastCursor'', JStr (se_cursor (last events))),
              (''triggerReason'', JStr (reason_name reason))]);
            earliest = fold (\<lambda>e t. min t (se_occurredAtMs e)) events (otw_startedAtMs ow);
            latest = fold (\<lambda>e t. max t (se_observedAtMs e)) events earliest
        in Inr \<lparr>tw_windowId = ''timeline_window_'' @ tcc_sha256 cfg identity,
             tw_collectorId = tcc_collectorId cfg, tw_deviceId = tcc_deviceId cfg,
             tw_sessionId = tcc_sessionId cfg, tw_triggerReason = reason, tw_goal = otw_goal ow,
             tw_goalVersion = otw_goalVersion ow, tw_startedAtMs = earliest,
             tw_endedAtMs = max endedAtMs latest, tw_deadlineAtMs = otw_deadlineAtMs ow,
             tw_eventCount = otw_effectiveEventCount ow, tw_firstCursor = se_cursor (hd events),
             tw_lastCursor = se_cursor (last events), tw_events = events, tw_contextOnly = contextOnly',
             tw_inputHash = inputHash'\<rparr>)"

subsection \<open>The collector's primitives\<close>

definition tc_requireSnapshot :: "TimelineCollectorSnapshotV2 tc_op" where
  "tc_requireSnapshot s =
     (case tc_snapshot s of None \<Rightarrow> (Inl TimelineRecoverFirst, s) | Some snapshot \<Rightarrow> (Inr snapshot, s))"

definition tc_readClock :: "int tc_op" where
  "tc_readClock s = (Inr (tc_clock s (tc_ticks s)), s\<lparr>tc_ticks := Suc (tc_ticks s)\<rparr>)"

definition tc_awaitStore :: "'a timeline_op \<Rightarrow> 'a tc_op" where
  "tc_awaitStore m s = (case m (tc_repository s) of
     (Inl e, r) \<Rightarrow> (Inl (TimelineStoreFailed e), s\<lparr>tc_repository := r\<rparr>)
   | (Inr x, r) \<Rightarrow> (Inr x, s\<lparr>tc_repository := r\<rparr>))"

definition tc_cancelTimer :: "unit tc_op" where
  "tc_cancelTimer = modifyS (\<lambda>s. s\<lparr>tc_timer := None\<rparr>)"

definition tc_setState :: "TimelineCollectorState \<Rightarrow> unit tc_op" where
  "tc_setState st = modifyS (\<lambda>s. s\<lparr>tc_state := st\<rparr>)"

definition tc_setSnapshot :: "TimelineCollectorSnapshotV2 \<Rightarrow> unit tc_op" where
  "tc_setSnapshot sn = modifyS (\<lambda>s. s\<lparr>tc_snapshot := Some sn\<rparr>)"

definition tc_armDeadline :: "int \<Rightarrow> unit tc_op" where
  "tc_armDeadline deadlineAtMs =
     andThen tc_cancelTimer (\<lambda>_. andThen getS (\<lambda>s.
       if tc_disposed s then ret ()
       else andThen tc_readClock (\<lambda>now.
         modifyS (\<lambda>s. s\<lparr>tc_timer := Some (deadlineAtMs, max 0 (deadlineAtMs - now))\<rparr>))))"

definition tc_save :: "TimelineCollectorSnapshotV2 \<Rightarrow> TimelineCollectorSnapshotV2 tc_op" where
  "tc_save candidate =
     andThen tc_requireSnapshot (\<lambda>current.
     andThen tc_readClock (\<lambda>now.
     andThen (tc_awaitStore (saveCollectorV2
       (candidate\<lparr>tcs_state := (if tcs_openWindow candidate \<noteq> None then ACTIVE_COLLECTING else ACTIVE_EMPTY),
          tcs_revision := tcs_revision current + 1, tcs_updatedAtMs := now\<rparr>)
       (Some (tcs_revision current)))) (\<lambda>saved.
     andThen (tc_setSnapshot saved) (\<lambda>_.
     andThen (tc_setState (if tcs_openWindow saved \<noteq> None then ACTIVE_COLLECTING else ACTIVE_EMPTY)) (\<lambda>_.
     ret saved)))))"

definition tc_sealCandidate ::
  "TimelineCollectorConfig \<Rightarrow> TimelineCollectorSnapshotV2 \<Rightarrow> ReflectionTriggerReason \<Rightarrow> int \<Rightarrow>
   ActiveGoalContext option \<Rightarrow> TimelineWindowV2 tc_op" where
  "tc_sealCandidate cfg candidate reason endedAtMs nextGoal =
     (case tcs_openWindow candidate of
        None \<Rightarrow> throw CannotSealEmptyWindow
      | Some ow \<Rightarrow>
          if otw_effectiveEventCount ow < 1 then throw CannotSealEmptyWindow
          else
            andThen tc_cancelTimer (\<lambda>_.
            andThen (tc_setState SEALED) (\<lambda>_.
            andThen (liftE (buildTimelineWindow cfg ow reason endedAtMs (tcs_contextCandidates candidate))) (\<lambda>window.
            andThen tc_requireSnapshot (\<lambda>current.
            andThen tc_readClock (\<lambda>now.
            andThen (tc_awaitStore (sealWindowV2 window
              (candidate\<lparr>tcs_state := ACTIVE_EMPTY, tcs_activeGoal := nextGoal, tcs_openWindow := None,
                 tcs_contextCandidates :=
                   slice_last TIMELINE_CONTEXT_EVENT_LIMIT (filter is_effective (tw_events window)),
                 tcs_revision := tcs_revision current + 1, tcs_updatedAtMs := now\<rparr>)
              (tcs_revision current))) (\<lambda>sealed.
            andThen (tc_setSnapshot (sr_snapshot sealed)) (\<lambda>_.
            andThen (tc_setState ACTIVE_EMPTY) (\<lambda>_.
            ret (sr_window sealed))))))))))"

definition tc_seal :: "TimelineCollectorConfig \<Rightarrow> ReflectionTriggerReason \<Rightarrow> int \<Rightarrow> TimelineWindowV2 tc_op" where
  "tc_seal cfg reason endedAtMs =
     andThen tc_requireSnapshot (\<lambda>snapshot.
       tc_sealCandidate cfg snapshot reason endedAtMs (tcs_activeGoal snapshot))"

subsection \<open>Boundaries\<close>

text \<open>
  \<open>goalPayload\<close>: the contract admits only null or a whole goal object here; the fields of such an
  object are read.
\<close>

definition goal_of_entries :: "(string \<times> json) list \<Rightarrow> ActiveGoalContext" where
  "goal_of_entries es =
     \<lparr>goalId = (case json_field es ''goalId'' of JStr s \<Rightarrow> s | _ \<Rightarrow> []),
      planId = (case json_field es ''planId'' of JStr s \<Rightarrow> Some s | _ \<Rightarrow> None),
      goal_version = (case json_field es ''version'' of JNum n \<Rightarrow> n | _ \<Rightarrow> 0),
      goal_text = (case json_field es ''text'' of JStr s \<Rightarrow> s | _ \<Rightarrow> []),
      activatedAtMs = (case json_field es ''activatedAtMs'' of JNum n \<Rightarrow> n | _ \<Rightarrow> 0)\<rparr>"

definition goalPayload :: "SemanticEventV2 \<Rightarrow> string \<Rightarrow> ActiveGoalContext option" where
  "goalPayload event field = (case payload_value event field of JObj es \<Rightarrow> Some (goal_of_entries es) | _ \<Rightarrow> None)"

text \<open>The candidate snapshot that takes a boundary event in.\<close>

definition with_boundary_event ::
  "TimelineCollectorSnapshotV2 \<Rightarrow> SemanticEventV2 \<Rightarrow> TimelineCollectorSnapshotV2" where
  "with_boundary_event snapshot event =
     snapshot\<lparr>tcs_openWindow := map_option (append_uncounted event) (tcs_openWindow snapshot),
       tcs_recentEventIds := addRecent snapshot (se_eventId event),
       tcs_materializedCursor := Some (se_cursor event)\<rparr>"

definition tc_handleGoalBoundary ::
  "TimelineCollectorConfig \<Rightarrow> SemanticEventV2 \<Rightarrow> TimelineWindowV2 option tc_op" where
  "tc_handleGoalBoundary cfg event =
     (if se_kind event \<noteq> GoalChanged then throw ExpectedGoalChanged
      else andThen tc_requireSnapshot (\<lambda>snapshot.
        if map_of (se_payload event) ''previous'' = None \<or> map_of (se_payload event) ''next'' = None
        then throw (TimelineGoalContentUnavailable (se_eventId event))
        else
          let previous = goalPayload event ''previous'';
              nextGoal = goalPayload event ''next'';
              activeVersion = map_option goal_version (tcs_activeGoal snapshot)
          in if se_goalVersion event \<noteq> activeVersion \<or> map_option goal_version previous \<noteq> activeVersion
             then throw (TimelineGoalVersionMismatch (map_option goal_version previous) activeVersion)
             else
               let candidate = (with_boundary_event snapshot event)\<lparr>tcs_activeGoal := nextGoal\<rparr>
               in case tcs_openWindow snapshot of
                    None \<Rightarrow> andThen (tc_save candidate) (\<lambda>_. ret None)
                  | Some ow \<Rightarrow>
                      andThen (tc_sealCandidate cfg candidate goal_boundary
                        (max (se_occurredAtMs event) (latestEventAt ow)) nextGoal) (\<lambda>w. ret (Some w))))"

definition tc_handlePresenceBoundary ::
  "TimelineCollectorConfig \<Rightarrow> SemanticEventV2 \<Rightarrow> TimelineWindowV2 option tc_op" where
  "tc_handlePresenceBoundary cfg event =
     andThen tc_requireSnapshot (\<lambda>snapshot.
       let candidate = with_boundary_event snapshot event in
       case tcs_openWindow snapshot of
         None \<Rightarrow> andThen (tc_save candidate) (\<lambda>_. ret None)
       | Some ow \<Rightarrow>
           andThen (tc_sealCandidate cfg candidate presence_boundary
             (max (se_observedAtMs event) (latestEventAt ow)) (tcs_activeGoal candidate)) (\<lambda>w. ret (Some w)))"

definition tc_resetForAuthorizationBoundary :: "string option \<Rightarrow> string option \<Rightarrow> unit tc_op" where
  "tc_resetForAuthorizationBoundary materializedCursor' event_id =
     andThen tc_cancelTimer (\<lambda>_.
     andThen tc_requireSnapshot (\<lambda>snapshot.
     andThen (tc_save (snapshot\<lparr>tcs_state := ACTIVE_EMPTY, tcs_openWindow := None, tcs_contextCandidates := [],
       tcs_recentEventIds := (case event_id of None \<Rightarrow> tcs_recentEventIds snapshot | Some i \<Rightarrow> addRecent snapshot i),
       tcs_materializedCursor := (case materializedCursor' of None \<Rightarrow> tcs_materializedCursor snapshot
         | Some c \<Rightarrow> Some c)\<rparr>)) (\<lambda>_.
     tc_setState ACTIVE_EMPTY)))"

text \<open>Both branches of \<open>handleAuthorizationBoundary\<close>, revocation and any other transition, reset.\<close>

definition tc_handleAuthorizationBoundary :: "SemanticEventV2 \<Rightarrow> unit tc_op" where
  "tc_handleAuthorizationBoundary event =
     (if payload_value event ''transition'' = JStr ''revoked'' \<or> payload_value event ''transition'' = JStr ''mixed''
      then tc_resetForAuthorizationBoundary (Some (se_cursor event)) (Some (se_eventId event))
      else tc_resetForAuthorizationBoundary (Some (se_cursor event)) (Some (se_eventId event)))"

subsection \<open>Ingestion\<close>

definition tc_ingestEffective ::
  "TimelineCollectorConfig \<Rightarrow> TimelineCollectorSnapshotV2 \<Rightarrow> SemanticEventV2 \<Rightarrow> TimelineWindowV2 option tc_op" where
  "tc_ingestEffective cfg snapshot event =
     (let ow = (case tcs_openWindow snapshot of
                  Some ow \<Rightarrow> appendEffective ow event
                | None \<Rightarrow> startWindow event (tcs_activeGoal snapshot) (tcc_maxWaitMs cfg));
          candidate = snapshot\<lparr>tcs_state := ACTIVE_COLLECTING, tcs_openWindow := Some ow,
            tcs_recentEventIds := addRecent snapshot (se_eventId event),
            tcs_materializedCursor := Some (se_cursor event)\<rparr> in
      andThen (tc_setState ACTIVE_COLLECTING) (\<lambda>_.
      if tcc_threshold cfg \<le> otw_effectiveEventCount ow
      then if tcc_onCountReady cfg
           then andThen tc_cancelTimer (\<lambda>_.
                andThen (tc_save candidate) (\<lambda>_.
                andThen (modifyS (\<lambda>s. s\<lparr>tc_countReadyCalls := tc_countReadyCalls s @ [se_occurredAtMs event]\<rparr>)) (\<lambda>_.
                ret None)))
           else andThen (tc_sealCandidate cfg candidate event_count (se_occurredAtMs event) (tcs_activeGoal candidate))
                  (\<lambda>w. ret (Some w))
      else andThen (tc_save candidate) (\<lambda>_.
           andThen getS (\<lambda>s.
           andThen (if tc_deadlinesDeferred s then ret () else tc_armDeadline (otw_deadlineAtMs ow)) (\<lambda>_.
           ret None)))))"

definition tc_ingestUncounted :: "TimelineCollectorSnapshotV2 \<Rightarrow> SemanticEventV2 \<Rightarrow> TimelineWindowV2 option tc_op" where
  "tc_ingestUncounted snapshot event =
     andThen (tc_save (with_boundary_event snapshot event)) (\<lambda>_. ret None)"

text \<open>The part of \<open>ingestSerialized\<close> after the checks that may seal the window it found first.\<close>

definition tc_ingestCurrent ::
  "TimelineCollectorConfig \<Rightarrow> TimelineCollectorSnapshotV2 \<Rightarrow> SemanticEventV2 \<Rightarrow> TimelineWindowV2 option tc_op" where
  "tc_ingestCurrent cfg snapshot event =
     (if se_kind event = GoalChanged then tc_handleGoalBoundary cfg event
      else if se_goalVersion event \<noteq> map_option goal_version (tcs_activeGoal snapshot)
      then throw (TimelineGoalVersionMismatch (se_goalVersion event) (map_option goal_version (tcs_activeGoal snapshot)))
      else if se_kind event = PresenceChanged then tc_handlePresenceBoundary cfg event
      else if \<not> is_effective event then tc_ingestUncounted snapshot event
      else tc_ingestEffective cfg snapshot event)"

text \<open>Which window has to be sealed before the event is taken in, and when it ended.\<close>

definition seal_first ::
  "TimelineCollectorConfig \<Rightarrow> OpenTimelineWindowV2 option \<Rightarrow> SemanticEventV2 \<Rightarrow>
   timeline_collector_error + (ReflectionTriggerReason \<times> int) option" where
  "seal_first cfg openAtEntry event =
     (case openAtEntry of
        None \<Rightarrow> Inr None
      | Some ow \<Rightarrow>
          bindE (if tcc_threshold cfg \<le> otw_effectiveEventCount ow
                 then bindE (thresholdReachedAt ow) (\<lambda>reachedAt.
                        Inr (if se_occurredAtMs event = reachedAt \<and>
                               (se_kind event = GoalChanged \<or> se_kind event = PresenceChanged)
                             then None else Some (event_count, reachedAt)))
                 else Inr None) (\<lambda>counted.
            Inr (case counted of
                   Some x \<Rightarrow> Some x
                 | None \<Rightarrow> if otw_deadlineAtMs ow < se_occurredAtMs event then Some (max_wait, otw_deadlineAtMs ow)
                           else None)))"

text \<open>
  \<open>ingestSerialized\<close> calls itself after it has sealed a window; the first argument bounds the
  number of activations, and running out of it is an error of its own.
\<close>

fun tc_ingestSerialized ::
  "nat \<Rightarrow> TimelineCollectorConfig \<Rightarrow> SemanticEventV2 \<Rightarrow> TimelineWindowV2 option tc_op" where
  "tc_ingestSerialized 0 cfg event = throw TimelineCallDepthExceeded"
| "tc_ingestSerialized (Suc n) cfg event =
     andThen tc_requireSnapshot (\<lambda>snapshot.
       if se_eventId event \<in> set (tcs_recentEventIds snapshot) then ret None
       else if se_kind event = AuthorizationChangedV2
       then andThen (tc_handleAuthorizationBoundary event) (\<lambda>_. ret None)
       else andThen (liftE (seal_first cfg (tcs_openWindow snapshot) event)) (\<lambda>due.
         case due of
           Some (reason, endedAtMs) \<Rightarrow>
             andThen (tc_seal cfg reason endedAtMs) (\<lambda>sealed.
             andThen (tc_ingestSerialized n cfg event) (\<lambda>_. ret (Some sealed)))
         | None \<Rightarrow> tc_ingestCurrent cfg snapshot event))"

definition tc_ingest :: "nat \<Rightarrow> TimelineCollectorConfig \<Rightarrow> SemanticEventV2 \<Rightarrow> TimelineWindowV2 option tc_op" where
  "tc_ingest depth cfg event = tc_ingestSerialized depth cfg event"

subsection \<open>Recovery, deadlines and revocation\<close>

definition tc_assertIdentity :: "TimelineCollectorConfig \<Rightarrow> TimelineCollectorSnapshotV2 \<Rightarrow> timeline_collector_error + unit" where
  "tc_assertIdentity cfg sn =
     ensure (tcs_collectorId sn = tcc_collectorId cfg \<and> tcs_deviceId sn = tcc_deviceId cfg \<and>
       tcs_sessionId sn = tcc_sessionId cfg) TimelineIdentityMismatch"

definition tc_assertSnapshot :: "TimelineCollectorSnapshotV2 \<Rightarrow> timeline_collector_error + unit" where
  "tc_assertSnapshot sn =
     (case tcs_openWindow sn of
        None \<Rightarrow> Inr ()
      | Some ow \<Rightarrow>
          if otw_effectiveEventCount ow < 1 \<or>
             otw_effectiveEventCount ow \<noteq> length (filter is_effective (otw_events ow))
          then Inl TimelineSnapshotInvalid else Inr ())"

definition tc_initialSnapshot :: "TimelineCollectorConfig \<Rightarrow> int \<Rightarrow> TimelineCollectorSnapshotV2" where
  "tc_initialSnapshot cfg now =
     \<lparr>tcs_collectorId = tcc_collectorId cfg, tcs_deviceId = tcc_deviceId cfg, tcs_sessionId = tcc_sessionId cfg,
      tcs_state = ACTIVE_EMPTY, tcs_activeGoal = tcc_initialGoal cfg, tcs_openWindow = None,
      tcs_contextCandidates = [], tcs_recentEventIds = [], tcs_materializedCursor = None, tcs_revision = 0,
      tcs_updatedAtMs = now\<rparr>"

text \<open>What is due of the open window: the seal at its threshold or its deadline, or a new timer.\<close>

definition tc_settleOpen :: "TimelineCollectorConfig \<Rightarrow> bool \<Rightarrow> OpenTimelineWindowV2 \<Rightarrow> TimelineWindowV2 option tc_op" where
  "tc_settleOpen cfg arm ow =
     (if tcc_threshold cfg \<le> otw_effectiveEventCount ow
      then andThen (liftE (thresholdReachedAt ow)) (\<lambda>t.
           andThen (tc_seal cfg event_count t) (\<lambda>w. ret (Some w)))
      else andThen tc_readClock (\<lambda>now.
        if otw_deadlineAtMs ow \<le> now
        then andThen (tc_seal cfg max_wait (otw_deadlineAtMs ow)) (\<lambda>w. ret (Some w))
        else if arm then andThen (tc_armDeadline (otw_deadlineAtMs ow)) (\<lambda>_. ret None)
        else ret None))"

definition tc_recover :: "TimelineCollectorConfig \<Rightarrow> bool \<Rightarrow> unit tc_op" where
  "tc_recover cfg deferDeadline =
     andThen tc_cancelTimer (\<lambda>_.
     andThen (tc_setState RECOVERING) (\<lambda>_.
     andThen (modifyS (\<lambda>s. s\<lparr>tc_deadlinesDeferred := deferDeadline\<rparr>)) (\<lambda>_.
     andThen (tc_awaitStore (loadCollectorV2 (tcc_collectorId cfg))) (\<lambda>recovered.
     andThen (case recovered of
                Some sn \<Rightarrow>
                  andThen (liftE (tc_assertIdentity cfg sn)) (\<lambda>_.
                  andThen (liftE (tc_assertSnapshot sn)) (\<lambda>_.
                  andThen (tc_setSnapshot sn) (\<lambda>_. ret sn)))
              | None \<Rightarrow>
                  andThen tc_readClock (\<lambda>now.
                  andThen (tc_awaitStore (saveCollectorV2 (tc_initialSnapshot cfg now) None)) (\<lambda>saved.
                  andThen (tc_setSnapshot saved) (\<lambda>_. ret saved)))) (\<lambda>sn.
     case tcs_openWindow sn of
       None \<Rightarrow> tc_setState ACTIVE_EMPTY
     | Some ow \<Rightarrow>
         andThen (tc_setState ACTIVE_COLLECTING) (\<lambda>_.
         if deferDeadline then ret ()
         else andThen (tc_settleOpen cfg True ow) (\<lambda>_. ret ())))))))"

definition tc_resumeDeadlines :: "TimelineCollectorConfig \<Rightarrow> TimelineWindowV2 option tc_op" where
  "tc_resumeDeadlines cfg =
     andThen (modifyS (\<lambda>s. s\<lparr>tc_deadlinesDeferred := False\<rparr>)) (\<lambda>_.
     andThen tc_requireSnapshot (\<lambda>sn.
       case tcs_openWindow sn of None \<Rightarrow> ret None | Some ow \<Rightarrow> tc_settleOpen cfg True ow))"

definition tc_flushCountDue :: "TimelineCollectorConfig \<Rightarrow> TimelineWindowV2 option tc_op" where
  "tc_flushCountDue cfg =
     andThen tc_requireSnapshot (\<lambda>sn.
       case tcs_openWindow sn of
         None \<Rightarrow> ret None
       | Some ow \<Rightarrow>
           if tcc_threshold cfg \<le> otw_effectiveEventCount ow
           then andThen (liftE (thresholdReachedAt ow)) (\<lambda>t.
                andThen (tc_seal cfg event_count t) (\<lambda>w. ret (Some w)))
           else ret None)"

definition tc_flushDue :: "TimelineCollectorConfig \<Rightarrow> TimelineWindowV2 option tc_op" where
  "tc_flushDue cfg =
     andThen tc_requireSnapshot (\<lambda>sn.
       case tcs_openWindow sn of None \<Rightarrow> ret None | Some ow \<Rightarrow> tc_settleOpen cfg False ow)"

definition tc_discardForAuthorizationRevocation :: "string option \<Rightarrow> unit tc_op" where
  "tc_discardForAuthorizationRevocation materializedCursor' =
     tc_resetForAuthorizationBoundary materializedCursor' None"

definition tc_fireTimer :: "TimelineCollectorConfig \<Rightarrow> unit tc_op" where
  "tc_fireTimer cfg =
     andThen getS (\<lambda>s.
       case tc_timer s of
         None \<Rightarrow> ret ()
       | Some (deadlineAtMs, _) \<Rightarrow>
           andThen tc_cancelTimer (\<lambda>_.
             if tcc_onDeadlineReady cfg
             then modifyS (\<lambda>s. s\<lparr>tc_deadlineReadyCalls := tc_deadlineReadyCalls s @ [deadlineAtMs]\<rparr>)
             else andThen (tc_flushDue cfg) (\<lambda>_. ret ())))"

definition tc_dispose :: "unit tc_op" where
  "tc_dispose = modifyS (\<lambda>s. s\<lparr>tc_disposed := True, tc_timer := None, tc_deadlinesDeferred := False\<rparr>)"

end
