(* ===== verification/TimelineContract.thy ===== *)
theory TimelineContract
  imports TimelineCollector
begin

text \<open>
  The contract of semantic events, \<open>src/agent/timeline/contract.ts\<close>: the guard that decides
  which JSON values the rest of the timeline may read as semantic events. It checks the shape of
  the event, the class it is counted in, the payload of its kind, and that no field of the
  payload, at any depth, is one that could carry raw input or secrets.

  The numbers of a JSON value are whole here, so the finite-number checks of the two pointer
  measurements are checks of their bounds.
\<close>

definition MAX_ACTIVE_GOAL_TEXT_LENGTH :: int where "MAX_ACTIVE_GOAL_TEXT_LENGTH = 1000"
definition MAX_PAYLOAD_BYTES :: int where "MAX_PAYLOAD_BYTES = 64 * 1024"
definition MAX_PAYLOAD_DEPTH :: nat where "MAX_PAYLOAD_DEPTH = 8"
definition MAX_ARRAY_ITEMS :: int where "MAX_ARRAY_ITEMS = 10000"
definition MAX_OBJECT_KEYS :: int where "MAX_OBJECT_KEYS = 1024"
definition MAX_STRING_LENGTH :: int where "MAX_STRING_LENGTH = 16384"

definition FORBIDDEN_FIELDS :: "string list" where
  "FORBIDDEN_FIELDS = [''key'', ''key_name'', ''keycode'', ''key_code'', ''raw_key'', ''password'', ''passcode'',
     ''otp'', ''clipboard'', ''absolute_x'', ''absolute_y'', ''screen_x'', ''screen_y'', ''mouse_x'', ''mouse_y'']"

subsection \<open>Names of the enumerations\<close>

definition SEMANTIC_EVENT_KINDS :: "SemanticEventKind list" where
  "SEMANTIC_EVENT_KINDS = [ApplicationForegroundChanged, ApplicationVisibleContentChanged,
     ApplicationTextValueChanged, BrowserVisiblePageChanged, UiFocusChanged, UiControlActivated,
     InputActivityBucket, PresenceChanged, GoalChanged, AuthorizationChangedV2,
     ApplicationProcessObservedBatch, CoverageGap]"

definition COUNT_CLASSES :: "SemanticCountClass list" where
  "COUNT_CLASSES = [CountEffective, CountBoundary, CountContext, CountIgnored]"

definition COVERAGE_LEVELS :: "CoverageLevel list" where
  "COVERAGE_LEVELS = [CoverContent, CoverMetadata, CoverRedacted, CoverDenied, CoverUnavailable]"

definition RELIABILITIES :: "EvidenceReliability list" where
  "RELIABILITIES = [ReliabilityHigh, ReliabilityMedium, ReliabilityLow]"

definition CONTENT_STATES :: "SemanticContentState list" where
  "CONTENT_STATES = [ContentAvailable, ContentRedacted, ContentExpired, ContentUnavailable]"

text \<open>The member of an enumeration a JSON value names, if any.\<close>

definition enum_of :: "('a \<Rightarrow> string) \<Rightarrow> 'a list \<Rightarrow> json \<Rightarrow> 'a option" where
  "enum_of name members value = (case value of JStr s \<Rightarrow> find (\<lambda>m. name m = s) members | _ \<Rightarrow> None)"

fun expectedCountClass :: "SemanticEventKind \<Rightarrow> SemanticCountClass" where
  "expectedCountClass PresenceChanged = CountBoundary"
| "expectedCountClass GoalChanged = CountBoundary"
| "expectedCountClass AuthorizationChangedV2 = CountBoundary"
| "expectedCountClass ApplicationProcessObservedBatch = CountIgnored"
| "expectedCountClass CoverageGap = CountIgnored"
| "expectedCountClass ApplicationForegroundChanged = CountEffective"
| "expectedCountClass ApplicationVisibleContentChanged = CountEffective"
| "expectedCountClass ApplicationTextValueChanged = CountEffective"
| "expectedCountClass BrowserVisiblePageChanged = CountEffective"
| "expectedCountClass UiFocusChanged = CountEffective"
| "expectedCountClass UiControlActivated = CountEffective"
| "expectedCountClass InputActivityBucket = CountEffective"

subsection \<open>Values\<close>

definition no_nul :: "string \<Rightarrow> bool" where
  "no_nul s \<longleftrightarrow> (\<forall>c \<in> set s. (of_char c :: nat) \<noteq> 0)"

fun isRecordV2 :: "json \<Rightarrow> bool" where
  "isRecordV2 (JObj es) = True"
| "isRecordV2 _ = False"

definition hasExactKeys :: "(string \<times> json) list \<Rightarrow> string list \<Rightarrow> bool" where
  "hasExactKeys value keys \<longleftrightarrow> length value = length keys \<and> (\<forall>key \<in> set keys. key \<in> set (map fst value))"

definition hasRequiredAndOnlyKnownKeys :: "(string \<times> json) list \<Rightarrow> string list \<Rightarrow> string list \<Rightarrow> bool" where
  "hasRequiredAndOnlyKnownKeys value required optional \<longleftrightarrow>
     (\<forall>key \<in> set required. key \<in> set (map fst value)) \<and>
     (\<forall>key \<in> set (map fst value). key \<in> set (required @ optional))"

fun isBoundedIdentifier :: "json \<Rightarrow> int \<Rightarrow> bool" where
  "isBoundedIdentifier (JStr s) maximum = (1 \<le> length s \<and> int (length s) \<le> maximum \<and> no_nul s)"
| "isBoundedIdentifier _ maximum = False"

fun isNonNegativeSafeInteger :: "json \<Rightarrow> bool" where
  "isNonNegativeSafeInteger (JNum n) = (isSafeInteger n \<and> 0 \<le> n)"
| "isNonNegativeSafeInteger _ = False"

definition lower_hex :: "char \<Rightarrow> bool" where
  "lower_hex c \<longleftrightarrow> (let n = (of_char c :: nat) in (48 \<le> n \<and> n \<le> 57) \<or> (97 \<le> n \<and> n \<le> 102))"

fun isSemanticCursorV2 :: "json \<Rightarrow> bool" where
  "isSemanticCursorV2 (JStr s) =
     (length s = 21 \<and> take 5 s = ''sec2_'' \<and>
      (48 \<le> (of_char (s ! 5) :: nat) \<and> (of_char (s ! 5) :: nat) \<le> 55) \<and> list_all lower_hex (drop 6 s))"
| "isSemanticCursorV2 _ = False"

fun isIdentifierList :: "json \<Rightarrow> nat \<Rightarrow> bool" where
  "isIdentifierList (JArr vs) maximumItems =
     (1 \<le> length vs \<and> length vs \<le> maximumItems \<and> (\<forall>v \<in> set vs. isBoundedIdentifier v 256) \<and> distinct vs)"
| "isIdentifierList _ maximumItems = False"

fun isCoverage :: "json \<Rightarrow> bool" where
  "isCoverage (JArr vs) =
     (1 \<le> length vs \<and> length vs \<le> length COVERAGE_LEVELS \<and>
      (\<forall>v \<in> set vs. enum_of coverage_name COVERAGE_LEVELS v \<noteq> None) \<and> distinct vs)"
| "isCoverage _ = False"

text \<open>Depth, widths and lengths of a payload.\<close>

fun isJsonValue :: "json \<Rightarrow> nat \<Rightarrow> bool" where
  "isJsonValue JUndef depth = False"
| "isJsonValue JNull depth = (depth \<le> MAX_PAYLOAD_DEPTH)"
| "isJsonValue (JBool b) depth = (depth \<le> MAX_PAYLOAD_DEPTH)"
| "isJsonValue (JNum n) depth = (depth \<le> MAX_PAYLOAD_DEPTH)"
| "isJsonValue (JStr s) depth = (depth \<le> MAX_PAYLOAD_DEPTH \<and> int (length s) \<le> MAX_STRING_LENGTH \<and> no_nul s)"
| "isJsonValue (JArr vs) depth =
     (depth \<le> MAX_PAYLOAD_DEPTH \<and> int (length vs) \<le> MAX_ARRAY_ITEMS \<and> (\<forall>v \<in> set vs. isJsonValue v (depth + 1)))"
| "isJsonValue (JObj es) depth =
     (depth \<le> MAX_PAYLOAD_DEPTH \<and> int (length es) \<le> MAX_OBJECT_KEYS \<and>
      (\<forall>e \<in> set es. isJsonValue (snd e) (depth + 1)))"

definition isJsonRecord :: "(string \<times> json) list \<Rightarrow> nat \<Rightarrow> bool" where
  "isJsonRecord es depth \<longleftrightarrow> depth \<le> MAX_PAYLOAD_DEPTH \<and> int (length es) \<le> MAX_OBJECT_KEYS \<and>
     (\<forall>e \<in> set es. isJsonValue (snd e) (depth + 1))"

text \<open>\<open>toSnakeCase\<close>: split before a capital, one underscore for a run of dashes and blanks, lower case.\<close>

definition ascii_upper :: "char \<Rightarrow> bool" where
  "ascii_upper c \<longleftrightarrow> 65 \<le> (of_char c :: nat) \<and> (of_char c :: nat) \<le> 90"

definition lower_or_digit :: "char \<Rightarrow> bool" where
  "lower_or_digit c \<longleftrightarrow> (let n = (of_char c :: nat) in (97 \<le> n \<and> n \<le> 122) \<or> (48 \<le> n \<and> n \<le> 57))"

fun split_capitals :: "string \<Rightarrow> string" where
  "split_capitals (c # d # s) =
     (if lower_or_digit c \<and> ascii_upper d then c # CHR ''_'' # split_capitals (d # s) else c # split_capitals (d # s))"
| "split_capitals s = s"

definition dash_or_space :: "char \<Rightarrow> bool" where
  "dash_or_space c \<longleftrightarrow> c = CHR ''-'' \<or> js_space c"

fun collapse_separators :: "bool \<Rightarrow> string \<Rightarrow> string" where
  "collapse_separators inRun [] = []"
| "collapse_separators inRun (c # s) =
     (if dash_or_space c then (if inRun then [] else ''_'') @ collapse_separators True s
      else c # collapse_separators False s)"

definition toSnakeCase :: "string \<Rightarrow> string" where
  "toSnakeCase value = toLowerCase (collapse_separators False (split_capitals value))"

fun containsForbiddenField :: "json \<Rightarrow> bool" where
  "containsForbiddenField (JArr vs) = (\<exists>v \<in> set vs. containsForbiddenField v)"
| "containsForbiddenField (JObj es) =
     (\<exists>e \<in> set es. toSnakeCase (fst e) \<in> set FORBIDDEN_FIELDS \<or> containsForbiddenField (snd e))"
| "containsForbiddenField _ = False"

subsection \<open>Payloads\<close>

definition isStringField :: "(string \<times> json) list \<Rightarrow> string \<Rightarrow> int \<Rightarrow> bool" where
  "isStringField pl field maximum = isBoundedIdentifier (json_field pl field) maximum"

definition optionalStringField :: "(string \<times> json) list \<Rightarrow> string \<Rightarrow> int \<Rightarrow> bool" where
  "optionalStringField pl field maximum =
     (case json_field pl field of
        JUndef \<Rightarrow> True | JStr s \<Rightarrow> int (length s) \<le> maximum \<and> no_nul s | _ \<Rightarrow> False)"

definition optionalNonNegativeInteger :: "(string \<times> json) list \<Rightarrow> string \<Rightarrow> bool" where
  "optionalNonNegativeInteger pl field \<longleftrightarrow>
     json_field pl field = JUndef \<or> isNonNegativeSafeInteger (json_field pl field)"

definition isNonNegativeIntegerField :: "(string \<times> json) list \<Rightarrow> string \<Rightarrow> bool" where
  "isNonNegativeIntegerField pl field = isNonNegativeSafeInteger (json_field pl field)"

definition isFiniteNumberField :: "(string \<times> json) list \<Rightarrow> string \<Rightarrow> int \<Rightarrow> int \<Rightarrow> bool" where
  "isFiniteNumberField pl field minimum maximum =
     (case json_field pl field of JNum n \<Rightarrow> minimum \<le> n \<and> n \<le> maximum | _ \<Rightarrow> False)"

definition one_of :: "json \<Rightarrow> string list \<Rightarrow> bool" where
  "one_of value names \<longleftrightarrow> value \<in> JStr ` set names"

definition AUTHORIZATION_PERMISSION_NAMES :: "string list" where
  "AUTHORIZATION_PERMISSION_NAMES = [''accessibility'', ''screenRecording'', ''inputMonitoring'', ''automation'']"

definition int_field :: "(string \<times> json) list \<Rightarrow> string \<Rightarrow> int" where
  "int_field pl field = (case json_field pl field of JNum n \<Rightarrow> n | _ \<Rightarrow> 0)"

fun isProcessObservation :: "json \<Rightarrow> bool" where
  "isProcessObservation (JObj value) =
     (hasRequiredAndOnlyKnownKeys value [''processId'', ''appId'', ''appName''] [] \<and>
      isNonNegativeSafeInteger (json_field value ''processId'') \<and> int_field value ''processId'' \<le> 4294967295 \<and>
      isBoundedIdentifier (json_field value ''appId'') 512 \<and> isBoundedIdentifier (json_field value ''appName'') 512)"
| "isProcessObservation _ = False"

fun isAuthorizationPermissions :: "json \<Rightarrow> bool" where
  "isAuthorizationPermissions (JObj value) =
     (hasRequiredAndOnlyKnownKeys value AUTHORIZATION_PERMISSION_NAMES [] \<and>
      (\<forall>permission \<in> set AUTHORIZATION_PERMISSION_NAMES. one_of (json_field value permission)
         [''unknown'', ''granted'', ''denied'', ''not_determined'', ''unsupported'']))"
| "isAuthorizationPermissions _ = False"

fun isChangedPermissionList :: "json \<Rightarrow> bool" where
  "isChangedPermissionList (JArr vs) =
     (1 \<le> length vs \<and> length vs \<le> 4 \<and> distinct vs \<and> (\<forall>v \<in> set vs. one_of v AUTHORIZATION_PERMISSION_NAMES))"
| "isChangedPermissionList _ = False"

fun isGoalOrNull :: "json \<Rightarrow> bool" where
  "isGoalOrNull JNull = True"
| "isGoalOrNull (JObj value) =
     (hasRequiredAndOnlyKnownKeys value [''goalId'', ''planId'', ''version'', ''text'', ''activatedAtMs''] [] \<and>
      isBoundedIdentifier (json_field value ''goalId'') 200 \<and>
      (json_field value ''planId'' = JNull \<or> isBoundedIdentifier (json_field value ''planId'') 200) \<and>
      isNonNegativeSafeInteger (json_field value ''version'') \<and>
      isBoundedIdentifier (json_field value ''text'') MAX_ACTIVE_GOAL_TEXT_LENGTH \<and>
      isNonNegativeSafeInteger (json_field value ''activatedAtMs''))"
| "isGoalOrNull _ = False"

fun json_array :: "json \<Rightarrow> json list option" where
  "json_array (JArr vs) = Some vs"
| "json_array _ = None"

definition isObservationArray :: "json \<Rightarrow> bool" where
  "isObservationArray value = (case json_array value of None \<Rightarrow> False
     | Some vs \<Rightarrow> int (length vs) \<le> MAX_ARRAY_ITEMS \<and> (\<forall>v \<in> set vs. isProcessObservation v))"

fun payloadMatchesKind :: "SemanticEventKind \<Rightarrow> (string \<times> json) list \<Rightarrow> bool" where
  "payloadMatchesKind ApplicationForegroundChanged pl =
     (hasRequiredAndOnlyKnownKeys pl [''appId'', ''appName''] [''opaqueWindowId'', ''windowTitle''] \<and>
      isStringField pl ''appId'' 512 \<and> isStringField pl ''appName'' 512 \<and>
      optionalStringField pl ''opaqueWindowId'' 512 \<and> optionalStringField pl ''windowTitle'' 2048)"
| "payloadMatchesKind ApplicationVisibleContentChanged pl =
     (hasRequiredAndOnlyKnownKeys pl [''appId'', ''appName'', ''contentHash'']
        [''opaqueWindowId'', ''windowTitle'', ''visibleText''] \<and>
      isStringField pl ''appId'' 512 \<and> isStringField pl ''appName'' 512 \<and>
      optionalStringField pl ''opaqueWindowId'' 512 \<and> optionalStringField pl ''windowTitle'' 2048 \<and>
      optionalStringField pl ''visibleText'' 16384 \<and> isStringField pl ''contentHash'' 256)"
| "payloadMatchesKind ApplicationTextValueChanged pl =
     (hasRequiredAndOnlyKnownKeys pl
        [''appId'', ''appName'', ''role'', ''insertedChars'', ''deletedChars'', ''deltaAvailable'', ''inputMethod'']
        [''opaqueWindowId'', ''opaqueControlId'', ''label'', ''addedText'', ''finalValue''] \<and>
      isStringField pl ''appId'' 512 \<and> isStringField pl ''appName'' 512 \<and>
      optionalStringField pl ''opaqueWindowId'' 512 \<and> optionalStringField pl ''opaqueControlId'' 512 \<and>
      isStringField pl ''role'' 256 \<and> optionalStringField pl ''label'' 2048 \<and>
      optionalStringField pl ''addedText'' 16384 \<and> optionalStringField pl ''finalValue'' 16384 \<and>
      isNonNegativeIntegerField pl ''insertedChars'' \<and> isNonNegativeIntegerField pl ''deletedChars'' \<and>
      (json_field pl ''deltaAvailable'' = JBool True \<or>
       (json_field pl ''deltaAvailable'' = JBool False \<and> json_field pl ''insertedChars'' = JNum 0 \<and>
        json_field pl ''deletedChars'' = JNum 0 \<and> json_field pl ''addedText'' = JUndef)) \<and>
      json_field pl ''inputMethod'' = JStr ''unknown'')"
| "payloadMatchesKind BrowserVisiblePageChanged pl =
     (hasRequiredAndOnlyKnownKeys pl [''appId'', ''appName'', ''contentHash'', ''changeKind'']
        [''opaqueWindowId'', ''domain'', ''url'', ''title'', ''visibleText''] \<and>
      isStringField pl ''appId'' 512 \<and> isStringField pl ''appName'' 512 \<and>
      optionalStringField pl ''opaqueWindowId'' 512 \<and> optionalStringField pl ''domain'' 512 \<and>
      optionalStringField pl ''url'' 16384 \<and> optionalStringField pl ''title'' 2048 \<and>
      optionalStringField pl ''visibleText'' 16384 \<and> isStringField pl ''contentHash'' 256 \<and>
      one_of (json_field pl ''changeKind'') [''opened'', ''navigated'', ''content_changed''])"
| "payloadMatchesKind UiFocusChanged pl =
     (hasRequiredAndOnlyKnownKeys pl [''appId'', ''appName'', ''role'']
        [''opaqueWindowId'', ''opaqueControlId'', ''label''] \<and>
      isStringField pl ''appId'' 512 \<and> isStringField pl ''appName'' 512 \<and>
      optionalStringField pl ''opaqueWindowId'' 512 \<and> optionalStringField pl ''opaqueControlId'' 512 \<and>
      isStringField pl ''role'' 256 \<and> optionalStringField pl ''label'' 2048)"
| "payloadMatchesKind UiControlActivated pl =
     (hasRequiredAndOnlyKnownKeys pl [''appId'', ''appName'', ''role'', ''action'']
        [''opaqueWindowId'', ''opaqueControlId'', ''label''] \<and>
      isStringField pl ''appId'' 512 \<and> isStringField pl ''appName'' 512 \<and>
      optionalStringField pl ''opaqueWindowId'' 512 \<and> optionalStringField pl ''opaqueControlId'' 512 \<and>
      isStringField pl ''role'' 256 \<and> isStringField pl ''action'' 256 \<and>
      optionalStringField pl ''label'' 2048)"
| "payloadMatchesKind InputActivityBucket pl =
     (hasRequiredAndOnlyKnownKeys pl
        [''bucketStartedAtMs'', ''bucketEndedAtMs'', ''keyCount'', ''clickCount'', ''scrollDelta'', ''mouseDistance'']
        [''coalescedBucketCount''] \<and>
      isNonNegativeIntegerField pl ''bucketStartedAtMs'' \<and> isNonNegativeIntegerField pl ''bucketEndedAtMs'' \<and>
      (json_field pl ''coalescedBucketCount'' = JUndef \<or>
       (isNonNegativeIntegerField pl ''coalescedBucketCount'' \<and>
        2 \<le> int_field pl ''coalescedBucketCount'' \<and> int_field pl ''coalescedBucketCount'' \<le> 256)) \<and>
      int_field pl ''bucketEndedAtMs'' - int_field pl ''bucketStartedAtMs'' =
        (if json_field pl ''coalescedBucketCount'' = JUndef then 1
         else int_field pl ''coalescedBucketCount'') * 5000 \<and>
      isNonNegativeIntegerField pl ''keyCount'' \<and> isNonNegativeIntegerField pl ''clickCount'' \<and>
      isFiniteNumberField pl ''scrollDelta'' (- (10 ^ 12)) (10 ^ 12) \<and>
      isFiniteNumberField pl ''mouseDistance'' 0 (10 ^ 12))"
| "payloadMatchesKind PresenceChanged pl =
     (hasRequiredAndOnlyKnownKeys pl [''state''] [''idleForMs''] \<and> isStringField pl ''state'' 64 \<and>
      one_of (json_field pl ''state'')
        [''afk_started'', ''afk_ended'', ''locked'', ''unlocked'', ''sleep'', ''wake''] \<and>
      optionalNonNegativeInteger pl ''idleForMs'' \<and>
      (json_field pl ''idleForMs'' = JUndef \<or> one_of (json_field pl ''state'') [''afk_started'', ''afk_ended'']))"
| "payloadMatchesKind GoalChanged pl =
     (pl = [] \<or>
      (hasRequiredAndOnlyKnownKeys pl [''previous'', ''next''] [] \<and>
       isGoalOrNull (json_field pl ''previous'') \<and> isGoalOrNull (json_field pl ''next'')))"
| "payloadMatchesKind AuthorizationChangedV2 pl =
     (hasRequiredAndOnlyKnownKeys pl [''permissions'', ''changedPermissions'', ''transition'', ''reason''] [] \<and>
      isAuthorizationPermissions (json_field pl ''permissions'') \<and>
      isChangedPermissionList (json_field pl ''changedPermissions'') \<and>
      one_of (json_field pl ''transition'') [''baseline'', ''changed'', ''granted'', ''revoked'', ''mixed''] \<and>
      one_of (json_field pl ''reason'') [''startup_snapshot'', ''runtime_change'', ''manual_refresh'',
        ''status_request'', ''heartbeat_check'', ''legacy_status''])"
| "payloadMatchesKind ApplicationProcessObservedBatch pl =
     (hasRequiredAndOnlyKnownKeys pl [''started'', ''exited''] [] \<and>
      isObservationArray (json_field pl ''started'') \<and> isObservationArray (json_field pl ''exited''))"
| "payloadMatchesKind CoverageGap pl = (pl = [])"

subsection \<open>Events\<close>

definition SEMANTIC_EVENT_FIELDS :: "string list" where
  "SEMANTIC_EVENT_FIELDS = [''schemaVersion'', ''eventId'', ''cursor'', ''deviceId'', ''sessionId'', ''kind'',
     ''source'', ''occurredAtMs'', ''observedAtMs'', ''goalVersion'', ''countClass'', ''reliability'', ''coverage'',
     ''contentState'', ''sourceObservationIds'', ''taxonomyVersion'', ''projectorVersion'', ''payload'']"

text \<open>The second condition of the guard: what an authorization event must look like.\<close>

definition authorization_shape :: "(string \<times> json) list \<Rightarrow> bool" where
  "authorization_shape value \<longleftrightarrow>
     json_field value ''source'' = JStr ''workspace.observer-authorization.v2'' \<and>
     json_field value ''reliability'' = JStr ''high'' \<and> json_field value ''contentState'' = JStr ''available'' \<and>
     json_field value ''coverage'' = JArr [JStr ''metadata''] \<and>
     (case json_array (json_field value ''sourceObservationIds'') of None \<Rightarrow> False | Some vs \<Rightarrow> length vs = 1)"

definition event_fields_ok :: "(string \<times> json) list \<Rightarrow> SemanticEventKind \<Rightarrow> bool" where
  "event_fields_ok value kind' \<longleftrightarrow>
     json_field value ''schemaVersion'' = JStr ''semantic-event.v2'' \<and>
     isBoundedIdentifier (json_field value ''eventId'') 256 \<and>
     isSemanticCursorV2 (json_field value ''cursor'') \<and>
     isBoundedIdentifier (json_field value ''deviceId'') 256 \<and>
     isBoundedIdentifier (json_field value ''sessionId'') 256 \<and>
     isBoundedIdentifier (json_field value ''source'') 256 \<and>
     isNonNegativeSafeInteger (json_field value ''occurredAtMs'') \<and>
     isNonNegativeSafeInteger (json_field value ''observedAtMs'') \<and>
     int_field value ''occurredAtMs'' \<le> int_field value ''observedAtMs'' \<and>
     (json_field value ''goalVersion'' = JNull \<or> isNonNegativeSafeInteger (json_field value ''goalVersion'')) \<and>
     enum_of count_class_name COUNT_CLASSES (json_field value ''countClass'') = Some (expectedCountClass kind') \<and>
     enum_of reliability_name RELIABILITIES (json_field value ''reliability'') \<noteq> None \<and>
     isCoverage (json_field value ''coverage'') \<and>
     enum_of content_state_name CONTENT_STATES (json_field value ''contentState'') \<noteq> None \<and>
     isIdentifierList (json_field value ''sourceObservationIds'') 64 \<and>
     isBoundedIdentifier (json_field value ''taxonomyVersion'') 160 \<and>
     isBoundedIdentifier (json_field value ''projectorVersion'') 160"

definition isSemanticEventV2 :: "json \<Rightarrow> bool" where
  "isSemanticEventV2 v =
     (case v of
        JObj value \<Rightarrow>
          hasExactKeys value SEMANTIC_EVENT_FIELDS \<and>
          (case (enum_of kind_name SEMANTIC_EVENT_KINDS (json_field value ''kind''), json_field value ''payload'') of
             (Some kind', JObj pl) \<Rightarrow>
               event_fields_ok value kind' \<and>
               isJsonRecord pl 0 \<and> \<not> containsForbiddenField (JObj pl) \<and>
               (kind' = AuthorizationChangedV2 \<longrightarrow> authorization_shape value) \<and>
               int (utf8_length (stringify (JObj pl))) \<le> MAX_PAYLOAD_BYTES \<and>
               payloadMatchesKind kind' pl
           | _ \<Rightarrow> False)
      | _ \<Rightarrow> False)"

subsection \<open>The typed reading of an accepted value\<close>

text \<open>What code behind the guard reads of the value, as the record \<open>SemanticEventV2\<close>.\<close>

definition text_of :: "json \<Rightarrow> string" where
  "text_of v = (case v of JStr s \<Rightarrow> s | _ \<Rightarrow> [])"

definition semantic_event_of_entries :: "(string \<times> json) list \<Rightarrow> SemanticEventV2" where
  "semantic_event_of_entries value =
     \<lparr>se_eventId = text_of (json_field value ''eventId''), se_cursor = text_of (json_field value ''cursor''),
      se_deviceId = text_of (json_field value ''deviceId''), se_sessionId = text_of (json_field value ''sessionId''),
      se_kind = or_default (enum_of kind_name SEMANTIC_EVENT_KINDS (json_field value ''kind'')) CoverageGap,
      se_source = text_of (json_field value ''source''),
      se_occurredAtMs = int_field value ''occurredAtMs'', se_observedAtMs = int_field value ''observedAtMs'',
      se_goalVersion = (case json_field value ''goalVersion'' of JNum n \<Rightarrow> Some n | _ \<Rightarrow> None),
      se_countClass = or_default (enum_of count_class_name COUNT_CLASSES (json_field value ''countClass'')) CountIgnored,
      se_reliability = or_default (enum_of reliability_name RELIABILITIES (json_field value ''reliability'')) ReliabilityLow,
      se_coverage = map (\<lambda>v. or_default (enum_of coverage_name COVERAGE_LEVELS v) CoverUnavailable)
        (or_default (json_array (json_field value ''coverage'')) []),
      se_contentState = or_default (enum_of content_state_name CONTENT_STATES (json_field value ''contentState''))
        ContentUnavailable,
      se_sourceObservationIds = map text_of (or_default (json_array (json_field value ''sourceObservationIds'')) []),
      se_taxonomyVersion = text_of (json_field value ''taxonomyVersion''),
      se_projectorVersion = text_of (json_field value ''projectorVersion''),
      se_payload = (case json_field value ''payload'' of JObj es \<Rightarrow> es | _ \<Rightarrow> [])\<rparr>"

definition semantic_event_of :: "json \<Rightarrow> SemanticEventV2" where
  "semantic_event_of v = semantic_event_of_entries (case v of JObj value \<Rightarrow> value | _ \<Rightarrow> [])"

lemma enum_of_name: "enum_of name members v = Some m \<Longrightarrow> v = JStr (name m)"
  by (auto simp: enum_of_def find_Some_iff split: json.splits)

lemma isBoundedIdentifier_text: "isBoundedIdentifier v n \<Longrightarrow> JStr (text_of v) = v"
  by (cases v) (auto simp: text_of_def)

lemma isSemanticCursorV2_text: "isSemanticCursorV2 v \<Longrightarrow> JStr (text_of v) = v"
  by (cases v) (auto simp: text_of_def)

lemma isNonNegative_num: "isNonNegativeSafeInteger (json_field value k) \<Longrightarrow> JNum (int_field value k) = json_field value k"
  by (cases "json_field value k") (auto simp: int_field_def)

lemma null_int_goalVersion:
  "v = JNull \<or> isNonNegativeSafeInteger v \<Longrightarrow> null_int (case v of JNum n \<Rightarrow> Some n | _ \<Rightarrow> None) = v"
  by (cases v) auto

lemma isIdentifierList_strings:
  assumes "isIdentifierList v n"
  shows "strings_json (map text_of (or_default (json_array v) [])) = v"
  using assms isBoundedIdentifier_text
  by (cases v) (auto simp: strings_json_def or_default_def intro!: map_idI)

lemma isCoverage_levels:
  assumes "isCoverage v"
  shows "coverage_json (map (\<lambda>x. or_default (enum_of coverage_name COVERAGE_LEVELS x) CoverUnavailable)
    (or_default (json_array v) [])) = v"
proof -
  obtain vs where v: "v = JArr vs" "\<forall>x \<in> set vs. enum_of coverage_name COVERAGE_LEVELS x \<noteq> None"
    using assms by (cases v) auto
  have "JStr (coverage_name (or_default (enum_of coverage_name COVERAGE_LEVELS x) CoverUnavailable)) = x"
    if "x \<in> set vs" for x
    using v(2) that enum_of_name [of coverage_name COVERAGE_LEVELS x] by (auto simp: or_default_def)
  then show ?thesis by (simp add: v(1) coverage_json_def or_default_def comp_def map_idI)
qed

lemma or_default_Some: "or_default (Some x) d = x"
  by (simp add: or_default_def)

lemma enum_of_default:
  "enum_of name members v \<noteq> None \<Longrightarrow> JStr (name (or_default (enum_of name members v) d)) = v"
  using enum_of_name [of name members v] by (auto simp: or_default_def)

lemma entries_by_keys:
  assumes "distinct (map fst es)" and "hasExactKeys es keys" and "distinct keys"
  shows "mset es = mset (map (\<lambda>k. (k, json_field es k)) keys)"
proof -
  have "set keys = set (map fst es)"
    using assms card_subset_eq [of "set (map fst es)" "set keys"]
    by (auto simp: hasExactKeys_def distinct_card simp flip: set_map)
  then have perm: "mset keys = mset (map fst es)"
    using assms(1,3) set_eq_iff_mset_eq_distinct by blast
  have "map (\<lambda>k. (k, json_field es k)) (map fst es) = es"
    using assms(1) by (auto simp: json_field_def intro!: map_idI)
  then show ?thesis using perm by (metis mset_map)
qed

lemma typed_entries:
  assumes "json_field value ''payload'' = JObj pl"
    and "enum_of kind_name SEMANTIC_EVENT_KINDS (json_field value ''kind'') = Some k" and "event_fields_ok value k"
  shows "semantic_event_json (semantic_event_of_entries value) =
    JObj (map (\<lambda>key. (key, json_field value key)) SEMANTIC_EVENT_FIELDS)"
proof -
  have "JStr (count_class_name (expectedCountClass k)) = json_field value ''countClass''"
    using assms(3) enum_of_name unfolding event_fields_ok_def by metis
  with assms enum_of_name [OF assms(2)] show ?thesis
    by (simp add: semantic_event_json_def semantic_event_of_entries_def SEMANTIC_EVENT_FIELDS_def event_fields_ok_def
        isBoundedIdentifier_text [of _ 256] isBoundedIdentifier_text [of _ 160] isSemanticCursorV2_text isNonNegative_num
        null_int_goalVersion isIdentifierList_strings [of _ 64] isCoverage_levels enum_of_default
        or_default_Some)
qed

lemma accepted_parts:
  assumes "isSemanticEventV2 v"
  obtains fs kind' pl where "v = JObj fs" "hasExactKeys fs SEMANTIC_EVENT_FIELDS"
    "enum_of kind_name SEMANTIC_EVENT_KINDS (json_field fs ''kind'') = Some kind'"
    "json_field fs ''payload'' = JObj pl" "event_fields_ok fs kind'" "isJsonRecord pl 0"
    "\<not> containsForbiddenField (JObj pl)" "payloadMatchesKind kind' pl"
proof -
  obtain fs where fs: "v = JObj fs" using assms by (cases v) (simp_all add: isSemanticEventV2_def)
  obtain kind' where k: "enum_of kind_name SEMANTIC_EVENT_KINDS (json_field fs ''kind'') = Some kind'"
    using assms by (auto simp: fs isSemanticEventV2_def split: option.splits)
  obtain pl where "json_field fs ''payload'' = JObj pl"
    using assms by (cases "json_field fs ''payload''") (simp_all add: fs k isSemanticEventV2_def)
  with that [of fs kind' pl] fs k assms show ?thesis
    by (simp add: isSemanticEventV2_def del: containsForbiddenField.simps stringify.simps)
qed

text \<open>C30: the guard of semantic events licenses exactly the typed reading: a JSON value it accepts
  and the typed event read off it have the same canonical JSON, so every field is read as it was
  sent, nothing is dropped, and both are hashed to the same digest.\<close>

theorem accepted_event_roundtrip:
  assumes "isSemanticEventV2 v" and "distinct_keys v"
  shows "canonicalJson (semantic_event_json (semantic_event_of v)) = canonicalJson v"
proof -
  obtain fs k pl where parts: "v = JObj fs" "hasExactKeys fs SEMANTIC_EVENT_FIELDS"
      "enum_of kind_name SEMANTIC_EVENT_KINDS (json_field fs ''kind'') = Some k"
      "json_field fs ''payload'' = JObj pl" "event_fields_ok fs k"
    using accepted_parts [OF assms(1)] by metis
  let ?es = "map (\<lambda>key. (key, json_field fs key)) SEMANTIC_EVENT_FIELDS"
  have "mset fs = mset ?es"
    using entries_by_keys [of fs SEMANTIC_EVENT_FIELDS] assms(2) parts(1,2)
    by (simp add: SEMANTIC_EVENT_FIELDS_def)
  then have "js_sort key_compare fs = js_sort key_compare ?es"
    using js_sort_keys_perm [of fs ?es] assms(2) parts(1) by simp
  then have "toCanonicalValue (JObj fs) = toCanonicalValue (JObj ?es)" by simp
  then show ?thesis using typed_entries [OF parts(4,3,5)] parts(1)
    by (simp add: canonicalJson_def semantic_event_of_def del: toCanonicalValue.simps)
qed

subsection \<open>Forbidden fields\<close>

text \<open>A key that occurs in a value, at any depth.\<close>

inductive has_key :: "json \<Rightarrow> string \<Rightarrow> bool" where
  here: "(k, v) \<in> set es \<Longrightarrow> has_key (JObj es) k"
| in_field: "(k', v) \<in> set es \<Longrightarrow> has_key v k \<Longrightarrow> has_key (JObj es) k"
| in_item: "v \<in> set vs \<Longrightarrow> has_key v k \<Longrightarrow> has_key (JArr vs) k"

inductive_cases has_key_ObjE: "has_key (JObj es) k"
inductive_cases has_key_ArrE: "has_key (JArr vs) k"

lemma containsForbiddenField_iff:
  "containsForbiddenField v \<longleftrightarrow> (\<exists>k. has_key v k \<and> toSnakeCase k \<in> set FORBIDDEN_FIELDS)"
proof (induction v rule: containsForbiddenField.induct)
  case (1 vs)
  then show ?case by (auto intro: in_item elim!: has_key_ArrE)
next
  case (2 es)
  then show ?case by (force intro: here in_field elim!: has_key_ObjE)
qed (auto elim: has_key.cases)

text \<open>
  How the fields of a library are commonly spelled, independently of the guard: the words of the name
  in lower case, in capitals or capitalised, joined by underscores, dashes or blanks, and camel case
  with a small or a capital first letter.
\<close>

fun field_words :: "string \<Rightarrow> string list" where
  "field_words [] = [[]]"
| "field_words (c # s) = (if c = CHR ''_'' then [] # field_words s
     else case field_words s of [] \<Rightarrow> [[c]] | w # ws \<Rightarrow> (c # w) # ws)"

definition capital :: "char \<Rightarrow> char" where
  "capital c = (if lower_or_digit c \<and> 97 \<le> (of_char c :: nat) then char_of ((of_char c :: nat) - 32) else c)"

definition capitalised :: "string \<Rightarrow> string" where
  "capitalised w = (case w of [] \<Rightarrow> [] | c # cs \<Rightarrow> capital c # cs)"

definition spellings :: "string \<Rightarrow> string list" where
  "spellings field =
     (let ws = field_words field;
          styles = [ws, map (map capital) ws, map capitalised ws, hd ws # map capitalised (tl ws)]
      in concat (map (\<lambda>separator. map (js_join separator) styles) [''_'', ''-'', '' '']) @
         [concat (hd ws # map capitalised (tl ws)), concat (map capitalised ws)])"

definition small_letter :: "char \<Rightarrow> bool" where
  "small_letter c \<longleftrightarrow> 97 \<le> (of_char c :: nat) \<and> (of_char c :: nat) \<le> 122"

lemma small_letter_facts:
  assumes "small_letter c"
  shows "lower_or_digit c" "\<not> ascii_upper c" "\<not> dash_or_space c" "lower_char c = c"
proof -
  have "c \<noteq> CHR ''-''" using assms by (auto simp: small_letter_def)
  with assms show "\<not> dash_or_space c" by (simp add: small_letter_def dash_or_space_def js_space_def Let_def)
qed (use assms in \<open>simp_all add: small_letter_def lower_or_digit_def ascii_upper_def lower_char_def Let_def\<close>)

lemma of_capital:
  assumes "small_letter c"
  shows "(of_char (capital c) :: nat) = of_char c - 32"
proof -
  have "(of_char c - 32 :: nat) mod 256 = of_char c - 32" 
    using assms unfolding small_letter_def by (intro mod_less) linarith
  with assms show ?thesis by (simp add: small_letter_def capital_def lower_or_digit_def Let_def)
qed

lemma capital_facts:
  assumes "small_letter c"
  shows "\<not> lower_or_digit (capital c)" "ascii_upper (capital c)" "\<not> dash_or_space (capital c)" "lower_char (capital c) = c"
proof -
  have n: "(of_char (capital c) :: nat) = of_char c - 32" "97 \<le> (of_char c :: nat)" "(of_char c :: nat) \<le> 122"
    using of_capital [OF assms] assms by (simp_all add: small_letter_def)
  have "capital c \<noteq> CHR ''-''" using n by auto
  moreover have "\<not> js_space (capital c)" unfolding js_space_def Let_def n(1) using n(2,3) by linarith
  ultimately show "\<not> dash_or_space (capital c)" by (simp add: dash_or_space_def)
  have "65 \<le> (of_char c - 32 :: nat)" "(of_char c - 32 :: nat) \<le> 90" "(of_char c - 32 :: nat) + 32 = of_char c"
    using n(2,3) by linarith+
  then show "lower_char (capital c) = c" unfolding lower_char_def Let_def n(1) by simp
  show "\<not> lower_or_digit (capital c)" unfolding lower_or_digit_def Let_def n(1) using n(2,3) by linarith
  show "ascii_upper (capital c)" unfolding ascii_upper_def n(1) using n(2,3) by linarith
qed

lemma small_letters: "list_all small_letter ''abcdefghijklmnopqrstuvwxyz''"
  by (simp add: small_letter_def)

lemma separator_facts:
  "\<not> lower_or_digit CHR ''_''" "\<not> ascii_upper CHR ''_''" "\<not> dash_or_space CHR ''_''" "lower_char CHR ''_'' = CHR ''_''"
  "\<not> lower_or_digit CHR ''-''" "\<not> ascii_upper CHR ''-''" "dash_or_space CHR ''-''"
  "\<not> lower_or_digit CHR '' ''" "\<not> ascii_upper CHR '' ''" "dash_or_space CHR '' ''"
  by (simp_all add: lower_or_digit_def ascii_upper_def dash_or_space_def js_space_def lower_char_def Let_def)

lemma spellings_recognised: "list_all (\<lambda>field. list_all (\<lambda>k. toSnakeCase k = field) (spellings field)) FORBIDDEN_FIELDS"
  using small_letters
  by (simp add: FORBIDDEN_FIELDS_def spellings_def Let_def capitalised_def toSnakeCase_def toLowerCase_def
      small_letter_facts capital_facts separator_facts)

text \<open>C31: no accepted event carries raw input or a secret: whatever its kind, no forbidden field is a key of its
  payload, at any depth and in any of the usual spellings: in small letters, capitals or capitalised words
  joined by underscores, dashes or blanks, or in camel case.\<close>

theorem accepted_event_has_no_forbidden_field:
  assumes "isSemanticEventV2 (JObj fs)" and "field \<in> set FORBIDDEN_FIELDS" and "k \<in> set (spellings field)"
  shows "\<not> has_key (json_field fs ''payload'') k"
proof -
  obtain pl where "json_field fs ''payload'' = JObj pl" "\<not> containsForbiddenField (JObj pl)"
    using accepted_parts [OF assms(1)] by (metis json.inject(5))
  moreover have "toSnakeCase k = field" using spellings_recognised assms(2,3) by (auto simp: list_all_iff)
  ultimately show ?thesis using containsForbiddenField_iff [of "JObj pl"] assms(2) by auto
qed

lemma accepted_event_class:
  assumes "isSemanticEventV2 v"
  shows "se_countClass (semantic_event_of v) = expectedCountClass (se_kind (semantic_event_of v)) \<and>
    se_occurredAtMs (semantic_event_of v) \<le> se_observedAtMs (semantic_event_of v)"
proof -
  obtain fs k where "v = JObj fs" "enum_of kind_name SEMANTIC_EVENT_KINDS (json_field fs ''kind'') = Some k"
      "event_fields_ok fs k"
    using accepted_parts [OF assms] by metis
  then show ?thesis
    by (simp add: semantic_event_of_def semantic_event_of_entries_def event_fields_ok_def or_default_def)
qed

end
