(* ===== verification/TimelineRepositoryCorrect.thy ===== *)
theory TimelineRepositoryCorrect
  imports TimelineRepository
begin

text \<open>
  Correctness of the timeline's repository: the invariant that ties jobs, windows, results and
  the outbox together, kept by every operation, and the refinement of the outbox to an abstract
  queue of leases.
\<close>

named_theorems tl_defs \<open>the operations of the timeline's repository\<close>

subsection \<open>What the fields of a job and of an envelope say\<close>

definition job_inv_v2 :: "TimelineJobV2 \<Rightarrow> bool" where
  "job_inv_v2 j \<longleftrightarrow>
     tj_state j \<notin> {RESULT_PERSISTED, COMMITTING} \<and>
     (tj_leaseExpiresAtMs j \<noteq> None \<longleftrightarrow> tj_state j = RUNNING) \<and>
     (tj_state j = RUNNING \<longrightarrow> 0 < tj_attempt j) \<and>
     (tj_attempt j = 0 \<longleftrightarrow> tj_firstAttemptAtMs j = None) \<and>
     (tj_state j \<in> {RETRY_WAIT, TERMINAL_FAILED} \<longrightarrow> tj_failureCode j \<noteq> None) \<and>
     (tj_state j = COMMITTED \<longrightarrow> tj_failureCode j = None \<and> tj_failureMessage j = None)"

definition envelope_inv :: "AgentInputEnvelopeV1 \<Rightarrow> bool" where
  "envelope_inv e \<longleftrightarrow>
     (en_leaseToken e \<noteq> None \<longleftrightarrow> en_state e = LEASED) \<and>
     (en_leaseExpiresAtMs e \<noteq> None \<longleftrightarrow> en_state e = LEASED) \<and>
     (en_ackedAtMs e \<noteq> None \<longleftrightarrow> en_state e = ACKED) \<and>
     (en_attempt e = 0 \<longleftrightarrow> en_state e \<in> {HELD_LOCAL, INPUT_READY})"

lemma newTimelineJob_inv: "job_inv_v2 (newTimelineJob w)"
  by (simp add: job_inv_v2_def newTimelineJob_def)

lemma claimed_job_v2_inv: "job_inv_v2 j \<Longrightarrow> job_inv_v2 (claimed_job_v2 now lease j)"
  by (auto simp: job_inv_v2_def claimed_job_v2_def split: option.splits)

lemma abandoned_job_v2_inv: "job_inv_v2 j \<Longrightarrow> job_inv_v2 (abandoned_job_v2 now j)"
  by (auto simp: job_inv_v2_def abandoned_job_v2_def Let_def)

lemma failed_job_v2_inv: "job_inv_v2 j \<Longrightarrow> tj_state j = RUNNING \<Longrightarrow> job_inv_v2 (failed_job_v2 f j)"
  by (auto simp: job_inv_v2_def failed_job_v2_def)

definition committed_job_v2 :: "int \<Rightarrow> TimelineJobV2 \<Rightarrow> TimelineJobV2" where
  "committed_job_v2 now j = (committing_job_v2 now j)\<lparr>tj_state := COMMITTED, tj_failureCode := None,
     tj_failureMessage := None\<rparr>"

lemma committed_job_v2_inv: "job_inv_v2 j \<Longrightarrow> job_inv_v2 (committed_job_v2 now (persisted_job_v2 now' j))"
  by (auto simp: job_inv_v2_def committed_job_v2_def committing_job_v2_def persisted_job_v2_def)

lemma changed_job_windowId [simp]:
  "tj_windowId (newTimelineJob w) = tw_windowId w"
  "tj_windowId (claimed_job_v2 now lease j) = tj_windowId j"
  "tj_windowId (abandoned_job_v2 now j) = tj_windowId j"
  "tj_windowId (failed_job_v2 f j) = tj_windowId j"
  "tj_windowId (committed_job_v2 now j) = tj_windowId j"
  "tj_windowId (persisted_job_v2 now j) = tj_windowId j"
  by (simp_all add: newTimelineJob_def claimed_job_v2_def abandoned_job_v2_def failed_job_v2_def
      committed_job_v2_def committing_job_v2_def persisted_job_v2_def Let_def)

lemma changed_job_state [simp]:
  "tj_state (newTimelineJob w) = READY"
  "tj_state (claimed_job_v2 now lease j) = RUNNING"
  "tj_state (abandoned_job_v2 now j) = READY"
  "tj_state (failed_job_v2 f j) = (if wf_terminal f then TERMINAL_FAILED else RETRY_WAIT)"
  "tj_state (committed_job_v2 now j) = COMMITTED"
  "tj_state (persisted_job_v2 now j) = RESULT_PERSISTED"
  by (simp_all add: newTimelineJob_def claimed_job_v2_def abandoned_job_v2_def failed_job_v2_def
      committed_job_v2_def persisted_job_v2_def Let_def)

lemma held_envelope_inv: "envelope_inv (held_envelope a)"
  by (simp add: envelope_inv_def held_envelope_def)

lemma ready_envelope_inv: "envelope_inv e \<Longrightarrow> en_state e = HELD_LOCAL \<Longrightarrow> envelope_inv (e\<lparr>en_state := INPUT_READY\<rparr>)"
  by (auto simp: envelope_inv_def)

lemma leased_envelope_inv: "envelope_inv e \<Longrightarrow> en_state e \<noteq> ACKED \<Longrightarrow> envelope_inv (leased_envelope t x e)"
  by (auto simp: envelope_inv_def leased_envelope_def)

lemma acked_envelope_inv: "envelope_inv e \<Longrightarrow> en_state e = LEASED \<Longrightarrow> envelope_inv (acked_envelope now e)"
  by (auto simp: envelope_inv_def acked_envelope_def)

lemma changed_envelope [simp]:
  "en_input (held_envelope a) = a" "en_state (held_envelope a) = HELD_LOCAL"
  "en_input (leased_envelope t x e) = en_input e" "en_state (leased_envelope t x e) = LEASED"
  "en_input (acked_envelope now e) = en_input e" "en_state (acked_envelope now e) = ACKED"
  by (simp_all add: held_envelope_def leased_envelope_def acked_envelope_def)

subsection \<open>The invariant of the repository\<close>

definition keyed_by :: "('v \<Rightarrow> 'k) \<Rightarrow> ('k, 'v) jmap \<Rightarrow> bool" where
  "keyed_by key m \<longleftrightarrow> distinct (jkeys m) \<and> (\<forall>k v. jget m k = Some v \<longrightarrow> key v = k)"

lemma keyed_by_empty [simp]: "keyed_by key []"
  by (simp add: keyed_by_def)

lemma keyed_by_jset: "keyed_by key m \<Longrightarrow> key v = k \<Longrightarrow> keyed_by key (jset k v m)"
  by (auto simp: keyed_by_def)

lemma keyed_by_value: "keyed_by key m \<Longrightarrow> v \<in> set (jvalues m) \<Longrightarrow> jget m (key v) = Some v"
  unfolding keyed_by_def using jvalues_in_iff by metis

lemma keyed_by_get: "keyed_by key m \<Longrightarrow> jget m k = Some v \<Longrightarrow> key v = k"
  by (simp add: keyed_by_def)

definition jobs_wf :: "TimelineRepositoryV2 \<Rightarrow> bool" where
  "jobs_wf r \<longleftrightarrow> keyed_by tw_windowId (tr_windows r) \<and> keyed_by tj_windowId (tr_jobs r) \<and>
     (\<forall>wid. jget (tr_jobs r) wid = None \<longleftrightarrow> jget (tr_windows r) wid = None) \<and>
     (\<forall>wid j. jget (tr_jobs r) wid = Some j \<longrightarrow> job_inv_v2 j)"

definition results_wf :: "TimelineRepositoryV2 \<Rightarrow> bool" where
  "results_wf r \<longleftrightarrow> keyed_by pr_windowId (tr_results r) \<and>
     (\<forall>wid. jget (tr_results r) wid \<noteq> None \<longleftrightarrow>
        map_option tj_state (jget (tr_jobs r) wid) = Some COMMITTED) \<and>
     (\<forall>wid res. jget (tr_results r) wid = Some res \<longrightarrow>
        su_windowId (pr_summary res) = wid \<and> ai_windowId (pr_agentInput res) = wid)"

definition outbox_wf :: "TimelineRepositoryV2 \<Rightarrow> bool" where
  "outbox_wf r \<longleftrightarrow> keyed_by (ai_agentInputId \<circ> en_input) (tr_outbox r) \<and>
     (\<forall>aid e. jget (tr_outbox r) aid = Some e \<longrightarrow> envelope_inv e \<and>
        (\<exists>res. jget (tr_results r) (ai_windowId (en_input e)) = Some res \<and> pr_agentInput res = en_input e)) \<and>
     (\<forall>wid res. jget (tr_results r) wid = Some res \<longrightarrow>
        (\<exists>e. jget (tr_outbox r) (ai_agentInputId (pr_agentInput res)) = Some e \<and>
           en_input e = pr_agentInput res)) \<and>
     (\<forall>aid. jget (tr_ackedLeaseTokenHashes r) aid \<noteq> None \<longleftrightarrow>
        map_option en_state (jget (tr_outbox r) aid) = Some ACKED)"

definition timeline_repo_inv :: "TimelineRepositoryV2 \<Rightarrow> bool" where
  "timeline_repo_inv r \<longleftrightarrow> jobs_wf r \<and> results_wf r \<and> outbox_wf r"

lemma timeline_repo_inv_empty: "timeline_repo_inv empty_timeline_repository"
  by (simp add: timeline_repo_inv_def jobs_wf_def results_wf_def outbox_wf_def empty_timeline_repository_def)

text \<open>Operations that touch one part of the object keep what the other parts say.\<close>

lemma inv_collectors: "timeline_repo_inv (r\<lparr>tr_collectors := cs\<rparr>) = timeline_repo_inv r"
  by (simp add: timeline_repo_inv_def jobs_wf_def results_wf_def outbox_wf_def)

lemma inv_window_exists:
  assumes "timeline_repo_inv r"
  shows "jget (tr_jobs r) wid = None \<longleftrightarrow> jget (tr_windows r) wid = None"
  using assms unfolding timeline_repo_inv_def jobs_wf_def by blast

lemma inv_result_exists:
  assumes "timeline_repo_inv r"
  shows "jget (tr_results r) wid \<noteq> None \<longleftrightarrow> map_option tj_state (jget (tr_jobs r) wid) = Some COMMITTED"
  using assms unfolding timeline_repo_inv_def results_wf_def by blast

lemma inv_put_job:
  assumes "timeline_repo_inv r" and "jget (tr_jobs r) wid = Some j" and "tj_windowId j' = wid"
    and "job_inv_v2 j'" and "tj_state j' = COMMITTED \<longleftrightarrow> tj_state j = COMMITTED"
  shows "timeline_repo_inv (put_job_v2 wid j' r)"
proof -
  have "jget (tr_windows r) wid \<noteq> None" using inv_window_exists [OF assms(1), of wid] assms(2) by simp
  then have "jobs_wf (put_job_v2 wid j' r)"
    using assms unfolding timeline_repo_inv_def jobs_wf_def put_job_v2_def
    by (auto intro: keyed_by_jset)
  moreover have "results_wf (put_job_v2 wid j' r)"
    using assms unfolding timeline_repo_inv_def results_wf_def put_job_v2_def by auto
  moreover have "outbox_wf (put_job_v2 wid j' r)"
    using assms unfolding timeline_repo_inv_def outbox_wf_def put_job_v2_def by simp
  ultimately show ?thesis by (simp add: timeline_repo_inv_def)
qed

lemma inv_job:
  assumes "timeline_repo_inv r" and "jget (tr_jobs r) wid = Some j"
  shows "tj_windowId j = wid" and "job_inv_v2 j"
  using assms unfolding timeline_repo_inv_def jobs_wf_def by (auto dest: keyed_by_get)

lemma inv_job_value:
  assumes "timeline_repo_inv r" and "j \<in> set (jvalues (tr_jobs r))"
  shows "jget (tr_jobs r) (tj_windowId j) = Some j"
  using assms keyed_by_value [of tj_windowId "tr_jobs r" j] unfolding timeline_repo_inv_def jobs_wf_def by simp

lemma inv_envelope_value:
  assumes "timeline_repo_inv r" and "e \<in> set (jvalues (tr_outbox r))"
  shows "jget (tr_outbox r) (ai_agentInputId (en_input e)) = Some e"
  using assms keyed_by_value [of "ai_agentInputId \<circ> en_input" "tr_outbox r" e]
  unfolding timeline_repo_inv_def outbox_wf_def by simp

subsection \<open>Every operation keeps it\<close>

lemma saveCollectorV2_inv: "timeline_repo_inv r \<Longrightarrow> timeline_repo_inv (snd (saveCollectorV2 s n r))"
  by (simp add: saveCollectorV2_def Let_def inv_collectors split: sum.split)

lemma inv_new_window:
  assumes "timeline_repo_inv r" and "jget (tr_windows r) (tw_windowId w) = None"
  shows "timeline_repo_inv (r\<lparr>tr_windows := jset (tw_windowId w) w (tr_windows r),
           tr_jobs := jset (tw_windowId w) (newTimelineJob w) (tr_jobs r)\<rparr>)"
    (is "timeline_repo_inv ?r")
proof -
  have nojob: "jget (tr_jobs r) (tw_windowId w) = None" using inv_window_exists [OF assms(1)] assms(2) by simp
  then have nores: "jget (tr_results r) (tw_windowId w) = None"
    using inv_result_exists [OF assms(1), of "tw_windowId w"] by simp
  have "jobs_wf ?r"
    using assms unfolding timeline_repo_inv_def jobs_wf_def
    by (auto intro: keyed_by_jset newTimelineJob_inv)
  moreover have "results_wf ?r"
    using assms(1) nores nojob unfolding timeline_repo_inv_def results_wf_def by auto
  moreover have "outbox_wf ?r"
    using assms(1) unfolding timeline_repo_inv_def outbox_wf_def by simp
  ultimately show ?thesis by (simp add: timeline_repo_inv_def)
qed

lemma sealWindowV2_inv:
  assumes "timeline_repo_inv r"
  shows "timeline_repo_inv (snd (sealWindowV2 w s n r))"
proof (cases "jget (tr_windows r) (tw_windowId w)")
  case None
  then have "jget (tr_jobs r) (tw_windowId w) = None" using inv_window_exists [OF assms] by simp
  with None assms inv_new_window [OF assms None] show ?thesis
    by (simp add: sealWindowV2_def Let_def inv_collectors split: sum.split)
next
  case (Some ew)
  then show ?thesis using assms
    by (simp add: sealWindowV2_def Let_def split: option.split)
qed

lemma claim_v2_cases:
  assumes "claimNextWindow lc now lease r = (res, r')" and "timeline_repo_inv r"
  obtains (unchanged) "r' = r" and "res = Inr None \<or> (\<exists>e. res = Inl e)"
  | (claimed) j where "jget (tr_jobs r) (tj_windowId j) = Some j" and "isRunnableV2 j now"
      and "tj_state j \<noteq> COMMITTED" and "res = Inr (Some (claimed_job_v2 now lease j))"
      and "r' = put_job_v2 (tj_windowId j) (claimed_job_v2 now lease j) r"
proof (cases "assertPositiveDuration lease")
  case (Inl e)
  then show ?thesis using assms unchanged by (auto simp: claimNextWindow_def)
next
  case (Inr u)
  let ?js = "js_sort (job_compare_v2 lc) (filter (\<lambda>job. isRunnableV2 job now) (jvalues (tr_jobs r)))"
  show ?thesis
  proof (cases ?js)
    case Nil
    then show ?thesis using assms Inr unchanged by (auto simp: claimNextWindow_def)
  next
    case (Cons j js)
    then have "j \<in> set ?js" by simp
    then have j: "j \<in> set (jvalues (tr_jobs r))" "isRunnableV2 j now" by auto
    then have got: "jget (tr_jobs r) (tj_windowId j) = Some j" using inv_job_value assms(2) by blast
    then have "job_inv_v2 j" using inv_job assms(2) by blast
    then have "tj_state j \<noteq> RESULT_PERSISTED \<and> tj_state j \<noteq> COMMITTING" by (auto simp: job_inv_v2_def)
    moreover have "tj_state j \<noteq> COMMITTED" using j(2) by (auto simp: isRunnableV2_def)
    ultimately show ?thesis
      using assms(1) Inr Cons got j(2) claimed [of j] by (auto simp: claimNextWindow_def Let_def)
  qed
qed

lemma claimNextWindow_inv:
  assumes "timeline_repo_inv r"
  shows "timeline_repo_inv (snd (claimNextWindow lc now lease r))"
proof -
  obtain res r' where eq: "claimNextWindow lc now lease r = (res, r')" by fastforce
  from eq assms have "timeline_repo_inv r'"
  proof (cases rule: claim_v2_cases)
    case unchanged
    with assms show ?thesis by simp
  next
    case (claimed j)
    then show ?thesis using inv_put_job [OF assms claimed(1)] claimed_job_v2_inv inv_job [OF assms claimed(1)]
      by auto
  qed
  with eq show ?thesis by simp
qed

lemma jset_twice: "jset k v (jset k u m) = jset k v m"
  by (induction m) auto

lemma finalizeWindowCommit_eq:
  "finalizeWindowCommit wid now r =
     (case jget (tr_jobs r) wid of
        None \<Rightarrow> (Inl (UnknownTimelineJob wid), r)
      | Some j \<Rightarrow>
          if tj_state j = COMMITTED then (Inr j, r)
          else if tj_state j \<noteq> RESULT_PERSISTED \<and> tj_state j \<noteq> COMMITTING
          then (Inl (CannotFinalize wid (tj_state j)), r)
          else (Inr (committed_job_v2 now j), put_job_v2 wid (committed_job_v2 now j) r))"
  by (simp add: finalizeWindowCommit_def requireJobV2_def op_defs Let_def committed_job_v2_def
      put_job_v2_def jset_twice split: option.split)

lemma abandonWindowClaim_inv:
  assumes "timeline_repo_inv r"
  shows "timeline_repo_inv (snd (abandonWindowClaim wid now r))"
proof (cases "jget (tr_jobs r) wid")
  case (Some j)
  with inv_put_job [OF assms Some, of "abandoned_job_v2 now j"] inv_job [OF assms Some] assms
  show ?thesis
    by (auto simp: abandonWindowClaim_def requireJobV2_def op_defs Let_def abandoned_job_v2_inv)
qed (use assms in \<open>simp add: abandonWindowClaim_def requireJobV2_def op_defs\<close>)

lemma recordWindowFailure_inv:
  assumes "timeline_repo_inv r"
  shows "timeline_repo_inv (snd (recordWindowFailure wid f r))"
proof (cases "jget (tr_jobs r) wid")
  case (Some j)
  with inv_put_job [OF assms Some, of "failed_job_v2 f j"] inv_job [OF assms Some] assms
  show ?thesis
    by (auto simp: recordWindowFailure_def requireJobV2_def op_defs Let_def failed_job_v2_inv)
qed (use assms in \<open>simp add: recordWindowFailure_def requireJobV2_def op_defs\<close>)

lemma finalizeWindowCommit_unchanged:
  "timeline_repo_inv r \<Longrightarrow> snd (finalizeWindowCommit wid now r) = r"
  using inv_job [of r wid] by (fastforce simp: finalizeWindowCommit_eq job_inv_v2_def split: option.split)

text \<open>The state a fresh result leaves: the result, its agent input held in the outbox, the job done.\<close>

definition completed :: "PersistTimelineResult \<Rightarrow> TimelineJobV2 \<Rightarrow> TimelineRepositoryV2 \<Rightarrow> TimelineRepositoryV2" where
  "completed result job r =
     put_job_v2 (pr_windowId result) job
       (r\<lparr>tr_results := jset (pr_windowId result) result (tr_results r),
          tr_outbox := jset (ai_agentInputId (pr_agentInput result))
            (held_envelope (pr_agentInput result)) (tr_outbox r)\<rparr>)"

lemma completeWindow_eq:
  "completeWindow result now r =
     (case jget (tr_jobs r) (pr_windowId result) of
        None \<Rightarrow> (Inl (UnknownTimelineJob (pr_windowId result)), r)
      | Some j \<Rightarrow>
          (case jget (tr_results r) (pr_windowId result) of
             Some existing \<Rightarrow>
               if su_timelineId (pr_summary existing) \<noteq> su_timelineId (pr_summary result) \<or>
                  ai_payloadHash (pr_agentInput existing) \<noteq> ai_payloadHash (pr_agentInput result)
               then (Inl (DifferentTimelineResult (pr_windowId result)), r)
               else finalizeWindowCommit (pr_windowId result) now r
           | None \<Rightarrow>
               if tj_state j \<noteq> RUNNING then (Inl (CannotComplete (pr_windowId result) (tj_state j)), r)
               else if su_windowId (pr_summary result) \<noteq> pr_windowId result \<or>
                       ai_windowId (pr_agentInput result) \<noteq> pr_windowId result
               then (Inl TimelineResultMismatch, r)
               else if jget (tr_outbox r) (ai_agentInputId (pr_agentInput result)) \<noteq> None
               then (Inl (AgentInputIdCollision (ai_agentInputId (pr_agentInput result))), r)
               else let job = committed_job_v2 now (persisted_job_v2 now j)
                    in (Inr job, completed result job r)))"
  by (cases "jget (tr_jobs r) (pr_windowId result)"; cases "jget (tr_results r) (pr_windowId result)")
    (auto simp: completeWindow_def requireJobV2_def op_defs Let_def finalizeWindowCommit_eq completed_def
      put_job_v2_def jset_twice)

lemma inv_completed:
  assumes inv: "timeline_repo_inv r" and job: "jget (tr_jobs r) (pr_windowId result) = Some j"
    and "jget (tr_results r) (pr_windowId result) = None"
    and "su_windowId (pr_summary result) = pr_windowId result"
    and "ai_windowId (pr_agentInput result) = pr_windowId result"
    and fresh: "jget (tr_outbox r) (ai_agentInputId (pr_agentInput result)) = None"
  shows "timeline_repo_inv (completed result (committed_job_v2 now (persisted_job_v2 now j)) r)"
    (is "timeline_repo_inv (completed result ?job r)")
proof -
  note parts = inv [unfolded timeline_repo_inv_def]
  have j: "tj_windowId j = pr_windowId result" "job_inv_v2 j" using inv_job [OF inv job] by auto
  have "jget (tr_windows r) (pr_windowId result) \<noteq> None"
    using inv_window_exists [OF inv, of "pr_windowId result"] job by simp
  then have jw: "jobs_wf (completed result ?job r)"
    using parts job j committed_job_v2_inv [OF j(2)]
    unfolding jobs_wf_def completed_def put_job_v2_def by (auto intro: keyed_by_jset)
  have rw: "results_wf (completed result ?job r)"
    using parts assms(3-5) unfolding results_wf_def completed_def put_job_v2_def
    by (auto intro: keyed_by_jset)
  have nohash: "jget (tr_ackedLeaseTokenHashes r) (ai_agentInputId (pr_agentInput result)) = None"
    using parts fresh unfolding outbox_wf_def by (metis option.simps(8) option.distinct(1))
  have other: "ai_windowId (en_input e) \<noteq> pr_windowId result" if "jget (tr_outbox r) aid = Some e" for aid e
    using that parts assms(3) unfolding outbox_wf_def by (metis option.distinct(1))
  have outer: "\<exists>e. jget (tr_outbox r) (ai_agentInputId (pr_agentInput res)) = Some e \<and> en_input e = pr_agentInput res"
    if "jget (tr_results r) wid = Some res" for wid res
    using that parts unfolding outbox_wf_def by blast
  have ow: "outbox_wf (completed result ?job r)"
    unfolding outbox_wf_def completed_def put_job_v2_def
  proof (intro conjI allI impI, goal_cases)
    case 1
    then show ?case using parts unfolding outbox_wf_def by (simp add: keyed_by_jset)
  next
    case (2 aid e)
    then show ?case using parts unfolding outbox_wf_def by (auto simp: held_envelope_inv split: if_splits)
  next
    case (3 aid e)
    then show ?case using parts assms(5) other unfolding outbox_wf_def by (auto split: if_splits)
  next
    case (4 wid res)
    then show ?case using outer [of wid res] fresh by (auto split: if_splits)
  next
    case (5 aid)
    then show ?case using parts nohash fresh unfolding outbox_wf_def by auto
  qed
  show ?thesis using jw rw ow by (simp add: timeline_repo_inv_def)
qed

lemma completeWindow_inv:
  assumes "timeline_repo_inv r"
  shows "timeline_repo_inv (snd (completeWindow result now r))"
  using assms inv_completed [OF assms] finalizeWindowCommit_unchanged [OF assms]
  by (simp add: completeWindow_eq Let_def split: option.split)

text \<open>Operations that change envelopes in place, one by one.\<close>

lemma inv_outbox_pointwise:
  assumes inv: "timeline_repo_inv r" and "keyed_by (ai_agentInputId \<circ> en_input) ob"
    and point: "\<And>aid. jget ob aid = map_option (f aid) (jget (tr_outbox r) aid)"
    and keep: "\<And>aid e. jget (tr_outbox r) aid = Some e \<Longrightarrow> envelope_inv e \<Longrightarrow>
      en_input (f aid e) = en_input e \<and> envelope_inv (f aid e) \<and> (en_state (f aid e) = ACKED \<longleftrightarrow> en_state e = ACKED)"
  shows "timeline_repo_inv (r\<lparr>tr_outbox := ob\<rparr>)"
proof -
  note parts = inv [unfolded timeline_repo_inv_def]
  have env: "envelope_inv e" if "jget (tr_outbox r) aid = Some e" for aid e
    using that parts unfolding outbox_wf_def by blast
  have k: "en_input (f aid e) = en_input e" "envelope_inv (f aid e)" "en_state (f aid e) = ACKED \<longleftrightarrow> en_state e = ACKED"
    if "jget (tr_outbox r) aid = Some e" for aid e using keep [OF that env [OF that]] by auto
  have "outbox_wf (r\<lparr>tr_outbox := ob\<rparr>)"
    unfolding outbox_wf_def
  proof (intro conjI allI impI, goal_cases)
    case 1
    then show ?case using assms(2) by simp
  next
    case (2 aid e)
    then obtain e0 where "jget (tr_outbox r) aid = Some e0" "e = f aid e0" by (auto simp: point)
    then show ?case using k by simp
  next
    case (3 aid e)
    then obtain e0 where e0: "jget (tr_outbox r) aid = Some e0" "e = f aid e0" by (auto simp: point)
    then have "en_input e = en_input e0" using k by simp
    moreover have "\<exists>res. jget (tr_results r) (ai_windowId (en_input e0)) = Some res \<and> pr_agentInput res = en_input e0"
      using e0(1) parts unfolding outbox_wf_def by blast
    ultimately show ?case by simp
  next
    case (4 wid res)
    then have "jget (tr_results r) wid = Some res" by simp
    then obtain e where "jget (tr_outbox r) (ai_agentInputId (pr_agentInput res)) = Some e" "en_input e = pr_agentInput res"
      using parts unfolding outbox_wf_def by blast
    then show ?case using k by (simp add: point)
  next
    case (5 aid)
    have "jget (tr_ackedLeaseTokenHashes r) aid \<noteq> None \<longleftrightarrow> map_option en_state (jget (tr_outbox r) aid) = Some ACKED"
      using parts unfolding outbox_wf_def by blast
    then show ?case using k(3) [of aid] by (cases "jget (tr_outbox r) aid") (auto simp: point)
  qed
  then show ?thesis using parts by (simp add: timeline_repo_inv_def jobs_wf_def results_wf_def)
qed

lemma jget_map_entries: "jget (map (\<lambda>(k, v). (k, f k v)) m) k = map_option (f k) (jget m k)"
  by (induction m) auto

lemma keyed_by_map_entries:
  assumes "keyed_by key m" and "\<And>k v. key (f k v) = key v"
  shows "keyed_by key (map (\<lambda>(k, v). (k, f k v)) m)"
proof -
  have "jkeys (map (\<lambda>(k, v). (k, f k v)) m) = jkeys m" by (induction m) auto
  moreover have "key v = k" if "jget (map (\<lambda>(k, v). (k, f k v)) m) k = Some v" for k v
    using that assms unfolding keyed_by_def jget_map_entries by force
  ultimately show ?thesis using assms(1) unfolding keyed_by_def by metis
qed

definition release_one :: "string list option \<Rightarrow> string \<Rightarrow> AgentInputEnvelopeV1 \<Rightarrow> AgentInputEnvelopeV1" where
  "release_one sel aid e = (if released sel aid e then e\<lparr>en_state := INPUT_READY\<rparr> else e)"

lemma releaseAgentInputs_outbox:
  "jget (tr_outbox (snd (releaseAgentInputs sel r))) aid = map_option (release_one sel aid) (jget (tr_outbox r) aid)"
  using jget_map_entries [of "release_one sel" "tr_outbox r" aid]
  by (simp add: releaseAgentInputs_def release_one_def [abs_def])

lemma release_one_keep:
  "envelope_inv e \<Longrightarrow> en_input (release_one sel aid e) = en_input e \<and> envelope_inv (release_one sel aid e) \<and>
     (en_state (release_one sel aid e) = ACKED \<longleftrightarrow> en_state e = ACKED)"
  by (auto simp: release_one_def released_def ready_envelope_inv)

lemma releaseAgentInputs_inv:
  assumes "timeline_repo_inv r"
  shows "timeline_repo_inv (snd (releaseAgentInputs sel r))"
proof -
  let ?ob = "map (\<lambda>(aid, e). (aid, release_one sel aid e)) (tr_outbox r)"
  have eq: "snd (releaseAgentInputs sel r) = r\<lparr>tr_outbox := ?ob\<rparr>"
    by (simp add: releaseAgentInputs_def release_one_def [abs_def])
  have "keyed_by (ai_agentInputId \<circ> en_input) (tr_outbox r)"
    using assms unfolding timeline_repo_inv_def outbox_wf_def by blast
  then have "keyed_by (ai_agentInputId \<circ> en_input) ?ob"
    by (rule keyed_by_map_entries) (simp add: release_one_def)
  then have "timeline_repo_inv (r\<lparr>tr_outbox := ?ob\<rparr>)"
    by (rule inv_outbox_pointwise [OF assms, where f = "release_one sel"])
      (simp_all add: jget_map_entries release_one_keep)
  with eq show ?thesis by simp
qed

text \<open>The leases a query grants: which agent input got which token.\<close>

fun granted_tokens :: "(nat \<Rightarrow> string) \<Rightarrow> nat \<Rightarrow> AgentInputEnvelopeV1 list \<Rightarrow> (string, string) jmap" where
  "granted_tokens uuid i [] = []"
| "granted_tokens uuid i (c # cs) =
     (if en_state c = HELD_LOCAL then granted_tokens uuid i cs
      else (ai_agentInputId (en_input c), uuid i) # granted_tokens uuid (Suc i) cs)"

definition lease_one :: "(string, string) jmap \<Rightarrow> int \<Rightarrow> string \<Rightarrow> AgentInputEnvelopeV1 \<Rightarrow> AgentInputEnvelopeV1" where
  "lease_one g x aid e = (case jget g aid of None \<Rightarrow> e | Some t \<Rightarrow> leased_envelope t x e)"

lemma granted_in: "aid \<in> set (jkeys (granted_tokens uuid i cs)) \<longleftrightarrow>
    (\<exists>c \<in> set cs. ai_agentInputId (en_input c) = aid \<and> en_state c \<noteq> HELD_LOCAL)"
  by (induction cs arbitrary: i) auto

lemma granted_get: "jget (granted_tokens uuid i cs) aid = Some t \<Longrightarrow>
    \<exists>c \<in> set cs. ai_agentInputId (en_input c) = aid \<and> en_state c \<noteq> HELD_LOCAL"
  by (induction cs arbitrary: i) (auto split: if_splits)

lemma granted_token_uuid: "jget (granted_tokens uuid i cs) aid = Some t \<Longrightarrow> \<exists>n. t = uuid n"
  by (induction cs arbitrary: i) (auto split: if_splits)

lemma lease_loop_keyed:
  "keyed_by (ai_agentInputId \<circ> en_input) ob \<Longrightarrow>
   keyed_by (ai_agentInputId \<circ> en_input) (snd (lease_loop uuid x i cs (res, ob)))"
  by (induction cs arbitrary: i res ob) (auto simp: Let_def keyed_by_jset)

lemma lease_loop_outbox:
  assumes "distinct (map (ai_agentInputId \<circ> en_input) cs)"
    and "\<And>c. c \<in> set cs \<Longrightarrow> jget ob (ai_agentInputId (en_input c)) = Some c"
  shows "jget (snd (lease_loop uuid x i cs (res, ob))) aid =
    map_option (lease_one (granted_tokens uuid i cs) x aid) (jget ob aid)"
  using assms
proof (induction cs arbitrary: i res ob)
  case Nil
  then show ?case by (simp add: lease_one_def option.map_ident)
next
  case (Cons c cs)
  let ?k = "ai_agentInputId (en_input c)"
  have notin: "jget (granted_tokens uuid (Suc i) cs) ?k = None"
  proof (rule ccontr)
    assume "jget (granted_tokens uuid (Suc i) cs) ?k \<noteq> None"
    then obtain c' where "c' \<in> set cs" "ai_agentInputId (en_input c') = ?k"
      using granted_get [of uuid "Suc i" cs ?k] by auto
    then have "?k \<in> set (map (ai_agentInputId \<circ> en_input) cs)" by (simp add: image_iff) metis
    with Cons.prems(1) show False by simp
  qed
  show ?case
  proof (cases "en_state c = HELD_LOCAL")
    case True
    with Cons show ?thesis by simp
  next
    case False
    let ?ob = "jset ?k (leased_envelope (uuid i) x c) ob"
    have "jget (snd (lease_loop uuid x (Suc i) cs (res @ [leased_envelope (uuid i) x c], ?ob))) aid =
        map_option (lease_one (granted_tokens uuid (Suc i) cs) x aid) (jget ?ob aid)"
    proof (rule Cons.IH)
      fix c'
      assume "c' \<in> set cs"
      moreover have "ai_agentInputId (en_input c') \<noteq> ?k" using calculation Cons.prems(1) by (force simp: image_iff)
      ultimately show "jget ?ob (ai_agentInputId (en_input c')) = Some c'" using Cons.prems(2) by simp
    qed (use Cons.prems(1) in simp)
    then show ?thesis
      using False notin Cons.prems(2) [of c] by (simp add: Let_def lease_one_def [abs_def])
  qed
qed

lemma lease_loop_result:
  "fst (lease_loop uuid x i cs (res, ob)) =
     res @ fst (lease_loop uuid x i cs ([], ob))"
proof (induction cs arbitrary: i res ob)
  case (Cons c cs)
  have "fst (lease_loop uuid x j cs (res @ [e], ob')) = res @ fst (lease_loop uuid x j cs ([e], ob'))" for j e ob'
    by (subst (1 2) Cons) simp
  then show ?case by (simp add: Let_def)
qed simp

lemma lease_loop_fst:
  assumes "distinct (map (ai_agentInputId \<circ> en_input) cs)"
  shows "fst (lease_loop uuid x i cs ([], ob)) =
    map (\<lambda>c. lease_one (granted_tokens uuid i cs) x (ai_agentInputId (en_input c)) c) cs"
  using assms
proof (induction cs arbitrary: i ob)
  case (Cons c cs)
  let ?k = "ai_agentInputId (en_input c)"
  have ne: "ai_agentInputId (en_input c') \<noteq> ?k" if "c' \<in> set cs" for c'
    using that Cons.prems by (force simp: image_iff)
  have IH: "fst (lease_loop uuid x j cs ([], ob')) =
      map (\<lambda>c. lease_one (granted_tokens uuid j cs) x (ai_agentInputId (en_input c)) c) cs" for j ob'
    using Cons by simp
  have notin: "jget (granted_tokens uuid j cs) ?k = None" for j
    using granted_get [of uuid j cs ?k] ne by (metis option.exhaust)
  show ?case
  proof (cases "en_state c = HELD_LOCAL")
    case True
    then have "fst (lease_loop uuid x i (c # cs) ([], ob)) = [c] @ fst (lease_loop uuid x i cs ([], ob))"
      using lease_loop_result [of uuid x i cs "[c]" ob] by simp
    with True IH [of i ob] notin [of i] show ?thesis by (simp add: lease_one_def)
  next
    case False
    let ?l = "leased_envelope (uuid i) x c"
    from False have "fst (lease_loop uuid x i (c # cs) ([], ob)) = [?l] @ fst (lease_loop uuid x (Suc i) cs ([], jset ?k ?l ob))"
      using lease_loop_result [of uuid x "Suc i" cs "[?l]" "jset ?k ?l ob"] by (simp add: Let_def)
    with False IH [of "Suc i" "jset ?k ?l ob"] ne show ?thesis by (simp add: lease_one_def)
  qed
qed simp

lemma query_candidates_props:
  assumes "timeline_repo_inv r"
  shows "distinct (map (ai_agentInputId \<circ> en_input) (query_candidates lc q n (tr_outbox r)))"
    and "c \<in> set (query_candidates lc q n (tr_outbox r)) \<Longrightarrow>
      jget (tr_outbox r) (ai_agentInputId (en_input c)) = Some c \<and> deliverable q c"
proof -
  let ?vs = "jvalues (tr_outbox r)"
  have k: "keyed_by (ai_agentInputId \<circ> en_input) (tr_outbox r)"
    using assms unfolding timeline_repo_inv_def outbox_wf_def by blast
  have "map (ai_agentInputId \<circ> en_input) ?vs = jkeys (tr_outbox r)"
  proof -
    have "ai_agentInputId (en_input (snd p)) = fst p" if "p \<in> set (tr_outbox r)" for p
      using that k map_of_is_SomeI [of "tr_outbox r" "fst p" "snd p"] unfolding keyed_by_def by auto
    then show ?thesis by simp
  qed
  then have d: "distinct (map (ai_agentInputId \<circ> en_input) ?vs)" using k unfolding keyed_by_def by metis
  have "mset (map (ai_agentInputId \<circ> en_input) (js_sort (envelope_compare lc) (filter (deliverable q) ?vs))) =
      mset (map (ai_agentInputId \<circ> en_input) (filter (deliverable q) ?vs))"
    by (metis mset_js_sort mset_map)
  moreover have "distinct (map (ai_agentInputId \<circ> en_input) (filter (deliverable q) ?vs))"
    using d by (rule distinct_map_filter)
  ultimately have "distinct (map (ai_agentInputId \<circ> en_input) (js_sort (envelope_compare lc) (filter (deliverable q) ?vs)))"
    by (metis mset_eq_imp_distinct_iff)
  then show "distinct (map (ai_agentInputId \<circ> en_input) (query_candidates lc q n (tr_outbox r)))"
    by (simp add: query_candidates_def flip: take_map)
  assume "c \<in> set (query_candidates lc q n (tr_outbox r))"
  then have "c \<in> set (js_sort (envelope_compare lc) (filter (deliverable q) ?vs))"
    unfolding query_candidates_def by (rule in_set_takeD)
  then have "c \<in> set ?vs" "deliverable q c" by auto
  then show "jget (tr_outbox r) (ai_agentInputId (en_input c)) = Some c \<and> deliverable q c"
    using inv_envelope_value [OF assms] by blast
qed

definition lease_of :: "AgentInputQuery \<Rightarrow> int" where
  "lease_of q = (case aq_leaseDurationMs q of None \<Rightarrow> 30000 | Some d \<Rightarrow> d)"

definition query_limit :: "AgentInputQuery \<Rightarrow> int" where
  "query_limit q = (case aq_limit q of None \<Rightarrow> 32 | Some n \<Rightarrow> n)"

definition query_accepted :: "AgentInputQuery \<Rightarrow> bool" where
  "query_accepted q \<longleftrightarrow> 1 \<le> query_limit q \<and> query_limit q \<le> 100 \<and> 0 < lease_of q \<and> lease_of q \<le> MAX_SAFE_INTEGER"

lemma queryAgentInputs_eq:
  "queryAgentInputs lc uuid q r =
     (if query_accepted q
      then (let p = lease_loop uuid (aq_nowMs q + lease_of q) 0
                (query_candidates lc q (nat (query_limit q)) (tr_outbox r)) ([], tr_outbox r)
            in (Inr (fst p), r\<lparr>tr_outbox := snd p\<rparr>))
      else (Inl (if 1 \<le> query_limit q \<and> query_limit q \<le> 100 then LeaseDurationNotPositive
                 else NotAnIntegerBetween 1 100), r))"
  unfolding queryAgentInputs_def query_limit_def [symmetric] lease_of_def [symmetric] query_accepted_def
  by (auto simp: boundedLimit_def assertPositiveDuration_def isSafeInteger_def ensure_def MAX_SAFE_INTEGER_def
      Let_def case_prod_beta)

lemma query_outbox:
  assumes "timeline_repo_inv r" and "query_accepted q"
  shows "jget (tr_outbox (snd (queryAgentInputs lc uuid q r))) aid =
    map_option (lease_one (granted_tokens uuid 0 (query_candidates lc q (nat (query_limit q)) (tr_outbox r)))
      (aq_nowMs q + lease_of q) aid) (jget (tr_outbox r) aid)"
  using lease_loop_outbox [OF query_candidates_props(1) [OF assms(1)], of lc q "nat (query_limit q)" "tr_outbox r"
      uuid "aq_nowMs q + lease_of q" 0 "[]" aid] query_candidates_props(2) [OF assms(1)] assms(2)
  by (simp add: queryAgentInputs_eq Let_def)

lemma granted_deliverable:
  assumes "timeline_repo_inv r" and "jget (tr_outbox r) aid = Some e"
    and "jget (granted_tokens uuid i (query_candidates lc q n (tr_outbox r))) aid = Some t"
  shows "deliverable q e" and "en_state e \<noteq> HELD_LOCAL"
proof -
  obtain c where c: "c \<in> set (query_candidates lc q n (tr_outbox r))" "ai_agentInputId (en_input c) = aid"
      "en_state c \<noteq> HELD_LOCAL"
    using granted_get [OF assms(3)] by blast
  then have "c = e" using query_candidates_props(2) [OF assms(1) c(1)] assms(2) by simp
  then show "deliverable q e" and "en_state e \<noteq> HELD_LOCAL"
    using query_candidates_props(2) [OF assms(1) c(1)] c(3) by simp_all
qed

lemma queryAgentInputs_inv:
  assumes "timeline_repo_inv r"
  shows "timeline_repo_inv (snd (queryAgentInputs lc uuid q r))"
proof (cases "query_accepted q")
  case True
  let ?ob = "tr_outbox (snd (queryAgentInputs lc uuid q r))"
  have r: "snd (queryAgentInputs lc uuid q r) = r\<lparr>tr_outbox := ?ob\<rparr>"
    using True by (simp add: queryAgentInputs_eq Let_def)
  have k: "keyed_by (ai_agentInputId \<circ> en_input) (tr_outbox r)"
    using assms unfolding timeline_repo_inv_def outbox_wf_def by blast
  have "keyed_by (ai_agentInputId \<circ> en_input) ?ob"
    using True lease_loop_keyed [OF k, of uuid "aq_nowMs q + lease_of q" 0
        "query_candidates lc q (nat (query_limit q)) (tr_outbox r)" "[]"]
    by (simp add: queryAgentInputs_eq Let_def)
  then have "timeline_repo_inv (r\<lparr>tr_outbox := ?ob\<rparr>)"
    by (rule inv_outbox_pointwise [OF assms, OF _ query_outbox [OF assms True]])
      (auto simp: lease_one_def deliverable_def split: option.split
        dest: granted_deliverable [OF assms] intro!: leased_envelope_inv)
  with r show ?thesis by simp
qed (use assms in \<open>simp add: queryAgentInputs_eq\<close>)

lemma ack_cases:
  assumes "commitAgentInput digest aid tok now r = (res, r')"
  obtains (refused) e where "res = Inl e" and "r' = r"
  | (repeated) e where "jget (tr_outbox r) aid = Some e" and "en_state e = ACKED" and "res = Inr e" and "r' = r"
      and "jget (tr_ackedLeaseTokenHashes r) aid = Some (opaqueLeaseTokenHash digest tok)"
  | (acked) e x where "jget (tr_outbox r) aid = Some e" and "en_state e = LEASED" and "en_leaseToken e = Some tok"
      and "en_leaseExpiresAtMs e = Some x" and "now \<le> x" and "res = Inr (acked_envelope now e)"
      and "r' = r\<lparr>tr_outbox := jset aid (acked_envelope now e) (tr_outbox r),
        tr_ackedLeaseTokenHashes := jset aid (opaqueLeaseTokenHash digest tok) (tr_ackedLeaseTokenHashes r)\<rparr>"
  using assms
  by (auto simp: commitAgentInput_def Let_def not_less split: option.splits if_splits)

lemma commitAgentInput_inv:
  assumes inv: "timeline_repo_inv r"
  shows "timeline_repo_inv (snd (commitAgentInput digest aid tok now r))"
proof -
  note parts = inv [unfolded timeline_repo_inv_def]
  obtain res r' where eq: "commitAgentInput digest aid tok now r = (res, r')" by fastforce
  from eq have "timeline_repo_inv r'"
  proof (cases rule: ack_cases)
    case (acked e x)
    let ?e = "acked_envelope now e"
    have k: "keyed_by (ai_agentInputId \<circ> en_input) (tr_outbox r)" and e: "envelope_inv e"
      using parts acked(1) unfolding outbox_wf_def by blast+
    have id: "ai_agentInputId (en_input e) = aid" using keyed_by_get [OF k acked(1)] by simp
    have "outbox_wf r'"
      unfolding outbox_wf_def acked(7)
    proof (intro conjI allI impI, goal_cases)
      case 1
      then show ?case using k id by (simp add: keyed_by_jset)
    next
      case (2 aid' e')
      then show ?case using parts acked_envelope_inv [OF e acked(2)] unfolding outbox_wf_def
        by (auto split: if_splits)
    next
      case (3 aid' e')
      then obtain e0 where "jget (tr_outbox r) aid' = Some e0" "en_input e' = en_input e0"
        using acked(1) by (auto split: if_splits)
      moreover have "\<exists>res. jget (tr_results r) (ai_windowId (en_input e0)) = Some res \<and> pr_agentInput res = en_input e0"
        using calculation(1) parts unfolding outbox_wf_def by blast
      ultimately show ?case by simp
    next
      case (4 wid res')
      then have "jget (tr_results r) wid = Some res'" by simp
      then obtain e0 where "jget (tr_outbox r) (ai_agentInputId (pr_agentInput res')) = Some e0"
          "en_input e0 = pr_agentInput res'"
        using parts unfolding outbox_wf_def by blast
      then show ?case using acked(1) by auto
    next
      case (5 aid')
      then show ?case using parts unfolding outbox_wf_def by auto
    qed
    then show ?thesis using parts acked(7) by (simp add: timeline_repo_inv_def jobs_wf_def results_wf_def)
  qed (use inv in simp_all)
  with eq show ?thesis by simp
qed

subsection \<open>Reachable states\<close>

text \<open>
  A call of a method, other than the delivery of agent inputs, and any call. Deliveries are
  kept apart because leases run out with the time they are asked at.
\<close>

inductive repo_call :: "(string \<Rightarrow> nat list) \<Rightarrow> TimelineRepositoryV2 \<Rightarrow> TimelineRepositoryV2 \<Rightarrow> bool"
  for digest where
  save_call: "repo_call digest r (snd (saveCollectorV2 snapshot expected r))"
| seal_call: "repo_call digest r (snd (sealWindowV2 window snapshot expectedRevision r))"
| claim_call: "repo_call digest r (snd (claimNextWindow lc nowMs leaseDurationMs r))"
| abandon_call: "repo_call digest r (snd (abandonWindowClaim wid nowMs r))"
| complete_call: "repo_call digest r (snd (completeWindow result nowMs r))"
| finalize_call: "repo_call digest r (snd (finalizeWindowCommit wid nowMs r))"
| fail_call: "repo_call digest r (snd (recordWindowFailure wid options r))"
| release_call: "repo_call digest r (snd (releaseAgentInputs selected r))"
| commit_call: "repo_call digest r (snd (commitAgentInput digest aid leaseToken nowMs r))"

inductive timeline_step :: "(string \<Rightarrow> nat list) \<Rightarrow> TimelineRepositoryV2 \<Rightarrow> TimelineRepositoryV2 \<Rightarrow> bool"
  for digest where
  call_step: "repo_call digest r r' \<Longrightarrow> timeline_step digest r r'"
| query_step: "timeline_step digest r (snd (queryAgentInputs lc uuid query r))"

text \<open>Calls whose deliveries are all asked before a given time.\<close>

inductive step_before :: "(string \<Rightarrow> nat list) \<Rightarrow> int \<Rightarrow> TimelineRepositoryV2 \<Rightarrow> TimelineRepositoryV2 \<Rightarrow> bool"
  for digest t where
  call_before: "repo_call digest r r' \<Longrightarrow> step_before digest t r r'"
| query_before: "aq_nowMs query < t \<Longrightarrow> step_before digest t r (snd (queryAgentInputs lc uuid query r))"

lemmas timeline_op_inv = saveCollectorV2_inv sealWindowV2_inv claimNextWindow_inv abandonWindowClaim_inv
  completeWindow_inv recordWindowFailure_inv releaseAgentInputs_inv queryAgentInputs_inv commitAgentInput_inv

lemma repo_call_inv: "repo_call digest r r' \<Longrightarrow> timeline_repo_inv r \<Longrightarrow> timeline_repo_inv r'"
  by (induction rule: repo_call.induct) (simp_all add: timeline_op_inv finalizeWindowCommit_unchanged)

lemma timeline_step_inv: "timeline_step digest r r' \<Longrightarrow> timeline_repo_inv r \<Longrightarrow> timeline_repo_inv r'"
  by (induction rule: timeline_step.induct) (simp_all add: timeline_op_inv repo_call_inv)

lemma step_before_step: "step_before digest t r r' \<Longrightarrow> timeline_step digest r r'"
  by (induction rule: step_before.induct) (auto intro: timeline_step.intros)

lemma steps_before_steps: "(step_before digest t)\<^sup>*\<^sup>* r r' \<Longrightarrow> (timeline_step digest)\<^sup>*\<^sup>* r r'"
  by (rule rtranclp_mono [THEN predicate2D]) (auto intro: step_before_step)

lemma timeline_steps_inv: "(timeline_step digest)\<^sup>*\<^sup>* r r' \<Longrightarrow> timeline_repo_inv r \<Longrightarrow> timeline_repo_inv r'"
  by (induction rule: rtranclp_induct) (auto intro: timeline_step_inv)

definition timeline_reachable :: "(string \<Rightarrow> nat list) \<Rightarrow> TimelineRepositoryV2 \<Rightarrow> bool" where
  "timeline_reachable digest r \<longleftrightarrow> (timeline_step digest)\<^sup>*\<^sup>* empty_timeline_repository r"

lemma reachable_inv: "timeline_reachable digest r \<Longrightarrow> timeline_repo_inv r"
  unfolding timeline_reachable_def
  by (induction rule: rtranclp_induct) (auto intro: timeline_repo_inv_empty timeline_step_inv)

lemma reachable_empty: "timeline_reachable digest empty_timeline_repository"
  by (simp add: timeline_reachable_def)

lemma reachable_step: "timeline_reachable digest r \<Longrightarrow> timeline_step digest r r' \<Longrightarrow> timeline_reachable digest r'"
  unfolding timeline_reachable_def by (rule rtranclp.rtrancl_into_rtrancl)

end
