(* ===== verification/TimelineCollectorCorrect.thy ===== *)
theory TimelineCollectorCorrect
  imports TimelineContract TimelineRepositoryCorrect
begin

text \<open>
  Correctness of the timeline's collector: the invariant of its snapshot and of every window it
  seals, kept by every operation whatever the clock and the repository answer, and where the
  events of a window come from: an event dropped at an authorization boundary is in no window
  sealed later, also across restarts.
\<close>

subsection \<open>What a snapshot and a sealed window look like\<close>

text \<open>What the contract of semantic events gives the collector.\<close>

definition contract_event :: "SemanticEventV2 \<Rightarrow> bool" where
  "contract_event e \<longleftrightarrow> se_countClass e = expectedCountClass (se_kind e) \<and> se_occurredAtMs e \<le> se_observedAtMs e"

definition config_ok :: "TimelineCollectorConfig \<Rightarrow> bool" where
  "config_ok cfg \<longleftrightarrow> 1 \<le> tcc_threshold cfg \<and> 0 < tcc_maxWaitMs cfg"

definition open_ok :: "TimelineCollectorConfig \<Rightarrow> OpenTimelineWindowV2 \<Rightarrow> bool" where
  "open_ok cfg ow \<longleftrightarrow>
     otw_events ow \<noteq> [] \<and> is_effective (hd (otw_events ow)) \<and>
     otw_startedAtMs ow = se_occurredAtMs (hd (otw_events ow)) \<and>
     otw_deadlineAtMs ow = otw_startedAtMs ow + tcc_maxWaitMs cfg \<and>
     otw_effectiveEventCount ow = length (filter is_effective (otw_events ow)) \<and>
     otw_effectiveEventCount ow \<le> tcc_threshold cfg \<and>
     otw_goalVersion ow = map_option goal_version (otw_goal ow) \<and>
     (\<forall>e \<in> set (otw_events ow). contract_event e \<and> se_kind e \<noteq> AuthorizationChangedV2 \<and>
        se_goalVersion e = otw_goalVersion ow \<and> se_occurredAtMs e \<le> otw_deadlineAtMs ow)"

definition tl_window_ok :: "TimelineCollectorConfig \<Rightarrow> TimelineWindowV2 \<Rightarrow> bool" where
  "tl_window_ok cfg w \<longleftrightarrow>
     tw_deviceId w = tcc_deviceId cfg \<and> tw_sessionId w = tcc_sessionId cfg \<and>
     tw_events w \<noteq> [] \<and> tw_firstCursor w = se_cursor (hd (tw_events w)) \<and> tw_lastCursor w = se_cursor (last (tw_events w)) \<and>
     tw_eventCount w = length (filter is_effective (tw_events w)) \<and>
     1 \<le> tw_eventCount w \<and> tw_eventCount w \<le> tcc_threshold cfg \<and>
     tw_deadlineAtMs w = se_occurredAtMs (hd (tw_events w)) + tcc_maxWaitMs cfg \<and>
     tw_goalVersion w = map_option goal_version (tw_goal w) \<and>
     (\<forall>e \<in> set (tw_events w). contract_event e \<and> se_kind e \<noteq> AuthorizationChangedV2 \<and>
        se_goalVersion e = tw_goalVersion w \<and> se_occurredAtMs e \<le> tw_deadlineAtMs w \<and>
        tw_startedAtMs w \<le> se_occurredAtMs e \<and> se_observedAtMs e \<le> tw_endedAtMs w) \<and>
     length (tw_contextOnly w) \<le> 5 \<and>
     (\<forall>e \<in> set (tw_contextOnly w). is_effective e \<and> se_occurredAtMs e \<le> se_occurredAtMs (hd (tw_events w)) \<and>
        se_occurredAtMs (hd (tw_events w)) - 30000 \<le> se_occurredAtMs e)"

definition own_snapshot :: "TimelineCollectorConfig \<Rightarrow> TimelineCollectorSnapshotV2 \<Rightarrow> bool" where
  "own_snapshot cfg sn \<longleftrightarrow>
     tcs_collectorId sn = tcc_collectorId cfg \<and> tcs_deviceId sn = tcc_deviceId cfg \<and>
     tcs_sessionId sn = tcc_sessionId cfg \<and> length (tcs_contextCandidates sn) \<le> 5 \<and>
     (\<forall>e \<in> set (tcs_contextCandidates sn). is_effective e) \<and> length (tcs_recentEventIds sn) \<le> 2048 \<and>
     (\<forall>ow. tcs_openWindow sn = Some ow \<longrightarrow> open_ok cfg ow)"

definition snap_ok :: "TimelineCollectorConfig \<Rightarrow> TimelineCollectorSnapshotV2 \<Rightarrow> bool" where
  "snap_ok cfg sn \<longleftrightarrow> own_snapshot cfg sn \<and>
     tcs_state sn = (if tcs_openWindow sn = None then ACTIVE_EMPTY else ACTIVE_COLLECTING) \<and>
     (\<forall>ow. tcs_openWindow sn = Some ow \<longrightarrow> otw_goal ow = tcs_activeGoal sn)"

text \<open>The events a snapshot still holds: those of the open window and the candidates for context.\<close>

definition snap_events :: "TimelineCollectorSnapshotV2 \<Rightarrow> SemanticEventV2 set" where
  "snap_events sn = set (tcs_contextCandidates sn) \<union>
     (case tcs_openWindow sn of None \<Rightarrow> {} | Some ow \<Rightarrow> set (otw_events ow))"

lemma is_effective_kind: "contract_event e \<Longrightarrow> is_effective e \<Longrightarrow> se_kind e \<notin> {PresenceChanged, GoalChanged, AuthorizationChangedV2}"
  by (cases "se_kind e") (simp_all add: contract_event_def is_effective_def)

lemma open_ok_count: "open_ok cfg ow \<Longrightarrow> 1 \<le> otw_effectiveEventCount ow"
  by (cases "otw_events ow") (auto simp: open_ok_def)

lemma open_ok_start:
  assumes "config_ok cfg" and "contract_event e" and "is_effective e"
    and "se_goalVersion e = map_option goal_version goal"
  shows "open_ok cfg (startWindow e goal (tcc_maxWaitMs cfg))"
  using assms is_effective_kind [OF assms(2,3)] by (auto simp: open_ok_def startWindow_def config_ok_def)

lemma open_ok_append:
  assumes "open_ok cfg ow" and "contract_event e" and "is_effective e"
    and "se_goalVersion e = otw_goalVersion ow" and "se_occurredAtMs e \<le> otw_deadlineAtMs ow"
    and "otw_effectiveEventCount ow < tcc_threshold cfg"
  shows "open_ok cfg (appendEffective ow e)"
  using assms is_effective_kind [OF assms(2,3)] by (auto simp: open_ok_def appendEffective_def)

lemma open_ok_uncounted:
  assumes "open_ok cfg ow" and "contract_event e" and "\<not> is_effective e" and "se_kind e \<noteq> AuthorizationChangedV2"
    and "se_goalVersion e = otw_goalVersion ow" and "se_occurredAtMs e \<le> otw_deadlineAtMs ow"
  shows "open_ok cfg (append_uncounted e ow)"
  using assms by (auto simp: open_ok_def append_uncounted_def)

lemma fold_min_le:
  fixes f :: "'a \<Rightarrow> int"
  shows "fold (\<lambda>e t. min t (f e)) es a \<le> a \<and> (\<forall>e \<in> set es. fold (\<lambda>e t. min t (f e)) es a \<le> f e)"
proof (induction es arbitrary: a)
  case (Cons x xs)
  from Cons.IH [of "min a (f x)"] show ?case by simp
qed simp

lemma fold_max_ge:
  fixes f :: "'a \<Rightarrow> int"
  shows "a \<le> fold (\<lambda>e t. max t (f e)) es a \<and> (\<forall>e \<in> set es. f e \<le> fold (\<lambda>e t. max t (f e)) es a)"
proof (induction es arbitrary: a)
  case (Cons x xs)
  from Cons.IH [of "max a (f x)"] show ?case by simp
qed simp

lemma context_events_props:
  assumes "e \<in> set (context_events ow candidates)"
  shows "e \<in> set candidates \<and> is_effective e \<and> se_occurredAtMs e \<le> otw_startedAtMs ow \<and>
    otw_startedAtMs ow - 30000 \<le> se_occurredAtMs e"
  using assms set_slice_last by (fastforce simp: context_events_def TIMELINE_CONTEXT_LOOKBACK_MS_def)

lemma build_ok:
  assumes "open_ok cfg ow" and "buildTimelineWindow cfg ow reason endedAt candidates = Inr w"
  shows "tl_window_ok cfg w \<and> tw_collectorId w = tcc_collectorId cfg \<and> tw_events w = otw_events ow \<and>
    set (tw_contextOnly w) \<subseteq> set candidates"
proof -
  let ?lo = "fold (\<lambda>e t. min t (se_occurredAtMs e)) (otw_events ow) (otw_startedAtMs ow)"
  let ?hi = "fold (\<lambda>e t. max t (se_observedAtMs e)) (otw_events ow) ?lo"
  have ev: "otw_events ow \<noteq> []" using assms(1) by (simp add: open_ok_def)
  have w: "tw_collectorId w = tcc_collectorId cfg" "tw_deviceId w = tcc_deviceId cfg" "tw_sessionId w = tcc_sessionId cfg"
    "tw_goal w = otw_goal ow" "tw_goalVersion w = otw_goalVersion ow" "tw_startedAtMs w = ?lo"
    "tw_endedAtMs w = max endedAt ?hi" "tw_deadlineAtMs w = otw_deadlineAtMs ow"
    "tw_eventCount w = otw_effectiveEventCount ow" "tw_firstCursor w = se_cursor (hd (otw_events ow))"
    "tw_lastCursor w = se_cursor (last (otw_events ow))" "tw_events w = otw_events ow"
    "tw_contextOnly w = context_events ow candidates"
    using assms(2) ev unfolding buildTimelineWindow_def Let_def by auto
  have "length (context_events ow candidates) \<le> 5"
    by (simp add: context_events_def length_slice_last TIMELINE_CONTEXT_EVENT_LIMIT_def)
  moreover have "\<forall>e \<in> set (otw_events ow). ?lo \<le> se_occurredAtMs e \<and> se_observedAtMs e \<le> max endedAt ?hi"
    using fold_min_le [of se_occurredAtMs "otw_events ow" "otw_startedAtMs ow"]
      fold_max_ge [of ?lo se_observedAtMs "otw_events ow"] by (simp add: le_max_iff_disj)
  moreover have "\<forall>e \<in> set (context_events ow candidates). e \<in> set candidates \<and> is_effective e \<and>
      se_occurredAtMs e \<le> otw_startedAtMs ow \<and> otw_startedAtMs ow - 30000 \<le> se_occurredAtMs e"
    using context_events_props by blast
  ultimately show ?thesis
    using assms(1) open_ok_count [OF assms(1)] unfolding tl_window_ok_def w open_ok_def by auto
qed

lemma build_succeeds: "open_ok cfg ow \<Longrightarrow> \<exists>w. buildTimelineWindow cfg ow reason endedAt candidates = Inr w"
  by (simp add: buildTimelineWindow_def Let_def open_ok_def)

lemma threshold_found: "open_ok cfg ow \<Longrightarrow> \<exists>t. thresholdReachedAt ow = Inr t"
proof -
  assume "open_ok cfg ow"
  then have "\<exists>e \<in> set (rev (otw_events ow)). is_effective e" unfolding open_ok_def by (metis list.set_sel(1) set_rev)
  then have "find is_effective (rev (otw_events ow)) \<noteq> None" by (metis find_None_iff)
  then show ?thesis by (auto simp: thresholdReachedAt_def)
qed

lemma own_recent: "own_snapshot cfg sn \<Longrightarrow> length (addRecent sn i) \<le> 2048"
  by (simp add: addRecent_def length_slice_last TIMELINE_RECENT_EVENT_ID_LIMIT_def)

subsection \<open>The store, and where events come from\<close>

definition store_ok :: "TimelineCollectorConfig \<Rightarrow> TimelineRepositoryV2 \<Rightarrow> bool" where
  "store_ok cfg r \<longleftrightarrow> timeline_repo_inv r \<and>
     (\<forall>sn. jget (tr_collectors r) (tcc_collectorId cfg) = Some sn \<longrightarrow> snap_ok cfg sn) \<and>
     (\<forall>w \<in> set (jvalues (tr_windows r)). tw_collectorId w = tcc_collectorId cfg \<longrightarrow> tl_window_ok cfg w)"

definition pending :: "TimelineCollectorConfig \<Rightarrow> TimelineRepositoryV2 \<Rightarrow> SemanticEventV2 set" where
  "pending cfg r = (case jget (tr_collectors r) (tcc_collectorId cfg) of None \<Rightarrow> {} | Some sn \<Rightarrow> snap_events sn)"

definition window_content :: "TimelineWindowV2 \<Rightarrow> SemanticEventV2 set" where
  "window_content w = set (tw_events w) \<union> set (tw_contextOnly w)"

text \<open>From one state of the store to another, only the events \<open>E\<close> were added.\<close>

definition grows :: "TimelineCollectorConfig \<Rightarrow> SemanticEventV2 set \<Rightarrow> TimelineRepositoryV2 \<Rightarrow> TimelineRepositoryV2 \<Rightarrow> bool" where
  "grows cfg E r r' \<longleftrightarrow> pending cfg r' \<subseteq> pending cfg r \<union> E \<and>
     (\<forall>w \<in> set (jvalues (tr_windows r')). w \<in> set (jvalues (tr_windows r)) \<or>
        (tw_collectorId w = tcc_collectorId cfg \<and> window_content w \<subseteq> pending cfg r \<union> E))"

lemma grows_refl: "grows cfg E r r"
  by (auto simp: grows_def)

lemma grows_trans: "grows cfg E r s \<Longrightarrow> grows cfg F s t \<Longrightarrow> grows cfg (E \<union> F) r t"
  unfolding grows_def by blast

lemma jvalues_jset: "set (jvalues (jset k v m)) \<subseteq> insert v (set (jvalues m))"
  by (induction m) auto

definition tl_step_ok :: "TimelineCollectorConfig \<Rightarrow> SemanticEventV2 set \<Rightarrow> TimelineRepositoryV2 \<Rightarrow> TimelineCollectorV2 \<Rightarrow> bool" where
  "tl_step_ok cfg E r s \<longleftrightarrow> store_ok cfg (tc_repository s) \<and>
     (\<forall>sn. tc_snapshot s = Some sn \<longrightarrow> jget (tr_collectors (tc_repository s)) (tcc_collectorId cfg) = Some sn) \<and>
     grows cfg E r (tc_repository s)"

lemma tl_step_ok_frame:
  "tl_step_ok cfg E r (s\<lparr>tc_ticks := n\<rparr>) = tl_step_ok cfg E r s" "tl_step_ok cfg E r (s\<lparr>tc_timer := x\<rparr>) = tl_step_ok cfg E r s"
  "tl_step_ok cfg E r (s\<lparr>tc_state := st\<rparr>) = tl_step_ok cfg E r s" "tl_step_ok cfg E r (s\<lparr>tc_countReadyCalls := cs\<rparr>) = tl_step_ok cfg E r s"
  "tl_step_ok cfg E r (s\<lparr>tc_deadlinesDeferred := b\<rparr>) = tl_step_ok cfg E r s" "tl_step_ok cfg E r (s\<lparr>tc_disposed := b\<rparr>) = tl_step_ok cfg E r s"
  "tl_step_ok cfg E r (s\<lparr>tc_deadlineReadyCalls := cs\<rparr>) = tl_step_ok cfg E r s"
  by (simp_all add: tl_step_ok_def)

lemma tl_step_ok_snap:
  assumes "tl_step_ok cfg E r s" and "tc_snapshot s = Some sn"
  shows "snap_ok cfg sn \<and> snap_events sn \<subseteq> pending cfg r \<union> E"
proof -
  have j: "jget (tr_collectors (tc_repository s)) (tcc_collectorId cfg) = Some sn" using assms by (simp add: tl_step_ok_def)
  then have "pending cfg (tc_repository s) = snap_events sn" by (simp add: pending_def)
  then show ?thesis using assms(1) j by (auto simp: tl_step_ok_def store_ok_def grows_def)
qed

lemma tl_step_ok_put:
  assumes "tl_step_ok cfg E r s" and "snap_ok cfg sn" and "snap_events sn \<subseteq> pending cfg r \<union> E"
  shows "tl_step_ok cfg E r (s\<lparr>tc_repository := (tc_repository s)\<lparr>tr_collectors :=
    jset (tcs_collectorId sn) sn (tr_collectors (tc_repository s))\<rparr>, tc_snapshot := Some sn\<rparr>)"
proof -
  have "tcs_collectorId sn = tcc_collectorId cfg" using assms(2) by (simp add: snap_ok_def own_snapshot_def)
  then show ?thesis using assms by (auto simp: tl_step_ok_def store_ok_def inv_collectors grows_def pending_def)
qed

lemma tl_step_ok_window:
  assumes "tl_step_ok cfg E r s" and "tl_window_ok cfg w \<and> tw_collectorId w = tcc_collectorId cfg"
    and "window_content w \<subseteq> pending cfg r \<union> E"
    and "jget (tr_windows (tc_repository s)) (tw_windowId w) = None"
  shows "tl_step_ok cfg E r (s\<lparr>tc_repository := (tc_repository s)\<lparr>
    tr_windows := jset (tw_windowId w) w (tr_windows (tc_repository s)),
    tr_jobs := jset (tw_windowId w) (newTimelineJob w) (tr_jobs (tc_repository s))\<rparr>\<rparr>)"
proof -
  let ?r = "tc_repository s"
  have inv: "timeline_repo_inv ?r" using assms(1) by (simp add: tl_step_ok_def store_ok_def)
  have sub: "x = w \<or> x \<in> set (jvalues (tr_windows ?r))"
    if "x \<in> set (jvalues (jset (tw_windowId w) w (tr_windows ?r)))" for x
    using that jvalues_jset [of "tw_windowId w" w "tr_windows ?r"] by blast
  let ?s = "?r\<lparr>tr_windows := jset (tw_windowId w) w (tr_windows ?r),
    tr_jobs := jset (tw_windowId w) (newTimelineJob w) (tr_jobs ?r)\<rparr>"
  have "store_ok cfg ?s"
    unfolding store_ok_def
  proof (intro conjI allI impI ballI)
    show "timeline_repo_inv ?s" by (rule inv_new_window [OF inv assms(4)])
    show "snap_ok cfg sn" if "jget (tr_collectors ?s) (tcc_collectorId cfg) = Some sn" for sn
      using assms(1) that by (simp add: tl_step_ok_def store_ok_def)
    show "tl_window_ok cfg x" if "x \<in> set (jvalues (tr_windows ?s))" "tw_collectorId x = tcc_collectorId cfg" for x
      using assms(1,2) sub [of x] that unfolding tl_step_ok_def store_ok_def by auto
  qed
  moreover have "grows cfg E r ?s"
    unfolding grows_def
  proof (intro conjI ballI)
    show "pending cfg ?s \<subseteq> pending cfg r \<union> E" using assms(1) by (simp add: tl_step_ok_def grows_def pending_def)
    show "x \<in> set (jvalues (tr_windows r)) \<or> (tw_collectorId x = tcc_collectorId cfg \<and> window_content x \<subseteq> pending cfg r \<union> E)"
      if "x \<in> set (jvalues (tr_windows ?s))" for x
    proof -
      have "x = w \<or> x \<in> set (jvalues (tr_windows ?r))" using sub [of x] that by (simp del: set_map)
      then show ?thesis using assms(1-3) unfolding tl_step_ok_def grows_def by blast
    qed
  qed
  ultimately show ?thesis using assms(1) unfolding tl_step_ok_def by simp
qed

subsection \<open>Weakest preconditions\<close>

lemma wp_tc_requireSnapshot [wp_simps]:
  "wp tc_requireSnapshot Q s = (case tc_snapshot s of None \<Rightarrow> Q (Inl TimelineRecoverFirst) s | Some sn \<Rightarrow> Q (Inr sn) s)"
  by (simp add: wp_def tc_requireSnapshot_def split: option.splits)

lemma wp_tc_readClock [wp_simps]:
  "wp tc_readClock Q s = Q (Inr (tc_clock s (tc_ticks s))) (s\<lparr>tc_ticks := Suc (tc_ticks s)\<rparr>)"
  by (simp add: wp_def tc_readClock_def)

lemma wp_tc_cancelTimer [wp_simps]: "wp tc_cancelTimer Q s = Q (Inr ()) (s\<lparr>tc_timer := None\<rparr>)"
  by (simp add: tc_cancelTimer_def wp_simps)

lemma wp_tc_setState [wp_simps]: "wp (tc_setState st) Q s = Q (Inr ()) (s\<lparr>tc_state := st\<rparr>)"
  by (simp add: tc_setState_def wp_simps)

lemma wp_tc_setSnapshot [wp_simps]: "wp (tc_setSnapshot sn) Q s = Q (Inr ()) (s\<lparr>tc_snapshot := Some sn\<rparr>)"
  by (simp add: tc_setSnapshot_def wp_simps)

lemma wp_then: "wp m (\<lambda>_. I) s \<Longrightarrow> (\<And>x t. I t \<Longrightarrow> wp (f x) (\<lambda>_. I) t) \<Longrightarrow> wp (andThen m f) (\<lambda>_. I) s"
  unfolding wp_andThen by (erule wp_consequence) (simp split: sum.split)

lemma wp_liftE [wp_simps]: "wp (liftE x) Q s = Q x s"
  by (simp add: wp_def liftE_def)

lemma wp_getS [wp_simps]: "wp getS Q s = Q (Inr s) s"
  by (simp add: wp_def getS_def)

lemma wp_tc_awaitStore [wp_simps]:
  "wp (tc_awaitStore m) Q s = wp m (\<lambda>res r. Q (map_sum TimelineStoreFailed id res) (s\<lparr>tc_repository := r\<rparr>)) (tc_repository s)"
  by (simp add: wp_def tc_awaitStore_def split: prod.splits sum.splits)

lemma wp_tc_armDeadline:
  assumes "tl_step_ok cfg E r s"
  shows "wp (tc_armDeadline d) (\<lambda>_. tl_step_ok cfg E r) s"
  using assms by (simp add: tc_armDeadline_def wp_simps tl_step_ok_frame)

definition stamped :: "TimelineCollectorSnapshotV2 \<Rightarrow> TimelineCollectorSnapshotV2 \<Rightarrow> int \<Rightarrow> TimelineCollectorSnapshotV2" where
  "stamped cand cur now = cand\<lparr>tcs_state := (if tcs_openWindow cand \<noteq> None then ACTIVE_COLLECTING else ACTIVE_EMPTY),
     tcs_revision := tcs_revision cur + 1, tcs_updatedAtMs := now\<rparr>"

text \<open>Saving a candidate snapshot succeeds while the collector holds the stored one.\<close>

lemma tc_save_eq:
  assumes "tc_snapshot s = Some cur" and "jget (tr_collectors (tc_repository s)) (tcs_collectorId cand) = Some cur"
  shows "tc_save cand s = (let sn = stamped cand cur (tc_clock s (tc_ticks s)) in
    (Inr sn, s\<lparr>tc_ticks := Suc (tc_ticks s), tc_repository := (tc_repository s)\<lparr>tr_collectors :=
       jset (tcs_collectorId cand) sn (tr_collectors (tc_repository s))\<rparr>, tc_snapshot := Some sn,
       tc_state := (if tcs_openWindow cand \<noteq> None then ACTIVE_COLLECTING else ACTIVE_EMPTY)\<rparr>))"
  using assms
  by (simp add: tc_save_def op_defs tc_requireSnapshot_def tc_readClock_def tc_awaitStore_def saveCollectorV2_def
      assertExpectedRevision_def assertNextRevision_def tc_setSnapshot_def tc_setState_def stamped_def Let_def ensure_def)

lemma snap_ok_stamped:
  assumes "own_snapshot cfg cand" and "\<And>ow. tcs_openWindow cand = Some ow \<Longrightarrow> otw_goal ow = tcs_activeGoal cand"
  shows "snap_ok cfg (stamped cand cur now)"
  using assms by (auto simp: snap_ok_def stamped_def own_snapshot_def)

lemma snap_events_stamped [simp]: "snap_events (stamped cand cur now) = snap_events cand"
  by (simp add: snap_events_def stamped_def)

lemma wp_tc_save:
  assumes "tl_step_ok cfg E r s" and "own_snapshot cfg cand" and "snap_events cand \<subseteq> pending cfg r \<union> E"
    and "\<And>ow. tcs_openWindow cand = Some ow \<Longrightarrow> otw_goal ow = tcs_activeGoal cand"
    and "tc_snapshot s = Some cur"
  shows "wp (tc_save cand) (\<lambda>res t. (\<exists>sn. res = Inr sn \<and> tc_snapshot t = Some sn \<and> tc_deadlinesDeferred t = tc_deadlinesDeferred s \<and>
    (\<exists>now. sn = stamped cand cur now) \<and> tr_windows (tc_repository t) = tr_windows (tc_repository s)) \<and> tl_step_ok cfg E r t) s"
proof -
  have cid: "tcs_collectorId cand = tcc_collectorId cfg" using assms(2) by (simp add: own_snapshot_def)
  then have j: "jget (tr_collectors (tc_repository s)) (tcs_collectorId cand) = Some cur"
    using assms(1,5) by (simp add: tl_step_ok_def)
  let ?sn = "stamped cand cur (tc_clock s (tc_ticks s))"
  have "tl_step_ok cfg E r (s\<lparr>tc_repository := (tc_repository s)\<lparr>tr_collectors :=
      jset (tcs_collectorId ?sn) ?sn (tr_collectors (tc_repository s))\<rparr>, tc_snapshot := Some ?sn\<rparr>)"
    using tl_step_ok_put [OF assms(1) snap_ok_stamped [OF assms(2,4)]] assms(3) by simp
  then have "tl_step_ok cfg E r (snd (tc_save cand s))"
    unfolding tc_save_eq [OF assms(5) j] Let_def by (simp add: tl_step_ok_def stamped_def)
  then show ?thesis unfolding wp_def tc_save_eq [OF assms(5) j] Let_def by auto
qed

subsection \<open>Sealing\<close>

lemma seal_cases:
  assumes "timeline_repo_inv r" and "sealWindowV2 w sn rv r = (res, r')"
  obtains (refused) e where "res = Inl e" "r' = r"
  | (inserted) sr where "res = Inr sr" "sr_snapshot sr = sn" "sr_window sr = w" "jget (tr_windows r) (tw_windowId w) = None"
      "r' = r\<lparr>tr_windows := jset (tw_windowId w) w (tr_windows r),
         tr_jobs := jset (tw_windowId w) (newTimelineJob w) (tr_jobs r),
         tr_collectors := jset (tcs_collectorId sn) sn (tr_collectors r)\<rparr>"
  | (repeated) sr where "res = Inr sr" "r' = r" "jget (tr_collectors r) (tcs_collectorId sn) = Some (sr_snapshot sr)"
      "jget (tr_windows r) (tw_windowId w) = Some (sr_window sr)"
proof (cases "jget (tr_windows r) (tw_windowId w)")
  case None
  then have "jget (tr_jobs r) (tw_windowId w) = None" using inv_window_exists [OF assms(1)] by simp
  then have eq: "sealWindowV2 w sn rv r =
    (case bindE (assertExpectedRevision (map_option tcs_revision (jget (tr_collectors r) (tcs_collectorId sn))) (Some rv))
        (\<lambda>_. assertNextRevision (tcs_revision sn) (Some rv)) of
       Inl e \<Rightarrow> (Inl e, r)
     | Inr _ \<Rightarrow> (Inr \<lparr>sr_inserted = True, sr_window = w, sr_snapshot = sn, sr_job = newTimelineJob w\<rparr>,
         r\<lparr>tr_windows := jset (tw_windowId w) w (tr_windows r),
         tr_jobs := jset (tw_windowId w) (newTimelineJob w) (tr_jobs r),
         tr_collectors := jset (tcs_collectorId sn) sn (tr_collectors r)\<rparr>))"
    using None unfolding sealWindowV2_def Let_def by simp
  show ?thesis
  proof (cases "bindE (assertExpectedRevision (map_option tcs_revision (jget (tr_collectors r) (tcs_collectorId sn))) (Some rv))
      (\<lambda>_. assertNextRevision (tcs_revision sn) (Some rv))")
    case (Inl e)
    then show ?thesis using eq assms(2) by (intro refused [of e]) simp_all
  next
    case (Inr u)
    then show ?thesis using eq assms(2) None
      by (intro inserted [of "\<lparr>sr_inserted = True, sr_window = w, sr_snapshot = sn, sr_job = newTimelineJob w\<rparr>"]) simp_all
  qed
next
  case (Some ew)
  then obtain j where j: "jget (tr_jobs r) (tw_windowId w) = Some j" using inv_window_exists [OF assms(1)] by fastforce
  show ?thesis
  proof (cases "tw_inputHash ew \<noteq> tw_inputHash w \<or> jget (tr_collectors r) (tcs_collectorId sn) = None")
    case True
    with Some j assms(2) refused show ?thesis by (auto simp: sealWindowV2_def Let_def split: if_splits)
  next
    case False
    then obtain sn' where sn': "jget (tr_collectors r) (tcs_collectorId sn) = Some sn'" by auto
    with False Some j assms(2) show ?thesis
      by (intro repeated [of "\<lparr>sr_inserted = False, sr_window = ew, sr_snapshot = sn', sr_job = j\<rparr>"])
        (simp_all add: sealWindowV2_def Let_def)
  qed
qed

definition emptied :: "TimelineCollectorSnapshotV2 \<Rightarrow> ActiveGoalContext option \<Rightarrow> TimelineWindowV2 \<Rightarrow> int \<Rightarrow> int \<Rightarrow>
    TimelineCollectorSnapshotV2" where
  "emptied cand goal w rv now = cand\<lparr>tcs_state := ACTIVE_EMPTY, tcs_activeGoal := goal, tcs_openWindow := None,
     tcs_contextCandidates := slice_last TIMELINE_CONTEXT_EVENT_LIMIT (filter is_effective (tw_events w)),
     tcs_revision := rv, tcs_updatedAtMs := now\<rparr>"

lemma snap_ok_emptied: "own_snapshot cfg cand \<Longrightarrow> snap_ok cfg (emptied cand goal w rv now)"
  using set_slice_last [of TIMELINE_CONTEXT_EVENT_LIMIT "filter is_effective (tw_events w)"]
  by (auto simp: snap_ok_def own_snapshot_def emptied_def length_slice_last TIMELINE_CONTEXT_EVENT_LIMIT_def)

lemma snap_events_emptied: "snap_events (emptied cand goal w rv now) \<subseteq> set (tw_events w)"
  using set_slice_last [of TIMELINE_CONTEXT_EVENT_LIMIT "filter is_effective (tw_events w)"]
  by (auto simp: snap_events_def emptied_def)

text \<open>
  A seal either fails, and then only the timer and the state field have changed, or stores the
  window of the candidate, or finds that very window already stored.
\<close>

definition sealed_post ::
  "TimelineCollectorSnapshotV2 \<Rightarrow> ActiveGoalContext option \<Rightarrow> TimelineRepositoryV2 \<Rightarrow> TimelineWindowV2 \<Rightarrow> TimelineCollectorV2 \<Rightarrow> bool" where
  "sealed_post cand goal r w t \<longleftrightarrow>
     jget (tr_windows (tc_repository t)) (tw_windowId w) = Some w \<and>
     (jget (tr_windows r) (tw_windowId w) = None \<longrightarrow>
        (\<exists>ow sn. tcs_openWindow cand = Some ow \<and> tw_events w = otw_events ow \<and> tc_snapshot t = Some sn \<and>
           tcs_openWindow sn = None \<and> tcs_recentEventIds sn = tcs_recentEventIds cand \<and>
           tcs_activeGoal sn = goal))"

lemma wp_tc_sealCandidate:
  assumes s: "tl_step_ok cfg E r s" and own: "own_snapshot cfg cand" and ev: "snap_events cand \<subseteq> pending cfg r \<union> E"
    and cur: "tc_snapshot s = Some cur"
  shows "wp (tc_sealCandidate cfg cand reason endedAt goal)
    (\<lambda>res t. tl_step_ok cfg E r t \<and> (\<forall>w. res = Inr w \<longrightarrow> sealed_post cand goal (tc_repository s) w t)) s"
proof (cases "tcs_openWindow cand")
  case None
  then show ?thesis using s by (simp add: tc_sealCandidate_def wp_simps)
next
  case (Some ow)
  then have ok: "open_ok cfg ow" using own by (simp add: own_snapshot_def)
  obtain w where w: "buildTimelineWindow cfg ow reason endedAt (tcs_contextCandidates cand) = Inr w"
    using build_succeeds [OF ok] by blast
  note built = build_ok [OF ok w]
  let ?sn = "emptied cand goal w (tcs_revision cur + 1) (tc_clock s (tc_ticks s))"
  let ?s = "s\<lparr>tc_timer := None, tc_state := SEALED, tc_ticks := Suc (tc_ticks s)\<rparr>"
  have inv: "timeline_repo_inv (tc_repository s)" using s by (simp add: tl_step_ok_def store_ok_def)
  have s': "tl_step_ok cfg E r ?s" using s by (simp add: tl_step_ok_def)
  have content: "window_content w \<subseteq> pending cfg r \<union> E" and evs: "set (tw_events w) \<subseteq> pending cfg r \<union> E"
    using ev built Some by (auto simp: window_content_def snap_events_def)
  have sn: "snap_ok cfg ?sn" "snap_events ?sn \<subseteq> pending cfg r \<union> E"
    using snap_ok_emptied [OF own] snap_events_emptied evs by blast+
  obtain res r' where seal: "sealWindowV2 w ?sn (tcs_revision cur) (tc_repository s) = (res, r')" by fastforce
  have eq: "tc_sealCandidate cfg cand reason endedAt goal s =
    (case res of Inl e \<Rightarrow> (Inl (TimelineStoreFailed e), ?s\<lparr>tc_repository := r'\<rparr>)
     | Inr sr \<Rightarrow> (Inr (sr_window sr), ?s\<lparr>tc_repository := r', tc_snapshot := Some (sr_snapshot sr), tc_state := ACTIVE_EMPTY\<rparr>))"
    using Some open_ok_count [OF ok] w cur seal
    by (simp add: tc_sealCandidate_def op_defs tc_cancelTimer_def tc_setState_def liftE_def tc_requireSnapshot_def
        tc_readClock_def tc_awaitStore_def tc_setSnapshot_def emptied_def split: sum.split)
  show ?thesis
  proof (cases rule: seal_cases [OF inv seal, case_names refused inserted repeated])
    case (refused e)
    then show ?thesis using s unfolding wp_def eq by (simp add: tl_step_ok_def)
  next
    case (inserted sr)
    have "tl_step_ok cfg E r (?s\<lparr>tc_repository := r', tc_snapshot := Some ?sn\<rparr>)"
      using tl_step_ok_put [OF tl_step_ok_window [OF s' _ content] sn] built inserted by simp
    then show ?thesis
      using inserted(1-3) Some built unfolding wp_def eq inserted(5)
      by (simp add: tl_step_ok_def sealed_post_def emptied_def)
  next
    case (repeated sr)
    have "tcs_collectorId ?sn = tcc_collectorId cfg" using sn(1) by (simp add: snap_ok_def own_snapshot_def)
    moreover have "tw_windowId (sr_window sr) = tw_windowId w"
      using repeated(4) inv by (auto simp: timeline_repo_inv_def jobs_wf_def dest: keyed_by_get)
    ultimately show ?thesis using repeated s unfolding wp_def eq by (simp add: tl_step_ok_def sealed_post_def)
  qed
qed

subsection \<open>Ingestion\<close>

lemma seal_first_None:
  assumes "seal_first cfg (Some ow) e = Inr None"
  shows "se_occurredAtMs e \<le> otw_deadlineAtMs ow \<and>
    (se_kind e \<notin> {GoalChanged, PresenceChanged} \<longrightarrow> otw_effectiveEventCount ow < tcc_threshold cfg)"
  using assms by (auto simp: seal_first_def bindE_def split: sum.splits if_splits option.splits)

lemma seal_first_Some: "seal_first cfg ow e = Inr (Some x) \<Longrightarrow> ow \<noteq> None"
  by (cases ow) (simp_all add: seal_first_def)

lemma own_snapshot_goal [simp]: "own_snapshot cfg (sn\<lparr>tcs_activeGoal := g\<rparr>) = own_snapshot cfg sn"
  "snap_events (sn\<lparr>tcs_activeGoal := g\<rparr>) = snap_events sn"
  by (simp_all add: own_snapshot_def snap_events_def)

lemma with_boundary_ok:
  assumes "snap_ok cfg sn" and "contract_event e" and "\<not> is_effective e" and "se_kind e \<noteq> AuthorizationChangedV2"
    and "se_goalVersion e = map_option goal_version (tcs_activeGoal sn)"
    and "\<And>ow. tcs_openWindow sn = Some ow \<Longrightarrow> se_occurredAtMs e \<le> otw_deadlineAtMs ow"
  shows "own_snapshot cfg (with_boundary_event sn e)"
    and "snap_events (with_boundary_event sn e) \<subseteq> insert e (snap_events sn)"
    and "tcs_openWindow (with_boundary_event sn e) = Some ow \<Longrightarrow> otw_goal ow = tcs_activeGoal sn"
proof -
  have op: "open_ok cfg (append_uncounted e ow)" if "tcs_openWindow sn = Some ow" for ow
  proof (rule open_ok_uncounted)
    show "open_ok cfg ow" using assms(1) that by (simp add: snap_ok_def own_snapshot_def)
    then show "se_goalVersion e = otw_goalVersion ow" using assms(1,5) that by (simp add: snap_ok_def open_ok_def)
  qed (use assms that in auto)
  show "own_snapshot cfg (with_boundary_event sn e)"
    using assms(1) op own_recent [of cfg sn] by (auto simp: snap_ok_def own_snapshot_def with_boundary_event_def)
  show "snap_events (with_boundary_event sn e) \<subseteq> insert e (snap_events sn)"
    by (auto simp: snap_events_def with_boundary_event_def append_uncounted_def split: option.splits)
  show "tcs_openWindow (with_boundary_event sn e) = Some ow \<Longrightarrow> otw_goal ow = tcs_activeGoal sn"
    using assms(1) by (auto simp: snap_ok_def with_boundary_event_def append_uncounted_def)
qed

lemma with_boundary_activeGoal: "tcs_activeGoal (with_boundary_event sn e) = tcs_activeGoal sn"
  by (simp add: with_boundary_event_def)

lemma not_effective_kind: "contract_event e \<Longrightarrow> se_kind e \<in> {GoalChanged, PresenceChanged} \<Longrightarrow> \<not> is_effective e"
  using is_effective_kind by blast

text \<open>A boundary event that finds a window open seals it; otherwise it is recorded.\<close>

lemma wp_goalBoundary:
  assumes s: "tl_step_ok cfg E r s" and sn: "tc_snapshot s = Some sn" and e: "contract_event e" "e \<in> E"
    and due: "\<And>ow. tcs_openWindow sn = Some ow \<Longrightarrow> se_occurredAtMs e \<le> otw_deadlineAtMs ow"
  shows "wp (tc_handleGoalBoundary cfg e) (\<lambda>_. tl_step_ok cfg E r) s"
proof (cases "se_kind e = GoalChanged \<and> map_of (se_payload e) ''previous'' \<noteq> None \<and> map_of (se_payload e) ''next'' \<noteq> None \<and>
    se_goalVersion e = map_option goal_version (tcs_activeGoal sn) \<and>
    map_option goal_version (goalPayload e ''previous'') = map_option goal_version (tcs_activeGoal sn)")
  case False
  then show ?thesis using s sn by (auto simp: tc_handleGoalBoundary_def wp_simps Let_def)
next
  case True
  let ?next = "goalPayload e ''next''"
  let ?cand = "(with_boundary_event sn e)\<lparr>tcs_activeGoal := ?next\<rparr>"
  note snap = tl_step_ok_snap [OF s sn]
  have b: "own_snapshot cfg ?cand" "snap_events ?cand \<subseteq> pending cfg r \<union> E"
    using with_boundary_ok(1,2) [OF conjunct1 [OF snap] e(1) not_effective_kind [OF e(1)] _ _ due] True snap e(2)
    by (auto dest!: subsetD)
  have open_none: "tcs_openWindow ?cand = Some ow \<Longrightarrow> tcs_openWindow sn \<noteq> None" for ow
    by (auto simp: with_boundary_event_def)
  show ?thesis
  proof (cases "tcs_openWindow sn")
    case None
    have "wp (tc_save ?cand) (\<lambda>_. tl_step_ok cfg E r) s"
      by (rule wp_consequence [OF wp_tc_save [OF s b _ sn]]) (use open_none None in auto)
    with True sn None show ?thesis
      by (auto simp: tc_handleGoalBoundary_def wp_simps Let_def elim!: wp_consequence split: sum.split)
  next
    case (Some ow)
    have "wp (tc_sealCandidate cfg ?cand goal_boundary (max (se_occurredAtMs e) (latestEventAt ow)) ?next)
        (\<lambda>_. tl_step_ok cfg E r) s"
      by (rule wp_consequence [OF wp_tc_sealCandidate [OF s b sn]]) simp
    with True sn Some show ?thesis
      by (auto simp: tc_handleGoalBoundary_def wp_simps Let_def elim!: wp_consequence split: sum.split)
  qed
qed

lemma wp_presenceBoundary:
  assumes s: "tl_step_ok cfg E r s" and sn: "tc_snapshot s = Some sn" and e: "contract_event e" "e \<in> E"
    and "se_kind e = PresenceChanged" and "se_goalVersion e = map_option goal_version (tcs_activeGoal sn)"
    and due: "\<And>ow. tcs_openWindow sn = Some ow \<Longrightarrow> se_occurredAtMs e \<le> otw_deadlineAtMs ow"
  shows "wp (tc_handlePresenceBoundary cfg e) (\<lambda>_. tl_step_ok cfg E r) s"
proof -
  let ?cand = "with_boundary_event sn e"
  note snap = tl_step_ok_snap [OF s sn]
  note b0 = with_boundary_ok [OF conjunct1 [OF snap] e(1) not_effective_kind [OF e(1)] _ assms(6) due]
  have b: "own_snapshot cfg ?cand" "snap_events ?cand \<subseteq> pending cfg r \<union> E"
    using b0(1,2) assms(5) snap e(2) by (auto dest!: subsetD)
  show ?thesis
  proof (cases "tcs_openWindow sn")
    case None
    then have "wp (tc_save ?cand) (\<lambda>_. tl_step_ok cfg E r) s"
      by (intro wp_consequence [OF wp_tc_save [OF s b _ sn]]) (auto simp: with_boundary_event_def)
    with sn None show ?thesis
      by (auto simp: tc_handlePresenceBoundary_def wp_simps Let_def elim!: wp_consequence split: sum.split)
  next
    case (Some ow)
    have "wp (tc_sealCandidate cfg ?cand presence_boundary (max (se_observedAtMs e) (latestEventAt ow))
        (tcs_activeGoal ?cand)) (\<lambda>_. tl_step_ok cfg E r) s"
      by (rule wp_consequence [OF wp_tc_sealCandidate [OF s b sn]]) simp
    with sn Some show ?thesis
      by (auto simp: tc_handlePresenceBoundary_def wp_simps Let_def elim!: wp_consequence split: sum.split)
  qed
qed

text \<open>An authorization boundary always succeeds, drops what is pending and seals nothing.\<close>

lemma wp_reset:
  assumes s: "tl_step_ok cfg E r s" and sn: "tc_snapshot s = Some sn"
  shows "wp (tc_resetForAuthorizationBoundary c i) (\<lambda>res t. res = Inr () \<and> tl_step_ok cfg E r t \<and>
    tr_windows (tc_repository t) = tr_windows (tc_repository s) \<and> pending cfg (tc_repository t) = {}) s"
proof -
  let ?s = "s\<lparr>tc_timer := None\<rparr>"
  let ?cand = "sn\<lparr>tcs_state := ACTIVE_EMPTY, tcs_openWindow := None, tcs_contextCandidates := [],
       tcs_recentEventIds := (case i of None \<Rightarrow> tcs_recentEventIds sn | Some i \<Rightarrow> addRecent sn i),
       tcs_materializedCursor := (case c of None \<Rightarrow> tcs_materializedCursor sn | Some c \<Rightarrow> Some c)\<rparr>"
  have "own_snapshot cfg ?cand"
    using tl_step_ok_snap [OF s sn] own_recent [of cfg sn] by (auto simp: snap_ok_def own_snapshot_def split: option.split)
  then have "wp (tc_save ?cand) (\<lambda>res t. (\<exists>sn'. res = Inr sn' \<and> tc_snapshot t = Some sn' \<and>
      (\<exists>now. sn' = stamped ?cand sn now) \<and> tr_windows (tc_repository t) = tr_windows (tc_repository ?s)) \<and> tl_step_ok cfg E r t) ?s"
    using s sn by (intro wp_consequence [OF wp_tc_save [where s = ?s and cur = sn]])
      (auto simp: tl_step_ok_frame snap_events_def)
  then show ?thesis
    unfolding tc_resetForAuthorizationBoundary_def
    by (simp add: wp_simps sn) (erule wp_consequence, auto simp: wp_simps tl_step_ok_def pending_def snap_events_def stamped_def)
qed

lemma wp_ingestUncounted:
  assumes s: "tl_step_ok cfg E r s" and sn: "tc_snapshot s = Some sn" and e: "contract_event e" "e \<in> E"
    and "\<not> is_effective e" and "se_kind e \<noteq> AuthorizationChangedV2"
    and "se_goalVersion e = map_option goal_version (tcs_activeGoal sn)"
    and due: "\<And>ow. tcs_openWindow sn = Some ow \<Longrightarrow> se_occurredAtMs e \<le> otw_deadlineAtMs ow"
  shows "wp (tc_ingestUncounted sn e) (\<lambda>_. tl_step_ok cfg E r) s"
proof -
  note snap = tl_step_ok_snap [OF s sn]
  note b = with_boundary_ok [OF conjunct1 [OF snap] e(1) assms(5-7) due]
  have ev: "snap_events (with_boundary_event sn e) \<subseteq> pending cfg r \<union> E" using b(2) snap e(2) by blast
  have goal: "tcs_openWindow (with_boundary_event sn e) = Some ow \<Longrightarrow>
      otw_goal ow = tcs_activeGoal (with_boundary_event sn e)" for ow
    unfolding with_boundary_activeGoal by (rule b(3))
  have "wp (tc_save (with_boundary_event sn e)) (\<lambda>_. tl_step_ok cfg E r) s"
    by (rule wp_consequence [OF wp_tc_save [OF s b(1) ev goal sn]]) blast+
  then show ?thesis by (auto simp: tc_ingestUncounted_def wp_simps elim!: wp_consequence split: sum.split)
qed

text \<open>The window an effective event ends up in, and the snapshot that holds it.\<close>

definition opened :: "TimelineCollectorConfig \<Rightarrow> TimelineCollectorSnapshotV2 \<Rightarrow> SemanticEventV2 \<Rightarrow> OpenTimelineWindowV2" where
  "opened cfg sn e = (case tcs_openWindow sn of Some ow \<Rightarrow> appendEffective ow e
     | None \<Rightarrow> startWindow e (tcs_activeGoal sn) (tcc_maxWaitMs cfg))"

definition with_effective :: "TimelineCollectorConfig \<Rightarrow> TimelineCollectorSnapshotV2 \<Rightarrow> SemanticEventV2 \<Rightarrow> TimelineCollectorSnapshotV2" where
  "with_effective cfg sn e = sn\<lparr>tcs_state := ACTIVE_COLLECTING, tcs_openWindow := Some (opened cfg sn e),
     tcs_recentEventIds := addRecent sn (se_eventId e), tcs_materializedCursor := Some (se_cursor e)\<rparr>"

lemma with_effective_ok:
  assumes "snap_ok cfg sn" and "config_ok cfg" and "contract_event e" and "is_effective e"
    and "se_goalVersion e = map_option goal_version (tcs_activeGoal sn)"
    and "seal_first cfg (tcs_openWindow sn) e = Inr None"
  shows "own_snapshot cfg (with_effective cfg sn e)"
    and "snap_events (with_effective cfg sn e) \<subseteq> insert e (snap_events sn)"
    and "otw_goal (opened cfg sn e) = tcs_activeGoal sn"
proof -
  have "open_ok cfg (opened cfg sn e)"
  proof (cases "tcs_openWindow sn")
    case None
    then show ?thesis using open_ok_start [OF assms(2-5)] by (simp add: opened_def)
  next
    case (Some ow)
    then have ow: "open_ok cfg ow" "otw_goal ow = tcs_activeGoal sn" using assms(1) by (auto simp: snap_ok_def own_snapshot_def)
    then have "se_goalVersion e = otw_goalVersion ow" using assms(5) by (simp add: open_ok_def)
    then show ?thesis
      using open_ok_append [OF ow(1) assms(3,4)] seal_first_None [of cfg ow e] assms(6) is_effective_kind [OF assms(3,4)] Some
      by (simp add: opened_def)
  qed
  then show "own_snapshot cfg (with_effective cfg sn e)"
    using assms(1) own_recent [of cfg sn] by (simp add: snap_ok_def own_snapshot_def with_effective_def)
  show "snap_events (with_effective cfg sn e) \<subseteq> insert e (snap_events sn)"
    by (auto simp: snap_events_def with_effective_def opened_def appendEffective_def startWindow_def split: option.splits)
  show "otw_goal (opened cfg sn e) = tcs_activeGoal sn"
    using assms(1) by (simp add: opened_def snap_ok_def appendEffective_def startWindow_def split: option.split)
qed

lemma ingestEffective_eq:
  "tc_ingestEffective cfg sn e =
      andThen (tc_setState ACTIVE_COLLECTING) (\<lambda>_.
      if tcc_threshold cfg \<le> otw_effectiveEventCount (opened cfg sn e)
      then if tcc_onCountReady cfg
           then andThen tc_cancelTimer (\<lambda>_. andThen (tc_save (with_effective cfg sn e)) (\<lambda>_.
                andThen (modifyS (\<lambda>s. s\<lparr>tc_countReadyCalls := tc_countReadyCalls s @ [se_occurredAtMs e]\<rparr>)) (\<lambda>_. ret None)))
           else andThen (tc_sealCandidate cfg (with_effective cfg sn e) event_count (se_occurredAtMs e) (tcs_activeGoal (with_effective cfg sn e))) (\<lambda>w. ret (Some w))
      else andThen (tc_save (with_effective cfg sn e)) (\<lambda>_. andThen getS (\<lambda>s.
           andThen (if tc_deadlinesDeferred s then ret () else tc_armDeadline (otw_deadlineAtMs (opened cfg sn e))) (\<lambda>_. ret None))))"
  unfolding tc_ingestEffective_def Let_def with_effective_def opened_def by simp

lemma wp_ingestEffective:
  assumes s: "tl_step_ok cfg E r s" and sn: "tc_snapshot s = Some sn" and cfg: "config_ok cfg"
    and e: "contract_event e" "e \<in> E" "is_effective e"
    and "se_goalVersion e = map_option goal_version (tcs_activeGoal sn)"
    and "seal_first cfg (tcs_openWindow sn) e = Inr None"
  shows "wp (tc_ingestEffective cfg sn e) (\<lambda>_. tl_step_ok cfg E r) s"
proof -
  let ?cand = "with_effective cfg sn e" and ?ow = "opened cfg sn e"
  note snap = tl_step_ok_snap [OF s sn]
  note b = with_effective_ok [OF conjunct1 [OF snap] cfg e(1,3) assms(7,8)]
  have ev: "snap_events ?cand \<subseteq> pending cfg r \<union> E" using b(2) snap e(2) by blast
  have goal: "tcs_openWindow ?cand = Some ow \<Longrightarrow> otw_goal ow = tcs_activeGoal ?cand" for ow
    using b(3) by (simp add: with_effective_def)
  have save: "wp (tc_save ?cand) (\<lambda>_. tl_step_ok cfg E r) t" if "tl_step_ok cfg E r t" "tc_snapshot t = Some sn" for t
    by (rule wp_consequence [OF wp_tc_save [OF that(1) b(1) ev goal that(2)]]) blast+
  have seal: "wp (tc_sealCandidate cfg ?cand reason x g) (\<lambda>_. tl_step_ok cfg E r) t"
    if "tl_step_ok cfg E r t" "tc_snapshot t = Some sn" for t reason x g
    by (rule wp_consequence [OF wp_tc_sealCandidate [OF that(1) b(1) ev that(2)]]) simp
  let ?s = "s\<lparr>tc_state := ACTIVE_COLLECTING\<rparr>"
  have s1: "tl_step_ok cfg E r ?s" "tc_snapshot ?s = Some sn" "tl_step_ok cfg E r (?s\<lparr>tc_timer := None\<rparr>)"
    "tc_snapshot (?s\<lparr>tc_timer := None\<rparr>) = Some sn"
    using s sn by (simp_all add: tl_step_ok_frame)
  have arm: "wp (andThen getS (\<lambda>s. andThen (if tc_deadlinesDeferred s then ret () else tc_armDeadline d) (\<lambda>_. ret (None :: TimelineWindowV2 option))))
      (\<lambda>_. tl_step_ok cfg E r) t" if "tl_step_ok cfg E r t" for t d
    unfolding wp_andThen [of getS] using that
    by (simp add: wp_getS) (intro wp_then conjI impI, simp_all add: wp_simps wp_tc_armDeadline)
  have counted: "wp (andThen (modifyS (\<lambda>s. s\<lparr>tc_countReadyCalls := f s\<rparr>)) (\<lambda>_. ret (None :: TimelineWindowV2 option))) (\<lambda>_. tl_step_ok cfg E r) t"
    if "tl_step_ok cfg E r t" for t f
    using that by (simp add: wp_simps tl_step_ok_frame)
  note p1 = wp_then [OF save [OF s1(3,4)] counted [of _ "\<lambda>s. tc_countReadyCalls s @ [se_occurredAtMs e]"]]
    and p2 = wp_then [OF seal [OF s1(1,2)], of "\<lambda>w. ret (Some w)"]
    and p3 = wp_then [OF save [OF s1(1,2)] arm [of _ "otw_deadlineAtMs ?ow"]]
  show ?thesis
    unfolding ingestEffective_eq wp_andThen [of "tc_setState ACTIVE_COLLECTING"] wp_tc_setState
    using p1 p2 p3 by (simp add: wp_ret wp_andThen [of tc_cancelTimer] wp_tc_cancelTimer)
qed

lemma wp_ingestCurrent:
  assumes s: "tl_step_ok cfg E r s" and sn: "tc_snapshot s = Some sn" and cfg: "config_ok cfg"
    and e: "contract_event e" "e \<in> E" "se_kind e \<noteq> AuthorizationChangedV2"
    and first: "seal_first cfg (tcs_openWindow sn) e = Inr None"
  shows "wp (tc_ingestCurrent cfg sn e) (\<lambda>_. tl_step_ok cfg E r) s"
proof -
  have due: "tcs_openWindow sn = Some ow \<Longrightarrow> se_occurredAtMs e \<le> otw_deadlineAtMs ow" for ow
    using seal_first_None [of cfg ow e] first by simp
  show ?thesis
    using wp_goalBoundary [OF s sn e(1,2) due] wp_presenceBoundary [OF s sn e(1,2) _ _ due]
      wp_ingestUncounted [OF s sn e(1,2) _ e(3) _ due] wp_ingestEffective [OF s sn cfg e(1,2) _ _ first] s
    unfolding tc_ingestCurrent_def by (auto simp: wp_simps)
qed

lemma wp_tc_seal:
  assumes "tl_step_ok cfg E r s"
  shows "wp (tc_seal cfg reason x) (\<lambda>_. tl_step_ok cfg E r) s"
proof (cases "tc_snapshot s")
  case (Some sn)
  note snap = tl_step_ok_snap [OF assms Some]
  have "wp (tc_sealCandidate cfg sn reason x (tcs_activeGoal sn)) (\<lambda>_. tl_step_ok cfg E r) s"
    by (rule wp_consequence [OF wp_tc_sealCandidate [OF assms _ _ Some]]) (use snap in \<open>auto simp: snap_ok_def\<close>)
  then show ?thesis by (simp add: tc_seal_def wp_simps Some)
qed (use assms in \<open>simp add: tc_seal_def wp_simps\<close>)

lemma wp_ingestSerialized:
  assumes "tl_step_ok cfg E r s" and "config_ok cfg" and "contract_event e" and "e \<in> E"
  shows "wp (tc_ingestSerialized n cfg e) (\<lambda>_. tl_step_ok cfg E r) s"
  using assms(1)
proof (induction n arbitrary: s)
  case 0
  then show ?case by (simp add: wp_simps)
next
  case (Suc n)
  show ?case
  proof (cases "tc_snapshot s")
    case (Some sn)
    have auth: "wp (tc_handleAuthorizationBoundary e) (\<lambda>_. tl_step_ok cfg E r) s"
      unfolding tc_handleAuthorizationBoundary_def
      by (simp, rule wp_consequence [OF wp_reset [OF Suc.prems Some]]) simp
    have again: "wp (andThen (tc_seal cfg reason x) (\<lambda>sealed. andThen (tc_ingestSerialized n cfg e) (\<lambda>_. ret (Some sealed))))
        (\<lambda>_. tl_step_ok cfg E r) s" for reason x
      by (intro wp_then wp_tc_seal [OF Suc.prems] Suc.IH) (simp_all add: wp_simps)
    show ?thesis
    proof (cases "se_eventId e \<in> set (tcs_recentEventIds sn) \<or> se_kind e = AuthorizationChangedV2")
      case True
      with Some Suc.prems auth show ?thesis by (auto simp: wp_simps elim!: wp_consequence split: sum.split)
    next
      case False
      then show ?thesis
        using Some Suc.prems again wp_ingestCurrent [OF Suc.prems Some assms(2-4)]
        by (auto simp: wp_simps split: sum.split option.split)
    qed
  qed (use Suc.prems in \<open>simp add: wp_simps\<close>)
qed

subsection \<open>The other operations\<close>

lemma wp_settleOpen:
  assumes "tl_step_ok cfg E r s"
  shows "wp (tc_settleOpen cfg arm ow) (\<lambda>_. tl_step_ok cfg E r) s"
proof -
  have seal: "wp (andThen (tc_seal cfg reason x) (\<lambda>w. ret (Some w))) (\<lambda>_. tl_step_ok cfg E r) t"
    if "tl_step_ok cfg E r t" for t reason x
    by (rule wp_then [OF wp_tc_seal [OF that]]) (simp add: wp_simps)
  have arm': "wp (andThen (tc_armDeadline x) (\<lambda>_. ret (None :: TimelineWindowV2 option))) (\<lambda>_. tl_step_ok cfg E r) t"
    if "tl_step_ok cfg E r t" for t x
    by (rule wp_then [OF wp_tc_armDeadline [OF that]]) (simp add: wp_simps)
  show ?thesis
    unfolding tc_settleOpen_def
    using assms seal arm'
    by (auto simp: wp_andThen [of "liftE x" for x] wp_liftE wp_andThen [of tc_readClock] wp_tc_readClock wp_ret tl_step_ok_frame
        split: sum.split)
qed

lemma wp_recover_load:
  assumes s: "tl_step_ok cfg E r s" and cfg: "config_ok cfg"
  shows "wp (andThen (tc_awaitStore (loadCollectorV2 (tcc_collectorId cfg))) (\<lambda>recovered.
     case recovered of
       Some sn \<Rightarrow> andThen (liftE (tc_assertIdentity cfg sn)) (\<lambda>_. andThen (liftE (tc_assertSnapshot sn)) (\<lambda>_.
         andThen (tc_setSnapshot sn) (\<lambda>_. ret sn)))
     | None \<Rightarrow> andThen tc_readClock (\<lambda>now. andThen (tc_awaitStore (saveCollectorV2 (tc_initialSnapshot cfg now) None)) (\<lambda>saved.
         andThen (tc_setSnapshot saved) (\<lambda>_. ret saved))))) (\<lambda>_. tl_step_ok cfg E r) s"
proof (cases "jget (tr_collectors (tc_repository s)) (tcc_collectorId cfg)")
  case None
  let ?sn = "tc_initialSnapshot cfg (tc_clock s (tc_ticks s))"
  have sn: "snap_ok cfg ?sn" "snap_events ?sn \<subseteq> pending cfg r \<union> E" "tcs_collectorId ?sn = tcc_collectorId cfg"
    by (simp_all add: snap_ok_def own_snapshot_def tc_initialSnapshot_def snap_events_def)
  have "saveCollectorV2 ?sn None (tc_repository s) = (Inr ?sn,
      (tc_repository s)\<lparr>tr_collectors := jset (tcs_collectorId ?sn) ?sn (tr_collectors (tc_repository s))\<rparr>)"
    using None by (simp add: saveCollectorV2_def Let_def assertExpectedRevision_def assertNextRevision_def
        ensure_def tc_initialSnapshot_def)
  with None tl_step_ok_put [OF s sn(1,2)] show ?thesis
    by (simp add: wp_def op_defs tc_awaitStore_def loadCollectorV2_def tc_readClock_def tc_setSnapshot_def tl_step_ok_def)
next
  case (Some sn)
  then have snap: "snap_ok cfg sn" using s by (simp add: tl_step_ok_def store_ok_def)
  then have "tc_assertIdentity cfg sn = Inr ()" by (simp add: tc_assertIdentity_def ensure_def snap_ok_def own_snapshot_def)
  moreover have "tc_assertSnapshot sn = Inr ()"
  proof (cases "tcs_openWindow sn")
    case (Some ow)
    then have "open_ok cfg ow" using snap by (simp add: snap_ok_def own_snapshot_def)
    with Some open_ok_count [of cfg ow] show ?thesis by (auto simp: tc_assertSnapshot_def open_ok_def)
  qed (simp add: tc_assertSnapshot_def)
  ultimately show ?thesis using Some s
    by (simp add: wp_def op_defs tc_awaitStore_def loadCollectorV2_def liftE_def tc_setSnapshot_def tl_step_ok_def)
qed

lemma wp_recover:
  assumes "tl_step_ok cfg E r s" and "config_ok cfg"
  shows "wp (tc_recover cfg deferred) (\<lambda>_. tl_step_ok cfg E r) s"
proof -
  let ?load = "andThen (tc_awaitStore (loadCollectorV2 (tcc_collectorId cfg))) (\<lambda>recovered.
     case recovered of
       Some sn \<Rightarrow> andThen (liftE (tc_assertIdentity cfg sn)) (\<lambda>_. andThen (liftE (tc_assertSnapshot sn)) (\<lambda>_.
         andThen (tc_setSnapshot sn) (\<lambda>_. ret sn)))
     | None \<Rightarrow> andThen tc_readClock (\<lambda>now. andThen (tc_awaitStore (saveCollectorV2 (tc_initialSnapshot cfg now) None)) (\<lambda>saved.
         andThen (tc_setSnapshot saved) (\<lambda>_. ret saved))))"
  have eq: "tc_recover cfg deferred = andThen tc_cancelTimer (\<lambda>_. andThen (tc_setState RECOVERING) (\<lambda>_.
      andThen (modifyS (\<lambda>s. s\<lparr>tc_deadlinesDeferred := deferred\<rparr>)) (\<lambda>_. andThen ?load (\<lambda>sn.
        case tcs_openWindow sn of
          None \<Rightarrow> tc_setState ACTIVE_EMPTY
        | Some ow \<Rightarrow> andThen (tc_setState ACTIVE_COLLECTING) (\<lambda>_.
            if deferred then ret () else andThen (tc_settleOpen cfg True ow) (\<lambda>_. ret ()))))))"
    unfolding tc_recover_def andThen_assoc by simp
  have settle: "wp (andThen (tc_settleOpen cfg True ow) (\<lambda>_. ret ())) (\<lambda>_. tl_step_ok cfg E r) t" if "tl_step_ok cfg E r t" for t ow
    by (rule wp_then [OF wp_settleOpen [OF that]]) (simp add: wp_simps)
  have rest: "wp (case tcs_openWindow sn of
        None \<Rightarrow> tc_setState ACTIVE_EMPTY
      | Some ow \<Rightarrow> andThen (tc_setState ACTIVE_COLLECTING) (\<lambda>_.
          if deferred then ret () else andThen (tc_settleOpen cfg True ow) (\<lambda>_. ret ())))
      (\<lambda>_. tl_step_ok cfg E r) t" if "tl_step_ok cfg E r t" for sn t
    using that settle
    by (auto simp: wp_tc_setState wp_andThen [of "tc_setState x" for x] wp_ret tl_step_ok_frame split: option.split)
  have "tl_step_ok cfg E r (s\<lparr>tc_timer := None, tc_state := RECOVERING, tc_deadlinesDeferred := deferred\<rparr>)"
    using assms(1) by (simp add: tl_step_ok_frame)
  from wp_then [OF wp_recover_load [OF this assms(2)] rest] show ?thesis
    unfolding eq wp_andThen [of tc_cancelTimer] wp_tc_cancelTimer wp_andThen [of "tc_setState x" for x] wp_tc_setState
      wp_andThen [of "modifyS f" for f] wp_modifyS by simp
qed

lemma wp_resume: "tl_step_ok cfg E r s \<Longrightarrow> wp (tc_resumeDeadlines cfg) (\<lambda>_. tl_step_ok cfg E r) s"
  using wp_settleOpen [of cfg E r "s\<lparr>tc_deadlinesDeferred := False\<rparr>"]
  by (auto simp: tc_resumeDeadlines_def wp_andThen [of "modifyS f" for f] wp_modifyS wp_andThen [of tc_requireSnapshot]
      wp_tc_requireSnapshot wp_ret tl_step_ok_frame split: option.split)

lemma wp_flushDue: "tl_step_ok cfg E r s \<Longrightarrow> wp (tc_flushDue cfg) (\<lambda>_. tl_step_ok cfg E r) s"
  using wp_settleOpen [of cfg E r s]
  by (auto simp: tc_flushDue_def wp_andThen [of tc_requireSnapshot] wp_tc_requireSnapshot wp_ret split: option.split)

lemma wp_flushCountDue:
  assumes "tl_step_ok cfg E r s"
  shows "wp (tc_flushCountDue cfg) (\<lambda>_. tl_step_ok cfg E r) s"
proof -
  have "wp (andThen (tc_seal cfg event_count x) (\<lambda>w. ret (Some w))) (\<lambda>_. tl_step_ok cfg E r) s" for x
    by (rule wp_then [OF wp_tc_seal [OF assms]]) (simp add: wp_simps)
  then show ?thesis using assms
    by (auto simp: tc_flushCountDue_def wp_andThen [of tc_requireSnapshot] wp_tc_requireSnapshot wp_ret
        wp_andThen [of "liftE x" for x] wp_liftE split: option.split sum.split)
qed

lemma wp_tc_discard: "tl_step_ok cfg E r s \<Longrightarrow> wp (tc_discardForAuthorizationRevocation c) (\<lambda>_. tl_step_ok cfg E r) s"
proof (cases "tc_snapshot s")
  case None
  assume "tl_step_ok cfg E r s"
  with None show ?thesis
    by (simp add: tc_discardForAuthorizationRevocation_def tc_resetForAuthorizationBoundary_def wp_simps tl_step_ok_frame)
next
  case (Some sn)
  assume "tl_step_ok cfg E r s"
  then show ?thesis unfolding tc_discardForAuthorizationRevocation_def
    by (intro wp_consequence [OF wp_reset [OF _ Some]]) auto
qed

lemma wp_fireTimer: "tl_step_ok cfg E r s \<Longrightarrow> wp (tc_fireTimer cfg) (\<lambda>_. tl_step_ok cfg E r) s"
  using wp_then [OF wp_flushDue, of cfg E r "s\<lparr>tc_timer := None\<rparr>" "\<lambda>_. ret ()"]
  by (auto simp: tc_fireTimer_def wp_andThen [of getS] wp_getS wp_andThen [of tc_cancelTimer] wp_tc_cancelTimer
      wp_ret wp_modifyS tl_step_ok_frame split: option.split)

lemma wp_dispose: "tl_step_ok cfg E r s \<Longrightarrow> wp tc_dispose (\<lambda>_. tl_step_ok cfg E r) s"
  by (simp add: tc_dispose_def wp_modifyS tl_step_ok_def)

subsection \<open>Runs of the collector\<close>

text \<open>
  A run: calls of the collector's methods in any order, its timer, restarts on the same store,
  and what the job runner and the delivery do to the store in between. The list holds the events
  taken in, which the contract of semantic events has admitted.
\<close>

inductive timeline_run ::
  "(string \<Rightarrow> nat list) \<Rightarrow> TimelineCollectorConfig \<Rightarrow> SemanticEventV2 list \<Rightarrow> TimelineCollectorV2 \<Rightarrow> TimelineCollectorV2 \<Rightarrow> bool"
  for digest cfg where
  run_start: "timeline_run digest cfg [] s s"
| run_ingest: "timeline_run digest cfg es s t \<Longrightarrow> contract_event e \<Longrightarrow>
    timeline_run digest cfg (es @ [e]) s (snd (tc_ingest depth cfg e t))"
| run_recover: "timeline_run digest cfg es s t \<Longrightarrow> timeline_run digest cfg es s (snd (tc_recover cfg deferred t))"
| run_resume: "timeline_run digest cfg es s t \<Longrightarrow> timeline_run digest cfg es s (snd (tc_resumeDeadlines cfg t))"
| run_flushCount: "timeline_run digest cfg es s t \<Longrightarrow> timeline_run digest cfg es s (snd (tc_flushCountDue cfg t))"
| run_flush: "timeline_run digest cfg es s t \<Longrightarrow> timeline_run digest cfg es s (snd (tc_flushDue cfg t))"
| run_discard: "timeline_run digest cfg es s t \<Longrightarrow>
    timeline_run digest cfg es s (snd (tc_discardForAuthorizationRevocation c t))"
| run_timer: "timeline_run digest cfg es s t \<Longrightarrow> timeline_run digest cfg es s (snd (tc_fireTimer cfg t))"
| run_dispose: "timeline_run digest cfg es s t \<Longrightarrow> timeline_run digest cfg es s (snd (tc_dispose t))"
| run_restart: "timeline_run digest cfg es s t \<Longrightarrow> new_timeline_collector cfg (tc_repository t) clock = Inr u \<Longrightarrow>
    timeline_run digest cfg es s u"
| run_background: "timeline_run digest cfg es s t \<Longrightarrow> timeline_step digest (tc_repository t) r \<Longrightarrow>
    tr_collectors r = tr_collectors (tc_repository t) \<Longrightarrow> tr_windows r = tr_windows (tc_repository t) \<Longrightarrow>
    timeline_run digest cfg es s (t\<lparr>tc_repository := r\<rparr>)"

lemma new_collector_ok:
  assumes "new_timeline_collector cfg r clock = Inr s"
  shows "config_ok cfg \<and> tc_repository s = r \<and> tc_snapshot s = None"
  using assms by (auto simp: new_timeline_collector_def config_ok_def split: if_splits)

lemma tl_step_ok_mono: "tl_step_ok cfg E r s \<Longrightarrow> E \<subseteq> F \<Longrightarrow> tl_step_ok cfg F r s"
  unfolding tl_step_ok_def grows_def by blast

lemma tl_step_ok_background:
  assumes "tl_step_ok cfg E q t" and "timeline_step digest (tc_repository t) r"
    and "tr_collectors r = tr_collectors (tc_repository t)" and "tr_windows r = tr_windows (tc_repository t)"
  shows "tl_step_ok cfg E q (t\<lparr>tc_repository := r\<rparr>)"
  using assms timeline_step_inv [OF assms(2)] by (simp add: tl_step_ok_def store_ok_def grows_def pending_def)

lemma run_step_ok:
  assumes "timeline_run digest cfg es s t" and "config_ok cfg" and "tl_step_ok cfg {} r s"
  shows "tl_step_ok cfg (set es) r t"
  using assms(1,3)
proof (induction rule: timeline_run.induct)
  case (run_ingest es s t e depth)
  have "wp (tc_ingestSerialized depth cfg e) (\<lambda>_. tl_step_ok cfg (set (es @ [e])) r) t"
    using run_ingest by (intro wp_ingestSerialized [OF tl_step_ok_mono assms(2)]) auto
  then show ?case unfolding tc_ingest_def by (rule wp_snd)
next
  case (run_recover es s t deferred)
  then show ?case by (intro wp_snd [OF wp_recover [OF _ assms(2)]]) auto
next
  case (run_restart es s t clock u)
  then show ?case using new_collector_ok [of cfg "tc_repository t" clock u] by (simp add: tl_step_ok_def)
next
  case (run_background es s t q)
  then show ?case by (intro tl_step_ok_background) auto
qed (auto intro: wp_snd [OF wp_resume] wp_snd [OF wp_flushCountDue] wp_snd [OF wp_flushDue] wp_snd [OF wp_tc_discard]
    wp_snd [OF wp_fireTimer] wp_snd [OF wp_dispose])

lemma new_step_ok:
  assumes "new_timeline_collector cfg empty_timeline_repository clock = Inr s"
  shows "tl_step_ok cfg {} empty_timeline_repository s"
  using new_collector_ok [OF assms] timeline_repo_inv_empty
  by (simp add: tl_step_ok_def store_ok_def empty_timeline_repository_def grows_refl)

text \<open>C9: every window the collector seals is well formed, however its calls, the clock, restarts
  and the rest of the timeline interleave: it holds between one effective event and the
  threshold, all of one goal version and none an authorization event, its cursors are those of
  its first and last event, every event lies within its bounds and before the deadline counted
  from the first one, and its context is at most five effective events of the 30 seconds before.\<close>

theorem sealed_windows_well_formed:
  assumes "new_timeline_collector cfg empty_timeline_repository clock = Inr s0" and "timeline_run digest cfg es s0 s"
    and "w \<in> set (jvalues (tr_windows (tc_repository s)))" and "tw_collectorId w = tcc_collectorId cfg"
  shows "tl_window_ok cfg w"
proof -
  have "config_ok cfg" using new_collector_ok [OF assms(1)] by simp
  with run_step_ok [OF assms(2)] new_step_ok [OF assms(1)] have "store_ok cfg (tc_repository s)"
    unfolding tl_step_ok_def by blast
  then show ?thesis using assms(3,4) unfolding store_ok_def by blast
qed

text \<open>C10: an authorization boundary forgets: it always succeeds, seals nothing, and whatever
  happens afterwards, restarts included, a window sealed later holds, as evidence or as context,
  only events taken in after the boundary.\<close>

theorem authorization_boundary_forgets:
  assumes "new_timeline_collector cfg empty_timeline_repository clock = Inr s0" and "timeline_run digest cfg es s0 s"
    and "tc_snapshot s = Some sn" and "se_kind e = AuthorizationChangedV2" and "se_eventId e \<notin> set (tcs_recentEventIds sn)"
    and "tc_ingest (Suc depth) cfg e s = (res, t)" and "timeline_run digest cfg later t u"
    and "w \<in> set (jvalues (tr_windows (tc_repository u)))"
  shows "res = Inr None \<and> tr_windows (tc_repository t) = tr_windows (tc_repository s) \<and>
    (w \<in> set (jvalues (tr_windows (tc_repository s))) \<or> set (tw_events w) \<union> set (tw_contextOnly w) \<subseteq> set later)"
proof -
  have cfg: "config_ok cfg" using new_collector_ok [OF assms(1)] by simp
  have "tl_step_ok cfg (set es) empty_timeline_repository s" by (rule run_step_ok [OF assms(2) cfg new_step_ok [OF assms(1)]])
  then have s: "tl_step_ok cfg {} (tc_repository s) s" by (simp add: tl_step_ok_def grows_refl)
  have "wp (tc_ingest (Suc depth) cfg e) (\<lambda>res t. res = Inr None \<and> tl_step_ok cfg {} (tc_repository s) t \<and>
      tr_windows (tc_repository t) = tr_windows (tc_repository s) \<and> pending cfg (tc_repository t) = {}) s"
    using assms(3-5) wp_reset [OF s assms(3), of "Some (se_cursor e)" "Some (se_eventId e)"]
    by (auto simp: tc_ingest_def tc_handleAuthorizationBoundary_def wp_simps elim!: wp_consequence)
  note reset = wpD [OF this assms(6)]
  then have "tl_step_ok cfg {} (tc_repository t) t" by (simp add: tl_step_ok_def grows_refl)
  from run_step_ok [OF assms(7) cfg this] have "grows cfg (set later) (tc_repository t) (tc_repository u)"
    by (simp add: tl_step_ok_def)
  then have "w \<in> set (jvalues (tr_windows (tc_repository t))) \<or> window_content w \<subseteq> pending cfg (tc_repository t) \<union> set later"
    using assms(8) unfolding grows_def by blast
  then show ?thesis using reset by (simp add: window_content_def)
qed

subsection \<open>Nothing is lost\<close>

definition open_events :: "TimelineCollectorSnapshotV2 \<Rightarrow> SemanticEventV2 set" where
  "open_events sn = (case tcs_openWindow sn of None \<Rightarrow> {} | Some ow \<Rightarrow> set (otw_events ow))"

text \<open>The event is recorded, and the given events are in the open window or in a sealed one.\<close>

definition taken :: "SemanticEventV2 \<Rightarrow> SemanticEventV2 set \<Rightarrow> TimelineWindowV2 option \<Rightarrow> TimelineCollectorV2 \<Rightarrow> bool" where
  "taken e X sealed t \<longleftrightarrow> (\<exists>sn. tc_snapshot t = Some sn \<and> se_eventId e \<in> set (tcs_recentEventIds sn) \<and>
     (\<forall>x \<in> X. x \<in> open_events sn \<or>
        (\<exists>w. sealed = Some w \<and> x \<in> set (tw_events w) \<and> jget (tr_windows (tc_repository t)) (tw_windowId w) = Some w)))"

text \<open>No window is stored yet under the identity of the open window, with or without the event.\<close>

definition fresh_identity :: "TimelineCollectorConfig \<Rightarrow> TimelineCollectorSnapshotV2 \<Rightarrow> SemanticEventV2 \<Rightarrow> TimelineRepositoryV2 \<Rightarrow> bool" where
  "fresh_identity cfg sn e r \<longleftrightarrow> (\<forall>ow ow' reason endedAt w. tcs_openWindow sn = Some ow \<longrightarrow>
     (otw_events ow' = otw_events ow \<or> otw_events ow' = otw_events ow @ [e]) \<longrightarrow>
     buildTimelineWindow cfg ow' reason endedAt (tcs_contextCandidates sn) = Inr w \<longrightarrow>
     jget (tr_windows r) (tw_windowId w) = None)"

lemma fresh_identityD:
  assumes "fresh_identity cfg sn e r" and "tcs_openWindow sn = Some ow"
    and "otw_events ow' = otw_events ow \<or> otw_events ow' = otw_events ow @ [e]"
    and "tcs_contextCandidates cand = tcs_contextCandidates sn"
    and "buildTimelineWindow cfg ow' reason endedAt (tcs_contextCandidates cand) = Inr w"
  shows "jget (tr_windows r) (tw_windowId w) = None"
  using assms unfolding fresh_identity_def by metis

lemma seal_new_window:
  assumes s: "tl_step_ok cfg E r s" and own: "own_snapshot cfg cand" and cur: "tc_snapshot s = Some cur"
    and ow: "tcs_openWindow cand = Some ow" and w: "buildTimelineWindow cfg ow reason endedAt (tcs_contextCandidates cand) = Inr w"
    and new: "jget (tr_windows (tc_repository s)) (tw_windowId w) = None"
  shows "\<exists>t now. tc_sealCandidate cfg cand reason endedAt goal s = (Inr w, t) \<and>
    tc_snapshot t = Some (emptied cand goal w (tcs_revision cur + 1) now) \<and>
    jget (tr_windows (tc_repository t)) (tw_windowId w) = Some w"
proof -
  let ?sn = "emptied cand goal w (tcs_revision cur + 1) (tc_clock s (tc_ticks s))"
  have cid: "tcs_collectorId ?sn = tcc_collectorId cfg" using own by (simp add: emptied_def own_snapshot_def)
  then have "jget (tr_collectors (tc_repository s)) (tcs_collectorId ?sn) = Some cur" using s cur by (simp add: tl_step_ok_def)
  moreover have "jget (tr_jobs (tc_repository s)) (tw_windowId w) = None"
    using new s inv_window_exists by (auto simp: tl_step_ok_def store_ok_def)
  ultimately obtain sr r' where seal: "sealWindowV2 w ?sn (tcs_revision cur) (tc_repository s) = (Inr sr, r')"
      "sr_window sr = w" "sr_snapshot sr = ?sn" "jget (tr_windows r') (tw_windowId w) = Some w"
    using new by (simp add: sealWindowV2_def Let_def assertExpectedRevision_def assertNextRevision_def ensure_def emptied_def)
  have "open_ok cfg ow" using own ow by (simp add: own_snapshot_def)
  then have "1 \<le> otw_effectiveEventCount ow" by (rule open_ok_count)
  then have "tc_sealCandidate cfg cand reason endedAt goal s = (Inr w,
      s\<lparr>tc_timer := None, tc_state := ACTIVE_EMPTY, tc_ticks := Suc (tc_ticks s), tc_repository := r', tc_snapshot := Some ?sn\<rparr>)"
    using seal w cur ow
    by (simp add: tc_sealCandidate_def op_defs tc_cancelTimer_def tc_setState_def liftE_def tc_requireSnapshot_def
        tc_readClock_def tc_awaitStore_def tc_setSnapshot_def emptied_def)
  then show ?thesis using seal by auto
qed

lemma last_recent: "i \<in> set (addRecent sn i)"
  unfolding addRecent_def by (rule last_in_slice_last)

lemma taken_by_save:
  assumes s: "tl_step_ok cfg E r s" and own: "own_snapshot cfg cand" and ev: "snap_events cand \<subseteq> pending cfg r \<union> E"
    and goal: "\<And>ow. tcs_openWindow cand = Some ow \<Longrightarrow> otw_goal ow = tcs_activeGoal cand" and cur: "tc_snapshot s = Some cur"
    and id: "se_eventId e \<in> set (tcs_recentEventIds cand)" and X: "X \<subseteq> open_events cand"
  shows "wp (tc_save cand) (\<lambda>res t. (\<exists>sn. res = Inr sn) \<and> taken e X None t) s"
  by (rule wp_consequence [OF wp_tc_save [OF s own ev goal cur]])
    (use id X in \<open>auto simp: taken_def open_events_def stamped_def\<close>)

lemma taken_by_seal:
  assumes s: "tl_step_ok cfg E r s" and own: "own_snapshot cfg cand" and cur: "tc_snapshot s = Some cur"
    and ow: "tcs_openWindow cand = Some ow" and id: "se_eventId e \<in> set (tcs_recentEventIds cand)"
    and new: "\<And>w. buildTimelineWindow cfg ow reason endedAt (tcs_contextCandidates cand) = Inr w \<Longrightarrow>
      jget (tr_windows (tc_repository s)) (tw_windowId w) = None"
  shows "wp (tc_sealCandidate cfg cand reason endedAt goal)
    (\<lambda>res t. \<exists>w. res = Inr w \<and> taken e (set (otw_events ow)) (Some w) t) s"
proof -
  have ok: "open_ok cfg ow" using own ow by (simp add: own_snapshot_def)
  obtain w where w: "buildTimelineWindow cfg ow reason endedAt (tcs_contextCandidates cand) = Inr w"
    using build_succeeds [OF ok] by blast
  obtain t now where t: "tc_sealCandidate cfg cand reason endedAt goal s = (Inr w, t)"
      "tc_snapshot t = Some (emptied cand goal w (tcs_revision cur + 1) now)"
      "jget (tr_windows (tc_repository t)) (tw_windowId w) = Some w"
    using seal_new_window [OF s own cur ow w new [OF w]] by blast
  then have "taken e (set (otw_events ow)) (Some w) t"
    using id build_ok [OF ok w] by (simp add: taken_def emptied_def)
  then show ?thesis using t(1) by (simp add: wp_def)
qed

text \<open>What an event that is neither a goal change nor an authorization must bring along.\<close>

definition takes :: "TimelineCollectorConfig \<Rightarrow> TimelineCollectorSnapshotV2 \<Rightarrow> SemanticEventV2 \<Rightarrow> bool" where
  "takes cfg sn e \<longleftrightarrow> contract_event e \<and> se_kind e \<notin> {GoalChanged, AuthorizationChangedV2} \<and>
     se_goalVersion e = map_option goal_version (tcs_activeGoal sn) \<and> se_eventId e \<notin> set (tcs_recentEventIds sn)"

text \<open>The event belongs to a window if it is counted, or if it arrives while a window is open that need not be sealed first.\<close>

definition evidence_of ::
  "TimelineCollectorConfig \<Rightarrow> TimelineCollectorSnapshotV2 \<Rightarrow> SemanticEventV2 \<Rightarrow> SemanticEventV2 set" where
  "evidence_of cfg sn e =
     (if is_effective e \<or> tcs_openWindow sn \<noteq> None \<and> seal_first cfg (tcs_openWindow sn) e = Inr None then {e} else {})"

lemma taken_frame:
  "tc_snapshot t = tc_snapshot s \<Longrightarrow> tc_repository t = tc_repository s \<Longrightarrow> taken e X x t = taken e X x s"
  by (simp add: taken_def)

lemma taken_mono: "taken e Y x t \<Longrightarrow> X \<subseteq> Y \<Longrightarrow> taken e X x t"
  unfolding taken_def by blast

lemma wp_then_Inr:
  "wp m (\<lambda>res t. (\<exists>y. res = Inr y \<and> P y t)) s \<Longrightarrow> (\<And>y t. P y t \<Longrightarrow> wp (f y) Q t) \<Longrightarrow> wp (andThen m f) Q s"
  unfolding wp_andThen by (erule wp_consequence) auto

lemma armDeadline_frame:
  "wp (tc_armDeadline d) (\<lambda>res t. \<exists>y. res = Inr y \<and> tc_snapshot t = tc_snapshot s \<and> tc_repository t = tc_repository s) s"
  by (simp add: tc_armDeadline_def wp_simps)

lemma ingestEffective_takes:
  assumes s: "tl_step_ok cfg E r s" and sn: "tc_snapshot s = Some sn" and cfg: "config_ok cfg" "2 \<le> tcc_threshold cfg"
    and e: "takes cfg sn e" "e \<in> E" "is_effective e" and first: "seal_first cfg (tcs_openWindow sn) e = Inr None"
    and fresh: "fresh_identity cfg sn e (tc_repository s)"
  shows "wp (tc_ingestEffective cfg sn e) (\<lambda>res t. \<exists>x. res = Inr x \<and> taken e (open_events sn \<union> evidence_of cfg sn e) x t) s"
proof -
  let ?cand = "with_effective cfg sn e" and ?ow = "opened cfg sn e" and ?X = "open_events sn \<union> evidence_of cfg sn e"
  have con: "contract_event e" and goal: "se_goalVersion e = map_option goal_version (tcs_activeGoal sn)"
    using e(1) by (simp_all add: takes_def)
  note snap = tl_step_ok_snap [OF s sn]
  note b = with_effective_ok [OF conjunct1 [OF snap] cfg(1) con e(3) goal first]
  have ev: "snap_events ?cand \<subseteq> pending cfg r \<union> E" using b(2) snap e(2) by blast
  have g: "tcs_openWindow ?cand = Some ow \<Longrightarrow> otw_goal ow = tcs_activeGoal ?cand" for ow
    using b(3) by (simp add: with_effective_def)
  have id: "se_eventId e \<in> set (tcs_recentEventIds ?cand)" by (simp add: with_effective_def last_recent)
  have X: "?X \<subseteq> open_events ?cand" "?X \<subseteq> set (otw_events ?ow)"
    by (auto simp: open_events_def evidence_of_def with_effective_def opened_def appendEffective_def startWindow_def
        split: option.splits)
  have save: "wp (tc_save ?cand) (\<lambda>res t. \<exists>sn. res = Inr sn \<and> taken e ?X None t) t"
    if "tl_step_ok cfg E r t" "tc_snapshot t = Some sn" for t
    by (rule wp_consequence [OF taken_by_save [OF that(1) b(1) ev g that(2) id X(1)]]) auto
  let ?s = "s\<lparr>tc_state := ACTIVE_COLLECTING\<rparr>"
  have s1: "tl_step_ok cfg E r ?s" "tc_snapshot ?s = Some sn" "tl_step_ok cfg E r (?s\<lparr>tc_timer := None\<rparr>)"
    "tc_snapshot (?s\<lparr>tc_timer := None\<rparr>) = Some sn"
    using s sn by (simp_all add: tl_step_ok_frame)
  let ?Q = "\<lambda>res t. \<exists>x. res = Inr x \<and> taken e ?X x t"
  have counted: "wp (andThen (modifyS (\<lambda>s. s\<lparr>tc_countReadyCalls := f s\<rparr>)) (\<lambda>_. ret None)) ?Q t" if "taken e ?X None t" for t f
    using that by (simp add: wp_simps taken_def)
  have arm: "wp (andThen getS (\<lambda>s. andThen (if tc_deadlinesDeferred s then ret () else tc_armDeadline d) (\<lambda>_. ret None))) ?Q t"
    if "taken e ?X None t" for t d
  proof -
    have "wp (andThen (tc_armDeadline d) (\<lambda>_. ret None)) ?Q t"
      by (rule wp_then_Inr [OF armDeadline_frame]) (use that in \<open>simp add: wp_ret taken_def\<close>)
    then show ?thesis using that by (simp add: wp_andThen [of getS] wp_getS wp_ret)
  qed
  have seal: "wp (andThen (tc_sealCandidate cfg ?cand event_count x (tcs_activeGoal ?cand)) (\<lambda>w. ret (Some w))) ?Q ?s"
    if thr: "tcc_threshold cfg \<le> otw_effectiveEventCount ?ow" for x
  proof -
    obtain ow where ow: "tcs_openWindow sn = Some ow" "otw_events ?ow = otw_events ow @ [e]"
      using thr cfg(2) by (cases "tcs_openWindow sn") (auto simp: opened_def startWindow_def appendEffective_def)
    have new: "buildTimelineWindow cfg ?ow event_count x (tcs_contextCandidates ?cand) = Inr w \<Longrightarrow>
        jget (tr_windows (tc_repository ?s)) (tw_windowId w) = None" for w
      using fresh_identityD [OF fresh ow(1) disjI2 [OF ow(2)], of ?cand] by (simp add: with_effective_def)
    have "tcs_openWindow ?cand = Some ?ow" by (simp add: with_effective_def)
    from taken_by_seal [OF s1(1) b(1) s1(2) this id new] show ?thesis
      by (rule wp_then_Inr) (use X(2) in \<open>auto simp: wp_ret elim: taken_mono\<close>)
  qed
  note p1 = wp_then_Inr [OF save [OF s1(3,4)] counted [of _ "\<lambda>s. tc_countReadyCalls s @ [se_occurredAtMs e]"]]
    and p3 = wp_then_Inr [OF save [OF s1(1,2)] arm [of _ "otw_deadlineAtMs ?ow"]]
  show ?thesis
    unfolding ingestEffective_eq wp_andThen [of "tc_setState ACTIVE_COLLECTING"] wp_tc_setState
    using p1 seal p3 by (simp add: wp_ret wp_andThen [of tc_cancelTimer] wp_tc_cancelTimer)
qed

lemma ingestUncounted_takes:
  assumes s: "tl_step_ok cfg E r s" and sn: "tc_snapshot s = Some sn"
    and e: "takes cfg sn e" "e \<in> E" "\<not> is_effective e" and first: "seal_first cfg (tcs_openWindow sn) e = Inr None"
    and fresh: "fresh_identity cfg sn e (tc_repository s)"
  shows "wp (tc_ingestCurrent cfg sn e) (\<lambda>res t. \<exists>x. res = Inr x \<and> taken e (open_events sn \<union> evidence_of cfg sn e) x t) s"
proof -
  let ?cand = "with_boundary_event sn e" and ?X = "open_events sn \<union> evidence_of cfg sn e"
  let ?Q = "\<lambda>res t. \<exists>x. res = Inr x \<and> taken e ?X x t"
  have con: "contract_event e" and k: "se_kind e \<noteq> GoalChanged" "se_kind e \<noteq> AuthorizationChangedV2"
    and goal: "se_goalVersion e = map_option goal_version (tcs_activeGoal sn)" using e(1) by (simp_all add: takes_def)
  note snap = tl_step_ok_snap [OF s sn]
  have due: "tcs_openWindow sn = Some ow \<Longrightarrow> se_occurredAtMs e \<le> otw_deadlineAtMs ow" for ow
    using seal_first_None [of cfg ow e] first by simp
  note b = with_boundary_ok [OF conjunct1 [OF snap] con e(3) k(2) goal due]
  have ev: "snap_events ?cand \<subseteq> pending cfg r \<union> E" using b(2) snap e(2) by blast
  have g: "tcs_openWindow ?cand = Some ow \<Longrightarrow> otw_goal ow = tcs_activeGoal ?cand" for ow
    unfolding with_boundary_activeGoal by (rule b(3))
  have id: "se_eventId e \<in> set (tcs_recentEventIds ?cand)" by (simp add: with_boundary_event_def last_recent)
  have X: "?X \<subseteq> open_events ?cand"
    using e(3) by (auto simp: open_events_def evidence_of_def with_boundary_event_def append_uncounted_def split: option.splits)
  have save: "wp (andThen (tc_save ?cand) (\<lambda>_. ret None)) ?Q s"
    by (rule wp_then_Inr [OF wp_consequence [OF taken_by_save [OF s b(1) ev g sn id X]]]) (auto simp: wp_ret)
  have seal: "wp (andThen (tc_sealCandidate cfg ?cand reason x (tcs_activeGoal ?cand)) (\<lambda>w. ret (Some w))) ?Q s"
    if ow: "tcs_openWindow sn = Some ow" for ow reason x
  proof -
    have new: "buildTimelineWindow cfg (append_uncounted e ow) reason x (tcs_contextCandidates ?cand) = Inr w \<Longrightarrow>
        jget (tr_windows (tc_repository s)) (tw_windowId w) = None" for w
      using fresh_identityD [OF fresh ow, of "append_uncounted e ow" ?cand]
      by (simp add: with_boundary_event_def append_uncounted_def)
    have "tcs_openWindow ?cand = Some (append_uncounted e ow)" using ow by (simp add: with_boundary_event_def)
    from taken_by_seal [OF s b(1) sn this id new] show ?thesis
      by (rule wp_then_Inr) (use ow e(3) in
          \<open>auto simp: wp_ret open_events_def evidence_of_def append_uncounted_def elim: taken_mono\<close>)
  qed
  show ?thesis
    using k goal e(3) save seal sn
    by (auto simp: tc_ingestCurrent_def tc_ingestUncounted_def tc_handlePresenceBoundary_def Let_def
        wp_andThen [of tc_requireSnapshot] wp_tc_requireSnapshot split: option.split)
qed

lemma ingestCurrent_takes:
  assumes "tl_step_ok cfg E r s" and "tc_snapshot s = Some sn" and "config_ok cfg" and "2 \<le> tcc_threshold cfg"
    and "takes cfg sn e" and "e \<in> E" and "seal_first cfg (tcs_openWindow sn) e = Inr None"
    and "fresh_identity cfg sn e (tc_repository s)"
  shows "wp (tc_ingestCurrent cfg sn e) (\<lambda>res t. \<exists>x. res = Inr x \<and> taken e (open_events sn \<union> evidence_of cfg sn e) x t) s"
proof (cases "is_effective e")
  case True
  have con: "contract_event e" using assms(5) by (simp add: takes_def)
  have "tc_ingestCurrent cfg sn e = tc_ingestEffective cfg sn e"
    using assms(5) True is_effective_kind [OF con True] by (simp add: tc_ingestCurrent_def takes_def)
  then show ?thesis using ingestEffective_takes [OF assms(1-6) True assms(7,8)] by simp
next
  case False
  then show ?thesis using ingestUncounted_takes [OF assms(1,2,5,6) False assms(7,8)] by simp
qed

lemma seal_first_total: "own_snapshot cfg sn \<Longrightarrow> \<exists>due. seal_first cfg (tcs_openWindow sn) e = Inr due"
proof (cases "tcs_openWindow sn")
  case (Some ow)
  assume "own_snapshot cfg sn"
  with Some have "open_ok cfg ow" by (simp add: own_snapshot_def)
  then obtain t where "thresholdReachedAt ow = Inr t" using threshold_found by blast
  with Some show ?thesis by (simp add: seal_first_def)
qed (simp add: seal_first_def)

text \<open>With no window open and a threshold above one, an event is only recorded.\<close>

lemma wp_then_None:
  "wp m (\<lambda>_. I) s \<Longrightarrow> wp (andThen m (\<lambda>_. ret None)) (\<lambda>res t. (\<forall>y. res = Inr y \<longrightarrow> y = None) \<and> I t) s"
  unfolding wp_andThen by (erule wp_consequence) (simp add: wp_ret split: sum.split)

lemma wp_conj: "wp m P s \<Longrightarrow> wp m Q s \<Longrightarrow> wp m (\<lambda>res t. P res t \<and> Q res t) s"
  by (simp add: wp_def case_prod_beta)

lemma save_windows:
  "tr_windows (tc_repository s) = W \<Longrightarrow> wp (tc_save cand) (\<lambda>_ t. tr_windows (tc_repository t) = W) s"
  by (cases "tc_snapshot s")
    (auto simp: wp_def tc_save_def op_defs tc_requireSnapshot_def tc_readClock_def tc_awaitStore_def saveCollectorV2_def
      tc_setSnapshot_def tc_setState_def Let_def split: sum.splits)

lemma ingestCurrent_empty:
  assumes sn: "tc_snapshot s = Some sn" "tcs_openWindow sn = None" and k: "se_kind e \<noteq> GoalChanged" and "2 \<le> tcc_threshold cfg"
  shows "wp (tc_ingestCurrent cfg sn e) (\<lambda>res t. (\<forall>y. res = Inr y \<longrightarrow> y = None) \<and>
    tr_windows (tc_repository t) = tr_windows (tc_repository s)) s"
proof -
  let ?I = "\<lambda>t. tr_windows (tc_repository t) = tr_windows (tc_repository s)"
  note save = wp_then_None [OF save_windows, of _ "tr_windows (tc_repository s)"]
  have arm: "wp (andThen getS (\<lambda>s. if tc_deadlinesDeferred s then ret () else tc_armDeadline d)) (\<lambda>_. ?I) t" if "?I t" for t d
    using that by (simp add: wp_simps tc_armDeadline_def)
  have "wp (andThen (tc_setState ACTIVE_COLLECTING) (\<lambda>_. andThen (tc_save (with_effective cfg sn e)) (\<lambda>_. andThen getS (\<lambda>s.
      if tc_deadlinesDeferred s then ret () else tc_armDeadline (otw_deadlineAtMs (opened cfg sn e)))))) (\<lambda>_. ?I) s"
    by (intro wp_then [where I = ?I] save_windows arm) (simp_all add: wp_simps)
  from wp_then_None [OF this] have eff: "wp (tc_ingestEffective cfg sn e) (\<lambda>res t. (\<forall>y. res = Inr y \<longrightarrow> y = None) \<and> ?I t) s"
    using assms(2,4) unfolding ingestEffective_eq by (simp add: andThen_assoc opened_def startWindow_def)
  show ?thesis
    using assms eff save [of s "with_boundary_event sn e"]
    by (auto simp: tc_ingestCurrent_def wp_throw tc_ingestUncounted_def tc_handlePresenceBoundary_def Let_def
        wp_andThen [of tc_requireSnapshot] wp_tc_requireSnapshot)
qed

text \<open>An overdue window is sealed first; the second activation then takes the event into an empty collector.\<close>

lemma ingest_after_seal:
  assumes s: "tl_step_ok cfg {e} (tc_repository s) s" and sn: "tc_snapshot s = Some sn"
    and cfg: "config_ok cfg" "2 \<le> tcc_threshold cfg" and tk: "takes cfg sn e"
    and fresh: "fresh_identity cfg sn e (tc_repository s)" and ow: "tcs_openWindow sn = Some ow"
    and due: "seal_first cfg (tcs_openWindow sn) e \<noteq> Inr None"
  obtains w t where "tc_sealCandidate cfg sn reason ended (tcs_activeGoal sn) s = (Inr w, t)"
    "wp (tc_ingestSerialized 1 cfg e) (\<lambda>res u. \<exists>y. res = Inr y \<and> taken e (open_events sn \<union> evidence_of cfg sn e) (Some w) u) t"
proof -
  have own: "own_snapshot cfg sn" using tl_step_ok_snap [OF s sn] by (simp add: snap_ok_def)
  have ok: "open_ok cfg ow" using own ow by (simp add: own_snapshot_def)
  obtain w where w: "buildTimelineWindow cfg ow reason ended (tcs_contextCandidates sn) = Inr w"
    using build_succeeds [OF ok] by blast
  have new: "jget (tr_windows (tc_repository s)) (tw_windowId w) = None"
    using fresh_identityD [OF fresh ow _ refl w] by simp
  obtain t now where t: "tc_sealCandidate cfg sn reason ended (tcs_activeGoal sn) s = (Inr w, t)"
      "tc_snapshot t = Some (emptied sn (tcs_activeGoal sn) w (tcs_revision sn + 1) now)"
      "jget (tr_windows (tc_repository t)) (tw_windowId w) = Some w"
    using seal_new_window [OF s own sn ow w new, of "tcs_activeGoal sn"] by blast
  let ?sn = "emptied sn (tcs_activeGoal sn) w (tcs_revision sn + 1) now"
  have e: "se_eventId e \<notin> set (tcs_recentEventIds sn)" "se_kind e \<noteq> AuthorizationChangedV2" "se_kind e \<noteq> GoalChanged"
    using tk by (simp_all add: takes_def)
  have "snap_events sn \<subseteq> pending cfg (tc_repository s) \<union> {e}" using tl_step_ok_snap [OF s sn] by simp
  then have "tl_step_ok cfg {e} (tc_repository s) t"
    using wpD [OF wp_tc_sealCandidate [OF s own _ sn] t(1)] by simp
  moreover have "takes cfg ?sn e" using tk by (simp add: takes_def emptied_def)
  moreover have "fresh_identity cfg ?sn e (tc_repository t)" by (simp add: fresh_identity_def emptied_def)
  moreover have "seal_first cfg (tcs_openWindow ?sn) e = Inr None" by (simp add: seal_first_def emptied_def)
  ultimately have again: "wp (tc_ingestCurrent cfg ?sn e)
      (\<lambda>res u. \<exists>y. res = Inr y \<and> taken e (open_events ?sn \<union> evidence_of cfg ?sn e) y u) t"
    using ingestCurrent_takes [OF _ t(2) cfg] by blast
  have rec: "tc_ingestSerialized 1 cfg e t = tc_ingestCurrent cfg ?sn e t"
    using t(2) e by (simp add: op_defs tc_requireSnapshot_def liftE_def seal_first_def emptied_def)
  have "wp (tc_ingestCurrent cfg ?sn e) (\<lambda>res u. \<exists>y. res = Inr y \<and> taken e (open_events sn \<union> evidence_of cfg sn e) (Some w) u) t"
    by (rule wp_consequence [OF wp_conj [OF again ingestCurrent_empty [OF t(2) _ e(3) cfg(2)]]])
      (use t(3) ow due build_ok [OF ok w] in \<open>auto simp: taken_def emptied_def open_events_def evidence_of_def\<close>)
  then show thesis by (intro that [OF t(1)]) (simp only: wp_def rec)
qed

text \<open>C19: an event that belongs to the active goal is taken in, in at most two activations. With a threshold
  of at least two, for an event that is well formed, has not been seen, carries the active goal's
  version and is neither a goal change nor an authorization change, and while no window is stored under
  the identity of the open one, the call succeeds, the event is recorded in the snapshot, and no
  event of the open window is lost, nor the event itself if it is counted or arrives while a window is
  open that need not be sealed first: each is in the open window afterwards or in the window that was sealed
  and stored. (Any other uncounted event is only recorded.)\<close>

theorem ingest_takes_event:
  assumes "new_timeline_collector cfg empty_timeline_repository clock = Inr s0" and "timeline_run digest cfg es s0 s"
    and "tc_snapshot s = Some sn" and "2 \<le> tcc_threshold cfg" and "takes cfg sn e"
    and "fresh_identity cfg sn e (tc_repository s)"
  shows "\<exists>sealed t. tc_ingest 2 cfg e s = (Inr sealed, t) \<and> taken e (open_events sn \<union> evidence_of cfg sn e) sealed t"
proof -
  have cfg: "config_ok cfg" using new_collector_ok [OF assms(1)] by simp
  have "tl_step_ok cfg (set es) empty_timeline_repository s" by (rule run_step_ok [OF assms(2) cfg new_step_ok [OF assms(1)]])
  then have s: "tl_step_ok cfg {e} (tc_repository s) s" by (simp add: tl_step_ok_def grows_refl)
  have own: "own_snapshot cfg sn" using tl_step_ok_snap [OF s assms(3)] by (simp add: snap_ok_def)
  have e: "se_eventId e \<notin> set (tcs_recentEventIds sn)" "se_kind e \<noteq> AuthorizationChangedV2"
    using assms(5) by (simp_all add: takes_def)
  let ?Q = "\<lambda>res t. \<exists>x. res = Inr x \<and> taken e (open_events sn \<union> evidence_of cfg sn e) x t"
  obtain due where due: "seal_first cfg (tcs_openWindow sn) e = Inr due" using seal_first_total [OF own] by blast
  have "wp (tc_ingest 2 cfg e) ?Q s"
  proof (cases due)
    case None
    then show ?thesis
      using ingestCurrent_takes [OF s assms(3) cfg assms(4,5) _ _ assms(6)] due assms(3) e
      by (simp add: tc_ingest_def numeral_2_eq_2 wp_andThen [of tc_requireSnapshot] wp_tc_requireSnapshot
          wp_andThen [of "liftE x" for x] wp_liftE)
  next
    case (Some x)
    then obtain reason ended where x: "due = Some (reason, ended)" by (cases x) simp
    obtain ow where ow: "tcs_openWindow sn = Some ow" using seal_first_Some due x by blast
    obtain w t where t: "tc_sealCandidate cfg sn reason ended (tcs_activeGoal sn) s = (Inr w, t)"
        "wp (tc_ingestSerialized 1 cfg e) (\<lambda>res u. \<exists>y. res = Inr y \<and> taken e (open_events sn \<union> evidence_of cfg sn e) (Some w) u) t"
      by (rule ingest_after_seal [OF s assms(3) cfg assms(4-6) ow]) (use due x in simp)
    from t(2) have "wp (andThen (tc_ingestSerialized 1 cfg e) (\<lambda>_. ret (Some w))) ?Q t"
      by (rule wp_then_Inr) (simp add: wp_ret)
    moreover have "tc_ingest 2 cfg e s = andThen (tc_ingestSerialized 1 cfg e) (\<lambda>_. ret (Some w)) t"
      using t(1) assms(3) due x e
      by (simp add: tc_ingest_def numeral_2_eq_2 tc_seal_def andThen_def [of tc_requireSnapshot] tc_requireSnapshot_def
          andThen_def [of "liftE x" for x] liftE_def andThen_def [of "tc_sealCandidate a b c d e" for a b c d e] andThen_assoc)
    ultimately show ?thesis by (simp add: wp_def)
  qed
  then show ?thesis by (auto simp: wp_def split: prod.splits)
qed

end
