(* ===== verification/TimelineOutbox.thy ===== *)
theory TimelineOutbox
  imports TimelineRepositoryCorrect
begin

text \<open>
  The outbox of agent inputs as a queue of leases. The abstract queue knows, of every agent
  input, only whether it is held, ready, leased under a token until a time, or acknowledged
  under the hash of a token; the repository's outbox refines it. What a consumer relies on (an
  acknowledged input is settled, an input is never forgotten) is proved once of the abstract
  queue and holds of the repository through the refinement.
\<close>

subsection \<open>The abstract queue\<close>

datatype lease_item = ItemHeld | ItemReady | ItemLeased string int | ItemAcked string

type_synonym lease_queue_state = "string \<Rightarrow> lease_item option"

definition q_offer :: "string \<Rightarrow> lease_queue_state \<Rightarrow> lease_queue_state" where
  "q_offer aid q = q(aid \<mapsto> ItemHeld)"

definition q_release :: "(string \<Rightarrow> bool) \<Rightarrow> lease_queue_state \<Rightarrow> lease_queue_state" where
  "q_release sel q = (\<lambda>aid. if sel aid \<and> q aid = Some ItemHeld then Some ItemReady else q aid)"

definition q_lease :: "(string \<Rightarrow> string option) \<Rightarrow> int \<Rightarrow> lease_queue_state \<Rightarrow> lease_queue_state" where
  "q_lease tokens expiresAt q = (\<lambda>aid. case tokens aid of None \<Rightarrow> q aid | Some t \<Rightarrow> Some (ItemLeased t expiresAt))"

definition q_ack :: "(string \<Rightarrow> string) \<Rightarrow> string \<Rightarrow> string \<Rightarrow> lease_queue_state \<Rightarrow> lease_queue_state" where
  "q_ack h aid tok q = q(aid \<mapsto> ItemAcked (h tok))"

inductive lease_step :: "(string \<Rightarrow> string) \<Rightarrow> lease_queue_state \<Rightarrow> lease_queue_state \<Rightarrow> bool" for h where
  offer: "q aid = None \<Longrightarrow> lease_step h q (q_offer aid q)"
| release: "lease_step h q (q_release sel q)"
| lease: "(\<And>aid t. tokens aid = Some t \<Longrightarrow>
      q aid = Some ItemReady \<or> (\<exists>u x. q aid = Some (ItemLeased u x) \<and> x \<le> now)) \<Longrightarrow>
    now < expiresAt \<Longrightarrow> lease_step h q (q_lease tokens expiresAt q)"
| ack: "q aid = Some (ItemLeased tok x) \<Longrightarrow> now \<le> x \<Longrightarrow> lease_step h q (q_ack h aid tok q)"

lemma lease_step_acked: "lease_step h q q' \<Longrightarrow> q aid = Some (ItemAcked d) \<Longrightarrow> q' aid = Some (ItemAcked d)"
  by (induction rule: lease_step.induct)
    (fastforce simp: q_offer_def q_release_def q_lease_def q_ack_def split: option.splits)+

lemma lease_step_known: "lease_step h q q' \<Longrightarrow> q aid \<noteq> None \<Longrightarrow> q' aid \<noteq> None"
  by (induction rule: lease_step.induct)
    (auto simp: q_offer_def q_release_def q_lease_def q_ack_def split: option.splits)

text \<open>Only an acknowledgement under the current, unexpired lease settles an input.\<close>

lemma lease_step_settles:
  assumes "lease_step h q q'" and "q' aid = Some (ItemAcked d)" and "q aid \<noteq> Some (ItemAcked d)"
  obtains tok x where "q aid = Some (ItemLeased tok x)" and "d = h tok"
  using assms
  by (cases rule: lease_step.cases)
    (auto simp: q_offer_def q_release_def q_lease_def q_ack_def split: option.splits if_splits)

subsection \<open>Implementations of the queue\<close>

locale lease_queue =
  fixes ok :: "'s \<Rightarrow> bool"
    and step :: "'s \<Rightarrow> 's \<Rightarrow> bool"
    and view :: "'s \<Rightarrow> lease_queue_state"
    and token_hash :: "string \<Rightarrow> string"
  assumes ok_step: "ok s \<Longrightarrow> step s s' \<Longrightarrow> ok s'"
    and simulates: "ok s \<Longrightarrow> step s s' \<Longrightarrow> view s' = view s \<or> lease_step token_hash (view s) (view s')"
begin

lemma steps_ok: "step\<^sup>*\<^sup>* s s' \<Longrightarrow> ok s \<Longrightarrow> ok s'"
  by (induction rule: rtranclp_induct) (auto intro: ok_step)

lemma steps_simulate: "step\<^sup>*\<^sup>* s s' \<Longrightarrow> ok s \<Longrightarrow> (lease_step token_hash)\<^sup>*\<^sup>* (view s) (view s')"
proof (induction rule: rtranclp_induct)
  case (step t u)
  then have "(lease_step token_hash)\<^sup>*\<^sup>* (view s) (view t)" and "ok t" using steps_ok by auto
  moreover have "view u = view t \<or> lease_step token_hash (view t) (view u)"
    using simulates [OF \<open>ok t\<close> step(2)] .
  ultimately show ?case by auto
qed simp

lemma acked_is_settled:
  assumes "step\<^sup>*\<^sup>* s s'" and "ok s" and "view s aid = Some (ItemAcked d)"
  shows "view s' aid = Some (ItemAcked d)"
  using steps_simulate [OF assms(1,2)] assms(3)
  by (induction rule: rtranclp_induct) (auto intro: lease_step_acked)

lemma known_stays_known:
  assumes "step\<^sup>*\<^sup>* s s'" and "ok s" and "view s aid \<noteq> None"
  shows "view s' aid \<noteq> None"
  using steps_simulate [OF assms(1,2)] assms(3)
proof (induction rule: rtranclp_induct)
  case (step q q')
  then show ?case using lease_step_known [of token_hash q q' aid] by blast
qed simp

end

subsection \<open>The outbox refines it\<close>

definition item_of :: "string option \<Rightarrow> AgentInputEnvelopeV1 \<Rightarrow> lease_item" where
  "item_of ackHash e =
     (case en_state e of
        HELD_LOCAL \<Rightarrow> ItemHeld
      | INPUT_READY \<Rightarrow> ItemReady
      | LEASED \<Rightarrow> ItemLeased (case en_leaseToken e of None \<Rightarrow> [] | Some t \<Rightarrow> t)
          (case en_leaseExpiresAtMs e of None \<Rightarrow> 0 | Some x \<Rightarrow> x)
      | ACKED \<Rightarrow> ItemAcked (case ackHash of None \<Rightarrow> [] | Some d \<Rightarrow> d))"

definition outbox_view :: "TimelineRepositoryV2 \<Rightarrow> lease_queue_state" where
  "outbox_view r = (\<lambda>aid. map_option (item_of (jget (tr_ackedLeaseTokenHashes r) aid)) (jget (tr_outbox r) aid))"

lemma inv_envelope: "timeline_repo_inv r \<Longrightarrow> jget (tr_outbox r) aid = Some e \<Longrightarrow> envelope_inv e"
  unfolding timeline_repo_inv_def outbox_wf_def by blast

lemma view_put_job [simp]: "outbox_view (put_job_v2 wid j r) = outbox_view r"
  by (simp add: outbox_view_def put_job_v2_def)

lemma view_collectors [simp]: "outbox_view (r\<lparr>tr_collectors := c\<rparr>) = outbox_view r"
  by (simp add: outbox_view_def)

lemma view_save: "outbox_view (snd (saveCollectorV2 s n r)) = outbox_view r"
  by (simp add: saveCollectorV2_def Let_def split: sum.split)

lemma view_seal: "outbox_view (snd (sealWindowV2 w s n r)) = outbox_view r"
  by (simp add: sealWindowV2_def Let_def outbox_view_def split: option.split sum.split)

lemma view_claim: "outbox_view (snd (claimNextWindow lc now lease r)) = outbox_view r"
  by (simp add: claimNextWindow_def Let_def split: sum.split list.split)

lemma view_abandon: "outbox_view (snd (abandonWindowClaim wid now r)) = outbox_view r"
  by (simp add: abandonWindowClaim_def requireJobV2_def op_defs Let_def split: option.split)

lemma view_fail: "outbox_view (snd (recordWindowFailure wid f r)) = outbox_view r"
  by (simp add: recordWindowFailure_def requireJobV2_def op_defs Let_def split: option.split)

lemma view_finalize: "outbox_view (snd (finalizeWindowCommit wid now r)) = outbox_view r"
  by (simp add: finalizeWindowCommit_eq split: option.split)

lemma view_completed:
  assumes "timeline_repo_inv r" and "jget (tr_outbox r) (ai_agentInputId (pr_agentInput result)) = None"
  shows "outbox_view (completed result job r) = q_offer (ai_agentInputId (pr_agentInput result)) (outbox_view r)"
  by (rule ext) (simp add: outbox_view_def completed_def put_job_v2_def q_offer_def item_of_def)

lemma view_none: "outbox_view r aid = None \<longleftrightarrow> jget (tr_outbox r) aid = None"
  by (simp add: outbox_view_def)

lemma view_complete:
  assumes "timeline_repo_inv r"
  shows "outbox_view (snd (completeWindow result now r)) = outbox_view r \<or>
    (outbox_view r (ai_agentInputId (pr_agentInput result)) = None \<and>
     outbox_view (snd (completeWindow result now r)) =
       q_offer (ai_agentInputId (pr_agentInput result)) (outbox_view r))"
  using view_completed [OF assms]
  by (auto simp: completeWindow_eq Let_def view_finalize view_none split: option.split)

lemma view_release:
  "outbox_view (snd (releaseAgentInputs sel r)) =
     q_release (\<lambda>aid. case sel of None \<Rightarrow> True | Some ids \<Rightarrow> aid \<in> set ids) (outbox_view r)"
proof (rule ext)
  fix aid
  have "tr_ackedLeaseTokenHashes (snd (releaseAgentInputs sel r)) = tr_ackedLeaseTokenHashes r"
    by (simp add: releaseAgentInputs_def)
  then show "outbox_view (snd (releaseAgentInputs sel r)) aid =
     q_release (\<lambda>aid. case sel of None \<Rightarrow> True | Some ids \<Rightarrow> aid \<in> set ids) (outbox_view r) aid"
    unfolding outbox_view_def releaseAgentInputs_outbox q_release_def
    by (cases "jget (tr_outbox r) aid")
      (auto simp: release_one_def released_def item_of_def split: AgentInputState.splits)
qed

definition granted_by :: "(string \<Rightarrow> string \<Rightarrow> int) \<Rightarrow> (nat \<Rightarrow> string) \<Rightarrow> AgentInputQuery \<Rightarrow> TimelineRepositoryV2 \<Rightarrow>
    (string, string) jmap" where
  "granted_by lc uuid q r =
     granted_tokens uuid 0 (query_candidates lc q (nat (query_limit q)) (tr_outbox r))"

lemma granted_is_due:
  assumes "timeline_repo_inv r" and "jget (granted_by lc uuid q r) aid = Some t"
  shows "outbox_view r aid = Some ItemReady \<or> (\<exists>u x. outbox_view r aid = Some (ItemLeased u x) \<and> x \<le> aq_nowMs q)"
proof -
  obtain c where c: "c \<in> set (query_candidates lc q (nat (query_limit q)) (tr_outbox r))"
      "ai_agentInputId (en_input c) = aid" "en_state c \<noteq> HELD_LOCAL"
    using granted_get assms(2) unfolding granted_by_def by blast
  then have e: "jget (tr_outbox r) aid = Some c" "deliverable q c"
    using query_candidates_props(2) [OF assms(1) c(1)] by auto
  with c(3) show ?thesis
    by (auto simp: deliverable_def outbox_view_def item_of_def split: option.splits)
qed

lemma view_query:
  assumes "timeline_repo_inv r"
  shows "outbox_view (snd (queryAgentInputs lc uuid q r)) =
    (if query_accepted q then q_lease (jget (granted_by lc uuid q r)) (aq_nowMs q + lease_of q) (outbox_view r)
     else outbox_view r)"
proof (cases "query_accepted q")
  case True
  have h: "tr_ackedLeaseTokenHashes (snd (queryAgentInputs lc uuid q r)) = tr_ackedLeaseTokenHashes r"
    by (simp add: queryAgentInputs_eq Let_def)
  show ?thesis
  proof (rule ext)
    fix aid
    have known: "jget (tr_outbox r) aid \<noteq> None" if "jget (granted_by lc uuid q r) aid = Some t" for t
      using granted_is_due [OF assms that] by (auto simp: outbox_view_def)
    have "outbox_view (snd (queryAgentInputs lc uuid q r)) aid =
        map_option (item_of (jget (tr_ackedLeaseTokenHashes r) aid))
          (map_option (lease_one (granted_by lc uuid q r) (aq_nowMs q + lease_of q) aid) (jget (tr_outbox r) aid))"
      unfolding outbox_view_def query_outbox [OF assms True] h granted_by_def ..
    also have "\<dots> = q_lease (jget (granted_by lc uuid q r)) (aq_nowMs q + lease_of q) (outbox_view r) aid"
      using known by (cases "jget (granted_by lc uuid q r) aid"; cases "jget (tr_outbox r) aid")
        (auto simp: lease_one_def q_lease_def outbox_view_def item_of_def leased_envelope_def)
    finally show "outbox_view (snd (queryAgentInputs lc uuid q r)) aid =
        (if query_accepted q then q_lease (jget (granted_by lc uuid q r)) (aq_nowMs q + lease_of q) (outbox_view r)
         else outbox_view r) aid"
      using True by simp
  qed
qed (simp add: queryAgentInputs_eq)

lemma view_commit:
  assumes "timeline_repo_inv r"
  shows "outbox_view (snd (commitAgentInput digest aid tok now r)) =
    (if \<exists>x. outbox_view r aid = Some (ItemLeased tok x) \<and> now \<le> x
     then q_ack (opaqueLeaseTokenHash digest) aid tok (outbox_view r) else outbox_view r)"
proof -
  obtain res r' where eq: "commitAgentInput digest aid tok now r = (res, r')" by fastforce
  from eq show ?thesis
  proof (cases rule: ack_cases)
    case (refused e)
    then have "\<not> (\<exists>x. outbox_view r aid = Some (ItemLeased tok x) \<and> now \<le> x)"
      using eq inv_envelope [OF assms, of aid]
      by (fastforce simp: outbox_view_def item_of_def commitAgentInput_def Let_def envelope_inv_def
          split: option.splits if_splits AgentInputState.splits)
    with refused eq show ?thesis by auto
  next
    case (repeated e)
    then show ?thesis using eq by (simp add: outbox_view_def item_of_def)
  next
    case (acked e x)
    then have "outbox_view r aid = Some (ItemLeased tok x)" by (simp add: outbox_view_def item_of_def)
    with acked eq show ?thesis
      by (auto simp: outbox_view_def q_ack_def item_of_def)
  qed
qed

lemma repo_call_simulates:
  assumes "repo_call digest r r'" and "timeline_repo_inv r"
  shows "outbox_view r' = outbox_view r \<or> lease_step (opaqueLeaseTokenHash digest) (outbox_view r) (outbox_view r')"
  using assms
proof (induction rule: repo_call.induct)
  case (complete_call r result now)
  then show ?case using view_complete [of r result now] by (metis lease_step.offer)
next
  case (release_call r sel)
  then show ?case using lease_step.release by (simp add: view_release)
next
  case (commit_call r aid tok now)
  show ?case
  proof (cases "\<exists>x. outbox_view r aid = Some (ItemLeased tok x) \<and> now \<le> x")
    case True
    then show ?thesis using lease_step.ack unfolding view_commit [OF commit_call] by auto
  qed (auto simp: view_commit [OF commit_call])
qed (simp_all add: view_save view_seal view_claim view_abandon view_fail view_finalize)

lemma query_simulates:
  assumes "timeline_repo_inv r"
  shows "outbox_view (snd (queryAgentInputs lc uuid q r)) = outbox_view r \<or>
    lease_step h (outbox_view r) (outbox_view (snd (queryAgentInputs lc uuid q r)))"
proof (cases "query_accepted q")
  case True
  then have "aq_nowMs q < aq_nowMs q + lease_of q" by (simp add: query_accepted_def)
  with True granted_is_due [OF assms] show ?thesis
    unfolding view_query [OF assms] by (simp add: lease_step.lease [where now = "aq_nowMs q"])
qed (simp add: view_query [OF assms])

lemma timeline_step_simulates:
  assumes "timeline_step digest r r'" and "timeline_repo_inv r"
  shows "outbox_view r' = outbox_view r \<or> lease_step (opaqueLeaseTokenHash digest) (outbox_view r) (outbox_view r')"
  using assms by (cases rule: timeline_step.cases) (auto dest: repo_call_simulates query_simulates)

interpretation outbox: lease_queue timeline_repo_inv "timeline_step digest" outbox_view "opaqueLeaseTokenHash digest"
  for digest
  by unfold_locales (auto intro: timeline_step_inv dest: timeline_step_simulates)

subsection \<open>The life of one envelope\<close>

text \<open>
  What one call does to an envelope of the outbox: nothing, a release, a delivery asked at a
  time that satisfies \<open>P\<close>, or the acknowledgement of its lease.
\<close>

inductive envelope_step :: "(int \<Rightarrow> bool) \<Rightarrow> AgentInputEnvelopeV1 \<Rightarrow> AgentInputEnvelopeV1 \<Rightarrow> bool" for P where
  untouched: "envelope_step P e e"
| freed: "en_state e = HELD_LOCAL \<Longrightarrow> envelope_step P e (e\<lparr>en_state := INPUT_READY\<rparr>)"
| delivered: "P (aq_nowMs q) \<Longrightarrow> deliverable q e \<Longrightarrow> en_state e \<noteq> HELD_LOCAL \<Longrightarrow>
    envelope_step P e (leased_envelope t (aq_nowMs q + lease_of q) e)"
| settled: "en_state e = LEASED \<Longrightarrow> envelope_step P e (acked_envelope now e)"

lemma repo_call_envelope:
  assumes "repo_call digest r r'" and "timeline_repo_inv r" and "jget (tr_outbox r) aid = Some e"
  shows "\<exists>e'. jget (tr_outbox r') aid = Some e' \<and> envelope_step P e e'"
  using assms
proof (induction rule: repo_call.induct)
  case (release_call r sel)
  then show ?case
    by (auto simp: releaseAgentInputs_outbox release_one_def released_def intro: envelope_step.intros)
next
  case (commit_call r aid' tok now)
  obtain res r' where eq: "commitAgentInput digest aid' tok now r = (res, r')" by fastforce
  from eq commit_call show ?case
    by (cases rule: ack_cases) (auto simp: eq intro: envelope_step.intros)
qed (auto simp: saveCollectorV2_def sealWindowV2_def claimNextWindow_def abandonWindowClaim_def
    recordWindowFailure_def requireJobV2_def op_defs finalizeWindowCommit_eq completeWindow_eq completed_def
    put_job_v2_def Let_def split: option.splits sum.splits list.splits intro: envelope_step.intros)

lemma query_envelope:
  assumes "timeline_repo_inv r" and "jget (tr_outbox r) aid = Some e" and "P (aq_nowMs q)"
  shows "\<exists>e'. jget (tr_outbox (snd (queryAgentInputs lc uuid q r))) aid = Some e' \<and> envelope_step P e e'"
proof (cases "query_accepted q")
  case True
  then show ?thesis
    using assms granted_deliverable [OF assms(1,2)] query_outbox [OF assms(1) True, of lc uuid aid]
    by (fastforce simp: lease_one_def split: option.splits intro: envelope_step.intros)
qed (use assms in \<open>auto simp: queryAgentInputs_eq intro: envelope_step.intros\<close>)

lemma timeline_step_envelope:
  assumes "timeline_step digest r r'" and "timeline_repo_inv r" and "jget (tr_outbox r) aid = Some e"
  shows "\<exists>e'. jget (tr_outbox r') aid = Some e' \<and> envelope_step (\<lambda>_. True) e e'"
  using assms by (cases rule: timeline_step.cases) (auto intro: repo_call_envelope query_envelope)

lemma step_before_envelope:
  assumes "step_before digest t r r'" and "timeline_repo_inv r" and "jget (tr_outbox r) aid = Some e"
  shows "\<exists>e'. jget (tr_outbox r') aid = Some e' \<and> envelope_step (\<lambda>now. now < t) e e'"
  using assms by (cases rule: step_before.cases) (auto intro: repo_call_envelope query_envelope)

lemma acked_envelope_stays:
  assumes "(timeline_step digest)\<^sup>*\<^sup>* r r'" and "timeline_repo_inv r"
    and "jget (tr_outbox r) aid = Some e" and "en_state e = ACKED"
  shows "jget (tr_outbox r') aid = Some e"
  using assms(1)
proof (induction rule: rtranclp_induct)
  case (step s s')
  then have "timeline_repo_inv s" using timeline_steps_inv assms(2) by blast
  from timeline_step_envelope [OF step(2) this step(3)] assms(4) show ?case
    by (auto elim!: envelope_step.cases simp: deliverable_def)
qed (use assms(3) in simp)

text \<open>While no delivery is asked at or after its expiry, a lease ends only in an acknowledgement.\<close>

definition leased_until :: "int \<Rightarrow> AgentInputEnvelopeV1 \<Rightarrow> bool" where
  "leased_until t e \<longleftrightarrow> en_state e = ACKED \<or> (en_state e = LEASED \<and> en_leaseExpiresAtMs e = Some t)"

lemma lease_stays:
  assumes "(step_before digest t)\<^sup>*\<^sup>* r r'" and "timeline_repo_inv r"
    and "jget (tr_outbox r) aid = Some e" and "leased_until t e"
  shows "\<exists>e'. jget (tr_outbox r') aid = Some e' \<and> leased_until t e'"
  using assms(1)
proof (induction rule: rtranclp_induct)
  case (step s s')
  then obtain e' where e': "jget (tr_outbox s) aid = Some e'" "leased_until t e'" by blast
  have "timeline_repo_inv s" using step(1) timeline_steps_inv steps_before_steps assms(2) by blast
  from step_before_envelope [OF step(2) this e'(1)] e'(2) show ?case
    by (auto elim!: envelope_step.cases simp: deliverable_def leased_until_def)
qed (use assms(3,4) in auto)

lemma query_delivers:
  assumes "timeline_repo_inv r" and "queryAgentInputs lc uuid q r = (Inr res, r')" and "d \<in> set res"
  obtains c where "jget (tr_outbox r) (ai_agentInputId (en_input d)) = Some c" and "deliverable q c"
    and "en_input d = en_input c"
    and "jget (tr_outbox r') (ai_agentInputId (en_input d)) = Some d"
    and "en_state c = HELD_LOCAL \<and> d = c \<or>
      en_state c \<noteq> HELD_LOCAL \<and> (\<exists>t. d = leased_envelope t (aq_nowMs q + lease_of q) c)"
proof -
  have acc: "query_accepted q" using assms(2) by (auto simp: queryAgentInputs_eq split: if_splits)
  let ?cs = "query_candidates lc q (nat (query_limit q)) (tr_outbox r)"
  let ?g = "granted_tokens uuid 0 ?cs"
  have "res = fst (lease_loop uuid (aq_nowMs q + lease_of q) 0 ?cs ([], tr_outbox r))"
    using assms(2) acc by (simp add: queryAgentInputs_eq Let_def)
  then have "res = map (\<lambda>c. lease_one ?g (aq_nowMs q + lease_of q) (ai_agentInputId (en_input c)) c) ?cs"
    using lease_loop_fst [OF query_candidates_props(1) [OF assms(1)]] by simp
  then obtain c where c: "c \<in> set ?cs"
      and d: "d = lease_one ?g (aq_nowMs q + lease_of q) (ai_agentInputId (en_input c)) c"
    using assms(3) by auto
  have got: "jget (tr_outbox r) (ai_agentInputId (en_input c)) = Some c" "deliverable q c"
    using query_candidates_props(2) [OF assms(1) c] by auto
  have same: "en_input d = en_input c" using d by (simp add: lease_one_def split: option.split)
  have "jget (tr_outbox r') (ai_agentInputId (en_input d)) = Some d"
    using query_outbox [OF assms(1) acc, of lc uuid "ai_agentInputId (en_input c)"] got(1) d same assms(2) by simp
  moreover have "en_state c = HELD_LOCAL \<and> d = c \<or>
      en_state c \<noteq> HELD_LOCAL \<and> (\<exists>t. d = leased_envelope t (aq_nowMs q + lease_of q) c)"
  proof (cases "en_state c = HELD_LOCAL")
    case True
    then have "jget ?g (ai_agentInputId (en_input c)) = None"
      using granted_deliverable(2) [OF assms(1) got(1), of uuid 0 lc q "nat (query_limit q)"]
      by (metis option.exhaust)
    with True d show ?thesis by (simp add: lease_one_def)
  next
    case False
    then have "ai_agentInputId (en_input c) \<in> set (jkeys ?g)" using c unfolding granted_in by blast
    then obtain t where "jget ?g (ai_agentInputId (en_input c)) = Some t" by (metis jget_not_key option.exhaust)
    with False d show ?thesis by (auto simp: lease_one_def)
  qed
  ultimately show thesis using that [of c] got same by metis
qed

lemma acked_not_delivered:
  assumes "timeline_repo_inv r" and "queryAgentInputs lc uuid q r = (Inr res, r')"
    and "jget (tr_outbox r) aid = Some e" and "en_state e = ACKED"
  shows "aid \<notin> set (map (ai_agentInputId \<circ> en_input) res)"
proof
  assume "aid \<in> set (map (ai_agentInputId \<circ> en_input) res)"
  then obtain d where "d \<in> set res" "ai_agentInputId (en_input d) = aid" by auto
  then obtain c where "jget (tr_outbox r) aid = Some c" "deliverable q c"
    using query_delivers [OF assms(1,2)] by metis
  with assms(3,4) show False by (auto simp: deliverable_def)
qed

lemma inv_acked_hash:
  assumes "timeline_repo_inv r" and "jget (tr_outbox r) aid = Some e" and "en_state e = ACKED"
  obtains d where "jget (tr_ackedLeaseTokenHashes r) aid = Some d" and "outbox_view r aid = Some (ItemAcked d)"
proof -
  have "jget (tr_ackedLeaseTokenHashes r) aid \<noteq> None"
    using assms unfolding timeline_repo_inv_def outbox_wf_def by (metis option.simps(9))
  with assms(2,3) that show ?thesis by (auto simp: outbox_view_def item_of_def)
qed

lemma ack_hash_stays:
  assumes "timeline_repo_inv r" and "jget (tr_outbox r) aid = Some e" and "en_state e = ACKED"
    and "(timeline_step digest)\<^sup>*\<^sup>* r r'"
  shows "jget (tr_ackedLeaseTokenHashes r') aid = jget (tr_ackedLeaseTokenHashes r) aid"
proof -
  obtain d where d: "jget (tr_ackedLeaseTokenHashes r) aid = Some d" "outbox_view r aid = Some (ItemAcked d)"
    using inv_acked_hash [OF assms(1-3)] .
  have "outbox_view r' aid = Some (ItemAcked d)" by (rule outbox.acked_is_settled [OF assms(4,1) d(2)])
  moreover obtain d' where "jget (tr_ackedLeaseTokenHashes r') aid = Some d'" "outbox_view r' aid = Some (ItemAcked d')"
    using inv_acked_hash [OF timeline_steps_inv [OF assms(4,1)] acked_envelope_stays [OF assms(4,1,2,3)] assms(3)] .
  ultimately show ?thesis using d(1) by simp
qed

subsection \<open>Properties\<close>

text \<open>C15: whatever calls are made, the repository stays consistent: windows and jobs go in
  pairs, a job carries a lease exactly while it runs and never rests between its persisted
  result and its commit, a result is stored exactly for the committed jobs and belongs to its
  window, and the outbox holds the agent input of every result and nothing else, with the lease
  and acknowledgement fields of every envelope as its state says.\<close>

theorem timeline_reachable_inv:
  assumes "timeline_reachable digest r"
  shows "timeline_repo_inv r"
  using assms by (rule reachable_inv)

text \<open>C32: completing a window is all or nothing: a refused result leaves the repository as it
  was, and an accepted one leaves the job committed, the result stored and its agent input in
  the outbox, with the same identity and payload hash as the result offered.\<close>

theorem completeWindow_all_or_nothing:
  assumes "timeline_reachable digest r" and "completeWindow result now r = (res, r')"
  shows "(\<exists>e. res = Inl e \<and> r' = r) \<or>
    (\<exists>job stored envelope. res = Inr job \<and> tj_state job = COMMITTED \<and>
       jget (tr_jobs r') (pr_windowId result) = Some job \<and>
       jget (tr_results r') (pr_windowId result) = Some stored \<and>
       su_timelineId (pr_summary stored) = su_timelineId (pr_summary result) \<and>
       ai_payloadHash (pr_agentInput stored) = ai_payloadHash (pr_agentInput result) \<and>
       jget (tr_outbox r') (ai_agentInputId (pr_agentInput stored)) = Some envelope \<and>
       en_input envelope = pr_agentInput stored)"
proof -
  have inv: "timeline_repo_inv r" using reachable_inv [OF assms(1)] .
  have box: "\<exists>e. jget (tr_outbox r) (ai_agentInputId (pr_agentInput stored)) = Some e \<and> en_input e = pr_agentInput stored"
      "map_option tj_state (jget (tr_jobs r) (pr_windowId result)) = Some COMMITTED"
    if "jget (tr_results r) (pr_windowId result) = Some stored" for stored
    using that inv inv_result_exists [OF inv, of "pr_windowId result"]
    unfolding timeline_repo_inv_def outbox_wf_def by auto
  show ?thesis
  proof (cases "jget (tr_results r) (pr_windowId result)")
    case None
    then show ?thesis using assms(2)
      by (auto simp: completeWindow_eq Let_def completed_def put_job_v2_def split: option.splits if_splits)
  next
    case (Some stored)
    then show ?thesis using assms(2) box [OF Some]
      by (fastforce simp: completeWindow_eq finalizeWindowCommit_eq split: option.splits if_splits)
  qed
qed

text \<open>The authority over a cursor is never inconsistent, and a cursor is reported committed
  exactly when the window that holds it has a stored result.\<close>

lemma cursor_authority_consistent:
  assumes "timeline_reachable digest r"
    and "find (\<lambda>w. \<exists>event \<in> set (tw_events w). se_cursor event = c) (jvalues (tr_windows r)) = Some w"
  shows "(\<forall>wid. fst (readCursorAuthority c r) \<noteq> Inr (AuthorityInconsistent wid)) \<and>
    (fst (readCursorAuthority c r) = Inr (AuthorityCommitted (tw_windowId w)) \<longleftrightarrow>
       jget (tr_results r) (tw_windowId w) \<noteq> None)"
proof -
  have inv: "timeline_repo_inv r" using reachable_inv [OF assms(1)] .
  have "w \<in> set (jvalues (tr_windows r))" using assms(2) by (auto simp: find_Some_iff)
  moreover have "keyed_by tw_windowId (tr_windows r)" using inv unfolding timeline_repo_inv_def jobs_wf_def by blast
  ultimately have "jget (tr_windows r) (tw_windowId w) = Some w" by (rule keyed_by_value [rotated])
  then obtain job where job: "jget (tr_jobs r) (tw_windowId w) = Some job"
    using inv_window_exists [OF inv, of "tw_windowId w"] by (metis option.distinct(1) option.exhaust)
  then have "jget (tr_results r) (tw_windowId w) \<noteq> None \<longleftrightarrow> tj_state job = COMMITTED"
    using inv_result_exists [OF inv, of "tw_windowId w"] by simp
  then show ?thesis using job assms(2) by (auto simp: readCursorAuthority_def)
qed

text \<open>C6: the outbox refines a queue of leases: every call of the repository either leaves the
  abstract queue as it is or makes one of its steps, an offer of an unknown input, a release,
  the lease of inputs that are ready or whose lease has run out, or the acknowledgement of an
  unexpired lease under its own token.\<close>

theorem outbox_refines_lease_queue:
  assumes "timeline_reachable digest r" and "timeline_step digest r r'"
  shows "outbox_view r' = outbox_view r \<or> lease_step (opaqueLeaseTokenHash digest) (outbox_view r) (outbox_view r')"
  by (rule outbox.simulates [OF reachable_inv [OF assms(1)] assms(2)])

lemma commit_acknowledges:
  assumes "commitAgentInput digest aid tok now r = (Inr e, r1)"
  shows "en_state e = ACKED \<and> jget (tr_outbox r1) aid = Some e \<and>
    jget (tr_ackedLeaseTokenHashes r1) aid = Some (opaqueLeaseTokenHash digest tok) \<and>
    (\<exists>d. jget (tr_outbox r) aid = Some d \<and> (d = e \<or> en_state d = LEASED \<and> en_leaseToken d = Some tok))"
  using assms by (auto simp: commitAgentInput_def acked_envelope_def Let_def split: option.splits if_splits)

text \<open>C21: an acknowledged agent input is settled for good. Once an acknowledgement under a token has
  succeeded (which takes a lease under that very token, or repeats an earlier acknowledgement),
  then whatever calls follow, the envelope it returned is the stored one, no later query delivers
  it, and an acknowledgement under any token is answered with it exactly if the token has the same
  digest, and refused otherwise.\<close>

theorem acked_input_is_settled:
  assumes "timeline_reachable digest r" and "commitAgentInput digest aid tok now r = (Inr e, r1)"
    and "(timeline_step digest)\<^sup>*\<^sup>* r1 r'"
  shows "en_state e = ACKED \<and>
    (\<exists>d. jget (tr_outbox r) aid = Some d \<and> (d = e \<or> en_state d = LEASED \<and> en_leaseToken d = Some tok)) \<and>
    jget (tr_outbox r') aid = Some e \<and>
    (\<forall>lc uuid q res r''. queryAgentInputs lc uuid q r' = (Inr res, r'') \<longrightarrow>
       aid \<notin> set (map (ai_agentInputId \<circ> en_input) res)) \<and>
    (\<forall>tok' now'. fst (commitAgentInput digest aid tok' now' r') =
      (if opaqueLeaseTokenHash digest tok' = opaqueLeaseTokenHash digest tok then Inr e else Inl AckLeaseTokenMismatch))"
proof -
  note ack = commit_acknowledges [OF assms(2)]
  have inv: "timeline_repo_inv r1" using commitAgentInput_inv [of r digest aid tok now] reachable_inv [OF assms(1)] assms(2) by simp
  then have inv': "timeline_repo_inv r'" using timeline_steps_inv [OF assms(3)] by simp
  have e: "jget (tr_outbox r') aid = Some e" using acked_envelope_stays [OF assms(3) inv] ack by blast
  have hash: "jget (tr_ackedLeaseTokenHashes r') aid = Some (opaqueLeaseTokenHash digest tok)"
    using ack_hash_stays [OF inv _ _ assms(3)] ack by metis
  have "aid \<notin> set (map (ai_agentInputId \<circ> en_input) res)" if "queryAgentInputs lc uuid q r' = (Inr res, r'')"
    for lc uuid q res r''
    using acked_not_delivered [OF inv' that e] ack by blast
  moreover have "fst (commitAgentInput digest aid tok' now' r') =
      (if opaqueLeaseTokenHash digest tok' = opaqueLeaseTokenHash digest tok then Inr e else Inl AckLeaseTokenMismatch)" for tok' now'
    using e hash ack by (auto simp: commitAgentInput_def Let_def)
  ultimately show ?thesis using ack e by blast
qed

text \<open>C22: leases do not overlap: while the time at which inputs are asked for stays before the
  expiry of a granted lease, whatever calls are made, no query delivers that input again.\<close>

theorem leases_do_not_overlap:
  assumes "timeline_reachable digest r" and "queryAgentInputs lc uuid q r = (Inr res, r')"
    and "d \<in> set res" and "en_state d = LEASED" and "en_leaseExpiresAtMs d = Some t"
    and "(step_before digest t)\<^sup>*\<^sup>* r' s" and "aq_nowMs q' < t"
    and "queryAgentInputs lc' uuid' q' s = (Inr res', s')"
  shows "ai_agentInputId (en_input d) \<notin> set (map (ai_agentInputId \<circ> en_input) res')"
proof
  have inv: "timeline_repo_inv r" using reachable_inv [OF assms(1)] .
  then have inv': "timeline_repo_inv r'" using queryAgentInputs_inv [of r lc uuid q] assms(2) by simp
  have got: "jget (tr_outbox r') (ai_agentInputId (en_input d)) = Some d"
    using query_delivers [OF inv assms(2,3)] by metis
  have invs: "timeline_repo_inv s" using timeline_steps_inv [OF steps_before_steps [OF assms(6)] inv'] .
  obtain e where e: "jget (tr_outbox s) (ai_agentInputId (en_input d)) = Some e" "leased_until t e"
    using lease_stays [OF assms(6) inv' got] assms(4,5) by (auto simp: leased_until_def)
  assume "ai_agentInputId (en_input d) \<in> set (map (ai_agentInputId \<circ> en_input) res')"
  then obtain d' where d': "d' \<in> set res'" "ai_agentInputId (en_input d') = ai_agentInputId (en_input d)" by auto
  obtain c where "jget (tr_outbox s) (ai_agentInputId (en_input d')) = Some c" "deliverable q' c"
    using query_delivers [OF invs assms(8) d'(1)] by metis
  with e d'(2) assms(7) show False by (auto simp: deliverable_def leased_until_def)
qed

end
