(* ===== verification/TimelineRunner.thy ===== *)
theory TimelineRunner
  imports TimelineProcessor TimelineOutbox
begin

text \<open>
  Correctness of the timeline's job runner: processing a window leaves the repository alone, and
  a run settles the job it claims, whatever the classifier, the hypothesis generator, the clock
  and the abort signal do.
\<close>

subsection \<open>Computations that only read\<close>

definition reads_only :: "('s, 'e, 'a) comp \<Rightarrow> bool" where
  "reads_only m \<longleftrightarrow> (\<forall>s. snd (m s) = s)"

lemma reads_onlyD: "reads_only m \<Longrightarrow> m s = (x, t) \<Longrightarrow> t = s"
  unfolding reads_only_def by (metis snd_conv)

lemma reads_only_ret [intro]: "reads_only (ret x)"
  by (simp add: reads_only_def ret_def)

lemma reads_only_liftE [intro]: "reads_only (liftE x)"
  by (simp add: reads_only_def liftE_def)

lemma reads_only_await [intro]: "reads_only m \<Longrightarrow> reads_only (await_op g m)"
  by (simp add: reads_only_def await_op_def case_prod_beta)

lemma reads_only_andThen [intro]:
  assumes "reads_only m" and "\<And>x. reads_only (f x)"
  shows "reads_only (andThen m f)"
  using assms unfolding reads_only_def andThen_def
  by (auto simp: case_prod_beta split: sum.split)

lemma reads_only_getTimelineResult [intro]: "reads_only (getTimelineResult wid)"
  by (simp add: reads_only_def getTimelineResult_def)

lemma reads_only_findLatestEpisode [intro]: "reads_only (findLatestEpisode lc d s t)"
  by (simp add: reads_only_def findLatestEpisode_def Let_def)

lemma reads_only_correctionTarget [intro]: "reads_only (correctionTarget w prev)"
  unfolding correctionTarget_def by (auto split: option.split)

lemma reads_only_collect [intro]: "reads_only (collect_historical_facts required wids byId)"
  by (induction required wids byId rule: collect_historical_facts.induct) auto

lemma reads_only_factsForSummary [intro]: "reads_only (factsForSummary lc w facts eps)"
  unfolding factsForSummary_def Let_def by auto

lemma process_reads_only: "reads_only (process p stopped createdAt window)"
  unfolding process_def Let_def by (intro reads_only_andThen) auto

lemma await_op_InrD: "await_op g m s = (Inr x, t) \<Longrightarrow> m s = (Inr x, t)"
  by (auto simp: await_op_def map_error_def split: prod.splits sum.splits)

lemma andThen_Inr_iff: "andThen m f s = (Inr y, u) \<longleftrightarrow> (\<exists>x t. m s = (Inr x, t) \<and> f x t = (Inr y, u))"
  by (auto simp: andThen_def split: prod.splits sum.splits)

lemma liftE_Inr_iff: "liftE x s = (Inr y, t) \<longleftrightarrow> x = Inr y \<and> t = s"
  by (auto simp: liftE_def)

lemma map_error_Inr_iff: "map_error g x = Inr y \<longleftrightarrow> x = Inr y"
  by (auto simp: map_error_def split: sum.splits)

text \<open>What a processed window consists of.\<close>

lemma process_result:
  assumes "process p stopped createdAt window r = (Inr result, t)"
  obtains facts contextFacts previousEpisode episodes corrected summaryFacts where
    "render (tp_urls p) (as_sha256 (tp_episodes p)) (tw_events window) = Inr facts"
    and "assemble (tp_episodes p) stopped window facts previousEpisode contextFacts = Inr episodes"
    and "findLatestEpisode (as_localeCompare (tp_episodes p)) (tw_deviceId window) (tw_sessionId window)
      MAX_SAFE_INTEGER r = (Inr previousEpisode, r)"
    and "factsForSummary (as_localeCompare (tp_episodes p)) window facts episodes r = (Inr summaryFacts, r)"
    and "result = \<lparr>pr_windowId = tw_windowId window, pr_facts = facts, pr_episodes = episodes,
      pr_summary = buildSummary p createdAt window summaryFacts episodes corrected,
      pr_agentInput = buildAgentInput p window (buildSummary p createdAt window summaryFacts episodes corrected)\<rparr>"
proof -
  let ?a = "tp_episodes p" and ?lc = "as_localeCompare (tp_episodes p)"
  obtain facts contextFacts previousEpisode episodes correctedResult summaryFacts r1 r2 r3 where
    1: "render (tp_urls p) (as_sha256 ?a) (tw_events window) = Inr facts"
    and 2: "await_op thrown_of_timeline (findLatestEpisode ?lc (tw_deviceId window) (tw_sessionId window)
      MAX_SAFE_INTEGER) r = (Inr previousEpisode, r1)"
    and 3: "assemble ?a stopped window facts previousEpisode contextFacts = Inr episodes"
    and 4: "await_op thrown_of_timeline (correctionTarget window previousEpisode) r1 = (Inr correctedResult, r2)"
    and 5: "await_op thrown_of_timeline (factsForSummary ?lc window facts episodes) r2 = (Inr summaryFacts, r3)"
    and 6: "result = \<lparr>pr_windowId = tw_windowId window, pr_facts = facts, pr_episodes = episodes,
      pr_summary = buildSummary p createdAt window summaryFacts episodes (map_option pr_summary correctedResult),
      pr_agentInput = buildAgentInput p window
        (buildSummary p createdAt window summaryFacts episodes (map_option pr_summary correctedResult))\<rparr>"
    using assms unfolding process_def Let_def andThen_Inr_iff liftE_Inr_iff map_error_Inr_iff
    by (auto simp: ret_def)
  note found = await_op_InrD [OF 2] and target = await_op_InrD [OF 4] and got = await_op_InrD [OF 5]
  have "r1 = r" by (rule reads_onlyD [OF reads_only_findLatestEpisode found])
  moreover have "r2 = r1" by (rule reads_onlyD [OF reads_only_correctionTarget target])
  moreover have "r3 = r2" by (rule reads_onlyD [OF reads_only_factsForSummary got])
  ultimately show thesis using that [OF 1 3 _ _ 6] found got by simp
qed

subsection \<open>The delay before a retry\<close>

lemma retry_base_cases: "retry_base n \<in> set RETRY_DELAYS_MS"
  unfolding retry_base_def by (rule nth_mem) (simp add: RETRY_DELAYS_MS_def)

lemma retryDelay_bounds: "retry_base n \<le> retryDelay n j \<and> retryDelay n j < retry_base n + retry_base n div 5"
proof -
  have "5 \<le> retry_base n" using retry_base_cases [of n] by (auto simp: RETRY_DELAYS_MS_def)
  then have "1 \<le> retry_base n div 5" by linarith
  then show ?thesis by (simp add: retryDelay_def Let_def)
qed

subsection \<open>One run\<close>

text \<open>What a run leaves behind of the job it claimed.\<close>

definition only_job_changed :: "string \<Rightarrow> TimelineRepositoryV2 \<Rightarrow> TimelineRepositoryV2 \<Rightarrow> bool" where
  "only_job_changed wid r r' \<longleftrightarrow> (\<forall>w. w \<noteq> wid \<longrightarrow> jget (tr_jobs r') w = jget (tr_jobs r) w)"

definition run_settled ::
  "TimelineRunEnv \<Rightarrow> TimelineJobV2 \<Rightarrow> TimelineRepositoryV2 \<Rightarrow> thrown + TimelineRunResult \<Rightarrow> TimelineRepositoryV2 \<Rightarrow> bool" where
  "run_settled env job r res r' \<longleftrightarrow>
     (\<exists>job'. jget (tr_jobs r') (tj_windowId job) = Some job' \<and>
       ((res = Inr RunCompleted \<and> tj_state job' = COMMITTED \<and> jget (tr_results r') (tj_windowId job) \<noteq> None) \<or>
        (tr_results r' = tr_results r \<and> tr_outbox r' = tr_outbox r \<and>
         ((res = Inr RunAbandoned \<and> tj_state job' = READY \<and> tj_attempt job' = tj_attempt job) \<or>
          (res = Inr RunTerminal \<and> tj_state job' = TERMINAL_FAILED) \<or>
          (res = Inr RunRetry \<and> tj_state job' = RETRY_WAIT \<and>
           (\<exists>delay. tj_nextAttemptAtMs job' = Some (re_now env ClockFailed + delay) \<and>
              retry_base (tj_attempt job + 1) \<le> delay \<and>
              delay < retry_base (tj_attempt job + 1) + retry_base (tj_attempt job + 1) div 5)))))) \<and>
     only_job_changed (tj_windowId job) r r'"

text \<open>A repository in which the job has just been claimed.\<close>

definition just_claimed ::
  "TimelineRunnerOptions \<Rightarrow> TimelineRunEnv \<Rightarrow> TimelineJobV2 \<Rightarrow> TimelineRepositoryV2 \<Rightarrow> TimelineRepositoryV2" where
  "just_claimed opts env job r =
     put_job_v2 (tj_windowId job) (claimed_job_v2 (re_now env ClockClaim) (ro_leaseDurationMs opts) job) r"

lemma just_claimed_fields [simp]:
  "tr_results (just_claimed opts env job r) = tr_results r"
  "tr_outbox (just_claimed opts env job r) = tr_outbox r"
  "tr_windows (just_claimed opts env job r) = tr_windows r"
  "jget (tr_jobs (just_claimed opts env job r)) wid =
     (if wid = tj_windowId job then Some (claimed_job_v2 (re_now env ClockClaim) (ro_leaseDurationMs opts) job)
      else jget (tr_jobs r) wid)"
  by (simp_all add: just_claimed_def put_job_v2_def)

lemma claimed_attempt [simp]: "tj_attempt (claimed_job_v2 now lease job) = tj_attempt job + 1"
  by (simp add: claimed_job_v2_def)

lemma abandon_just_claimed:
  "\<exists>t. await_op g (abandonWindowClaim (tj_windowId job) now) (just_claimed opts env job r) =
     (Inr (abandoned_job_v2 now (claimed_job_v2 (re_now env ClockClaim) (ro_leaseDurationMs opts) job)), t) \<and>
     run_settled env job r (Inr RunAbandoned) t"
  by (simp add: await_op_def abandonWindowClaim_def requireJobV2_def op_defs Let_def map_error_def put_job_v2_def
      run_settled_def only_job_changed_def abandoned_job_v2_def)

lemma fail_just_claimed:
  assumes "wf_terminal f \<or> (\<exists>delay. wf_nextAttemptAtMs f = Some (re_now env ClockFailed + delay) \<and>
      retry_base (tj_attempt job + 1) \<le> delay \<and>
      delay < retry_base (tj_attempt job + 1) + retry_base (tj_attempt job + 1) div 5)"
  shows "\<exists>j t. await_op g (recordWindowFailure (tj_windowId job) f) (just_claimed opts env job r) = (Inr j, t) \<and>
     run_settled env job r (Inr (if wf_terminal f then RunTerminal else RunRetry)) t"
  using assms
  by (auto simp: await_op_def recordWindowFailure_def requireJobV2_def op_defs Let_def map_error_def put_job_v2_def
      run_settled_def only_job_changed_def failed_job_v2_def)

lemma run_catch_just_claimed:
  "case run_catch opts env (claimed_job_v2 (re_now env ClockClaim) (ro_leaseDurationMs opts) job) error
      (just_claimed opts env job r) of (res, t) \<Rightarrow> run_settled env job r res t"
proof (cases "re_aborted env SignalCatch")
  case True
  then show ?thesis
    using abandon_just_claimed [of thrown_of_timeline job "re_now env ClockFailed" opts env r]
    by (auto simp: run_catch_def Let_def andThen_def ret_def await_op_def [of thrown_of_timeline "getJobV2 _"]
        getJobV2_def map_error_def)
next
  case False
  let ?job = "claimed_job_v2 (re_now env ClockClaim) (ro_leaseDurationMs opts) job"
  let ?first = "case tj_firstAttemptAtMs ?job of None \<Rightarrow> re_now env ClockFailed | Some t \<Rightarrow> t"
  let ?terminal = "TERMINAL_FAILURE_AFTER_MS \<le> re_now env ClockFailed - ?first \<or> isNonRetryable error"
  let ?f = "\<lparr>wf_nowMs = re_now env ClockFailed, wf_code = errorCodeV2 error, wf_message = safeErrorMessage error,
    wf_nextAttemptAtMs = (if ?terminal then None
      else Some (re_now env ClockFailed + retryDelay (tj_attempt ?job) (ro_jitter opts))),
    wf_terminal = ?terminal\<rparr>"
  have "run_catch opts env ?job error (just_claimed opts env job r) =
      andThen (await_op thrown_of_timeline (recordWindowFailure (tj_windowId job) ?f)) (\<lambda>_.
        ret (if ?terminal then RunTerminal else RunRetry)) (just_claimed opts env job r)"
    using False by (simp add: run_catch_def Let_def andThen_def ret_def
        await_op_def [of thrown_of_timeline "getJobV2 _"] getJobV2_def map_error_def)
  moreover have "\<exists>j t. await_op thrown_of_timeline (recordWindowFailure (tj_windowId job) ?f)
      (just_claimed opts env job r) = (Inr j, t) \<and>
      run_settled env job r (Inr (if wf_terminal ?f then RunTerminal else RunRetry)) t"
    by (rule fail_just_claimed) (use retryDelay_bounds [of "tj_attempt job + 1" "ro_jitter opts"] in auto)
  ultimately show ?thesis by (auto simp: andThen_def ret_def)
qed

lemma complete_just_claimed:
  assumes inv: "timeline_repo_inv r" and job: "jget (tr_jobs r) (tj_windowId job) = Some job"
    and "tj_state job \<noteq> COMMITTED" and "pr_windowId result = tj_windowId job"
  shows "(\<exists>e. completeWindow result now (just_claimed opts env job r) = (Inl e, just_claimed opts env job r)) \<or>
    (\<exists>j t. completeWindow result now (just_claimed opts env job r) = (Inr j, t) \<and>
      run_settled env job r (Inr RunCompleted) t)"
proof -
  have "jget (tr_results r) (tj_windowId job) = None"
    using inv_result_exists [OF inv, of "tj_windowId job"] job assms(3) by auto
  then show ?thesis
    using assms(4)
    by (auto simp: completeWindow_eq Let_def completed_def put_job_v2_def run_settled_def only_job_changed_def)
qed

lemma run_try_just_claimed:
  assumes inv: "timeline_repo_inv r" and job: "jget (tr_jobs r) (tj_windowId job) = Some job"
    and "tj_state job \<noteq> COMMITTED" and env: "re_process env = process p stopped createdAt"
    and "tw_windowId window = tj_windowId job"
  shows "(\<exists>error. run_try env (claimed_job_v2 now lease job) window (just_claimed opts env job r) =
      (Inl error, just_claimed opts env job r)) \<or>
    (\<exists>result t. run_try env (claimed_job_v2 now lease job) window (just_claimed opts env job r) = (Inr result, t) \<and>
      run_settled env job r (Inr result) t)"
proof -
  let ?r = "just_claimed opts env job r"
  obtain x t where x: "process p stopped createdAt window ?r = (x, t)" by fastforce
  then have t: "t = ?r" using reads_onlyD [OF process_reads_only] by blast
  show ?thesis
  proof (cases x)
    case (Inl error)
    then show ?thesis using x t env by (simp add: run_try_def andThen_def)
  next
    case (Inr result)
    then have "pr_windowId result = tj_windowId job"
      using x assms(5) process_result [of p stopped createdAt window ?r result t] by (metis PersistTimelineResult.select_convs(1))
    from complete_just_claimed [OF inv job assms(3) this, of "re_now env ClockComplete" opts env]
      abandon_just_claimed [of thrown_of_timeline job "re_now env ClockAbandonResult" opts env r]
    show ?thesis
      using x t Inr env
      by (cases "re_aborted env SignalResult")
        (auto simp: run_try_def andThen_def ret_def await_op_def [of thrown_of_timeline "completeWindow _ _"]
          map_error_def)
  qed
qed

lemma run_claimed_v2_settles:
  assumes inv: "timeline_repo_inv r" and job: "jget (tr_jobs r) (tj_windowId job) = Some job"
    and "tj_state job \<noteq> COMMITTED" and env: "re_process env = process p stopped createdAt"
  shows "case run_claimed_v2 opts env (claimed_job_v2 (re_now env ClockClaim) (ro_leaseDurationMs opts) job)
      (just_claimed opts env job r) of (res, t) \<Rightarrow> run_settled env job r res t"
proof -
  let ?job = "claimed_job_v2 (re_now env ClockClaim) (ro_leaseDurationMs opts) job"
  let ?r = "just_claimed opts env job r"
  note abandon = abandon_just_claimed [of thrown_of_timeline job _ opts env r]
  obtain window where window: "jget (tr_windows r) (tj_windowId job) = Some window"
    using inv_window_exists [OF inv, of "tj_windowId job"] job by auto
  have "keyed_by tw_windowId (tr_windows r)" using inv unfolding timeline_repo_inv_def jobs_wf_def by blast
  then have wid: "tw_windowId window = tj_windowId job" using window by (rule keyed_by_get)
  consider "re_aborted env SignalClaimed" | "\<not> re_aborted env SignalClaimed" "re_aborted env SignalWindow"
    | (tried) "\<not> re_aborted env SignalClaimed" "\<not> re_aborted env SignalWindow" by blast
  then show ?thesis
  proof cases
    case 1
    then show ?thesis using abandon [of "re_now env ClockAbandonEarly"]
      by (auto simp: run_claimed_v2_def Let_def andThen_def ret_def)
  next
    case 2
    then show ?thesis using abandon [of "re_now env ClockAbandonWindow"] window
      by (auto simp: run_claimed_v2_def Let_def andThen_def ret_def getWindowV2_def map_error_def
          await_op_def [of thrown_of_timeline "getWindowV2 _"])
  next
    case tried
    have "run_claimed_v2 opts env ?job ?r = (case run_try env ?job window ?r of
        (Inr result, t) \<Rightarrow> (Inr result, t) | (Inl error, t) \<Rightarrow> run_catch opts env ?job error t)"
      using tried window
      by (simp add: run_claimed_v2_def Let_def andThen_def getWindowV2_def map_error_def
          await_op_def [of thrown_of_timeline "getWindowV2 _"])
    moreover have "case run_catch opts env ?job error ?r of (res, t) \<Rightarrow> run_settled env job r res t" for error
      by (rule run_catch_just_claimed)
    ultimately show ?thesis
      using run_try_just_claimed [OF inv job assms(3) env wid, of "re_now env ClockClaim" "ro_leaseDurationMs opts" opts]
      by (elim disjE exE conjE) simp_all
  qed
qed

lemma runNext_cases:
  assumes inv: "timeline_repo_inv r" and "0 < ro_leaseDurationMs opts" and "ro_leaseDurationMs opts \<le> MAX_SAFE_INTEGER"
    and env: "re_process env = process p stopped createdAt" and run: "runNext opts env r = (res, r')"
  shows "(res = Inr RunIdle \<and> r' = r) \<or>
    (\<exists>job. jget (tr_jobs r) (tj_windowId job) = Some job \<and> isRunnableV2 job (re_now env ClockClaim) \<and>
       run_settled env job r res r')"
proof (cases "re_aborted env SignalEntry")
  case True
  with run show ?thesis by (simp add: runNext_def ret_def)
next
  case False
  obtain c t where claim: "claimNextWindow (ro_localeCompare opts) (re_now env ClockClaim) (ro_leaseDurationMs opts) r = (c, t)"
    by fastforce
  have "assertPositiveDuration (ro_leaseDurationMs opts) = Inr ()"
    using assms(2,3) by (simp add: assertPositiveDuration_def isSafeInteger_def)
  then have ok: "c \<noteq> Inl e" for e
    using claim by (auto simp: claimNextWindow_def Let_def split: list.splits if_splits)
  from claim inv show ?thesis
  proof (cases rule: claim_v2_cases)
    case unchanged
    with run False claim ok show ?thesis
      by (auto simp: runNext_def andThen_def ret_def await_op_def map_error_def)
  next
    case (claimed job)
    have "run_claimed_v2 opts env (claimed_job_v2 (re_now env ClockClaim) (ro_leaseDurationMs opts) job)
        (just_claimed opts env job r) = (res, r')"
      using run False claim claimed(4,5)
      by (simp add: runNext_def andThen_def await_op_def map_error_def just_claimed_def)
    with run_claimed_v2_settles [OF inv claimed(1,3) env, of opts] claimed(1,2) show ?thesis by auto
  qed
qed

text \<open>C13: a run of the timeline's job runner settles the job it claims, whatever the classifier,
  the hypothesis generator, the clock and the abort signal do: it ends without an exception, and
  either nothing was due and nothing changed, or the claimed job is committed with its result
  stored, or it is free again with the attempt given back, or it has failed for good, or it
  waits for a retry between one and one fifth more of the scheduled delay after the failure; in
  the last three cases no result and no agent input was stored, and no other job is touched.\<close>

theorem timeline_run_settles_its_job:
  assumes "timeline_reachable digest r"
    and "0 < ro_leaseDurationMs opts" and "ro_leaseDurationMs opts \<le> MAX_SAFE_INTEGER"
    and "re_process env = process p stopped createdAt" and "runNext opts env r = (res, r')"
  shows "(res = Inr RunIdle \<and> r' = r) \<or>
    (\<exists>job job'. jget (tr_jobs r) (tj_windowId job) = Some job \<and> isRunnableV2 job (re_now env ClockClaim) \<and>
       jget (tr_jobs r') (tj_windowId job) = Some job' \<and>
       (\<forall>w. w \<noteq> tj_windowId job \<longrightarrow> jget (tr_jobs r') w = jget (tr_jobs r) w) \<and>
       ((res = Inr RunCompleted \<and> tj_state job' = COMMITTED \<and> jget (tr_results r') (tj_windowId job) \<noteq> None) \<or>
        (tr_results r' = tr_results r \<and> tr_outbox r' = tr_outbox r \<and>
         ((res = Inr RunAbandoned \<and> tj_state job' = READY \<and> tj_attempt job' = tj_attempt job) \<or>
          (res = Inr RunTerminal \<and> tj_state job' = TERMINAL_FAILED) \<or>
          (res = Inr RunRetry \<and> tj_state job' = RETRY_WAIT \<and>
           (\<exists>delay. tj_nextAttemptAtMs job' = Some (re_now env ClockFailed + delay) \<and>
              retry_base (tj_attempt job + 1) \<le> delay \<and>
              delay < retry_base (tj_attempt job + 1) + retry_base (tj_attempt job + 1) div 5))))))"
  using runNext_cases [OF reachable_inv [OF assms(1)] assms(2-5)]
  unfolding run_settled_def only_job_changed_def by blast

end
