(* ===== verification/TimelineAdapter.thy ===== *)
theory TimelineAdapter
  imports TimelineRunner
begin

text \<open>
  The delivery boundary of the agent inputs, \<open>src/agent/timeline/agent-input-adapter.ts\<close>, and
  the three methods of \<open>service.ts\<close> it calls. Requests are JSON values; every rejection is one
  of four codes and carries nothing of the request or of the repository's error. Stored agent
  inputs are typed records here, so the checks that a label is one of its taxonomy or that a
  field is an object hold by typing; all others are modelled.
\<close>

definition AGENT_INPUT_DEFAULT_QUERY_LIMIT :: int where "AGENT_INPUT_DEFAULT_QUERY_LIMIT = 32"
definition AGENT_INPUT_MAX_QUERY_LIMIT :: int where "AGENT_INPUT_MAX_QUERY_LIMIT = 100"
definition AGENT_INPUT_DEFAULT_LEASE_MS :: int where "AGENT_INPUT_DEFAULT_LEASE_MS = 30000"
definition AGENT_INPUT_MIN_LEASE_MS :: int where "AGENT_INPUT_MIN_LEASE_MS = 5000"
definition AGENT_INPUT_MAX_LEASE_MS :: int where "AGENT_INPUT_MAX_LEASE_MS = 5 * 60000"
definition MAX_REPLAY_IDS :: nat where "MAX_REPLAY_IDS = 100"

datatype AgentInputAdapterErrorCode = INVALID_REQUEST | QUERY_FAILED | COMMIT_REJECTED | REPLAY_FAILED

datatype AgentInputAdapterResponse =
    QueryResponse "AgentInputEnvelopeV1 list"
  | CommitResponse string int
  | ReplayResponse nat nat

subsection \<open>Reading requests\<close>

fun json_entries :: "json \<Rightarrow> (string \<times> json) list option" where
  "json_entries (JObj es) = Some es"
| "json_entries _ = None"

definition hasExactKeysV1 :: "json \<Rightarrow> string list \<Rightarrow> string list \<Rightarrow> bool" where
  "hasExactKeysV1 value requiredKeys optionalKeys =
     (case json_entries value of
        None \<Rightarrow> False
      | Some es \<Rightarrow> (\<forall>key \<in> set requiredKeys. key \<in> set (map fst es)) \<and>
          (\<forall>key \<in> set (map fst es). key \<in> set (requiredKeys @ optionalKeys)))"

definition field_of :: "json \<Rightarrow> string \<Rightarrow> json option" where
  "field_of value key = (case json_entries value of None \<Rightarrow> None | Some es \<Rightarrow> map_of es key)"

definition opaque_char :: "char \<Rightarrow> bool" where
  "opaque_char c \<longleftrightarrow> (let n = (of_char c :: nat) in
     (65 \<le> n \<and> n \<le> 90) \<or> (97 \<le> n \<and> n \<le> 122) \<or> (48 \<le> n \<and> n \<le> 57)) \<or>
     c = CHR ''.'' \<or> c = CHR ''_'' \<or> c = CHR '':'' \<or> c = CHR ''-''"

definition isOpaqueText :: "string \<Rightarrow> bool" where
  "isOpaqueText s \<longleftrightarrow> 8 \<le> length s \<and> length s \<le> 128 \<and> (\<forall>c \<in> set s. opaque_char c)"

fun isOpaqueValue :: "json option \<Rightarrow> bool" where
  "isOpaqueValue (Some (JStr s)) = isOpaqueText s"
| "isOpaqueValue _ = False"

fun isBoundedIntegerV1 :: "json option \<Rightarrow> int \<Rightarrow> int \<Rightarrow> bool" where
  "isBoundedIntegerV1 (Some (JNum n)) minimum maximum = (isSafeInteger n \<and> minimum \<le> n \<and> n \<le> maximum)"
| "isBoundedIntegerV1 _ minimum maximum = False"

fun json_int :: "json option \<Rightarrow> int option" where
  "json_int (Some (JNum n)) = Some n"
| "json_int _ = None"

fun json_text :: "json option \<Rightarrow> string" where
  "json_text (Some (JStr s)) = s"
| "json_text _ = []"

definition parseQueryRequest :: "json \<Rightarrow> AgentInputAdapterErrorCode + (int option \<times> int option)" where
  "parseQueryRequest value =
     (if \<not> hasExactKeysV1 value [''schemaVersion''] [''limit'', ''leaseDurationMs''] \<or>
         field_of value ''schemaVersion'' \<noteq> Some (JStr ''agent-input.query.v1'') \<or>
         (field_of value ''limit'' \<noteq> None \<and>
           \<not> isBoundedIntegerV1 (field_of value ''limit'') 1 AGENT_INPUT_MAX_QUERY_LIMIT) \<or>
         (field_of value ''leaseDurationMs'' \<noteq> None \<and>
           \<not> isBoundedIntegerV1 (field_of value ''leaseDurationMs'') AGENT_INPUT_MIN_LEASE_MS AGENT_INPUT_MAX_LEASE_MS)
      then Inl INVALID_REQUEST
      else Inr (json_int (field_of value ''limit''), json_int (field_of value ''leaseDurationMs'')))"

definition parseCommitRequest :: "json \<Rightarrow> AgentInputAdapterErrorCode + (string \<times> string)" where
  "parseCommitRequest value =
     (if \<not> hasExactKeysV1 value [''schemaVersion'', ''agentInputId'', ''leaseToken''] [] \<or>
         field_of value ''schemaVersion'' \<noteq> Some (JStr ''agent-input.commit.v1'') \<or>
         \<not> isOpaqueValue (field_of value ''agentInputId'') \<or> \<not> isOpaqueValue (field_of value ''leaseToken'')
      then Inl INVALID_REQUEST
      else Inr (json_text (field_of value ''agentInputId''), json_text (field_of value ''leaseToken'')))"

definition parseReplayRequest :: "json \<Rightarrow> AgentInputAdapterErrorCode + string list" where
  "parseReplayRequest value =
     (case field_of value ''agentInputIds'' of
        Some (JArr ids) \<Rightarrow>
          if \<not> hasExactKeysV1 value [''schemaVersion'', ''agentInputIds''] [] \<or>
             field_of value ''schemaVersion'' \<noteq> Some (JStr ''agent-input.replay.v1'') \<or>
             length ids < 1 \<or> MAX_REPLAY_IDS < length ids \<or>
             \<not> list_all (\<lambda>i. isOpaqueValue (Some i)) ids \<or> \<not> distinct ids
          then Inl INVALID_REQUEST
          else Inr (map (\<lambda>i. json_text (Some i)) ids)
      | _ \<Rightarrow> Inl INVALID_REQUEST)"

subsection \<open>What may be delivered\<close>

definition unit_interval :: "real \<Rightarrow> bool" where
  "unit_interval v \<longleftrightarrow> 0 \<le> v \<and> v \<le> 1"

definition isBoundedText :: "string \<Rightarrow> nat \<Rightarrow> nat \<Rightarrow> bool" where
  "isBoundedText value minimum maximum \<longleftrightarrow>
     minimum \<le> length value \<and> length value \<le> maximum \<and> (\<forall>c \<in> set value. \<not> control_char c)"

definition segment_deliverable :: "bool \<Rightarrow> TimelineSegmentV2 \<Rightarrow> bool" where
  "segment_deliverable hasGoal s =
     (let c = sg_classification s in
      unit_interval (cl_confidence c) \<and> unit_interval (cl_entropy c) \<and> unit_interval (cl_oodScore c) \<and>
      isBoundedText (cl_modelVersion c) 1 256 \<and>
      (if \<not> hasGoal then cl_goalRelevance c = None \<and> sg_goalRelevance s = None
       else cl_goalRelevance c \<noteq> None \<and> sg_goalRelevance s \<noteq> None) \<and>
      (if cl_abstain c
       then sg_activity s = other_unknown \<and>
            sg_goalRelevance s = (if hasGoal then Some uncertain else None) \<and>
            hy_generator (sg_hypothesis s) = ''deterministic-template.v2'' \<and>
            hy_text (sg_hypothesis s) = uncertain_text
       else sg_activity s = cl_activity c \<and> sg_goalRelevance s = cl_goalRelevance c))"

definition isDeliverableAgentInput :: "AgentInputV1 \<Rightarrow> bool" where
  "isDeliverableAgentInput input \<longleftrightarrow>
     1 \<le> length (ai_segments input) \<and>
     (\<forall>s \<in> set (ai_segments input). segment_deliverable (ai_goal input \<noteq> None) s)"

definition validLeasedResult :: "AgentInputEnvelopeV1 list \<Rightarrow> bool" where
  "validLeasedResult inputs \<longleftrightarrow>
     int (length inputs) \<le> AGENT_INPUT_MAX_QUERY_LIMIT \<and>
     (\<forall>e \<in> set inputs. en_state e = LEASED \<and> isDeliverableAgentInput (en_input e) \<and>
        isOpaqueText (ai_agentInputId (en_input e)) \<and> isOpaqueText (ai_idempotencyKey (en_input e)) \<and>
        (case en_leaseToken e of None \<Rightarrow> False | Some t \<Rightarrow> isOpaqueText t) \<and>
        (case en_leaseExpiresAtMs e of None \<Rightarrow> False | Some x \<Rightarrow> isSafeInteger x \<and> 0 \<le> x) \<and>
        1 \<le> en_attempt e)"

subsection \<open>The service's methods\<close>

text \<open>Each method reads the clock when it runs, after the check that the service is open.\<close>

record 's AgentInputServiceBoundary =
  sb_queryAgentInputs :: "int \<Rightarrow> int \<Rightarrow> ('s, thrown, AgentInputEnvelopeV1 list) comp"
  sb_commitAgentInput :: "string \<Rightarrow> string \<Rightarrow> ('s, thrown, AgentInputEnvelopeV1) comp"
  sb_releaseAgentInputs :: "string list \<Rightarrow> ('s, thrown, nat) comp"

definition assertRuntimeOpen :: "bool \<Rightarrow> ('s, thrown, unit) comp" where
  "assertRuntimeOpen shutdownRequested =
     (if shutdownRequested then throw (plain_error ''Timeline v2 service is shutting down.'') else ret ())"

definition timeline_service ::
  "(string \<Rightarrow> string \<Rightarrow> int) \<Rightarrow> (nat \<Rightarrow> string) \<Rightarrow> (string \<Rightarrow> nat list) \<Rightarrow> bool \<Rightarrow> int \<Rightarrow>
   TimelineRepositoryV2 AgentInputServiceBoundary" where
  "timeline_service lc uuid digest shutdownRequested now =
     \<lparr>sb_queryAgentInputs = (\<lambda>limit lease. andThen (assertRuntimeOpen shutdownRequested) (\<lambda>_.
        await_op thrown_of_timeline (queryAgentInputs lc uuid
          \<lparr>aq_limit = Some limit, aq_nowMs = now, aq_leaseDurationMs = Some lease, aq_includeHeldLocal = False\<rparr>))),
      sb_commitAgentInput = (\<lambda>aid token. andThen (assertRuntimeOpen shutdownRequested) (\<lambda>_.
        await_op thrown_of_timeline (commitAgentInput digest aid token now))),
      sb_releaseAgentInputs = (\<lambda>ids. andThen (assertRuntimeOpen shutdownRequested) (\<lambda>_.
        await_op thrown_of_timeline (releaseAgentInputs (Some ids))))\<rparr>"

subsection \<open>The adapter\<close>

definition adapter_query :: "'s AgentInputServiceBoundary \<Rightarrow> json \<Rightarrow>
    ('s, AgentInputAdapterErrorCode, AgentInputAdapterResponse) comp" where
  "adapter_query service request =
     andThen (liftE (parseQueryRequest request)) (\<lambda>(limit, lease) s.
       case sb_queryAgentInputs service (or_default limit AGENT_INPUT_DEFAULT_QUERY_LIMIT)
              (or_default lease AGENT_INPUT_DEFAULT_LEASE_MS) s of
         (Inl _, t) \<Rightarrow> (Inl QUERY_FAILED, t)
       | (Inr inputs, t) \<Rightarrow>
           if or_default limit AGENT_INPUT_DEFAULT_QUERY_LIMIT < int (length inputs) \<or> \<not> validLeasedResult inputs
           then (Inl QUERY_FAILED, t) else (Inr (QueryResponse inputs), t))"

definition adapter_commit :: "'s AgentInputServiceBoundary \<Rightarrow> json \<Rightarrow>
    ('s, AgentInputAdapterErrorCode, AgentInputAdapterResponse) comp" where
  "adapter_commit service request =
     andThen (liftE (parseCommitRequest request)) (\<lambda>(aid, token) s.
       case sb_commitAgentInput service aid token s of
         (Inl _, t) \<Rightarrow> (Inl COMMIT_REJECTED, t)
       | (Inr e, t) \<Rightarrow>
           (case en_ackedAtMs e of
              Some ackedAt \<Rightarrow>
                if en_state e \<noteq> ACKED \<or> ai_agentInputId (en_input e) \<noteq> aid \<or>
                   \<not> isOpaqueText (ai_idempotencyKey (en_input e)) \<or> en_leaseToken e \<noteq> None \<or>
                   en_leaseExpiresAtMs e \<noteq> None \<or> \<not> (0 \<le> ackedAt \<and> ackedAt \<le> MAX_SAFE_INTEGER)
                then (Inl COMMIT_REJECTED, t) else (Inr (CommitResponse aid ackedAt), t)
            | None \<Rightarrow> (Inl COMMIT_REJECTED, t)))"

definition adapter_replay :: "'s AgentInputServiceBoundary \<Rightarrow> json \<Rightarrow>
    ('s, AgentInputAdapterErrorCode, AgentInputAdapterResponse) comp" where
  "adapter_replay service request =
     andThen (liftE (parseReplayRequest request)) (\<lambda>ids s.
       case sb_releaseAgentInputs service ids s of
         (Inl _, t) \<Rightarrow> (Inl REPLAY_FAILED, t)
       | (Inr n, t) \<Rightarrow>
           if length ids < n then (Inl REPLAY_FAILED, t) else (Inr (ReplayResponse (length ids) n), t))"

definition adapter_handle :: "'s AgentInputServiceBoundary \<Rightarrow> json \<Rightarrow> json \<Rightarrow>
    ('s, AgentInputAdapterErrorCode, AgentInputAdapterResponse) comp" where
  "adapter_handle service meth request =
     (if meth = JStr ''agent.input.query'' then adapter_query service request
      else if meth = JStr ''agent.input.commit'' then adapter_commit service request
      else if meth = JStr ''agent.input.replay'' then adapter_replay service request
      else throw INVALID_REQUEST)"

subsection \<open>The assembler the program runs with\<close>

definition runtime_assembler :: "(string \<Rightarrow> string) \<Rightarrow> (string \<Rightarrow> string \<Rightarrow> int) \<Rightarrow> bool \<Rightarrow> EpisodeAssembler" where
  "runtime_assembler sha256 lc stopped =
     \<lparr>as_sha256 = sha256, as_localeCompare = lc,
      as_classify = (\<lambda>facts goal context'. heuristic_classify stopped facts goal),
      as_generate = deterministic_generate stopped, as_similarity = None\<rparr>"

lemma heuristic_classification:
  assumes "heuristic_classify stopped facts goal = Inr c"
  shows "unit_interval (cl_confidence c) \<and> unit_interval (cl_entropy c) \<and> unit_interval (cl_oodScore c) \<and>
    isBoundedText (cl_modelVersion c) 1 256 \<and> (cl_goalRelevance c = None \<longleftrightarrow> goal = None)"
  using assms
  by (cases goal) (auto simp: heuristic_classify_def bindE_eq_Inr_iff Let_def unit_interval_def isBoundedText_def control_char_def)

lemma final_hypothesis_abstain:
  "cl_abstain (ep_classification ep) \<Longrightarrow>
     hy_text (ep_hypothesis (final_hypothesis h ep)) = uncertain_text \<and>
     hy_generator (ep_hypothesis (final_hypothesis h ep)) = ''deterministic-template.v2''"
  by (simp add: final_hypothesis_def)

lemma segment_of_episode_deliverable:
  assumes "heuristic_classify stopped facts (tw_goal window) = Inr c"
    and "ep_classification ep = c\<lparr>cl_goalRelevance := (if tw_goal window = None then None else cl_goalRelevance c)\<rparr>"
  shows "segment_deliverable (tw_goal window \<noteq> None) (segment_of_episode window fb (final_hypothesis h ep))"
  using heuristic_classification [OF assms(1)] assms(2) final_hypothesis_abstain [of ep h]
  by (cases "cl_abstain c"; cases "tw_goal window")
    (auto simp: segment_deliverable_def segment_of_episode_def Let_def)

lemma process_deliverable:
  assumes "tp_episodes p = runtime_assembler sha256 lc stopped"
    and "process p stopped createdAt window r = (Inr result, r')"
    and "event \<in> set (tw_events window)" and "se_countClass event = CountEffective"
    and "se_kind event \<noteq> AuthorizationChangedV2"
  shows "isDeliverableAgentInput (pr_agentInput result) \<and> ai_windowId (pr_agentInput result) = tw_windowId window \<and>
    ai_goal (pr_agentInput result) = tw_goal window \<and> length (ai_segments (pr_agentInput result)) \<le> 8"
proof -
  let ?a = "runtime_assembler sha256 lc stopped"
  obtain facts contextFacts previousEpisode episodes corrected summaryFacts where
    render: "render (tp_urls p) sha256 (tw_events window) = Inr facts"
    and assemble: "assemble ?a stopped window facts previousEpisode contextFacts = Inr episodes"
    and result: "result = \<lparr>pr_windowId = tw_windowId window, pr_facts = facts, pr_episodes = episodes,
      pr_summary = buildSummary p createdAt window summaryFacts episodes corrected,
      pr_agentInput = buildAgentInput p window (buildSummary p createdAt window summaryFacts episodes corrected)\<rparr>"
    using process_result [OF assms(2)] assms(1) by (metis EpisodeAssembler.select_convs(1) runtime_assembler_def)
  let ?segs = "segmentFacts (as_localeCompare ?a) facts"
  obtain h eps0 where e: "episodes = map (final_hypothesis h) eps0" "length eps0 = length ?segs"
      "\<And>i. i < length eps0 \<Longrightarrow> episode_of_segment ?a window previousEpisode i (?segs ! i) (eps0 ! i)"
    using assemble_episodes [OF assemble] by blast
  obtain f where "f \<in> set facts" "fa_role f \<noteq> RoleBoundary"
    using render_has_evidence [OF render assms(3-5)] by blast
  then have "f \<in># facts_of ?segs" by (simp add: segmentFacts_props(1) non_boundary_def)
  then have some: "1 \<le> length ?segs" by (cases ?segs) auto
  let ?fb = "fold (\<lambda>f. jset (fa_factId f) f) summaryFacts []"
  have segs: "ai_segments (pr_agentInput result) = map (segment_of_episode window ?fb) episodes"
    and goal: "ai_goal (pr_agentInput result) = tw_goal window"
    and wid: "ai_windowId (pr_agentInput result) = tw_windowId window"
    by (simp_all add: result buildAgentInput_def buildSummary_def Let_def)
  have good: "segment_deliverable (tw_goal window \<noteq> None) (segment_of_episode window ?fb ep)" if ep: "ep \<in> set episodes" for ep
  proof -
    obtain i where i: "i < length eps0" "ep = final_hypothesis h (eps0 ! i)"
      using ep e(1) by (auto simp: in_set_conv_nth)
    obtain fs ctx c where "as_classify ?a fs (tw_goal window) ctx = Inr c"
        "ep_classification (eps0 ! i) = c\<lparr>cl_goalRelevance := (if tw_goal window = None then None else cl_goalRelevance c)\<rparr>"
      using e(3) [OF i(1)] unfolding episode_of_segment_def by blast
    then show ?thesis using segment_of_episode_deliverable i(2) by (simp add: runtime_assembler_def)
  qed
  show ?thesis
    using good segs goal wid some e(1,2) segmentFacts_props(2) [of "as_localeCompare ?a" facts]
    by (simp add: isDeliverableAgentInput_def)
qed

text \<open>C7: what the timeline produces is what its delivery boundary accepts: the agent input of
  every processed window that has a counted event is deliverable, with at least one segment,
  scores in the unit interval, a goal relevance exactly when there is a goal, and an abstained
  classification shown as unknown activity, uncertain relevance and the uncertain hypothesis.\<close>

theorem processed_window_is_deliverable:
  assumes "tp_episodes p = runtime_assembler sha256 lc stopped"
    and "process p stopped createdAt window r = (Inr result, r')"
    and "event \<in> set (tw_events window)" and "se_countClass event = CountEffective"
    and "se_kind event \<noteq> AuthorizationChangedV2"
  shows "isDeliverableAgentInput (pr_agentInput result) \<and> ai_windowId (pr_agentInput result) = tw_windowId window \<and>
    ai_goal (pr_agentInput result) = tw_goal window \<and> length (ai_segments (pr_agentInput result)) \<le> 8"
  by (rule process_deliverable [OF assms])

subsection \<open>Delivery\<close>

definition adapter_ready :: "TimelineRepositoryV2 \<Rightarrow> bool" where
  "adapter_ready r \<longleftrightarrow> (\<forall>e \<in> set (jvalues (tr_outbox r)). isDeliverableAgentInput (en_input e) \<and>
     isOpaqueText (ai_agentInputId (en_input e)) \<and> isOpaqueText (ai_idempotencyKey (en_input e)))"

lemma parseQueryRequest_bounds:
  assumes "parseQueryRequest request = Inr (limit, lease)"
  shows "1 \<le> or_default limit 32 \<and> or_default limit 32 \<le> 100 \<and>
    5000 \<le> or_default lease 30000 \<and> or_default lease 30000 \<le> 300000"
proof -
  have bounded: "json_int j = None \<or> (\<exists>n. json_int j = Some n \<and> lo \<le> n \<and> n \<le> hi)"
    if "\<not> (j \<noteq> None \<and> \<not> isBoundedIntegerV1 j lo hi)" for j lo hi
    using that by (cases "(j, lo, hi)" rule: isBoundedIntegerV1.cases) auto
  have "limit = json_int (field_of request ''limit'')" "lease = json_int (field_of request ''leaseDurationMs'')"
    and "\<not> (field_of request ''limit'' \<noteq> None \<and>
        \<not> isBoundedIntegerV1 (field_of request ''limit'') 1 AGENT_INPUT_MAX_QUERY_LIMIT)"
    and "\<not> (field_of request ''leaseDurationMs'' \<noteq> None \<and>
        \<not> isBoundedIntegerV1 (field_of request ''leaseDurationMs'') AGENT_INPUT_MIN_LEASE_MS AGENT_INPUT_MAX_LEASE_MS)"
    using assms unfolding parseQueryRequest_def by (auto simp del: isBoundedIntegerV1.simps split: if_splits)
  with bounded [of "field_of request ''limit''" 1 AGENT_INPUT_MAX_QUERY_LIMIT]
    bounded [of "field_of request ''leaseDurationMs''" AGENT_INPUT_MIN_LEASE_MS AGENT_INPUT_MAX_LEASE_MS]
  show ?thesis
    by (auto simp: or_default_def AGENT_INPUT_MAX_QUERY_LIMIT_def AGENT_INPUT_MIN_LEASE_MS_def
        AGENT_INPUT_MAX_LEASE_MS_def)
qed

lemma query_result_length:
  assumes "timeline_repo_inv r" and "queryAgentInputs lc uuid q r = (Inr res, r')"
  shows "length res \<le> nat (query_limit q)"
proof -
  let ?cs = "query_candidates lc q (nat (query_limit q)) (tr_outbox r)"
  have "query_accepted q" using assms(2) by (auto simp: queryAgentInputs_eq split: if_splits)
  then have "res = fst (lease_loop uuid (aq_nowMs q + lease_of q) 0 ?cs ([], tr_outbox r))"
    using assms(2) by (simp add: queryAgentInputs_eq Let_def)
  then have "length res = length ?cs" using lease_loop_fst [OF query_candidates_props(1) [OF assms(1)]] by simp
  then show ?thesis by (simp add: query_candidates_def)
qed

lemma query_result_valid:
  assumes inv: "timeline_repo_inv r" and ready: "adapter_ready r" and "\<And>i. isOpaqueText (uuid i)"
    and q: "aq_includeHeldLocal q = False" "0 \<le> aq_nowMs q" "aq_nowMs q + lease_of q \<le> MAX_SAFE_INTEGER" "0 < lease_of q"
      "query_limit q \<le> 100"
    and run: "queryAgentInputs lc uuid q r = (Inr res, r')"
  shows "validLeasedResult res"
  unfolding validLeasedResult_def
proof (intro conjI ballI)
  show "int (length res) \<le> AGENT_INPUT_MAX_QUERY_LIMIT"
    using query_result_length [OF inv run] q(5) by (simp add: AGENT_INPUT_MAX_QUERY_LIMIT_def)
next
  fix e
  assume e: "e \<in> set res"
  let ?cs = "query_candidates lc q (nat (query_limit q)) (tr_outbox r)"
  have acc: "query_accepted q" using run by (auto simp: queryAgentInputs_eq split: if_splits)
  then have "res = fst (lease_loop uuid (aq_nowMs q + lease_of q) 0 ?cs ([], tr_outbox r))"
    using run by (simp add: queryAgentInputs_eq Let_def)
  then have res: "res = map (\<lambda>c. lease_one (granted_tokens uuid 0 ?cs) (aq_nowMs q + lease_of q)
      (ai_agentInputId (en_input c)) c) ?cs"
    using lease_loop_fst [OF query_candidates_props(1) [OF inv]] by simp
  obtain c where c: "c \<in> set ?cs" "e = lease_one (granted_tokens uuid 0 ?cs) (aq_nowMs q + lease_of q)
      (ai_agentInputId (en_input c)) c" using e res by auto
  have cand: "jget (tr_outbox r) (ai_agentInputId (en_input c)) = Some c" "deliverable q c"
    using query_candidates_props(2) [OF inv c(1)] by auto
  then have nh: "en_state c \<noteq> HELD_LOCAL" using q(1) by (auto simp: deliverable_def)
  then have "ai_agentInputId (en_input c) \<in> set (jkeys (granted_tokens uuid 0 ?cs))" using c(1) unfolding granted_in by blast
  then obtain t where t: "jget (granted_tokens uuid 0 ?cs) (ai_agentInputId (en_input c)) = Some t"
    by (metis jget_not_key option.exhaust)
  then obtain i where "t = uuid i" using granted_token_uuid by blast
  then have opaque: "isOpaqueText t" using assms(3) by simp
  have le: "e = leased_envelope t (aq_nowMs q + lease_of q) c" using c(2) t by (simp add: lease_one_def)
  have mem: "c \<in> set (jvalues (tr_outbox r))" using cand(1) by (force dest: map_of_SomeD)
  show "en_state e = LEASED" using le by simp
  show "isDeliverableAgentInput (en_input e)" "isOpaqueText (ai_agentInputId (en_input e))"
    "isOpaqueText (ai_idempotencyKey (en_input e))"
    using ready mem le unfolding adapter_ready_def by auto
  show "case en_leaseToken e of None \<Rightarrow> False | Some t \<Rightarrow> isOpaqueText t"
    using le opaque by (simp add: leased_envelope_def)
  show "case en_leaseExpiresAtMs e of None \<Rightarrow> False | Some x \<Rightarrow> isSafeInteger x \<and> 0 \<le> x"
    using le q(2-4) by (simp add: leased_envelope_def isSafeInteger_def)
  show "1 \<le> en_attempt e" using le by (simp add: leased_envelope_def)
qed

text \<open>A well-formed query is always answered: while every stored agent input is deliverable
  and named by an opaque identifier, the adapter returns leased inputs, at most as many as asked
  for, each recorded in the outbox under the token it was handed out with.\<close>

lemma adapter_query_ok:
  assumes "timeline_repo_inv r" and "adapter_ready r" and "\<forall>i. isOpaqueText (uuid i)"
    and "parseQueryRequest request = Inr (limit, lease)" and "0 \<le> now" and "now + 300000 \<le> MAX_SAFE_INTEGER"
  shows "\<exists>inputs r'. adapter_query (timeline_service lc uuid digest' False now) request r = (Inr (QueryResponse inputs), r') \<and>
    validLeasedResult inputs \<and> int (length inputs) \<le> or_default limit 32 \<and>
    (\<forall>e \<in> set inputs. jget (tr_outbox r') (ai_agentInputId (en_input e)) = Some e)"
proof -
  let ?q = "\<lparr>aq_limit = Some (or_default limit 32), aq_nowMs = now, aq_leaseDurationMs = Some (or_default lease 30000),
    aq_includeHeldLocal = False\<rparr>"
  note inv = assms(1)
  note b = parseQueryRequest_bounds [OF assms(4)]
  have acc: "query_accepted ?q" using b by (simp add: query_accepted_def query_limit_def lease_of_def MAX_SAFE_INTEGER_def)
  obtain res r' where run: "queryAgentInputs lc uuid ?q r = (Inr res, r')"
    using acc by (simp add: queryAgentInputs_eq Let_def)
  have valid: "validLeasedResult res"
    using query_result_valid [OF inv assms(2) _ _ _ _ _ _ run] assms(3,5,6) b
    by (simp add: lease_of_def query_limit_def)
  have len: "int (length res) \<le> or_default limit 32"
    using query_result_length [OF inv run] b by (simp add: query_limit_def le_nat_iff)
  have "adapter_query (timeline_service lc uuid digest' False now) request r = (Inr (QueryResponse res), r')"
    using run valid len assms(4)
    by (simp add: adapter_query_def timeline_service_def assertRuntimeOpen_def andThen_def liftE_def await_op_def
        map_error_def AGENT_INPUT_DEFAULT_QUERY_LIMIT_def AGENT_INPUT_DEFAULT_LEASE_MS_def ret_def)
  moreover have "\<forall>e \<in> set res. jget (tr_outbox r') (ai_agentInputId (en_input e)) = Some e"
    using query_delivers [OF inv run] by metis
  ultimately show ?thesis using valid len by blast
qed

end
