(* ===== verification/TimelineSystem.thy ===== *)
theory TimelineSystem
  imports TimelineCollectorCorrect TimelineAdapter
begin

text \<open>
  The timeline as a whole: the collector takes in the semantic events that the contract admits,
  the job runner processes the windows it sealed, and the adapter delivers the agent inputs. The
  parts share the repository; every interleaving of their operations is a run of the system.
\<close>

subsection \<open>What the collector leaves alone\<close>

abbreviation outbox_is :: "(string, AgentInputEnvelopeV1) jmap \<Rightarrow> TimelineCollectorV2 \<Rightarrow> bool" where
  "outbox_is ob s \<equiv> tr_outbox (tc_repository s) = ob"

lemma outbox_modify: "(\<And>s. tc_repository (f s) = tc_repository s) \<Longrightarrow> preserves (outbox_is ob) (modifyS f)"
  by (simp add: preserves_def modifyS_def)

lemma outbox_awaitStore:
  assumes "\<And>r. tr_outbox (snd (m r)) = tr_outbox r"
  shows "preserves (outbox_is ob) (tc_awaitStore m)"
proof (rule preservesI)
  fix s
  assume "outbox_is ob s"
  moreover obtain res r where "m (tc_repository s) = (res, r)" by fastforce
  ultimately show "outbox_is ob (snd (tc_awaitStore m s))"
    using assms [of "tc_repository s"] by (cases res) (simp_all add: tc_awaitStore_def)
qed

lemma outbox_save: "tr_outbox (snd (saveCollectorV2 sn rv r)) = tr_outbox r"
  by (simp add: saveCollectorV2_def Let_def split: sum.split)

lemma outbox_load: "tr_outbox (snd (loadCollectorV2 cid r)) = tr_outbox r"
  by (simp add: loadCollectorV2_def)

lemma outbox_seal: "tr_outbox (snd (sealWindowV2 w sn rv r)) = tr_outbox r"
  by (simp add: sealWindowV2_def Let_def split: option.split sum.split)

lemma outbox_reads:
  "preserves (outbox_is ob) tc_requireSnapshot" "preserves (outbox_is ob) tc_readClock" "preserves (outbox_is ob) getS"
  "preserves (outbox_is ob) (liftE x)"
  by (simp_all add: preserves_def tc_requireSnapshot_def tc_readClock_def getS_def liftE_def split: option.split)

lemma preserves_if: "(b \<Longrightarrow> preserves I m) \<Longrightarrow> (\<not> b \<Longrightarrow> preserves I n) \<Longrightarrow> preserves I (if b then m else n)"
  by simp

lemma preserves_option:
  "preserves I m \<Longrightarrow> (\<And>x. y = Some x \<Longrightarrow> preserves I (f x)) \<Longrightarrow> preserves I (case y of None \<Rightarrow> m | Some x \<Rightarrow> f x)"
  by (cases y) simp_all

lemma preserves_pair: "(\<And>a b. preserves I (f a b)) \<Longrightarrow> preserves I (case p of (a, b) \<Rightarrow> f a b)"
  by (cases p) simp

lemmas outbox_rules = preserves_andThen preserves_ret preserves_throw preserves_if preserves_option preserves_pair
  outbox_reads outbox_awaitStore outbox_save outbox_load outbox_seal outbox_modify

lemma outbox_ops:
  "preserves (outbox_is ob) (tc_setState st)" "preserves (outbox_is ob) (tc_setSnapshot sn)"
  "preserves (outbox_is ob) tc_cancelTimer" "preserves (outbox_is ob) (tc_armDeadline d)"
  "preserves (outbox_is ob) (tc_save cand)" "preserves (outbox_is ob) (tc_sealCandidate cfg cand reason t goal)"
  "preserves (outbox_is ob) (tc_seal cfg reason t)" "preserves (outbox_is ob) (tc_settleOpen cfg arm ow)"
  unfolding tc_setState_def tc_setSnapshot_def tc_cancelTimer_def tc_armDeadline_def tc_save_def tc_sealCandidate_def
    tc_seal_def tc_settleOpen_def
  by (intro outbox_rules; simp)+

lemma outbox_boundaries:
  "preserves (outbox_is ob) (tc_handleGoalBoundary cfg e)" "preserves (outbox_is ob) (tc_handlePresenceBoundary cfg e)"
  "preserves (outbox_is ob) (tc_resetForAuthorizationBoundary c i)" "preserves (outbox_is ob) (tc_ingestUncounted sn e)"
  "preserves (outbox_is ob) (tc_ingestEffective cfg sn e)"
  unfolding tc_handleGoalBoundary_def tc_handlePresenceBoundary_def tc_resetForAuthorizationBoundary_def
    tc_ingestUncounted_def tc_ingestEffective_def Let_def
  by (intro outbox_rules outbox_ops; simp)+

lemma outbox_ingest: "preserves (outbox_is ob) (tc_ingestSerialized n cfg e)"
proof (induction n)
  case (Suc n)
  then show ?case
    unfolding tc_ingestSerialized.simps tc_ingestCurrent_def tc_handleAuthorizationBoundary_def
    by (intro outbox_rules outbox_ops outbox_boundaries)
qed (simp add: preserves_throw)

lemma outbox_other:
  "preserves (outbox_is ob) (tc_recover cfg deferred)" "preserves (outbox_is ob) (tc_resumeDeadlines cfg)"
  "preserves (outbox_is ob) (tc_flushCountDue cfg)" "preserves (outbox_is ob) (tc_flushDue cfg)"
  "preserves (outbox_is ob) (tc_discardForAuthorizationRevocation c)" "preserves (outbox_is ob) (tc_fireTimer cfg)"
  "preserves (outbox_is ob) tc_dispose"
  unfolding tc_recover_def tc_resumeDeadlines_def tc_flushCountDue_def tc_flushDue_def
    tc_discardForAuthorizationRevocation_def tc_fireTimer_def tc_dispose_def
  by (intro outbox_rules outbox_ops outbox_boundaries; simp)+

subsection \<open>What the runner and the delivery keep\<close>

text \<open>The digest is written as 64 lower-case hexadecimal digits.\<close>

definition hex_digest :: "(string \<Rightarrow> string) \<Rightarrow> bool" where
  "hex_digest sha256 \<longleftrightarrow> (\<forall>x. length (sha256 x) = 64 \<and> list_all lower_hex (sha256 x))"

definition input_ready :: "AgentInputV1 \<Rightarrow> bool" where
  "input_ready i \<longleftrightarrow> isDeliverableAgentInput i \<and> isOpaqueText (ai_agentInputId i) \<and> isOpaqueText (ai_idempotencyKey i)"

lemma ready_iff:
  assumes "timeline_repo_inv r"
  shows "adapter_ready r \<longleftrightarrow> (\<forall>aid e. jget (tr_outbox r) aid = Some e \<longrightarrow> input_ready (en_input e))"
proof -
  have "distinct (jkeys (tr_outbox r))" using assms unfolding timeline_repo_inv_def outbox_wf_def keyed_by_def by blast
  then show ?thesis unfolding adapter_ready_def input_ready_def using jvalues_in_iff by metis
qed

lemma ready_pointwise:
  assumes "timeline_repo_inv r" and "timeline_repo_inv r'" and "adapter_ready r"
    and "\<And>aid e'. jget (tr_outbox r') aid = Some e' \<Longrightarrow> \<exists>e. jget (tr_outbox r) aid = Some e \<and> en_input e' = en_input e"
  shows "adapter_ready r'"
  using assms unfolding ready_iff [OF assms(1)] ready_iff [OF assms(2)] by metis

lemma opaque_agent_input:
  assumes "hex_digest sha256"
  shows "isOpaqueText (''agent_input_'' @ sha256 x)"
proof -
  have "lower_hex c \<Longrightarrow> opaque_char c" for c by (auto simp: lower_hex_def opaque_char_def Let_def)
  then have "\<forall>c \<in> set (sha256 x). opaque_char c" using assms by (auto simp: hex_digest_def list_all_iff)
  moreover have "\<forall>c \<in> set ''agent_input_''. opaque_char c" by (simp add: opaque_char_def)
  ultimately show ?thesis using assms by (simp add: isOpaqueText_def hex_digest_def)
qed

definition shown_window :: "TimelineWindowV2 \<Rightarrow> bool" where
  "shown_window w \<longleftrightarrow> (\<exists>e \<in> set (tw_events w). is_effective e \<and> se_kind e \<noteq> AuthorizationChangedV2)"

lemma processed_ready:
  assumes "hex_digest sha256" and "tp_episodes p = runtime_assembler sha256 lc stopped"
    and "process p stopped createdAt window r = (Inr result, r')" and "shown_window window"
  shows "input_ready (pr_agentInput result)"
proof -
  obtain e where e: "e \<in> set (tw_events window)" "se_countClass e = CountEffective" "se_kind e \<noteq> AuthorizationChangedV2"
    using assms(4) by (auto simp: shown_window_def is_effective_def)
  obtain summary where "pr_agentInput result = buildAgentInput p window summary"
    using process_result [OF assms(3)] by (metis PersistTimelineResult.select_convs(5))
  then show ?thesis
    using process_deliverable [OF assms(2,3) e] opaque_agent_input [OF assms(1)] assms(2)
    by (simp add: input_ready_def buildAgentInput_def Let_def runtime_assembler_def)
qed

text \<open>
  The part of the repository's state that the runner and the delivery may rely on and must keep.
\<close>

definition served :: "TimelineRepositoryV2 \<Rightarrow> TimelineRepositoryV2 \<Rightarrow> bool" where
  "served r0 r \<longleftrightarrow> timeline_repo_inv r \<and> tr_collectors r = tr_collectors r0 \<and> tr_windows r = tr_windows r0 \<and> adapter_ready r"

lemma served_same_outbox:
  assumes "\<And>r. timeline_repo_inv r \<Longrightarrow> timeline_repo_inv (snd (m r))"
    and "\<And>r. tr_collectors (snd (m r)) = tr_collectors r \<and> tr_windows (snd (m r)) = tr_windows r \<and>
      tr_outbox (snd (m r)) = tr_outbox r"
  shows "preserves (served r0) m"
  using assms by (simp add: preserves_def served_def adapter_ready_def)

lemma served_jobs:
  "preserves (served r0) (claimNextWindow lc now lease)" "preserves (served r0) (abandonWindowClaim wid now)"
  "preserves (served r0) (recordWindowFailure wid f)" "preserves (served r0) (finalizeWindowCommit wid now)"
  "preserves (served r0) (getJobV2 wid)"
proof -
  show "preserves (served r0) (claimNextWindow lc now lease)"
    by (rule served_same_outbox [OF claimNextWindow_inv])
      (simp_all add: claimNextWindow_def Let_def put_job_v2_def split: sum.split list.split)
  show "preserves (served r0) (abandonWindowClaim wid now)"
    by (rule served_same_outbox [OF abandonWindowClaim_inv])
      (simp_all add: abandonWindowClaim_def requireJobV2_def op_defs Let_def put_job_v2_def split: option.split)
  show "preserves (served r0) (recordWindowFailure wid f)"
    by (rule served_same_outbox [OF recordWindowFailure_inv])
      (simp_all add: recordWindowFailure_def requireJobV2_def op_defs Let_def put_job_v2_def split: option.split)
  show "preserves (served r0) (finalizeWindowCommit wid now)"
    by (rule preservesI) (simp add: finalizeWindowCommit_unchanged served_def)
  show "preserves (served r0) (getJobV2 wid)"
    by (simp add: preserves_def getJobV2_def)
qed

lemma served_complete:
  assumes "input_ready (pr_agentInput result)"
  shows "preserves (served r0) (completeWindow result now)"
proof (rule preservesI)
  fix r
  assume r: "served r0 r"
  then have inv: "timeline_repo_inv r" "timeline_repo_inv (snd (completeWindow result now r))"
    by (simp_all add: served_def completeWindow_inv)
  have shape: "snd (completeWindow result now r) = r \<or> (\<exists>job. snd (completeWindow result now r) = completed result job r)"
    using finalizeWindowCommit_unchanged [OF inv(1)]
    by (auto simp: completeWindow_eq Let_def split: option.split)
  then have "adapter_ready (snd (completeWindow result now r))"
    using r assms unfolding ready_iff [OF inv(2)] served_def ready_iff [OF inv(1)]
    by (auto simp: completed_def put_job_v2_def split: if_splits)
  moreover have "tr_collectors (snd (completeWindow result now r)) = tr_collectors r"
    "tr_windows (snd (completeWindow result now r)) = tr_windows r"
    using shape by (auto simp: completed_def put_job_v2_def)
  ultimately show "served r0 (snd (completeWindow result now r))" using r inv(2) by (simp add: served_def)
qed

lemma preserves_await: "preserves I m \<Longrightarrow> preserves I (await_op g m)"
  by (simp add: preserves_def await_op_def case_prod_beta)

lemma wp_preserves: "preserves I m \<Longrightarrow> I s \<Longrightarrow> wp m (\<lambda>_. I) s"
  by (simp add: preserves_def wp_def case_prod_beta)

lemma served_catch: "preserves (served r0) (run_catch opts env job error)"
  unfolding run_catch_def Let_def
  by (intro preserves_andThen preserves_if preserves_ret preserves_throw preserves_await served_jobs)

lemma served_try:
  assumes "hex_digest sha256" and "tp_episodes p = runtime_assembler sha256 lc stopped"
    and "re_process env = process p stopped createdAt" and "shown_window window"
  shows "preserves (served r0) (run_try env job window)"
proof (rule preservesI)
  fix r
  assume r: "served r0 r"
  obtain x t where x: "process p stopped createdAt window r = (x, t)" by fastforce
  then have t: "t = r" using reads_onlyD [OF process_reads_only] by blast
  show "served r0 (snd (run_try env job window r))"
  proof (cases x)
    case (Inr result)
    then have "input_ready (pr_agentInput result)" using processed_ready [OF assms(1,2) _ assms(4)] x by blast
    then have "preserves (served r0)
       (if re_aborted env SignalResult
        then andThen (await_op thrown_of_timeline
               (abandonWindowClaim (tj_windowId job) (re_now env ClockAbandonResult))) (\<lambda>_. ret RunAbandoned)
        else andThen (await_op thrown_of_timeline (completeWindow result (re_now env ClockComplete))) (\<lambda>_. ret RunCompleted))"
      by (intro preserves_andThen preserves_if preserves_ret preserves_await served_jobs served_complete)
    from preservesD [OF this r] show ?thesis using x t Inr assms(3) by (simp add: run_try_def andThen_def [of "process p stopped createdAt window"])
  qed (use x t r assms(3) in \<open>simp add: run_try_def andThen_def\<close>)
qed

lemma served_runNext:
  assumes digest: "hex_digest sha256" "tp_episodes p = runtime_assembler sha256 lc stopped"
    and env: "re_process env = process p stopped createdAt"
    and shown: "\<And>w. w \<in> set (jvalues (tr_windows r0)) \<Longrightarrow> shown_window w" and r: "served r0 r"
  shows "served r0 (snd (runNext opts env r))"
proof -
  have body: "preserves (served r0) (\<lambda>r. case run_try env job window r of
      (Inr result, t) \<Rightarrow> (Inr result, t) | (Inl error, t) \<Rightarrow> run_catch opts env job error t)"
    if "shown_window window" for job window
  proof (rule preservesI)
    fix q
    assume "served r0 q"
    then have "served r0 (snd (run_try env job window q))" by (rule preservesD [OF served_try [OF digest env that]])
    then show "served r0 (snd (case run_try env job window q of
        (Inr result, t) \<Rightarrow> (Inr result, t) | (Inl error, t) \<Rightarrow> run_catch opts env job error t))"
      using preservesD [OF served_catch, of r0 _ opts env job] by (auto split: prod.split sum.split)
  qed
  have found: "preserves (served r0) (andThen (await_op thrown_of_timeline (getWindowV2 wid)) f)"
    if f: "\<And>w. (\<And>x. w = Some x \<Longrightarrow> shown_window x) \<Longrightarrow> preserves (served r0) (f w)" for wid and f :: "TimelineWindowV2 option \<Rightarrow> (TimelineRepositoryV2, thrown, TimelineRunResult) comp"
  proof (rule preservesI)
    fix q
    assume q: "served r0 q"
    have "shown_window x" if "jget (tr_windows q) wid = Some x" for x
    proof -
      have "x \<in> set (jvalues (tr_windows r0))" using q that by (force simp: served_def dest: map_of_SomeD)
      then show ?thesis by (rule shown)
    qed
    from preservesD [OF f [OF this] q] show "served r0 (snd (andThen (await_op thrown_of_timeline (getWindowV2 wid)) f q))"
      by (simp add: andThen_def await_op_def getWindowV2_def map_error_def)
  qed
  have "preserves (served r0) (runNext opts env)"
    unfolding runNext_def run_claimed_v2_def Let_def
    by (intro preserves_if preserves_ret preserves_throw preserves_option body found
        preserves_andThen [OF preserves_await [OF served_jobs(1)]] preserves_andThen [OF preserves_await [OF served_jobs(2)]]
        preserves_andThen [OF preserves_await [OF served_jobs(3)]] preserves_andThen [OF preserves_await [OF served_jobs(4)]])
  then show ?thesis using r by (rule preservesD)
qed

subsection \<open>Delivery\<close>

lemma served_outbox:
  assumes "\<And>r. timeline_repo_inv r \<Longrightarrow> timeline_repo_inv (snd (m r))"
    and "\<And>r. tr_collectors (snd (m r)) = tr_collectors r \<and> tr_windows (snd (m r)) = tr_windows r"
    and "\<And>r aid e'. timeline_repo_inv r \<Longrightarrow> jget (tr_outbox (snd (m r))) aid = Some e' \<Longrightarrow>
      \<exists>e. jget (tr_outbox r) aid = Some e \<and> en_input e' = en_input e"
  shows "preserves (served r0) m"
proof (rule preservesI)
  fix r
  assume r: "served r0 r"
  then have "timeline_repo_inv r" "adapter_ready r" by (simp_all add: served_def)
  with ready_pointwise [OF this(1) assms(1) [OF this(1)] this(2) assms(3) [OF this(1)]] show "served r0 (snd (m r))"
    using r assms(1,2) by (simp add: served_def)
qed

lemma served_delivery:
  "preserves (served r0) (queryAgentInputs lc uuid q)" "preserves (served r0) (commitAgentInput digest aid tok now)"
  "preserves (served r0) (releaseAgentInputs sel)"
proof -
  have lease: "\<exists>e. jget (tr_outbox r) aid = Some e \<and> en_input e' = en_input e"
    if inv: "timeline_repo_inv r" and e': "jget (tr_outbox (snd (queryAgentInputs lc uuid q r))) aid = Some e'" for r aid e'
  proof (cases "query_accepted q")
    case True
    then show ?thesis using e' unfolding query_outbox [OF inv True] by (auto simp: lease_one_def split: option.splits)
  qed (use e' in \<open>simp add: queryAgentInputs_eq\<close>)
  show "preserves (served r0) (queryAgentInputs lc uuid q)"
    by (rule served_outbox [OF queryAgentInputs_inv _ lease]) (simp_all add: queryAgentInputs_eq Let_def)
  have ack: "tr_collectors (snd (commitAgentInput digest aid tok now r)) = tr_collectors r \<and>
      tr_windows (snd (commitAgentInput digest aid tok now r)) = tr_windows r \<and>
      (\<forall>aid' e'. jget (tr_outbox (snd (commitAgentInput digest aid tok now r))) aid' = Some e' \<longrightarrow>
        (\<exists>e. jget (tr_outbox r) aid' = Some e \<and> en_input e' = en_input e))" for r
  proof -
    obtain res r' where eq: "commitAgentInput digest aid tok now r = (res, r')" by fastforce
    show ?thesis unfolding eq using eq by (cases rule: ack_cases) (auto split: if_splits)
  qed
  show "preserves (served r0) (commitAgentInput digest aid tok now)"
    by (rule served_outbox [OF commitAgentInput_inv]) (use ack in blast)+
  show "preserves (served r0) (releaseAgentInputs sel)"
    by (rule served_outbox [OF releaseAgentInputs_inv])
      (auto simp: releaseAgentInputs_outbox release_one_def, simp_all add: releaseAgentInputs_def)
qed

lemma served_service:
  "preserves (served r0) (sb_queryAgentInputs (timeline_service lc uuid digest halted now) limit lease)"
  "preserves (served r0) (sb_commitAgentInput (timeline_service lc uuid digest halted now) aid tok)"
  "preserves (served r0) (sb_releaseAgentInputs (timeline_service lc uuid digest halted now) ids)"
  unfolding timeline_service_def assertRuntimeOpen_def
  by (simp_all only: AgentInputServiceBoundary.select_convs)
    (intro preserves_andThen preserves_if preserves_ret preserves_throw preserves_await served_delivery)+

lemma adapter_query_state:
  "snd (adapter_query service request s) = s \<or>
   (\<exists>limit lease. snd (adapter_query service request s) = snd (sb_queryAgentInputs service limit lease s))"
proof (cases "parseQueryRequest request")
  case (Inr p)
  obtain limit lease where p: "p = (limit, lease)" by (cases p) simp
  let ?call = "sb_queryAgentInputs service (or_default limit AGENT_INPUT_DEFAULT_QUERY_LIMIT)
    (or_default lease AGENT_INPUT_DEFAULT_LEASE_MS)"
  obtain x t where x: "?call s = (x, t)" by fastforce
  then have "snd (adapter_query service request s) = snd (?call s)"
    using Inr p by (cases x) (simp_all add: adapter_query_def andThen_def liftE_def)
  then show ?thesis by blast
qed (simp add: adapter_query_def andThen_def liftE_def)

lemma adapter_commit_state:
  "snd (adapter_commit service request s) = s \<or>
   (\<exists>aid tok. snd (adapter_commit service request s) = snd (sb_commitAgentInput service aid tok s))"
proof (cases "parseCommitRequest request")
  case (Inr p)
  obtain aid tok where p: "p = (aid, tok)" by (cases p) simp
  obtain x t where x: "sb_commitAgentInput service aid tok s = (x, t)" by fastforce
  then have "snd (adapter_commit service request s) = snd (sb_commitAgentInput service aid tok s)"
    using Inr p by (cases x) (simp_all add: adapter_commit_def andThen_def liftE_def split: option.split)
  then show ?thesis by blast
qed (simp add: adapter_commit_def andThen_def liftE_def)

lemma adapter_replay_state:
  "snd (adapter_replay service request s) = s \<or>
   (\<exists>ids. snd (adapter_replay service request s) = snd (sb_releaseAgentInputs service ids s))"
proof (cases "parseReplayRequest request")
  case (Inr ids)
  obtain x t where x: "sb_releaseAgentInputs service ids s = (x, t)" by fastforce
  then have "snd (adapter_replay service request s) = snd (sb_releaseAgentInputs service ids s)"
    using Inr by (cases x) (simp_all add: adapter_replay_def andThen_def liftE_def)
  then show ?thesis by blast
qed (simp add: adapter_replay_def andThen_def liftE_def)

lemma served_handle:
  assumes "served r0 r"
  shows "served r0 (snd (adapter_handle (timeline_service lc uuid digest halted now) meth request r))"
proof -
  let ?service = "timeline_service lc uuid digest halted now"
  note keep = preservesD [OF served_service(1) assms] preservesD [OF served_service(2) assms] preservesD [OF served_service(3) assms]
  have "served r0 (snd (adapter_query ?service request r))" "served r0 (snd (adapter_commit ?service request r))"
    "served r0 (snd (adapter_replay ?service request r))"
    using adapter_query_state [of ?service request r] adapter_commit_state [of ?service request r]
      adapter_replay_state [of ?service request r] assms keep by metis+
  then show ?thesis using assms by (simp add: adapter_handle_def throw_def)
qed

subsection \<open>The system\<close>

text \<open>
  The states the system can be in. Events arrive as JSON values that passed the guard of the
  contract; the runner uses the program's own assembler; requests reach the adapter as they are.
\<close>

inductive timeline_system ::
  "(string \<Rightarrow> nat list) \<Rightarrow> (string \<Rightarrow> string) \<Rightarrow> TimelineCollectorConfig \<Rightarrow> TimelineCollectorV2 \<Rightarrow> bool"
  for digest sha256 cfg where
  sys_start: "new_timeline_collector cfg empty_timeline_repository clock = Inr s \<Longrightarrow> timeline_system digest sha256 cfg s"
| sys_restart: "timeline_system digest sha256 cfg s \<Longrightarrow> new_timeline_collector cfg (tc_repository s) clock = Inr t \<Longrightarrow>
    timeline_system digest sha256 cfg t"
| sys_ingest: "timeline_system digest sha256 cfg s \<Longrightarrow> isSemanticEventV2 v \<Longrightarrow>
    timeline_system digest sha256 cfg (snd (tc_ingest depth cfg (semantic_event_of v) s))"
| sys_recover: "timeline_system digest sha256 cfg s \<Longrightarrow> timeline_system digest sha256 cfg (snd (tc_recover cfg deferred s))"
| sys_resume: "timeline_system digest sha256 cfg s \<Longrightarrow> timeline_system digest sha256 cfg (snd (tc_resumeDeadlines cfg s))"
| sys_flushCount: "timeline_system digest sha256 cfg s \<Longrightarrow> timeline_system digest sha256 cfg (snd (tc_flushCountDue cfg s))"
| sys_flush: "timeline_system digest sha256 cfg s \<Longrightarrow> timeline_system digest sha256 cfg (snd (tc_flushDue cfg s))"
| sys_discard: "timeline_system digest sha256 cfg s \<Longrightarrow>
    timeline_system digest sha256 cfg (snd (tc_discardForAuthorizationRevocation c s))"
| sys_timer: "timeline_system digest sha256 cfg s \<Longrightarrow> timeline_system digest sha256 cfg (snd (tc_fireTimer cfg s))"
| sys_dispose: "timeline_system digest sha256 cfg s \<Longrightarrow> timeline_system digest sha256 cfg (snd (tc_dispose s))"
| sys_run: "timeline_system digest sha256 cfg s \<Longrightarrow> tp_episodes p = runtime_assembler sha256 lc stopped \<Longrightarrow>
    re_process env = process p stopped createdAt \<Longrightarrow>
    timeline_system digest sha256 cfg (s\<lparr>tc_repository := snd (runNext opts env (tc_repository s))\<rparr>)"
| sys_deliver: "timeline_system digest sha256 cfg s \<Longrightarrow> timeline_system digest sha256 cfg (s\<lparr>tc_repository :=
    snd (adapter_handle (timeline_service lc uuid digest halted now) meth request (tc_repository s))\<rparr>)"

definition system_ok :: "TimelineCollectorConfig \<Rightarrow> TimelineCollectorV2 \<Rightarrow> bool" where
  "system_ok cfg s \<longleftrightarrow> config_ok cfg \<and> tl_step_ok cfg UNIV empty_timeline_repository s \<and> adapter_ready (tc_repository s)"

lemma system_ok_collector:
  assumes "system_ok cfg s" and "\<And>E r. tl_step_ok cfg UNIV r s \<Longrightarrow> wp m (\<lambda>_. tl_step_ok cfg UNIV r) s"
    and "\<And>ob. preserves (outbox_is ob) m"
  shows "system_ok cfg (snd (m s))"
proof -
  have "tl_step_ok cfg UNIV empty_timeline_repository (snd (m s))"
    using assms(1) by (intro wp_snd [OF assms(2)]) (simp add: system_ok_def)
  moreover have "tr_outbox (tc_repository (snd (m s))) = tr_outbox (tc_repository s)"
    by (rule preservesD [OF assms(3) refl])
  ultimately show ?thesis using assms(1) by (simp add: system_ok_def adapter_ready_def)
qed

lemma system_ok_shown:
  assumes "system_ok cfg s" and "w \<in> set (jvalues (tr_windows (tc_repository s)))"
  shows "tl_window_ok cfg w \<and> shown_window w"
proof -
  have "tw_collectorId w = tcc_collectorId cfg"
    using assms by (auto simp: system_ok_def tl_step_ok_def grows_def empty_timeline_repository_def)
  then have ok: "tl_window_ok cfg w" using assms unfolding system_ok_def tl_step_ok_def store_ok_def by blast
  then have "filter is_effective (tw_events w) \<noteq> []" by (auto simp: tl_window_ok_def)
  then obtain e where "e \<in> set (tw_events w)" "is_effective e" by (metis filter_False)
  then show ?thesis using ok by (auto simp: shown_window_def tl_window_ok_def)
qed

lemma system_ok_served:
  assumes "system_ok cfg s" and "served (tc_repository s) r"
  shows "system_ok cfg (s\<lparr>tc_repository := r\<rparr>)"
  using assms by (simp add: system_ok_def tl_step_ok_def store_ok_def grows_def pending_def served_def)

lemma system_served: "system_ok cfg s \<Longrightarrow> served (tc_repository s) (tc_repository s)"
  by (simp add: system_ok_def tl_step_ok_def store_ok_def served_def)

lemma timeline_system_ok:
  assumes "timeline_system digest sha256 cfg s" and "hex_digest sha256"
  shows "system_ok cfg s"
  using assms(1)
proof (induction rule: timeline_system.induct)
  case (sys_start clock s)
  then show ?case
    using new_collector_ok [OF sys_start] tl_step_ok_mono [OF new_step_ok [OF sys_start]]
    by (simp add: system_ok_def adapter_ready_def empty_timeline_repository_def)
next
  case (sys_restart s clock t)
  then show ?case using new_collector_ok [of cfg "tc_repository s" clock t] by (simp add: system_ok_def tl_step_ok_def)
next
  case (sys_ingest s v depth)
  have "contract_event (semantic_event_of v)" using accepted_event_class [OF sys_ingest(2)] by (simp add: contract_event_def)
  with sys_ingest show ?case
    unfolding tc_ingest_def
    by (intro system_ok_collector wp_ingestSerialized outbox_ingest) (simp_all add: system_ok_def)
next
  case (sys_recover s deferred)
  then show ?case by (intro system_ok_collector wp_recover outbox_other) (simp_all add: system_ok_def)
next
  case (sys_run s p lc stopped env createdAt opts)
  then show ?case
    using system_ok_served [OF sys_run.IH served_runNext [OF assms(2) sys_run.hyps(2,3) _ system_served [OF sys_run.IH]]]
      system_ok_shown [OF sys_run.IH] by blast
next
  case (sys_deliver s lc uuid halted now meth request)
  then show ?case by (intro system_ok_served served_handle system_served)
qed (auto intro!: system_ok_collector outbox_other intro: wp_resume wp_flushCountDue wp_flushDue wp_tc_discard wp_fireTimer wp_dispose)

text \<open>C2: from event to delivery: in every state the timeline can reach, whatever events the
  contract admitted, however often the collector was restarted, the runner stopped or failed and
  the delivery called, a well-formed query is answered, with valid leased inputs, and each input
  answers for a well-formed window that the collector sealed.\<close>

theorem timeline_always_delivers:
  assumes "timeline_system digest sha256 cfg s" and "hex_digest sha256" and "\<forall>i. isOpaqueText (uuid i)"
    and "parseQueryRequest request = Inr (limit, lease)" and "0 \<le> now" and "now + 300000 \<le> MAX_SAFE_INTEGER"
  shows "\<exists>inputs r. adapter_query (timeline_service lc uuid digest False now) request (tc_repository s) =
      (Inr (QueryResponse inputs), r) \<and> validLeasedResult inputs \<and>
    (\<forall>e \<in> set inputs. \<exists>w. jget (tr_windows (tc_repository s)) (ai_windowId (en_input e)) = Some w \<and> tl_window_ok cfg w)"
proof -
  let ?r = "tc_repository s"
  have ok: "system_ok cfg s" by (rule timeline_system_ok [OF assms(1,2)])
  then have inv: "timeline_repo_inv ?r" and ready: "adapter_ready ?r"
    by (simp_all add: system_ok_def tl_step_ok_def store_ok_def)
  obtain inputs r where q: "adapter_query (timeline_service lc uuid digest False now) request ?r = (Inr (QueryResponse inputs), r)"
      "validLeasedResult inputs" "\<forall>e \<in> set inputs. jget (tr_outbox r) (ai_agentInputId (en_input e)) = Some e"
    using adapter_query_ok [OF inv ready assms(3-6), of lc digest] by blast
  have "served ?r (snd (adapter_query (timeline_service lc uuid digest False now) request ?r))"
    using served_handle [OF system_served [OF ok], of lc uuid digest False now "JStr ''agent.input.query''" request]
    by (simp add: adapter_handle_def)
  then have r: "served ?r r" using q(1) by simp
  have "\<exists>w. jget (tr_windows ?r) (ai_windowId (en_input e)) = Some w \<and> tl_window_ok cfg w" if e: "e \<in> set inputs" for e
  proof -
    have rinv: "timeline_repo_inv r" using r by (simp add: served_def)
    then obtain res where "jget (tr_results r) (ai_windowId (en_input e)) = Some res"
      using q(3) e unfolding timeline_repo_inv_def outbox_wf_def by blast
    then obtain w where w: "jget (tr_windows r) (ai_windowId (en_input e)) = Some w"
      using inv_result_exists [OF rinv] inv_window_exists [OF rinv]
      by (metis not_None_eq option.map_disc_iff)
    then have "jget (tr_windows ?r) (ai_windowId (en_input e)) = Some w" using r by (simp add: served_def)
    moreover have "w \<in> set (jvalues (tr_windows ?r))" using calculation by (force dest: map_of_SomeD)
    ultimately show ?thesis using system_ok_shown [OF ok] by blast
  qed
  with q show ?thesis by blast
qed

end
