(* ===== verification/TimelineExamples.thy ===== *)
theory TimelineExamples
  imports TimelineSystem
begin

text \<open>
  Concrete runs of the timeline: a collector with a threshold of two over an empty repository
  takes in two events and seals a window, which is processed, released, delivered and
  acknowledged. The properties of the timeline are applied to these states, with the definitions
  evaluated by the simplifier, so that their hypotheses are seen to hold together.
\<close>

subsection \<open>Fixtures\<close>

definition tx_event :: "string \<Rightarrow> int \<Rightarrow> SemanticEventKind \<Rightarrow> (string \<times> json) list \<Rightarrow> SemanticEventV2" where
  "tx_event name t k pl =
     \<lparr>se_eventId = name, se_cursor = name, se_deviceId = ''d'', se_sessionId = ''s'', se_kind = k, se_source = ''native'',
      se_occurredAtMs = t, se_observedAtMs = t, se_goalVersion = None, se_countClass = expectedCountClass k,
      se_reliability = ReliabilityHigh, se_coverage = [CoverMetadata], se_contentState = ContentAvailable,
      se_sourceObservationIds = [name], se_taxonomyVersion = ''t'', se_projectorVersion = ''p'', se_payload = pl\<rparr>"

definition tx_focus :: "string \<Rightarrow> int \<Rightarrow> SemanticEventV2" where
  "tx_focus name t = tx_event name t UiFocusChanged [(''appId'', JStr ''a''), (''appName'', JStr ''A''), (''role'', JStr ''button'')]"

definition tx_authorization :: SemanticEventV2 where
  "tx_authorization = tx_event ''r'' 15 AuthorizationChangedV2 [(''transition'', JStr ''revoked'')]"

definition tx_digest :: "string \<Rightarrow> string" where
  "tx_digest s = replicate 64 (CHR ''0'')"

definition tx_cfg :: TimelineCollectorConfig where
  "tx_cfg = \<lparr>tcc_collectorId = ''c'', tcc_deviceId = ''d'', tcc_sessionId = ''s'', tcc_initialGoal = None,
     tcc_threshold = 2, tcc_maxWaitMs = 1000, tcc_onDeadlineReady = False, tcc_onCountReady = False,
     tcc_sha256 = tx_digest\<rparr>"

definition tx_collector :: TimelineCollectorV2 where
  "tx_collector = (case new_timeline_collector tx_cfg empty_timeline_repository int of Inr s \<Rightarrow> s | Inl _ \<Rightarrow> undefined)"

lemma tx_collector_new: "new_timeline_collector tx_cfg empty_timeline_repository int = Inr tx_collector"
  by (simp add: tx_collector_def new_timeline_collector_def tx_cfg_def isSafeInteger_def MAX_SAFE_INTEGER_def)

definition tx_recovered :: TimelineCollectorV2 where
  "tx_recovered = snd (tc_recover tx_cfg False tx_collector)"

definition tx_collecting :: TimelineCollectorV2 where
  "tx_collecting = snd (tc_ingest 2 tx_cfg (tx_focus ''e1'' 10) tx_recovered)"

definition tx_sealed :: TimelineCollectorV2 where
  "tx_sealed = snd (tc_ingest 2 tx_cfg (tx_focus ''e2'' 20) tx_collecting)"

subsection \<open>Processing\<close>

definition tx_processor :: TimelineProcessor where
  "tx_processor = \<lparr>tp_urls = \<lparr>new_url = (\<lambda>_. None), url_toString = url_pathname\<rparr>,
     tp_episodes = runtime_assembler tx_digest code_unit_compare False, tp_formatTime = (\<lambda>_. ''12:00''),
     tp_score = (\<lambda>_. JNum 1)\<rparr>"

definition tx_window :: TimelineWindowV2 where
  "tx_window = \<lparr>tw_windowId = ''w'', tw_collectorId = ''c'', tw_deviceId = ''d'', tw_sessionId = ''s'',
     tw_triggerReason = max_wait, tw_goal = None, tw_goalVersion = None, tw_startedAtMs = 10, tw_endedAtMs = 20,
     tw_deadlineAtMs = 1010, tw_eventCount = 1, tw_firstCursor = ''e1'', tw_lastCursor = ''e1'',
     tw_events = [tx_focus ''e1'' 10], tw_contextOnly = [], tw_inputHash = ''h''\<rparr>"

lemma not_Inl: "\<not> isl x \<Longrightarrow> \<exists>y. x = Inr y"
  by (cases x) simp_all

lemma tx_process: "\<exists>result. process tx_processor False 30 tx_window empty_timeline_repository =
    (Inr result, empty_timeline_repository)"
proof -
  have "\<not> isl (fst (process tx_processor False 30 tx_window empty_timeline_repository))" by code_simp
  then obtain result where "fst (process tx_processor False 30 tx_window empty_timeline_repository) = Inr result"
    using not_Inl by blast
  then show ?thesis
    using reads_onlyD [OF process_reads_only, of tx_processor False 30 tx_window empty_timeline_repository]
    by (metis prod.collapse)
qed

theorem processed_window_is_deliverable_witness:
  "\<exists>result. process tx_processor False 30 tx_window empty_timeline_repository = (Inr result, empty_timeline_repository) \<and>
     isDeliverableAgentInput (pr_agentInput result)"
proof -
  obtain result where p: "process tx_processor False 30 tx_window empty_timeline_repository =
      (Inr result, empty_timeline_repository)" using tx_process by blast
  have "tp_episodes tx_processor = runtime_assembler tx_digest code_unit_compare False" by (simp add: tx_processor_def)
  from processed_window_is_deliverable [OF this p, of "tx_focus ''e1'' 10"] p show ?thesis
    by (auto simp: tx_window_def tx_focus_def tx_event_def)
qed

definition tx_fact :: EvidenceFactV2 where
  "tx_fact = \<lparr>fa_factId = ''f'', fa_eventIds = [''e1''], fa_sourceObservationIds = [''e1''], fa_startedAtMs = 10, fa_endedAtMs = 10,
     fa_templateCode = TemplateFocus, fa_templateArgs = [], fa_renderedText = ''focus'',
     fa_anchor = \<lparr>an_appId = Some ''a'', an_windowId = None, an_documentId = None, an_pageId = None\<rparr>,
     fa_role = RolePrimary, fa_reliability = ReliabilityHigh, fa_coverage = [CoverMetadata]\<rparr>"

theorem episodes_account_for_facts_witness:
  "\<exists>episodes. assemble (runtime_assembler tx_digest code_unit_compare False) False tx_window [tx_fact] None [] = Inr episodes \<and>
     (\<exists>ep \<in> set episodes. ''f'' \<in> cited_ids ep)"
proof -
  have "\<not> isl (assemble (runtime_assembler tx_digest code_unit_compare False) False tx_window [tx_fact] None [])"
    by code_simp
  then obtain episodes where a: "assemble (runtime_assembler tx_digest code_unit_compare False) False tx_window [tx_fact] None [] = Inr episodes"
    using not_Inl by blast
  from episodes_account_for_facts [OF a] a show ?thesis by (simp add: tx_fact_def)
qed

definition tx_redacted :: SemanticEventV2 where
  "tx_redacted = (tx_event ''e1'' 10 ApplicationForegroundChanged [(''appId'', JStr ''a''), (''windowTitle'', JStr ''secret'')])
     \<lparr>se_contentState := ContentRedacted\<rparr>"

theorem withheld_content_not_rendered_witness:
  "renderEventV2 (tp_urls tx_processor) tx_digest (tx_redacted\<lparr>se_payload := [(''appId'', JStr ''a'')]\<rparr>) =
   renderEventV2 (tp_urls tx_processor) tx_digest tx_redacted"
  by (rule withheld_content_not_rendered)
    (auto simp: tx_redacted_def tx_event_def agree_outside_content_def payload_value_def content_keys_def)

subsection \<open>The repository\<close>

definition tx_bytes :: "string \<Rightarrow> nat list" where
  "tx_bytes s = map of_char s"

definition tx_input :: AgentInputV1 where
  "tx_input = \<lparr>ai_agentInputId = ''input-01'', ai_idempotencyKey = ''input-01'', ai_timelineId = ''t'', ai_windowId = ''w'',
     ai_triggerReason = max_wait, ai_triggeredAtMs = 20, ai_deadlineAtMs = 1010,
     ai_period = \<lparr>pd_startedAtMs = 10, pd_endedAtMs = 20\<rparr>, ai_goal = None, ai_segments = [], ai_renderedText = [],
     ai_coverage = [], ai_modelVersions = [], ai_inferenceDiagnostics = [], ai_taxonomyVersion = ''t'',
     ai_projectorVersion = ''p'', ai_payloadHash = ''h'', ai_createdAtMs = 30\<rparr>"

definition tx_summary :: TimelineSummaryV2 where
  "tx_summary = \<lparr>su_timelineId = ''t'', su_windowId = ''w'', su_triggerReason = max_wait, su_triggeredAtMs = 20,
     su_deadlineAtMs = 1010, su_period = \<lparr>pd_startedAtMs = 10, pd_endedAtMs = 20\<rparr>, su_goalVersion = None, su_segments = [],
     su_coverage = [], su_coverageWarnings = [], su_renderedText = [], su_modelVersions = [], su_inferenceDiagnostics = [],
     su_taxonomyVersion = ''t'', su_projectorVersion = ''p'', su_createdAtMs = 30, su_revision = 1, su_correctsTimelineId = None\<rparr>"

definition tx_result :: PersistTimelineResult where
  "tx_result = \<lparr>pr_windowId = ''w'', pr_facts = [], pr_episodes = [], pr_summary = tx_summary, pr_agentInput = tx_input\<rparr>"

definition tx_query :: "int \<Rightarrow> AgentInputQuery" where
  "tx_query now = \<lparr>aq_limit = Some 1, aq_nowMs = now, aq_leaseDurationMs = Some 1000, aq_includeHeldLocal = False\<rparr>"

definition rx_saved :: TimelineRepositoryV2 where
  "rx_saved = snd (saveCollectorV2 (tc_initialSnapshot tx_cfg 0) None empty_timeline_repository)"

definition rx_sealed :: TimelineRepositoryV2 where
  "rx_sealed = snd (sealWindowV2 tx_window ((tc_initialSnapshot tx_cfg 0)\<lparr>tcs_revision := 1\<rparr>) 0 rx_saved)"

definition rx_claimed :: TimelineRepositoryV2 where
  "rx_claimed = snd (claimNextWindow code_unit_compare 100 1000 rx_sealed)"

definition rx_completed :: TimelineRepositoryV2 where
  "rx_completed = snd (completeWindow tx_result 110 rx_claimed)"

definition rx_released :: TimelineRepositoryV2 where
  "rx_released = snd (releaseAgentInputs None rx_completed)"

definition rx_leased :: TimelineRepositoryV2 where
  "rx_leased = snd (queryAgentInputs code_unit_compare (\<lambda>_. ''token-01'') (tx_query 120) rx_released)"

definition rx_acked :: TimelineRepositoryV2 where
  "rx_acked = snd (commitAgentInput tx_bytes ''input-01'' ''token-01'' 130 rx_leased)"

lemma rx_reachable:
  "timeline_reachable tx_bytes rx_sealed" "timeline_reachable tx_bytes rx_claimed" "timeline_reachable tx_bytes rx_released"
  "timeline_reachable tx_bytes rx_leased" "timeline_reachable tx_bytes rx_acked"
proof -
  have "timeline_reachable tx_bytes rx_saved"
    unfolding rx_saved_def by (intro reachable_step [OF reachable_empty] call_step save_call)
  then show s: "timeline_reachable tx_bytes rx_sealed"
    unfolding rx_sealed_def by (rule reachable_step) (intro call_step seal_call)
  then show c: "timeline_reachable tx_bytes rx_claimed"
    unfolding rx_claimed_def by (rule reachable_step) (intro call_step claim_call)
  then have "timeline_reachable tx_bytes rx_completed"
    unfolding rx_completed_def by (rule reachable_step) (intro call_step complete_call)
  then show r: "timeline_reachable tx_bytes rx_released"
    unfolding rx_released_def by (rule reachable_step) (intro call_step release_call)
  then show l: "timeline_reachable tx_bytes rx_leased"
    unfolding rx_leased_def by (rule reachable_step) (intro query_step)
  then show "timeline_reachable tx_bytes rx_acked"
    unfolding rx_acked_def by (rule reachable_step) (intro call_step commit_call)
qed

theorem timeline_reachable_inv_witness: "timeline_repo_inv rx_acked"
  by (rule timeline_reachable_inv [OF rx_reachable(5)])

lemma tx_pair: "fst x = y \<Longrightarrow> x = (y, snd x)"
  by (cases x) simp

theorem completeWindow_all_or_nothing_witness:
  "\<exists>envelope. jget (tr_outbox rx_completed) ''input-01'' = Some envelope \<and> en_input envelope = tx_input"
proof -
  have "\<not> isl (fst (completeWindow tx_result 110 rx_claimed))" by code_simp
  then obtain job where job: "completeWindow tx_result 110 rx_claimed = (Inr job, rx_completed)"
    using not_Inl tx_pair unfolding rx_completed_def by metis
  have "jget (tr_results rx_completed) ''w'' = Some tx_result" by code_simp
  with completeWindow_all_or_nothing [OF rx_reachable(2) job] show ?thesis by (auto simp: tx_result_def tx_input_def)
qed

theorem outbox_refines_lease_queue_witness:
  "outbox_view rx_leased = outbox_view rx_released \<or>
   lease_step (opaqueLeaseTokenHash tx_bytes) (outbox_view rx_released) (outbox_view rx_leased)"
  by (rule outbox_refines_lease_queue [OF rx_reachable(3)]) (unfold rx_leased_def, rule query_step)

definition rx_envelope :: AgentInputEnvelopeV1 where
  "rx_envelope = \<lparr>en_input = tx_input, en_state = LEASED, en_leaseToken = Some ''token-01'', en_leaseExpiresAtMs = Some 1120,
     en_attempt = 1, en_ackedAtMs = None\<rparr>"

theorem acked_input_is_settled_witness:
  "fst (commitAgentInput tx_bytes ''input-01'' ''token-99'' 140 rx_acked) = Inl AckLeaseTokenMismatch"
proof -
  have "fst (commitAgentInput tx_bytes ''input-01'' ''token-01'' 130 rx_leased) = Inr (acked_envelope 130 rx_envelope)"
    by code_simp
  then have c: "commitAgentInput tx_bytes ''input-01'' ''token-01'' 130 rx_leased = (Inr (acked_envelope 130 rx_envelope), rx_acked)"
    unfolding rx_acked_def by (rule tx_pair)
  have h: "opaqueLeaseTokenHash tx_bytes ''token-99'' \<noteq> opaqueLeaseTokenHash tx_bytes ''token-01''" by code_simp
  have "(timeline_step tx_bytes)\<^sup>*\<^sup>* rx_acked rx_acked" by simp
  from acked_input_is_settled [OF rx_reachable(4) c this] h show ?thesis by simp
qed

theorem leases_do_not_overlap_witness:
  "\<exists>res s. queryAgentInputs code_unit_compare (\<lambda>_. ''token-02'') (tx_query 200) rx_leased = (Inr res, s) \<and>
     ''input-01'' \<notin> set (map (ai_agentInputId \<circ> en_input) res)"
proof -
  have "fst (queryAgentInputs code_unit_compare (\<lambda>_. ''token-01'') (tx_query 120) rx_released) = Inr [rx_envelope]" by code_simp
  then have q: "queryAgentInputs code_unit_compare (\<lambda>_. ''token-01'') (tx_query 120) rx_released = (Inr [rx_envelope], rx_leased)"
    unfolding rx_leased_def by (rule tx_pair)
  have "\<not> isl (fst (queryAgentInputs code_unit_compare (\<lambda>_. ''token-02'') (tx_query 200) rx_leased))" by code_simp
  then obtain res where r: "queryAgentInputs code_unit_compare (\<lambda>_. ''token-02'') (tx_query 200) rx_leased =
      (Inr res, snd (queryAgentInputs code_unit_compare (\<lambda>_. ''token-02'') (tx_query 200) rx_leased))"
    using not_Inl tx_pair by metis
  have "(step_before tx_bytes 1120)\<^sup>*\<^sup>* rx_leased rx_leased" by simp
  from leases_do_not_overlap [OF rx_reachable(3) q _ _ _ this _ r] r show ?thesis
    by (auto simp: rx_envelope_def tx_query_def tx_input_def)
qed

definition tx_env :: TimelineRunEnv where
  "tx_env = \<lparr>re_now = (\<lambda>_. 100), re_aborted = (\<lambda>_. False), re_process = process tx_processor False 100\<rparr>"

definition tx_runner :: TimelineRunnerOptions where
  "tx_runner = \<lparr>ro_localeCompare = code_unit_compare, ro_leaseDurationMs = 1000, ro_jitter = (\<lambda>n. 0)\<rparr>"

theorem timeline_run_settles_its_job_witness: "\<exists>x. fst (runNext tx_runner tx_env rx_sealed) = Inr x"
  using timeline_run_settles_its_job [OF rx_reachable(1), of tx_runner tx_env tx_processor False 100
      "fst (runNext tx_runner tx_env rx_sealed)" "snd (runNext tx_runner tx_env rx_sealed)"]
  by (auto simp: tx_runner_def tx_env_def MAX_SAFE_INTEGER_def)

subsection \<open>The contract\<close>

definition tx_json :: "string \<Rightarrow> int \<Rightarrow> json" where
  "tx_json name t = JObj [(''kind'', JStr ''ui.focusChanged''), (''schemaVersion'', JStr ''semantic-event.v2''),
     (''eventId'', JStr name), (''cursor'', JStr ''sec2_0000000000000000''), (''deviceId'', JStr ''d''),
     (''sessionId'', JStr ''s''), (''source'', JStr ''native''), (''occurredAtMs'', JNum t), (''observedAtMs'', JNum t),
     (''goalVersion'', JNull), (''countClass'', JStr ''effective''), (''reliability'', JStr ''high''),
     (''coverage'', JArr [JStr ''metadata'']), (''contentState'', JStr ''available''),
     (''sourceObservationIds'', JArr [JStr ''o'']), (''taxonomyVersion'', JStr ''t''), (''projectorVersion'', JStr ''p''),
     (''payload'', JObj [(''appId'', JStr ''a''), (''appName'', JStr ''A''), (''role'', JStr ''button'')])]"

lemma tx_json_accepted: "isSemanticEventV2 (tx_json ''e1'' 10)" "isSemanticEventV2 (tx_json ''e2'' 20)"
  by code_simp+

theorem accepted_event_roundtrip_witness:
  "canonicalJson (semantic_event_json (semantic_event_of (tx_json ''e1'' 10))) = canonicalJson (tx_json ''e1'' 10)"
proof -
  have "distinct_keys (tx_json ''e1'' 10)" by code_simp
  then show ?thesis by (rule accepted_event_roundtrip [OF tx_json_accepted(1)])
qed

theorem accepted_event_has_no_forbidden_field_witness:
  "\<not> has_key (json_field (case tx_json ''e1'' 10 of JObj fs \<Rightarrow> fs | _ \<Rightarrow> []) ''payload'') ''RawKey''"
proof -
  obtain fs where fs: "tx_json ''e1'' 10 = JObj fs" by (simp add: tx_json_def)
  have "''RawKey'' \<in> set (spellings ''raw_key'')" "''raw_key'' \<in> set FORBIDDEN_FIELDS" by code_simp+
  with tx_json_accepted(1) fs show ?thesis
    using accepted_event_has_no_forbidden_field [of fs "''raw_key''" "''RawKey''"] by simp
qed

subsection \<open>The collector\<close>

lemma tx_run_recovered: "timeline_run tx_bytes tx_cfg [] tx_collector tx_recovered"
  unfolding tx_recovered_def by (intro run_recover run_start)

lemma tx_contract: "contract_event (tx_focus name t)"
  by (simp add: contract_event_def tx_focus_def tx_event_def)

lemma tx_run_collecting: "timeline_run tx_bytes tx_cfg [tx_focus ''e1'' 10] tx_collector tx_collecting"
  using run_ingest [OF tx_run_recovered tx_contract [of "''e1''" 10], of 2] unfolding tx_collecting_def by simp

lemma tx_run_sealed: "timeline_run tx_bytes tx_cfg [tx_focus ''e1'' 10, tx_focus ''e2'' 20] tx_collector tx_sealed"
  using run_ingest [OF tx_run_collecting tx_contract [of "''e2''" 20], of 2] unfolding tx_sealed_def by simp

lemma tx_sealed_windows: "map tw_collectorId (jvalues (tr_windows (tc_repository tx_sealed))) = [''c'']"
  by code_simp

theorem sealed_windows_well_formed_witness:
  "tl_window_ok tx_cfg (hd (jvalues (tr_windows (tc_repository tx_sealed))))"
proof -
  obtain w where w: "jvalues (tr_windows (tc_repository tx_sealed)) = [w]" "tw_collectorId w = ''c''"
    using tx_sealed_windows by (auto simp del: map_map)
  have "tw_collectorId w = tcc_collectorId tx_cfg" using w(2) by (simp add: tx_cfg_def)
  from sealed_windows_well_formed [OF tx_collector_new tx_run_sealed _ this] w(1) show ?thesis by simp
qed

lemma tx_collecting_facts:
  "map_option tcs_recentEventIds (tc_snapshot tx_collecting) = Some [''e1'']"
  "map_option tcs_activeGoal (tc_snapshot tx_collecting) = Some None"
  "tr_windows (tc_repository tx_collecting) = []"
  by code_simp+

lemma tx_collecting_snapshot:
  obtains sn where "tc_snapshot tx_collecting = Some sn" "tcs_recentEventIds sn = [''e1'']" "tcs_activeGoal sn = None"
  using tx_collecting_facts(1,2) by (cases "tc_snapshot tx_collecting") auto

theorem ingest_takes_event_witness:
  "\<exists>sealed t X. tc_ingest 2 tx_cfg (tx_focus ''e2'' 20) tx_collecting = (Inr sealed, t) \<and>
     tx_focus ''e2'' 20 \<in> X \<and> taken (tx_focus ''e2'' 20) X sealed t"
proof -
  obtain sn where sn: "tc_snapshot tx_collecting = Some sn" "tcs_recentEventIds sn = [''e1'']" "tcs_activeGoal sn = None"
    by (rule tx_collecting_snapshot)
  have t: "takes tx_cfg sn (tx_focus ''e2'' 20)"
    unfolding takes_def using tx_contract sn(2,3) by (simp add: tx_focus_def tx_event_def)
  have f: "fresh_identity tx_cfg sn (tx_focus ''e2'' 20) (tc_repository tx_collecting)"
    by (simp add: fresh_identity_def tx_collecting_facts(3))
  have "2 \<le> tcc_threshold tx_cfg" by (simp add: tx_cfg_def)
  from ingest_takes_event [OF tx_collector_new tx_run_collecting sn(1) this t f]
  obtain sealed u where r: "tc_ingest 2 tx_cfg (tx_focus ''e2'' 20) tx_collecting = (Inr sealed, u)"
      "taken (tx_focus ''e2'' 20) (open_events sn \<union> evidence_of tx_cfg sn (tx_focus ''e2'' 20)) sealed u" by blast
  have "tx_focus ''e2'' 20 \<in> open_events sn \<union> evidence_of tx_cfg sn (tx_focus ''e2'' 20)"
    by (simp add: evidence_of_def is_effective_def tx_focus_def tx_event_def)
  with r show ?thesis by blast
qed

definition tx_reset :: TimelineCollectorV2 where
  "tx_reset = snd (tc_ingest 2 tx_cfg tx_authorization tx_collecting)"

definition tx_later :: TimelineCollectorV2 where
  "tx_later = snd (tc_ingest 2 tx_cfg (tx_focus ''e3'' 40) (snd (tc_ingest 2 tx_cfg (tx_focus ''e2'' 20) tx_reset)))"

lemma tx_later_run: "timeline_run tx_bytes tx_cfg [tx_focus ''e2'' 20, tx_focus ''e3'' 40] tx_reset tx_later"
proof -
  have "timeline_run tx_bytes tx_cfg ([] @ [tx_focus ''e2'' 20]) tx_reset (snd (tc_ingest 2 tx_cfg (tx_focus ''e2'' 20) tx_reset))"
    by (intro run_ingest run_start tx_contract)
  from run_ingest [OF this tx_contract [of "''e3''" 40], of 2] show ?thesis unfolding tx_later_def by simp
qed

lemma tx_later_windows: "length (tr_windows (tc_repository tx_later)) = 1"
  by code_simp

theorem authorization_boundary_forgets_witness:
  "\<exists>w. w \<in> set (jvalues (tr_windows (tc_repository tx_later))) \<and> tx_focus ''e1'' 10 \<notin> set (tw_events w) \<union> set (tw_contextOnly w)"
proof -
  obtain sn where sn: "tc_snapshot tx_collecting = Some sn" "tcs_recentEventIds sn = [''e1'']" by (rule tx_collecting_snapshot)
  obtain w where w: "w \<in> set (jvalues (tr_windows (tc_repository tx_later)))"
    using tx_later_windows by (cases "tr_windows (tc_repository tx_later)") auto
  have run: "tc_ingest (Suc 1) tx_cfg tx_authorization tx_collecting =
      (fst (tc_ingest 2 tx_cfg tx_authorization tx_collecting), tx_reset)"
    by (simp add: tx_reset_def numeral_2_eq_2)
  have k: "se_kind tx_authorization = AuthorizationChangedV2" "se_eventId tx_authorization \<notin> set (tcs_recentEventIds sn)"
    using sn(2) by (simp_all add: tx_authorization_def tx_event_def)
  have "set (tw_events w) \<union> set (tw_contextOnly w) \<subseteq> set [tx_focus ''e2'' 20, tx_focus ''e3'' 40]"
    using authorization_boundary_forgets [OF tx_collector_new tx_run_collecting sn(1) k run tx_later_run w]
    by (simp add: tx_collecting_facts(3))
  moreover have "tx_focus ''e1'' 10 \<notin> set [tx_focus ''e2'' 20, tx_focus ''e3'' 40]"
    by (simp add: tx_focus_def tx_event_def)
  ultimately show ?thesis using w by blast
qed

subsection \<open>The system\<close>

definition ty_window :: TimelineCollectorV2 where
  "ty_window = snd (tc_ingest 2 tx_cfg (semantic_event_of (tx_json ''e2'' 20))
     (snd (tc_ingest 2 tx_cfg (semantic_event_of (tx_json ''e1'' 10)) tx_recovered)))"

definition ty_processed :: TimelineCollectorV2 where
  "ty_processed = ty_window\<lparr>tc_repository := snd (runNext tx_runner tx_env (tc_repository ty_window))\<rparr>"

definition ty_request :: json where
  "ty_request = JObj [(''schemaVersion'', JStr ''agent-input.query.v1'')]"

lemma ty_system: "timeline_system tx_bytes tx_digest tx_cfg ty_processed"
  unfolding ty_processed_def
proof (rule sys_run)
  show "timeline_system tx_bytes tx_digest tx_cfg ty_window"
    unfolding ty_window_def tx_recovered_def
    by (intro sys_ingest tx_json_accepted sys_recover sys_start [OF tx_collector_new])
qed (simp_all add: tx_processor_def tx_env_def)

theorem timeline_always_delivers_witness:
  "\<exists>inputs r. adapter_query (timeline_service code_unit_compare (\<lambda>_. ''token-01'') tx_bytes False 200) ty_request
     (tc_repository ty_processed) = (Inr (QueryResponse inputs), r) \<and> validLeasedResult inputs"
proof -
  have "hex_digest tx_digest" by (simp add: hex_digest_def tx_digest_def lower_hex_def list_all_iff)
  moreover have "\<forall>i :: nat. isOpaqueText ''token-01''" by (simp add: isOpaqueText_def opaque_char_def)
  moreover have "parseQueryRequest ty_request = Inr (None, None)" by code_simp
  ultimately show ?thesis
    using timeline_always_delivers [OF ty_system, of "\<lambda>_. ''token-01''" ty_request None None 200 code_unit_compare]
    by (auto simp: MAX_SAFE_INTEGER_def)
qed

end
