(* ===== verification/AgentApprovals.thy ===== *)
theory AgentApprovals
  imports CanonicalJson CalendarStorage
begin

text \<open>
  The one-time approvals of the agent's write tools, \<open>src/bun/agent-tool-policy.ts\<close>, and the
  tables that hold them, from \<open>src/bun/encrypted-agent-repository.ts\<close>. The policy is written over
  the operations of its repository, the interface \<open>ToolApprovalRepository\<close>; locale
  \<open>approval_store\<close> states what it relies on, and the encrypted tables are shown to provide it.
  The arguments of a call are the entries of a JSON object whose numbers are whole, so the refusal
  of numbers that are not finite has no counterpart. Parameters: SHA-256 (\<open>sha256\<close>), the
  random part of an approval's id and the clock, read once by each operation. The messages of
  the errors are texts for the user and are left out, error codes are kept.
\<close>

subsection \<open>Tools, permissions and approvals\<close>

definition AUTO_READ_AGENT_TOOLS :: "string list" where
  "AUTO_READ_AGENT_TOOLS = [''calendar.list_events'', ''planning.get_active_plan'', ''planning.get_active_goal'']"

definition APPROVAL_REQUIRED_AGENT_TOOLS :: "string list" where
  "APPROVAL_REQUIRED_AGENT_TOOLS = [''planning.save_draft'', ''calendar.create_event'',
     ''calendar.update_event'', ''calendar.delete_event'', ''calendar.commit_plan_schedule'']"

definition isReadTool :: "string \<Rightarrow> bool" where
  "isReadTool value = (value \<in> set AUTO_READ_AGENT_TOOLS)"

definition isWriteTool :: "string \<Rightarrow> bool" where
  "isWriteTool value = (value \<in> set APPROVAL_REQUIRED_AGENT_TOOLS)"

datatype AgentPermission = CalendarRead | PlanningRead

datatype ApprovalStatus = ApprovalPending | ApprovalApproved | ApprovalDenied | ApprovalLapsed

record PendingToolApproval =
  pa_approvalId :: string
  pa_accountId :: string
  pa_runId :: string
  pa_toolCallId :: string
  pa_toolName :: string
  pa_argumentsDigest :: string
  pa_runRevision :: int
  pa_arguments :: "(string \<times> json) list"
  pa_createdAtMs :: int
  pa_expiresAtMs :: int
  pa_status :: ApprovalStatus

text \<open>The codes of \<open>AgentToolPolicyError\<close>, and the two ways the tables refuse.\<close>

datatype approval_error =
    ToolNotAllowed
  | PermissionRequired
  | ApprovalNotFound
  | ApprovalExpired
  | ApprovalMismatch
  | ApprovalConsumed
  | InvalidArgument
  | RowExists

record 's ToolApprovalRepository =
  ap_hasGrant :: "string \<Rightarrow> AgentPermission \<Rightarrow> ('s, approval_error, bool) comp"
  ap_putApproval :: "PendingToolApproval \<Rightarrow> ('s, approval_error, unit) comp"
  ap_getApproval :: "string \<Rightarrow> string \<Rightarrow> ('s, approval_error, PendingToolApproval option) comp"
  ap_compareAndSetApprovalStatus ::
    "string \<Rightarrow> string \<Rightarrow> ApprovalStatus \<Rightarrow> ApprovalStatus \<Rightarrow> ('s, approval_error, bool) comp"

subsection \<open>Digests\<close>

fun policy_canonicalJson :: "json \<Rightarrow> approval_error + string" where
  "policy_canonicalJson JUndef = Inl ApprovalMismatch"
| "policy_canonicalJson (JArr vs) =
     bindE (sequenceE (map policy_canonicalJson vs)) (\<lambda>ss. Inr (''['' @ js_join '','' ss @ '']''))"
| "policy_canonicalJson (JObj es) =
     bindE (sequenceE (map (\<lambda>e. bindE (policy_canonicalJson (snd e)) (\<lambda>s. Inr (json_quote (fst e) @ '':'' @ s)))
              (js_sort key_compare es)))
       (\<lambda>ss. Inr (''{'' @ js_join '','' ss @ ''}''))"
| "policy_canonicalJson v = Inr (stringify v)"

definition digestArguments :: "(string \<Rightarrow> string) \<Rightarrow> (string \<times> json) list \<Rightarrow> approval_error + string" where
  "digestArguments sha256 args = bindE (policy_canonicalJson (JObj args)) (\<lambda>s. Inr (sha256 s))"

subsection \<open>What a write tool may be asked to do\<close>

definition id_field :: "json \<Rightarrow> approval_error + string" where
  "id_field value = (case value of
     JStr s \<Rightarrow> if 0 < length s \<and> length s \<le> 256 then Inr s else Inl ApprovalMismatch
   | _ \<Rightarrow> Inl ApprovalMismatch)"

definition record_field :: "json \<Rightarrow> approval_error + (string \<times> json) list" where
  "record_field value = (case value of JObj es \<Rightarrow> Inr es | _ \<Rightarrow> Inl ApprovalMismatch)"

definition version_field :: "json \<Rightarrow> approval_error + unit" where
  "version_field value = (case value of
     JNum n \<Rightarrow> ensure (0 \<le> n \<and> n \<le> MAX_SAFE_INTEGER) ApprovalMismatch
   | _ \<Rightarrow> Inl ApprovalMismatch)"

definition assertApprovalArguments :: "string \<Rightarrow> (string \<times> json) list \<Rightarrow> approval_error + unit" where
  "assertApprovalArguments toolName args =
     (if toolName = ''planning.save_draft'' then
        bindE (record_field (json_field args ''draft'')) (\<lambda>draft.
        if json_field args ''expectedVersion'' = JUndef then Inr ()
        else bindE (id_field (json_field draft ''id'')) (\<lambda>_. version_field (json_field args ''expectedVersion'')))
      else if toolName = ''calendar.create_event'' then
        bindE (record_field (json_field args ''event'')) (\<lambda>event.
        bindE (id_field (json_field event ''id'')) (\<lambda>_. Inr ()))
      else if toolName = ''calendar.update_event'' then
        bindE (record_field (json_field args ''event'')) (\<lambda>event.
        bindE (id_field (json_field args ''eventId'')) (\<lambda>eventId.
        bindE (id_field (json_field event ''id'')) (\<lambda>i.
        bindE (ensure (i = eventId) ApprovalMismatch) (\<lambda>_.
        version_field (json_field args ''expectedVersion'')))))
      else if toolName = ''calendar.delete_event'' then
        bindE (id_field (json_field args ''eventId'')) (\<lambda>_. version_field (json_field args ''expectedVersion''))
      else if toolName = ''calendar.commit_plan_schedule'' then
        bindE (id_field (json_field args ''planId'')) (\<lambda>_.
        bindE (version_field (json_field args ''calendarRevision'')) (\<lambda>_.
        case json_field args ''schedule'' of
          JArr items \<Rightarrow> ensure (1 \<le> length items \<and> length items \<le> 500) ApprovalMismatch
        | _ \<Rightarrow> Inl ApprovalMismatch))
      else Inr ())"

definition boundedId :: "string \<Rightarrow> approval_error + string" where
  "boundedId value = (if 1 \<le> length value \<and> length value \<le> 256 then Inr value else Inl ApprovalMismatch)"

subsection \<open>What the user is shown\<close>

datatype ApprovalRisk = RiskWrite | RiskControl

record RendererToolApprovalSummary =
  rs_approvalId :: string
  rs_toolCallId :: string
  rs_title :: string
  rs_description :: string
  rs_risk :: ApprovalRisk
  rs_inputDigest :: string
  rs_requestedAtMs :: int
  rs_expiresAtMs :: int

definition safeOptionalLabel :: "json \<Rightarrow> string option" where
  "safeOptionalLabel value = (case value of
     JStr s \<Rightarrow> if js_trim s = [] then None else Some (take 120 (collapse_spaces (js_trim s)))
   | _ \<Rightarrow> None)"

definition safeLabel :: "json \<Rightarrow> string \<Rightarrow> string" where
  "safeLabel value fallback = (case value of
     JStr s \<Rightarrow> if js_trim s = [] then fallback else take 120 (collapse_spaces (js_trim s))
   | _ \<Rightarrow> fallback)"

definition nestedLabel :: "(string \<times> json) list \<Rightarrow> string \<Rightarrow> string \<Rightarrow> string \<Rightarrow> string \<Rightarrow> string" where
  "nestedLabel args recordKey primaryKey fallbackKey fallback =
     (case json_field args recordKey of
        JObj es \<Rightarrow> safeLabel (json_field es primaryKey) (safeLabel (json_field es fallbackKey) fallback)
      | _ \<Rightarrow> fallback)"

text \<open>\<open>replace("T", " ")\<close> replaces the first occurrence.\<close>

fun first_T_to_space :: "string \<Rightarrow> string" where
  "first_T_to_space [] = []"
| "first_T_to_space (c # cs) = (if c = CHR ''T'' then CHR '' '' # cs else c # first_T_to_space cs)"

definition is_clock_time :: "string \<Rightarrow> bool" where
  "is_clock_time t \<longleftrightarrow> length t = 6 \<and> t ! 0 = CHR '' '' \<and> t ! 3 = CHR '':'' \<and>
     list_all is_decimal [t ! 1, t ! 2, t ! 4, t ! 5]"

definition compactDateTime :: "json \<Rightarrow> string option" where
  "compactDateTime value = (case value of
     JStr s \<Rightarrow>
       let normalized = first_T_to_space (js_trim s);
           date = take 10 normalized; time = take 6 (drop 10 normalized)
       in if is_date_only date then Some (date @ (if is_clock_time time then time else [])) else None
   | _ \<Rightarrow> None)"

definition zone_suffix :: "json \<Rightarrow> string" where
  "zone_suffix timeZone = (case safeOptionalLabel timeZone of None \<Rightarrow> [] | Some z \<Rightarrow> ''<ff08>'' @ z @ ''<ff09>'')"

definition describeEventSchedule :: "json \<Rightarrow> string" where
  "describeEventSchedule value =
     (case value of
        JObj event \<Rightarrow>
          (case json_field event ''schedule'' of
             JObj sched \<Rightarrow>
               if json_field sched ''allDay'' = JBool True
               then (case (compactDateTime (json_field sched ''startDate''),
                           compactDateTime (json_field sched ''endDateExclusive'')) of
                       (Some start, Some stop) \<Rightarrow> ''<ff0c><5168><5929> '' @ start @ '' <81f3> '' @ stop
                     | _ \<Rightarrow> ''<ff0c><5168><5929>'')
               else (case (compactDateTime (json_field sched ''start''), compactDateTime (json_field sched ''end'')) of
                       (Some start, Some stop) \<Rightarrow> ''<ff0c><65f6><95f4> '' @ start @ '' <81f3> '' @ stop @
                         zone_suffix (json_field sched ''timeZone'')
                     | _ \<Rightarrow> [])
           | _ \<Rightarrow> [])
      | _ \<Rightarrow> [])"

definition describeFirstScheduleItem :: "json \<Rightarrow> string" where
  "describeFirstScheduleItem value =
     (case value of
        JArr (JObj item # _) \<Rightarrow>
          (case (compactDateTime (json_field item ''start''), compactDateTime (json_field item ''end'')) of
             (Some start, Some stop) \<Rightarrow> ''<ff1b><9996><9879><65f6><95f4> '' @ start @ '' <81f3> '' @ stop @ zone_suffix (json_field item ''timeZone'')
           | _ \<Rightarrow> [])
      | _ \<Rightarrow> [])"

definition schedule_length :: "json \<Rightarrow> nat" where
  "schedule_length value = (case value of JArr items \<Rightarrow> length items | _ \<Rightarrow> 0)"

text \<open>Title, description and risk; a version shown has passed \<open>assertApprovalArguments\<close>, so it is a number.\<close>

definition presenters :: "string \<Rightarrow> (string \<times> json) list \<Rightarrow> string \<times> string \<times> ApprovalRisk" where
  "presenters toolName args =
     (if toolName = ''planning.save_draft'' then
        let label' = nestedLabel args ''draft'' ''title'' ''id'' ''<672a><547d><540d><8ba1><5212>'' in
        if json_field args ''expectedVersion'' = JUndef
        then (''<65b0><5efa><8ba1><5212><8349><6848>'', ''<65b0><5efa><672c><5730><8349><6848><201c>'' @ label' @ ''<201d><ff1b><8349><6848><6807><8bc6><7531> WhaleHall <751f><6210><3002>'', RiskWrite)
        else (''<66f4><65b0><8ba1><5212><8349><6848>'', ''<66f4><65b0><672c><5730><8349><6848><201c>'' @ label' @ ''<201d><ff08><9884><671f><7248><672c> '' @
                stringify (json_field args ''expectedVersion'') @ ''<ff09><3002>'', RiskWrite)
      else if toolName = ''calendar.create_event'' then
        (''<65b0><5efa><65e5><7a0b>'', ''<5728><65e5><5386><4e2d><65b0><5efa><201c>'' @ nestedLabel args ''event'' ''title'' ''id'' ''<672a><547d><540d><65e5><7a0b>'' @ ''<201d>'' @
           describeEventSchedule (json_field args ''event'') @ ''<3002>'', RiskWrite)
      else if toolName = ''calendar.update_event'' then
        (''<4fee><6539><65e5><7a0b>'', ''<4fee><6539><65e5><7a0b><201c>'' @ nestedLabel args ''event'' ''title'' ''id'' ''<6307><5b9a><65e5><7a0b>'' @ ''<201d>'' @
           describeEventSchedule (json_field args ''event'') @ ''<3002>'', RiskWrite)
      else if toolName = ''calendar.delete_event'' then
        (''<5220><9664><65e5><7a0b>'', ''<5220><9664><65e5><7a0b><201c>'' @ safeLabel (json_field args ''eventId'') ''<6307><5b9a><65e5><7a0b>'' @ ''<201d><3002>'', RiskControl)
      else
        (''<63d0><4ea4><8ba1><5212><65e5><7a0b>'', ''<628a><8ba1><5212><201c>'' @ safeLabel (json_field args ''planId'') ''<5f53><524d><8ba1><5212>'' @ ''<201d><7684> '' @
           show_nat (schedule_length (json_field args ''schedule'')) @ '' <9879><6392><7a0b><5199><5165><6b63><5f0f><65e5><5386>'' @
           describeFirstScheduleItem (json_field args ''schedule'') @ ''<3002>'', RiskControl))"

definition presentApproval :: "PendingToolApproval \<Rightarrow> RendererToolApprovalSummary" where
  "presentApproval approval =
     (let (title, description, risk) = presenters (pa_toolName approval) (pa_arguments approval) in
      \<lparr>rs_approvalId = pa_approvalId approval, rs_toolCallId = pa_toolCallId approval,
       rs_title = title, rs_description = description, rs_risk = risk,
       rs_inputDigest = pa_argumentsDigest approval, rs_requestedAtMs = pa_createdAtMs approval,
       rs_expiresAtMs = pa_expiresAtMs approval\<rparr>)"

subsection \<open>The policy\<close>

definition assertReadAllowed :: "'s ToolApprovalRepository \<Rightarrow> string \<Rightarrow> string \<Rightarrow> ('s, approval_error, string) comp" where
  "assertReadAllowed R account toolName =
     (if \<not> isReadTool toolName then throw ToolNotAllowed
      else andThen (ap_hasGrant R account
                      (if js_startsWith toolName ''calendar.'' then CalendarRead else PlanningRead)) (\<lambda>granted.
        if granted then ret toolName else throw PermissionRequired))"

record WriteProposal =
  pw_accountId :: string
  pw_runId :: string
  pw_toolCallId :: string
  pw_toolName :: string
  pw_arguments :: "(string \<times> json) list"
  pw_runRevision :: int

definition APPROVAL_LIFETIME_MS :: int where
  "APPROVAL_LIFETIME_MS = 10 * 60000"

text \<open>Everything of \<open>proposeWrite\<close> before the approval is stored.\<close>

definition prepare_approval :: "(string \<Rightarrow> string) \<Rightarrow> string \<Rightarrow> int \<Rightarrow> WriteProposal \<Rightarrow> approval_error + PendingToolApproval" where
  "prepare_approval sha256 uuid now input =
     bindE (ensure (isWriteTool (pw_toolName input)) ToolNotAllowed) (\<lambda>_.
     bindE (assertApprovalArguments (pw_toolName input) (pw_arguments input)) (\<lambda>_.
     bindE (boundedId (pw_runId input)) (\<lambda>rid.
     bindE (boundedId (pw_toolCallId input)) (\<lambda>tid.
     bindE (digestArguments sha256 (pw_arguments input)) (\<lambda>digest.
     Inr \<lparr>pa_approvalId = ''approval-'' @ uuid, pa_accountId = pw_accountId input, pa_runId = rid,
       pa_toolCallId = tid, pa_toolName = pw_toolName input, pa_argumentsDigest = digest,
       pa_runRevision = pw_runRevision input, pa_arguments = pw_arguments input,
       pa_createdAtMs = now, pa_expiresAtMs = now + APPROVAL_LIFETIME_MS,
       pa_status = ApprovalPending\<rparr>)))))"

definition proposeWrite ::
  "'s ToolApprovalRepository \<Rightarrow> (string \<Rightarrow> string) \<Rightarrow> string \<Rightarrow> int \<Rightarrow> WriteProposal \<Rightarrow>
   ('s, approval_error, RendererToolApprovalSummary) comp" where
  "proposeWrite R sha256 uuid now input =
     andThen (liftE (prepare_approval sha256 uuid now input)) (\<lambda>approval.
     andThen (ap_putApproval R approval) (\<lambda>_. ret (presentApproval approval)))"

record ApprovalDecision =
  ad_accountId :: string
  ad_approvalId :: string
  ad_runId :: string
  ad_toolCallId :: string
  ad_inputDigest :: string
  ad_runRevision :: int
  ad_approve :: bool

text \<open>The checks of \<open>decide\<close> on a pending approval that has not expired.\<close>

definition check_decision :: "(string \<Rightarrow> string) \<Rightarrow> ApprovalDecision \<Rightarrow> PendingToolApproval \<Rightarrow> approval_error + unit" where
  "check_decision sha256 input approval =
     bindE (ensure (isWriteTool (pa_toolName approval)) ApprovalMismatch) (\<lambda>_.
     bindE (assertApprovalArguments (pa_toolName approval) (pa_arguments approval)) (\<lambda>_.
     bindE (digestArguments sha256 (pa_arguments approval)) (\<lambda>digest.
     bindE (ensure (digest = pa_argumentsDigest approval) ApprovalMismatch) (\<lambda>_.
     ensure (pa_accountId approval = ad_accountId input \<and> pa_runId approval = ad_runId input \<and>
       pa_toolCallId approval = ad_toolCallId input \<and> pa_argumentsDigest approval = ad_inputDigest input \<and>
       pa_runRevision approval = ad_runRevision input) ApprovalMismatch))))"

text \<open>\<open>decide\<close> from the point where the approval has been read.\<close>

definition decide_found ::
  "'s ToolApprovalRepository \<Rightarrow> (string \<Rightarrow> string) \<Rightarrow> int \<Rightarrow> ApprovalDecision \<Rightarrow> PendingToolApproval option \<Rightarrow>
   ('s, approval_error, PendingToolApproval) comp" where
  "decide_found R sha256 now input found =
     (case found of
        None \<Rightarrow> throw ApprovalNotFound
      | Some approval \<Rightarrow>
          if pa_status approval \<noteq> ApprovalPending then throw ApprovalConsumed
          else if pa_expiresAtMs approval \<le> now
          then andThen (ap_compareAndSetApprovalStatus R (ad_accountId input) (ad_approvalId input)
                          ApprovalPending ApprovalLapsed) (\<lambda>_. throw ApprovalExpired)
          else
            andThen (liftE (check_decision sha256 input approval)) (\<lambda>_.
            let status = (if ad_approve input then ApprovalApproved else ApprovalDenied) in
            andThen (ap_compareAndSetApprovalStatus R (ad_accountId input) (ad_approvalId input)
                       ApprovalPending status) (\<lambda>changed.
            if \<not> changed then throw ApprovalConsumed else ret (approval\<lparr>pa_status := status\<rparr>))))"

definition decide ::
  "'s ToolApprovalRepository \<Rightarrow> (string \<Rightarrow> string) \<Rightarrow> int \<Rightarrow> ApprovalDecision \<Rightarrow>
   ('s, approval_error, PendingToolApproval) comp" where
  "decide R sha256 now input =
     andThen (ap_getApproval R (ad_accountId input) (ad_approvalId input)) (decide_found R sha256 now input)"

definition sameApprovalBinding :: "(string \<Rightarrow> string) \<Rightarrow> PendingToolApproval \<Rightarrow> PendingToolApproval \<Rightarrow> bool" where
  "sameApprovalBinding sha256 left right \<longleftrightarrow>
     isWriteTool (pa_toolName left) \<and> isWriteTool (pa_toolName right) \<and>
     assertApprovalArguments (pa_toolName left) (pa_arguments left) = Inr () \<and>
     assertApprovalArguments (pa_toolName right) (pa_arguments right) = Inr () \<and>
     pa_status right = ApprovalApproved \<and> pa_approvalId left = pa_approvalId right \<and>
     pa_accountId left = pa_accountId right \<and> pa_runId left = pa_runId right \<and>
     pa_toolCallId left = pa_toolCallId right \<and> pa_toolName left = pa_toolName right \<and>
     pa_argumentsDigest left = pa_argumentsDigest right \<and>
     digestArguments sha256 (pa_arguments left) = Inr (pa_argumentsDigest left) \<and>
     digestArguments sha256 (pa_arguments right) = Inr (pa_argumentsDigest right) \<and>
     pa_runRevision left = pa_runRevision right \<and> pa_createdAtMs left = pa_createdAtMs right \<and>
     pa_expiresAtMs left = pa_expiresAtMs right"

definition assertApprovedForExecution ::
  "'s ToolApprovalRepository \<Rightarrow> (string \<Rightarrow> string) \<Rightarrow> int \<Rightarrow> PendingToolApproval \<Rightarrow>
   ('s, approval_error, PendingToolApproval) comp" where
  "assertApprovedForExecution R sha256 now approval =
     andThen (ap_getApproval R (pa_accountId approval) (pa_approvalId approval)) (\<lambda>found.
       case found of
         None \<Rightarrow> throw ApprovalConsumed
       | Some persisted \<Rightarrow>
           if pa_status persisted \<noteq> ApprovalApproved then throw ApprovalConsumed
           else if \<not> sameApprovalBinding sha256 persisted approval then throw ApprovalMismatch
           else if pa_expiresAtMs persisted \<le> now
           then andThen (ap_compareAndSetApprovalStatus R (pa_accountId persisted) (pa_approvalId persisted)
                           ApprovalApproved ApprovalLapsed) (\<lambda>changed.
             if \<not> changed then throw ApprovalConsumed else throw ApprovalExpired)
           else ret persisted)"

subsection \<open>The encrypted tables\<close>

text \<open>
  \<open>agent_tool_grants\<close> and \<open>tool_approvals\<close> of the encrypted repository. Rows hold the approval
  itself, its arguments decrypted; the primary key is the account with the approval's id.
\<close>

record ToolApprovalTables =
  tt_grants :: "(string \<times> AgentPermission) list"
  tt_approvals :: "(string \<times> string, PendingToolApproval) jmap"

definition storage_check :: "calendar_error + unit \<Rightarrow> approval_error + unit" where
  "storage_check m = (case m of Inl _ \<Rightarrow> Inl InvalidArgument | Inr u \<Rightarrow> Inr u)"

definition sha256_text :: "string \<Rightarrow> bool" where
  "sha256_text s \<longleftrightarrow> length s = 64 \<and> set s \<subseteq> set ''0123456789abcdef''"

definition validateApproval :: "PendingToolApproval \<Rightarrow> approval_error + unit" where
  "validateApproval approval =
     bindE (storage_check (validateIdentifier (pa_accountId approval))) (\<lambda>_.
     bindE (storage_check (validateIdentifier (pa_approvalId approval))) (\<lambda>_.
     bindE (storage_check (validateIdentifier (pa_runId approval))) (\<lambda>_.
     bindE (storage_check (validateIdentifier (pa_toolCallId approval))) (\<lambda>_.
     bindE (ensure (pa_toolName approval \<in> set APPROVAL_REQUIRED_AGENT_TOOLS) InvalidArgument) (\<lambda>_.
     bindE (ensure (sha256_text (pa_argumentsDigest approval)) InvalidArgument) (\<lambda>_.
     bindE (storage_check (validateRevision (pa_runRevision approval))) (\<lambda>_.
     bindE (storage_check (validateTimestamp (pa_createdAtMs approval))) (\<lambda>_.
     bindE (storage_check (validateTimestamp (pa_expiresAtMs approval))) (\<lambda>_.
     ensure (pa_createdAtMs approval < pa_expiresAtMs approval) InvalidArgument)))))))))"

definition encrypted_hasGrant :: "string \<Rightarrow> AgentPermission \<Rightarrow> (ToolApprovalTables, approval_error, bool) comp" where
  "encrypted_hasGrant account permission =
     andThen (liftE (storage_check (validateIdentifier account))) (\<lambda>_.
     andThen getS (\<lambda>t. ret ((account, permission) \<in> set (tt_grants t))))"

definition encrypted_putApproval :: "PendingToolApproval \<Rightarrow> (ToolApprovalTables, approval_error, unit) comp" where
  "encrypted_putApproval approval =
     andThen (liftE (validateApproval approval)) (\<lambda>_.
     if pa_status approval \<noteq> ApprovalPending then throw InvalidArgument
     else andThen getS (\<lambda>t.
       let key = (pa_accountId approval, pa_approvalId approval) in
       if jget (tt_approvals t) key \<noteq> None then throw RowExists
       else modifyS (\<lambda>t. t\<lparr>tt_approvals := jset key approval (tt_approvals t)\<rparr>)))"

definition encrypted_getApproval :: "string \<Rightarrow> string \<Rightarrow> (ToolApprovalTables, approval_error, PendingToolApproval option) comp" where
  "encrypted_getApproval account aid =
     andThen (liftE (storage_check (validateIdentifier account))) (\<lambda>_.
     andThen (liftE (storage_check (validateIdentifier aid))) (\<lambda>_.
     andThen getS (\<lambda>t. ret (jget (tt_approvals t) (account, aid)))))"

definition encrypted_compareAndSetApprovalStatus ::
  "string \<Rightarrow> string \<Rightarrow> ApprovalStatus \<Rightarrow> ApprovalStatus \<Rightarrow> (ToolApprovalTables, approval_error, bool) comp" where
  "encrypted_compareAndSetApprovalStatus account aid expected status =
     andThen (liftE (storage_check (validateIdentifier account))) (\<lambda>_.
     andThen (liftE (storage_check (validateIdentifier aid))) (\<lambda>_.
     if expected \<noteq> ApprovalPending \<or> status = ApprovalPending then throw InvalidArgument
     else andThen getS (\<lambda>t.
       case jget (tt_approvals t) (account, aid) of
         None \<Rightarrow> ret False
       | Some row \<Rightarrow>
           if pa_status row \<noteq> expected then ret False
           else andThen (modifyS (\<lambda>t. t\<lparr>tt_approvals :=
                  jset (account, aid) (row\<lparr>pa_status := status\<rparr>) (tt_approvals t)\<rparr>)) (\<lambda>_. ret True))))"

definition encrypted_approvals :: "ToolApprovalTables ToolApprovalRepository" where
  "encrypted_approvals =
     \<lparr>ap_hasGrant = encrypted_hasGrant, ap_putApproval = encrypted_putApproval,
      ap_getApproval = encrypted_getApproval,
      ap_compareAndSetApprovalStatus = encrypted_compareAndSetApprovalStatus\<rparr>"
subsection \<open>What the policy relies on\<close>

abbreviation approval_key :: "PendingToolApproval \<Rightarrow> string \<times> string" where
  "approval_key a \<equiv> (pa_accountId a, pa_approvalId a)"

type_synonym approval_rows = "string \<times> string \<Rightarrow> PendingToolApproval option"

text \<open>Rows only come in pending, under an unused key, and only a pending row changes, once, in its status.\<close>

inductive row_change :: "approval_rows \<Rightarrow> approval_rows \<Rightarrow> bool" where
  row_same: "row_change m m"
| row_offered: "m (approval_key a) = None \<Longrightarrow> pa_status a = ApprovalPending \<Longrightarrow> row_change m (m(approval_key a \<mapsto> a))"
| row_settled: "m k = Some row \<Longrightarrow> pa_status row = ApprovalPending \<Longrightarrow> st \<noteq> ApprovalPending \<Longrightarrow>
    row_change m (m(k \<mapsto> row\<lparr>pa_status := st\<rparr>))"

lemma row_change_settled:
  "row_change m m' \<Longrightarrow> m k = Some a \<Longrightarrow> pa_status a \<noteq> ApprovalPending \<Longrightarrow> m' k = Some a"
  by (erule row_change.cases) auto

text \<open>Whatever changes, a row keeps everything but its status.\<close>

lemma row_change_keeps:
  "row_change m m' \<Longrightarrow> m k = Some a \<Longrightarrow> \<exists>st. m' k = Some (a\<lparr>pa_status := st\<rparr>)"
  by (erule row_change.cases) (auto intro: exI [of _ "pa_status a"] simp: eq_commute [of a])

definition row_settles :: "approval_rows \<Rightarrow> approval_rows \<Rightarrow> bool" where
  "row_settles m m' \<longleftrightarrow> row_change m m' \<and> dom m' = dom m"

lemma row_settles_same [simp]: "row_settles m m"
  by (simp add: row_settles_def row_same)

lemma row_settlesI:
  "m k = Some row \<Longrightarrow> pa_status row = ApprovalPending \<Longrightarrow> st \<noteq> ApprovalPending \<Longrightarrow> row_settles m (m(k \<mapsto> row\<lparr>pa_status := st\<rparr>))"
  by (auto simp: row_settles_def intro: row_settled)

locale approval_store =
  fixes R :: "'s ToolApprovalRepository" and rows :: "'s \<Rightarrow> approval_rows"
  assumes get_law: "ap_getApproval R acc aid s = (res, t) \<Longrightarrow>
      t = s \<and> (\<forall>found. res = Inr found \<longrightarrow> found = rows s (acc, aid))"
    and put_law: "ap_putApproval R a s = (put, t) \<Longrightarrow> (\<exists>e. put = Inl e) \<and> rows t = rows s \<or>
      put = Inr () \<and> pa_status a = ApprovalPending \<and> rows s (approval_key a) = None \<and> rows t = (rows s)(approval_key a \<mapsto> a)"
    and cas_law: "ap_compareAndSetApprovalStatus R acc aid x y s = (changed, t) \<Longrightarrow> changed \<noteq> Inr True \<and> rows t = rows s \<or>
      changed = Inr True \<and> x = ApprovalPending \<and> y \<noteq> ApprovalPending \<and>
      (\<exists>row. rows s (acc, aid) = Some row \<and> pa_status row = ApprovalPending \<and>
         rows t = (rows s)((acc, aid) \<mapsto> row\<lparr>pa_status := y\<rparr>))"
    and grant_law: "ap_hasGrant R acc p s = (granted, t) \<Longrightarrow> rows t = rows s"
begin

lemma cas_settles: "ap_compareAndSetApprovalStatus R acc aid x y s = (changed, t) \<Longrightarrow> row_settles (rows s) (rows t)"
  using cas_law row_settles_same row_settlesI by metis

lemma put_row_change: "ap_putApproval R a s = (put, t) \<Longrightarrow> row_change (rows s) (rows t)"
  using put_law row_same row_offered by metis

lemma read_allowed_rows: "assertReadAllowed R acc name s = (res, t) \<Longrightarrow> rows t = rows s"
  by (auto simp: assertReadAllowed_def op_defs split: if_splits prod.splits sum.splits dest: grant_law)

text \<open>A decision that succeeds settles a row that was pending until that moment, within its lifetime.\<close>

lemma decide_found_outcome:
  assumes "decide_found R sha256 now d found s = (res, t)"
  shows "(\<exists>e. res = Inl e) \<and> row_settles (rows s) (rows t) \<or>
    (\<exists>a row st. found = Some a \<and> st = (if ad_approve d then ApprovalApproved else ApprovalDenied) \<and>
       res = Inr (a\<lparr>pa_status := st\<rparr>) \<and> now < pa_expiresAtMs a \<and> check_decision sha256 d a = Inr () \<and>
       rows s (ad_accountId d, ad_approvalId d) = Some row \<and> pa_status row = ApprovalPending \<and>
       rows t = (rows s)((ad_accountId d, ad_approvalId d) \<mapsto> row\<lparr>pa_status := st\<rparr>))"
proof (cases found)
  case None
  then show ?thesis using assms by (auto simp: decide_found_def throw_def)
next
  case (Some a)
  let ?st = "if ad_approve d then ApprovalApproved else ApprovalDenied"
  consider "pa_status a \<noteq> ApprovalPending" | "pa_status a = ApprovalPending" "pa_expiresAtMs a \<le> now"
    | e where "pa_status a = ApprovalPending" "now < pa_expiresAtMs a" "check_decision sha256 d a = Inl e"
    | "pa_status a = ApprovalPending" "now < pa_expiresAtMs a" "check_decision sha256 d a = Inr ()"
    by (cases "check_decision sha256 d a") (force simp: not_le)+
  then show ?thesis
  proof cases
    case 1
    then show ?thesis using assms Some by (auto simp: decide_found_def throw_def)
  next
    case 2
    obtain changed u where "ap_compareAndSetApprovalStatus R (ad_accountId d) (ad_approvalId d) ApprovalPending ApprovalLapsed s = (changed, u)"
      by fastforce
    then show ?thesis
      using assms Some 2 cas_settles by (auto simp: decide_found_def andThen_def throw_def split: sum.splits)
  next
    case 3
    then show ?thesis using assms Some by (auto simp: decide_found_def op_defs liftE_def)
  next
    case 4
    obtain changed u where c: "ap_compareAndSetApprovalStatus R (ad_accountId d) (ad_approvalId d) ApprovalPending ?st s = (changed, u)"
      by fastforce
    then show ?thesis
      using assms Some 4 cas_settles [OF c] cas_law [OF c]
      by (cases changed) (auto simp: decide_found_def op_defs liftE_def Let_def split: if_splits)
  qed
qed

lemma decide_settled:
  assumes "decide R sha256 now d s = (res, t)" and "rows s (ad_accountId d, ad_approvalId d) = Some a"
    and "pa_status a \<noteq> ApprovalPending"
  shows "(\<exists>e. res = Inl e) \<and> rows t = rows s"
proof -
  obtain found u where g: "ap_getApproval R (ad_accountId d) (ad_approvalId d) s = (found, u)" by fastforce
  moreover have "decide_found R sha256 now d (Some a) = throw ApprovalConsumed"
    using assms(3) by (simp add: decide_found_def)
  ultimately show ?thesis
    using assms(1,2) get_law [OF g] by (cases found) (auto simp: decide_def andThen_def throw_def)
qed

text \<open>Revalidating an approval before the write leaves the rows as they are, the expired ones included.\<close>

lemma approved_for_execution:
  assumes "assertApprovedForExecution R sha256 now a s = (res, t)"
  shows "rows t = rows s \<and> (\<forall>p. res = Inr p \<longrightarrow> rows s (approval_key a) = Some p \<and> pa_status p = ApprovalApproved \<and>
    sameApprovalBinding sha256 p a \<and> now < pa_expiresAtMs p)"
proof -
  obtain found u where g: "ap_getApproval R (pa_accountId a) (pa_approvalId a) s = (found, u)" by fastforce
  have cas: "rows v = rows s" if "ap_compareAndSetApprovalStatus R acc aid ApprovalApproved y s = (changed, v)" for acc aid y changed v
    using cas_law [OF that] by auto
  from assms get_law [OF g] g show ?thesis
    by (auto simp: assertApprovedForExecution_def op_defs not_le split: sum.splits option.splits if_splits prod.splits dest: cas)
qed

end

subsection \<open>The encrypted tables provide it\<close>

definition table_rows :: "ToolApprovalTables \<Rightarrow> approval_rows" where
  "table_rows t k = jget (tt_approvals t) k"

interpretation approvals: approval_store encrypted_approvals table_rows
proof
  fix acc aid s res t
  assume "ap_getApproval encrypted_approvals acc aid s = (res, t)"
  then show "t = s \<and> (\<forall>found. res = Inr found \<longrightarrow> found = table_rows s (acc, aid))"
    by (auto simp: encrypted_approvals_def encrypted_getApproval_def op_defs liftE_def table_rows_def split: sum.splits)
next
  fix a s put t
  assume "ap_putApproval encrypted_approvals a s = (put, t)"
  then show "(\<exists>e. put = Inl e) \<and> table_rows t = table_rows s \<or>
      put = Inr () \<and> pa_status a = ApprovalPending \<and> table_rows s (approval_key a) = None \<and>
      table_rows t = (table_rows s)(approval_key a \<mapsto> a)"
    by (cases "validateApproval a"; cases "jget (tt_approvals s) (approval_key a)")
      (auto simp: encrypted_approvals_def encrypted_putApproval_def op_defs liftE_def table_rows_def Let_def
        fun_eq_iff dest: sym [of "Inl e" for e] split: if_splits)
next
  fix acc aid x y s changed t
  assume "ap_compareAndSetApprovalStatus encrypted_approvals acc aid x y s = (changed, t)"
  then show "changed \<noteq> Inr True \<and> table_rows t = table_rows s \<or>
      changed = Inr True \<and> x = ApprovalPending \<and> y \<noteq> ApprovalPending \<and>
      (\<exists>row. table_rows s (acc, aid) = Some row \<and> pa_status row = ApprovalPending \<and>
         table_rows t = (table_rows s)((acc, aid) \<mapsto> row\<lparr>pa_status := y\<rparr>))"
    by (auto simp: encrypted_approvals_def encrypted_compareAndSetApprovalStatus_def op_defs liftE_def table_rows_def
        fun_eq_iff split: sum.splits if_splits option.splits)
next
  fix acc p s granted t
  assume "ap_hasGrant encrypted_approvals acc p s = (granted, t)"
  then show "table_rows t = table_rows s"
    by (auto simp: encrypted_approvals_def encrypted_hasGrant_def op_defs liftE_def split: sum.splits)
qed
subsection \<open>Digests and canonical JSON\<close>

lemma sequenceE_map_eq_Inr: "sequenceE (map f xs) = Inr ys \<longleftrightarrow> list_all2 (\<lambda>x y. f x = Inr y) xs ys"
  by (induction xs arbitrary: ys) (auto simp: bindE_eq_Inr_iff list_all2_Cons1)

lemma list_all2_set1: "list_all2 P xs ys \<Longrightarrow> (\<And>x y. P x y \<Longrightarrow> Q x) \<Longrightarrow> \<forall>x \<in> set xs. Q x"
  by (induction rule: list_all2_induct) auto

lemma list_all2_map_eq: "list_all2 (\<lambda>x y. f x = Inr y) xs ys \<Longrightarrow> (\<And>x y. x \<in> set xs \<Longrightarrow> f x = Inr y \<Longrightarrow> y = g x) \<Longrightarrow> ys = map g xs"
  by (induction rule: list_all2_induct) auto

text \<open>
  Where the policy's own serialisation succeeds it is the canonical JSON of the reflection pipeline,
  unless a key is one that rebuilding an object moves or drops.
\<close>

lemma policy_canonicalJson_eq: "policy_canonicalJson v = Inr s \<Longrightarrow> plain_keys v \<Longrightarrow> s = canonicalJson v"
proof (induction v arbitrary: s rule: policy_canonicalJson.induct)
  case (2 vs)
  then obtain ss where ss: "list_all2 (\<lambda>v s. policy_canonicalJson v = Inr s) vs ss" "s = ''['' @ js_join '','' ss @ '']''"
    by (auto simp: bindE_eq_Inr_iff sequenceE_map_eq_Inr)
  have "ss = map canonicalJson vs" by (rule list_all2_map_eq [OF ss(1)]) (use "2.IH" "2.prems"(2) in auto)
  moreover have "JUndef \<notin> set vs" using ss(1) by (auto simp: list_all2_conv_all_nth in_set_conv_nth)
  then have "map (\<lambda>v. if v = JUndef then ''null'' else stringify (toCanonicalValue v)) vs = map canonicalJson vs"
    by (auto simp: canonicalJson_def)
  ultimately show ?case using ss(2) by (simp add: canonicalJson_def [of "JArr vs"] comp_def del: map_eq_conv)
next
  case (3 es)
  let ?es = "js_sort key_compare es"
  let ?f = "\<lambda>e. bindE (policy_canonicalJson (snd e)) (\<lambda>s. Inr (json_quote (fst e) @ '':'' @ s))"
  from "3.prems"(1) obtain ss where ss: "list_all2 (\<lambda>e s. ?f e = Inr s) ?es ss" "s = ''{'' @ js_join '','' ss @ ''}''"
    by (auto simp: bindE_eq_Inr_iff sequenceE_map_eq_Inr)
  have "ss = map (\<lambda>e. json_quote (fst e) @ '':'' @ canonicalJson (snd e)) ?es"
    by (rule list_all2_map_eq [OF ss(1)]) (use "3.IH" "3.prems"(2) in \<open>auto simp: bindE_eq_Inr_iff\<close>)
  moreover have "\<forall>e \<in> set ?es. snd e \<noteq> JUndef"
    by (rule list_all2_set1 [OF ss(1)]) (auto simp: bindE_eq_Inr_iff)
  then have "filter (\<lambda>e. snd e \<noteq> JUndef) ?es = ?es" by (simp add: filter_id_conv)
  moreover have "object_entries ?es = ?es" by (rule object_entries_plain) (use "3.prems"(2) in simp)
  ultimately show ?case using ss(2)
    by (simp add: canonicalJson_def filter_map comp_def)
qed (simp_all add: canonicalJson_def)

text \<open>C34: the digest an approval binds does not depend on the order in which the arguments are listed,
  and if no key, at any depth, is an array index or \<open>__proto__\<close>, which the two serialisations treat
  differently, it is the digest of the canonical JSON that the rest of the program hashes.\<close>

theorem digest_is_of_canonical_arguments:
  assumes "digestArguments sha256 args = Inr digest" and "mset args' = mset args" and "distinct (map fst args)"
  shows "digestArguments sha256 args' = Inr digest \<and>
    (digest = sha256 (canonicalJson (JObj args)) \<or> \<not> plain_keys (JObj args))"
proof -
  have "js_sort key_compare args' = js_sort key_compare args" by (rule sym, rule js_sort_keys_perm) (use assms in auto)
  then have "policy_canonicalJson (JObj args') = policy_canonicalJson (JObj args)" by simp
  with assms(1) show ?thesis
    by (auto simp: digestArguments_def bindE_eq_Inr_iff simp del: policy_canonicalJson.simps plain_keys.simps
        dest: policy_canonicalJson_eq)
qed

subsection \<open>An approval that expires before its write\<close>

text \<open>C33: an approved write whose approval has expired when it is to be executed is not executed,
  but the expiry is not recorded: the tables refuse any change of an approved row, so the caller
  gets the tables' error in place of the policy's, and the approval stays approved.\<close>

theorem expired_approval_stays_approved:
  assumes "table_rows t (approval_key a) = Some p" and "pa_status p = ApprovalApproved"
    and "sameApprovalBinding sha256 p a" and "pa_expiresAtMs p \<le> now"
    and "validateIdentifier (pa_accountId a) = Inr ()" and "validateIdentifier (pa_approvalId a) = Inr ()"
  shows "assertApprovedForExecution encrypted_approvals sha256 now a t = (Inl InvalidArgument, t)"
proof -
  have "pa_accountId p = pa_accountId a" "pa_approvalId p = pa_approvalId a"
    using assms(3) by (simp_all add: sameApprovalBinding_def)
  with assms show ?thesis
    by (simp add: assertApprovedForExecution_def encrypted_approvals_def encrypted_getApproval_def
        encrypted_compareAndSetApprovalStatus_def op_defs liftE_def storage_check_def table_rows_def)
qed

end
