(* ===== verification/AgentToolCalls.thy ===== *)
theory AgentToolCalls
  imports AgentApprovals
begin

text \<open>
  The part of \<open>src/bun/agent-run-coordinator.ts\<close> through which the agent's tools run: proposing a
  write, deciding on it, calling a tool and resolving an approval after a restart, with the
  session and run guards they go through. Each is cut where the source waits for the repository,
  the renderer's events or the user: its segments are computations on the coordinator, and what a
  suspended call remembers is a value. Two awaits only hand a result on and are not cut: the one
  between settling the row of a decision and the check of the run that follows, and the one
  between revalidating an approval and starting its tool. Of a run only what these operations read is kept; lists shown in the renderer, events
  and the persisted snapshots are left out. A call of the tool executor is an entry of the log
  \<open>co_executed\<close>, together with the approval it ran under.
\<close>

subsection \<open>Sessions and runs\<close>

record AuthSessionIdentity =
  si_accountId :: string
  si_sessionId :: string
  si_generation :: int

datatype AgentRunStatus =
    RunStarting | RunRunning | RunSuspended | RunCancelling
  | RunCompletedStatus | RunCancelled | RunInterrupted | RunFailed

datatype AgentRunKind = ConversationTurn | TaskPlanning | ActivityAnalysis

datatype CriticalOperation = ApprovalDecisionOperation | RecoveredApprovalResolution | ToolExecutionOperation

text \<open>A run object, \<open>ar_ref\<close> being its identity: a reactivated run is another object.\<close>

record ActiveRun =
  ar_ref :: nat
  ar_session :: AuthSessionIdentity
  ar_kind :: AgentRunKind
  ar_status :: AgentRunStatus
  ar_revision :: int
  ar_recoveredFromPersistence :: bool
  ar_criticalOperation :: "CriticalOperation option"

record ToolExecution =
  ex_accountId :: string
  ex_runId :: string
  ex_toolCallId :: string
  ex_name :: string
  ex_arguments :: "(string \<times> json) list"
  ex_atMs :: int
  ex_approval :: "PendingToolApproval option"

record AgentCoordinator =
  co_tables :: ToolApprovalTables
  co_session :: "AuthSessionIdentity option"
  co_active :: "(string, ActiveRun) jmap"
  co_approvedToolCalls :: "(string, PendingToolApproval) jmap"
  co_executed :: "ToolExecution list"

datatype coordinator_error =
    PolicyRefused approval_error
  | NotSignedIn
  | HostAccountChanged
  | AgentSessionChanged
  | NoActiveToolRun
  | RunNotFound
  | RunKindMismatch
  | RunRevisionConflict
  | InvalidParameter
  | ToolNotInAllowlist
  | NotAWriteTool
  | CriticalOperationBusy
  | OneTimeBindingMismatch

type_synonym 'a co_op = "(AgentCoordinator, coordinator_error, 'a) comp"

definition on_tables :: "(ToolApprovalTables, approval_error, 'a) comp \<Rightarrow> 'a co_op" where
  "on_tables m s =
     (case m (co_tables s) of
        (Inl e, t) \<Rightarrow> (Inl (PolicyRefused e), s\<lparr>co_tables := t\<rparr>)
      | (Inr x, t) \<Rightarrow> (Inr x, s\<lparr>co_tables := t\<rparr>))"

definition policy_check :: "approval_error + 'a \<Rightarrow> 'a co_op" where
  "policy_check m s = (case m of Inl e \<Rightarrow> (Inl (PolicyRefused e), s) | Inr x \<Rightarrow> (Inr x, s))"

definition guard :: "bool \<Rightarrow> coordinator_error \<Rightarrow> unit co_op" where
  "guard b e = (if b then ret () else throw e)"

definition run_terminal :: "AgentRunStatus \<Rightarrow> bool" where
  "run_terminal status \<longleftrightarrow> status \<in> {RunCompletedStatus, RunCancelled, RunInterrupted, RunFailed}"

definition toolKey :: "string \<Rightarrow> string \<Rightarrow> string" where
  "toolKey rid tid = rid @ '':'' @ tid"

definition set_run :: "string \<Rightarrow> ActiveRun \<Rightarrow> AgentCoordinator \<Rightarrow> AgentCoordinator" where
  "set_run rid run s = s\<lparr>co_active := jset rid run (co_active s)\<rparr>"

definition requireSession :: "AuthSessionIdentity co_op" where
  "requireSession s = (case co_session s of None \<Rightarrow> (Inl NotSignedIn, s) | Some identity \<Rightarrow> (Inr identity, s))"

definition assertCurrentAccount :: "string \<Rightarrow> unit co_op" where
  "assertCurrentAccount account =
     andThen requireSession (\<lambda>identity. guard (si_accountId identity = account) HostAccountChanged)"

text \<open>The run object is still the active one of its id, and its session is still the current one.\<close>

definition assertRunSession :: "string \<Rightarrow> nat \<Rightarrow> ActiveRun co_op" where
  "assertRunSession rid ref s =
     (case jget (co_active s) rid of
        None \<Rightarrow> (Inl AgentSessionChanged, s)
      | Some run \<Rightarrow>
          if ar_ref run = ref \<and> co_session s = Some (ar_session run) then (Inr run, s)
          else (Inl AgentSessionChanged, s))"

definition requiredId :: "json \<Rightarrow> string co_op" where
  "requiredId value = (case value of
     JStr t \<Rightarrow> if 1 \<le> length t \<and> length t \<le> 256 then ret t else throw InvalidParameter
   | _ \<Rightarrow> throw InvalidParameter)"

definition requiredRecord :: "json \<Rightarrow> (string \<times> json) list co_op" where
  "requiredRecord value = (case value of JObj es \<Rightarrow> ret es | _ \<Rightarrow> throw InvalidParameter)"

definition requiredToolName :: "json \<Rightarrow> string co_op" where
  "requiredToolName value = (case value of
     JStr t \<Rightarrow> if isReadTool t \<or> isWriteTool t then ret t else throw ToolNotInAllowlist
   | _ \<Rightarrow> throw ToolNotInAllowlist)"

definition requireActiveToolRun :: "(string \<times> json) list \<Rightarrow> string \<Rightarrow> (string \<times> ActiveRun) co_op" where
  "requireActiveToolRun params account =
     andThen (requiredId (json_field params ''runId'')) (\<lambda>rid.
     andThen getS (\<lambda>s.
       case jget (co_active s) rid of
         None \<Rightarrow> throw NoActiveToolRun
       | Some run \<Rightarrow>
           if si_accountId (ar_session run) \<noteq> account \<or> ar_kind run \<noteq> ConversationTurn \<or> run_terminal (ar_status run)
           then throw NoActiveToolRun
           else andThen (assertRunSession rid (ar_ref run)) (\<lambda>run. ret (rid, run))))"

definition beginCriticalOperation :: "string \<Rightarrow> ActiveRun \<Rightarrow> CriticalOperation \<Rightarrow> unit co_op" where
  "beginCriticalOperation rid run operation =
     (if ar_criticalOperation run \<noteq> None then throw CriticalOperationBusy
      else modifyS (set_run rid (run\<lparr>ar_criticalOperation := Some operation\<rparr>)))"

definition endCriticalOperation :: "string \<Rightarrow> nat \<Rightarrow> AgentCoordinator \<Rightarrow> AgentCoordinator" where
  "endCriticalOperation rid ref s =
     (case jget (co_active s) rid of
        None \<Rightarrow> s
      | Some run \<Rightarrow> if ar_ref run = ref then set_run rid (run\<lparr>ar_criticalOperation := None\<rparr>) s else s)"

text \<open>\<open>finally\<close> on a thrown error.\<close>

definition on_error :: "(AgentCoordinator \<Rightarrow> AgentCoordinator) \<Rightarrow> 'a co_op \<Rightarrow> 'a co_op" where
  "on_error f m s = (case m s of (Inl e, t) \<Rightarrow> (Inl e, f t) | (Inr x, t) \<Rightarrow> (Inr x, t))"

subsection \<open>Proposing a write\<close>

record ProposalFrame =
  pf_runId :: string
  pf_ref :: nat
  pf_approval :: PendingToolApproval

definition propose_start ::
  "(string \<Rightarrow> string) \<Rightarrow> string \<Rightarrow> int \<Rightarrow> string \<Rightarrow> (string \<times> json) list \<Rightarrow> ProposalFrame co_op" where
  "propose_start sha256 uuid now account params =
     andThen (assertCurrentAccount account) (\<lambda>_.
     andThen (requireActiveToolRun params account) (\<lambda>(rid, run).
     andThen (requiredToolName (json_field params ''name'')) (\<lambda>name.
     andThen (guard (isWriteTool name) NotAWriteTool) (\<lambda>_.
     andThen (modifyS (set_run rid (run\<lparr>ar_revision := ar_revision run + 1\<rparr>))) (\<lambda>_.
     andThen (requiredRecord (json_field params ''arguments'')) (\<lambda>args.
     andThen (requiredId (json_field params ''toolCallId'')) (\<lambda>tid.
     andThen (policy_check (prepare_approval sha256 uuid now
        \<lparr>pw_accountId = account, pw_runId = rid, pw_toolCallId = tid, pw_toolName = name, pw_arguments = args,
         pw_runRevision = ar_revision run + 1\<rparr>)) (\<lambda>approval.
     ret \<lparr>pf_runId = rid, pf_ref = ar_ref run, pf_approval = approval\<rparr>))))))))"

definition propose_finish :: "ProposalFrame \<Rightarrow> RendererToolApprovalSummary co_op" where
  "propose_finish frame =
     andThen (on_tables (ap_putApproval encrypted_approvals (pf_approval frame))) (\<lambda>_.
     andThen (assertRunSession (pf_runId frame) (pf_ref frame)) (\<lambda>_.
     ret (presentApproval (pf_approval frame))))"

subsection \<open>Deciding\<close>

record DecisionRequest =
  dr_runId :: string
  dr_approvalId :: string
  dr_toolCallId :: string
  dr_inputDigest :: string
  dr_expectedRevision :: int
  dr_approve :: bool

record DecisionFrame =
  df_ref :: nat
  df_decision :: ApprovalDecision
  df_found :: "PendingToolApproval option"

text \<open>\<open>requireMutableRun\<close> for a run in memory; reactivating a persisted one is a step of its own before it.\<close>

definition requireMutableRun :: "string \<Rightarrow> int \<Rightarrow> ActiveRun co_op" where
  "requireMutableRun rid expected =
     andThen requireSession (\<lambda>identity.
     andThen getS (\<lambda>s.
       case jget (co_active s) rid of
         None \<Rightarrow> throw RunNotFound
       | Some run \<Rightarrow>
           if ar_session run \<noteq> identity then throw RunNotFound
           else if ar_kind run \<noteq> ConversationTurn then throw RunKindMismatch
           else if ar_revision run \<noteq> expected then throw RunRevisionConflict
           else ret run))"

definition decide_start :: "DecisionRequest \<Rightarrow> DecisionFrame co_op" where
  "decide_start input =
     andThen (requireMutableRun (dr_runId input) (dr_expectedRevision input)) (\<lambda>run.
     andThen (beginCriticalOperation (dr_runId input) run ApprovalDecisionOperation) (\<lambda>_.
     let account = si_accountId (ar_session run) in
     andThen (on_error (endCriticalOperation (dr_runId input) (ar_ref run))
                (on_tables (ap_getApproval encrypted_approvals account (dr_approvalId input)))) (\<lambda>found.
     ret \<lparr>df_ref = ar_ref run,
          df_decision = \<lparr>ad_accountId = account, ad_approvalId = dr_approvalId input, ad_runId = dr_runId input,
            ad_toolCallId = dr_toolCallId input, ad_inputDigest = dr_inputDigest input,
            ad_runRevision = dr_expectedRevision input, ad_approve = dr_approve input\<rparr>,
          df_found = found\<rparr>)))"

text \<open>A run that was recovered goes on to resolve the approval itself, any other hands it to the next call.\<close>

definition decide_commit :: "(string \<Rightarrow> string) \<Rightarrow> int \<Rightarrow> DecisionFrame \<Rightarrow> (PendingToolApproval \<times> bool) co_op" where
  "decide_commit sha256 now frame =
     (let decision = df_decision frame; rid = ad_runId decision in
      on_error (endCriticalOperation rid (df_ref frame))
        (andThen (on_tables (decide_found encrypted_approvals sha256 now decision (df_found frame))) (\<lambda>approval.
         andThen (assertRunSession rid (df_ref frame)) (\<lambda>run.
         let recovered = ar_recoveredFromPersistence run;
             run' = run\<lparr>ar_revision := ar_revision run + 1, ar_status := RunRunning,
               ar_criticalOperation := (if recovered then Some RecoveredApprovalResolution else None)\<rparr>
         in andThen (modifyS (set_run rid run')) (\<lambda>_.
            andThen (if ad_approve decision \<and> \<not> recovered
                     then modifyS (\<lambda>s. s\<lparr>co_approvedToolCalls :=
                       jset (toolKey rid (ad_toolCallId decision)) approval (co_approvedToolCalls s)\<rparr>)
                     else ret ()) (\<lambda>_.
            ret (approval, recovered)))))))"

subsection \<open>Calling a tool\<close>

record CallFrame =
  cf_accountId :: string
  cf_runId :: string
  cf_ref :: nat
  cf_toolCallId :: string
  cf_name :: string
  cf_arguments :: "(string \<times> json) list"
  cf_approval :: "PendingToolApproval option"

text \<open>
  The approval of a write leaves the map before it is looked at, so it is taken at most once
  whatever the comparison says.
\<close>

definition take_approval ::
  "(string \<Rightarrow> string) \<Rightarrow> (string \<times> json) list \<Rightarrow> string \<Rightarrow> string \<Rightarrow> string \<Rightarrow> (string \<times> json) list \<Rightarrow> PendingToolApproval co_op" where
  "take_approval sha256 params rid tid name args =
     andThen getS (\<lambda>s.
     andThen (modifyS (\<lambda>s. s\<lparr>co_approvedToolCalls := jdelete (toolKey rid tid) (co_approvedToolCalls s)\<rparr>)) (\<lambda>_.
       case jget (co_approvedToolCalls s) (toolKey rid tid) of
         None \<Rightarrow> throw OneTimeBindingMismatch
       | Some approved \<Rightarrow>
           andThen (guard (json_field params ''approvalId'' = JStr (pa_approvalId approved) \<and>
                           pa_toolName approved = name \<and>
                           json_field params ''inputDigest'' = JStr (pa_argumentsDigest approved)) OneTimeBindingMismatch) (\<lambda>_.
           andThen (policy_check (digestArguments sha256 args)) (\<lambda>digest.
           andThen (guard (pa_argumentsDigest approved = digest \<and>
                           json_field params ''runVersion'' = JNum (pa_runRevision approved)) OneTimeBindingMismatch) (\<lambda>_.
           ret approved)))))"

definition call_start :: "(string \<Rightarrow> string) \<Rightarrow> string \<Rightarrow> (string \<times> json) list \<Rightarrow> CallFrame co_op" where
  "call_start sha256 account params =
     andThen (assertCurrentAccount account) (\<lambda>_.
     andThen (requireActiveToolRun params account) (\<lambda>(rid, run).
     andThen (requiredToolName (json_field params ''name'')) (\<lambda>name.
     andThen (requiredId (json_field params ''toolCallId'')) (\<lambda>tid.
     andThen (requiredRecord (json_field params ''arguments'')) (\<lambda>args.
     andThen (if isReadTool name
              then andThen (on_tables (assertReadAllowed encrypted_approvals account name)) (\<lambda>_. ret None)
              else andThen (take_approval sha256 params rid tid name args) (\<lambda>a. ret (Some a))) (\<lambda>approval.
     ret \<lparr>cf_accountId = account, cf_runId = rid, cf_ref = ar_ref run, cf_toolCallId = tid, cf_name = name,
          cf_arguments = args, cf_approval = approval\<rparr>))))))"

definition execute_tool :: "ToolExecution \<Rightarrow> unit co_op" where
  "execute_tool e = modifyS (\<lambda>s. s\<lparr>co_executed := co_executed s @ [e]\<rparr>)"

text \<open>
  A run that has ended meanwhile is refused first; the code revalidates the approval before it
  refuses, which changes nothing. Releasing the critical operation when the tool has returned is
  \<open>endCriticalOperation\<close>, a step of its own.
\<close>

definition call_execute :: "(string \<Rightarrow> string) \<Rightarrow> int \<Rightarrow> CallFrame \<Rightarrow> unit co_op" where
  "call_execute sha256 now frame =
     andThen (assertRunSession (cf_runId frame) (cf_ref frame)) (\<lambda>run.
     andThen (beginCriticalOperation (cf_runId frame) run ToolExecutionOperation) (\<lambda>_.
     on_error (endCriticalOperation (cf_runId frame) (cf_ref frame))
       (andThen (case cf_approval frame of None \<Rightarrow> ret ()
                 | Some approval \<Rightarrow>
                     andThen (on_tables (assertApprovedForExecution encrypted_approvals sha256 now approval)) (\<lambda>_. ret ())) (\<lambda>_.
        andThen (assertRunSession (cf_runId frame) (cf_ref frame)) (\<lambda>_.
        execute_tool \<lparr>ex_accountId = cf_accountId frame, ex_runId = cf_runId frame, ex_toolCallId = cf_toolCallId frame,
          ex_name = cf_name frame, ex_arguments = cf_arguments frame, ex_atMs = now, ex_approval = cf_approval frame\<rparr>)))))"

subsection \<open>Resolving an approval after a restart\<close>

record ResolutionFrame =
  rf_runId :: string
  rf_ref :: nat
  rf_approval :: PendingToolApproval
  rf_approve :: bool

definition resolveRecoveredApproval :: "(string \<Rightarrow> string) \<Rightarrow> int \<Rightarrow> ResolutionFrame \<Rightarrow> unit co_op" where
  "resolveRecoveredApproval sha256 now frame =
     (let approval = rf_approval frame in
      if \<not> rf_approve frame then ret ()
      else
        andThen (on_tables (assertApprovedForExecution encrypted_approvals sha256 now approval)) (\<lambda>_.
        andThen (assertRunSession (rf_runId frame) (rf_ref frame)) (\<lambda>run.
        execute_tool \<lparr>ex_accountId = si_accountId (ar_session run), ex_runId = rf_runId frame,
          ex_toolCallId = pa_toolCallId approval, ex_name = pa_toolName approval,
          ex_arguments = pa_arguments approval, ex_atMs = now, ex_approval = Some approval\<rparr>)))"

subsection \<open>The end of a run\<close>

definition finishRun :: "string \<Rightarrow> AgentCoordinator \<Rightarrow> AgentCoordinator" where
  "finishRun rid s =
     s\<lparr>co_active := jdelete rid (co_active s),
       co_approvedToolCalls := filter (\<lambda>(k, _). \<not> js_startsWith k (rid @ '':'')) (co_approvedToolCalls s)\<rparr>"

end
