(* ===== verification/AgentToolSystem.thy ===== *)
theory AgentToolSystem
  imports AgentToolCalls
begin

text \<open>
  The agent's tools as a system: what the model's side process, the renderer and the user's
  session can make the coordinator do, in every interleaving of the segments of
  \<open>AgentToolCalls\<close>. The parameters of a call come from the model and are arbitrary, and so are the
  clock, the decisions, the permissions granted and the progress of a run. Run ids are random
  UUIDs: they hold no colon, and an id belongs to one account (\<open>owner\<close>).
\<close>

subsection \<open>Steps\<close>

datatype tool_frame =
    Proposing ProposalFrame
  | Deciding DecisionFrame
  | Calling CallFrame
  | Resolving ResolutionFrame

record AgentSystem =
  sy_co :: AgentCoordinator
  sy_frames :: "tool_frame list"
  sy_decisions :: "ApprovalDecision list"
  sy_nextRef :: nat

definition empty_agent_system :: AgentSystem where
  "empty_agent_system =
     \<lparr>sy_co = \<lparr>co_tables = \<lparr>tt_grants = [], tt_approvals = []\<rparr>, co_session = None, co_active = [],
        co_approvedToolCalls = [], co_executed = []\<rparr>,
      sy_frames = [], sy_decisions = [], sy_nextRef = 0\<rparr>"

text \<open>A finished segment leaves the coordinator changed; the frame it returns waits to go on.\<close>

definition suspend :: "('a \<Rightarrow> tool_frame list) \<Rightarrow> coordinator_error + 'a \<Rightarrow> AgentCoordinator \<Rightarrow> AgentSystem \<Rightarrow> AgentSystem" where
  "suspend f res co s = s\<lparr>sy_co := co, sy_frames := sy_frames s @ (case res of Inl _ \<Rightarrow> [] | Inr x \<Rightarrow> f x)\<rparr>"

definition resume :: "tool_frame \<Rightarrow> AgentCoordinator \<Rightarrow> AgentSystem \<Rightarrow> AgentSystem" where
  "resume f co s = s\<lparr>sy_co := co, sy_frames := remove1 f (sy_frames s)\<rparr>"

definition resolution_frames :: "DecisionFrame \<Rightarrow> PendingToolApproval \<times> bool \<Rightarrow> tool_frame list" where
  "resolution_frames frame = (\<lambda>(approval, recovered). if recovered
     then [Resolving \<lparr>rf_runId = ad_runId (df_decision frame), rf_ref = df_ref frame, rf_approval = approval,
             rf_approve = ad_approve (df_decision frame)\<rparr>]
     else [])"

definition note_decision :: "DecisionFrame \<Rightarrow> coordinator_error + 'a \<Rightarrow> AgentSystem \<Rightarrow> AgentSystem" where
  "note_decision frame res s =
     (case res of Inl _ \<Rightarrow> s | Inr _ \<Rightarrow> s\<lparr>sy_decisions := df_decision frame # sy_decisions s\<rparr>)"

inductive agent_step :: "(string \<Rightarrow> string) \<Rightarrow> (string \<Rightarrow> string) \<Rightarrow> AgentSystem \<Rightarrow> AgentSystem \<Rightarrow> bool"
  for sha256 owner where
  session_changes: "agent_step sha256 owner s (s\<lparr>sy_co := (sy_co s)\<lparr>co_session := session\<rparr>\<rparr>)"
| grants_change: "agent_step sha256 owner s
    (s\<lparr>sy_co := (sy_co s)\<lparr>co_tables := (co_tables (sy_co s))\<lparr>tt_grants := grants\<rparr>\<rparr>\<rparr>)"
| run_activated: "co_session (sy_co s) = Some identity \<Longrightarrow> owner rid = si_accountId identity \<Longrightarrow> CHR '':'' \<notin> set rid \<Longrightarrow>
    ar_ref run = sy_nextRef s \<Longrightarrow> ar_session run = identity \<Longrightarrow>
    agent_step sha256 owner s (s\<lparr>sy_co := set_run rid run (sy_co s), sy_nextRef := Suc (sy_nextRef s)\<rparr>)"
| run_progresses: "jget (co_active (sy_co s)) rid = Some run \<Longrightarrow> ar_ref run' = ar_ref run \<Longrightarrow>
    ar_session run' = ar_session run \<Longrightarrow> agent_step sha256 owner s (s\<lparr>sy_co := set_run rid run' (sy_co s)\<rparr>)"
| run_finished: "agent_step sha256 owner s (s\<lparr>sy_co := finishRun rid (sy_co s)\<rparr>)"
| write_proposed: "propose_start sha256 uuid now account params (sy_co s) = (res, co) \<Longrightarrow>
    agent_step sha256 owner s (suspend (\<lambda>f. [Proposing f]) res co s)"
| proposal_stored: "Proposing frame \<in> set (sy_frames s) \<Longrightarrow> propose_finish frame (sy_co s) = (summary, co) \<Longrightarrow>
    agent_step sha256 owner s (resume (Proposing frame) co s)"
| decision_received: "decide_start input (sy_co s) = (res, co) \<Longrightarrow>
    agent_step sha256 owner s (suspend (\<lambda>f. [Deciding f]) res co s)"
| decision_made: "Deciding frame \<in> set (sy_frames s) \<Longrightarrow> decide_commit sha256 now frame (sy_co s) = (res, co) \<Longrightarrow>
    agent_step sha256 owner s
      (note_decision frame res (suspend (resolution_frames frame) res co (resume (Deciding frame) co s)))"
| tool_called: "call_start sha256 account params (sy_co s) = (res, co) \<Longrightarrow>
    agent_step sha256 owner s (suspend (\<lambda>f. [Calling f]) res co s)"
| call_executed: "Calling frame \<in> set (sy_frames s) \<Longrightarrow> call_execute sha256 now frame (sy_co s) = (res, co) \<Longrightarrow>
    agent_step sha256 owner s (resume (Calling frame) co s)"
| call_ended: "agent_step sha256 owner s (s\<lparr>sy_co := endCriticalOperation rid ref (sy_co s)\<rparr>)"
| recovered_resolved: "Resolving frame \<in> set (sy_frames s) \<Longrightarrow>
    resolveRecoveredApproval sha256 now frame (sy_co s) = (res, co) \<Longrightarrow>
    agent_step sha256 owner s (resume (Resolving frame) co s)"
| program_restarted: "agent_step sha256 owner s (s\<lparr>sy_co := (sy_co s)\<lparr>co_session := None, co_active := [],
    co_approvedToolCalls := []\<rparr>, sy_frames := []\<rparr>)"

abbreviation agent_steps :: "(string \<Rightarrow> string) \<Rightarrow> (string \<Rightarrow> string) \<Rightarrow> AgentSystem \<Rightarrow> AgentSystem \<Rightarrow> bool" where
  "agent_steps sha256 owner \<equiv> (agent_step sha256 owner)\<^sup>*\<^sup>*"

subsection \<open>The invariant\<close>

abbreviation system_rows :: "AgentCoordinator \<Rightarrow> approval_rows" where
  "system_rows co \<equiv> table_rows (co_tables co)"

text \<open>An approval as it was proposed.\<close>

definition proposed_approval :: "(string \<Rightarrow> string) \<Rightarrow> (string \<Rightarrow> string) \<Rightarrow> PendingToolApproval \<Rightarrow> bool" where
  "proposed_approval sha256 owner a \<longleftrightarrow>
     pa_accountId a = owner (pa_runId a) \<and> CHR '':'' \<notin> set (pa_runId a) \<and> isWriteTool (pa_toolName a) \<and>
     digestArguments sha256 (pa_arguments a) = Inr (pa_argumentsDigest a) \<and>
     pa_expiresAtMs a = pa_createdAtMs a + APPROVAL_LIFETIME_MS"

definition rows_ok :: "(string \<Rightarrow> string) \<Rightarrow> (string \<Rightarrow> string) \<Rightarrow> approval_rows \<Rightarrow> bool" where
  "rows_ok sha256 owner m \<longleftrightarrow> (\<forall>k a. m k = Some a \<longrightarrow> k = approval_key a \<and> proposed_approval sha256 owner a)"

definition runs_ok :: "(string \<Rightarrow> string) \<Rightarrow> AgentCoordinator \<Rightarrow> bool" where
  "runs_ok owner co \<longleftrightarrow> (\<forall>rid run. jget (co_active co) rid = Some run \<longrightarrow>
     si_accountId (ar_session run) = owner rid \<and> CHR '':'' \<notin> set rid)"

text \<open>An approval in somebody's hands: approved in the table, by a decision that names it.\<close>

definition decision_names :: "ApprovalDecision \<Rightarrow> PendingToolApproval \<Rightarrow> bool" where
  "decision_names d a \<longleftrightarrow> ad_approve d \<and> ad_accountId d = pa_accountId a \<and> ad_approvalId d = pa_approvalId a \<and>
     ad_runId d = pa_runId a \<and> ad_toolCallId d = pa_toolCallId a \<and> ad_inputDigest d = pa_argumentsDigest a \<and>
     ad_runRevision d = pa_runRevision a"

definition approved_row :: "approval_rows \<Rightarrow> ApprovalDecision list \<Rightarrow> PendingToolApproval \<Rightarrow> bool" where
  "approved_row m ds a \<longleftrightarrow> m (approval_key a) = Some a \<and> pa_status a = ApprovalApproved \<and> (\<exists>d \<in> set ds. decision_names d a)"

text \<open>The approvals that stand for the right to one write: waiting for their call, in a suspended call, or used.\<close>

fun frame_approvals :: "tool_frame \<Rightarrow> PendingToolApproval multiset" where
  "frame_approvals (Calling f) = (case cf_approval f of None \<Rightarrow> {#} | Some a \<Rightarrow> {#a#})"
| "frame_approvals (Resolving f) = (if rf_approve f then {#rf_approval f#} else {#})"
| "frame_approvals _ = {#}"

definition executed_approvals :: "ToolExecution list \<Rightarrow> PendingToolApproval multiset" where
  "executed_approvals es = mset (List.map_filter ex_approval es)"

definition held_approvals :: "AgentSystem \<Rightarrow> PendingToolApproval multiset" where
  "held_approvals s = mset (jvalues (co_approvedToolCalls (sy_co s))) +
     \<Sum>\<^sub># (mset (map frame_approvals (sy_frames s))) + executed_approvals (co_executed (sy_co s))"

definition rights_ok :: "AgentSystem \<Rightarrow> bool" where
  "rights_ok s \<longleftrightarrow> (\<forall>a. count (held_approvals s) a \<le> 1) \<and>
     (\<forall>a \<in># held_approvals s. approved_row (system_rows (sy_co s)) (sy_decisions s) a)"

definition keys_ok :: "AgentCoordinator \<Rightarrow> bool" where
  "keys_ok co \<longleftrightarrow> distinct (jkeys (co_approvedToolCalls co)) \<and>
     (\<forall>k a. jget (co_approvedToolCalls co) k = Some a \<longrightarrow> k = toolKey (pa_runId a) (pa_toolCallId a))"

text \<open>What a suspended operation remembers still holds.\<close>

fun frame_ok :: "(string \<Rightarrow> string) \<Rightarrow> (string \<Rightarrow> string) \<Rightarrow> approval_rows \<Rightarrow> tool_frame \<Rightarrow> bool" where
  "frame_ok sha256 owner m (Proposing f) = (proposed_approval sha256 owner (pf_approval f) \<and> pa_status (pf_approval f) = ApprovalPending)"
| "frame_ok sha256 owner m (Deciding f) =
     (let d = df_decision f in ad_accountId d = owner (ad_runId d) \<and>
        (case df_found f of None \<Rightarrow> True
         | Some a \<Rightarrow> \<exists>st. m (ad_accountId d, ad_approvalId d) = Some (a\<lparr>pa_status := st\<rparr>)))"
| "frame_ok sha256 owner m (Calling f) =
     (case cf_approval f of None \<Rightarrow> isReadTool (cf_name f)
      | Some a \<Rightarrow> cf_accountId f = pa_accountId a \<and> cf_runId f = pa_runId a \<and> cf_toolCallId f = pa_toolCallId a \<and>
          cf_name f = pa_toolName a \<and> digestArguments sha256 (cf_arguments f) = Inr (pa_argumentsDigest a))"
| "frame_ok sha256 owner m (Resolving f) = (rf_runId f = pa_runId (rf_approval f))"

definition executions_ok :: "(string \<Rightarrow> string) \<Rightarrow> ToolExecution list \<Rightarrow> bool" where
  "executions_ok sha256 es \<longleftrightarrow> (\<forall>e \<in> set es.
     case ex_approval e of None \<Rightarrow> isReadTool (ex_name e)
     | Some a \<Rightarrow> ex_accountId e = pa_accountId a \<and> ex_runId e = pa_runId a \<and> ex_toolCallId e = pa_toolCallId a \<and>
         ex_name e = pa_toolName a \<and> digestArguments sha256 (ex_arguments e) = Inr (pa_argumentsDigest a) \<and>
         ex_atMs e < pa_expiresAtMs a)"

definition agent_inv :: "(string \<Rightarrow> string) \<Rightarrow> (string \<Rightarrow> string) \<Rightarrow> AgentSystem \<Rightarrow> bool" where
  "agent_inv sha256 owner s \<longleftrightarrow>
     rows_ok sha256 owner (system_rows (sy_co s)) \<and> runs_ok owner (sy_co s) \<and> keys_ok (sy_co s) \<and>
     rights_ok s \<and> list_all (frame_ok sha256 owner (system_rows (sy_co s))) (sy_frames s) \<and>
     executions_ok sha256 (co_executed (sy_co s))"
subsection \<open>What the segments change\<close>

text \<open>Guards and parameter checks read only; bookkeeping on a run keeps its session.\<close>

definition keeps_session :: "AgentCoordinator \<Rightarrow> AgentCoordinator \<Rightarrow> bool" where
  "keeps_session co t \<longleftrightarrow> (\<forall>rid. map_option ar_session (jget (co_active t) rid) = map_option ar_session (jget (co_active co) rid))"

definition quiet :: "AgentCoordinator \<Rightarrow> AgentCoordinator \<Rightarrow> bool" where
  "quiet co t \<longleftrightarrow> co_tables t = co_tables co \<and> co_approvedToolCalls t = co_approvedToolCalls co \<and>
     co_executed t = co_executed co \<and> keeps_session co t"

lemma quiet_same [simp]: "quiet co co"
  by (simp add: quiet_def keeps_session_def)

lemma quiet_trans: "quiet a b \<Longrightarrow> quiet b c \<Longrightarrow> quiet a c"
  by (simp add: quiet_def keeps_session_def)

lemma quiet_set_run: "jget (co_active co) rid = Some run \<Longrightarrow> ar_session run' = ar_session run \<Longrightarrow> quiet co (set_run rid run' co)"
  by (simp add: quiet_def keeps_session_def set_run_def)

lemma quiet_endCriticalOperation: "quiet co (endCriticalOperation rid ref co)"
  by (auto simp: endCriticalOperation_def split: option.split intro: quiet_set_run)

lemma keeps_session_runs_ok: "keeps_session co t \<Longrightarrow> runs_ok owner co \<Longrightarrow> runs_ok owner t"
proof -
  assume k: "keeps_session co t" and r: "runs_ok owner co"
  have "\<exists>run. jget (co_active co) rid = Some run \<and> ar_session run = ar_session run'"
    if "jget (co_active t) rid = Some run'" for rid run'
    using k that by (cases "jget (co_active co) rid") (auto simp: keeps_session_def dest: spec [of _ rid])
  with r show ?thesis by (metis runs_ok_def)
qed

named_theorems co_defs \<open>the coordinator's helpers\<close>

declare on_tables_def [co_defs] policy_check_def [co_defs] guard_def [co_defs] requireSession_def [co_defs]
  assertCurrentAccount_def [co_defs] assertRunSession_def [co_defs] requiredId_def [co_defs]
  requiredRecord_def [co_defs] requiredToolName_def [co_defs] beginCriticalOperation_def [co_defs] on_error_def [co_defs]

lemma assertCurrentAccount_reads: "assertCurrentAccount account co = (res, t) \<Longrightarrow> t = co"
  by (auto simp: co_defs op_defs split: option.splits if_splits)

lemma requiredId_reads: "requiredId v co = (res, t) \<Longrightarrow> t = co"
  by (auto simp: co_defs op_defs split: json.splits if_splits)

lemma requiredRecord_reads: "requiredRecord v co = (res, t) \<Longrightarrow> t = co"
  by (auto simp: co_defs op_defs split: json.splits if_splits)

lemma requiredToolName_reads:
  "requiredToolName v co = (res, t) \<Longrightarrow> t = co \<and> (\<forall>name. res = Inr name \<longrightarrow> isReadTool name \<or> isWriteTool name)"
  by (auto simp: co_defs op_defs split: json.splits if_splits)

lemma requireActiveToolRun_reads:
  "requireActiveToolRun params account co = (res, t) \<Longrightarrow> t = co \<and>
     (\<forall>rid run. res = Inr (rid, run) \<longrightarrow> jget (co_active co) rid = Some run \<and> si_accountId (ar_session run) = account)"
  by (auto simp: requireActiveToolRun_def co_defs op_defs split: option.splits if_splits sum.splits prod.splits json.splits)

lemma requireMutableRun_reads:
  "requireMutableRun rid revision' co = (res, t) \<Longrightarrow> t = co \<and> (\<forall>run. res = Inr run \<longrightarrow> jget (co_active co) rid = Some run)"
  by (auto simp: requireMutableRun_def co_defs op_defs split: option.splits if_splits sum.splits)

lemma assertRunSession_reads:
  "assertRunSession rid ref co = (res, t) \<Longrightarrow> t = co \<and> (\<forall>run. res = Inr run \<longrightarrow> jget (co_active co) rid = Some run)"
  by (auto simp: co_defs split: option.splits if_splits)

lemma andThen_elim:
  assumes "andThen m f s = (res, u)"
  obtains e where "m s = (Inl e, u)" "res = Inl e" | x t where "m s = (Inr x, t)" "f x t = (res, u)"
  using assms by (auto simp: andThen_def split: prod.splits sum.splits)

lemma on_error_elim:
  assumes "on_error f m s = (res, u)"
  obtains e t where "m s = (Inl e, t)" "res = Inl e" "u = f t" | x where "m s = (Inr x, u)" "res = Inr x"
  using assms by (auto simp: on_error_def split: prod.splits sum.splits)

lemma on_tables_elim:
  assumes "on_tables m s = (res, u)"
  obtains e t where "m (co_tables s) = (Inl e, t)" "res = Inl (PolicyRefused e)" "u = s\<lparr>co_tables := t\<rparr>"
    | x t where "m (co_tables s) = (Inr x, t)" "res = Inr x" "u = s\<lparr>co_tables := t\<rparr>"
  using assms by (auto simp: on_tables_def split: prod.splits sum.splits)

text \<open>An approval that is prepared is bound to the digest of its arguments.\<close>

lemma prepare_approval_pending: "prepare_approval sha256 uuid now input = Inr a \<Longrightarrow> pa_status a = ApprovalPending"
  by (auto simp: prepare_approval_def bindE_eq_Inr_iff)

lemma prepare_approval_ok:
  assumes "prepare_approval sha256 uuid now input = Inr a"
    and "pw_accountId input = owner (pw_runId input)" and "CHR '':'' \<notin> set (pw_runId input)"
  shows "proposed_approval sha256 owner a"
  using assms by (auto simp: prepare_approval_def bindE_eq_Inr_iff boundedId_def proposed_approval_def split: if_splits)

lemmas coordinator_reads = assertCurrentAccount_reads requireActiveToolRun_reads requireMutableRun_reads
  requiredToolName_reads requiredRecord_reads requiredId_reads assertRunSession_reads

lemma propose_start_effect:
  assumes "propose_start sha256 uuid now account params co = (res, t)" and "runs_ok owner co"
  shows "quiet co t \<and> (\<forall>f. res = Inr f \<longrightarrow> frame_ok sha256 owner m (Proposing f))"
  using assms unfolding propose_start_def
  by (auto elim!: andThen_elim dest!: coordinator_reads
      simp: policy_check_def guard_def modifyS_def ret_def throw_def runs_ok_def
      intro!: quiet_set_run prepare_approval_ok prepare_approval_pending split: prod.splits sum.splits if_splits)

lemma propose_finish_effect:
  assumes "propose_finish f co = (res, t)"
  shows "\<exists>tables put. ap_putApproval encrypted_approvals (pf_approval f) (co_tables co) = (put, tables) \<and> quiet (co\<lparr>co_tables := tables\<rparr>) t"
  using assms unfolding propose_finish_def
  by (auto elim!: andThen_elim on_tables_elim dest!: coordinator_reads simp: ret_def)

lemma frame_ok_decidingI:
  assumes "ad_accountId (df_decision f) = owner (ad_runId (df_decision f))"
    and "df_found f = m (ad_accountId (df_decision f), ad_approvalId (df_decision f))"
  shows "frame_ok sha256 owner m (Deciding f)"
proof -
  have "\<exists>st. Some a = Some (a\<lparr>pa_status := st\<rparr>)" for a :: PendingToolApproval
    by (rule exI [of _ "pa_status a"]) simp
  with assms show ?thesis by (auto simp: Let_def split: option.split)
qed

lemma on_tables_get:
  assumes "on_tables (ap_getApproval encrypted_approvals acc aid) co = (r, v)"
  shows "v = co \<and> (\<forall>found. r = Inr found \<longrightarrow> found = system_rows co (acc, aid))"
  using assms
proof (cases rule: on_tables_elim)
  case (1 e t)
  then show ?thesis using approvals.get_law [OF 1(1)] by simp
next
  case (2 x t)
  then show ?thesis using approvals.get_law [OF 2(1)] by simp
qed

lemma decide_start_effect:
  assumes "decide_start input co = (res, t)" and "runs_ok owner co"
  shows "quiet co t \<and> (\<forall>f. res = Inr f \<longrightarrow> frame_ok sha256 owner (system_rows co) (Deciding f))"
  using assms(1) unfolding decide_start_def
proof (cases rule: andThen_elim)
  case (1 e)
  then show ?thesis by (auto dest: requireMutableRun_reads)
next
  case (2 run u)
  let ?co = "set_run (dr_runId input) (run\<lparr>ar_criticalOperation := Some ApprovalDecisionOperation\<rparr>) co"
  have run: "u = co" "jget (co_active co) (dr_runId input) = Some run" using 2(1) by (auto dest: requireMutableRun_reads)
  then have owner: "si_accountId (ar_session run) = owner (dr_runId input)" using assms(2) by (simp add: runs_ok_def)
  have co: "quiet co ?co" using run(2) by (rule quiet_set_run) simp
  then have q: "quiet co (endCriticalOperation (dr_runId input) (ar_ref run) ?co)" "system_rows ?co = system_rows co"
    using quiet_trans quiet_endCriticalOperation by (auto simp: quiet_def)
  let ?get = "on_tables (ap_getApproval encrypted_approvals (si_accountId (ar_session run)) (dr_approvalId input))"
  have get: "v = ?co \<and> (\<forall>found. r = Inr found \<longrightarrow> found = system_rows co (si_accountId (ar_session run), dr_approvalId input))"
    if "?get ?co = (r, v)" for r v
    using on_tables_get [OF that] q(2) by simp
  from 2(2) show ?thesis unfolding run(1)
  proof (cases rule: andThen_elim)
    case (1 e)
    then have "t = co" by (auto simp: beginCriticalOperation_def throw_def modifyS_def split: if_splits)
    then show ?thesis using 1(2) by simp
  next
    case (2 x v)
    then have v: "v = ?co" by (auto simp: beginCriticalOperation_def throw_def modifyS_def split: if_splits)
    from 2(2) show ?thesis unfolding Let_def v
    proof (cases rule: andThen_elim)
      case (1 e)
      then have "t = endCriticalOperation (dr_runId input) (ar_ref run) ?co" by (auto elim!: on_error_elim dest!: get)
      then show ?thesis using 1(2) q(1) by simp
    next
      case (2 found w)
      then have "w = ?co \<and> found = system_rows co (si_accountId (ar_session run), dr_approvalId input)"
        by (auto elim!: on_error_elim dest!: get)
      with 2(2) owner co show ?thesis
        by (auto simp: ret_def simp del: frame_ok.simps intro!: frame_ok_decidingI)
    qed
  qed
qed
lemma rows_okD: "rows_ok sha256 owner m \<Longrightarrow> m k = Some a \<Longrightarrow> k = approval_key a \<and> proposed_approval sha256 owner a"
  unfolding rows_ok_def by blast

lemma decide_commit_effect:
  assumes commit: "decide_commit sha256 now f co = (res, t)" and rows: "rows_ok sha256 owner (system_rows co)"
    and frame: "frame_ok sha256 owner (system_rows co) (Deciding f)"
  shows "co_executed t = co_executed co \<and> keeps_session co t \<and>
    ((\<exists>e. res = Inl e) \<and> row_settles (system_rows co) (system_rows t) \<and> co_approvedToolCalls t = co_approvedToolCalls co \<or>
     (\<exists>a recovered. res = Inr (a, recovered) \<and> pa_status a = (if ad_approve (df_decision f) then ApprovalApproved else ApprovalDenied) \<and>
        system_rows co (approval_key a) = Some (a\<lparr>pa_status := ApprovalPending\<rparr>) \<and>
        system_rows t = (system_rows co)(approval_key a \<mapsto> a) \<and>
        pa_runId a = ad_runId (df_decision f) \<and> (ad_approve (df_decision f) \<longrightarrow> decision_names (df_decision f) a) \<and>
        co_approvedToolCalls t = (if ad_approve (df_decision f) \<and> \<not> recovered
          then jset (toolKey (pa_runId a) (pa_toolCallId a)) a (co_approvedToolCalls co) else co_approvedToolCalls co)))"
proof -
  let ?d = "df_decision f"
  let ?key = "(ad_accountId ?d, ad_approvalId ?d)"
  let ?found = "on_tables (decide_found encrypted_approvals sha256 now ?d (df_found f))"
  have quiet_end: "co_executed (endCriticalOperation rid ref u) = co_executed u \<and> keeps_session u (endCriticalOperation rid ref u) \<and>
      co_tables (endCriticalOperation rid ref u) = co_tables u \<and>
      co_approvedToolCalls (endCriticalOperation rid ref u) = co_approvedToolCalls u" for rid ref u
    using quiet_endCriticalOperation [of u rid ref] by (simp add: quiet_def)
  have refused: ?thesis if "?found co = (Inl e, u)" for e u
  proof -
    from that obtain e' tb where "decide_found encrypted_approvals sha256 now ?d (df_found f) (co_tables co) = (Inl e', tb)"
        "u = co\<lparr>co_tables := tb\<rparr>" by (auto elim: on_tables_elim)
    moreover have "res = Inl e" "t = endCriticalOperation (ad_runId ?d) (df_ref f) u"
      using commit that by (auto simp: decide_commit_def Let_def on_error_def andThen_def)
    ultimately show ?thesis
      using approvals.decide_found_outcome quiet_end [of _ _ u] by (fastforce simp: keeps_session_def)
  qed
  have decided: ?thesis if "?found co = (Inr b, u)" for b u
  proof -
    let ?st = "if ad_approve ?d then ApprovalApproved else ApprovalDenied"
    from that obtain tb where tb: "decide_found encrypted_approvals sha256 now ?d (df_found f) (co_tables co) = (Inr b, tb)"
      and u: "u = co\<lparr>co_tables := tb\<rparr>" by (auto elim: on_tables_elim)
    from approvals.decide_found_outcome [OF tb] obtain a row where
      a: "df_found f = Some a" "b = a\<lparr>pa_status := ?st\<rparr>" "check_decision sha256 ?d a = Inr ()"
      and row: "system_rows co ?key = Some row" "pa_status row = ApprovalPending"
        "table_rows tb = (system_rows co)(?key \<mapsto> row\<lparr>pa_status := ?st\<rparr>)" by auto
    obtain st where "row = a\<lparr>pa_status := st\<rparr>" using frame a(1) row(1) by (auto simp: Let_def)
    with row(2) have ab: "row = b\<lparr>pa_status := ApprovalPending\<rparr>" "row\<lparr>pa_status := ?st\<rparr> = b" using a(2) by auto
    have key: "?key = approval_key b" using rows_okD [OF rows row(1)] ab(1) by simp
    have names: "pa_runId b = ad_runId ?d" "pa_toolCallId b = ad_toolCallId ?d" "ad_approve ?d \<longrightarrow> decision_names ?d b"
      using a(2,3) key by (auto simp: check_decision_def bindE_eq_Inr_iff decision_names_def)
    have change: "row_settles (system_rows co) (table_rows tb)" unfolding row(3) by (rule row_settlesI) (use row in auto)
    show ?thesis
    proof (cases "assertRunSession (ad_runId ?d) (df_ref f) u")
      case (Pair r v)
      then have v: "v = u" "\<And>run. r = Inr run \<Longrightarrow> jget (co_active u) (ad_runId ?d) = Some run"
        using assertRunSession_reads by blast+
      show ?thesis
      proof (cases r)
        case (Inl e)
        then have "res = Inl e" "t = endCriticalOperation (ad_runId ?d) (df_ref f) u"
          using commit that Pair v(1) by (auto simp: decide_commit_def Let_def on_error_def andThen_def)
        then show ?thesis using change quiet_end [of "ad_runId ?d" "df_ref f" u] u by (auto simp: keeps_session_def)
      next
        case (Inr run)
        let ?recovered = "ar_recoveredFromPersistence run"
        let ?run = "run\<lparr>ar_revision := ar_revision run + 1, ar_status := RunRunning,
          ar_criticalOperation := (if ?recovered then Some RecoveredApprovalResolution else None)\<rparr>"
        let ?approved = "if ad_approve ?d \<and> \<not> ?recovered
          then jset (toolKey (pa_runId b) (pa_toolCallId b)) b (co_approvedToolCalls co) else co_approvedToolCalls co"
        have "(res, t) = (Inr (b, ?recovered), (set_run (ad_runId ?d) ?run u)\<lparr>co_approvedToolCalls := ?approved\<rparr>)"
          using commit that Pair v(1) Inr u names(1,2)
          by (cases ?recovered; cases "ad_approve ?d") (auto simp: decide_commit_def Let_def on_error_def andThen_def modifyS_def ret_def set_run_def)
        then have res: "res = Inr (b, ?recovered)" and t: "t = (set_run (ad_runId ?d) ?run u)\<lparr>co_approvedToolCalls := ?approved\<rparr>"
          by simp_all
        have "keeps_session co t" using v(2) [OF Inr] u unfolding t by (simp add: keeps_session_def set_run_def)
        moreover have "co_executed t = co_executed co" "co_approvedToolCalls t = ?approved" "system_rows t = table_rows tb"
          using u unfolding t by (simp_all add: set_run_def)
        moreover have "system_rows co (approval_key b) = Some (b\<lparr>pa_status := ApprovalPending\<rparr>)"
          "table_rows tb = (system_rows co)(approval_key b \<mapsto> b)" "pa_status b = ?st"
          using row ab key a(2) by simp_all
        ultimately show ?thesis
          by (intro conjI disjI2 exI [of _ b] exI [of _ ?recovered]) (use res names(1,3) in simp_all)
      qed
    qed
  qed
  show ?thesis by (cases "?found co"; cases "fst (?found co)") (use refused decided in auto)
qed

lemma decide_commit_settles:
  assumes "decide_commit sha256 now f co = (res, t)" and "rows_ok sha256 owner (system_rows co)"
    and "frame_ok sha256 owner (system_rows co) (Deciding f)"
  shows "row_settles (system_rows co) (system_rows t)"
  using decide_commit_effect [OF assms, THEN conjunct2, THEN conjunct2]
proof (elim disjE exE conjE)
  fix a recovered
  assume row: "system_rows co (approval_key a) = Some (a\<lparr>pa_status := ApprovalPending\<rparr>)"
    "system_rows t = (system_rows co)(approval_key a \<mapsto> a)"
    and st: "pa_status a = (if ad_approve (df_decision f) then ApprovalApproved else ApprovalDenied)"
  have "row_settles (system_rows co) ((system_rows co)(approval_key a \<mapsto> a\<lparr>pa_status := ApprovalPending, pa_status := pa_status a\<rparr>))"
    by (rule row_settlesI) (use row(1) st in simp_all)
  then show ?thesis by (simp add: row(2))
qed

lemma toolKey_inject:
  assumes "CHR '':'' \<notin> set r" and "CHR '':'' \<notin> set r'" and "toolKey r t = toolKey r' t'"
  shows "r = r' \<and> t = t'"
proof -
  have "takeWhile (\<lambda>c. c \<noteq> CHR '':'') (toolKey r t) = r" if "CHR '':'' \<notin> set r" for r t
    using that by (induction r) (auto simp: toolKey_def)
  then have "r = r'" using assms by metis
  with assms(3) show ?thesis by (simp add: toolKey_def)
qed

text \<open>A call takes the approval waiting under its key, or none if it reads.\<close>

lemma take_approval_effect:
  assumes "take_approval sha256 params rid tid name args co = (res, t)"
  shows "t = co\<lparr>co_approvedToolCalls := jdelete (toolKey rid tid) (co_approvedToolCalls co)\<rparr> \<and>
    (\<forall>a. res = Inr a \<longrightarrow> jget (co_approvedToolCalls co) (toolKey rid tid) = Some a \<and> pa_toolName a = name \<and>
       digestArguments sha256 args = Inr (pa_argumentsDigest a))"
  using assms unfolding take_approval_def
  by (auto simp: op_defs guard_def policy_check_def split: option.splits if_splits sum.splits)

lemma call_start_effect:
  assumes call: "call_start sha256 account params co = (res, t)" and runs: "runs_ok owner co" and keys: "keys_ok co"
    and held: "\<forall>k a. jget (co_approvedToolCalls co) k = Some a \<longrightarrow> proposed_approval sha256 owner a"
  shows "co_executed t = co_executed co \<and> keeps_session co t \<and> system_rows t = system_rows co \<and>
    (co_approvedToolCalls t = co_approvedToolCalls co \<and> (\<forall>f. res = Inr f \<longrightarrow> cf_approval f = None) \<or>
     (\<exists>k. co_approvedToolCalls t = jdelete k (co_approvedToolCalls co) \<and>
        (\<forall>f. res = Inr f \<longrightarrow> cf_approval f = jget (co_approvedToolCalls co) k))) \<and>
    (\<forall>f. res = Inr f \<longrightarrow> frame_ok sha256 owner m (Calling f))"
proof -
  have read: "co_executed u = co_executed co \<and> keeps_session co u \<and> system_rows u = system_rows co \<and>
      co_approvedToolCalls u = co_approvedToolCalls co"
    if "on_tables (assertReadAllowed encrypted_approvals account name) co = (r, u)" for name r u
    using that by (auto elim!: on_tables_elim dest: approvals.read_allowed_rows simp: keeps_session_def)
  have bound: "account = pa_accountId a \<and> rid = pa_runId a \<and> tid = pa_toolCallId a"
    if "jget (co_active co) rid = Some run" "si_accountId (ar_session run) = account"
      "jget (co_approvedToolCalls co) (toolKey rid tid) = Some a" for rid run tid a
    using that runs keys held toolKey_inject [of rid "pa_runId a" tid "pa_toolCallId a"]
    by (auto simp: runs_ok_def keys_ok_def proposed_approval_def)
  define rest where "rest rid (run :: ActiveRun) name tid args =
      andThen (if isReadTool name
               then andThen (on_tables (assertReadAllowed encrypted_approvals account name)) (\<lambda>_. ret None)
               else andThen (take_approval sha256 params rid tid name args) (\<lambda>a. ret (Some a))) (\<lambda>approval.
      ret \<lparr>cf_accountId = account, cf_runId = rid, cf_ref = ar_ref run, cf_toolCallId = tid, cf_name = name,
           cf_arguments = args, cf_approval = approval\<rparr>)" for rid run name tid args
  have "andThen (assertCurrentAccount account) (\<lambda>_. andThen (requireActiveToolRun params account) (\<lambda>(rid, run).
      andThen (requiredToolName (json_field params ''name'')) (\<lambda>name.
      andThen (requiredId (json_field params ''toolCallId'')) (\<lambda>tid.
      andThen (requiredRecord (json_field params ''arguments'')) (\<lambda>args. rest rid run name tid args))))) co = (res, t)"
    using call by (simp add: call_start_def rest_def)
  then consider e where "res = Inl e" "t = co"
    | rid run name tid args where "jget (co_active co) rid = Some run" "si_accountId (ar_session run) = account"
      "isReadTool name \<or> isWriteTool name" "rest rid run name tid args co = (res, t)"
    by (fastforce elim!: andThen_elim dest!: coordinator_reads)
  then show ?thesis
  proof cases
    case 1
    then show ?thesis by (simp add: keeps_session_def)
  next
    case (2 rid run name tid args)
    note run = bound [OF 2(1,2)]
    show ?thesis
    proof (cases "isReadTool name")
      case True
      then show ?thesis
        using 2(4) unfolding rest_def by (auto elim!: andThen_elim dest!: read simp: ret_def)
    next
      case False
      obtain r u where tk: "take_approval sha256 params rid tid name args co = (r, u)" by fastforce
      note eff = take_approval_effect [OF tk]
      have k: "keeps_session co u" "co_executed u = co_executed co" "system_rows u = system_rows co"
        "co_approvedToolCalls u = jdelete (toolKey rid tid) (co_approvedToolCalls co)"
        using eff by (simp_all add: keeps_session_def)
      show ?thesis
      proof (cases r)
        case (Inl e)
        then have "res = Inl e" "t = u" using 2(4) False tk by (simp_all add: rest_def andThen_def)
        then show ?thesis using k by auto
      next
        case (Inr a)
        then have t: "t = u" "res = Inr \<lparr>cf_accountId = account, cf_runId = rid, cf_ref = ar_ref run, cf_toolCallId = tid,
            cf_name = name, cf_arguments = args, cf_approval = Some a\<rparr>"
          using 2(4) False tk by (simp_all add: rest_def andThen_def ret_def)
        show ?thesis using k eff Inr run [of tid a] unfolding t by auto
      qed
    qed
  qed
qed
definition still :: "AgentCoordinator \<Rightarrow> AgentCoordinator \<Rightarrow> bool" where
  "still co t \<longleftrightarrow> system_rows t = system_rows co \<and> co_approvedToolCalls t = co_approvedToolCalls co \<and> keeps_session co t"

lemma still_trans: "still a b \<Longrightarrow> still b c \<Longrightarrow> still a c"
  by (simp add: still_def keeps_session_def)

lemma quiet_still: "quiet co t \<Longrightarrow> still co t \<and> co_executed t = co_executed co"
  by (simp add: still_def quiet_def)

lemma on_tables_approved:
  assumes "on_tables (assertApprovedForExecution encrypted_approvals sha256 now a) co = (res, t)"
  shows "still co t \<and> co_executed t = co_executed co \<and> (\<forall>p. res = Inr p \<longrightarrow> now < pa_expiresAtMs a)"
  using assms
  by (auto elim!: on_tables_elim dest!: approvals.approved_for_execution
      simp: still_def keeps_session_def sameApprovalBinding_def)

text \<open>A write starts only after its approval was found valid at that moment.\<close>

definition executes_one :: "AgentCoordinator \<Rightarrow> AgentCoordinator \<Rightarrow> ToolExecution \<Rightarrow> bool" where
  "executes_one co t e \<longleftrightarrow> co_executed t = co_executed co \<or>
     co_executed t = co_executed co @ [e] \<and> (\<forall>a. ex_approval e = Some a \<longrightarrow> ex_atMs e < pa_expiresAtMs a)"

lemma executes_one_quiet: "executes_one co t e \<Longrightarrow> quiet t u \<Longrightarrow> executes_one co u e"
  by (simp add: executes_one_def quiet_def)

lemma beginCriticalOperation_quiet:
  "beginCriticalOperation rid run operation co = (res, t) \<Longrightarrow> jget (co_active co) rid = Some run \<Longrightarrow> quiet co t"
  by (auto simp: beginCriticalOperation_def throw_def modifyS_def intro: quiet_set_run split: if_splits)

abbreviation execution_of :: "int \<Rightarrow> CallFrame \<Rightarrow> ToolExecution" where
  "execution_of now f \<equiv> \<lparr>ex_accountId = cf_accountId f, ex_runId = cf_runId f, ex_toolCallId = cf_toolCallId f,
     ex_name = cf_name f, ex_arguments = cf_arguments f, ex_atMs = now, ex_approval = cf_approval f\<rparr>"

lemma checked_execution_effect:
  assumes "andThen (case cf_approval f of None \<Rightarrow> ret ()
      | Some approval \<Rightarrow> andThen (on_tables (assertApprovedForExecution encrypted_approvals sha256 now approval)) (\<lambda>_. ret ())) (\<lambda>_.
    andThen (assertRunSession (cf_runId f) (cf_ref f)) (\<lambda>_. execute_tool (execution_of now f))) co = (res, t)"
  shows "still co t \<and> executes_one co t (execution_of now f)"
proof -
  have start: "still co t \<and> executes_one co t (execution_of now f)"
    if "andThen (assertRunSession (cf_runId f) (cf_ref f)) (\<lambda>_. execute_tool (execution_of now f)) u = (res, t)"
      "still co u" "co_executed u = co_executed co" "\<forall>a. cf_approval f = Some a \<longrightarrow> now < pa_expiresAtMs a" for u
    using that
    by (auto elim!: andThen_elim dest!: assertRunSession_reads
        simp: execute_tool_def modifyS_def executes_one_def still_def keeps_session_def)
  have refl: "still co co" by (simp add: still_def keeps_session_def)
  show ?thesis
  proof (cases "cf_approval f")
    case None
    then show ?thesis using assms start [OF _ refl] by simp
  next
    case (Some a)
    let ?check = "on_tables (assertApprovedForExecution encrypted_approvals sha256 now a)"
    obtain r u where c: "?check co = (r, u)" by fastforce
    note eff = on_tables_approved [OF c]
    show ?thesis
    proof (cases r)
      case (Inl e)
      then have "t = u" using assms Some c by (simp add: andThen_def)
      then show ?thesis using eff by (simp add: executes_one_def)
    next
      case (Inr p)
      then have "andThen (assertRunSession (cf_runId f) (cf_ref f)) (\<lambda>_. execute_tool (execution_of now f)) u = (res, t)"
        using assms Some c by (simp add: andThen_def [of "andThen ?check f" for f] andThen_def [of ?check] ret_def)
      then show ?thesis using start eff Inr Some by simp
    qed
  qed
qed

lemma call_execute_effect:
  assumes "call_execute sha256 now f co = (res, t)"
  shows "still co t \<and> executes_one co t (execution_of now f)"
  using assms unfolding call_execute_def
proof (cases rule: andThen_elim)
  case (1 e)
  then show ?thesis using assertRunSession_reads by (fastforce simp: still_def keeps_session_def executes_one_def)
next
  case (2 run u)
  then have u: "u = co" "jget (co_active co) (cf_runId f) = Some run" using assertRunSession_reads by blast+
  from 2(2) show ?thesis unfolding u(1)
  proof (cases rule: andThen_elim)
    case (1 e)
    then show ?thesis using beginCriticalOperation_quiet [OF 1(1) u(2)] by (simp add: quiet_still executes_one_def)
  next
    case (2 x v)
    note q = quiet_still [OF beginCriticalOperation_quiet [OF 2(1) u(2)]]
    from 2(2) show ?thesis
    proof (cases rule: on_error_elim)
      case (1 e w)
      have "still v t \<and> executes_one v t (execution_of now f)"
        using checked_execution_effect [OF 1(1)] quiet_endCriticalOperation executes_one_quiet quiet_still still_trans 1(3) by metis
      then show ?thesis using q by (auto simp: executes_one_def intro: still_trans)
    next
      case (2 y)
      show ?thesis using checked_execution_effect [OF 2(1)] q by (auto simp: executes_one_def intro: still_trans)
    qed
  qed
qed

lemma resolve_effect:
  assumes "resolveRecoveredApproval sha256 now f co = (res, t)" and "runs_ok owner co"
  shows "still co t \<and> (co_executed t = co_executed co \<or> rf_approve f \<and> now < pa_expiresAtMs (rf_approval f) \<and>
    co_executed t = co_executed co @ [\<lparr>ex_accountId = owner (rf_runId f), ex_runId = rf_runId f,
      ex_toolCallId = pa_toolCallId (rf_approval f), ex_name = pa_toolName (rf_approval f),
      ex_arguments = pa_arguments (rf_approval f), ex_atMs = now, ex_approval = Some (rf_approval f)\<rparr>])"
proof (cases "rf_approve f")
  case False
  then show ?thesis
    using assms(1) by (auto simp: resolveRecoveredApproval_def Let_def ret_def still_def keeps_session_def)
next
  case True
  let ?check = "on_tables (assertApprovedForExecution encrypted_approvals sha256 now (rf_approval f))"
  obtain r u where c: "?check co = (r, u)" by fastforce
  note eff = on_tables_approved [OF c]
  show ?thesis
  proof (cases r)
    case (Inl e)
    then have "t = u" using assms(1) True c by (simp add: resolveRecoveredApproval_def Let_def andThen_def)
    then show ?thesis using eff by simp
  next
    case (Inr p)
    have runs: "runs_ok owner u" using eff assms(2) keeps_session_runs_ok by (auto simp: still_def)
    obtain r' v where a: "assertRunSession (rf_runId f) (rf_ref f) u = (r', v)" by fastforce
    note rd = assertRunSession_reads [OF a]
    show ?thesis
    proof (cases r')
      case (Inl e)
      then have "t = u" using assms(1) True c a Inr rd by (simp add: resolveRecoveredApproval_def Let_def andThen_def)
      then show ?thesis using eff by simp
    next
      case r': (Inr run)
      then have "si_accountId (ar_session run) = owner (rf_runId f)" using rd runs by (simp add: runs_ok_def)
      then show ?thesis
        using assms(1) True c a Inr r' rd eff
        by (auto simp: resolveRecoveredApproval_def Let_def andThen_def execute_tool_def modifyS_def still_def keeps_session_def)
    qed
  qed
qed
subsection \<open>Every step keeps the invariant\<close>

lemma proposed_approval_status [simp]:
  "proposed_approval sha256 owner (a\<lparr>pa_status := st\<rparr>) = proposed_approval sha256 owner a"
  by (simp add: proposed_approval_def)

lemma rows_ok_change:
  assumes "row_change m m'" and "rows_ok sha256 owner m"
    and "\<And>a. m (approval_key a) = None \<Longrightarrow> m' (approval_key a) = Some a \<Longrightarrow> proposed_approval sha256 owner a"
  shows "rows_ok sha256 owner m'"
  using assms(1)
proof cases
  case row_same
  then show ?thesis using assms(2) by simp
next
  case (row_offered a)
  then have "proposed_approval sha256 owner a" using assms(3) [of a] by simp
  with assms(2) show ?thesis unfolding rows_ok_def row_offered(1) by (auto split: if_splits)
next
  case (row_settled k row st)
  with rows_okD [OF assms(2) row_settled(2)] have "k = approval_key (row\<lparr>pa_status := st\<rparr>)"
    "proposed_approval sha256 owner (row\<lparr>pa_status := st\<rparr>)" by simp_all
  with assms(2) show ?thesis unfolding rows_ok_def row_settled(1) by (auto split: if_splits)
qed

lemma frame_ok_change:
  assumes "row_change m m'" and "frame_ok sha256 owner m f"
  shows "frame_ok sha256 owner m' f"
proof (cases f)
  case (Deciding d)
  have "\<exists>st. m' k = Some (a\<lparr>pa_status := st\<rparr>)" if "m k = Some (a\<lparr>pa_status := st\<rparr>)" for k a st
    using row_change_keeps [OF assms(1) that] by simp
  with Deciding assms(2) show ?thesis by (auto simp: Let_def split: option.splits)
qed (use assms(2) in simp_all)

lemma approved_row_change:
  "approved_row m ds a \<Longrightarrow> row_change m m' \<Longrightarrow> set ds \<subseteq> set ds' \<Longrightarrow> approved_row m' ds' a"
  by (auto simp: approved_row_def dest: row_change_settled)

lemma count_subset_le: "A \<subseteq># B \<Longrightarrow> count B a \<le> n \<Longrightarrow> count A a \<le> n"
  using mset_subset_eq_count [of A B a] by simp

lemma rights_ok_shrink:
  assumes "rights_ok s" and "row_change (system_rows (sy_co s)) (system_rows (sy_co s'))"
    and "set (sy_decisions s) \<subseteq> set (sy_decisions s')" and "held_approvals s' \<subseteq># held_approvals s"
  shows "rights_ok s'"
proof -
  have "count (held_approvals s') a \<le> 1" for a
    using assms(1) count_subset_le [OF assms(4)] by (simp add: rights_ok_def)
  moreover have "approved_row (system_rows (sy_co s')) (sy_decisions s') a" if "a \<in># held_approvals s'" for a
    using assms(1) mset_subset_eqD [OF assms(4) that] approved_row_change [OF _ assms(2,3)] by (simp add: rights_ok_def)
  ultimately show ?thesis by (simp add: rights_ok_def)
qed

text \<open>A right that a decision creates is new: its row was pending until that moment.\<close>

lemma rights_ok_grow:
  assumes ok: "rights_ok s" and row: "system_rows (sy_co s) (approval_key a) = Some row" "pa_status row = ApprovalPending"
    and change: "row_change (system_rows (sy_co s)) (system_rows (sy_co s'))"
    and a: "system_rows (sy_co s') (approval_key a) = Some a" "pa_status a = ApprovalApproved"
    and d: "d \<in> set (sy_decisions s')" "decision_names d a"
    and ds: "set (sy_decisions s) \<subseteq> set (sy_decisions s')"
    and held: "held_approvals s' \<subseteq># add_mset a (held_approvals s)"
  shows "rights_ok s'"
proof -
  have "a \<notin># held_approvals s" using ok row a(2) by (auto simp: rights_ok_def approved_row_def)
  then have "count (add_mset a (held_approvals s)) b \<le> 1" for b
    using ok by (auto simp: rights_ok_def not_in_iff)
  then have one: "count (held_approvals s') b \<le> 1" for b by (rule count_subset_le [OF held])
  have new: "approved_row (system_rows (sy_co s')) (sy_decisions s') a" using a d by (auto simp: approved_row_def)
  have "approved_row (system_rows (sy_co s')) (sy_decisions s') b" if "b \<in># held_approvals s'" for b
    using ok mset_subset_eqD [OF held that] new approved_row_change [OF _ change ds] by (auto simp: rights_ok_def)
  with one show ?thesis by (simp add: rights_ok_def)
qed

lemma agent_invD:
  assumes "agent_inv sha256 owner s"
  shows "rows_ok sha256 owner (system_rows (sy_co s))" "runs_ok owner (sy_co s)" "keys_ok (sy_co s)" "rights_ok s"
    "\<And>f. f \<in> set (sy_frames s) \<Longrightarrow> frame_ok sha256 owner (system_rows (sy_co s)) f"
    "executions_ok sha256 (co_executed (sy_co s))"
  using assms by (simp_all add: agent_inv_def list_all_iff)

lemma agent_inv_change:
  assumes inv: "agent_inv sha256 owner s" and rights: "rights_ok s'"
    and rows: "row_change (system_rows (sy_co s)) (system_rows (sy_co s'))"
    and new: "\<And>a. system_rows (sy_co s) (approval_key a) = None \<Longrightarrow> system_rows (sy_co s') (approval_key a) = Some a \<Longrightarrow>
      proposed_approval sha256 owner a"
    and runs: "runs_ok owner (sy_co s')" and keys: "keys_ok (sy_co s')"
    and frames: "\<And>f. f \<in> set (sy_frames s') \<Longrightarrow> f \<in> set (sy_frames s) \<or> frame_ok sha256 owner (system_rows (sy_co s')) f"
    and executed: "executions_ok sha256 (co_executed (sy_co s'))"
  shows "agent_inv sha256 owner s'"
proof -
  have "frame_ok sha256 owner (system_rows (sy_co s')) f" if "f \<in> set (sy_frames s')" for f
    using frames [OF that] agent_invD(5) [OF inv] frame_ok_change [OF rows] by blast
  then show ?thesis
    using rights runs keys executed rows_ok_change [OF rows agent_invD(1) [OF inv] new] by (simp add: agent_inv_def list_all_iff)
qed

text \<open>Bookkeeping, and new frames that hold no approval.\<close>

lemma remove1_image_mset: "f \<in> set fs \<Longrightarrow> image_mset g (mset fs) = add_mset (g f) (image_mset g (mset (remove1 f fs)))"
  by (induction fs) auto

lemma keys_ok_cong: "co_approvedToolCalls t = co_approvedToolCalls co \<Longrightarrow> keys_ok co \<Longrightarrow> keys_ok t"
  by (simp add: keys_ok_def)

lemma agent_inv_bookkeeping:
  assumes inv: "agent_inv sha256 owner s" and co: "system_rows co = system_rows (sy_co s)"
      "co_approvedToolCalls co = co_approvedToolCalls (sy_co s)" "co_executed co = co_executed (sy_co s)" "runs_ok owner co"
    and fs: "\<And>f. f \<in> set fs \<Longrightarrow> frame_ok sha256 owner (system_rows co) f \<and> frame_approvals f = {#}"
  shows "agent_inv sha256 owner (s\<lparr>sy_co := co, sy_frames := sy_frames s @ fs, sy_nextRef := n\<rparr>)"
proof -
  have zero: "\<Sum>\<^sub># (mset (map frame_approvals fs)) = {#}" using fs by (induction fs) auto
  show ?thesis
  proof (rule agent_inv_change [OF inv])
    show "rights_ok (s\<lparr>sy_co := co, sy_frames := sy_frames s @ fs, sy_nextRef := n\<rparr>)"
      by (rule rights_ok_shrink [OF agent_invD(4) [OF inv]]) (use co zero in \<open>auto simp: held_approvals_def intro: row_same\<close>)
  qed (use co fs agent_invD [OF inv] in \<open>auto intro: row_same keys_ok_cong\<close>)
qed
lemma suspend_bookkeeping:
  assumes "agent_inv sha256 owner s" and "quiet (sy_co s) co"
    and "\<And>x. res = Inr x \<Longrightarrow> frame_ok sha256 owner (system_rows (sy_co s)) (fr x) \<and> frame_approvals (fr x) = {#}"
  shows "agent_inv sha256 owner (suspend (\<lambda>x. [fr x]) res co s)"
proof -
  have runs: "runs_ok owner co" and rows: "system_rows co = system_rows (sy_co s)"
    using assms(2) agent_invD(2) [OF assms(1)] keeps_session_runs_ok by (auto simp: quiet_def)
  show ?thesis
    using agent_inv_bookkeeping [OF assms(1), of co "case res of Inl _ \<Rightarrow> [] | Inr x \<Rightarrow> [fr x]" "sy_nextRef s"] assms(2,3) runs rows
    by (auto simp: suspend_def quiet_def split: sum.splits)
qed

lemma quiet_inv:
  assumes "agent_inv sha256 owner s" and "quiet (sy_co s) co"
  shows "agent_inv sha256 owner (s\<lparr>sy_co := co\<rparr>)"
  using agent_inv_bookkeeping [OF assms(1), of co "[]" "sy_nextRef s"] assms agent_invD(2) [OF assms(1)] keeps_session_runs_ok
  by (auto simp: quiet_def)

lemma activate_inv:
  assumes inv: "agent_inv sha256 owner s" and run: "owner rid = si_accountId (ar_session run)" "CHR '':'' \<notin> set rid"
  shows "agent_inv sha256 owner (s\<lparr>sy_co := set_run rid run (sy_co s), sy_nextRef := n\<rparr>)"
proof -
  have "runs_ok owner (set_run rid run (sy_co s))"
    using agent_invD(2) [OF inv] run by (auto simp: runs_ok_def set_run_def)
  then show ?thesis
    using agent_inv_bookkeeping [OF inv, of "set_run rid run (sy_co s)" "[]" n] by (simp add: set_run_def)
qed

lemma finish_inv:
  assumes inv: "agent_inv sha256 owner s"
  shows "agent_inv sha256 owner (s\<lparr>sy_co := finishRun rid (sy_co s)\<rparr>)"
proof -
  let ?keep = "\<lambda>(k, _ :: PendingToolApproval). \<not> js_startsWith k (rid @ '':'')"
  let ?m = "co_approvedToolCalls (sy_co s)"
  have keys: "keys_ok (sy_co s)" by (rule agent_invD [OF inv])
  then have "distinct (map fst (filter ?keep ?m))" by (simp add: keys_ok_def distinct_map_filter)
  moreover have "jget ?m k = Some a" if "jget (filter ?keep ?m) k = Some a" for k a
    using that keys map_of_SomeD [OF that] by (auto simp: keys_ok_def intro: map_of_is_SomeI)
  ultimately have "keys_ok (finishRun rid (sy_co s))" using keys by (auto simp: keys_ok_def finishRun_def)
  moreover have "runs_ok owner (finishRun rid (sy_co s))"
    using agent_invD(2) [OF inv] by (simp add: runs_ok_def finishRun_def)
  moreover have "mset (jvalues (filter ?keep ?m)) \<subseteq># mset (jvalues ?m)"
    unfolding mset_map mset_filter by (intro image_mset_subseteq_mono multiset_filter_subset)
  then have "rights_ok (s\<lparr>sy_co := finishRun rid (sy_co s)\<rparr>)"
    by (intro rights_ok_shrink [OF agent_invD(4) [OF inv]])
      (simp_all add: held_approvals_def finishRun_def row_same del: mset_map mset_filter)
  ultimately show ?thesis
    by (intro agent_inv_change [OF inv]) (use agent_invD [OF inv] in \<open>auto simp: finishRun_def intro: row_same\<close>)
qed

lemma offered_row:
  assumes "m' = m \<or> m' = m(k \<mapsto> b)" and "m j = None" and "m' j = Some a"
  shows "a = b"
  using assms by (cases "j = k") auto

lemma resume_inv:
  assumes inv: "agent_inv sha256 owner s" and "rights_ok (resume f co s)" and "row_change (system_rows (sy_co s)) (system_rows co)"
    and "\<And>a. system_rows (sy_co s) (approval_key a) = None \<Longrightarrow> system_rows co (approval_key a) = Some a \<Longrightarrow>
      proposed_approval sha256 owner a"
    and "keeps_session (sy_co s) co" and "keys_ok co" and "executions_ok sha256 (co_executed co)"
  shows "agent_inv sha256 owner (resume f co s)"
proof (rule agent_inv_change [OF inv assms(2)])
  show "g \<in> set (sy_frames (resume f co s)) \<Longrightarrow> g \<in> set (sy_frames s) \<or> frame_ok sha256 owner m g" for g m
    by (simp add: resume_def) (meson notin_set_remove1)
  show "runs_ok owner (sy_co (resume f co s))"
    using keeps_session_runs_ok [OF assms(5) agent_invD(2) [OF inv]] by (simp add: resume_def)
qed (use assms(3-7) in \<open>simp_all add: resume_def\<close>)

text \<open>A proposal is stored as it was prepared.\<close>

lemma proposal_inv:
  assumes inv: "agent_inv sha256 owner s" and f: "Proposing f \<in> set (sy_frames s)"
    and fin: "propose_finish f (sy_co s) = (res, co)"
  shows "agent_inv sha256 owner (resume (Proposing f) co s)"
proof -
  obtain tables put where p: "ap_putApproval encrypted_approvals (pf_approval f) (co_tables (sy_co s)) = (put, tables)"
    and q: "quiet ((sy_co s)\<lparr>co_tables := tables\<rparr>) co" using propose_finish_effect [OF fin] by blast
  have rows: "system_rows co = table_rows tables" and kept: "co_approvedToolCalls co = co_approvedToolCalls (sy_co s)"
    "co_executed co = co_executed (sy_co s)" "keeps_session (sy_co s) co" using q by (simp_all add: quiet_def keeps_session_def)
  have change: "row_change (system_rows (sy_co s)) (system_rows co)" unfolding rows by (rule approvals.put_row_change [OF p])
  have proposed: "proposed_approval sha256 owner (pf_approval f)" using agent_invD(5) [OF inv f] by simp
  have stored: "system_rows co = system_rows (sy_co s) \<or> system_rows co = (system_rows (sy_co s))(approval_key (pf_approval f) \<mapsto> pf_approval f)"
    using approvals.put_law [OF p] unfolding rows by metis
  have new: "proposed_approval sha256 owner a"
    if "system_rows (sy_co s) (approval_key a) = None" "system_rows co (approval_key a) = Some a" for a
    using proposed offered_row [OF stored that] by simp
  have "rights_ok (resume (Proposing f) co s)"
    by (rule rights_ok_shrink [OF agent_invD(4) [OF inv]])
      (use change kept remove1_image_mset [OF f, of frame_approvals] in \<open>simp_all add: resume_def held_approvals_def\<close>)
  then show ?thesis
    by (rule resume_inv [OF inv])
      (use change new kept keys_ok_cong [OF kept(1) agent_invD(3) [OF inv]] agent_invD(6) [OF inv] in simp_all)
qed
lemma mset_jvalues_jset: "mset (jvalues (jset k v m)) \<subseteq># add_mset v (mset (jvalues m))"
proof (induction m)
  case (Cons p m)
  obtain j w where p: "p = (j, w)" by fastforce
  have "add_mset w (mset (jvalues (jset k v m))) \<subseteq># add_mset v (add_mset w (mset (jvalues m)))"
    unfolding add_mset_commute [of v w] mset_subset_eq_add_mset_cancel by (rule Cons)
  moreover have "add_mset v (mset (jvalues m)) \<subseteq># add_mset v (add_mset w (mset (jvalues m)))"
    unfolding mset_subset_eq_add_mset_cancel by (simp add: subseteq_mset_def)
  moreover have "jvalues (jset k v (p # m)) = (if j = k then v # jvalues m else w # jvalues (jset k v m))"
    by (simp add: p)
  ultimately show ?case by (simp add: p del: mset_map split: if_split)
qed simp

lemma mset_jvalues_jdelete:
  "distinct (jkeys m) \<Longrightarrow>
   mset (jvalues m) = mset (jvalues (jdelete k m)) + (case jget m k of None \<Rightarrow> {#} | Some v \<Rightarrow> {#v#})"
proof (induction m)
  case (Cons p m)
  obtain j w where p: "p = (j, w)" by fastforce
  show ?case
  proof (cases "j = k")
    case True
    then have "jdelete k m = m" using Cons.prems by (simp add: p delete_id)
    with True show ?thesis by (simp add: p)
  next
    case False
    then show ?thesis using Cons by (simp add: p)
  qed
qed simp

lemma keys_ok_jset:
  "keys_ok co \<Longrightarrow> co_approvedToolCalls t = jset (toolKey (pa_runId a) (pa_toolCallId a)) a (co_approvedToolCalls co) \<Longrightarrow> keys_ok t"
  by (simp add: keys_ok_def)

lemma keys_ok_jdelete: "keys_ok co \<Longrightarrow> co_approvedToolCalls t = jdelete k (co_approvedToolCalls co) \<Longrightarrow> keys_ok t"
  by (simp add: keys_ok_def)

text \<open>A decision that fails creates no right, one that succeeds at most the right to the write it names.\<close>

lemma refused_decision_inv:
  assumes inv: "agent_inv sha256 owner s" and f: "Deciding f \<in> set (sy_frames s)"
    and commit: "decide_commit sha256 now f (sy_co s) = (Inl e, co)"
  shows "agent_inv sha256 owner (resume (Deciding f) co s)"
proof -
  let ?m = "system_rows (sy_co s)"
  have settles: "row_settles ?m (system_rows co)" and kept: "co_approvedToolCalls co = co_approvedToolCalls (sy_co s)"
    "co_executed co = co_executed (sy_co s)" "keeps_session (sy_co s) co"
    using decide_commit_effect [OF commit agent_invD(1) [OF inv] agent_invD(5) [OF inv f]] by auto
  then have change: "row_change ?m (system_rows co)" and "dom (system_rows co) = dom ?m" by (simp_all add: row_settles_def)
  then have old: "proposed_approval sha256 owner a" if "?m k = None" "system_rows co k = Some a" for a k
    using that by (metis domIff option.distinct(1))
  have "rights_ok (resume (Deciding f) co s)"
    by (rule rights_ok_shrink [OF agent_invD(4) [OF inv]])
      (use change kept remove1_image_mset [OF f, of frame_approvals] in \<open>simp_all add: resume_def held_approvals_def\<close>)
  then show ?thesis
    by (rule resume_inv [OF inv])
      (use change old kept keys_ok_cong [OF kept(1) agent_invD(3) [OF inv]] agent_invD(6) [OF inv] in simp_all)
qed
lemma decision_rights:
  assumes "(c, G) = (if \<not> approve then (m, {#}) else if recovered then (m, {#a#}) else (jset k a m, {#}))"
  shows "mset (jvalues c) + (F + G) + E \<subseteq># (if approve then add_mset a (mset (jvalues m) + F + E) else mset (jvalues m) + F + E)"
proof (cases "approve \<and> \<not> recovered")
  case True
  have "mset (jvalues (jset k a m)) + (F + E) \<subseteq># add_mset a (mset (jvalues m)) + (F + E)"
    by (rule subset_mset.add_right_mono [OF mset_jvalues_jset])
  with True assms show ?thesis by (simp add: add.assoc del: mset_map)
next
  case False
  with assms show ?thesis by (auto simp: add.assoc simp del: mset_map split: if_splits)
qed

lemma made_decision_inv:
  assumes inv: "agent_inv sha256 owner s" and f: "Deciding f \<in> set (sy_frames s)"
    and commit: "decide_commit sha256 now f (sy_co s) = (Inr (a, recovered), co)"
  shows "agent_inv sha256 owner (note_decision f (Inr (a, recovered) :: coordinator_error + _)
    (suspend (resolution_frames f) (Inr (a, recovered)) co (resume (Deciding f) co s)))" (is "agent_inv _ _ ?s'")
proof -
  let ?m = "system_rows (sy_co s)" and ?d = "df_decision f"
  note eff = decide_commit_effect [OF commit agent_invD(1) [OF inv] agent_invD(5) [OF inv f]]
  have row: "?m (approval_key a) = Some (a\<lparr>pa_status := ApprovalPending\<rparr>)" "system_rows co = ?m(approval_key a \<mapsto> a)"
    and st: "pa_status a = (if ad_approve ?d then ApprovalApproved else ApprovalDenied)"
    and names: "pa_runId a = ad_runId ?d" "ad_approve ?d \<longrightarrow> decision_names ?d a"
    and kept: "co_executed co = co_executed (sy_co s)" "keeps_session (sy_co s) co"
    and calls: "co_approvedToolCalls co = (if ad_approve ?d \<and> \<not> recovered
      then jset (toolKey (pa_runId a) (pa_toolCallId a)) a (co_approvedToolCalls (sy_co s)) else co_approvedToolCalls (sy_co s))"
    using eff by auto
  have co: "sy_co ?s' = co" "sy_decisions ?s' = ?d # sy_decisions s" and
    frames: "sy_frames ?s' = remove1 (Deciding f) (sy_frames s) @ resolution_frames f (a, recovered)"
    by (simp_all add: note_decision_def suspend_def resume_def)
  have change: "row_change ?m (system_rows co)" and same: "dom (system_rows co) = dom ?m"
    using decide_commit_settles [OF commit agent_invD(1) [OF inv] agent_invD(5) [OF inv f]] by (simp_all add: row_settles_def)
  have new: "proposed_approval sha256 owner b" if "?m k = None" "system_rows co k = Some b" for b k
    using that same by (metis domIff option.distinct(1))
  define F E where "F = \<Sum>\<^sub># (mset (map frame_approvals (remove1 (Deciding f) (sy_frames s))))"
    and "E = executed_approvals (co_executed (sy_co s))"
  have s: "held_approvals s = mset (jvalues (co_approvedToolCalls (sy_co s))) + F + E"
    using remove1_image_mset [OF f, of frame_approvals] by (simp add: held_approvals_def F_def E_def)
  have s': "held_approvals ?s' = mset (jvalues (co_approvedToolCalls co)) + (F + \<Sum>\<^sub># (mset (map frame_approvals (resolution_frames f (a, recovered))))) + E"
    unfolding held_approvals_def co frames kept(1) F_def E_def by simp
  have held: "held_approvals ?s' \<subseteq># (if ad_approve ?d then add_mset a (held_approvals s) else held_approvals s)"
    unfolding s s' by (rule decision_rights [where recovered = recovered and k = "toolKey (pa_runId a) (pa_toolCallId a)"]) (use calls in \<open>auto simp: resolution_frames_def\<close>)
  have "rights_ok ?s'"
  proof (cases "ad_approve ?d")
    case True
    show ?thesis
      by (rule rights_ok_grow [OF agent_invD(4) [OF inv] row(1), of _ ?d])
        (use True change row(2) st names held co in \<open>simp_all add: subset_insertI\<close>)
  next
    case False
    show ?thesis by (rule rights_ok_shrink [OF agent_invD(4) [OF inv]]) (use False change held co in auto)
  qed
  then show ?thesis
  proof (rule agent_inv_change [OF inv])
    show "keys_ok (sy_co ?s')"
      using keys_ok_jset [OF agent_invD(3) [OF inv], of co] keys_ok_cong [OF _ agent_invD(3) [OF inv], of co] calls co by (simp split: if_splits)
    show "runs_ok owner (sy_co ?s')" using keeps_session_runs_ok [OF kept(2) agent_invD(2) [OF inv]] co by simp
    show "g \<in> set (sy_frames s) \<or> frame_ok sha256 owner (system_rows (sy_co ?s')) g" if "g \<in> set (sy_frames ?s')" for g
      using that notin_set_remove1 names(1) unfolding frames by (fastforce simp: resolution_frames_def split: if_splits)
  qed (use change new agent_invD(6) [OF inv] kept(1) co in simp_all)
qed
lemma approvals_held:
  assumes "agent_inv sha256 owner s" and "a \<in># held_approvals s"
  shows "approved_row (system_rows (sy_co s)) (sy_decisions s) a \<and> proposed_approval sha256 owner a"
  using assms(2) agent_invD(1,4) [OF assms(1)] rows_okD by (auto simp: rights_ok_def approved_row_def)

lemma waiting_is_held: "jget (co_approvedToolCalls (sy_co s)) k = Some a \<Longrightarrow> a \<in># held_approvals s"
  by (force simp: held_approvals_def dest: map_of_SomeD)

lemma frame_is_held: "f \<in> set (sy_frames s) \<Longrightarrow> a \<in># frame_approvals f \<Longrightarrow> a \<in># held_approvals s"
  by (auto simp: held_approvals_def)

lemma called_inv:
  assumes inv: "agent_inv sha256 owner s" and start: "call_start sha256 account params (sy_co s) = (res, co)"
  shows "agent_inv sha256 owner (suspend (\<lambda>f. [Calling f]) res co s)" (is "agent_inv _ _ ?s'")
proof -
  let ?calls = "co_approvedToolCalls (sy_co s)"
  have "\<forall>k a. jget ?calls k = Some a \<longrightarrow> proposed_approval sha256 owner a" using approvals_held [OF inv] waiting_is_held by blast
  note eff = call_start_effect [OF start agent_invD(2,3) [OF inv] this, of "system_rows (sy_co s)"]
  have kept: "co_executed co = co_executed (sy_co s)" "keeps_session (sy_co s) co" "system_rows co = system_rows (sy_co s)"
    and frame: "\<And>f. res = Inr f \<Longrightarrow> frame_ok sha256 owner (system_rows (sy_co s)) (Calling f)" using eff by auto
  let ?fs = "case res of Inl _ \<Rightarrow> [] | Inr f \<Rightarrow> [Calling f]"
  have s': "sy_co ?s' = co" "sy_frames ?s' = sy_frames s @ ?fs" "sy_decisions ?s' = sy_decisions s" by (simp_all add: suspend_def)
  have taken: "keys_ok co \<and> mset (jvalues (co_approvedToolCalls co)) + \<Sum>\<^sub># (mset (map frame_approvals ?fs)) \<subseteq># mset (jvalues ?calls)"
  proof (cases "co_approvedToolCalls co = ?calls \<and> (\<forall>f. res = Inr f \<longrightarrow> cf_approval f = None)")
    case True
    then show ?thesis using keys_ok_cong [of co "sy_co s"] agent_invD(3) [OF inv] by (auto split: sum.split)
  next
    case False
    with eff obtain k where k: "co_approvedToolCalls co = jdelete k ?calls" "\<And>f. res = Inr f \<Longrightarrow> cf_approval f = jget ?calls k" by blast
    have "mset (jvalues ?calls) = mset (jvalues (jdelete k ?calls)) + (case jget ?calls k of None \<Rightarrow> {#} | Some v \<Rightarrow> {#v#})"
      by (rule mset_jvalues_jdelete) (use agent_invD(3) [OF inv] in \<open>simp add: keys_ok_def\<close>)
    then show ?thesis
      using k keys_ok_jdelete [OF agent_invD(3) [OF inv] k(1)] by (simp del: mset_map split: sum.split)
  qed
  define F E where "F = \<Sum>\<^sub># (mset (map frame_approvals (sy_frames s)))" and "E = executed_approvals (co_executed (sy_co s))"
  have "held_approvals ?s' = mset (jvalues (co_approvedToolCalls co)) + \<Sum>\<^sub># (mset (map frame_approvals ?fs)) + (F + E)"
    unfolding held_approvals_def s' kept(1) F_def E_def by simp
  also have "\<dots> \<subseteq># mset (jvalues ?calls) + (F + E)" by (rule subset_mset.add_right_mono) (use taken in blast)
  also have "\<dots> = held_approvals s" by (simp add: held_approvals_def F_def E_def)
  finally have "rights_ok ?s'"
    by (intro rights_ok_shrink [OF agent_invD(4) [OF inv]]) (use s' kept in \<open>simp_all add: row_same\<close>)
  then show ?thesis
  proof (rule agent_inv_change [OF inv])
    show "g \<in> set (sy_frames s) \<or> frame_ok sha256 owner (system_rows (sy_co ?s')) g" if "g \<in> set (sy_frames ?s')" for g
      using that frame kept(3) unfolding s' by (auto simp del: frame_ok.simps split: sum.splits)
  qed (use s' kept taken agent_invD(6) [OF inv] keeps_session_runs_ok [OF kept(2) agent_invD(2) [OF inv]] in \<open>simp_all add: row_same\<close>)
qed
text \<open>A segment that may run a tool uses up the right its frame holds.\<close>

lemma executed_approvals_snoc:
  "executed_approvals (es @ [e]) = executed_approvals es + (case ex_approval e of None \<Rightarrow> {#} | Some a \<Rightarrow> {#a#})"
  by (simp add: executed_approvals_def map_filter_def split: option.split)

lemma executing_inv:
  assumes inv: "agent_inv sha256 owner s" and f: "f \<in> set (sy_frames s)" and st: "still (sy_co s) co"
    and ex: "co_executed co = co_executed (sy_co s) \<or> co_executed co = co_executed (sy_co s) @ [e] \<and>
      executions_ok sha256 [e] \<and> (case ex_approval e of None \<Rightarrow> {#} | Some a \<Rightarrow> {#a#}) = frame_approvals f"
  shows "agent_inv sha256 owner (resume f co s)" (is "agent_inv _ _ ?s'")
proof -
  have kept: "system_rows co = system_rows (sy_co s)" "co_approvedToolCalls co = co_approvedToolCalls (sy_co s)"
    "keeps_session (sy_co s) co" using st by (simp_all add: still_def)
  define J F where "J = mset (jvalues (co_approvedToolCalls (sy_co s)))" and "F = \<Sum>\<^sub># (mset (map frame_approvals (remove1 f (sy_frames s))))"
  have "held_approvals s = J + F + (frame_approvals f + executed_approvals (co_executed (sy_co s)))"
    using remove1_image_mset [OF f, of frame_approvals] by (simp add: held_approvals_def J_def F_def)
  moreover have "held_approvals ?s' = J + F + executed_approvals (co_executed co)"
    unfolding held_approvals_def resume_def J_def F_def kept(2) [symmetric] by simp
  moreover have "executed_approvals (co_executed co) \<subseteq># frame_approvals f + executed_approvals (co_executed (sy_co s))"
    using ex by (auto simp: executed_approvals_snoc)
  ultimately have "held_approvals ?s' \<subseteq># held_approvals s" by (simp add: subset_mset.add_left_mono)
  then have "rights_ok ?s'"
    by (intro rights_ok_shrink [OF agent_invD(4) [OF inv]]) (use kept(1) in \<open>simp_all add: resume_def row_same\<close>)
  moreover have "executions_ok sha256 (co_executed co)"
    using ex agent_invD(6) [OF inv] by (auto simp: executions_ok_def)
  ultimately show ?thesis
    by (intro resume_inv [OF inv]) (use kept keys_ok_cong [OF kept(2) agent_invD(3) [OF inv]] in \<open>simp_all add: row_same\<close>)
qed

lemma call_executed_inv:
  assumes inv: "agent_inv sha256 owner s" and f: "Calling f \<in> set (sy_frames s)"
    and run: "call_execute sha256 now f (sy_co s) = (res, co)"
  shows "agent_inv sha256 owner (resume (Calling f) co s)"
proof -
  have eff: "still (sy_co s) co" "executes_one (sy_co s) co (execution_of now f)" using call_execute_effect [OF run] by auto
  show ?thesis
    by (rule executing_inv [OF inv f eff(1), of "execution_of now f"])
      (use eff(2) agent_invD(5) [OF inv f] in \<open>auto simp: executes_one_def executions_ok_def split: option.splits\<close>)
qed

lemma resolved_inv:
  assumes inv: "agent_inv sha256 owner s" and f: "Resolving f \<in> set (sy_frames s)"
    and run: "resolveRecoveredApproval sha256 now f (sy_co s) = (res, co)"
  shows "agent_inv sha256 owner (resume (Resolving f) co s)"
proof -
  note eff = resolve_effect [OF run agent_invD(2) [OF inv]]
  have a: "proposed_approval sha256 owner (rf_approval f)" if "rf_approve f"
    using approvals_held [OF inv frame_is_held [OF f]] that by simp
  have "rf_runId f = pa_runId (rf_approval f)" using agent_invD(5) [OF inv f] by simp
  with eff a show ?thesis
    by (intro executing_inv [OF inv f, of co "\<lparr>ex_accountId = owner (rf_runId f), ex_runId = rf_runId f,
          ex_toolCallId = pa_toolCallId (rf_approval f), ex_name = pa_toolName (rf_approval f),
          ex_arguments = pa_arguments (rf_approval f), ex_atMs = now, ex_approval = Some (rf_approval f)\<rparr>"])
      (auto simp: executions_ok_def proposed_approval_def)
qed

lemma restart_inv:
  assumes inv: "agent_inv sha256 owner s"
  shows "agent_inv sha256 owner (s\<lparr>sy_co := (sy_co s)\<lparr>co_session := None, co_active := [], co_approvedToolCalls := []\<rparr>, sy_frames := []\<rparr>)"
    (is "agent_inv _ _ ?s'")
proof -
  have "rights_ok ?s'"
    by (rule rights_ok_shrink [OF agent_invD(4) [OF inv]]) (simp_all add: row_same held_approvals_def)
  then show ?thesis
    by (rule agent_inv_change [OF inv]) (use agent_invD(6) [OF inv] in \<open>simp_all add: row_same runs_ok_def keys_ok_def\<close>)
qed

lemma empty_agent_inv: "agent_inv sha256 owner empty_agent_system"
  by (simp add: agent_inv_def empty_agent_system_def rows_ok_def runs_ok_def keys_ok_def rights_ok_def held_approvals_def
      executed_approvals_def map_filter_def executions_ok_def table_rows_def)

lemma agent_step_inv: "agent_step sha256 owner s s' \<Longrightarrow> agent_inv sha256 owner s \<Longrightarrow> agent_inv sha256 owner s'"
proof (induction rule: agent_step.induct)
  case (session_changes s session)
  then show ?case by (rule quiet_inv) (simp add: quiet_def keeps_session_def)
next
  case (grants_change s grants)
  then show ?case
    using agent_inv_bookkeeping [OF grants_change, of "(sy_co s)\<lparr>co_tables := (co_tables (sy_co s))\<lparr>tt_grants := grants\<rparr>\<rparr>" "[]" "sy_nextRef s"]
      agent_invD(2) [OF grants_change] by (simp add: table_rows_def [abs_def] runs_ok_def)
next
  case (run_activated s identity rid run)
  then show ?case by (intro activate_inv) simp_all
next
  case (run_progresses s rid run run')
  then show ?case by (intro quiet_inv quiet_set_run)
next
  case (run_finished s rid)
  then show ?case by (rule finish_inv)
next
  case (write_proposed uuid now account params s res co)
  note eff = propose_start_effect [OF write_proposed(1) agent_invD(2) [OF write_proposed(2)]]
  show ?case by (rule suspend_bookkeeping [OF write_proposed(2)]) (use eff in auto)
next
  case (proposal_stored frame s summary co)
  then show ?case by (intro proposal_inv)
next
  case (decision_received input s res co)
  note eff = decide_start_effect [OF decision_received(1) agent_invD(2) [OF decision_received(2)]]
  show ?case by (rule suspend_bookkeeping [OF decision_received(2)]) (use eff in auto)
next
  case (decision_made frame s now res co)
  show ?case
  proof (cases res)
    case (Inl e)
    with decision_made show ?thesis
      using refused_decision_inv [of sha256 owner s frame now e co] by (simp add: note_decision_def suspend_def resume_def)
  next
    case (Inr x)
    with decision_made show ?thesis by (cases x) (auto intro: made_decision_inv)
  qed
next
  case (tool_called account params s res co)
  then show ?case by (intro called_inv)
next
  case (call_executed frame s now res co)
  then show ?case by (intro call_executed_inv)
next
  case (call_ended s rid ref)
  then show ?case by (intro quiet_inv quiet_endCriticalOperation)
next
  case (recovered_resolved frame s now res co)
  then show ?case by (intro resolved_inv)
next
  case (program_restarted s)
  then show ?case by (rule restart_inv)
qed

lemma agent_steps_inv: "agent_steps sha256 owner s s' \<Longrightarrow> agent_inv sha256 owner s \<Longrightarrow> agent_inv sha256 owner s'"
  by (induction rule: rtranclp_induct) (auto intro: agent_step_inv)
text \<open>Over any step the rows change as the store allows.\<close>

lemma agent_step_rows:
  assumes "agent_step sha256 owner s s'" and inv: "agent_inv sha256 owner s"
  shows "row_change (system_rows (sy_co s)) (system_rows (sy_co s'))"
  using assms
proof cases
  case (write_proposed uuid now account params res co)
  then show ?thesis
    using propose_start_effect [OF write_proposed(2) agent_invD(2) [OF inv]] by (simp add: quiet_def suspend_def row_same)
next
  case (proposal_stored frame summary co)
  then show ?thesis
    using propose_finish_effect [OF proposal_stored(3)] approvals.put_row_change by (auto simp: quiet_def resume_def)
next
  case (decision_received input res co)
  then show ?thesis
    using decide_start_effect [OF decision_received(2) agent_invD(2) [OF inv]] by (simp add: quiet_def suspend_def row_same)
next
  case (decision_made frame now res co)
  have co: "sy_co s' = co" using decision_made(1) by (simp add: note_decision_def suspend_def resume_def split: sum.split)
  show ?thesis
    using decide_commit_settles [OF decision_made(3) agent_invD(1) [OF inv] agent_invD(5) [OF inv decision_made(2)]] co
    by (simp add: row_settles_def)
next
  case (tool_called account params res co)
  have "\<forall>k a. jget (co_approvedToolCalls (sy_co s)) k = Some a \<longrightarrow> proposed_approval sha256 owner a"
    using approvals_held [OF inv] waiting_is_held by blast
  then show ?thesis
    using tool_called(1) call_start_effect [OF tool_called(2) agent_invD(2,3) [OF inv]] by (simp add: suspend_def row_same)
next
  case (call_executed frame now res co)
  then show ?thesis using call_execute_effect [OF call_executed(3)] by (simp add: still_def resume_def row_same)
next
  case (call_ended rid ref)
  then show ?thesis using quiet_endCriticalOperation [of "sy_co s" rid ref] by (simp add: quiet_def row_same)
next
  case (recovered_resolved frame now res co)
  then show ?thesis using resolve_effect [OF recovered_resolved(3) agent_invD(2) [OF inv]] by (simp add: still_def resume_def row_same)
qed (simp_all add: row_same finishRun_def set_run_def table_rows_def [abs_def])

lemma settled_row_stays:
  assumes "agent_steps sha256 owner s s'" and "agent_inv sha256 owner s"
    and "system_rows (sy_co s) k = Some a" and "pa_status a \<noteq> ApprovalPending"
  shows "system_rows (sy_co s') k = Some a"
  using assms(1)
proof (induction rule: rtranclp_induct)
  case base
  show ?case by (rule assms(3))
next
  case (step t u)
  have "agent_inv sha256 owner t" by (rule agent_steps_inv [OF step.hyps(1) assms(2)])
  from agent_step_rows [OF step.hyps(2) this] step.IH assms(4) show ?case by (rule row_change_settled)
qed

subsection \<open>What the user can rely on\<close>

lemma approval_used_once:
  assumes "rights_ok s" and "a \<in># executed_approvals (co_executed (sy_co s))"
  shows "length (filter (\<lambda>x. ex_approval x = Some a) (co_executed (sy_co s))) = 1"
proof -
  have count: "count (executed_approvals es) a = length (filter (\<lambda>x. ex_approval x = Some a) es)" for es
    by (induction es) (auto simp: executed_approvals_def map_filter_def)
  have "count (executed_approvals (co_executed (sy_co s))) a \<le> count (held_approvals s) a" by (simp add: held_approvals_def)
  also have "\<dots> \<le> 1" using assms(1) by (simp add: rights_ok_def)
  finally have "count (executed_approvals (co_executed (sy_co s))) a \<le> 1" .
  moreover have "0 < count (executed_approvals (co_executed (sy_co s))) a" using assms(2) by (simp only: count_greater_zero_iff)
  ultimately show ?thesis unfolding count by linarith
qed

text \<open>C4: whatever the model's process asks for and however its calls interleave with the user's decisions,
  the ends of runs and restarts, a write is executed only if the user approved exactly it: there is an
  approval, stored as approved by a decision that names it, of the same account, run, tool call and tool;
  the digest the user decided on is that of the arguments executed; the write starts within ten minutes of its
  proposal; and no other execution uses the approval.\<close>

theorem executed_writes_were_approved:
  assumes "agent_steps sha256 owner empty_agent_system s" and "e \<in> set (co_executed (sy_co s))" and "isWriteTool (ex_name e)"
  shows "\<exists>a d. ex_approval e = Some a \<and> d \<in> set (sy_decisions s) \<and> decision_names d a \<and>
    system_rows (sy_co s) (approval_key a) = Some a \<and> pa_status a = ApprovalApproved \<and>
    (ex_accountId e, ex_runId e, ex_toolCallId e, ex_name e) = (pa_accountId a, pa_runId a, pa_toolCallId a, pa_toolName a) \<and>
    digestArguments sha256 (ex_arguments e) = Inr (ad_inputDigest d) \<and>
    ex_atMs e < pa_createdAtMs a + 600000 \<and>
    length (filter (\<lambda>x. ex_approval x = Some a) (co_executed (sy_co s))) = 1"
proof -
  have inv: "agent_inv sha256 owner s" using assms(1) empty_agent_inv by (rule agent_steps_inv)
  have "\<not> isReadTool (ex_name e)"
    using assms(3) by (auto simp: isWriteTool_def isReadTool_def APPROVAL_REQUIRED_AGENT_TOOLS_def AUTO_READ_AGENT_TOOLS_def)
  with agent_invD(6) [OF inv] assms(2) obtain a where a: "ex_approval e = Some a"
    and e: "(ex_accountId e, ex_runId e, ex_toolCallId e, ex_name e) = (pa_accountId a, pa_runId a, pa_toolCallId a, pa_toolName a)"
      "digestArguments sha256 (ex_arguments e) = Inr (pa_argumentsDigest a)" "ex_atMs e < pa_expiresAtMs a"
    by (auto simp: executions_ok_def split: option.splits)
  have used: "a \<in># executed_approvals (co_executed (sy_co s))"
    using assms(2) a by (force simp: executed_approvals_def map_filter_def)
  then have "a \<in># held_approvals s" by (simp add: held_approvals_def)
  then have row: "approved_row (system_rows (sy_co s)) (sy_decisions s) a" "proposed_approval sha256 owner a"
    using approvals_held [OF inv] by simp_all
  then obtain d where d: "d \<in> set (sy_decisions s)" "decision_names d a" by (auto simp: approved_row_def)
  have "ad_inputDigest d = pa_argumentsDigest a" "pa_expiresAtMs a = pa_createdAtMs a + 600000"
    using d(2) row(2) by (simp_all add: decision_names_def proposed_approval_def APPROVAL_LIFETIME_MS_def)
  then show ?thesis
    using a d e row(1) approval_used_once [OF agent_invD(4) [OF inv] used] by (auto simp: approved_row_def)
qed

text \<open>C24: an approval is decided once: whatever happens afterwards its row stays as the first decision left
  it, and every further decision on it is refused and changes no row.\<close>

theorem approval_decided_once:
  assumes "agent_steps sha256 owner empty_agent_system s"
    and "system_rows (sy_co s) (ad_accountId d, ad_approvalId d) = Some a" and "pa_status a \<noteq> ApprovalPending"
    and "agent_steps sha256 owner s s'"
  shows "system_rows (sy_co s') (ad_accountId d, ad_approvalId d) = Some a \<and>
    (\<exists>e t. decide encrypted_approvals sha256 now d (co_tables (sy_co s')) = (Inl e, t) \<and> table_rows t = system_rows (sy_co s'))"
proof -
  have inv: "agent_inv sha256 owner s" using assms(1) empty_agent_inv by (rule agent_steps_inv)
  have row: "system_rows (sy_co s') (ad_accountId d, ad_approvalId d) = Some a"
    by (rule settled_row_stays [OF assms(4) inv assms(2,3)])
  obtain res t where "decide encrypted_approvals sha256 now d (co_tables (sy_co s')) = (res, t)" by fastforce
  with approvals.decide_settled [OF this row assms(3)] row show ?thesis by auto
qed

end
