(* ===== verification/AgentExamples.thy ===== *)
theory AgentExamples
  imports AgentToolSystem
begin

text \<open>
  Concrete runs of the agent's tools: a deletion is proposed, approved and executed once, and an
  approval expires before its write. They are the inputs at which the properties of
  \<open>AgentApprovals\<close> and \<open>AgentToolSystem\<close> are seen to apply.
\<close>

subsection \<open>One deletion\<close>

definition example_sha :: "string \<Rightarrow> string" where
  "example_sha t = replicate 64 (if length t < 36 then CHR ''a'' else CHR ''b'')"

definition example_owner :: "string \<Rightarrow> string" where
  "example_owner rid = ''acc''"

definition example_identity :: AuthSessionIdentity where
  "example_identity = \<lparr>si_accountId = ''acc'', si_sessionId = ''s1'', si_generation = 1\<rparr>"

definition deletion_arguments :: "(string \<times> json) list" where
  "deletion_arguments = [(''eventId'', JStr ''e1''), (''expectedVersion'', JNum 3)]"

definition deletion_digest :: string where
  "deletion_digest = example_sha (canonicalJson (JObj deletion_arguments))"

definition deletion_approval :: "ApprovalStatus \<Rightarrow> PendingToolApproval" where
  "deletion_approval status = \<lparr>pa_approvalId = ''approval-u1'', pa_accountId = ''acc'', pa_runId = ''r1'',
     pa_toolCallId = ''c1'', pa_toolName = ''calendar.delete_event'', pa_argumentsDigest = deletion_digest,
     pa_runRevision = 1, pa_arguments = deletion_arguments, pa_createdAtMs = 1000, pa_expiresAtMs = 601000, pa_status = status\<rparr>"

definition deletion_request :: "(string \<times> json) list" where
  "deletion_request = [(''runId'', JStr ''r1''), (''name'', JStr ''calendar.delete_event''), (''toolCallId'', JStr ''c1''),
     (''arguments'', JObj deletion_arguments), (''approvalId'', JStr ''approval-u1''),
     (''inputDigest'', JStr deletion_digest), (''runVersion'', JNum 1)]"

definition deletion_run :: "int \<Rightarrow> CriticalOperation option \<Rightarrow> ActiveRun" where
  "deletion_run r c = \<lparr>ar_ref = 0, ar_session = example_identity, ar_kind = ConversationTurn, ar_status = RunRunning,
     ar_revision = r, ar_recoveredFromPersistence = False, ar_criticalOperation = c\<rparr>"

definition example_co ::
  "int \<Rightarrow> CriticalOperation option \<Rightarrow> PendingToolApproval list \<Rightarrow> PendingToolApproval list \<Rightarrow> ToolExecution list \<Rightarrow> AgentCoordinator" where
  "example_co r c rows calls executed = \<lparr>
     co_tables = \<lparr>tt_grants = [], tt_approvals = map (\<lambda>a. (approval_key a, a)) rows\<rparr>,
     co_session = Some example_identity, co_active = [(''r1'', deletion_run r c)],
     co_approvedToolCalls = map (\<lambda>a. (''r1:c1'', a)) calls, co_executed = executed\<rparr>"

definition example_system :: "AgentCoordinator \<Rightarrow> tool_frame list \<Rightarrow> ApprovalDecision list \<Rightarrow> AgentSystem" where
  "example_system co frames decisions = \<lparr>sy_co = co, sy_frames = frames, sy_decisions = decisions, sy_nextRef = 1\<rparr>"

definition proposal_frame :: ProposalFrame where
  "proposal_frame = \<lparr>pf_runId = ''r1'', pf_ref = 0, pf_approval = deletion_approval ApprovalPending\<rparr>"

definition deletion_input :: DecisionRequest where
  "deletion_input = \<lparr>dr_runId = ''r1'', dr_approvalId = ''approval-u1'', dr_toolCallId = ''c1'',
     dr_inputDigest = deletion_digest, dr_expectedRevision = 1, dr_approve = True\<rparr>"

definition deletion_decision :: ApprovalDecision where
  "deletion_decision = \<lparr>ad_accountId = ''acc'', ad_approvalId = ''approval-u1'', ad_runId = ''r1'', ad_toolCallId = ''c1'',
     ad_inputDigest = deletion_digest, ad_runRevision = 1, ad_approve = True\<rparr>"

definition deletion_frame :: DecisionFrame where
  "deletion_frame = \<lparr>df_ref = 0, df_decision = deletion_decision, df_found = Some (deletion_approval ApprovalPending)\<rparr>"

definition deletion_call :: CallFrame where
  "deletion_call = \<lparr>cf_accountId = ''acc'', cf_runId = ''r1'', cf_ref = 0, cf_toolCallId = ''c1'',
     cf_name = ''calendar.delete_event'', cf_arguments = deletion_arguments,
     cf_approval = Some (deletion_approval ApprovalApproved)\<rparr>"

definition deletion_execution :: ToolExecution where
  "deletion_execution = execution_of 3000 deletion_call"

text \<open>The states the run goes through.\<close>

definition decided_system :: AgentSystem where
  "decided_system = example_system
     (example_co 2 None [deletion_approval ApprovalApproved] [deletion_approval ApprovalApproved] []) [] [deletion_decision]"

definition executed_system :: AgentSystem where
  "executed_system = example_system
     (example_co 2 (Some ToolExecutionOperation) [deletion_approval ApprovalApproved] [] [deletion_execution]) [] [deletion_decision]"

lemma example_propose:
  "propose_start example_sha ''u1'' 1000 ''acc'' deletion_request (example_co 0 None [] [] []) =
     (Inr proposal_frame, example_co 1 None [] [] [])"
  by code_simp

lemma example_store:
  "fst (propose_finish proposal_frame (example_co 1 None [] [] [])) =
     Inr (presentApproval (deletion_approval ApprovalPending)) \<and>
   snd (propose_finish proposal_frame (example_co 1 None [] [] [])) = example_co 1 None [deletion_approval ApprovalPending] [] []"
  by code_simp

lemma example_decide:
  "decide_start deletion_input (example_co 1 None [deletion_approval ApprovalPending] [] []) =
     (Inr deletion_frame, example_co 1 (Some ApprovalDecisionOperation) [deletion_approval ApprovalPending] [] [])"
  by code_simp

lemma example_commit:
  "decide_commit example_sha 2000 deletion_frame
     (example_co 1 (Some ApprovalDecisionOperation) [deletion_approval ApprovalPending] [] []) =
     (Inr (deletion_approval ApprovalApproved, False),
      example_co 2 None [deletion_approval ApprovalApproved] [deletion_approval ApprovalApproved] [])"
  by code_simp

lemma example_call:
  "call_start example_sha ''acc'' deletion_request
     (example_co 2 None [deletion_approval ApprovalApproved] [deletion_approval ApprovalApproved] []) =
     (Inr deletion_call, example_co 2 None [deletion_approval ApprovalApproved] [] [])"
  by code_simp

lemma example_execute:
  "call_execute example_sha 3000 deletion_call (example_co 2 None [deletion_approval ApprovalApproved] [] []) =
     (Inr (), example_co 2 (Some ToolExecutionOperation) [deletion_approval ApprovalApproved] [] [deletion_execution])"
  by code_simp
subsection \<open>The run as steps\<close>

lemmas example_states = example_system_def suspend_def resume_def note_decision_def resolution_frames_def

lemma example_activated:
  "agent_steps example_sha example_owner empty_agent_system (example_system (example_co 0 None [] [] []) [] [])"
proof -
  let ?s = "empty_agent_system\<lparr>sy_co := (sy_co empty_agent_system)\<lparr>co_session := Some example_identity\<rparr>\<rparr>"
  have "agent_step example_sha example_owner empty_agent_system ?s" by (rule session_changes)
  moreover have "agent_step example_sha example_owner ?s
      (?s\<lparr>sy_co := set_run ''r1'' (deletion_run 0 None) (sy_co ?s), sy_nextRef := Suc (sy_nextRef ?s)\<rparr>)"
    by (rule run_activated [of _ example_identity])
      (simp_all add: empty_agent_system_def example_owner_def example_identity_def deletion_run_def)
  moreover have "?s\<lparr>sy_co := set_run ''r1'' (deletion_run 0 None) (sy_co ?s), sy_nextRef := Suc (sy_nextRef ?s)\<rparr> =
      example_system (example_co 0 None [] [] []) [] []"
    by (simp add: empty_agent_system_def example_system_def example_co_def set_run_def)
  ultimately show ?thesis by (metis converse_rtranclp_into_rtranclp r_into_rtranclp)
qed

lemma example_proposed:
  "agent_steps example_sha example_owner (example_system (example_co 0 None [] [] []) [] [])
     (example_system (example_co 1 None [deletion_approval ApprovalPending] [] []) [] [])"
proof -
  have "agent_step example_sha example_owner (example_system (example_co 0 None [] [] []) [] [])
      (example_system (example_co 1 None [] [] []) [Proposing proposal_frame] [])"
    using write_proposed [of example_sha "''u1''" 1000 "''acc''" deletion_request
        "example_system (example_co 0 None [] [] []) [] []" "Inr proposal_frame" "example_co 1 None [] [] []" example_owner] example_propose
    by (simp add: example_states)
  moreover have "agent_step example_sha example_owner (example_system (example_co 1 None [] [] []) [Proposing proposal_frame] [])
      (example_system (example_co 1 None [deletion_approval ApprovalPending] [] []) [] [])"
    using proposal_stored [of proposal_frame "example_system (example_co 1 None [] [] []) [Proposing proposal_frame] []"
        "Inr (presentApproval (deletion_approval ApprovalPending))"
        "example_co 1 None [deletion_approval ApprovalPending] [] []" example_sha example_owner] example_store
    by (simp add: example_states prod_eq_iff)
  ultimately show ?thesis by (metis converse_rtranclp_into_rtranclp r_into_rtranclp)
qed

lemma example_decided:
  "agent_steps example_sha example_owner (example_system (example_co 1 None [deletion_approval ApprovalPending] [] []) [] []) decided_system"
proof -
  let ?busy = "example_co 1 (Some ApprovalDecisionOperation) [deletion_approval ApprovalPending] [] []"
  have "agent_step example_sha example_owner (example_system (example_co 1 None [deletion_approval ApprovalPending] [] []) [] [])
      (example_system ?busy [Deciding deletion_frame] [])"
    using decision_received [of deletion_input "example_system (example_co 1 None [deletion_approval ApprovalPending] [] []) [] []"
        "Inr deletion_frame" ?busy example_sha example_owner] example_decide
    by (simp add: example_states)
  moreover have "agent_step example_sha example_owner (example_system ?busy [Deciding deletion_frame] []) decided_system"
    using decision_made [of deletion_frame "example_system ?busy [Deciding deletion_frame] []" example_sha 2000
        "Inr (deletion_approval ApprovalApproved, False)" _ example_owner] example_commit
    by (simp add: example_states decided_system_def deletion_frame_def)
  ultimately show ?thesis by (metis converse_rtranclp_into_rtranclp r_into_rtranclp)
qed

lemma example_executed: "agent_steps example_sha example_owner decided_system executed_system"
proof -
  let ?called = "example_co 2 None [deletion_approval ApprovalApproved] [] []"
  have "agent_step example_sha example_owner decided_system (example_system ?called [Calling deletion_call] [deletion_decision])"
    using tool_called [of example_sha "''acc''" deletion_request decided_system "Inr deletion_call" ?called example_owner] example_call
    by (simp add: example_states decided_system_def)
  moreover have "agent_step example_sha example_owner (example_system ?called [Calling deletion_call] [deletion_decision]) executed_system"
    using call_executed [of deletion_call "example_system ?called [Calling deletion_call] [deletion_decision]" example_sha 3000
        "Inr ()" _ example_owner] example_execute
    by (simp add: example_states executed_system_def)
  ultimately show ?thesis by (metis converse_rtranclp_into_rtranclp r_into_rtranclp)
qed

lemmas decided_reachable = rtranclp_trans [OF rtranclp_trans [OF example_activated example_proposed] example_decided]

theorem executed_writes_were_approved_witness:
  "\<exists>a d. ex_approval deletion_execution = Some a \<and> d \<in> set (sy_decisions executed_system) \<and> decision_names d a \<and>
    system_rows (sy_co executed_system) (approval_key a) = Some a \<and> pa_status a = ApprovalApproved \<and>
    (ex_accountId deletion_execution, ex_runId deletion_execution, ex_toolCallId deletion_execution, ex_name deletion_execution) =
      (pa_accountId a, pa_runId a, pa_toolCallId a, pa_toolName a) \<and>
    digestArguments example_sha (ex_arguments deletion_execution) = Inr (ad_inputDigest d) \<and>
    ex_atMs deletion_execution < pa_createdAtMs a + 600000 \<and>
    length (filter (\<lambda>x. ex_approval x = Some a) (co_executed (sy_co executed_system))) = 1"
proof (rule executed_writes_were_approved [where owner = example_owner])
  show "agent_steps example_sha example_owner empty_agent_system executed_system"
    by (rule rtranclp_trans [OF decided_reachable example_executed])
  show "deletion_execution \<in> set (co_executed (sy_co executed_system))"
    by (simp add: executed_system_def example_system_def example_co_def)
  show "isWriteTool (ex_name deletion_execution)" by code_simp
qed

theorem approval_decided_once_witness:
  "system_rows (sy_co executed_system) (''acc'', ''approval-u1'') = Some (deletion_approval ApprovalApproved) \<and>
    (\<exists>e t. decide encrypted_approvals example_sha 4000 (deletion_decision\<lparr>ad_approve := False\<rparr>) (co_tables (sy_co executed_system)) = (Inl e, t) \<and>
      table_rows t = system_rows (sy_co executed_system))"
  using approval_decided_once [OF decided_reachable _ _ example_executed, of "deletion_decision\<lparr>ad_approve := False\<rparr>"
      "deletion_approval ApprovalApproved" 4000]
  by (simp add: deletion_decision_def decided_system_def example_system_def example_co_def table_rows_def deletion_approval_def)

subsection \<open>Digests and expiry\<close>

theorem digest_is_of_canonical_arguments_witness:
  "digestArguments example_sha [(''expectedVersion'', JNum 3), (''eventId'', JStr ''e1'')] = Inr deletion_digest \<and>
   deletion_digest = example_sha (canonicalJson (JObj deletion_arguments))"
proof -
  have "digestArguments example_sha deletion_arguments = Inr deletion_digest" by code_simp
  then have "digestArguments example_sha [(''expectedVersion'', JNum 3), (''eventId'', JStr ''e1'')] = Inr deletion_digest \<and>
      (deletion_digest = example_sha (canonicalJson (JObj deletion_arguments)) \<or> \<not> plain_keys (JObj deletion_arguments))"
    by (rule digest_is_of_canonical_arguments) (simp_all add: deletion_arguments_def)
  moreover have "plain_keys (JObj deletion_arguments)" by code_simp
  ultimately show ?thesis by blast
qed

theorem expired_approval_stays_approved_witness:
  "assertApprovedForExecution encrypted_approvals example_sha 601000 (deletion_approval ApprovalApproved)
     (co_tables (sy_co decided_system)) = (Inl InvalidArgument, co_tables (sy_co decided_system))"
proof (rule expired_approval_stays_approved)
  show "table_rows (co_tables (sy_co decided_system)) (approval_key (deletion_approval ApprovalApproved)) = Some (deletion_approval ApprovalApproved)"
    by code_simp
  show "sameApprovalBinding example_sha (deletion_approval ApprovalApproved) (deletion_approval ApprovalApproved)" by code_simp
qed code_simp+

end
