(* ===== verification/Spec2Isabelle.thy ===== *)
theory Spec2Isabelle
  imports SystemExamples PlanningExamples CalendarExamples CalendarCallers TimelineExamples AgentExamples
begin

text \<open>
  \<^bold>\<open>Sea-WhaleHall: the reflection and timeline pipelines, the planner, the calendar and the agent's tools\<close>

  Sea-WhaleHall is a desktop companion. A native sensor reports desktop observations; the
  reflection pipeline turns them into events, collects events into windows, and lets a job runner
  have each window judged by an inference provider. A second pipeline, the timeline, takes semantic
  events of the same desktop, renders them into facts, assembles facts into episodes, and delivers
  a summary of each window to the agent through an outbox with leases. A planner places the tasks of a plan into free
  time of the user's calendar; the calendar itself is an encrypted table that several writers share.
  The agent runs in a process of its own, and the two processes exchange framed JSON messages; what it wants
  to write goes through one-time approvals that the user decides on.

  \<^bold>\<open>Theories and sources\<close> (paths below \<open>src/\<close> of the repository)

  \<^item> \<open>Prelude\<close>: the fragment of JavaScript the sources use, computations on an object that may throw
    (\<open>comp\<close>), functions that may throw (\<open>bindE\<close>), weakest preconditions. Locales \<open>js_comparator\<close> and
    \<open>js_order\<close>: what a comparator promises to \<open>Array.sort\<close>.
  \<^item> \<open>ReflectionTypes\<close>: \<open>agent/reflection/types.ts\<close>; \<open>CanonicalJson\<close>: \<open>hash.ts\<close>.
  \<^item> \<open>WindowBuilder\<close>: \<open>window-builder.ts\<close>. The model input stays within its byte and token limits and
    keeps one line per event; the context is a bounded selection of recent counted events.
  \<^item> \<open>ReflectionRepository\<close>: \<open>repository.ts\<close>, the in-memory repository as four insertion-ordered maps
    and a snapshot. Its operations form a step relation; jobs and windows correspond, jobs follow
    their state machine, results are never lost, claims are exclusive until the lease ends.
  \<^item> \<open>JobRunner\<close>: \<open>job-runner.ts\<close>, over a record of repository operations; locale \<open>durable_jobs\<close> states
    what the runner relies on and the in-memory repository is shown to provide it. A run settles
    the job it claimed whatever its environment does.
  \<^item> \<open>Inference\<close>: \<open>inference.ts\<close>. What it returns passes the runner's checks; the runner's feedback rule
    and the policy agree; reminders are spaced.
  \<^item> \<open>Collector\<close>, \<open>CollectorCorrect\<close>, \<open>CollectorBehaviour\<close>: \<open>collector.ts\<close>. The collector object is a
    record, each public operation and timer callback one computation on it; locale \<open>collector_store\<close> is
    the contract of its repository. The invariant holds after every sequence of operations, windows
    are sealed well formed, revocation and a change of owner discard evidence, ingestion is
    idempotent, and a restart restores the snapshot.
  \<^item> \<open>Coalescer\<close>: \<open>coalescer.ts\<close>, with the locale \<open>identity_factory\<close> for event identities. It
    suppresses exactly the repeats, flushes in order, and loses no sample as long as no sum rounds.
  \<^item> \<open>Pipeline\<close>: collector, repository, runner and inference composed. Locale \<open>repository_invariant\<close> carries a
    property of the repository through every collector operation, and \<open>live_jobs\<close> extends
    \<open>durable_jobs\<close> by progress; every window sealed is finally committed.
  \<^item> \<open>TimelineTypes\<close>: \<open>agent/timeline/types.ts\<close>. \<open>TimelineContract\<close>: \<open>contract.ts\<close>, the guard on the JSON values of the
    sensor. An accepted value and the typed event read off it have the same canonical JSON, and no
    accepted payload has a forbidden field in one of its usual spellings.
  \<^item> \<open>TimelineRepository\<close>, \<open>TimelineRepositoryCorrect\<close>, \<open>TimelineOutbox\<close>: \<open>agent/timeline/repository.ts\<close>, the in-memory
    repository and its invariant under a step relation of all its calls. The abstract specification of
    its outbox is a queue of leases (locale \<open>lease_queue\<close>), and the outbox is shown to refine it: leases do
    not overlap, an acknowledgement is final, completing a window is all or nothing.
  \<^item> \<open>TimelineEvidence\<close>: \<open>evidence.ts\<close>; withheld content never reaches a fact. \<open>TimelineEpisodes\<close>: \<open>episodes.ts\<close> and
    \<open>hypothesis.ts\<close>; segmentation ends and conserves the facts that are no boundaries, and episodes account for them.
  \<^item> \<open>TimelineProcessor\<close>, \<open>TimelineRunner\<close>: \<open>processor.ts\<close>; a run settles the job it claims.
    \<open>TimelineAdapter\<close>: \<open>agent-input-adapter.ts\<close> and the delivery operations of \<open>service.ts\<close>; what the
    processor makes is what the delivery boundary accepts.
  \<^item> \<open>TimelineCollector\<close>, \<open>TimelineCollectorCorrect\<close>: \<open>agent/timeline/collector.ts\<close>; sealed windows are well formed,
    an authorization boundary forgets, and an event that is taken in is not lost.
  \<^item> \<open>TimelineSystem\<close>: contract, collector, repository, runner and adapter composed into one step relation; in
    every state it reaches a query for agent inputs is answered.
  \<^item> \<open>Scheduler\<close>, \<open>SchedulerCorrect\<close>: \<open>agent/planning/scheduler.ts\<close> and the operations of \<open>time.ts\<close> it uses. Slots
    are free, in order of the dependencies and within the capacity; every task is accounted for.
  \<^item> \<open>Framing\<close>: \<open>agent/mastra-host/framing.ts\<close>. The parser is a record of its buffer and the awaited body
    size; encoding and parsing round-trip for every chunking, and memory is bounded.
  \<^item> \<open>CalendarPolicy\<close>: \<open>shared/calendar.ts\<close> and \<open>bun/calendar-policy.ts\<close>. Validation, recurrence, overlap (symmetric,
    and exact on timed events) and conflicts.
  \<^item> \<open>CalendarStorage\<close>: the calendar tables of \<open>bun/encrypted-agent-repository.ts\<close>, three of their writers (the
    fourth, \<open>commitCalendarAndPlanningAuthority\<close>, changes these tables as \<open>commitCalendarBatch\<close> does), and a
    world in which other clients write between any two operations. No writer changes an account's
    rows without raising its revision.
  \<^item> \<open>CalendarRepository\<close>: \<open>bun/calendar-repository.ts\<close>. Locale \<open>calendar_store\<close> is the storage contract under
    interference and the tables are shown to provide it. Committed batches act on exactly the
    calendar they were checked against and keep it free of clashes, refused ones write nothing,
    and a loaded calendar is complete.
  \<^item> \<open>CalendarCallers\<close>: \<open>bun/calendar-mutation-policy.ts\<close> and \<open>bun/durable-calendar-mutation.ts\<close>. The renderer can unlock a
    model event in exactly one way, and a durable commit is never reported as failed.
  \<^item> \<open>AgentApprovals\<close>: \<open>bun/agent-tool-policy.ts\<close> over its repository interface (locale \<open>approval_store\<close>), and the
    approval tables of \<open>bun/encrypted-agent-repository.ts\<close>, which are shown to provide it: rows come in
    pending and are settled once. The digest of an approval does not depend on the order of the arguments.
  \<^item> \<open>AgentToolCalls\<close>, \<open>AgentToolSystem\<close>: the tool calls of \<open>bun/agent-run-coordinator.ts\<close> as segments, and a step
    relation in which they interleave with decisions, sessions, runs and restarts. The approvals in
    anybody's hands form a multiset in which none occurs twice and each is approved in the table, so a
    write is executed at most once, as the user saw it, and in time.
  \<^item> \<open>CollectorExamples\<close>, \<open>PipelineExamples\<close>, \<open>PlanningExamples\<close>, \<open>SystemExamples\<close>, \<open>CalendarExamples\<close>,
    \<open>TimelineExamples\<close>, \<open>AgentExamples\<close>: concrete runs, which apply each property that has hypotheses.

  \<^bold>\<open>Representation\<close>

  Numbers that count or measure time are unbounded integers; doubles (probabilities, embedding) are
  reals. The numbers of JSON values and the sampled amounts of the coalescer are whole: values with
  fractions, which the source accepts, and the rounding and overflow of double additions are outside
  the model. Canonical JSON enumerates the rebuilt object as an engine does: array indices first, and no
  \<open>__proto__\<close>. Strings are lists of characters with code points up to 255; a character of a literal beyond
  them is written by its code point, as in \<open><7528>\<close>. Maps of the source are
  association lists in insertion order (\<open>jmap\<close>). Errors are values of one datatype per component.
  An asynchronous method whose class serialises its callers is one computation; where the source
  awaits between steps and others can act, the model says what they do: the clock and the abort
  signal in \<open>run_env\<close>, the collector's clock in \<open>coll_clock\<close>, the clock and the abort signal of the timeline's runner by the
  points at which it reads them (\<open>TimelineRunEnv\<close>; a run is one step on its repository, so neither the states
  inside a run nor a crash in one are seen by the other calls), the other calendar clients in \<open>pending\<close>, and for the agent's
  tools the suspended segments in \<open>sy_frames\<close>, each of which reads the clock anew. \<open>commitAgentInput\<close> awaits a digest between its reads and its write;
  it is one step, as its callers wait for one another.

  \<^bold>\<open>Parameters\<close>

  \<open>localeCompare\<close> (\<open>lc\<close>), SHA-256 (\<open>digest\<close>, \<open>sha256\<close>), the inference provider and committer of the runner, the identity
  factory, \<open>Temporal\<close> and the time zone data (\<open>zone\<close> in the planner, \<open>time_library\<close> in the calendar together
  with the package \<open>rrule\<close>, \<open>zoned\<close> for the date index of timed events), UTF-8 and JSON (\<open>frame_codec\<close>), the
  platform's URL parser and printer (\<open>UrlLibrary\<close>), \<open>Intl.DateTimeFormat\<close> and the printing of doubles in the
  processor, \<open>crypto.randomUUID\<close> (\<open>uuid\<close>, of which delivery needs that it gives opaque text; run ids hold no colon and belong to one account, \<open>owner\<close>), and the
  runner's random jitter. \<open>hex_digest\<close> states that the hasher returns 64 hexadecimal digits.

  \<^bold>\<open>Bounds and fuel\<close>

  \<open>ingestSerialized\<close> calls itself; the model allows two activations, and a property of \<open>CollectorBehaviour\<close> shows
  that a third never runs unless the evidence was sealed before. \<open>tc_ingestSerialized\<close> of the
  timeline is the same: two activations suffice unless a window is stored under the identity of the open
  one. The page loop of \<open>listAllCalendarEvents\<close>
  has no bound in the source; \<open>max_pages\<close> bounds it, and one page more than the rows fill is enough
  while nobody else writes (\<open>list_pages_enough\<close>). The other loops are structural or have a termination
  proof: the traversal of the dependencies, the search for a slot, the parser's loop over frames, the
  segmentation of facts and the collapse of segments.

  \<^bold>\<open>Not modelled\<close>

  The wiring of \<open>reflection/service.ts\<close>, the SQLite repositories and the encryption and key store (calls of
  third-party code), of the timeline the polling service, the audit, the training export and the
  vault clients (input and output around stored results), the planner's runtime around the scheduler, the rest
  of the agent run coordinator (conversations, the relay of model calls, activity analyses, persistence
  of snapshots; the tool executor is a log), the Mastra runtime, start-up, updates and synchronisation, the
  React views, and the native sensors in Rust, Swift and C.

  \<^bold>\<open>Plan\<close>

  What would add most next: the validation in the planner's runtime, the polling loop of the timeline service, and
  the reactivation of suspended runs in the coordinator.
\<close>

end
